(* ===== verification/Prelude.thy ===== *)
theory Prelude
  imports Complex_Main "HOL-Library.Multiset" "HOL-Library.Word"
begin

text \<open>
  Shared vocabulary of the development. Collections of rewrite rules that the component
  theories extend, the type synonyms that name the model's basic types, and the generic
  lemmas on lists and maps that several components use.

  Go values are represented as follows. A Go \<open>string\<close> is a list of bytes, here a
  \<open>string\<close>. A Go map is a partial function \<open>'k \<rightharpoonup> 'v\<close>; where the code ranges over a
  map, whose order Go leaves open, the model takes the order as an explicit list of keys.
  A \<open>time.Time\<close> is the number of nanoseconds since the epoch and a \<open>time.Duration\<close>
  a number of nanoseconds, both as \<open>int\<close>. A value together with an error is a sum
  whose left part is the error.
\<close>

named_theorems money_simps \<open>unfolding the pricing and ledger operations\<close>
named_theorems node_simps \<open>unfolding the registry operations\<close>
named_theorems auth_simps \<open>unfolding the identity and authorisation operations\<close>

type_synonym time = int
type_synonym duration = int
type_synonym user_id = string
type_synonym node_id = string
type_synonym job_id = string
type_synonym pod_id = string
type_synonym bytes = "8 word list"

abbreviation second :: duration where "second \<equiv> 1000000000"
abbreviation minute :: duration where "minute \<equiv> 60 * second"
abbreviation hour :: duration where "hour \<equiv> 60 * minute"

section \<open>Maps\<close>

text \<open>Deleting the keys that satisfy a test is what the code's eviction loops do.\<close>

definition evict :: "('k \<Rightarrow> 'v \<Rightarrow> bool) \<Rightarrow> ('k \<rightharpoonup> 'v) \<Rightarrow> ('k \<rightharpoonup> 'v)" where
  "evict dead m = (\<lambda>k. case m k of None \<Rightarrow> None | Some v \<Rightarrow> if dead k v then None else Some v)"

lemma evict_Some [simp]: "evict dead m k = Some v \<longleftrightarrow> m k = Some v \<and> \<not> dead k v"
  by (auto simp: evict_def split: option.splits)

lemma evict_None: "m k = None \<Longrightarrow> evict dead m k = None"
  by (simp add: evict_def)

lemma evict_submap: "evict dead m \<subseteq>\<^sub>m m"
  by (auto simp: map_le_def evict_def split: option.splits if_splits)

lemma dom_evict_subset: "dom (evict dead m) \<subseteq> dom m"
  by (auto simp: evict_def split: option.splits if_splits)

lemma finite_dom_evict [simp, intro]: "finite (dom m) \<Longrightarrow> finite (dom (evict dead m))"
  by (rule finite_subset[OF dom_evict_subset])

text \<open>An order in which a \<open>range\<close> loop may visit a map: every key once.\<close>

definition range_order :: "'k list \<Rightarrow> ('k \<rightharpoonup> 'v) \<Rightarrow> bool" where
  "range_order ks m \<longleftrightarrow> distinct ks \<and> set ks = dom m"

lemma range_order_mem: "range_order ks m \<Longrightarrow> k \<in> set ks \<longleftrightarrow> (\<exists>v. m k = Some v)"
  by (auto simp: range_order_def)

section \<open>Lists\<close>

lemma find_Some_mem: "find P xs = Some x \<Longrightarrow> x \<in> set xs \<and> P x"
  by (induction xs) (auto split: if_splits)

lemma find_None_all: "find P xs = None \<longleftrightarrow> (\<forall>x \<in> set xs. \<not> P x)"
  by (induction xs) auto

text \<open>
  Exchanging two positions of a slice, as \<open>xs[0], xs[i] = xs[i], xs[0]\<close> does.
\<close>

definition swap_front :: "nat \<Rightarrow> 'a list \<Rightarrow> 'a list" where
  "swap_front i xs = (if i = 0 then xs else xs[0 := xs ! i, i := xs ! 0])"

lemma length_swap_front [simp]: "length (swap_front i xs) = length xs"
  by (simp add: swap_front_def)

lemma mset_swap_front [simp]: "i < length xs \<Longrightarrow> mset (swap_front i xs) = mset xs"
  by (cases "i = 0") (auto simp: swap_front_def intro: mset_swap)

lemma set_swap_front [simp]: "i < length xs \<Longrightarrow> set (swap_front i xs) = set xs"
  by (metis mset_swap_front set_mset_mset)

lemma nth_swap_front_0 [simp]: "i < length xs \<Longrightarrow> swap_front i xs ! 0 = xs ! i"
  by (cases xs) (auto simp: swap_front_def nth_Cons split: nat.splits)

lemma map_swap_front: "i < length xs \<Longrightarrow> map f (swap_front i xs) = swap_front i (map f xs)"
  by (cases xs) (auto simp: swap_front_def map_update nth_Cons split: nat.splits)

text \<open>
  \<open>sort.Slice\<close> sorts by a strict comparison and does not promise where equal elements
  end up. The model uses the stable insertion sort; since every list that the code sorts
  comes out of a map iteration (whose order the model leaves open), each outcome that the
  library may produce is the outcome of the stable sort for some iteration order.
\<close>

fun insert_by :: "('a \<Rightarrow> 'a \<Rightarrow> bool) \<Rightarrow> 'a \<Rightarrow> 'a list \<Rightarrow> 'a list" where
  "insert_by lt x [] = [x]"
| "insert_by lt x (y # ys) = (if lt y x then y # insert_by lt x ys else x # y # ys)"

definition sort_slice :: "('a \<Rightarrow> 'a \<Rightarrow> bool) \<Rightarrow> 'a list \<Rightarrow> 'a list" where
  "sort_slice lt xs = foldr (insert_by lt) xs []"

lemma sort_slice_simps [simp]:
  "sort_slice lt [] = []"
  "sort_slice lt (x # xs) = insert_by lt x (sort_slice lt xs)"
  by (simp_all add: sort_slice_def)

lemma mset_insert_by [simp]: "mset (insert_by lt x xs) = add_mset x (mset xs)"
  by (induction xs) auto

lemma mset_sort_slice [simp]: "mset (sort_slice lt xs) = mset xs"
  by (induction xs) auto

lemma set_insert_by [simp]: "set (insert_by lt x xs) = insert x (set xs)"
  by (induction xs) auto

lemma set_sort_slice [simp]: "set (sort_slice lt xs) = set xs"
  by (metis mset_sort_slice set_mset_mset)

lemma length_sort_slice [simp]: "length (sort_slice lt xs) = length xs"
  by (metis mset_sort_slice size_mset)

text \<open>
  The comparison has to be a strict weak order on keys: here \<open>lt a b\<close> is
  \<open>f a < f b\<close> (or the reverse), which is how the code writes every comparison.
\<close>

lemma insert_by_key_sorted:
  fixes f :: "'a \<Rightarrow> 'b::linorder"
  assumes "sorted (map f xs)"
  shows "sorted (map f (insert_by (\<lambda>a b. f a < f b) x xs))"
  using assms by (induction xs) (auto simp: not_less order.strict_implies_order)

lemma sort_slice_key_sorted:
  fixes f :: "'a \<Rightarrow> 'b::linorder"
  shows "sorted (map f (sort_slice (\<lambda>a b. f a < f b) xs))"
  by (induction xs) (auto intro: insert_by_key_sorted)

lemma insert_by_rev_key_sorted:
  fixes f :: "'a \<Rightarrow> 'b::linorder"
  assumes "sorted_wrt (\<ge>) (map f xs)"
  shows "sorted_wrt (\<ge>) (map f (insert_by (\<lambda>a b. f a > f b) x xs))"
  using assms by (induction xs) (auto simp: not_less order.strict_implies_order)

lemma sort_slice_rev_key_sorted:
  fixes f :: "'a \<Rightarrow> 'b::linorder"
  shows "sorted_wrt (\<ge>) (map f (sort_slice (\<lambda>a b. f a > f b) xs))"
  by (induction xs) (auto intro: insert_by_rev_key_sorted)

text \<open>Sorting by a key is stable: it commutes with filtering.\<close>

lemma insert_by_front:
  fixes f :: "'a \<Rightarrow> 'b::linorder"
  assumes "\<forall>y \<in> set ys. f x \<le> f y"
  shows "insert_by (\<lambda>a b. f a < f b) x ys = x # ys"
  using assms by (cases ys) (auto simp: not_less)

lemma filter_insert_by:
  fixes f :: "'a \<Rightarrow> 'b::linorder"
  assumes "sorted (map f ys)"
  shows "filter P (insert_by (\<lambda>a b. f a < f b) x ys) =
    (if P x then insert_by (\<lambda>a b. f a < f b) x (filter P ys) else filter P ys)"
  using assms
proof (induction ys)
  case (Cons y ys)
  show ?case
  proof (cases "f y < f x")
    case True
    then show ?thesis using Cons by auto
  next
    case False
    then have "\<forall>z \<in> set (filter P (y # ys)). f x \<le> f z" using Cons.prems by auto
    from insert_by_front[OF this] show ?thesis using False by simp
  qed
qed simp

lemma filter_sort_slice:
  fixes f :: "'a \<Rightarrow> 'b::linorder"
  shows "filter P (sort_slice (\<lambda>a b. f a < f b) xs) = sort_slice (\<lambda>a b. f a < f b) (filter P xs)"
  by (induction xs) (simp_all add: filter_insert_by sort_slice_key_sorted)

text \<open>With pairwise different keys the result does not depend on the order of the input.\<close>

lemma sorted_key_unique:
  fixes f :: "'a \<Rightarrow> 'b::linorder"
  assumes "sorted (map f xs)" "sorted (map f ys)" "mset xs = mset ys" "distinct (map f xs)"
  shows "xs = ys"
proof -
  have s: "set xs = set ys" using assms(3) mset_eq_setD by blast
  have d: "distinct (map f ys)" using assms(3,4) by (metis mset_map mset_eq_imp_distinct_iff)
  have i: "inj_on f (set xs \<union> set ys)" using assms(4) s by (simp add: distinct_map)
  have "map f xs = map f ys" using assms(1,2,4) d s by (intro sorted_distinct_set_unique) auto
  then show ?thesis using i by (rule map_inj_on)
qed

lemma sort_slice_unique:
  fixes f :: "'a \<Rightarrow> 'b::linorder"
  assumes "mset xs = mset ys" "distinct (map f xs)"
  shows "sort_slice (\<lambda>a b. f a < f b) xs = sort_slice (\<lambda>a b. f a < f b) ys"
proof (rule sorted_key_unique[where f = f])
  show "distinct (map f (sort_slice (\<lambda>a b. f a < f b) xs))"
    using assms(2) by (metis mset_map mset_eq_imp_distinct_iff mset_sort_slice)
qed (simp_all add: sort_slice_key_sorted assms(1))

end
