(* ===== verification/Float64.thy ===== *)
theory Float64
  imports Prelude "HOL-Library.Log_Nat"
begin

text \<open>
  IEEE 754 binary64 arithmetic as Go's \<open>float64\<close> uses it: a value is a rational number
  and every operation rounds its exact result to the nearest representable number, ties
  to even. The significand has 53 bits and subnormal numbers are included; the exponent
  has no upper limit, so results beyond 1.8e308 (which Go turns into an infinity) stay
  finite here. NaN and the infinities are not values of the type: the code that is
  modelled divides by a number only after testing it, and it never decodes them from
  JSON, which has no notation for them. The one use of an infinity, the score of an
  ineligible node, is an option in the model.
\<close>

type_synonym f64 = rat

section \<open>Exponent of a rational\<close>

definition ilog2 :: "rat \<Rightarrow> int" where
  "ilog2 x = (let (p, q) = quotient_of \<bar>x\<bar>; e = bitlen p - bitlen q
     in if 2 powi e \<le> \<bar>x\<bar> then e else e - 1)"

lemma pow2_pos [simp]: "(0::rat) < 2 powi e"
  by (simp add: zero_less_power_int)

lemma pow2_nonneg [simp]: "(0::rat) \<le> 2 powi e"
  by simp

lemma pow2_neq0 [simp]: "(2::rat) powi e \<noteq> 0"
  by simp

lemma pow2_add: "(2::rat) powi (a + b) = 2 powi a * 2 powi b"
  by (simp add: power_int_add)

lemma pow2_diff: "(2::rat) powi (a - b) = 2 powi a / 2 powi b"
  by (simp add: power_int_diff)

lemma pow2_mono: "a \<le> b \<Longrightarrow> (2::rat) powi a \<le> 2 powi b"
  by (rule power_int_increasing) auto

lemma pow2_strict: "a < b \<Longrightarrow> (2::rat) powi a < 2 powi b"
  by (rule power_int_strict_increasing) auto

lemma pow2_less_iff: "(2::rat) powi a < 2 powi b \<longleftrightarrow> a < b"
  by (metis linorder_not_le pow2_mono pow2_strict)

lemma pow2_le_iff: "(2::rat) powi a \<le> 2 powi b \<longleftrightarrow> a \<le> b"
  by (metis linorder_not_le pow2_mono pow2_strict)

lemma pow2_nat: "0 \<le> e \<Longrightarrow> (2::rat) powi e = of_int (2 ^ nat e)"
  by (simp add: power_int_def)

lemma bitlen_rat_bounds:
  assumes "0 < (p::int)"
  shows "2 powi (bitlen p - 1) \<le> (of_int p :: rat)" "(of_int p :: rat) < 2 powi (bitlen p)"
proof -
  have b: "1 \<le> bitlen p" using assms by (simp add: bitlen_eq_zero_iff order.strict_iff_order bitlen_nonneg int_one_le_iff_zero_less)
  have "2 ^ nat (bitlen p - 1) \<le> p" "p < 2 ^ nat (bitlen p)"
    using bitlen_bounds[OF assms] by auto
  then have "(of_int (2 ^ nat (bitlen p - 1)) :: rat) \<le> of_int p"
    "(of_int p :: rat) < of_int (2 ^ nat (bitlen p))"
    by (simp_all only: of_int_le_iff of_int_less_iff)
  then show "2 powi (bitlen p - 1) \<le> (of_int p :: rat)" "(of_int p :: rat) < 2 powi (bitlen p)"
    using b by (simp_all add: pow2_nat)
qed

lemma ilog2_bounds:
  assumes "x \<noteq> 0"
  shows "2 powi (ilog2 x) \<le> \<bar>x\<bar>" "\<bar>x\<bar> < 2 powi (ilog2 x + 1)"
proof -
  obtain p q where pq: "quotient_of \<bar>x\<bar> = (p, q)" by fastforce
  have q: "0 < q" using quotient_of_denom_pos[OF pq] .
  have xq: "\<bar>x\<bar> = of_int p / of_int q" using quotient_of_div[OF pq] .
  have p: "0 < p" using assms q xq
    by (metis abs_le_zero_iff divide_nonpos_pos linorder_not_le of_int_0_less_iff of_int_le_0_iff)
  let ?e = "bitlen p - bitlen q"
  have up: "\<bar>x\<bar> < 2 powi (?e + 1)"
  proof -
    have "(of_int p :: rat) / of_int q < 2 powi (bitlen p) / of_int q"
      using bitlen_rat_bounds(2)[OF p] q by (simp add: divide_strict_right_mono)
    also have "\<dots> \<le> 2 powi (bitlen p) / 2 powi (bitlen q - 1)"
      using bitlen_rat_bounds(1)[OF q] q by (intro divide_left_mono) auto
    also have "\<dots> = 2 powi (?e + 1)"
      by (simp add: pow2_diff[symmetric] algebra_simps)
    finally show ?thesis using xq by simp
  qed
  have lo: "2 powi (?e - 1) \<le> \<bar>x\<bar>"
  proof -
    have "(2::rat) powi (?e - 1) = 2 powi (bitlen p - 1) / 2 powi (bitlen q)"
      by (simp add: pow2_diff[symmetric] algebra_simps)
    also have "\<dots> \<le> of_int p / 2 powi (bitlen q)"
      using bitlen_rat_bounds(1)[OF p] by (simp add: divide_right_mono)
    also have "\<dots> \<le> of_int p / of_int q"
      using bitlen_rat_bounds(2)[OF q] p q by (intro divide_left_mono) auto
    finally show ?thesis using xq by simp
  qed
  show "2 powi (ilog2 x) \<le> \<bar>x\<bar>" using lo by (auto simp: ilog2_def pq Let_def)
  show "\<bar>x\<bar> < 2 powi (ilog2 x + 1)" using up by (auto simp: ilog2_def pq Let_def)
qed

lemma ilog2_unique:
  assumes "2 powi e \<le> \<bar>x\<bar>" "\<bar>x\<bar> < 2 powi (e + 1)"
  shows "ilog2 x = e"
proof -
  have "x \<noteq> 0" using assms(1) pow2_pos[of e] by linarith
  from ilog2_bounds[OF this] assms
  have "(2::rat) powi (ilog2 x) < 2 powi (e + 1)" "(2::rat) powi e < 2 powi (ilog2 x + 1)"
    by linarith+
  then show ?thesis by (simp add: pow2_less_iff)
qed

lemma ilog2_minus [simp]: "ilog2 (- x) = ilog2 x"
  by (simp add: ilog2_def)

lemma ilog2_mono:
  assumes "x \<noteq> 0" "\<bar>x\<bar> \<le> \<bar>y\<bar>" shows "ilog2 x \<le> ilog2 y"
proof -
  have "y \<noteq> 0" using assms by auto
  from ilog2_bounds(1)[OF assms(1)] ilog2_bounds(2)[OF this] assms(2)
  have "(2::rat) powi (ilog2 x) < 2 powi (ilog2 y + 1)" by linarith
  then show ?thesis by (simp add: pow2_less_iff)
qed

section \<open>Rounding to the nearest integer, ties to even\<close>

definition rne :: "rat \<Rightarrow> int" where
  "rne x = (let n = \<lfloor>x\<rfloor>; d = x - of_int n
     in if d < 1 / 2 then n else if 1 / 2 < d then n + 1 else if even n then n else n + 1)"

lemma rne_error: "\<bar>of_int (rne x) - x\<bar> \<le> 1 / 2"
proof -
  have "of_int \<lfloor>x\<rfloor> \<le> x" "x < of_int \<lfloor>x\<rfloor> + 1" by linarith+
  then show ?thesis unfolding rne_def Let_def by (auto simp: abs_le_iff)
qed

lemma rne_of_int [simp]: "rne (of_int n) = n"
  by (simp add: rne_def)

lemma rne_ge_iff_int: "of_int n \<le> x \<Longrightarrow> n \<le> rne x"
proof -
  assume "of_int n \<le> x"
  then have "n \<le> \<lfloor>x\<rfloor>" by (simp add: le_floor_iff)
  then show ?thesis by (simp add: rne_def Let_def)
qed

lemma rne_le_int: assumes "x \<le> of_int n" shows "rne x \<le> n"
proof -
  have a: "of_int (rne x) \<le> x + 1 / 2" using rne_error[of x] by linarith
  then have "of_int (rne x) < (of_int n + 1 :: rat)" using assms by linarith
  then have "of_int (rne x) < (of_int (n + 1) :: rat)" by simp
  then show ?thesis by (simp only: of_int_less_iff)
qed

lemma rne_mono: assumes "x \<le> y" shows "rne x \<le> rne y"
proof (cases "\<lfloor>x\<rfloor> = \<lfloor>y\<rfloor>")
  case True
  then show ?thesis using assms by (auto simp: rne_def Let_def)
next
  case False
  then have "\<lfloor>x\<rfloor> + 1 \<le> \<lfloor>y\<rfloor>" using floor_mono[OF assms] by linarith
  moreover have "rne x \<le> \<lfloor>x\<rfloor> + 1" by (simp add: rne_def Let_def)
  moreover have "\<lfloor>y\<rfloor> \<le> rne y" by (simp add: rne_def Let_def)
  ultimately show ?thesis by linarith
qed

lemma rne_minus: "rne (- x) = - rne x"
proof (cases "x = of_int \<lfloor>x\<rfloor>")
  case True
  then show ?thesis by (metis of_int_minus rne_of_int)
next
  case False
  then have c: "\<lfloor>- x\<rfloor> = - \<lfloor>x\<rfloor> - 1"
    by (metis ceiling_altdef floor_minus minus_add_distrib uminus_add_conv_diff add.commute)
  have d: "- x - of_int (- \<lfloor>x\<rfloor> - 1) = 1 - (x - of_int \<lfloor>x\<rfloor>)" by simp
  show ?thesis unfolding rne_def Let_def c d by auto
qed

section \<open>Rounding to binary64\<close>

definition uexp :: "rat \<Rightarrow> int" where
  "uexp x = max (ilog2 x) (- 1022) - 52"

definition fl :: "rat \<Rightarrow> f64" where
  "fl x = (if x = 0 then 0 else of_int (rne (x / 2 powi (uexp x))) * 2 powi (uexp x))"

definition is_f64 :: "rat \<Rightarrow> bool" where
  "is_f64 x \<longleftrightarrow> (\<exists>m e. x = of_int m * 2 powi e \<and> \<bar>m\<bar> \<le> 2 ^ 53 \<and> - 1074 \<le> e)"

lemma fl_0 [simp]: "fl 0 = 0"
  by (simp add: fl_def)

lemma fl_minus [simp]: "fl (- x) = - fl x"
  by (simp add: fl_def uexp_def rne_minus minus_divide_left[symmetric] del: minus_divide_left)

lemma scaled_bounds:
  assumes "x \<noteq> 0"
  shows "\<bar>x\<bar> / 2 powi (uexp x) < 2 ^ 53"
proof -
  have "\<bar>x\<bar> < 2 powi (ilog2 x + 1)" using ilog2_bounds(2)[OF assms] .
  also have "\<dots> \<le> 2 powi (uexp x + 53)" by (rule pow2_mono) (simp add: uexp_def)
  also have "\<dots> = 2 powi (uexp x) * 2 ^ 53" by (simp add: pow2_add)
  finally show ?thesis by (simp add: divide_less_eq mult.commute)
qed

lemma is_f64_fl [simp, intro]: "is_f64 (fl x)"
proof (cases "x = 0")
  case True
  then show ?thesis by (auto simp: is_f64_def intro!: exI[of _ 0])
next
  case False
  let ?s = "x / 2 powi (uexp x)"
  have "\<bar>?s\<bar> \<le> of_int (2 ^ 53)" using scaled_bounds[OF False] by (simp add: abs_divide)
  then have "?s \<le> of_int (2 ^ 53)" "of_int (- (2 ^ 53)) \<le> ?s" by (simp_all only: abs_le_iff of_int_minus)
     (simp_all add: minus_le_iff)
  then have "rne ?s \<le> 2 ^ 53" "- (2 ^ 53) \<le> rne ?s"
    using rne_le_int rne_ge_iff_int by blast+
  then have "\<bar>rne ?s\<bar> \<le> 2 ^ 53" by (simp add: abs_le_iff)
  moreover have "- 1074 \<le> uexp x" by (simp add: uexp_def)
  ultimately show ?thesis using False unfolding is_f64_def fl_def by auto
qed

lemma fl_id:
  assumes "is_f64 x" shows "fl x = x"
proof (cases "x = 0")
  case False
  from assms obtain m e where x: "x = of_int m * 2 powi e" and m: "\<bar>m\<bar> \<le> 2 ^ 53" and e: "- 1074 \<le> e"
    unfolding is_f64_def by blast
  have m0: "m \<noteq> 0" using False x by auto
  show ?thesis
  proof (cases "\<bar>m\<bar> = 2 ^ 53")
    case True
    have "\<bar>x\<bar> = of_int \<bar>m\<bar> * 2 powi e" using x by (simp add: abs_mult)
    also have "\<dots> = 2 powi (e + 53)" using True by (simp add: pow2_add)
    finally have ax: "\<bar>x\<bar> = 2 powi (e + 53)" .
    have "ilog2 x = e + 53" by (rule ilog2_unique) (simp_all add: ax pow2_less_iff)
    then have u: "uexp x = e + 1" using e by (simp add: uexp_def)
    obtain k where k: "m = 2 * k" using True
      by (metis abs_if dvd_def dvd_minus_iff dvd_power zero_less_numeral)
    have "x / 2 powi (uexp x) = of_int k" using x u k by (simp add: pow2_add)
    then show ?thesis using False by (simp add: fl_def)
       (metis eq_divide_eq pow2_neq0)
  next
    case False
    then have m': "\<bar>m\<bar> < 2 ^ 53" using m by simp
    have "\<bar>x\<bar> = of_int \<bar>m\<bar> * 2 powi e" using x by (simp add: abs_mult)
    also have "\<dots> < of_int (2 ^ 53) * 2 powi e"
      using m' by (intro mult_strict_right_mono) (simp_all only: of_int_less_iff pow2_pos)
    also have "\<dots> = 2 powi (e + 53)" by (simp add: pow2_add)
    finally have "\<bar>x\<bar> < 2 powi (e + 53)" .
    moreover have "2 powi (ilog2 x) \<le> \<bar>x\<bar>" using ilog2_bounds(1) \<open>x \<noteq> 0\<close> by blast
    ultimately have "(2::rat) powi (ilog2 x) < 2 powi (e + 53)" by linarith
    then have "ilog2 x < e + 53" by (simp add: pow2_less_iff)
    then have u: "uexp x \<le> e" using e by (simp add: uexp_def)
    have "x / 2 powi (uexp x) = of_int m * 2 powi (e - uexp x)" using x by (simp add: pow2_diff)
    also have "\<dots> = of_int (m * 2 ^ nat (e - uexp x))" using u by (simp add: pow2_nat)
    finally have "x / 2 powi (uexp x) = of_int (m * 2 ^ nat (e - uexp x))" .
    then have "rne (x / 2 powi (uexp x)) = m * 2 ^ nat (e - uexp x)" by (simp only: rne_of_int)
    then show ?thesis using \<open>x \<noteq> 0\<close>
      by (metis \<open>x / 2 powi uexp x = rat_of_int (m * 2 ^ nat (e - uexp x))\<close> fl_def nonzero_eq_divide_eq pow2_neq0)
  qed
qed simp

lemma fl_fl [simp]: "fl (fl x) = fl x"
  by (simp add: fl_id)

lemma fl_nonneg: "0 \<le> x \<Longrightarrow> 0 \<le> fl x"
proof -
  assume "0 \<le> x"
  then have "of_int 0 \<le> x / 2 powi (uexp x)" by simp
  then have "0 \<le> rne (x / 2 powi (uexp x))" by (rule rne_ge_iff_int)
  then show ?thesis by (simp add: fl_def)
qed

lemma fl_mono_pos:
  assumes "0 < x" "x \<le> y" shows "fl x \<le> fl y"
proof -
  have y: "0 < y" using assms by linarith
  have il: "ilog2 x \<le> ilog2 y" using assms by (intro ilog2_mono) auto
  then have ule: "uexp x \<le> uexp y" by (simp add: uexp_def)
  show ?thesis
  proof (cases "uexp x = uexp y")
    case True
    have "x / 2 powi (uexp y) \<le> y / 2 powi (uexp y)" using assms by (simp add: divide_right_mono)
    then have "rne (x / 2 powi (uexp y)) \<le> rne (y / 2 powi (uexp y))" by (rule rne_mono)
    then show ?thesis using assms y True by (simp add: fl_def)
  next
    case False
    then have lt: "uexp x < uexp y" using ule by simp
    then have uy: "uexp y = ilog2 y - 52" by (auto simp: uexp_def)
    have "x / 2 powi (uexp x) \<le> of_int (2 ^ 53)" using scaled_bounds[of x] assms by simp
    then have "rne (x / 2 powi (uexp x)) \<le> 2 ^ 53" by (rule rne_le_int)
    then have "(of_int (rne (x / 2 powi (uexp x))) :: rat) \<le> of_int (2 ^ 53)" by (simp only: of_int_le_iff)
    then have "fl x \<le> of_int (2 ^ 53) * 2 powi (uexp x)"
      using assms by (simp add: fl_def mult_right_mono)
    also have "\<dots> = 2 powi (uexp x + 53)" by (simp add: pow2_add)
    also have "\<dots> \<le> 2 powi (uexp y + 52)" by (rule pow2_mono) (use lt in simp)
    also have "\<dots> = of_int (2 ^ 52) * 2 powi (uexp y)" by (simp add: pow2_add)
    also have "\<dots> \<le> of_int (rne (y / 2 powi (uexp y))) * 2 powi (uexp y)"
    proof -
      have "2 powi (uexp y + 52) \<le> y" using ilog2_bounds(1)[of y] y uy by simp
      then have "of_int (2 ^ 52) \<le> y / 2 powi (uexp y)"
        by (simp add: pow2_add le_divide_eq mult.commute)
      then have "2 ^ 52 \<le> rne (y / 2 powi (uexp y))" by (rule rne_ge_iff_int)
      then have "(of_int (2 ^ 52) :: rat) \<le> of_int (rne (y / 2 powi (uexp y)))"
        by (simp only: of_int_le_iff)
      then show ?thesis by (rule mult_right_mono) simp
    qed
    also have "\<dots> = fl y" using y by (simp add: fl_def)
    finally show ?thesis .
  qed
qed

lemma fl_mono: assumes "x \<le> y" shows "fl x \<le> fl y"
proof -
  consider "0 < x" | "x \<le> 0" "0 \<le> y" | "y < 0" by linarith
  then show ?thesis
  proof cases
    case 1 then show ?thesis using assms by (rule fl_mono_pos)
  next
    case 2
    have "0 \<le> fl (- x)" "0 \<le> fl y" using 2 fl_nonneg by (simp_all del: fl_minus)
    then show ?thesis by simp
  next
    case 3
    then have "fl (- y) \<le> fl (- x)" using assms by (intro fl_mono_pos) auto
    then show ?thesis by simp
  qed
qed

lemma fl_le_f64: "is_f64 y \<Longrightarrow> x \<le> y \<Longrightarrow> fl x \<le> y"
  by (metis fl_id fl_mono)

lemma fl_ge_f64: "is_f64 y \<Longrightarrow> y \<le> x \<Longrightarrow> y \<le> fl x"
  by (metis fl_id fl_mono)

section \<open>The rounding error\<close>

lemma fl_error_ulp: "\<bar>fl x - x\<bar> \<le> 2 powi (uexp x) / 2"
proof (cases "x = 0")
  case False
  let ?u = "2 powi (uexp x) :: rat"
  have "fl x - x = (of_int (rne (x / ?u)) - x / ?u) * ?u"
    using False by (simp add: fl_def left_diff_distrib)
  then have "\<bar>fl x - x\<bar> = \<bar>of_int (rne (x / ?u)) - x / ?u\<bar> * ?u"
    by (simp add: abs_mult)
  also have "\<dots> \<le> 1 / 2 * ?u" by (rule mult_right_mono[OF rne_error]) simp
  finally show ?thesis by simp
qed simp

lemma ulp_bound:
  assumes "x \<noteq> 0"
  shows "2 powi (uexp x) \<le> max (\<bar>x\<bar> / 2 ^ 52) (2 powi (- 1074))"
proof (cases "- 1022 \<le> ilog2 x")
  case True
  then have "(2::rat) powi (uexp x) = 2 powi (ilog2 x) / 2 ^ 52"
    by (simp add: uexp_def pow2_diff)
  also have "\<dots> \<le> \<bar>x\<bar> / 2 ^ 52" using ilog2_bounds(1)[OF assms] by (simp add: divide_right_mono)
  finally show ?thesis by simp
next
  case False
  then show ?thesis by (simp add: uexp_def)
qed

lemma fl_error: "\<bar>fl x - x\<bar> \<le> \<bar>x\<bar> / 2 ^ 53 + 2 powi (- 1075)"
proof (cases "x = 0")
  case False
  have p: "(2::rat) powi (- 1074) / 2 = 2 powi (- 1075)"
    using pow2_diff[of "- 1074" 1] by simp
  have "\<bar>fl x - x\<bar> \<le> max (\<bar>x\<bar> / 2 ^ 52) (2 powi (- 1074)) / 2"
    by (rule order_trans[OF fl_error_ulp divide_right_mono[OF ulp_bound[OF False]]]) simp
  also have "\<dots> = max (\<bar>x\<bar> / 2 ^ 53) (2 powi (- 1075))"
    using p by (simp add: max_def)
  also have "\<dots> \<le> \<bar>x\<bar> / 2 ^ 53 + 2 powi (- 1075)" by simp
  finally show ?thesis .
qed simp

text \<open>For numbers that are not subnormal the error is relative.\<close>

lemma fl_rel_error:
  assumes "2 powi (- 1022) \<le> \<bar>x\<bar>"
  shows "\<bar>fl x - x\<bar> \<le> \<bar>x\<bar> / 2 ^ 53"
proof -
  have x: "x \<noteq> 0" using assms pow2_pos[of "- 1022"] by auto
  have "2 powi (- 1022) < (2::rat) powi (ilog2 x + 1)" using assms ilog2_bounds(2)[OF x] by linarith
  then have "- 1022 < ilog2 x + 1" by (rule iffD1[OF pow2_less_iff])
  then have "- 1022 \<le> ilog2 x" by simp
  then have "(2::rat) powi (uexp x) = 2 powi (ilog2 x) / 2 ^ 52"
    by (simp add: uexp_def pow2_diff)
  also have "\<dots> \<le> \<bar>x\<bar> / 2 ^ 52" using ilog2_bounds(1)[OF x] by (simp add: divide_right_mono)
  finally show ?thesis using fl_error_ulp[of x] by simp
qed

text \<open>The same for the magnitudes the money code meets, as two bounds.\<close>

lemma tiny_pow: "2 powi (- 1022) \<le> (1 / 2 ^ 60 :: rat)"
proof -
  have "(1 / 2 ^ 60 :: rat) = 2 powi (- 60)"
    by (simp add: power_int_def power_divide)
  moreover have "(2::rat) powi (- 1022) \<le> 2 powi (- 60)" by (rule pow2_mono) simp
  ultimately show ?thesis by (rule ord_le_eq_trans[OF _ sym, rotated])
qed

lemma fl_rel:
  assumes "1 / 2 ^ 60 \<le> x"
  shows "fl x \<le> x * (1 + 1 / 2 ^ 53)" "x * (1 - 1 / 2 ^ 53) \<le> fl x"
proof -
  have x: "0 \<le> x" using assms by (rule order_trans[rotated]) simp
  have "2 powi (- 1022) \<le> \<bar>x\<bar>" using order_trans[OF tiny_pow assms] x by (simp only: abs_of_nonneg)
  from fl_rel_error[OF this] x have "\<bar>fl x - x\<bar> \<le> x / 2 ^ 53" by simp
  then show "fl x \<le> x * (1 + 1 / 2 ^ 53)" "x * (1 - 1 / 2 ^ 53) \<le> fl x"
    unfolding abs_le_iff distrib_left right_diff_distrib by (auto simp: field_simps)
qed

section \<open>Exact operations\<close>

lemma is_f64_of_int: assumes "\<bar>n\<bar> \<le> 2 ^ 53" shows "is_f64 (of_int n)"
  using assms unfolding is_f64_def by (intro exI[of _ n] exI[of _ 0]) auto

lemma is_f64_of_nat: assumes "n \<le> 2 ^ 53" shows "is_f64 (of_nat n)"
  using is_f64_of_int[of "int n"] assms by simp

lemma is_f64_0 [simp]: "is_f64 0" and is_f64_1 [simp]: "is_f64 1"
  using is_f64_of_int[of 0] is_f64_of_int[of 1] by simp_all

lemma fl_1 [simp]: "fl 1 = 1"
  by (simp add: fl_id)

lemma is_f64_minus: "is_f64 x \<Longrightarrow> is_f64 (- x)"
  by (metis fl_id fl_minus is_f64_fl)

lemma is_f64_min: "is_f64 x \<Longrightarrow> is_f64 y \<Longrightarrow> is_f64 (min x y)"
  and is_f64_max: "is_f64 x \<Longrightarrow> is_f64 y \<Longrightarrow> is_f64 (max x y)"
  by (simp_all add: min_def max_def)

text \<open>
  The difference of two doubles that are within a factor of two of each other is exact
  (Sterbenz), so a sum can be split into two parts and put together again.
\<close>

lemma zero_le_mult_pos: "0 \<le> a * (2::rat) powi e \<Longrightarrow> 0 \<le> a"
  using pow2_pos[of e] by (meson linorder_not_le mult_neg_pos)

lemma f64_uexp:
  assumes "is_f64 x" "x \<noteq> 0"
  obtains m where "x = of_int m * 2 powi (uexp x)"
proof
  show "x = of_int (rne (x / 2 powi (uexp x))) * 2 powi (uexp x)"
    using fl_id[OF assms(1)] assms(2) by (simp add: fl_def)
qed

lemma uexp_mono: "x \<noteq> 0 \<Longrightarrow> \<bar>x\<bar> \<le> \<bar>y\<bar> \<Longrightarrow> uexp x \<le> uexp y"
  using ilog2_mono[of x y] by (simp add: uexp_def)

lemma fl_diff_exact:
  assumes x: "is_f64 x" and y: "is_f64 y" and "0 \<le> x" "x \<le> y" "y \<le> 2 * x"
  shows "is_f64 (y - x)"
proof (cases "x = 0")
  case True
  then show ?thesis using assms by simp
next
  case False
  then have x0: "0 < x" using assms by simp
  obtain m where m: "x = of_int m * 2 powi (uexp x)" using f64_uexp[OF x False] .
  obtain n where n: "y = of_int n * 2 powi (uexp y)" using f64_uexp[OF y] x0 assms(4) by auto
  have ule: "uexp x \<le> uexp y" using x0 assms(4) by (intro uexp_mono) auto
  have u0: "- 1074 \<le> uexp x" by (simp add: uexp_def)
  define k where "k = n * 2 ^ nat (uexp y - uexp x)"
  have "y = of_int n * (2 powi (uexp y - uexp x) * 2 powi (uexp x))"
    using n by (simp add: pow2_add[symmetric])
  also have "\<dots> = of_int k * 2 powi (uexp x)" using ule by (simp add: k_def pow2_nat)
  finally have d: "y - x = of_int (k - m) * 2 powi (uexp x)"
    using m by (simp add: left_diff_distrib)
  have "of_int (k - m) * 2 powi (uexp x) \<le> (of_int m * 2 powi (uexp x) :: rat)"
    using d m assms(5) by linarith
  then have "(of_int (k - m) :: rat) \<le> of_int m" by (simp add: mult_le_cancel_right)
  then have km: "k - m \<le> m" by (simp only: of_int_le_iff)
  have "0 \<le> of_int (k - m) * (2::rat) powi (uexp x)" using d assms(4) by simp
  then have "0 \<le> (of_int (k - m) :: rat)" by (rule zero_le_mult_pos)
  then have km0: "0 \<le> k - m" by (simp only: of_int_0_le_iff)
  have "of_int m = x / 2 powi (uexp x)" using m by (metis nonzero_mult_div_cancel_right pow2_neq0)
  also have "\<dots> < of_int (2 ^ 53)" using scaled_bounds[OF False] x0 by simp
  finally have "m < 2 ^ 53" by (simp only: of_int_less_iff)
  then have "\<bar>k - m\<bar> \<le> 2 ^ 53" using km km0 by simp
  then show ?thesis unfolding is_f64_def using d u0 by blast
qed

section \<open>Go's operations\<close>

text \<open>
  Each operation of the language rounds once. \<open>fround\<close> is \<open>math.Round\<close> (half away
  from zero), \<open>ftrunc\<close> cuts off the fraction. Expressions over untyped constants
  are evaluated exactly by the compiler and rounded when they meet a variable.
\<close>

abbreviation fadd :: "f64 \<Rightarrow> f64 \<Rightarrow> f64" where "fadd a b \<equiv> fl (a + b)"
abbreviation fsub :: "f64 \<Rightarrow> f64 \<Rightarrow> f64" where "fsub a b \<equiv> fl (a - b)"
abbreviation fmul :: "f64 \<Rightarrow> f64 \<Rightarrow> f64" where "fmul a b \<equiv> fl (a * b)"
abbreviation fdiv :: "f64 \<Rightarrow> f64 \<Rightarrow> f64" where "fdiv a b \<equiv> fl (a / b)"
abbreviation f_of_int :: "int \<Rightarrow> f64" where "f_of_int n \<equiv> fl (of_int n)"

definition fround :: "f64 \<Rightarrow> int" where
  "fround x = (if 0 \<le> x then \<lfloor>x + 1 / 2\<rfloor> else - \<lfloor>1 / 2 - x\<rfloor>)"

definition ftrunc :: "f64 \<Rightarrow> int" where
  "ftrunc x = (if 0 \<le> x then \<lfloor>x\<rfloor> else - \<lfloor>- x\<rfloor>)"

text \<open>
  The conversion as amd64 performs it: a value that does not fit into 64 bits becomes the
  smallest integer.
\<close>

definition fint :: "f64 \<Rightarrow> int" where
  "fint x = (let t = ftrunc x in if - (2 ^ 63) \<le> t \<and> t < 2 ^ 63 then t else - (2 ^ 63))"

lemma fround_of_int [simp]: "fround (of_int n) = n"
proof -
  have "\<lfloor>of_int n + 1 / 2 :: rat\<rfloor> = n" "\<lfloor>1 / 2 - of_int n :: rat\<rfloor> = - n"
    by (rule floor_unique; simp)+
  then show ?thesis by (simp add: fround_def)
qed

lemma fround_0 [simp]: "fround 0 = 0" and fround_1 [simp]: "fround 1 = 1"
  using fround_of_int[of 0] fround_of_int[of 1] by simp_all

lemma fround_error: "\<bar>of_int (fround x) - x\<bar> \<le> 1 / 2"
proof (cases "0 \<le> x")
  case True
  then show ?thesis unfolding fround_def abs_le_iff using floor_correct[of "x + 1 / 2"] by (simp only: if_True) linarith
next
  case False
  then show ?thesis unfolding fround_def abs_le_iff using floor_correct[of "1 / 2 - x"] by (simp only: if_False of_int_minus) linarith
qed

lemma fround_mono: assumes "x \<le> y" shows "fround x \<le> fround y"
proof -
  consider "0 \<le> x" | "x < 0" "0 \<le> y" | "y < 0" by linarith
  then show ?thesis
  proof cases
    case 1
    then show ?thesis using assms by (simp add: fround_def floor_mono)
  next
    case 2
    have "0 \<le> \<lfloor>1 / 2 - x\<rfloor>" "0 \<le> \<lfloor>y + 1 / 2\<rfloor>" using 2 by (simp_all add: le_floor_iff)
    then show ?thesis using 2 unfolding fround_def by (simp only: not_le[symmetric] if_True if_False)
  next
    case 3
    then have "\<lfloor>1 / 2 - y\<rfloor> \<le> \<lfloor>1 / 2 - x\<rfloor>" using assms by (intro floor_mono) simp
    then show ?thesis using assms 3 by (simp add: fround_def)
  qed
qed

lemma fround_nonneg: "0 \<le> x \<Longrightarrow> 0 \<le> fround x"
  by (simp add: fround_def le_floor_iff)

lemma fround_unique: assumes "\<bar>x - of_int n\<bar> < 1 / 2" shows "fround x = n"
proof -
  have "\<bar>of_int (fround x) - of_int n :: rat\<bar> < 1"
    using fround_error[of x] assms unfolding abs_le_iff abs_less_iff by linarith
  then have "\<bar>of_int (fround x - n) :: rat\<bar> < of_int 1" by simp
  then have "\<bar>fround x - n\<bar> < 1" by (simp only: of_int_abs[symmetric] of_int_less_iff)
  then show ?thesis by simp
qed

lemma ftrunc_of_int [simp]: "ftrunc (of_int n) = n"
  by (simp add: ftrunc_def)

lemma ftrunc_mono: assumes "x \<le> y" shows "ftrunc x \<le> ftrunc y"
proof -
  consider "0 \<le> x" | "x < 0" "0 \<le> y" | "y < 0" by linarith
  then show ?thesis
  proof cases
    case 1
    then show ?thesis using assms by (simp add: ftrunc_def floor_mono)
  next
    case 2
    have "0 \<le> \<lfloor>- x\<rfloor>" "0 \<le> \<lfloor>y\<rfloor>" using 2 by (simp_all add: le_floor_iff)
    then show ?thesis using 2 unfolding ftrunc_def by (simp only: not_le[symmetric] if_True if_False)
  next
    case 3
    then have "\<lfloor>- y\<rfloor> \<le> \<lfloor>- x\<rfloor>" using assms by (intro floor_mono) simp
    then show ?thesis using assms 3 by (simp add: ftrunc_def)
  qed
qed

section \<open>Sums never underflow\<close>

text \<open>
  Doubles are multiples of the smallest subnormal, so a sum that is too small to be normal
  is exact and the error of a sum is always relative.
\<close>

lemma f64_multiple:
  assumes "is_f64 x" obtains m where "x = of_int m * 2 powi (- 1074)"
proof -
  from assms obtain m e where x: "x = of_int m * 2 powi e" and e: "- 1074 \<le> e"
    unfolding is_f64_def by blast
  have "(2::rat) powi e = 2 powi (e + 1074) * 2 powi (- 1074)"
    by (simp only: pow2_add[symmetric]) simp
  also have "\<dots> = of_int (2 ^ nat (e + 1074)) * 2 powi (- 1074)"
    using e by (simp only: pow2_nat)
  finally have "x = of_int (m * 2 ^ nat (e + 1074)) * 2 powi (- 1074)" using x
    by (simp only: of_int_mult mult.assoc)
  then show ?thesis using that by blast
qed

lemma f64_add_rel:
  assumes "is_f64 x" "is_f64 y"
  shows "\<bar>fl (x + y) - (x + y)\<bar> \<le> \<bar>x + y\<bar> / 2 ^ 53"
proof (cases "2 powi (- 1022) \<le> \<bar>x + y\<bar>")
  case True
  then show ?thesis by (rule fl_rel_error)
next
  case False
  obtain m where m: "x = of_int m * 2 powi (- 1074)" using f64_multiple[OF assms(1)] .
  obtain n where n: "y = of_int n * 2 powi (- 1074)" using f64_multiple[OF assms(2)] .
  define u where "u = (2::rat) powi (- 1074)"
  have u: "0 < u" by (simp only: u_def pow2_pos)
  have s: "x + y = of_int (m + n) * u" using m n by (simp only: u_def of_int_add distrib_right)
  have "\<bar>x + y\<bar> < 2 ^ 52 * u"
  proof -
    have "(2::rat) powi (- 1022) = 2 powi (52 + - 1074)" by (rule arg_cong) simp
    also have "\<dots> = 2 powi 52 * u" by (simp only: pow2_add u_def)
    finally show ?thesis using False by simp
  qed
  then have "of_int \<bar>m + n\<bar> * u < 2 ^ 52 * u"
    using s u by (simp add: abs_mult)
  then have "(of_int \<bar>m + n\<bar> :: rat) < of_int (2 ^ 52)" using u by simp
  then have "\<bar>m + n\<bar> < 2 ^ 52" by (simp only: of_int_less_iff)
  then have "\<bar>m + n\<bar> \<le> 2 ^ 53" by simp
  then have "is_f64 (x + y)" unfolding is_f64_def s u_def by blast
  then show ?thesis by (simp add: fl_id)
qed

lemma f64_add_le:
  assumes "is_f64 x" "is_f64 y" "0 \<le> x + y"
  shows "fl (x + y) \<le> (x + y) * (1 + 1 / 2 ^ 53)"
proof -
  have "fl (x + y) - (x + y) \<le> (x + y) / 2 ^ 53"
    using f64_add_rel[OF assms(1,2)] assms(3) by (simp only: abs_le_iff abs_of_nonneg)
  then show ?thesis by (simp add: field_simps)
qed

lemma f64_diff_le:
  assumes "is_f64 x" "is_f64 y" "0 \<le> x - y"
  shows "fl (x - y) \<le> (x - y) * (1 + 1 / 2 ^ 53)"
  using f64_add_le[of x "- y"] assms is_f64_minus by simp

lemma fl_add_nonneg_ge: "is_f64 x \<Longrightarrow> 0 \<le> a \<Longrightarrow> x \<le> fl (x + a)"
  by (rule fl_ge_f64) auto

lemma fl_add_0 [simp]: "is_f64 x \<Longrightarrow> fl (x + 0) = x" "is_f64 x \<Longrightarrow> fl (0 + x) = x"
  by (simp_all add: fl_id)

text \<open>\<open>Duration.Seconds\<close>: whole seconds and nanoseconds, both cut off towards zero.\<close>

definition seconds :: "duration \<Rightarrow> f64" where
  "seconds d = fadd (f_of_int (sgn d * (\<bar>d\<bar> div second))) (fdiv (f_of_int (sgn d * (\<bar>d\<bar> mod second))) 1000000000)"

lemma is_f64_seconds [simp]: "is_f64 (seconds d)"
  by (simp add: seconds_def)

lemma seconds_nonneg: "0 \<le> d \<Longrightarrow> 0 \<le> seconds d"
  by (cases "d = 0") (auto simp: seconds_def intro!: fl_nonneg add_nonneg_nonneg pos_imp_zdiv_nonneg_iff[THEN iffD2])

lemma fl_rel_up:
  assumes "x = 0 \<or> 1 / 2 ^ 60 \<le> x"
  shows "fl x \<le> x * (1 + 1 / 2 ^ 53)"
  using assms fl_rel(1)[of x] by (elim disjE) simp_all

lemma seconds_le:
  assumes "0 \<le> d" "d div second \<le> 2 ^ 53"
  shows "seconds d \<le> of_int d / of_int second * (1 + 1 / 2 ^ 53) ^ 2"
proof -
  let ?c = "1 + 1 / 2 ^ 53 :: rat" and ?a = "of_int (d div second) :: rat" and ?b = "of_int (d mod second) / 1000000000 :: rat"
  have m: "0 \<le> d mod second" "d mod second < second" by simp_all
  have i: "f_of_int (d div second) = ?a" "is_f64 ?a" using assms by (auto intro!: fl_id is_f64_of_int)
  have "\<bar>d mod second\<bar> \<le> 2 ^ 53" using m by simp
  then have n: "f_of_int (d mod second) = of_int (d mod second)" by (rule fl_id[OF is_f64_of_int])
  have "d mod second = 0 \<or> 1 \<le> d mod second" using m by linarith
  then have "?b = 0 \<or> 1 / 2 ^ 60 \<le> ?b"
  proof
    assume "1 \<le> d mod second"
    then have "(1::rat) \<le> of_int (d mod second)" by (simp only: of_int_1_le_iff)
    then show ?thesis by simp
  qed simp
  then have b: "fl ?b \<le> ?b * ?c" by (rule fl_rel_up)
  have b0: "0 \<le> fl ?b" using m by (intro fl_nonneg) simp
  have a0: "0 \<le> ?a" using assms by simp
  have s: "seconds d = fl (fl ?a + fl ?b)" using assms m i n by (cases "d = 0") (simp_all add: seconds_def)
  have "fl (fl ?a + fl ?b) \<le> (fl ?a + fl ?b) * ?c"
    using b0 a0 i by (intro f64_add_le) (auto intro: add_nonneg_nonneg)
  also have "\<dots> \<le> (?a + ?b * ?c) * ?c" using b i by (intro mult_right_mono add_mono) simp_all
  also have "\<dots> \<le> (?a + ?b) * ?c * ?c"
  proof (rule mult_right_mono)
    have "?a * 1 \<le> ?a * ?c" using a0 by (rule mult_left_mono[rotated]) simp
    then show "?a + ?b * ?c \<le> (?a + ?b) * ?c" unfolding distrib_right[of ?a] by simp
  qed simp
  also have "?a + ?b = of_int d / of_int second"
  proof -
    have "(of_int d :: rat) = of_int (d div second * second + d mod second)" by (simp only: div_mult_mod_eq)
    also have "\<dots> = ?a * 1000000000 + of_int (d mod second)" by (simp only: of_int_add of_int_mult)
    finally show ?thesis by (simp add: field_simps)
  qed
  finally show ?thesis using s by (simp add: power2_eq_square mult.assoc)
qed

end
