(* ===== verification/Economics.thy ===== *)
theory Economics
  imports Float64
begin

text \<open>
  The pricing functions of \<open>internal/economics/pricing.go\<close>: what a consumer is charged,
  what a provider earns, the activity discount and the coordination reward. The lemmas
  show that the spread survives binary64 rounding: a provider is always paid strictly
  less than the undiscounted charge, the discounted charge stays between the reward and
  the full charge, and the treasury's share of a charge is exact.
\<close>

section \<open>Constants\<close>

type_synonym lane = string

definition LaneFast :: lane where "LaneFast = ''fast''"
definition LaneBackground :: lane where "LaneBackground = ''background''"
definition TreasuryAccount :: user_id where "TreasuryAccount = ''oim-treasury''"
definition BaseCostPerKToken :: rat where "BaseCostPerKToken = 1"
definition HouseEdge :: rat where "HouseEdge = 1 / 4"
definition CoordinationRewardPerPointer :: f64 where
  "CoordinationRewardPerPointer = fl (2 / 100)"
definition ActivityCeilingBackpressurePct :: rat where "ActivityCeilingBackpressurePct = 40"
definition ActivityDiscountFloor :: rat where "ActivityDiscountFloor = 1 - HouseEdge"

section \<open>Operations\<close>

definition round4 :: "f64 \<Rightarrow> f64" where
  "round4 f = fdiv (of_int (fround (fmul f 10000))) 10000"

definition laneMultiplier :: "lane \<Rightarrow> f64" where
  "laneMultiplier l = (if l = LaneBackground then 1 / 2 else 1)"

definition sensitivityMultiplier :: "string \<Rightarrow> f64" where
  "sensitivityMultiplier s =
     (if s = ''low'' then 1 / 2 else if s = ''high_requires_attestation'' then 3 else 1)"

definition ConsumerCost :: "lane \<Rightarrow> string \<Rightarrow> int \<Rightarrow> f64" where
  "ConsumerCost lane sensitivity tokenCount =
     (if tokenCount \<le> 0 then 0
      else let perK = fmul (fmul BaseCostPerKToken (laneMultiplier lane))
                           (sensitivityMultiplier sensitivity)
           in round4 (fmul (fdiv (f_of_int tokenCount) 1000) perK))"

definition ProviderReward :: "lane \<Rightarrow> string \<Rightarrow> int \<Rightarrow> f64" where
  "ProviderReward lane sensitivity tokenCount =
     round4 (fmul (ConsumerCost lane sensitivity tokenCount) (1 - HouseEdge))"

definition NetworkMargin :: "lane \<Rightarrow> string \<Rightarrow> int \<Rightarrow> f64" where
  "NetworkMargin lane sensitivity tokenCount =
     round4 (fsub (ConsumerCost lane sensitivity tokenCount)
                  (ProviderReward lane sensitivity tokenCount))"

definition ActivityDiscount :: "f64 \<Rightarrow> f64" where
  "ActivityDiscount backpressurePct =
     (if ActivityCeilingBackpressurePct \<le> backpressurePct then 1
      else if backpressurePct \<le> 0 then ActivityDiscountFloor
      else let frac = fdiv backpressurePct ActivityCeilingBackpressurePct
           in fadd ActivityDiscountFloor (fmul frac (1 - ActivityDiscountFloor)))"

definition ConsumerCostWithActivityDiscount :: "lane \<Rightarrow> string \<Rightarrow> int \<Rightarrow> f64 \<Rightarrow> f64" where
  "ConsumerCostWithActivityDiscount lane sensitivity tokenCount backpressurePct =
     (let discounted = round4 (fmul (ConsumerCost lane sensitivity tokenCount)
                                    (ActivityDiscount backpressurePct))
      in max discounted (ProviderReward lane sensitivity tokenCount))"

definition CoordinationReward :: "int \<Rightarrow> f64" where
  "CoordinationReward pointerCount =
     (if pointerCount \<le> 0 then 0
      else round4 (fmul (f_of_int pointerCount) CoordinationRewardPerPointer))"

section \<open>Rounding to four places\<close>

text \<open>The number of ten-thousandths that \<open>round4\<close> keeps.\<close>

definition units :: "f64 \<Rightarrow> int" where
  "units f = fround (fmul f 10000)"

lemma round4_units: "round4 f = fl (of_int (units f) / 10000)"
  by (simp add: round4_def units_def)

lemma is_f64_round4 [simp, intro]: "is_f64 (round4 f)"
  by (simp add: round4_def)

lemma units_mono: "x \<le> y \<Longrightarrow> units x \<le> units y"
  unfolding units_def by (intro fround_mono fl_mono) simp

lemma round4_mono: "x \<le> y \<Longrightarrow> round4 x \<le> round4 y"
  unfolding round4_units by (intro fl_mono divide_right_mono) (simp_all add: units_mono)

lemma units_nonneg: "0 \<le> x \<Longrightarrow> 0 \<le> units x"
  unfolding units_def by (intro fround_nonneg fl_nonneg) simp

lemma round4_nonneg: "0 \<le> x \<Longrightarrow> 0 \<le> round4 x"
  unfolding round4_units by (intro fl_nonneg) (simp add: units_nonneg)

lemma round4_0 [simp]: "round4 0 = 0"
  by (simp add: round4_units units_def)

text \<open>A price that has been rounded to units keeps its units: \<open>round4\<close> is idempotent.\<close>

lemma units_of_price:
  assumes "0 \<le> n" "n \<le> 2 ^ 50"
  shows "units (fl (of_int n / 10000)) = n"
proof (cases "n = 0")
  case True
  then show ?thesis by (simp add: units_def)
next
  case False
  have n1: "1 \<le> n" using False assms(1) by simp
  have nr: "1 \<le> (of_int n :: rat)" "(of_int n :: rat) \<le> 2 ^ 50"
    using n1 assms(2) of_int_le_iff[of n "2 ^ 50", where 'a = rat] by simp_all
  define p where "p = fl (of_int n / 10000)"
  have "1 / 2 ^ 60 \<le> (of_int n :: rat) / 10000" using nr by simp
  note p = fl_rel[OF this, folded p_def]
  have "1 / 2 ^ 60 \<le> p * 10000" using p(2) nr by simp
  note q = fl_rel[OF this]
  have "fl (p * 10000) < of_int n + 1 / 2" "of_int n - 1 / 2 < fl (p * 10000)"
    using p q nr by (simp_all add: field_simps)
  then show ?thesis unfolding p_def[symmetric] units_def
    by (intro fround_unique, unfold abs_less_iff) linarith
qed

lemma round4_idem:
  assumes "0 \<le> units f" "units f \<le> 2 ^ 50"
  shows "round4 (round4 f) = round4 f"
  using units_of_price[OF assms] by (simp add: round4_units)

text \<open>Three quarters of a price of at least three units is strictly fewer units.\<close>

lemma price_three_quarters:
  assumes "3 \<le> n"
  shows "units (fl (fl (of_int n / 10000) * (3 / 4))) < n"
    and "round4 (fl (fl (of_int n / 10000) * (3 / 4))) < fl (of_int n / 10000)"
    and "fl (of_int n / 10000) \<le> 2 * round4 (fl (fl (of_int n / 10000) * (3 / 4)))"
proof -
  have nr: "3 \<le> (of_int n :: rat)" using assms by simp
  define p where "p = fl (of_int n / 10000)"
  have "1 / 2 ^ 60 \<le> (of_int n :: rat) / 10000" using nr by simp
  note p = fl_rel[OF this, folded p_def]
  define q where "q = fl (p * (3 / 4))"
  have "1 / 2 ^ 60 \<le> p * (3 / 4)" using p(2) nr by simp
  note q = fl_rel[OF this, folded q_def]
  define r where "r = fl (q * 10000)"
  have "1 / 2 ^ 60 \<le> q * 10000" using q(2) p(2) nr by simp
  note r = fl_rel[OF this, folded r_def]
  have "of_int (units q) \<le> r + 1 / 2"
    using fround_error[of r] unfolding units_def r_def[symmetric] abs_le_iff by linarith
  also have "\<dots> \<le> 76 / 100 * of_int n + 1 / 2"
    using p(1) q(1) r(1) nr by (simp add: field_simps)
  finally have u: "of_int (units q) \<le> 76 / 100 * (of_int n :: rat) + 1 / 2" .
  then have "(of_int (units q) :: rat) < of_int n" using nr by linarith
  then show "units (fl (fl (of_int n / 10000) * (3 / 4))) < n"
    unfolding p_def[symmetric] q_def[symmetric] by (simp only: of_int_less_iff)
  have q0: "1 / 2 ^ 60 \<le> q" using q(2) p(2) nr by simp
  have uu: "1 \<le> units q"
  proof -
    have "of_int 1 \<le> r" using r(2) q(2) p(2) nr by (simp add: field_simps)
    then have "fround 1 \<le> fround r" by (intro fround_mono) simp
    then show ?thesis by (simp add: units_def r_def)
  qed
  then have "1 \<le> (of_int (units q) :: rat)" by simp
  then have "1 / 2 ^ 60 \<le> (of_int (units q) :: rat) / 10000" by simp
  note s = fl_rel[OF this]
  have "fl (of_int (units q) / 10000) < p" using s(1) u p(2) nr by (simp add: field_simps)
  then show "round4 (fl (fl (of_int n / 10000) * (3 / 4))) < fl (of_int n / 10000)"
    unfolding p_def[symmetric] q_def[symmetric] by (simp only: round4_units)
  have "749 / 1000 * of_int n \<le> r" using p(2) q(2) r(2) nr by (simp add: field_simps)
  then have l: "749 / 1000 * (of_int n :: rat) - 1 / 2 \<le> of_int (units q)"
    using fround_error[of r] unfolding units_def r_def[symmetric] abs_le_iff by linarith
  have "p \<le> 2 * fl (of_int (units q) / 10000)" using s(2) l p(1) nr by (simp add: field_simps)
  then show "fl (of_int n / 10000) \<le> 2 * round4 (fl (fl (of_int n / 10000) * (3 / 4)))"
    unfolding p_def[symmetric] q_def[symmetric] by (simp only: round4_units)
qed

section \<open>The charge\<close>

definition perK :: "lane \<Rightarrow> string \<Rightarrow> f64" where
  "perK lane sensitivity =
     fmul (fmul BaseCostPerKToken (laneMultiplier lane)) (sensitivityMultiplier sensitivity)"

definition charge_units :: "lane \<Rightarrow> string \<Rightarrow> int \<Rightarrow> int" where
  "charge_units lane sensitivity t = units (fmul (fdiv (f_of_int t) 1000) (perK lane sensitivity))"

lemma ConsumerCost_units:
  "0 < t \<Longrightarrow> ConsumerCost lane sens t = fl (of_int (charge_units lane sens t) / 10000)"
  by (simp add: ConsumerCost_def round4_units charge_units_def perK_def)

lemma small_f64 [simp]:
  "fl (1 / 2) = 1 / 2" "fl (1 / 4) = 1 / 4" "fl 3 = 3" "fl (3 / 2) = 3 / 2" "fl (3 / 4) = 3 / 4"
  by code_simp+

lemma perK_values: "perK lane sens \<in> {1 / 4, 1 / 2, 1, 3 / 2, 3}"
  by (simp add: perK_def laneMultiplier_def sensitivityMultiplier_def BaseCostPerKToken_def)

lemma perK_bounds: "1 / 4 \<le> perK lane sens" "perK lane sens \<le> 3"
  using perK_values[of lane sens] by auto

text \<open>The cheapest token, background and low sensitivity, costs three units.\<close>

lemma cheapest_token: "units (fmul (fdiv (f_of_int 1) 1000) (1 / 4)) = 3"
  by code_simp

lemma charge_units_ge3: assumes "0 < t" shows "3 \<le> charge_units lane sens t"
proof -
  have "fl (of_int 1) \<le> f_of_int t" using assms by (intro fl_mono) simp
  then have "fdiv (f_of_int 1) 1000 \<le> fdiv (f_of_int t) 1000" by (intro fl_mono) simp
  moreover have "0 \<le> fdiv (f_of_int 1) 1000" by (intro fl_nonneg) simp
  ultimately have "fmul (fdiv (f_of_int 1) 1000) (1 / 4) \<le> fmul (fdiv (f_of_int t) 1000) (perK lane sens)"
    using perK_bounds(1)[of lane sens] by (intro fl_mono[OF mult_mono]) auto
  from units_mono[OF this] show ?thesis by (simp only: cheapest_token charge_units_def)
qed

lemma charge_units_le:
  assumes "0 < t" "t \<le> 2 ^ 40" shows "charge_units lane sens t \<le> 2 ^ 50"
proof -
  have "f_of_int t \<le> fl (of_int (2 ^ 40))" using assms by (intro fl_mono) (simp only: of_int_le_iff)
  then have "fdiv (f_of_int t) 1000 \<le> fdiv (fl (2 ^ 40)) 1000" by (intro fl_mono) simp
  moreover have "0 \<le> fdiv (f_of_int t) 1000" using assms by (intro fl_nonneg divide_nonneg_pos) (auto intro: fl_nonneg)
  ultimately have "fmul (fdiv (f_of_int t) 1000) (perK lane sens) \<le> fmul (fdiv (fl (2 ^ 40)) 1000) 3"
    using perK_bounds[of lane sens] by (intro fl_mono[OF mult_mono]) auto
  from units_mono[OF this] have "charge_units lane sens t \<le> units (fmul (fdiv (fl (2 ^ 40)) 1000) 3)"
    by (simp add: charge_units_def)
  also have "\<dots> \<le> 2 ^ 50" by code_simp
  finally show ?thesis .
qed

lemma ConsumerCost_nonpos [simp]: "t \<le> 0 \<Longrightarrow> ConsumerCost lane sens t = 0"
  by (simp add: ConsumerCost_def)

lemma ConsumerCost_nonneg [simp]: "0 \<le> ConsumerCost lane sens t"
  using charge_units_ge3[of t lane sens]
  by (cases "t \<le> 0") (auto simp: ConsumerCost_units intro!: fl_nonneg)

lemma ConsumerCost_min: "0 < t \<Longrightarrow> fl (3 / 10000) \<le> ConsumerCost lane sens t"
  using charge_units_ge3[of t lane sens] by (auto simp: ConsumerCost_units intro!: fl_mono)

lemma ConsumerCost_pos: assumes "0 < t" shows "0 < ConsumerCost lane sens t"
proof -
  have "0 < fl (3 / 10000)" by code_simp
  then show ?thesis using ConsumerCost_min[OF assms, of lane sens] by linarith
qed

lemma is_f64_ConsumerCost [simp, intro]: "is_f64 (ConsumerCost lane sens t)"
  by (cases "t \<le> 0") (auto simp: ConsumerCost_units)

lemma is_f64_ProviderReward [simp, intro]: "is_f64 (ProviderReward lane sens t)"
  by (simp add: ProviderReward_def)

lemma ProviderReward_nonpos [simp]: "t \<le> 0 \<Longrightarrow> ProviderReward lane sens t = 0"
  by (simp add: ProviderReward_def)

lemma ProviderReward_nonneg [simp]: "0 \<le> ProviderReward lane sens t"
  unfolding ProviderReward_def HouseEdge_def by (intro round4_nonneg fl_nonneg) simp

lemma reward_less_cost:
  assumes "0 < t" shows "ProviderReward lane sens t < ConsumerCost lane sens t"
  using price_three_quarters(2)[OF charge_units_ge3[OF assms, of lane sens]]
  by (simp add: ProviderReward_def HouseEdge_def ConsumerCost_units[OF assms])

lemma reward_le_cost: "ProviderReward lane sens t \<le> ConsumerCost lane sens t"
  using reward_less_cost[of t lane sens] by (cases "t \<le> 0") auto

lemma ConsumerCost_mono: "t \<le> t' \<Longrightarrow> ConsumerCost lane sens t \<le> ConsumerCost lane sens t'"
  using perK_bounds(1)[of lane sens] unfolding ConsumerCost_def Let_def perK_def[symmetric]
  by (auto intro!: round4_mono fl_mono mult_right_mono divide_right_mono round4_nonneg fl_nonneg
      mult_nonneg_nonneg divide_nonneg_pos)

section \<open>The activity discount\<close>

lemma ActivityDiscount_bounds: "3 / 4 \<le> ActivityDiscount bp" "ActivityDiscount bp \<le> 1"
proof -
  have f: "0 \<le> fmul (fdiv bp 40) (1 / 4)" "fmul (fdiv bp 40) (1 / 4) \<le> 1 / 4" if "0 < bp" "bp < 40"
  proof -
    have "fdiv bp 40 \<le> 1" using that by (intro fl_le_f64) auto
    then have "fmul (fdiv bp 40) (1 / 4) \<le> fl (1 / 4)" by (intro fl_mono) auto
    then show "fmul (fdiv bp 40) (1 / 4) \<le> 1 / 4" by simp
    show "0 \<le> fmul (fdiv bp 40) (1 / 4)"
      using that by (intro fl_nonneg mult_nonneg_nonneg divide_nonneg_pos) auto
  qed
  have "fl (3 / 4) \<le> fadd (3 / 4) (fmul (fdiv bp 40) (1 / 4))"
    "fadd (3 / 4) (fmul (fdiv bp 40) (1 / 4)) \<le> fl 1" if "0 < bp" "bp < 40"
    using f[OF that] by (intro fl_mono; simp)+
  then show "3 / 4 \<le> ActivityDiscount bp" "ActivityDiscount bp \<le> 1"
    by (auto simp: ActivityDiscount_def ActivityCeilingBackpressurePct_def
        ActivityDiscountFloor_def HouseEdge_def Let_def)
qed

lemma ActivityDiscount_mono: assumes "a \<le> b" shows "ActivityDiscount a \<le> ActivityDiscount b"
proof -
  consider "40 \<le> b" | "a \<le> 0" | "0 < a" "b < 40" by linarith
  then show ?thesis
  proof cases
    case 1
    then have "ActivityDiscount b = 1"
      by (simp add: ActivityDiscount_def ActivityCeilingBackpressurePct_def)
    then show ?thesis using ActivityDiscount_bounds(2)[of a] by simp
  next
    case 2
    then have "ActivityDiscount a = 3 / 4" by (simp add: ActivityDiscount_def
        ActivityCeilingBackpressurePct_def ActivityDiscountFloor_def HouseEdge_def)
    then show ?thesis using ActivityDiscount_bounds(1)[of b] by simp
  next
    case 3
    have "fdiv a 40 \<le> fdiv b 40" using assms by (intro fl_mono) simp
    then have "fmul (fdiv a 40) (1 / 4) \<le> fmul (fdiv b 40) (1 / 4)" by (intro fl_mono) simp
    then have "fadd (3 / 4) (fmul (fdiv a 40) (1 / 4)) \<le> fadd (3 / 4) (fmul (fdiv b 40) (1 / 4))"
      by (intro fl_mono) simp
    then show ?thesis using 3 assms
      by (simp add: ActivityDiscount_def ActivityCeilingBackpressurePct_def
          ActivityDiscountFloor_def HouseEdge_def Let_def)
  qed
qed

lemma ConsumerCost_round4:
  assumes "t \<le> 2 ^ 40" shows "round4 (ConsumerCost lane sens t) = ConsumerCost lane sens t"
proof (cases "0 < t")
  case True
  have "0 \<le> charge_units lane sens t" using charge_units_ge3[OF True, of lane sens] by simp
  from units_of_price[OF this charge_units_le[OF True assms]]
  show ?thesis by (simp add: ConsumerCost_units[OF True] round4_units)
qed simp

lemma cost_le_twice_reward: "ConsumerCost lane sens t \<le> 2 * ProviderReward lane sens t"
proof (cases "0 < t")
  case True
  show ?thesis
    using price_three_quarters(3)[OF charge_units_ge3[OF True, of lane sens]]
    by (simp add: ProviderReward_def HouseEdge_def ConsumerCost_units[OF True])
qed simp

text \<open>Where the discounted charge lies.\<close>

abbreviation discounted_cost :: "lane \<Rightarrow> string \<Rightarrow> int \<Rightarrow> f64 \<Rightarrow> f64" where
  "discounted_cost \<equiv> ConsumerCostWithActivityDiscount"

lemma discounted_ge_reward: "ProviderReward lane sens t \<le> discounted_cost lane sens t bp"
  by (simp add: ConsumerCostWithActivityDiscount_def Let_def)

lemma discounted_le_cost:
  assumes "t \<le> 2 ^ 40"
  shows "discounted_cost lane sens t bp \<le> ConsumerCost lane sens t"
proof -
  have "ConsumerCost lane sens t * ActivityDiscount bp \<le> ConsumerCost lane sens t"
    using ActivityDiscount_bounds[of bp] by (intro mult_left_le) auto
  then have "fmul (ConsumerCost lane sens t) (ActivityDiscount bp) \<le> ConsumerCost lane sens t"
    by (rule fl_le_f64[OF is_f64_ConsumerCost])
  from round4_mono[OF this] show ?thesis
    by (simp add: ConsumerCostWithActivityDiscount_def ConsumerCost_round4[OF assms] reward_le_cost)
qed

lemma discounted_idle:
  assumes "bp \<le> 0" shows "discounted_cost lane sens t bp = ProviderReward lane sens t"
  using assms by (simp add: ConsumerCostWithActivityDiscount_def ActivityDiscount_def
      ActivityCeilingBackpressurePct_def ActivityDiscountFloor_def ProviderReward_def)

lemma discounted_busy:
  assumes "40 \<le> bp" "t \<le> 2 ^ 40"
  shows "discounted_cost lane sens t bp = ConsumerCost lane sens t"
  using assms reward_le_cost[of lane sens t]
  by (simp add: ConsumerCostWithActivityDiscount_def ActivityDiscount_def fl_id
      ActivityCeilingBackpressurePct_def ConsumerCost_round4 max_def)

lemma discounted_mono:
  assumes "a \<le> b" shows "discounted_cost lane sens t a \<le> discounted_cost lane sens t b"
  using ActivityDiscount_mono[OF assms] unfolding ConsumerCostWithActivityDiscount_def Let_def
  by (intro max.mono round4_mono fl_mono mult_left_mono) auto

lemma is_f64_discounted [simp, intro]: "is_f64 (discounted_cost lane sens t bp)"
  by (simp add: ConsumerCostWithActivityDiscount_def Let_def is_f64_max)

text \<open>
  Splitting a charge into the reward and the treasury's share: the share is the exact
  difference, so nothing is lost or minted.
\<close>

lemma share_exact:
  assumes "is_f64 c" "ProviderReward lane sens t \<le> c" "c \<le> 2 * ProviderReward lane sens t"
  shows "fsub c (ProviderReward lane sens t) = c - ProviderReward lane sens t"
  by (rule fl_id, rule fl_diff_exact) (use assms in auto)

lemma discounted_le_twice_reward:
  "t \<le> 2 ^ 40 \<Longrightarrow> discounted_cost lane sens t bp \<le> 2 * ProviderReward lane sens t"
  using discounted_le_cost[of t lane sens bp] cost_le_twice_reward[of lane sens t] by linarith

lemma CoordinationReward_nonneg [simp]: "0 \<le> CoordinationReward n"
  unfolding CoordinationReward_def CoordinationRewardPerPointer_def
  by (auto intro!: round4_nonneg fl_nonneg mult_nonneg_nonneg)

lemma is_f64_CoordinationReward [simp, intro]: "is_f64 (CoordinationReward n)"
  by (simp add: CoordinationReward_def)

section \<open>Properties\<close>

text \<open>
  C4. The spread of the pricing model survives floating-point rounding: for every lane,
  every sensitivity tier and every positive number of tokens, even a single one, the
  provider's reward is non-negative and strictly less than what the consumer is charged.
\<close>

theorem provider_paid_less_than_charged:
  assumes "0 < tokens"
  shows "0 \<le> ProviderReward lane sens tokens \<and>
         ProviderReward lane sens tokens < ConsumerCost lane sens tokens"
  using reward_less_cost[OF assms] by simp

theorem provider_paid_less_than_charged_witness:
  "ProviderReward LaneBackground ''low'' 1 < ConsumerCost LaneBackground ''low'' 1"
  using provider_paid_less_than_charged[of 1 LaneBackground "''low''"] by simp

text \<open>
  The activity discount can only squeeze the treasury's margin, never make it negative
  or overcharge: the discounted charge lies between the reward and the full charge, equals
  the reward exactly on an idle network and the full charge on a busy one, and grows with
  the backpressure.
\<close>

theorem activity_discount_bounds:
  assumes "tokens \<le> 2 ^ 40" and "bp \<le> bp'"
  shows "ProviderReward lane sens tokens \<le> ConsumerCostWithActivityDiscount lane sens tokens bp \<and>
         ConsumerCostWithActivityDiscount lane sens tokens bp \<le> ConsumerCost lane sens tokens \<and>
         ConsumerCostWithActivityDiscount lane sens tokens bp
           \<le> ConsumerCostWithActivityDiscount lane sens tokens bp' \<and>
         (bp \<le> 0 \<longrightarrow> ConsumerCostWithActivityDiscount lane sens tokens bp
                     = ProviderReward lane sens tokens) \<and>
         (40 \<le> bp \<longrightarrow> ConsumerCostWithActivityDiscount lane sens tokens bp
                      = ConsumerCost lane sens tokens)"
  using assms by (simp add: discounted_ge_reward discounted_le_cost discounted_mono
      discounted_idle discounted_busy)

theorem activity_discount_bounds_witness:
  "ProviderReward LaneFast ''moderate'' 500 \<le> ConsumerCostWithActivityDiscount LaneFast ''moderate'' 500 10 \<and>
   ConsumerCostWithActivityDiscount LaneFast ''moderate'' 500 10 \<le> ConsumerCost LaneFast ''moderate'' 500"
  using activity_discount_bounds[of 500 10 20 LaneFast "''moderate''"] by simp

end
