(* ===== verification/LedgerBackend.thy ===== *)
theory LedgerBackend
  imports Economics
begin

text \<open>
  The vocabulary of \<open>internal/settlement/ledger.go\<close> that all ledger backends share: the
  record types, the grant-first split of a balance, and the contract of a backend as a
  locale. The contract says what a successful and a refused credit, grant claim and debit
  do to an account's totals; inside it the solvency of every account and the uniqueness of
  startup grants are proved once for any sequence of operations. The memory/SQLite ledger
  and the Postgres ledger are its two interpretations.
\<close>

section \<open>Data\<close>

datatype CreditOrigin = CreditOriginStartupGrant | CreditOriginEarnedContrib
  | CreditOriginAdminAdjustment | CreditOriginOther string

record CreditEntry =
  UserID :: user_id
  Origin :: CreditOrigin
  Amount :: f64
  GrantedOrEarnedAt :: time
  SourceReference :: string

record Balance =
  GrantBalance :: f64
  EarnedBalance :: f64
  Total :: f64

record ledgerDebit =
  DebitUserID :: user_id
  DebitAmount :: f64
  JobID :: job_id
  WrittenAt :: time

record AdminAction =
  Action :: string
  Detail :: string
  ActionAmount :: f64
  PerformedAt :: time

definition balanceFromTotals :: "f64 \<Rightarrow> f64 \<Rightarrow> f64 \<Rightarrow> Balance" where
  "balanceFromTotals grantTotal earnedTotal totalDebited =
     (let grantUsed = min totalDebited grantTotal;
          earnedUsed = max 0 (fsub totalDebited grantTotal);
          grantBal = max 0 (fsub grantTotal grantUsed);
          earnedBal = max 0 (fsub earnedTotal earnedUsed)
      in \<lparr> GrantBalance = grantBal, EarnedBalance = earnedBal, Total = fadd grantBal earnedBal \<rparr>)"

definition outstandingGrantLiability :: "f64 \<Rightarrow> f64 \<Rightarrow> f64" where
  "outstandingGrantLiability grantTotal totalDebited =
     (let grantUsed = min totalDebited grantTotal in max 0 (fsub grantTotal grantUsed))"

section \<open>Account totals\<close>

text \<open>
  An account is the triple of its granted, earned and debited totals. \<open>addCredit\<close> is the
  body of the loop over the credit entries, \<open>addDebit\<close> that of the loop over the debits.
\<close>

type_synonym totals = "f64 \<times> f64 \<times> f64"

definition addCredit :: "CreditEntry \<Rightarrow> totals \<Rightarrow> totals" where
  "addCredit entry = (\<lambda>(g, e, d). case Origin entry of
       CreditOriginStartupGrant \<Rightarrow> (fadd g (Amount entry), e, d)
     | CreditOriginEarnedContrib \<Rightarrow> (g, fadd e (Amount entry), d)
     | CreditOriginAdminAdjustment \<Rightarrow> (g, fadd e (Amount entry), d)
     | CreditOriginOther _ \<Rightarrow> (g, e, d))"

definition addDebit :: "f64 \<Rightarrow> totals \<Rightarrow> totals" where
  "addDebit amount = (\<lambda>(g, e, d). (g, e, fadd d amount))"

definition available :: "totals \<Rightarrow> f64" where
  "available = (\<lambda>(g, e, d). fsub (fadd g e) d)"

text \<open>
  A sound account: its totals are doubles, not negative, and the debits exceed the credits
  by at most a relative 2^-51, which is what two roundings can add.
\<close>

definition sound :: "totals \<Rightarrow> bool" where
  "sound = (\<lambda>(g, e, d). is_f64 g \<and> is_f64 e \<and> is_f64 d \<and> 0 \<le> g \<and> 0 \<le> e \<and> 0 \<le> d
     \<and> d \<le> fadd g e * (1 + 1 / 2 ^ 51))"

lemma sound_zero [simp]: "sound (0, 0, 0)"
  by (simp add: sound_def)

lemma sound_addCredit:
  assumes "sound t" "is_f64 (Amount entry)" "0 \<le> Amount entry"
  shows "sound (addCredit entry t)"
proof -
  obtain g e d where t: "t = (g, e, d)" by (cases t)
  have f: "is_f64 g" "is_f64 e" "is_f64 d" "0 \<le> g" "0 \<le> e" "0 \<le> d"
    and d: "d \<le> fadd g e * (1 + 1 / 2 ^ 51)" using assms(1) by (simp_all add: t sound_def)
  have up: "d \<le> fadd g' e' * (1 + 1 / 2 ^ 51)" if "g \<le> g'" "e \<le> e'" for g' e'
  proof -
    have "fadd g e \<le> fadd g' e'" using that by (intro fl_mono) auto
    then have "fadd g e * (1 + 1 / 2 ^ 51) \<le> fadd g' e' * (1 + 1 / 2 ^ 51)"
      by (intro mult_right_mono) auto
    then show ?thesis using d by linarith
  qed
  have g': "g \<le> fadd g (Amount entry)" and e': "e \<le> fadd e (Amount entry)"
    using f assms(3) by (auto intro: fl_add_nonneg_ge)
  show ?thesis
    using f up[OF g' order_refl] up[OF order_refl e'] d g' e'
    by (auto simp: t sound_def addCredit_def split: CreditOrigin.splits intro: fl_nonneg)
qed

lemma sound_addDebit:
  assumes "sound t" "is_f64 a" "0 \<le> a" "a \<le> available t"
  shows "sound (addDebit a t)"
proof -
  obtain g e d where t: "t = (g, e, d)" by (cases t)
  define c where "c = fadd g e"
  have f: "is_f64 g" "is_f64 e" "is_f64 d" "0 \<le> g" "0 \<le> e" "0 \<le> d"
    and d: "d \<le> c * (1 + 1 / 2 ^ 51)" using assms(1) by (simp_all add: t sound_def c_def)
  have c: "is_f64 c" "0 \<le> c" using f by (auto simp: c_def intro: fl_nonneg)
  have a: "a \<le> fl (c - d)" using assms(4) by (simp add: t available_def c_def)
  have "fadd d a \<le> c * (1 + 1 / 2 ^ 51)"
  proof (cases "d \<le> c")
    case True
    have "fl (c - d) \<le> (c - d) * (1 + 1 / 2 ^ 53)" using True c f by (intro f64_diff_le) auto
    then have "d + a \<le> c + (c - d) / 2 ^ 53" using a by (simp add: field_simps)
    also have "\<dots> \<le> c * (1 + 1 / 2 ^ 53)" using f(6) by (simp add: field_simps)
    finally have s: "d + a \<le> c * (1 + 1 / 2 ^ 53)" .
    have "fadd d a \<le> (d + a) * (1 + 1 / 2 ^ 53)" using f assms by (intro f64_add_le) auto
    also have "\<dots> \<le> c * (1 + 1 / 2 ^ 53) * (1 + 1 / 2 ^ 53)" using s by (intro mult_right_mono) auto
    also have "\<dots> = c * ((1 + 1 / 2 ^ 53) * (1 + 1 / 2 ^ 53))" by simp
    also have "\<dots> \<le> c * (1 + 1 / 2 ^ 51)" using c(2) by (intro mult_left_mono) auto
    finally show ?thesis .
  next
    case False
    then have "fl (c - d) \<le> 0" by (intro fl_le_f64) auto
    then have "a = 0" using a assms(3) by linarith
    then show ?thesis using d f by (simp add: fl_id)
  qed
  moreover have "0 \<le> fadd d a" using f assms by (intro fl_nonneg) auto
  ultimately show ?thesis using f by (simp add: t sound_def addDebit_def c_def)
qed

definition f64_totals :: "totals \<Rightarrow> bool" where
  "f64_totals = (\<lambda>(g, e, d). is_f64 g \<and> is_f64 e \<and> is_f64 d)"

lemma f64_totals_zero [simp]: "f64_totals (0, 0, 0)"
  by (simp add: f64_totals_def)

lemma f64_addCredit [simp]: "f64_totals t \<Longrightarrow> f64_totals (addCredit e t)"
  by (cases t) (simp add: f64_totals_def addCredit_def split: CreditOrigin.splits)

lemma f64_addDebit [simp]: "f64_totals t \<Longrightarrow> f64_totals (addDebit a t)"
  by (cases t) (simp add: f64_totals_def addDebit_def)

text \<open>Grants are spent first: while a grant balance remains, the earned one is untouched.\<close>

lemma grant_first:
  assumes "d \<le> d'" "EarnedBalance (balanceFromTotals g e d') \<noteq> EarnedBalance (balanceFromTotals g e d)"
  shows "GrantBalance (balanceFromTotals g e d') = 0"
proof -
  have "g < d'"
  proof (rule ccontr)
    assume "\<not> g < d'"
    then have "fsub d' g \<le> 0" "fsub d g \<le> 0" using assms(1) by (auto intro!: fl_le_f64)
    then have "max 0 (fsub d' g) = 0" "max 0 (fsub d g) = 0" by (simp_all add: max_absorb1)
    then show False using assms(2) by (simp add: balanceFromTotals_def Let_def)
  qed
  then show ?thesis by (simp add: balanceFromTotals_def Let_def)
qed

lemma balance_nonneg:
  "0 \<le> GrantBalance (balanceFromTotals g e d)" "0 \<le> EarnedBalance (balanceFromTotals g e d)"
  "0 \<le> Total (balanceFromTotals g e d)"
  by (auto simp: balanceFromTotals_def Let_def intro: fl_nonneg)

lemma outstanding_is_grant_balance:
  "outstandingGrantLiability g d = GrantBalance (balanceFromTotals g e d)"
  by (simp add: outstandingGrantLiability_def balanceFromTotals_def Let_def)

section \<open>The contract of a backend\<close>

text \<open>
  An operation gets the outcome \<open>f\<close> of the database calls it makes (every backend has its
  own type of outcomes), and answers whether it took effect. \<open>tot\<close> reads an account's
  totals and \<open>claimed\<close> whether the user has a startup grant.
\<close>

datatype 'f ledger_op = OpCredit 'f CreditEntry | OpClaim 'f CreditEntry
  | OpDebit 'f user_id f64 job_id time

locale ledger_backend =
  fixes inv :: "'s \<Rightarrow> bool"
    and tot :: "'s \<Rightarrow> user_id \<Rightarrow> totals"
    and claimed :: "'s \<Rightarrow> user_id \<Rightarrow> bool"
    and grants :: "'s \<Rightarrow> user_id \<Rightarrow> nat"
    and credit :: "'f \<Rightarrow> CreditEntry \<Rightarrow> 's \<Rightarrow> bool \<times> 's"
    and claim :: "'f \<Rightarrow> CreditEntry \<Rightarrow> 's \<Rightarrow> bool \<times> 's"
    and debit :: "'f \<Rightarrow> user_id \<Rightarrow> f64 \<Rightarrow> job_id \<Rightarrow> time \<Rightarrow> 's \<Rightarrow> bool \<times> 's"
  assumes credit_law: "\<lbrakk>inv s; is_f64 (Amount e); Origin e \<noteq> CreditOriginStartupGrant; credit f e s = (ok, s')\<rbrakk> \<Longrightarrow>
      inv s' \<and> grants s' = grants s \<and> claimed s' = claimed s \<and>
      tot s' = (if ok then (tot s)(UserID e := addCredit e (tot s (UserID e))) else tot s)"
    and claim_law: "\<lbrakk>inv s; is_f64 (Amount e); Origin e = CreditOriginStartupGrant; claim f e s = (ok, s')\<rbrakk> \<Longrightarrow>
      inv s' \<and> (ok \<longrightarrow> \<not> claimed s (UserID e)) \<and>
      grants s' = (if ok then (grants s)(UserID e := Suc (grants s (UserID e))) else grants s) \<and>
      tot s' = (if ok then (tot s)(UserID e := addCredit e (tot s (UserID e))) else tot s)"
    and debit_law: "\<lbrakk>inv s; is_f64 a; debit f u a j t s = (ok, s')\<rbrakk> \<Longrightarrow>
      inv s' \<and> grants s' = grants s \<and> claimed s' = claimed s \<and>
      (ok \<longrightarrow> a \<le> available (tot s u)) \<and>
      tot s' = (if ok then (tot s)(u := addDebit a (tot s u)) else tot s)"
    and claimed_law: "inv s \<Longrightarrow> claimed s u \<longleftrightarrow> 0 < grants s u"
begin

definition run_op :: "'f ledger_op \<Rightarrow> 's \<Rightarrow> 's" where
  "run_op op s = (case op of
       OpCredit f e \<Rightarrow> snd (credit f e s)
     | OpClaim f e \<Rightarrow> snd (claim f e s)
     | OpDebit f u a j t \<Rightarrow> snd (debit f u a j t s))"

text \<open>The operations that the coordinator issues: amounts are non-negative doubles and only
  claims carry the startup-grant origin.\<close>

fun proper :: "'f ledger_op \<Rightarrow> bool" where
  "proper (OpCredit f e) \<longleftrightarrow> is_f64 (Amount e) \<and> 0 \<le> Amount e \<and> Origin e \<noteq> CreditOriginStartupGrant"
| "proper (OpClaim f e) \<longleftrightarrow> is_f64 (Amount e) \<and> 0 \<le> Amount e \<and> Origin e = CreditOriginStartupGrant"
| "proper (OpDebit f u a j t) \<longleftrightarrow> is_f64 a \<and> 0 \<le> a"

definition good :: "'s \<Rightarrow> bool" where
  "good s \<longleftrightarrow> inv s \<and> (\<forall>u. sound (tot s u)) \<and> (\<forall>u. grants s u \<le> 1)"

lemma good_run_op:
  assumes g: "good s" and p: "proper op"
  shows "good (run_op op s)"
proof (cases op)
  case (OpCredit f e)
  obtain ok s' where r: "credit f e s = (ok, s')" by fastforce
  have i: "inv s" and a: "is_f64 (Amount e)" "0 \<le> Amount e" "Origin e \<noteq> CreditOriginStartupGrant"
    using g p OpCredit by (auto simp: good_def)
  from credit_law[OF i a(1) a(3) r] g a show ?thesis
    by (auto simp: good_def run_op_def OpCredit r sound_addCredit)
next
  case (OpClaim f e)
  obtain ok s' where r: "claim f e s = (ok, s')" by fastforce
  have i: "inv s" and a: "is_f64 (Amount e)" "0 \<le> Amount e" "Origin e = CreditOriginStartupGrant"
    using g p OpClaim by (auto simp: good_def)
  from claim_law[OF i a(1) a(3) r] g a claimed_law[OF i, of "UserID e"] show ?thesis
    by (auto simp: good_def run_op_def OpClaim r sound_addCredit)
next
  case (OpDebit f u a j t)
  obtain ok s' where r: "debit f u a j t s = (ok, s')" by fastforce
  have i: "inv s" and a: "is_f64 a" "0 \<le> a" using g p OpDebit by (auto simp: good_def)
  from debit_law[OF i a(1) r] g a show ?thesis
    by (auto simp: good_def run_op_def OpDebit r sound_addDebit)
qed

lemma good_run: "good s \<Longrightarrow> list_all proper ops \<Longrightarrow> good (fold run_op ops s)"
  by (induction ops arbitrary: s) (auto simp: good_run_op)

lemma failed_debit_keeps:
  "inv s \<Longrightarrow> is_f64 a \<Longrightarrow> debit f u a j t s = (False, s') \<Longrightarrow> tot s' = tot s"
  using debit_law by fastforce

lemma other_accounts_debit:
  "inv s \<Longrightarrow> is_f64 a \<Longrightarrow> debit f u a j t s = (ok, s') \<Longrightarrow> v \<noteq> u \<Longrightarrow> tot s' v = tot s v"
  using debit_law by fastforce

end

end
