(* ===== verification/Ledger.thy ===== *)
theory Ledger
  imports LedgerBackend
begin

text \<open>
  The memory and SQLite ledger of \<open>internal/settlement/ledger.go\<close>. The state holds the
  in-memory logs, the tables of the database file when there is one, and whether a credit
  callback is registered. Every operation that writes takes the outcome of its SQL
  statement as an argument: a failing statement leaves the tables as they were. Go's
  timestamps survive the RFC3339Nano text form with nanosecond precision, and SQLite's
  REAL columns hold binary64, so a row is the entry it was written from.
\<close>

section \<open>State\<close>

record sqldb =
  credit_entries :: "CreditEntry list"
  ledger_debits :: "ledgerDebit list"
  admin_actions :: "AdminAction list"

record Ledger =
  entries :: "CreditEntry list"
  debits :: "ledgerDebit list"
  adminActions :: "AdminAction list"
  db :: "sqldb option"
  onCredit :: bool

datatype ledger_error = OpenLedgerDb | MigrateSchema | LoadCreditEntries | LoadDebits
  | LoadAdminActions | PersistCreditEntry | PersistAdminAction

definition NewLedger :: Ledger where
  "NewLedger = \<lparr> entries = [], debits = [], adminActions = [], db = None, onCredit = False \<rparr>"

definition SetOnCredit :: "Ledger \<Rightarrow> Ledger" where
  "SetOnCredit l = l\<lparr> onCredit := True \<rparr>"

definition notifyCredit :: "Ledger \<Rightarrow> CreditEntry \<Rightarrow> CreditEntry list" where
  "notifyCredit l entry = (if onCredit l then [entry] else [])"

section \<open>Opening a database file\<close>

text \<open>\<open>CREATE TABLE IF NOT EXISTS\<close>: a new file gets empty tables, an old one keeps its own.\<close>

definition migrateLedgerSchema :: "bool \<Rightarrow> sqldb option \<Rightarrow> ledger_error + sqldb" where
  "migrateLedgerSchema ok file =
     (if \<not> ok then Inl MigrateSchema
      else Inr (case file of
          None \<Rightarrow> \<lparr> credit_entries = [], ledger_debits = [], admin_actions = [] \<rparr>
        | Some tables \<Rightarrow> tables))"

text \<open>The three flags are the outcomes of the three queries and of scanning their rows.\<close>

definition loadFromDB :: "bool \<Rightarrow> bool \<Rightarrow> bool \<Rightarrow> Ledger \<Rightarrow> ledger_error + Ledger" where
  "loadFromDB ok1 ok2 ok3 l = (case db l of
       None \<Rightarrow> Inr l
     | Some tables \<Rightarrow>
         if \<not> ok1 then Inl LoadCreditEntries
         else if \<not> ok2 then Inl LoadDebits
         else if \<not> ok3 then Inl LoadAdminActions
         else Inr (l\<lparr> entries := entries l @ credit_entries tables,
                     debits := debits l @ ledger_debits tables,
                     adminActions := adminActions l @ admin_actions tables \<rparr>))"

definition NewPersistentLedger ::
    "bool \<Rightarrow> bool \<Rightarrow> bool \<Rightarrow> bool \<Rightarrow> bool \<Rightarrow> sqldb option \<Rightarrow> ledger_error + Ledger" where
  "NewPersistentLedger openOk migrateOk ok1 ok2 ok3 file =
     (if \<not> openOk then Inl OpenLedgerDb
      else case migrateLedgerSchema migrateOk file of
          Inl e \<Rightarrow> Inl e
        | Inr tables \<Rightarrow> loadFromDB ok1 ok2 ok3 (NewLedger\<lparr> db := Some tables \<rparr>))"

section \<open>Credits\<close>

definition creditLocked :: "bool \<Rightarrow> CreditEntry \<Rightarrow> Ledger \<Rightarrow> ledger_error + Ledger" where
  "creditLocked ok entry l = (case db l of
       None \<Rightarrow> Inr (l\<lparr> entries := entries l @ [entry] \<rparr>)
     | Some tables \<Rightarrow>
         if \<not> ok then Inl PersistCreditEntry
         else Inr (l\<lparr> db := Some (tables\<lparr> credit_entries := credit_entries tables @ [entry] \<rparr>),
                     entries := entries l @ [entry] \<rparr>))"

text \<open>The third component lists the entries the credit callback is called with.\<close>

definition CreditAccount :: "bool \<Rightarrow> CreditEntry \<Rightarrow> Ledger \<Rightarrow>
    ledger_error option \<times> Ledger \<times> CreditEntry list" where
  "CreditAccount ok entry l = (case creditLocked ok entry l of
       Inl e \<Rightarrow> (Some e, l, [])
     | Inr l' \<Rightarrow> (None, l', notifyCredit l' entry))"

definition hasStartupGrant :: "user_id \<Rightarrow> CreditEntry list \<Rightarrow> bool" where
  "hasStartupGrant u es =
     list_ex (\<lambda>e. UserID e = u \<and> Origin e = CreditOriginStartupGrant) es"

definition ClaimStartupGrantOnce :: "bool \<Rightarrow> CreditEntry \<Rightarrow> Ledger \<Rightarrow>
    (bool \<times> ledger_error option) \<times> Ledger \<times> CreditEntry list" where
  "ClaimStartupGrantOnce ok entry l =
     (if hasStartupGrant (UserID entry) (entries l) then ((False, None), l, [])
      else case creditLocked ok entry l of
          Inl e \<Rightarrow> ((False, Some e), l, [])
        | Inr l' \<Rightarrow> ((True, None), l', notifyCredit l' entry))"

section \<open>Balances and debits\<close>

text \<open>The two loops over the logs, in their order.\<close>

definition creditLoop :: "user_id \<Rightarrow> CreditEntry list \<Rightarrow> totals \<Rightarrow> totals" where
  "creditLoop u es t = fold (\<lambda>e t. if UserID e \<noteq> u then t else addCredit e t) es t"

definition debitLoop :: "user_id \<Rightarrow> ledgerDebit list \<Rightarrow> totals \<Rightarrow> totals" where
  "debitLoop u ds t = fold (\<lambda>d t. if DebitUserID d = u then addDebit (DebitAmount d) t else t) ds t"

definition accountTotals :: "Ledger \<Rightarrow> user_id \<Rightarrow> totals" where
  "accountTotals l u = debitLoop u (debits l) (creditLoop u (entries l) (0, 0, 0))"

definition GetBalance :: "user_id \<Rightarrow> Ledger \<Rightarrow> Balance" where
  "GetBalance u l = (let (grantTotal, earnedTotal, totalDebited) = accountTotals l u
     in balanceFromTotals grantTotal earnedTotal totalDebited)"

definition DebitAccount :: "bool \<Rightarrow> user_id \<Rightarrow> f64 \<Rightarrow> job_id \<Rightarrow> time \<Rightarrow> Ledger \<Rightarrow> bool \<times> Ledger" where
  "DebitAccount ok u amount job now l =
     (let (grantTotal, earnedTotal, totalDebited) = accountTotals l u
      in if amount > fsub (fadd grantTotal earnedTotal) totalDebited then (False, l)
         else let debit = \<lparr> DebitUserID = u, DebitAmount = amount, JobID = job, WrittenAt = now \<rparr>
         in case db l of
              None \<Rightarrow> (True, l\<lparr> debits := debits l @ [debit] \<rparr>)
            | Some tables \<Rightarrow>
                if \<not> ok then (False, l)
                else (True, l\<lparr> db := Some (tables\<lparr> ledger_debits := ledger_debits tables @ [debit] \<rparr>),
                             debits := debits l @ [debit] \<rparr>))"

text \<open>
  The sum over all users ranges over a Go map: \<open>ks\<close> is the order in which its keys, the
  users with a startup grant or a debit, are visited.
\<close>

definition liabilityUsers :: "Ledger \<Rightarrow> user_id \<rightharpoonup> f64 \<times> f64" where
  "liabilityUsers l =
     (let ensure = \<lambda>u m. (case m u of None \<Rightarrow> (0, 0) | Some s \<Rightarrow> s);
          m1 = fold (\<lambda>e m. if Origin e = CreditOriginStartupGrant
                 then (let (g, d) = ensure (UserID e) m in m(UserID e \<mapsto> (fadd g (Amount e), d)))
                 else m) (entries l) Map.empty
      in fold (\<lambda>x m. let (g, d) = ensure (DebitUserID x) m
               in m(DebitUserID x \<mapsto> (g, fadd d (DebitAmount x)))) (debits l) m1)"

definition TotalOutstandingGrantLiability :: "user_id list \<Rightarrow> Ledger \<Rightarrow> f64" where
  "TotalOutstandingGrantLiability ks l =
     fold (\<lambda>u liability. case liabilityUsers l u of
         None \<Rightarrow> liability
       | Some (g, d) \<Rightarrow> fadd liability (outstandingGrantLiability g d)) ks 0"

section \<open>The admin audit trail\<close>

definition RecordAdminAction :: "bool \<Rightarrow> string \<Rightarrow> string \<Rightarrow> f64 \<Rightarrow> time \<Rightarrow> Ledger \<Rightarrow>
    ledger_error option \<times> Ledger" where
  "RecordAdminAction ok action detail amount performedAt l =
     (let row = \<lparr> Action = action, Detail = detail, ActionAmount = amount, PerformedAt = performedAt \<rparr>
      in case db l of
           None \<Rightarrow> (None, l\<lparr> adminActions := adminActions l @ [row] \<rparr>)
         | Some tables \<Rightarrow>
             if \<not> ok then (Some PersistAdminAction, l)
             else (None, l\<lparr> db := Some (tables\<lparr> admin_actions := admin_actions tables @ [row] \<rparr>),
                          adminActions := adminActions l @ [row] \<rparr>))"

definition RecentAdminActions :: "int \<Rightarrow> Ledger \<Rightarrow> AdminAction list" where
  "RecentAdminActions limit l =
     (let n = (if limit \<le> 0 \<or> limit > int (length (adminActions l))
               then length (adminActions l) else nat limit)
      in map (\<lambda>i. adminActions l ! (length (adminActions l) - 1 - i)) [0..<n])"

section \<open>The logs and the totals\<close>

lemma addCredit_addDebit: "addCredit e (addDebit a t) = addDebit a (addCredit e t)"
  by (cases t) (simp add: addCredit_def addDebit_def split: CreditOrigin.splits)

lemma creditLoop_snoc:
  "creditLoop u (es @ [e]) t = (if UserID e = u then addCredit e (creditLoop u es t) else creditLoop u es t)"
  by (simp add: creditLoop_def)

lemma debitLoop_snoc: "debitLoop u (ds @ [d]) t =
    (if DebitUserID d = u then addDebit (DebitAmount d) (debitLoop u ds t) else debitLoop u ds t)"
  by (simp add: debitLoop_def)

lemma debitLoop_addCredit: "debitLoop u ds (addCredit e t) = addCredit e (debitLoop u ds t)"
  by (induction ds arbitrary: t) (simp_all add: debitLoop_def addCredit_addDebit[symmetric])

lemma accountTotals_credit:
  assumes "entries l' = entries l @ [e]" "debits l' = debits l"
  shows "accountTotals l' = (accountTotals l)(UserID e := addCredit e (accountTotals l (UserID e)))"
  using assms by (auto simp: accountTotals_def creditLoop_snoc debitLoop_addCredit)

lemma accountTotals_debit:
  assumes "debits l' = debits l @ [d]" "entries l' = entries l"
  shows "accountTotals l' = (accountTotals l)(DebitUserID d := addDebit (DebitAmount d) (accountTotals l (DebitUserID d)))"
  using assms by (auto simp: accountTotals_def debitLoop_snoc)

lemma accountTotals_cong:
  "entries l' = entries l \<Longrightarrow> debits l' = debits l \<Longrightarrow> accountTotals l' = accountTotals l"
  by (auto simp: accountTotals_def)

definition grantCount :: "CreditEntry list \<Rightarrow> user_id \<Rightarrow> nat" where
  "grantCount es u = length (filter (\<lambda>e. UserID e = u \<and> Origin e = CreditOriginStartupGrant) es)"

lemma grantCount_snoc: "grantCount (es @ [e]) u =
    (if UserID e = u \<and> Origin e = CreditOriginStartupGrant then Suc (grantCount es u) else grantCount es u)"
  by (simp add: grantCount_def)

lemma hasStartupGrant_count: "hasStartupGrant u es \<longleftrightarrow> 0 < grantCount es u"
  by (auto simp: hasStartupGrant_def grantCount_def list_ex_iff filter_empty_conv)

section \<open>The ledger meets the contract\<close>

text \<open>The tables mirror the logs: what a restart would load is what is in memory.\<close>

definition mirrored :: "Ledger \<Rightarrow> bool" where
  "mirrored l = (case db l of None \<Rightarrow> True
     | Some t \<Rightarrow> credit_entries t = entries l \<and> ledger_debits t = debits l \<and> admin_actions t = adminActions l)"

definition memCredit :: "bool \<Rightarrow> CreditEntry \<Rightarrow> Ledger \<Rightarrow> bool \<times> Ledger" where
  "memCredit ok e l = (case CreditAccount ok e l of (err, l', _) \<Rightarrow> (err = None, l'))"

definition memClaim :: "bool \<Rightarrow> CreditEntry \<Rightarrow> Ledger \<Rightarrow> bool \<times> Ledger" where
  "memClaim ok e l = (case ClaimStartupGrantOnce ok e l of ((claimed, err), l', _) \<Rightarrow> (claimed, l'))"

lemma creditLocked_Inr:
  assumes "creditLocked ok e l = Inr l'"
  shows "entries l' = entries l @ [e]" "debits l' = debits l" "adminActions l' = adminActions l"
    "onCredit l' = onCredit l" "mirrored l \<Longrightarrow> mirrored l'" "db l = None \<longleftrightarrow> db l' = None"
  using assms by (auto simp: creditLocked_def mirrored_def split: option.splits if_splits)

lemma DebitAccount_True:
  assumes "DebitAccount ok u a j t l = (True, l')"
  shows "debits l' = debits l @ [\<lparr> DebitUserID = u, DebitAmount = a, JobID = j, WrittenAt = t \<rparr>]"
    "entries l' = entries l" "adminActions l' = adminActions l" "mirrored l \<Longrightarrow> mirrored l'"
    "a \<le> available (accountTotals l u)" "db l = None \<longleftrightarrow> db l' = None"
  using assms by (auto simp: DebitAccount_def mirrored_def available_def Let_def not_less
      split: prod.splits option.splits if_splits)

lemma DebitAccount_False: "DebitAccount ok u a j t l = (False, l') \<Longrightarrow> l' = l"
  by (auto simp: DebitAccount_def Let_def split: prod.splits option.splits if_splits)

interpretation mem: ledger_backend mirrored accountTotals
  "\<lambda>l u. hasStartupGrant u (entries l)" "\<lambda>l. grantCount (entries l)" memCredit memClaim DebitAccount
proof unfold_locales
  fix s e f ok s'
  assume i: "mirrored s" and o: "Origin e \<noteq> CreditOriginStartupGrant" and r: "memCredit f e s = (ok, s')"
  show "mirrored s' \<and> grantCount (entries s') = grantCount (entries s) \<and>
      (\<lambda>u. hasStartupGrant u (entries s')) = (\<lambda>u. hasStartupGrant u (entries s)) \<and>
      accountTotals s' = (if ok then (accountTotals s)(UserID e := addCredit e (accountTotals s (UserID e)))
        else accountTotals s)"
  proof (cases "creditLocked f e s")
    case (Inl err)
    then show ?thesis using r i by (auto simp: memCredit_def CreditAccount_def)
  next
    case (Inr l')
    have [simp]: "ok" "s' = l'" using r Inr by (auto simp: memCredit_def CreditAccount_def)
    note c = creditLocked_Inr[OF Inr]
    show ?thesis using c(5)[OF i] o accountTotals_credit[OF c(1,2)]
      by (auto simp: c(1) grantCount_snoc hasStartupGrant_def)
  qed
next
  fix s e f ok s'
  assume i: "mirrored s" and o: "Origin e = CreditOriginStartupGrant" and r: "memClaim f e s = (ok, s')"
  show "mirrored s' \<and> (ok \<longrightarrow> \<not> hasStartupGrant (UserID e) (entries s)) \<and>
      grantCount (entries s') = (if ok then (grantCount (entries s))(UserID e := Suc (grantCount (entries s) (UserID e)))
        else grantCount (entries s)) \<and>
      accountTotals s' = (if ok then (accountTotals s)(UserID e := addCredit e (accountTotals s (UserID e)))
        else accountTotals s)"
  proof (cases "hasStartupGrant (UserID e) (entries s)")
    case True
    then show ?thesis using r i by (auto simp: memClaim_def ClaimStartupGrantOnce_def)
  next
    case False
    show ?thesis
    proof (cases "creditLocked f e s")
      case (Inl err)
      then show ?thesis using r i False by (auto simp: memClaim_def ClaimStartupGrantOnce_def)
    next
      case (Inr l')
      have [simp]: "ok" "s' = l'" using r Inr False by (auto simp: memClaim_def ClaimStartupGrantOnce_def)
      note c = creditLocked_Inr[OF Inr]
      show ?thesis using c(5)[OF i] o False accountTotals_credit[OF c(1,2)]
        by (auto simp: c(1) grantCount_snoc)
    qed
  qed
next
  fix s a f u j t ok s'
  assume i: "mirrored s" and r: "DebitAccount f u a j t s = (ok, s')"
  show "mirrored s' \<and> grantCount (entries s') = grantCount (entries s) \<and>
      (\<lambda>u. hasStartupGrant u (entries s')) = (\<lambda>u. hasStartupGrant u (entries s)) \<and>
      (ok \<longrightarrow> a \<le> available (accountTotals s u)) \<and>
      accountTotals s' = (if ok then (accountTotals s)(u := addDebit a (accountTotals s u)) else accountTotals s)"
  proof (cases ok)
    case True
    have r': "DebitAccount f u a j t s = (True, s')" using r True by simp
    note d = DebitAccount_True[OF r']
    show ?thesis using True d(4)[OF i] d(5) accountTotals_debit[OF d(1,2)] by (simp add: d(2))
  next
    case False
    then have "DebitAccount f u a j t s = (False, s')" using r by simp
    then show ?thesis using DebitAccount_False False i by metis
  qed
qed (simp add: hasStartupGrant_count)

section \<open>Sessions with restarts\<close>

text \<open>
  The life of a coordinator: ledger operations, audit entries, and restarts, which drop
  the memory and reopen the database file (a coordinator without a file starts empty). A
  restart that cannot read the file is fatal in \<open>cmd/coordinator\<close>, so the restarts of a
  session succeed.
\<close>

datatype session_event = Ev "bool ledger_op" | EvAdmin bool string string f64 time | Restart

definition reopen :: "Ledger \<Rightarrow> ledger_error + Ledger" where
  "reopen l = (case db l of None \<Rightarrow> Inr NewLedger
     | Some tables \<Rightarrow> NewPersistentLedger True True True True True (Some tables))"

definition session_step :: "session_event \<Rightarrow> Ledger \<Rightarrow> Ledger" where
  "session_step ev l = (case ev of
       Ev op \<Rightarrow> mem.run_op op l
     | EvAdmin ok action detail amount t \<Rightarrow> snd (RecordAdminAction ok action detail amount t l)
     | Restart \<Rightarrow> (case reopen l of Inl e \<Rightarrow> l | Inr l' \<Rightarrow> l'))"

fun proper_event :: "session_event \<Rightarrow> bool" where
  "proper_event (Ev op) = mem.proper op"
| "proper_event _ = True"

lemma reopen_mirrored:
  assumes "mirrored l" "db l = Some tables"
  shows "reopen l = Inr (l\<lparr> onCredit := False \<rparr>)"
  using assms by (cases l) (simp add: reopen_def NewPersistentLedger_def migrateLedgerSchema_def
      loadFromDB_def NewLedger_def mirrored_def)

lemma RecordAdminAction_fields:
  assumes "RecordAdminAction ok a d x t l = (err, l')"
  shows "entries l' = entries l" "debits l' = debits l" "mirrored l \<Longrightarrow> mirrored l'"
    "db l = None \<longleftrightarrow> db l' = None"
    "adminActions l' = (if err = None then adminActions l @ [\<lparr> Action = a, Detail = d, ActionAmount = x, PerformedAt = t \<rparr>]
      else adminActions l)"
  using assms by (auto simp: RecordAdminAction_def mirrored_def Let_def split: option.splits if_splits)

lemma mem_good_cong:
  assumes "mem.good l" "entries l' = entries l" "debits l' = debits l" "mirrored l'"
  shows "mem.good l'"
  using assms accountTotals_cong[OF assms(2,3)] by (simp add: mem.good_def)

lemma NewLedger_good [simp]: "mem.good NewLedger"
  by (simp add: mem.good_def NewLedger_def mirrored_def accountTotals_def creditLoop_def
      debitLoop_def grantCount_def)

lemma session_step_good:
  assumes "mem.good l" "proper_event ev"
  shows "mem.good (session_step ev l)"
proof (cases ev)
  case (Ev op)
  then show ?thesis using mem.good_run_op[of l op] assms by (simp add: session_step_def)
next
  case (EvAdmin ok a d x t)
  obtain err l' where r: "RecordAdminAction ok a d x t l = (err, l')" by fastforce
  note f = RecordAdminAction_fields[OF r]
  have "mirrored l" using assms(1) by (simp add: mem.good_def)
  from mem_good_cong[OF assms(1) f(1,2) f(3)[OF this]] show ?thesis
    by (simp add: session_step_def EvAdmin r)
next
  case Restart
  have m: "mirrored l" using assms(1) by (simp add: mem.good_def)
  show ?thesis
  proof (cases "db l")
    case None
    then show ?thesis by (simp add: session_step_def Restart reopen_def NewLedger_good)
  next
    case (Some tables)
    have "mirrored (l\<lparr> onCredit := False \<rparr>)" using m by (cases "db l") (simp_all add: mirrored_def)
    then show ?thesis using mem_good_cong[OF assms(1), of "l\<lparr> onCredit := False \<rparr>"]
      by (simp add: session_step_def Restart reopen_mirrored[OF m Some])
  qed
qed

lemma session_good:
  "mem.good l \<Longrightarrow> list_all proper_event evs \<Longrightarrow> mem.good (fold session_step evs l)"
  by (induction evs arbitrary: l) (auto simp: session_step_good)

text \<open>A failing call leaves the ledger exactly as it was.\<close>

lemma CreditAccount_error: "CreditAccount ok e l = (Some err, l', ns) \<Longrightarrow> l' = l \<and> ns = []"
  by (auto simp: CreditAccount_def split: sum.splits)

lemma ClaimStartupGrantOnce_refused:
  "ClaimStartupGrantOnce ok e l = ((False, err), l', ns) \<Longrightarrow> l' = l \<and> ns = []"
  by (auto simp: ClaimStartupGrantOnce_def split: sum.splits if_splits)

lemma GetBalance_split:
  "accountTotals l u = (g, e, d) \<Longrightarrow> GetBalance u l = balanceFromTotals g e d"
  by (simp add: GetBalance_def)

lemma f64_creditLoop [simp]: "f64_totals t \<Longrightarrow> f64_totals (creditLoop u es t)"
  by (induction es arbitrary: t) (simp_all add: creditLoop_def)

lemma f64_debitLoop [simp]: "f64_totals t \<Longrightarrow> f64_totals (debitLoop u ds t)"
  by (induction ds arbitrary: t) (simp_all add: debitLoop_def)

lemma f64_accountTotals [simp]: "f64_totals (accountTotals l u)"
  by (simp add: accountTotals_def)

lemma totals_f64: "accountTotals l u = (g, e, d) \<Longrightarrow> is_f64 g \<and> is_f64 e \<and> is_f64 d"
  using f64_accountTotals[of l u] by (simp add: f64_totals_def)

lemma RecentAdminActions_take:
  "RecentAdminActions limit l =
     take (if limit \<le> 0 then length (adminActions l) else nat limit) (rev (adminActions l))"
proof (rule nth_equalityI)
  fix i assume "i < length (RecentAdminActions limit l)"
  then show "RecentAdminActions limit l ! i =
     take (if limit \<le> 0 then length (adminActions l) else nat limit) (rev (adminActions l)) ! i"
    by (auto simp: RecentAdminActions_def Let_def rev_nth split: if_splits)
qed (auto simp: RecentAdminActions_def Let_def)

lemma good_start:
  assumes "l0 = NewLedger \<or> NewPersistentLedger True True True True True None = Inr l0"
  shows "mem.good l0"
  using assms NewLedger_good
  by (auto simp: NewPersistentLedger_def migrateLedgerSchema_def loadFromDB_def NewLedger_def
      mem.good_def mirrored_def accountTotals_def creditLoop_def debitLoop_def grantCount_def)

section \<open>Properties\<close>

text \<open>
  C5. No sequence of credits, grant claims, debits, audit entries and restarts, with any
  database failures in between, overdraws an account: with non-negative amounts the debits
  never exceed the credits by more than the relative 2^-51 that binary64 rounding of the
  availability test can let through, and every balance shown is non-negative.
\<close>

theorem ledger_no_overdraft:
  assumes "l0 = NewLedger \<or> NewPersistentLedger True True True True True None = Inr l0"
    and "list_all proper_event evs"
    and "accountTotals (fold session_step evs l0) u = (g, e, d)"
  shows "0 \<le> d \<and> d \<le> fadd g e * (1 + 1 / 2 ^ 51) \<and>
         0 \<le> Total (GetBalance u (fold session_step evs l0))"
  using session_good[OF good_start[OF assms(1)] assms(2)] assms(3)
  by (auto simp: mem.good_def sound_def GetBalance_split balance_nonneg dest: spec[of _ u])

theorem ledger_no_overdraft_witness:
  "\<exists>g e d. accountTotals (fold session_step
       [Ev (OpClaim True \<lparr> UserID = ''u'', Origin = CreditOriginStartupGrant, Amount = 100,
          GrantedOrEarnedAt = 0, SourceReference = ''p'' \<rparr>), Restart,
        Ev (OpDebit True ''u'' 3 ''j'' 1), Restart] NewLedger) ''u'' = (g, e, d)
     \<and> d \<le> fadd g e * (1 + 1 / 2 ^ 51)"
  using ledger_no_overdraft[of NewLedger "[Ev (OpClaim True \<lparr> UserID = ''u'',
      Origin = CreditOriginStartupGrant, Amount = 100, GrantedOrEarnedAt = 0, SourceReference = ''p'' \<rparr>),
      Restart, Ev (OpDebit True ''u'' 3 ''j'' 1), Restart]" "''u''"]
    is_f64_of_int[of 100] is_f64_of_int[of 3]
  by (cases "accountTotals (fold session_step
       [Ev (OpClaim True \<lparr> UserID = ''u'', Origin = CreditOriginStartupGrant, Amount = 100,
          GrantedOrEarnedAt = 0, SourceReference = ''p'' \<rparr>), Restart,
        Ev (OpDebit True ''u'' 3 ''j'' 1), Restart] NewLedger) ''u''") (simp add: mem.proper.simps)

text \<open>
  C6. A user gets at most one startup grant in the whole life of a coordinator that runs on
  a database file, whatever fails and however often it restarts: a claim succeeds only
  while the log has no grant of that user, and the restarts recover the log exactly.
\<close>

theorem startup_grant_once_across_restarts:
  assumes "NewPersistentLedger True True True True True None = Inr l0"
    and "list_all proper_event evs"
    and "fold session_step evs l0 = l"
  shows "grantCount (entries l) u \<le> 1 \<and>
         (fst (memClaim ok entry l) \<longrightarrow> grantCount (entries l) (UserID entry) = 0) \<and>
         (\<forall>tables. db l = Some tables \<longrightarrow> reopen l = Inr (l\<lparr> onCredit := False \<rparr>))"
proof -
  have g: "mem.good l" using session_good[OF good_start assms(2), of l0] assms(1,3) by simp
  then have m: "mirrored l" by (simp add: mem.good_def)
  have "fst (memClaim ok entry l) \<longrightarrow> grantCount (entries l) (UserID entry) = 0"
    by (auto simp: memClaim_def ClaimStartupGrantOnce_def hasStartupGrant_count split: if_splits)
  then show ?thesis using g reopen_mirrored[OF m] by (simp add: mem.good_def)
qed

theorem startup_grant_once_across_restarts_witness:
  "\<exists>l0. NewPersistentLedger True True True True True None = Inr l0 \<and>
     grantCount (entries (fold session_step
       [Ev (OpClaim True \<lparr> UserID = ''u'', Origin = CreditOriginStartupGrant, Amount = 100,
          GrantedOrEarnedAt = 0, SourceReference = ''p'' \<rparr>), Restart,
        Ev (OpClaim True \<lparr> UserID = ''u'', Origin = CreditOriginStartupGrant, Amount = 100,
          GrantedOrEarnedAt = 5, SourceReference = ''p'' \<rparr>)] l0)) ''u'' \<le> 1"
  using startup_grant_once_across_restarts[OF _ _ refl, of _
      "[Ev (OpClaim True \<lparr> UserID = ''u'', Origin = CreditOriginStartupGrant, Amount = 100,
          GrantedOrEarnedAt = 0, SourceReference = ''p'' \<rparr>), Restart,
        Ev (OpClaim True \<lparr> UserID = ''u'', Origin = CreditOriginStartupGrant, Amount = 100,
          GrantedOrEarnedAt = 5, SourceReference = ''p'' \<rparr>)]" "''u''"] is_f64_of_int[of 100]
  by (simp add: mem.proper.simps NewPersistentLedger_def migrateLedgerSchema_def loadFromDB_def NewLedger_def)

text \<open>
  A debit takes effect exactly when it is allowed: it is refused, leaving the ledger
  unchanged, when the amount exceeds the available credit; when it succeeds the amount was
  covered, nobody else's balance changes, and the earned balance is touched only when no
  grant balance is left.
\<close>

theorem debit_grant_first:
  assumes "is_f64 amount" and "0 \<le> amount"
    and "accountTotals l u = (g, e, d)"
    and "DebitAccount ok u amount job now l = (paid, l')"
  shows "(\<not> paid \<longrightarrow> l' = l) \<and>
         (paid \<longrightarrow> amount \<le> fsub (fadd g e) d \<and> accountTotals l' u = (g, e, fadd d amount) \<and>
            (EarnedBalance (GetBalance u l') \<noteq> EarnedBalance (GetBalance u l)
               \<longrightarrow> GrantBalance (GetBalance u l') = 0) \<and>
            (\<forall>v. v \<noteq> u \<longrightarrow> GetBalance v l' = GetBalance v l))"
proof (cases paid)
  case False
  then have "DebitAccount ok u amount job now l = (False, l')" using assms(4) by simp
  then show ?thesis using DebitAccount_False False by metis
next
  case True
  have r: "DebitAccount ok u amount job now l = (True, l')" using assms(4) True by simp
  note d = DebitAccount_True[OF r]
  have t: "accountTotals l' = (accountTotals l)(u := (g, e, fadd d amount))"
    using accountTotals_debit[OF d(1,2)] assms(3) by (simp add: addDebit_def)
  have le: "d \<le> fadd d amount" using totals_f64[OF assms(3)] assms(2) by (intro fl_add_nonneg_ge) auto
  have "amount \<le> fsub (fadd g e) d" using d(5) assms(3) by (simp add: available_def)
  moreover have "EarnedBalance (GetBalance u l') \<noteq> EarnedBalance (GetBalance u l)
      \<longrightarrow> GrantBalance (GetBalance u l') = 0"
    using grant_first[OF le, of g e] assms(3) by (simp add: GetBalance_def t)
  ultimately show ?thesis using True by (simp add: t GetBalance_def)
qed

theorem debit_grant_first_witness:
  "\<exists>l'. DebitAccount True ''u'' 2 ''j'' 0 (NewLedger\<lparr> entries :=
       [\<lparr> UserID = ''u'', Origin = CreditOriginStartupGrant, Amount = 1, GrantedOrEarnedAt = 0, SourceReference = ''p'' \<rparr>,
        \<lparr> UserID = ''u'', Origin = CreditOriginEarnedContrib, Amount = 2, GrantedOrEarnedAt = 0, SourceReference = ''j'' \<rparr>] \<rparr>)
     = (True, l') \<and> accountTotals l' ''u'' = (1, 2, 2)"
proof -
  let ?l = "NewLedger\<lparr> entries :=
       [\<lparr> UserID = ''u'', Origin = CreditOriginStartupGrant, Amount = 1, GrantedOrEarnedAt = 0, SourceReference = ''p'' \<rparr>,
        \<lparr> UserID = ''u'', Origin = CreditOriginEarnedContrib, Amount = 2, GrantedOrEarnedAt = 0, SourceReference = ''j'' \<rparr>] \<rparr>"
  have e: "fl 2 = 2" "fadd 1 2 = 3" "fl 3 = 3" by code_simp+
  have t: "accountTotals ?l ''u'' = (1, 2, 0)"
    by (simp add: accountTotals_def NewLedger_def creditLoop_def debitLoop_def addCredit_def e)
  have r: "fst (DebitAccount True ''u'' 2 ''j'' 0 ?l) = True"
    by (simp add: DebitAccount_def t e) (simp add: NewLedger_def)
  then obtain l' where l': "DebitAccount True ''u'' 2 ''j'' 0 ?l = (True, l')" by (metis prod.collapse)
  have "is_f64 2" using is_f64_of_int[of 2] by simp
  from debit_grant_first[OF this zero_le_numeral t l'] show ?thesis using l' e by auto
qed

end
