(* ===== verification/Reconcile.thy ===== *)
theory Reconcile
  imports Ledger
begin

text \<open>
  The audit of \<open>internal/settlement/reconcile.go\<close>: one scan over the logs that rebuilds
  every user's totals and reports the users whose debits exceed their credits. The map it
  builds is visited in the order \<open>ks\<close>, which lists each of its keys once.
\<close>

section \<open>Definitions\<close>

datatype AnomalyKind = AnomalyOverdraft | AnomalyOrphanDebit

record LedgerAnomaly =
  AnomalyUserID :: user_id
  Kind :: AnomalyKind
  CreditTotal :: f64
  DebitTotal :: f64

record ReconciliationReport =
  Consistent :: bool
  UserCount :: nat
  TotalGrantCredits :: f64
  TotalEarnedCredits :: f64
  TotalCredits :: f64
  TotalDebits :: f64
  TotalOutstanding :: f64
  Anomalies :: "LedgerAnomaly list"

definition reconcileEpsilon :: f64 where "reconcileEpsilon = fl (1 / 1000000)"

definition emptyReport :: ReconciliationReport where
  "emptyReport = \<lparr> Consistent = False, UserCount = 0, TotalGrantCredits = 0, TotalEarnedCredits = 0,
     TotalCredits = 0, TotalDebits = 0, TotalOutstanding = 0, Anomalies = [] \<rparr>"

definition ensure :: "(user_id \<rightharpoonup> totals) \<Rightarrow> user_id \<Rightarrow> totals" where
  "ensure users u = (case users u of None \<Rightarrow> (0, 0, 0) | Some t \<Rightarrow> t)"

text \<open>The loop over the entries and the loop over the debits.\<close>

definition reconcileCredit :: "CreditEntry \<Rightarrow> (user_id \<rightharpoonup> totals) \<times> ReconciliationReport \<Rightarrow>
    (user_id \<rightharpoonup> totals) \<times> ReconciliationReport" where
  "reconcileCredit e = (\<lambda>(users, report).
     (users(UserID e \<mapsto> addCredit e (ensure users (UserID e))),
      case Origin e of
        CreditOriginStartupGrant \<Rightarrow> report\<lparr> TotalGrantCredits := fadd (TotalGrantCredits report) (Amount e) \<rparr>
      | CreditOriginEarnedContrib \<Rightarrow> report\<lparr> TotalEarnedCredits := fadd (TotalEarnedCredits report) (Amount e) \<rparr>
      | CreditOriginAdminAdjustment \<Rightarrow> report\<lparr> TotalEarnedCredits := fadd (TotalEarnedCredits report) (Amount e) \<rparr>
      | CreditOriginOther _ \<Rightarrow> report))"

definition reconcileDebit :: "ledgerDebit \<Rightarrow> (user_id \<rightharpoonup> totals) \<times> ReconciliationReport \<Rightarrow>
    (user_id \<rightharpoonup> totals) \<times> ReconciliationReport" where
  "reconcileDebit d = (\<lambda>(users, report).
     (users(DebitUserID d \<mapsto> addDebit (DebitAmount d) (ensure users (DebitUserID d))),
      report\<lparr> TotalDebits := fadd (TotalDebits report) (DebitAmount d) \<rparr>))"

definition overdrawn :: "totals \<Rightarrow> bool" where
  "overdrawn = (\<lambda>(g, e, d). d > fadd (fadd g e) reconcileEpsilon)"

text \<open>The body of the loop over the users.\<close>

definition reconcileUser :: "user_id \<Rightarrow> totals \<Rightarrow> ReconciliationReport \<Rightarrow> ReconciliationReport" where
  "reconcileUser u t report =
     (let (grant, earned, debited) = t;
          credits = fadd grant earned;
          balance = fsub credits debited;
          report = (if balance > 0
            then report\<lparr> TotalOutstanding := fadd (TotalOutstanding report) balance \<rparr> else report)
      in if overdrawn t
         then report\<lparr> Anomalies := Anomalies report @
                [\<lparr> AnomalyUserID = u, Kind = (if credits = 0 then AnomalyOrphanDebit else AnomalyOverdraft),
                   CreditTotal = credits, DebitTotal = debited \<rparr>] \<rparr>
         else report)"

definition reconcileScan :: "Ledger \<Rightarrow> (user_id \<rightharpoonup> totals) \<times> ReconciliationReport" where
  "reconcileScan l = fold reconcileDebit (debits l) (fold reconcileCredit (entries l) (Map.empty, emptyReport))"

text \<open>What both backends do with the map they have built.\<close>

definition finishReport :: "user_id list \<Rightarrow> (user_id \<rightharpoonup> totals) \<Rightarrow> ReconciliationReport \<Rightarrow> ReconciliationReport" where
  "finishReport ks users report =
     (let report = report\<lparr> TotalCredits := fadd (TotalGrantCredits report) (TotalEarnedCredits report),
                          UserCount := length ks \<rparr>;
          report = fold (\<lambda>u r. case users u of None \<Rightarrow> r | Some t \<Rightarrow> reconcileUser u t r) ks report
      in report\<lparr> Consistent := Anomalies report = [] \<rparr>)"

definition Reconcile :: "user_id list \<Rightarrow> Ledger \<Rightarrow> ReconciliationReport" where
  "Reconcile ks l = (let (users, report) = reconcileScan l in finishReport ks users report)"

section \<open>The map of users\<close>

lemma creditLoop_Cons [simp]:
  "creditLoop u (e # es) t = creditLoop u es (if UserID e = u then addCredit e t else t)"
  by (simp add: creditLoop_def)

lemma debitLoop_Cons [simp]:
  "debitLoop u (d # ds) t = debitLoop u ds (if DebitUserID d = u then addDebit (DebitAmount d) t else t)"
  by (simp add: debitLoop_def)

lemma debitLoop_idle: "u \<notin> DebitUserID ` set ds \<Longrightarrow> debitLoop u ds t = t"
  by (induction ds arbitrary: t) (auto, simp add: debitLoop_def)

lemma creditLoop_idle: "u \<notin> UserID ` set es \<Longrightarrow> creditLoop u es t = t"
  by (induction es arbitrary: t) (auto, simp add: creditLoop_def)

lemma reconcileCredits_users:
  "fst (fold reconcileCredit es (m, r)) u =
     (if u \<in> UserID ` set es then Some (creditLoop u es (ensure m u)) else m u)"
proof (induction es arbitrary: m r)
  case (Cons e es)
  obtain r' where s: "reconcileCredit e (m, r) = (m(UserID e \<mapsto> addCredit e (ensure m (UserID e))), r')"
    by (simp add: reconcileCredit_def)
  show ?case by (auto simp: s Cons.IH ensure_def creditLoop_idle)
qed simp

lemma reconcileDebits_users:
  "fst (fold reconcileDebit ds (m, r)) u =
     (if u \<in> DebitUserID ` set ds then Some (debitLoop u ds (ensure m u)) else m u)"
proof (induction ds arbitrary: m r)
  case (Cons d ds)
  obtain r' where s: "reconcileDebit d (m, r) =
      (m(DebitUserID d \<mapsto> addDebit (DebitAmount d) (ensure m (DebitUserID d))), r')"
    by (simp add: reconcileDebit_def)
  show ?case by (auto simp: s Cons.IH ensure_def debitLoop_idle)
qed simp

text \<open>The users of a ledger, and the totals the scan finds for them.\<close>

definition ledgerUsers :: "Ledger \<Rightarrow> user_id set" where
  "ledgerUsers l = UserID ` set (entries l) \<union> DebitUserID ` set (debits l)"

lemma reconcileScan_users:
  "fst (reconcileScan l) u = (if u \<in> ledgerUsers l then Some (accountTotals l u) else None)"
proof -
  obtain m r where f: "fold reconcileCredit (entries l) (Map.empty, emptyReport) = (m, r)" by fastforce
  have m: "m v = (if v \<in> UserID ` set (entries l) then Some (creditLoop v (entries l) (0, 0, 0)) else None)" for v
    using reconcileCredits_users[of "entries l" Map.empty emptyReport v] by (simp add: f ensure_def)
  show ?thesis
    by (auto simp: reconcileScan_def f reconcileDebits_users m ledgerUsers_def accountTotals_def
        ensure_def debitLoop_idle creditLoop_idle)
qed

lemma reconcileScan_dom: "dom (fst (reconcileScan l)) = ledgerUsers l"
  by (auto simp: reconcileScan_users dom_def split: if_splits) (metis prod_cases3)

section \<open>The report\<close>

lemma reconcileScan_report: "Anomalies (snd (reconcileScan l)) = []"
proof -
  have c: "Anomalies (snd (fold reconcileCredit es mr)) = Anomalies (snd mr)" for es mr
    by (induction es arbitrary: mr) (auto simp: reconcileCredit_def split: prod.splits CreditOrigin.splits)
  have d: "Anomalies (snd (fold reconcileDebit ds mr)) = Anomalies (snd mr)" for ds mr
    by (induction ds arbitrary: mr) (auto simp: reconcileDebit_def split: prod.splits)
  show ?thesis by (simp add: reconcileScan_def c d emptyReport_def)
qed

lemma reconcileUser_anomalies:
  "map AnomalyUserID (Anomalies (reconcileUser u t r)) =
     map AnomalyUserID (Anomalies r) @ (if overdrawn t then [u] else [])"
  by (auto simp: reconcileUser_def Let_def split: prod.splits)

lemma finish_anomalies:
  "map AnomalyUserID (Anomalies (fold (\<lambda>u r. case users u of None \<Rightarrow> r | Some t \<Rightarrow> reconcileUser u t r) ks r)) =
     map AnomalyUserID (Anomalies r) @ filter (\<lambda>u. case users u of None \<Rightarrow> False | Some t \<Rightarrow> overdrawn t) ks"
  by (induction ks arbitrary: r) (auto simp: reconcileUser_anomalies split: option.splits)

lemma finishReport_anomalies:
  assumes "Anomalies r = []"
  shows "map AnomalyUserID (Anomalies (finishReport ks users r)) =
     filter (\<lambda>u. case users u of None \<Rightarrow> False | Some t \<Rightarrow> overdrawn t) ks"
  by (simp add: finishReport_def Let_def finish_anomalies assms)

lemma finishReport_consistent:
  "Consistent (finishReport ks users r) \<longleftrightarrow> Anomalies (finishReport ks users r) = []"
  by (simp add: finishReport_def Let_def)

lemma Reconcile_anomalies:
  assumes "range_order ks (fst (reconcileScan l))"
  shows "map AnomalyUserID (Anomalies (Reconcile ks l)) = filter (\<lambda>u. overdrawn (accountTotals l u)) ks"
proof -
  have "set ks = ledgerUsers l" using assms by (simp add: range_order_def reconcileScan_dom)
  then show ?thesis
    using finishReport_anomalies[OF reconcileScan_report, of ks "fst (reconcileScan l)" l]
    by (auto simp: Reconcile_def case_prod_beta reconcileScan_users intro!: filter_cong)
qed

lemma Reconcile_consistent_iff:
  assumes "range_order ks (fst (reconcileScan l))"
  shows "Consistent (Reconcile ks l) \<longleftrightarrow> (\<forall>u \<in> ledgerUsers l. \<not> overdrawn (accountTotals l u))"
proof -
  have s: "set ks = ledgerUsers l" using assms by (simp add: range_order_def reconcileScan_dom)
  have "Consistent (Reconcile ks l) \<longleftrightarrow> map AnomalyUserID (Anomalies (Reconcile ks l)) = []"
    by (simp add: Reconcile_def case_prod_beta finishReport_consistent)
  then show ?thesis using s by (simp add: Reconcile_anomalies[OF assms] filter_empty_conv)
qed

text \<open>The tolerance covers the rounding of every account up to 2^31 credits.\<close>

lemma sound_not_overdrawn:
  assumes "sound (g, e, d)" "fadd g e \<le> 2 ^ 31"
  shows "\<not> overdrawn (g, e, d)"
proof -
  have "d \<le> fadd g e + fadd g e / 2 ^ 51" using assms(1) by (simp add: sound_def field_simps)
  also have "\<dots> \<le> fadd g e + 1 / 2 ^ 20" using assms(2) by (simp add: field_simps)
  also have "\<dots> \<le> fadd g e + reconcileEpsilon"
  proof -
    have "(1::rat) / 2 ^ 20 \<le> fl (1 / 1000000)" by code_simp
    then show ?thesis by (simp add: reconcileEpsilon_def)
  qed
  finally have "d \<le> fadd (fadd g e) reconcileEpsilon" using assms(1)
    by (intro fl_ge_f64) (auto simp: sound_def)
  then show ?thesis by (simp add: overdrawn_def)
qed

lemma Reconcile_count:
  assumes "range_order ks (fst (reconcileScan l))"
  shows "UserCount (Reconcile ks l) = card (ledgerUsers l)"
proof -
  have u: "UserCount (reconcileUser u t r) = UserCount r" for u t r
    by (auto simp: reconcileUser_def Let_def split: prod.splits)
  have "UserCount (fold (\<lambda>u r. case m u of None \<Rightarrow> r | Some t \<Rightarrow> reconcileUser u t r) xs r) = UserCount r"
    for m xs r by (induction xs arbitrary: r) (auto simp: u split: option.splits)
  then have "UserCount (Reconcile ks l) = length ks"
    by (simp add: Reconcile_def finishReport_def Let_def case_prod_beta)
  then show ?thesis using assms by (metis distinct_card range_order_def reconcileScan_dom)
qed

section \<open>Properties\<close>

text \<open>
  The audit reports exactly the overdrawn users: whatever the order of the map
  iteration, each user whose debits exceed the credits by more than the tolerance is listed
  once, no other user is, the report is consistent when there is none, and the user count is
  the number of users with any entry.
\<close>

theorem reconcile_exact:
  assumes "range_order ks (fst (reconcileScan l))"
  shows "distinct (map AnomalyUserID (Anomalies (Reconcile ks l))) \<and>
         set (map AnomalyUserID (Anomalies (Reconcile ks l))) =
           {u \<in> ledgerUsers l. overdrawn (accountTotals l u)} \<and>
         (Consistent (Reconcile ks l) \<longleftrightarrow> {u \<in> ledgerUsers l. overdrawn (accountTotals l u)} = {}) \<and>
         UserCount (Reconcile ks l) = card (ledgerUsers l)"
  using assms Reconcile_anomalies[OF assms] Reconcile_consistent_iff[OF assms] Reconcile_count[OF assms]
  by (auto simp: range_order_def reconcileScan_dom)

theorem reconcile_exact_witness:
  "UserCount (Reconcile [''u''] (NewLedger\<lparr> debits :=
     [\<lparr> DebitUserID = ''u'', DebitAmount = 1, JobID = ''j'', WrittenAt = 0 \<rparr>] \<rparr>)) = 1 \<and>
   Anomalies (Reconcile [''u''] (NewLedger\<lparr> debits :=
     [\<lparr> DebitUserID = ''u'', DebitAmount = 1, JobID = ''j'', WrittenAt = 0 \<rparr>] \<rparr>)) \<noteq> []"
proof -
  let ?l = "NewLedger\<lparr> debits := [\<lparr> DebitUserID = ''u'', DebitAmount = 1, JobID = ''j'', WrittenAt = 0 \<rparr>] \<rparr>"
  have u: "ledgerUsers ?l = {''u''}" by (simp add: ledgerUsers_def NewLedger_def)
  have r: "range_order [''u''] (fst (reconcileScan ?l))" by (simp add: range_order_def reconcileScan_dom u)
  have e: "fl reconcileEpsilon < 1" by code_simp
  have "accountTotals ?l ''u'' = (0, 0, 1)"
    by (simp add: accountTotals_def NewLedger_def creditLoop_def debitLoop_def addDebit_def)
  then have o: "overdrawn (accountTotals ?l ''u'')" using e by (simp add: overdrawn_def)
  have s: "{v \<in> ledgerUsers ?l. overdrawn (accountTotals ?l v)} = {''u''}" using o u by auto
  have x: "set (map AnomalyUserID (Anomalies (Reconcile [''u''] ?l))) = {''u''}"
    using reconcile_exact[OF r] unfolding s by blast
  have "UserCount (Reconcile [''u''] ?l) = card {''u''}"
    using reconcile_exact[OF r] unfolding u by blast
  moreover have "Anomalies (Reconcile [''u''] ?l) \<noteq> []"
    using x by (metis empty_iff insertI1 list.map(1) list.set(1))
  ultimately show ?thesis by simp
qed

text \<open>
  C7. No false alarms: a ledger that came about through the ledger's own operations, with
  failures and restarts, always reconciles as consistent while no account holds more than
  2^31 credits. The tolerance of 1e-6 covers all rounding that the operations can pile up.
\<close>

theorem reconcile_no_false_alarm:
  assumes "l0 = NewLedger \<or> NewPersistentLedger True True True True True None = Inr l0"
    and "list_all proper_event evs" and "l = fold session_step evs l0"
    and "range_order ks (fst (reconcileScan l))"
    and "\<forall>u g e d. accountTotals l u = (g, e, d) \<longrightarrow> fadd g e \<le> 2 ^ 31"
  shows "Consistent (Reconcile ks l) \<and> Anomalies (Reconcile ks l) = []"
proof -
  have "mem.good l" using session_good[OF good_start[OF assms(1)] assms(2)] assms(3) by simp
  then have "\<not> overdrawn (accountTotals l u)" for u
    using sound_not_overdrawn assms(5) by (cases "accountTotals l u") (metis mem.good_def)
  then have "Consistent (Reconcile ks l)" using Reconcile_consistent_iff[OF assms(4)] by blast
  then show ?thesis by (simp add: Reconcile_def case_prod_beta finishReport_consistent)
qed

theorem reconcile_no_false_alarm_witness:
  "Consistent (Reconcile [] (fold session_step [Ev (OpDebit True ''u'' 1 ''j'' 0), Restart] NewLedger))"
proof -
  have "\<not> (1::rat) \<le> fsub (fadd 0 0) 0" by code_simp
  then have l: "fold session_step [Ev (OpDebit True ''u'' 1 ''j'' 0), Restart] NewLedger = NewLedger"
    by (simp add: session_step_def mem.run_op_def DebitAccount_def accountTotals_def NewLedger_def
        creditLoop_def debitLoop_def reopen_def)
  have "accountTotals NewLedger u = (0, 0, 0)" for u
    by (simp add: accountTotals_def NewLedger_def creditLoop_def debitLoop_def)
  then show ?thesis
    using reconcile_no_false_alarm[of NewLedger "[Ev (OpDebit True ''u'' 1 ''j'' 0), Restart]" NewLedger "[]"]
    unfolding l
    by (simp add: mem.proper.simps range_order_def reconcileScan_dom ledgerUsers_def)
      (simp add: NewLedger_def)
qed

end
