(* ===== verification/LedgerPG.thy ===== *)
theory LedgerPG
  imports Reconcile
begin

text \<open>
  The Postgres ledger of \<open>internal/settlement/ledger_postgres.go\<close>. The state is the
  database shared by the coordinators: the two logs, the audit trail, the maintained
  \<open>account_balances\<close> rows and the unique keys of \<open>startup_grant_claims\<close>. Each operation
  is one transaction; the row lock of a debit and the unique key of a claim serialise
  transactions that touch the same row, so a transaction is one step here. Its record of
  outcomes says which of its calls fail; after a failure the deferred rollback leaves the
  database as it was. The backend is shown to meet the ledger contract and to refine the
  memory ledger operation by operation.
\<close>

section \<open>State and outcomes\<close>

record pgdb =
  pg_credit_entries :: "CreditEntry list"
  pg_ledger_debits :: "ledgerDebit list"
  pg_admin_actions :: "AdminAction list"
  account_balances :: "user_id \<rightharpoonup> totals"
  startup_grant_claims :: "user_id \<rightharpoonup> time"

definition migratePostgresLedgerSchema :: "pgdb option \<Rightarrow> pgdb" where
  "migratePostgresLedgerSchema file = (case file of
       None \<Rightarrow> \<lparr> pg_credit_entries = [], pg_ledger_debits = [], pg_admin_actions = [],
                account_balances = Map.empty, startup_grant_claims = Map.empty \<rparr>
     | Some tables \<Rightarrow> tables)"

record pg_outcome =
  beginOk :: bool
  claimOk :: bool
  rowsOk :: bool
  queryOk :: bool
  insertOk :: bool
  upsertOk :: bool
  commitOk :: bool

definition all_ok :: pg_outcome where
  "all_ok = \<lparr> beginOk = True, claimOk = True, rowsOk = True, queryOk = True, insertOk = True,
     upsertOk = True, commitOk = True \<rparr>"

datatype pg_error = BeginTx | ClaimInsert | RowsAffected | InsertCreditEntry | UpsertBalance
  | CommitTx | InsertAdminAction

section \<open>Statements\<close>

definition grantEarnedDeltas :: "CreditEntry \<Rightarrow> f64 \<times> f64" where
  "grantEarnedDeltas entry = (case Origin entry of
       CreditOriginStartupGrant \<Rightarrow> (Amount entry, 0)
     | CreditOriginEarnedContrib \<Rightarrow> (0, Amount entry)
     | CreditOriginAdminAdjustment \<Rightarrow> (0, Amount entry)
     | CreditOriginOther _ \<Rightarrow> (0, 0))"

definition insertCreditEntryTx :: "bool \<Rightarrow> CreditEntry \<Rightarrow> pgdb \<Rightarrow> pg_error + pgdb" where
  "insertCreditEntryTx ok entry tx =
     (if \<not> ok then Inl InsertCreditEntry
      else Inr (tx\<lparr> pg_credit_entries := pg_credit_entries tx @ [entry] \<rparr>))"

text \<open>\<open>INSERT ... ON CONFLICT (user_id) DO UPDATE\<close>.\<close>

definition upsertBalanceTotalsTx :: "bool \<Rightarrow> user_id \<Rightarrow> f64 \<Rightarrow> f64 \<Rightarrow> pgdb \<Rightarrow> pg_error + pgdb" where
  "upsertBalanceTotalsTx ok u grantDelta earnedDelta tx =
     (if \<not> ok then Inl UpsertBalance
      else Inr (tx\<lparr> account_balances := (account_balances tx)(u \<mapsto>
        (case account_balances tx u of
           None \<Rightarrow> (grantDelta, earnedDelta, 0)
         | Some (g, e, d) \<Rightarrow> (fadd g grantDelta, fadd e earnedDelta, d))) \<rparr>))"

definition upsertDebitTx :: "user_id \<Rightarrow> f64 \<Rightarrow> pgdb \<Rightarrow> pgdb" where
  "upsertDebitTx u amount tx =
     tx\<lparr> account_balances := (account_balances tx)(u \<mapsto>
        (case account_balances tx u of
           None \<Rightarrow> (0, 0, amount)
         | Some (g, e, d) \<Rightarrow> (g, e, fadd d amount))) \<rparr>"

definition selectTotals :: "user_id \<Rightarrow> pgdb \<Rightarrow> totals" where
  "selectTotals u pg = (case account_balances pg u of None \<Rightarrow> (0, 0, 0) | Some t \<Rightarrow> t)"

section \<open>Operations\<close>

definition creditAccountPG :: "pg_outcome \<Rightarrow> CreditEntry \<Rightarrow> pgdb \<Rightarrow> pg_error option \<times> pgdb" where
  "creditAccountPG f entry pg =
     (if \<not> beginOk f then (Some BeginTx, pg)
      else case insertCreditEntryTx (insertOk f) entry pg of
          Inl e \<Rightarrow> (Some e, pg)
        | Inr tx \<Rightarrow>
            (let (grantDelta, earnedDelta) = grantEarnedDeltas entry
             in case upsertBalanceTotalsTx (upsertOk f) (UserID entry) grantDelta earnedDelta tx of
                  Inl e \<Rightarrow> (Some e, pg)
                | Inr tx \<Rightarrow> if \<not> commitOk f then (Some CommitTx, pg) else (None, tx)))"

definition claimStartupGrantOncePG ::
    "pg_outcome \<Rightarrow> CreditEntry \<Rightarrow> pgdb \<Rightarrow> (bool \<times> pg_error option) \<times> pgdb" where
  "claimStartupGrantOncePG f entry pg =
     (if \<not> beginOk f then ((False, Some BeginTx), pg)
      else if \<not> claimOk f then ((False, Some ClaimInsert), pg)
      else if \<not> rowsOk f then ((False, Some RowsAffected), pg)
      else if startup_grant_claims pg (UserID entry) \<noteq> None then ((False, None), pg)
      else let tx = pg\<lparr> startup_grant_claims :=
                  (startup_grant_claims pg)(UserID entry \<mapsto> GrantedOrEarnedAt entry) \<rparr>
           in case insertCreditEntryTx (insertOk f) entry tx of
                Inl e \<Rightarrow> ((False, Some e), pg)
              | Inr tx \<Rightarrow>
                  (let (grantDelta, earnedDelta) = grantEarnedDeltas entry
                   in case upsertBalanceTotalsTx (upsertOk f) (UserID entry) grantDelta earnedDelta tx of
                        Inl e \<Rightarrow> ((False, Some e), pg)
                      | Inr tx \<Rightarrow> if \<not> commitOk f then ((False, Some CommitTx), pg)
                                 else ((True, None), tx)))"

definition getBalancePG :: "bool \<Rightarrow> user_id \<Rightarrow> pgdb \<Rightarrow> Balance" where
  "getBalancePG ok u pg =
     (if \<not> ok then \<lparr> GrantBalance = 0, EarnedBalance = 0, Total = 0 \<rparr>
      else let (grantTotal, earnedTotal, totalDebited) = selectTotals u pg
           in balanceFromTotals grantTotal earnedTotal totalDebited)"

definition debitAccountPG ::
    "pg_outcome \<Rightarrow> user_id \<Rightarrow> f64 \<Rightarrow> job_id \<Rightarrow> time \<Rightarrow> pgdb \<Rightarrow> bool \<times> pgdb" where
  "debitAccountPG f u amount job now pg =
     (if \<not> beginOk f then (False, pg)
      else if \<not> queryOk f then (False, pg)
      else let (grantTotal, earnedTotal, totalDebited) = selectTotals u pg
           in if amount > fsub (fadd grantTotal earnedTotal) totalDebited then (False, pg)
              else if \<not> insertOk f then (False, pg)
              else let tx = pg\<lparr> pg_ledger_debits := pg_ledger_debits pg @
                     [\<lparr> DebitUserID = u, DebitAmount = amount, JobID = job, WrittenAt = now \<rparr>] \<rparr>
              in if \<not> upsertOk f then (False, pg)
                 else let tx = upsertDebitTx u amount tx
                      in if \<not> commitOk f then (False, pg) else (True, tx))"

text \<open>The aggregate runs over the rows of \<open>account_balances\<close> in the order \<open>ks\<close>, with
  \<open>sqlsum\<close> the database's sum of a list of numbers.\<close>

definition totalOutstandingGrantLiabilityPG :: "(f64 list \<Rightarrow> f64) \<Rightarrow> bool \<Rightarrow> user_id list \<Rightarrow> pgdb \<Rightarrow> f64" where
  "totalOutstandingGrantLiabilityPG sqlsum ok ks pg =
     (if \<not> ok then 0
      else sqlsum (map (\<lambda>u. let (g, e, d) = selectTotals u pg in max (fsub g (min d g)) 0) ks))"

definition recordAdminActionPG :: "bool \<Rightarrow> string \<Rightarrow> string \<Rightarrow> f64 \<Rightarrow> time \<Rightarrow> pgdb \<Rightarrow>
    pg_error option \<times> pgdb" where
  "recordAdminActionPG ok action detail amount performedAt pg =
     (if \<not> ok then (Some InsertAdminAction, pg)
      else (None, pg\<lparr> pg_admin_actions := pg_admin_actions pg @
        [\<lparr> Action = action, Detail = detail, ActionAmount = amount, PerformedAt = performedAt \<rparr>] \<rparr>))"

definition recentAdminActionsPG :: "bool \<Rightarrow> int \<Rightarrow> pgdb \<Rightarrow> AdminAction list" where
  "recentAdminActionsPG ok limit pg =
     (if \<not> ok then []
      else if limit \<le> 0 then rev (pg_admin_actions pg)
      else take (nat limit) (rev (pg_admin_actions pg)))"

text \<open>
  The audit re-derives the totals from the logs with two grouped queries; \<open>cus\<close> and \<open>dus\<close>
  are the users in the order in which the two queries return their groups.
\<close>

definition creditGroup :: "(f64 list \<Rightarrow> f64) \<Rightarrow> user_id \<Rightarrow> CreditEntry list \<Rightarrow> f64 \<times> f64" where
  "creditGroup sqlsum u es = (let rows = filter (\<lambda>e. UserID e = u) es in
     (sqlsum (map (\<lambda>e. if Origin e = CreditOriginStartupGrant then Amount e else 0) rows),
      sqlsum (map (\<lambda>e. if Origin e \<in> {CreditOriginEarnedContrib, CreditOriginAdminAdjustment}
                    then Amount e else 0) rows)))"

definition debitGroup :: "(f64 list \<Rightarrow> f64) \<Rightarrow> user_id \<Rightarrow> ledgerDebit list \<Rightarrow> f64" where
  "debitGroup sqlsum u ds = sqlsum (map DebitAmount (filter (\<lambda>d. DebitUserID d = u) ds))"

definition pgCreditRow :: "(f64 list \<Rightarrow> f64) \<Rightarrow> pgdb \<Rightarrow> user_id \<Rightarrow>
    (user_id \<rightharpoonup> totals) \<times> ReconciliationReport \<Rightarrow> (user_id \<rightharpoonup> totals) \<times> ReconciliationReport" where
  "pgCreditRow sqlsum pg u = (\<lambda>(users, report).
     let (grant, earned) = creditGroup sqlsum u (pg_credit_entries pg);
         (_, _, debited) = ensure users u
     in (users(u \<mapsto> (grant, earned, debited)),
         report\<lparr> TotalGrantCredits := fadd (TotalGrantCredits report) grant,
                 TotalEarnedCredits := fadd (TotalEarnedCredits report) earned \<rparr>))"

definition pgDebitRow :: "(f64 list \<Rightarrow> f64) \<Rightarrow> pgdb \<Rightarrow> user_id \<Rightarrow>
    (user_id \<rightharpoonup> totals) \<times> ReconciliationReport \<Rightarrow> (user_id \<rightharpoonup> totals) \<times> ReconciliationReport" where
  "pgDebitRow sqlsum pg u = (\<lambda>(users, report).
     let debited = debitGroup sqlsum u (pg_ledger_debits pg);
         (grant, earned, _) = ensure users u
     in (users(u \<mapsto> (grant, earned, debited)),
         report\<lparr> TotalDebits := fadd (TotalDebits report) debited \<rparr>))"

definition reconcilePG :: "(f64 list \<Rightarrow> f64) \<Rightarrow> bool \<Rightarrow> bool \<Rightarrow> user_id list \<Rightarrow> user_id list \<Rightarrow>
    user_id list \<Rightarrow> pgdb \<Rightarrow> ReconciliationReport" where
  "reconcilePG sqlsum ok1 ok2 cus dus ks pg =
     (if \<not> ok1 then emptyReport
      else let (users, report) = fold (pgCreditRow sqlsum pg) cus (Map.empty, emptyReport)
           in if \<not> ok2 then report
              else let (users, report) = fold (pgDebitRow sqlsum pg) dus (users, report)
                   in finishReport ks users report)"

section \<open>Abstraction\<close>

text \<open>The memory ledger with the same logs, and the invariant of the maintained tables.\<close>

definition pg_abs :: "pgdb \<Rightarrow> Ledger" where
  "pg_abs pg = \<lparr> entries = pg_credit_entries pg, debits = pg_ledger_debits pg,
     adminActions = pg_admin_actions pg, db = None, onCredit = False \<rparr>"

definition pg_inv :: "pgdb \<Rightarrow> bool" where
  "pg_inv pg \<longleftrightarrow> (\<forall>u. selectTotals u pg = accountTotals (pg_abs pg) u) \<and>
     (\<forall>u. startup_grant_claims pg u \<noteq> None \<longleftrightarrow> 0 < grantCount (pg_credit_entries pg) u)"

lemma pg_inv_init: "pg_inv (migratePostgresLedgerSchema None)"
  by (simp add: pg_inv_def migratePostgresLedgerSchema_def selectTotals_def accountTotals_def
      pg_abs_def creditLoop_def debitLoop_def grantCount_def)

lemma pg_abs_simps [simp]:
  "entries (pg_abs pg) = pg_credit_entries pg" "debits (pg_abs pg) = pg_ledger_debits pg"
  "adminActions (pg_abs pg) = pg_admin_actions pg" "Ledger.db (pg_abs pg) = None" "onCredit (pg_abs pg) = False"
  by (simp_all add: pg_abs_def)

lemma upsert_addCredit:
  assumes "f64_totals (selectTotals u pg)" "is_f64 (Amount e)"
  shows "(case account_balances pg u of
      None \<Rightarrow> (fst (grantEarnedDeltas e), snd (grantEarnedDeltas e), 0)
    | Some (g, w, d) \<Rightarrow> (fadd g (fst (grantEarnedDeltas e)), fadd w (snd (grantEarnedDeltas e)), d))
    = addCredit e (selectTotals u pg)"
  using assms by (auto simp: selectTotals_def f64_totals_def grantEarnedDeltas_def addCredit_def fl_id
      split: option.splits CreditOrigin.splits)

lemma upsert_addDebit:
  assumes "f64_totals (selectTotals u pg)" "is_f64 a"
  shows "(case account_balances pg u of None \<Rightarrow> (0, 0, a) | Some (g, w, d) \<Rightarrow> (g, w, fadd d a))
    = addDebit a (selectTotals u pg)"
  using assms by (auto simp: selectTotals_def f64_totals_def addDebit_def fl_id split: option.splits)

lemma pg_inv_f64: "pg_inv pg \<Longrightarrow> f64_totals (selectTotals u pg)"
  by (simp add: pg_inv_def)

text \<open>What a committed credit, claim and debit leave behind.\<close>

lemma creditAccountPG_ok:
  assumes "creditAccountPG f e pg = (None, pg')" "pg_inv pg" "is_f64 (Amount e)"
  shows "pg_credit_entries pg' = pg_credit_entries pg @ [e]" "pg_ledger_debits pg' = pg_ledger_debits pg"
    "pg_admin_actions pg' = pg_admin_actions pg" "startup_grant_claims pg' = startup_grant_claims pg"
    "selectTotals v pg' = (if v = UserID e then addCredit e (selectTotals v pg) else selectTotals v pg)"
  using assms upsert_addCredit[OF pg_inv_f64[OF assms(2)] assms(3), of "UserID e"]
  by (auto simp: creditAccountPG_def insertCreditEntryTx_def upsertBalanceTotalsTx_def case_prod_beta
      selectTotals_def Let_def split: if_splits)

lemma creditAccountPG_err: "creditAccountPG f e pg = (Some err, pg') \<Longrightarrow> pg' = pg"
  by (auto simp: creditAccountPG_def case_prod_beta Let_def split: if_splits sum.splits)

lemma claimPG_ok:
  assumes "claimStartupGrantOncePG f e pg = ((True, err), pg')" "pg_inv pg" "is_f64 (Amount e)"
  shows "pg_credit_entries pg' = pg_credit_entries pg @ [e]" "pg_ledger_debits pg' = pg_ledger_debits pg"
    "pg_admin_actions pg' = pg_admin_actions pg" "startup_grant_claims pg (UserID e) = None"
    "startup_grant_claims pg' = (startup_grant_claims pg)(UserID e \<mapsto> GrantedOrEarnedAt e)"
    "selectTotals v pg' = (if v = UserID e then addCredit e (selectTotals v pg) else selectTotals v pg)"
    "err = None"
  using assms upsert_addCredit[OF pg_inv_f64[OF assms(2)] assms(3), of "UserID e"]
  by (auto simp: claimStartupGrantOncePG_def insertCreditEntryTx_def upsertBalanceTotalsTx_def case_prod_beta
      selectTotals_def Let_def split: if_splits)

lemma claimPG_no: "claimStartupGrantOncePG f e pg = ((False, err), pg') \<Longrightarrow> pg' = pg"
  by (auto simp: claimStartupGrantOncePG_def case_prod_beta Let_def split: if_splits sum.splits)

lemma debitPG_ok:
  assumes "debitAccountPG f u a j t pg = (True, pg')" "pg_inv pg" "is_f64 a"
  shows "pg_ledger_debits pg' = pg_ledger_debits pg @ [\<lparr> DebitUserID = u, DebitAmount = a, JobID = j, WrittenAt = t \<rparr>]"
    "pg_credit_entries pg' = pg_credit_entries pg" "pg_admin_actions pg' = pg_admin_actions pg"
    "startup_grant_claims pg' = startup_grant_claims pg" "a \<le> available (selectTotals u pg)"
    "selectTotals v pg' = (if v = u then addDebit a (selectTotals v pg) else selectTotals v pg)"
  using assms upsert_addDebit[OF pg_inv_f64[OF assms(2)] assms(3), of u]
  by (auto simp: debitAccountPG_def upsertDebitTx_def case_prod_beta available_def not_less
      selectTotals_def Let_def split: if_splits)

lemma debitPG_no: "debitAccountPG f u a j t pg = (False, pg') \<Longrightarrow> pg' = pg"
  by (auto simp: debitAccountPG_def case_prod_beta Let_def split: if_splits)

section \<open>The Postgres ledger meets the contract\<close>

definition pgCredit :: "pg_outcome \<Rightarrow> CreditEntry \<Rightarrow> pgdb \<Rightarrow> bool \<times> pgdb" where
  "pgCredit f e pg = (case creditAccountPG f e pg of (err, pg') \<Rightarrow> (err = None, pg'))"

definition pgClaim :: "pg_outcome \<Rightarrow> CreditEntry \<Rightarrow> pgdb \<Rightarrow> bool \<times> pgdb" where
  "pgClaim f e pg = (case claimStartupGrantOncePG f e pg of ((claimed, err), pg') \<Rightarrow> (claimed, pg'))"

lemma pg_inv_credit:
  assumes "pg_inv pg" "pg_credit_entries pg' = pg_credit_entries pg @ [e]"
    "pg_ledger_debits pg' = pg_ledger_debits pg"
    "\<And>v. selectTotals v pg' = (if v = UserID e then addCredit e (selectTotals v pg) else selectTotals v pg)"
    "\<And>u. startup_grant_claims pg' u \<noteq> None \<longleftrightarrow> 0 < grantCount (pg_credit_entries pg') u"
  shows "pg_inv pg'"
proof -
  have "accountTotals (pg_abs pg') = (accountTotals (pg_abs pg))(UserID e := addCredit e (accountTotals (pg_abs pg) (UserID e)))"
    by (rule accountTotals_credit) (simp_all add: assms)
  then show ?thesis using assms(1,4,5) by (simp add: pg_inv_def)
qed

lemma pg_inv_debit:
  assumes "pg_inv pg" "pg_ledger_debits pg' = pg_ledger_debits pg @ [d]"
    "pg_credit_entries pg' = pg_credit_entries pg" "startup_grant_claims pg' = startup_grant_claims pg"
    "\<And>v. selectTotals v pg' = (if v = DebitUserID d then addDebit (DebitAmount d) (selectTotals v pg) else selectTotals v pg)"
  shows "pg_inv pg'"
proof -
  have "accountTotals (pg_abs pg') = (accountTotals (pg_abs pg))(DebitUserID d :=
      addDebit (DebitAmount d) (accountTotals (pg_abs pg) (DebitUserID d)))"
    by (rule accountTotals_debit) (simp_all add: assms)
  then show ?thesis using assms by (simp add: pg_inv_def)
qed

lemma pg_inv_creditAccountPG:
  assumes "creditAccountPG f e pg = (None, pg')" "pg_inv pg" "is_f64 (Amount e)"
    "Origin e \<noteq> CreditOriginStartupGrant"
  shows "pg_inv pg'"
  using creditAccountPG_ok[OF assms(1-3)] assms(2,4)
  by (intro pg_inv_credit[OF assms(2)]) (auto simp: grantCount_snoc pg_inv_def)

lemma pg_inv_claimPG:
  assumes "claimStartupGrantOncePG f e pg = ((True, err), pg')" "pg_inv pg" "is_f64 (Amount e)"
    "Origin e = CreditOriginStartupGrant"
  shows "pg_inv pg'"
proof -
  note c = claimPG_ok[OF assms(1-3)]
  have "startup_grant_claims pg' u \<noteq> None \<longleftrightarrow> 0 < grantCount (pg_credit_entries pg') u" for u
    using assms(2,4) by (simp add: c(1,5) grantCount_snoc pg_inv_def)
  then show ?thesis using c by (intro pg_inv_credit[OF assms(2)]) auto
qed

lemma pg_inv_debitPG:
  assumes "debitAccountPG f u a j t pg = (True, pg')" "pg_inv pg" "is_f64 a"
  shows "pg_inv pg'"
  using debitPG_ok[OF assms] by (intro pg_inv_debit[OF assms(2)]) auto

interpretation pg: ledger_backend pg_inv "\<lambda>pg u. selectTotals u pg"
  "\<lambda>pg u. startup_grant_claims pg u \<noteq> None" "\<lambda>pg. grantCount (pg_credit_entries pg)"
  pgCredit pgClaim debitAccountPG
proof unfold_locales
  fix s e f ok s'
  assume i: "pg_inv s" and a: "is_f64 (Amount e)" and o: "Origin e \<noteq> CreditOriginStartupGrant"
    and r: "pgCredit f e s = (ok, s')"
  show "pg_inv s' \<and> grantCount (pg_credit_entries s') = grantCount (pg_credit_entries s) \<and>
      (\<lambda>u. startup_grant_claims s' u \<noteq> None) = (\<lambda>u. startup_grant_claims s u \<noteq> None) \<and>
      (\<lambda>u. selectTotals u s') = (if ok then (\<lambda>u. selectTotals u s)(UserID e := addCredit e (selectTotals (UserID e) s))
        else (\<lambda>u. selectTotals u s))"
  proof (cases ok)
    case True
    then have c: "creditAccountPG f e s = (None, s')" using r by (auto simp: pgCredit_def split: prod.splits)
    note k = creditAccountPG_ok[OF c i a]
    show ?thesis using True pg_inv_creditAccountPG[OF c i a o] o k(1,4,5)
      by (auto simp: grantCount_snoc fun_eq_iff)
  next
    case False
    then show ?thesis using r i creditAccountPG_err[of f e s] by (auto simp: pgCredit_def split: prod.splits)
  qed
next
  fix s e f ok s'
  assume i: "pg_inv s" and a: "is_f64 (Amount e)" and o: "Origin e = CreditOriginStartupGrant"
    and r: "pgClaim f e s = (ok, s')"
  show "pg_inv s' \<and> (ok \<longrightarrow> \<not> startup_grant_claims s (UserID e) \<noteq> None) \<and>
      grantCount (pg_credit_entries s') = (if ok then (grantCount (pg_credit_entries s))(UserID e :=
        Suc (grantCount (pg_credit_entries s) (UserID e))) else grantCount (pg_credit_entries s)) \<and>
      (\<lambda>u. selectTotals u s') = (if ok then (\<lambda>u. selectTotals u s)(UserID e := addCredit e (selectTotals (UserID e) s))
        else (\<lambda>u. selectTotals u s))"
  proof (cases ok)
    case True
    then obtain err where c: "claimStartupGrantOncePG f e s = ((True, err), s')"
      using r by (auto simp: pgClaim_def split: prod.splits)
    note k = claimPG_ok[OF c i a]
    show ?thesis using True pg_inv_claimPG[OF c i a o] o k(1,4,6)
      by (auto simp: grantCount_snoc fun_eq_iff)
  next
    case False
    then obtain err where "claimStartupGrantOncePG f e s = ((False, err), s')"
      using r by (auto simp: pgClaim_def split: prod.splits)
    from claimPG_no[OF this] show ?thesis using False i by simp
  qed
next
  fix s a f u j t ok s'
  assume i: "pg_inv s" and a: "is_f64 a" and r: "debitAccountPG f u a j t s = (ok, s')"
  show "pg_inv s' \<and> grantCount (pg_credit_entries s') = grantCount (pg_credit_entries s) \<and>
      (\<lambda>u. startup_grant_claims s' u \<noteq> None) = (\<lambda>u. startup_grant_claims s u \<noteq> None) \<and>
      (ok \<longrightarrow> a \<le> available (selectTotals u s)) \<and>
      (\<lambda>u. selectTotals u s') = (if ok then (\<lambda>u. selectTotals u s)(u := addDebit a (selectTotals u s))
        else (\<lambda>u. selectTotals u s))"
  proof (cases ok)
    case True
    then have c: "debitAccountPG f u a j t s = (True, s')" using r by simp
    note k = debitPG_ok[OF c i a]
    show ?thesis using True pg_inv_debitPG[OF c i a] k(2,4,5,6) by (auto simp: fun_eq_iff)
  next
    case False
    then have "debitAccountPG f u a j t s = (False, s')" using r by simp
    from debitPG_no[OF this] show ?thesis using False i by simp
  qed
qed (simp add: pg_inv_def)

lemma pg_good_init: "pg.good (migratePostgresLedgerSchema None)"
  unfolding pg.good_def using pg_inv_init
  by (auto simp: migratePostgresLedgerSchema_def selectTotals_def grantCount_def)

section \<open>Refinement of the memory ledger\<close>

lemma hasStartupGrant_claims:
  "pg_inv pg \<Longrightarrow> hasStartupGrant u (pg_credit_entries pg) \<longleftrightarrow> startup_grant_claims pg u \<noteq> None"
  by (simp add: hasStartupGrant_count pg_inv_def)

lemma pg_abs_eqI:
  "\<lbrakk>pg_credit_entries pg' = es; pg_ledger_debits pg' = ds; pg_admin_actions pg' = as\<rbrakk> \<Longrightarrow>
   pg_abs pg' = \<lparr> entries = es, debits = ds, adminActions = as, db = None, onCredit = False \<rparr>"
  by (simp add: pg_abs_def)

lemma credit_refines:
  assumes "pg_inv pg" "is_f64 (Amount e)"
  shows "creditAccountPG f e pg = (None, pg') \<Longrightarrow> CreditAccount True e (pg_abs pg) = (None, pg_abs pg', [])"
  using creditAccountPG_ok(1-3)[OF _ assms, of f pg']
  by (auto simp: CreditAccount_def creditLocked_def notifyCredit_def pg_abs_def)

lemma claim_refines:
  assumes "pg_inv pg" "is_f64 (Amount e)" "claimStartupGrantOncePG f e pg = ((c, None), pg')"
  shows "ClaimStartupGrantOnce True e (pg_abs pg) = ((c, None), pg_abs pg', [])"
proof (cases c)
  case True
  then have r: "claimStartupGrantOncePG f e pg = ((True, None), pg')" using assms(3) by simp
  note k = claimPG_ok[OF r assms(1,2)]
  show ?thesis using True k(1-4) hasStartupGrant_claims[OF assms(1), of "UserID e"]
    by (simp add: ClaimStartupGrantOnce_def creditLocked_def notifyCredit_def pg_abs_def)
next
  case False
  then have "startup_grant_claims pg (UserID e) \<noteq> None" "pg' = pg"
    using assms(3) claimPG_no[of f e pg None pg']
    by (auto simp: claimStartupGrantOncePG_def case_prod_beta Let_def split: if_splits sum.splits)
  then show ?thesis using False hasStartupGrant_claims[OF assms(1), of "UserID e"]
    by (simp add: ClaimStartupGrantOnce_def)
qed

lemma debit_refines:
  assumes "pg_inv pg" "is_f64 a" "debitAccountPG f u a j t pg = (True, pg')"
  shows "DebitAccount True u a j t (pg_abs pg) = (True, pg_abs pg')"
proof -
  note k = debitPG_ok[OF assms(3,1,2)]
  have "a \<le> available (accountTotals (pg_abs pg) u)" using k(5) assms(1) by (simp add: pg_inv_def)
  then show ?thesis using k(1-3)
    by (auto simp: DebitAccount_def available_def pg_abs_def Let_def split: prod.splits)
qed

lemma debit_refused_refines:
  assumes "pg_inv pg" "debitAccountPG all_ok u a j t pg = (False, pg')"
  shows "DebitAccount True u a j t (pg_abs pg) = (False, pg_abs pg)"
proof -
  have "\<not> a \<le> available (accountTotals (pg_abs pg) u)"
    using assms by (auto simp: debitAccountPG_def all_ok_def available_def case_prod_beta Let_def
        pg_inv_def not_le split: if_splits)
  then show ?thesis by (auto simp: DebitAccount_def available_def Let_def split: prod.splits)
qed

section \<open>The audit over the database\<close>

definition left_sum :: "f64 list \<Rightarrow> f64" where
  "left_sum xs = fold (\<lambda>x a. fadd a x) xs 0"

lemma creditLoop_groups:
  assumes "is_f64 g" "is_f64 e"
  shows "creditLoop u es (g, e, d) =
    (fold (\<lambda>x a. fadd a x) (map (\<lambda>e. if Origin e = CreditOriginStartupGrant then Amount e else 0)
        (filter (\<lambda>e. UserID e = u) es)) g,
     fold (\<lambda>x a. fadd a x) (map (\<lambda>e. if Origin e \<in> {CreditOriginEarnedContrib, CreditOriginAdminAdjustment}
        then Amount e else 0) (filter (\<lambda>e. UserID e = u) es)) e, d)"
  using assms
proof (induction es arbitrary: g e)
  case (Cons c es)
  then show ?case by (cases "Origin c") (simp_all add: addCredit_def fl_id)
qed (simp add: creditLoop_def)

lemma creditGroup_left_sum:
  assumes "creditGroup left_sum u es = (g, e)"
  shows "creditLoop u es (0, 0, 0) = (g, e, 0)"
  using assms by (simp add: creditLoop_groups creditGroup_def left_sum_def Let_def)

lemma debitGroup_left_sum: "debitLoop u ds (g, e, d) = (g, e, fold (\<lambda>x a. fadd a x) (map DebitAmount (filter (\<lambda>d. DebitUserID d = u) ds)) d)"
  by (induction ds arbitrary: d) (simp_all add: addDebit_def, simp add: debitLoop_def)

lemma pgCreditRows_users:
  "fst (fold (pgCreditRow left_sum pg) us (m, r)) v =
   (if v \<in> set us then Some (let (g, e, _) = creditLoop v (pg_credit_entries pg) (0, 0, 0)
      in (g, e, snd (snd (ensure m v)))) else m v)"
proof (induction us arbitrary: m r)
  case (Cons u us)
  obtain g e where c: "creditGroup left_sum u (pg_credit_entries pg) = (g, e)" by fastforce
  obtain r' where s: "pgCreditRow left_sum pg u (m, r) = (m(u \<mapsto> (g, e, snd (snd (ensure m u)))), r')"
    by (auto simp: pgCreditRow_def c Let_def case_prod_beta)
  show ?case using creditGroup_left_sum[OF c] by (auto simp: s Cons.IH ensure_def)
qed simp

lemma pgDebitRows_users:
  "fst (fold (pgDebitRow left_sum pg) us (m, r)) v =
   (if v \<in> set us then Some (let (g, e, _) = ensure m v in (g, e, debitGroup left_sum v (pg_ledger_debits pg)))
    else m v)"
proof (induction us arbitrary: m r)
  case (Cons u us)
  obtain g e d where c: "ensure m u = (g, e, d)" by (cases "ensure m u")
  obtain r' where s: "pgDebitRow left_sum pg u (m, r) =
      (m(u \<mapsto> (g, e, debitGroup left_sum u (pg_ledger_debits pg))), r')"
    by (auto simp: pgDebitRow_def c Let_def)
  show ?case using c by (auto simp: s Cons.IH ensure_def)
qed simp

lemma pgRows_report:
  "Anomalies (snd (fold (pgCreditRow sqlsum pg) us mr)) = Anomalies (snd mr)"
  "Anomalies (snd (fold (pgDebitRow sqlsum pg) us mr)) = Anomalies (snd mr)"
  by (induction us arbitrary: mr)
    (auto simp: pgCreditRow_def pgDebitRow_def Let_def case_prod_beta)

lemma creditLoop_debited: "snd (snd (creditLoop u es (g, e, d))) = d"
  by (induction es arbitrary: g e) (auto simp: addCredit_def split: CreditOrigin.splits, simp add: creditLoop_def)

text \<open>The queries rebuild the same totals as the scan over the logs.\<close>

lemma reconcilePG_users:
  assumes "set cus = UserID ` set (pg_credit_entries pg)" "set dus = DebitUserID ` set (pg_ledger_debits pg)"
    and "fold (pgCreditRow left_sum pg) cus (Map.empty, r0) = (m, r)"
  shows "fst (fold (pgDebitRow left_sum pg) dus (m, r)) = fst (reconcileScan (pg_abs pg))"
proof (rule ext)
  fix u
  have m: "m v = (if v \<in> set cus then Some (creditLoop v (pg_credit_entries pg) (0, 0, 0)) else None)" for v
    using pgCreditRows_users[of pg cus Map.empty r0 v] creditLoop_debited[of v "pg_credit_entries pg" 0 0 0]
    by (auto simp: assms(3) ensure_def split: prod.splits)
  have d: "ensure m u = creditLoop u (pg_credit_entries pg) (0, 0, 0)"
    using creditLoop_idle[of u "pg_credit_entries pg"] assms(1) by (auto simp: ensure_def m)
  obtain g e where c: "creditLoop u (pg_credit_entries pg) (0, 0, 0) = (g, e, 0)"
    using creditLoop_debited[of u "pg_credit_entries pg" 0 0 0] by (metis prod.collapse)
  show "fst (fold (pgDebitRow left_sum pg) dus (m, r)) u = fst (reconcileScan (pg_abs pg)) u"
    using assms(1,2) debitLoop_idle[of u "pg_ledger_debits pg"]
    by (auto simp: pgDebitRows_users d c reconcileScan_users ledgerUsers_def m accountTotals_def
        debitGroup_left_sum debitGroup_def left_sum_def)
qed

lemma reconcilePG_finish:
  assumes "set cus = UserID ` set (pg_credit_entries pg)" "set dus = DebitUserID ` set (pg_ledger_debits pg)"
  shows "\<exists>r. reconcilePG left_sum True True cus dus ks pg = finishReport ks (fst (reconcileScan (pg_abs pg))) r
    \<and> Anomalies r = []"
proof -
  obtain m r where f: "fold (pgCreditRow left_sum pg) cus (Map.empty, emptyReport) = (m, r)" by fastforce
  have "Anomalies r = []" using pgRows_report(1)[of left_sum pg cus "(Map.empty, emptyReport)"]
    unfolding f by (simp add: emptyReport_def)
  then have "Anomalies (snd (fold (pgDebitRow left_sum pg) dus (m, r))) = []" by (simp add: pgRows_report)
  then show ?thesis using reconcilePG_users[OF assms f]
    by (auto simp: reconcilePG_def f case_prod_beta)
qed

section \<open>Properties\<close>



text \<open>
  C9. The Postgres ledger starts sound and stays sound: from the empty schema on, any
  sequence of transactions with any failures keeps the maintained balances equal to the
  totals of the logs, gives a user at most one startup grant and never overdraws an account
  beyond rounding.
\<close>

theorem postgres_ledger_sound:
  assumes "list_all pg.proper ops"
    and "pg' = fold pg.run_op ops (migratePostgresLedgerSchema None)"
    and "selectTotals u pg' = (g, e, d)"
  shows "selectTotals u pg' = accountTotals (pg_abs pg') u \<and>
         grantCount (pg_credit_entries pg') u \<le> 1 \<and>
         0 \<le> d \<and> d \<le> fadd g e * (1 + 1 / 2 ^ 51)"
proof -
  have "pg.good pg'" using pg.good_run[OF pg_good_init assms(1)] assms(2) by simp
  then have "pg_inv pg'" "sound (selectTotals u pg')" "grantCount (pg_credit_entries pg') u \<le> 1"
    by (simp_all add: pg.good_def)
  then show ?thesis using assms(3) by (simp add: sound_def pg_inv_def)
qed

theorem postgres_ledger_sound_witness:
  "\<exists>g e d. selectTotals ''u'' (fold pg.run_op [OpCredit all_ok \<lparr> UserID = ''u'', Origin = CreditOriginEarnedContrib,
       Amount = 1, GrantedOrEarnedAt = 0, SourceReference = ''j'' \<rparr>, OpDebit all_ok ''u'' 1 ''k'' 0]
       (migratePostgresLedgerSchema None)) = (g, e, d) \<and> d \<le> fadd g e * (1 + 1 / 2 ^ 51)"
  using postgres_ledger_sound[OF _ refl, of "[OpCredit all_ok \<lparr> UserID = ''u'', Origin = CreditOriginEarnedContrib,
       Amount = 1, GrantedOrEarnedAt = 0, SourceReference = ''j'' \<rparr>, OpDebit all_ok ''u'' 1 ''k'' 0]" "''u''"]
  by (simp add: pg.proper.simps) (metis prod_cases3)

text \<open>
  The Postgres audit does not trust the maintained balances: with the database adding
  the amounts of a group in row order, its anomalies and verdict are those of the audit over
  the logs, whatever is in \<open>account_balances\<close>.
\<close>

theorem postgres_audit_ignores_balances:
  assumes "set cus = UserID ` set (pg_credit_entries pg)"
    and "set dus = DebitUserID ` set (pg_ledger_debits pg)"
    and "range_order ks (fst (reconcileScan (pg_abs pg)))"
  shows "map AnomalyUserID (Anomalies (reconcilePG left_sum True True cus dus ks pg)) =
           map AnomalyUserID (Anomalies (Reconcile ks (pg_abs pg))) \<and>
         Consistent (reconcilePG left_sum True True cus dus ks pg) = Consistent (Reconcile ks (pg_abs pg)) \<and>
         reconcilePG left_sum True True cus dus ks (pg\<lparr> account_balances := b \<rparr>) =
           reconcilePG left_sum True True cus dus ks pg"
proof -
  obtain r where r: "reconcilePG left_sum True True cus dus ks pg =
      finishReport ks (fst (reconcileScan (pg_abs pg))) r" "Anomalies r = []"
    using reconcilePG_finish[OF assms(1,2)] by blast
  have R: "Reconcile ks (pg_abs pg) = finishReport ks (fst (reconcileScan (pg_abs pg))) (snd (reconcileScan (pg_abs pg)))"
    by (simp add: Reconcile_def case_prod_beta)
  have a: "map AnomalyUserID (Anomalies (reconcilePG left_sum True True cus dus ks pg)) =
      map AnomalyUserID (Anomalies (Reconcile ks (pg_abs pg)))"
    unfolding r(1) R finishReport_anomalies[OF r(2)] finishReport_anomalies[OF reconcileScan_report] ..
  then have "Consistent (reconcilePG left_sum True True cus dus ks pg) = Consistent (Reconcile ks (pg_abs pg))"
    unfolding r(1) R finishReport_consistent by (metis map_is_Nil_conv)
  moreover have "pgCreditRow left_sum (pg\<lparr> account_balances := b \<rparr>) = pgCreditRow left_sum pg"
    "pgDebitRow left_sum (pg\<lparr> account_balances := b \<rparr>) = pgDebitRow left_sum pg"
    by (simp_all add: pgCreditRow_def pgDebitRow_def fun_eq_iff)
  ultimately show ?thesis using a by (simp add: reconcilePG_def)
qed

theorem postgres_audit_ignores_balances_witness:
  "Consistent (reconcilePG left_sum True True [] [] [] (migratePostgresLedgerSchema None)) =
   Consistent (Reconcile [] (pg_abs (migratePostgresLedgerSchema None)))"
  using postgres_audit_ignores_balances[of "[]" "migratePostgresLedgerSchema None" "[]" "[]"]
  by (simp add: migratePostgresLedgerSchema_def range_order_def reconcileScan_dom ledgerUsers_def)

end
