(* ===== verification/Protocol.thy ===== *)
theory Protocol
  imports GoStd Float64 "HOL-Library.List_Lexorder" "HOL-Library.Char_ord"
begin

text \<open>
  The wire types of \<open>internal/protocol\<close> and the checks on them: the job specification and
  its validation, the capability manifest a node registers, the freshness window of signed
  requests, node identities and the signed pod digest. Hashes, signatures and the JSON
  encoding of the signed structs are parameters, collected in the record \<open>crypto\<close>; Go
  compares strings byte by byte, which is the lexicographic order on strings here.
\<close>

section \<open>Jobs\<close>

text \<open>Tiers and lanes are strings on the wire.\<close>

definition SensitivityLow :: string where "SensitivityLow = ''low''"
definition SensitivityModerate :: string where "SensitivityModerate = ''moderate''"
definition SensitivityHighRequiresAttestation :: string where
  "SensitivityHighRequiresAttestation = ''high_requires_attestation''"

definition JobLaneFast :: string where "JobLaneFast = ''fast''"
definition JobLaneBackground :: string where "JobLaneBackground = ''background''"
definition JobLaneWarm :: string where "JobLaneWarm = ''warm''"

record RecurrenceSpec =
  IntervalSeconds :: int
  MaxJitterSeconds :: int

record JobSpec =
  SpecJobID :: job_id
  RequesterID :: string
  ModelID :: string
  QuantizationRequired :: string
  Lane :: string
  Sensitivity :: string
  MaxPricePerUnit :: f64
  Recurrence :: "RecurrenceSpec option"
  RedundancyDepth :: int
  PayloadRef :: string
  PayloadFetchURL :: string
  PayloadEphemeralPubKey :: string
  AllowDecomposition :: bool
  AllowDocumentSplitting :: bool
  RequireDeterministicOutput :: bool
  MaxParallelNodes :: int

definition emptyJob :: JobSpec where
  "emptyJob = \<lparr> SpecJobID = [], RequesterID = [], ModelID = [], QuantizationRequired = [], Lane = [],
     Sensitivity = [], MaxPricePerUnit = 0, Recurrence = None, RedundancyDepth = 0, PayloadRef = [],
     PayloadFetchURL = [], PayloadEphemeralPubKey = [], AllowDecomposition = False,
     AllowDocumentSplitting = False, RequireDeterministicOutput = False, MaxParallelNodes = 0 \<rparr>"

datatype spec_error = FastWithRecurrence | BackgroundWithoutRecurrence | HighWithoutRedundancy
  | FastWithDecomposition job_id

definition Validate :: "JobSpec \<Rightarrow> spec_error option" where
  "Validate s =
     (if Lane s = JobLaneFast \<and> Recurrence s \<noteq> None then Some FastWithRecurrence
      else if Lane s = JobLaneBackground \<and> Recurrence s = None then Some BackgroundWithoutRecurrence
      else if Sensitivity s = SensitivityHighRequiresAttestation \<and> RedundancyDepth s < 1
        then Some HighWithoutRedundancy
      else if Lane s = JobLaneFast \<and> (AllowDecomposition s \<or> AllowDocumentSplitting s)
        then Some (FastWithDecomposition (SpecJobID s))
      else None)"

section \<open>Manifests\<close>

datatype RuntimeType = RuntimeExoMLX | RuntimeLlamaCppGGUF | RuntimeMLXDirect
  | RuntimeOtherOpenAICompat | RuntimeOther string

record ModelCapability =
  CapModelID :: string
  Quantization :: string
  Runtime :: RuntimeType
  MaxContextTokens :: int
  IsMoE :: bool
  ExpertShardIDs :: "int list"
  Loaded :: bool
  DraftModelID :: string
  NumDraftTokens :: int

record MeasuredSignature =
  TokensPerSecDecode :: f64
  TokensPerSecPrefill :: f64
  MeasuredAt :: string
  BenchmarkPromptID :: string
  SampleCount :: int

definition emptySignature :: MeasuredSignature where
  "emptySignature = \<lparr> TokensPerSecDecode = 0, TokensPerSecPrefill = 0, MeasuredAt = [],
     BenchmarkPromptID = [], SampleCount = 0 \<rparr>"

record CapabilityManifest =
  NodeID :: node_id
  IsCluster :: bool
  ClusterDeviceCount :: "int option"
  ClusterChipFamilies :: "string list"
  ClusterSignature :: string
  DeclaredMemoryGB :: f64
  DeclaredMemoryCapPct :: f64
  GeographicHint :: string
  GeoLat :: f64
  GeoLng :: f64
  Models :: "ModelCapability list"
  Measured :: "MeasuredSignature option"
  ReachabilityEndpoint :: string
  PricePerUnit :: "string \<rightharpoonup> f64"
  HasSecureEnclave :: bool
  ECDHPublicKey :: string
  TLSCertFingerprint :: string
  Simulated :: bool
  PullDelivery :: bool

definition emptyManifest :: CapabilityManifest where
  "emptyManifest = \<lparr> NodeID = [], IsCluster = False, ClusterDeviceCount = None, ClusterChipFamilies = [],
     ClusterSignature = [], DeclaredMemoryGB = 0, DeclaredMemoryCapPct = 0, GeographicHint = [],
     GeoLat = 0, GeoLng = 0, Models = [], Measured = None, ReachabilityEndpoint = [],
     PricePerUnit = Map.empty, HasSecureEnclave = False, ECDHPublicKey = [], TLSCertFingerprint = [],
     Simulated = False, PullDelivery = False \<rparr>"

section \<open>Messages\<close>

record NodeRegistration =
  RegManifest :: CapabilityManifest
  RegPublicKey :: bytes
  RegSignature :: bytes
  RegUserID :: user_id

record PodHealthDigest =
  PodID :: pod_id
  RegionHint :: string
  CoordinatorEndpoint :: string
  ServableModelIDs :: "string list"
  AggregateHealthScore :: f64
  NodeCountApprox :: int
  TotalMemoryGB :: f64
  AggregateToksPerSec :: f64
  RealNodeCountApprox :: int
  RealTotalMemoryGB :: f64
  RealAggregateToksPerSec :: f64
  DigestPublicKey :: string
  DigestSignature :: string

record RefreshRequest =
  RefManifest :: CapabilityManifest
  RefTimestamp :: int
  RefSignature :: bytes

record ClaimRequest =
  ClaimNodeID :: node_id
  ClaimTimestamp :: int
  ClaimSignature :: bytes

record EnclaveAttestationRequest =
  AttNodeID :: node_id
  EnclavePublicKey :: bytes
  AttTimestamp :: int
  EnclaveSignature :: bytes
  AttSignature :: bytes

text \<open>
  What the code takes from Go's \<open>crypto\<close> packages and from \<open>json.Marshal\<close>; an encoder
  returns None where \<open>Marshal\<close> returns an error.
\<close>

record crypto =
  sha256 :: "bytes \<Rightarrow> bytes"
  ed25519Verify :: "bytes \<Rightarrow> bytes \<Rightarrow> bytes \<Rightarrow> bool"
  ed25519Sign :: "bytes \<Rightarrow> bytes \<Rightarrow> bytes"
  p256Verify :: "bytes \<Rightarrow> bytes \<Rightarrow> bytes \<Rightarrow> bool"
  marshalManifest :: "CapabilityManifest \<Rightarrow> bytes option"
  marshalRefresh :: "CapabilityManifest \<Rightarrow> int \<Rightarrow> bytes option"
  marshalClaim :: "node_id \<Rightarrow> int \<Rightarrow> bytes option"
  marshalAttestation :: "node_id \<Rightarrow> bytes \<Rightarrow> int \<Rightarrow> bytes option"
  marshalDigest :: "PodHealthDigest \<Rightarrow> bytes option"

section \<open>Keys and signatures\<close>

definition NodeIDFromPubKey :: "crypto \<Rightarrow> bytes \<Rightarrow> node_id" where
  "NodeIDFromPubKey C pubKey = take 32 (hexEncode (sha256 C pubKey))"

definition SignPayload :: "crypto \<Rightarrow> bytes \<Rightarrow> bytes \<Rightarrow> bytes option" where
  "SignPayload C privateKey payload =
     (if length privateKey \<noteq> 64 then None else Some (ed25519Sign C privateKey payload))"

definition VerifySignature :: "crypto \<Rightarrow> bytes \<Rightarrow> bytes \<Rightarrow> bytes \<Rightarrow> bool" where
  "VerifySignature C publicKey payload sig =
     (if length publicKey \<noteq> 32 then False else ed25519Verify C publicKey payload sig)"

text \<open>\<open>p256Verify\<close> parses the point, hashes the payload and checks the DER signature.\<close>

definition VerifyP256Signature :: "crypto \<Rightarrow> bytes \<Rightarrow> bytes \<Rightarrow> bytes \<Rightarrow> bool" where
  "VerifyP256Signature C rawPubKey payload derSignature = p256Verify C rawPubKey payload derSignature"

definition RefreshSigningBytes :: "crypto \<Rightarrow> RefreshRequest \<Rightarrow> bytes option" where
  "RefreshSigningBytes C r = marshalRefresh C (RefManifest r) (RefTimestamp r)"

definition ClaimSigningBytes :: "crypto \<Rightarrow> ClaimRequest \<Rightarrow> bytes option" where
  "ClaimSigningBytes C r = marshalClaim C (ClaimNodeID r) (ClaimTimestamp r)"

definition AttestationSigningBytes :: "crypto \<Rightarrow> EnclaveAttestationRequest \<Rightarrow> bytes option" where
  "AttestationSigningBytes C r = marshalAttestation C (AttNodeID r) (EnclavePublicKey r) (AttTimestamp r)"

section \<open>Freshness\<close>

definition MaxRequestAge :: duration where "MaxRequestAge = 5 * minute"
definition maxClockSkewAhead :: duration where "maxClockSkewAhead = 30 * second"

text \<open>The difference of two times saturates at the limits of \<open>time.Duration\<close>.\<close>

definition timeSub :: "time \<Rightarrow> time \<Rightarrow> duration" where
  "timeSub a b = max (- (2 ^ 63)) (min (2 ^ 63 - 1) (a - b))"

datatype freshness_error = TooOld | FromTheFuture

definition VerifyFreshness :: "int \<Rightarrow> time \<Rightarrow> freshness_error option" where
  "VerifyFreshness timestamp now =
     (let age = timeSub now (timestamp * second)
      in if age > MaxRequestAge then Some TooOld
         else if age < - maxClockSkewAhead then Some FromTheFuture
         else None)"

section \<open>Signed digests\<close>

definition digestSignableBytes :: "crypto \<Rightarrow> PodHealthDigest \<Rightarrow> bytes option" where
  "digestSignableBytes C d = marshalDigest C (d\<lparr> DigestPublicKey := [], DigestSignature := [] \<rparr>)"

datatype digest_error = DigestMarshal | DigestSign

definition SignPodHealthDigest :: "crypto \<Rightarrow> PodHealthDigest \<Rightarrow> bytes \<Rightarrow> bytes \<Rightarrow>
    digest_error + PodHealthDigest" where
  "SignPodHealthDigest C d signerPrivateKey signerPublicKey =
     (let d = d\<lparr> DigestPublicKey := [], DigestSignature := [] \<rparr>
      in case digestSignableBytes C d of
           None \<Rightarrow> Inl DigestMarshal
         | Some payload \<Rightarrow>
             (case SignPayload C signerPrivateKey payload of
                None \<Rightarrow> Inl DigestSign
              | Some sig \<Rightarrow> Inr (d\<lparr> DigestPublicKey := hexEncode signerPublicKey,
                                     DigestSignature := hexEncode sig \<rparr>)))"

definition VerifyPodHealthDigestSignature :: "crypto \<Rightarrow> PodHealthDigest \<Rightarrow> bytes option" where
  "VerifyPodHealthDigestSignature C d =
     (if DigestPublicKey d = [] \<or> DigestSignature d = [] then None
      else case hexDecode (DigestPublicKey d) of
          None \<Rightarrow> None
        | Some pub \<Rightarrow>
            (case hexDecode (DigestSignature d) of
               None \<Rightarrow> None
             | Some sig \<Rightarrow>
                 (case digestSignableBytes C d of
                    None \<Rightarrow> None
                  | Some payload \<Rightarrow> if \<not> VerifySignature C pub payload sig then None else Some pub)))"

section \<open>Lemmas\<close>

lemma VerifyFreshness_iff:
  "VerifyFreshness timestamp now = None \<longleftrightarrow>
     - maxClockSkewAhead \<le> now - timestamp * second \<and> now - timestamp * second \<le> MaxRequestAge"
  by (auto simp: VerifyFreshness_def timeSub_def Let_def MaxRequestAge_def maxClockSkewAhead_def)

lemma Validate_None_iff:
  "Validate s = None \<longleftrightarrow>
     (Lane s = JobLaneFast \<longrightarrow> Recurrence s = None \<and> \<not> AllowDecomposition s \<and> \<not> AllowDocumentSplitting s) \<and>
     (Lane s = JobLaneBackground \<longrightarrow> Recurrence s \<noteq> None) \<and>
     (Sensitivity s = SensitivityHighRequiresAttestation \<longrightarrow> 1 \<le> RedundancyDepth s)"
  by (auto simp: Validate_def)

lemma digest_clear [simp]:
  "digestSignableBytes C (d\<lparr> DigestPublicKey := a, DigestSignature := b \<rparr>) = digestSignableBytes C d"
  by (simp add: digestSignableBytes_def)

lemma sign_verify_digest:
  assumes "SignPodHealthDigest C d sk pk = Inr d'" "length pk = 32"
    "\<And>m. ed25519Verify C pk m (ed25519Sign C sk m)" "\<And>m. ed25519Sign C sk m \<noteq> []"
  shows "VerifyPodHealthDigestSignature C d' = Some pk"
proof -
  obtain payload where p: "digestSignableBytes C d = Some payload" "length sk = 64"
    and d': "d' = d\<lparr> DigestPublicKey := hexEncode pk, DigestSignature := hexEncode (ed25519Sign C sk payload) \<rparr>"
    using assms(1) by (auto simp: SignPodHealthDigest_def SignPayload_def Let_def digestSignableBytes_def
        split: option.splits if_splits)
  have "pk \<noteq> []" using assms(2) by auto
  moreover have "digestSignableBytes C d' = Some payload" using p(1) by (simp add: d')
  ultimately show ?thesis using assms(2-4)
    by (simp add: VerifyPodHealthDigestSignature_def d' VerifySignature_def)
qed

end
