(* ===== verification/Json.thy ===== *)
theory Json
  imports GoStd Float64
begin

text \<open>
  Decoded JSON as the code handles it: a \<open>map[string]any\<close> is a partial function, numbers
  are doubles, and a type assertion with a comma-ok gives the zero value when it fails.
\<close>

datatype json = JNull | JBool bool | JNum f64 | JStr string | JArr "json list" | JObj "string \<rightharpoonup> json"

type_synonym jobj = "string \<rightharpoonup> json"

definition asString :: "json option \<Rightarrow> string" where
  "asString v = (case v of Some (JStr s) \<Rightarrow> s | _ \<Rightarrow> [])"

definition asNum :: "json option \<Rightarrow> f64 option" where
  "asNum v = (case v of Some (JNum n) \<Rightarrow> Some n | _ \<Rightarrow> None)"

definition asObj :: "json option \<Rightarrow> jobj option" where
  "asObj v = (case v of Some (JObj m) \<Rightarrow> Some m | _ \<Rightarrow> None)"

definition asBool :: "json option \<Rightarrow> bool" where
  "asBool v = (case v of Some (JBool b) \<Rightarrow> b | _ \<Rightarrow> False)"

definition asArr :: "json option \<Rightarrow> json list option" where
  "asArr v = (case v of Some (JArr xs) \<Rightarrow> Some xs | _ \<Rightarrow> None)"

lemmas json_views = asString_def asNum_def asObj_def asBool_def asArr_def

end
