(* ===== verification/Grants.thy ===== *)
theory Grants
  imports Ledger Protocol Json
begin

text \<open>
  The rest of \<open>internal/settlement\<close>: the stepped decay of startup grants and their issue
  (\<open>grant_decay.go\<close>), the proof of work that a grant claim carries (\<open>pow.go\<close>), division
  orders (\<open>division_order.go\<close>), payment pointers (\<open>payment_pointer.go\<close>) and signed
  settlement records (\<open>record.go\<close>). The verified capacity of the pod, the clock and the
  JSON encoder are arguments.
\<close>

section \<open>Proof of work\<close>

definition DefaultGrantPoWBits :: int where "DefaultGrantPoWBits = 18"

lemma drop_bit_1_less: "m \<noteq> 0 \<Longrightarrow> unat (drop_bit 1 m) < unat (m :: 8 word)"
  by (simp add: drop_bit_eq_div unat_div unat_gt_0)

text \<open>
  The loop over the masks of one byte: the count at which it returns, or the count with
  which it falls through to the next byte.
\<close>

function scanByte :: "8 word \<Rightarrow> 8 word \<Rightarrow> int \<Rightarrow> int + int" where
  "scanByte b m n =
     (if m = 0 then Inr n
      else if b AND m \<noteq> 0 then Inl n
      else scanByte b (drop_bit 1 m) (n + 1))"
  by pat_completeness auto

termination by (relation "measure (\<lambda>(b, m, n). unat m)") (simp_all add: drop_bit_1_less del: One_nat_def)

declare scanByte.simps [simp del]

fun leadingZeroBitsFrom :: "bytes \<Rightarrow> int \<Rightarrow> int" where
  "leadingZeroBitsFrom [] n = n"
| "leadingZeroBitsFrom (b # bs) n =
     (if b = 0 then leadingZeroBitsFrom bs (n + 8)
      else case scanByte b 0x80 n of
          Inl result \<Rightarrow> result
        | Inr n' \<Rightarrow> leadingZeroBitsFrom bs n')"

definition leadingZeroBits :: "bytes \<Rightarrow> int" where
  "leadingZeroBits bs = leadingZeroBitsFrom bs 0"

definition VerifyProofOfWork :: "crypto \<Rightarrow> user_id \<Rightarrow> 64 word \<Rightarrow> int \<Rightarrow> bool" where
  "VerifyProofOfWork C userID nonce difficultyBits =
     (if difficultyBits \<le> 0 then True
      else leadingZeroBits (sha256 C (bytes_of userID @ be64 nonce)) \<ge> difficultyBits)"

section \<open>Startup grants\<close>

record CapacityThreshold =
  MinVerifiedCapacityScore :: f64
  GrantMultiplier :: f64

definition DEFAULT_DECAY_STEPS :: "CapacityThreshold list" where
  "DEFAULT_DECAY_STEPS =
     [\<lparr> MinVerifiedCapacityScore = 0, GrantMultiplier = 1 \<rparr>,
      \<lparr> MinVerifiedCapacityScore = 500, GrantMultiplier = 1 / 2 \<rparr>,
      \<lparr> MinVerifiedCapacityScore = 2000, GrantMultiplier = 0 \<rparr>]"

definition BASE_GRANT_AMOUNT :: f64 where "BASE_GRANT_AMOUNT = 100"

definition CurrentGrantMultiplier :: "f64 \<Rightarrow> CapacityThreshold list \<Rightarrow> f64" where
  "CurrentGrantMultiplier score steps =
     fold (\<lambda>step multiplier. if score \<ge> MinVerifiedCapacityScore step then GrantMultiplier step else multiplier)
       steps 0"

datatype grant_error = UserIDRequired | GrantCreditFailed ledger_error | ErrStartupGrantAlreadyClaimed

text \<open>
  The third component lists the calls of the credit callback; \<open>capacity\<close> is the
  \<open>NodeCapacitySource\<close>, \<open>ok\<close> the outcome of the SQL statement.
\<close>

definition IssueStartupGrant :: "bool \<Rightarrow> user_id \<Rightarrow> pod_id \<Rightarrow> (pod_id \<Rightarrow> f64) \<Rightarrow> CapacityThreshold list \<Rightarrow> time \<Rightarrow>
    Ledger \<Rightarrow> (grant_error + CreditEntry) \<times> Ledger \<times> CreditEntry list" where
  "IssueStartupGrant ok userID assignedPodID capacity steps now l =
     (if userID = [] then (Inl UserIDRequired, l, [])
      else let multiplier = CurrentGrantMultiplier (capacity assignedPodID) steps;
               entry = \<lparr> UserID = userID, Origin = CreditOriginStartupGrant,
                         Amount = fmul BASE_GRANT_AMOUNT multiplier, GrantedOrEarnedAt = now,
                         SourceReference = ''startup_grant:'' @ assignedPodID \<rparr>
           in case ClaimStartupGrantOnce ok entry l of
                ((claimed, err), l', notified) \<Rightarrow>
                  (case err of
                     Some e \<Rightarrow> (Inl (GrantCreditFailed e), l', notified)
                   | None \<Rightarrow> if \<not> claimed then (Inl ErrStartupGrantAlreadyClaimed, l', notified)
                             else (Inr entry, l', notified)))"

section \<open>Division orders\<close>

record ResourceLine =
  ResourceType :: string
  MeasuredAmount :: f64
  DeliveredAmount :: f64
  UnitPrice :: f64

definition ComputeShrinkage :: "f64 \<Rightarrow> f64 \<Rightarrow> f64" where
  "ComputeShrinkage measured delivered = fsub measured delivered"

definition lineJson :: "ResourceLine \<Rightarrow> json" where
  "lineJson x = JObj [''resource_type'' \<mapsto> JStr (ResourceType x), ''measured_amount'' \<mapsto> JNum (MeasuredAmount x),
     ''delivered_amount'' \<mapsto> JNum (DeliveredAmount x), ''unit_price'' \<mapsto> JNum (UnitPrice x)]"

definition addLine :: "ResourceLine \<Rightarrow> f64 \<times> f64 \<times> f64 \<Rightarrow> f64 \<times> f64 \<times> f64" where
  "addLine x = (\<lambda>(totalMeasured, totalDelivered, totalValue).
     (fadd totalMeasured (MeasuredAmount x), fadd totalDelivered (DeliveredAmount x),
      fadd totalValue (fmul (DeliveredAmount x) (UnitPrice x))))"

text \<open>None is the error that an id is missing.\<close>

definition BuildDivisionOrder :: "job_id \<Rightarrow> node_id \<Rightarrow> ResourceLine list \<Rightarrow> jobj option" where
  "BuildDivisionOrder job nodeID xs =
     (if job = [] \<or> nodeID = [] then None
      else let (totalMeasured, totalDelivered, totalValue) = fold addLine xs (0, 0, 0)
           in Some [''job_id'' \<mapsto> JStr job, ''node_id'' \<mapsto> JStr nodeID, ''lines'' \<mapsto> JArr (map lineJson xs),
                    ''total_measured'' \<mapsto> JNum totalMeasured, ''total_delivered'' \<mapsto> JNum totalDelivered,
                    ''total_shrinkage'' \<mapsto> JNum (ComputeShrinkage totalMeasured totalDelivered),
                    ''total_value'' \<mapsto> JNum totalValue])"

definition ReconcileAgainstMeasuredSignature :: "f64 \<Rightarrow> MeasuredSignature option \<Rightarrow> f64 \<Rightarrow> f64" where
  "ReconcileAgainstMeasuredSignature claimedAmount sig tolerancePct = (case sig of
       None \<Rightarrow> claimedAmount
     | Some s \<Rightarrow>
         let maxAllowed = fmul (TokensPerSecDecode s) (fadd 1 tolerancePct)
         in if claimedAmount \<le> maxAllowed then claimedAmount else maxAllowed)"

section \<open>Payment pointers\<close>

record PaymentPointer =
  RailType :: string
  AddressOrReference :: string

datatype pointer_error = AddressRequired | RailRequired | UnknownRail

definition ValidatePaymentPointer :: "PaymentPointer \<Rightarrow> pointer_error + bool" where
  "ValidatePaymentPointer p =
     (if RailType p = ''stablecoin'' \<or> RailType p = ''fiat_invoice'' \<or> RailType p = ''other''
      then if AddressOrReference p = [] then Inl AddressRequired else Inr True
      else if RailType p = [] then Inl RailRequired
      else Inl UnknownRail)"

section \<open>Settlement records\<close>

record settlementContent =
  DivisionOrder :: "jobj option"
  VerificationResult :: bool
  SignedAt :: string

datatype record_error = RecordMarshal | RecordSign | Malformed | BadSignatureHex | SignatureFailed
  | PublishBuild | PublishTransport | PublishStatus int

text \<open>
  \<open>marshal\<close> is \<open>json.Marshal\<close> of the content; \<open>signedAt\<close> the RFC3339 text of the clock.
  A nil division order is None, which a record carries as a JSON null.
\<close>

definition objJson :: "jobj option \<Rightarrow> json" where
  "objJson m = (case m of None \<Rightarrow> JNull | Some x \<Rightarrow> JObj x)"

definition CreateSettlementRecord :: "crypto \<Rightarrow> (settlementContent \<Rightarrow> bytes option) \<Rightarrow> string \<Rightarrow>
    jobj option \<Rightarrow> bool \<Rightarrow> bytes \<Rightarrow> record_error + jobj" where
  "CreateSettlementRecord C marshal signedAt divisionOrder verificationResult signerPrivateKey =
     (let content = \<lparr> DivisionOrder = divisionOrder, VerificationResult = verificationResult, SignedAt = signedAt \<rparr>
      in case marshal content of
           None \<Rightarrow> Inl RecordMarshal
         | Some contentBytes \<Rightarrow>
             (case SignPayload C signerPrivateKey contentBytes of
                None \<Rightarrow> Inl RecordSign
              | Some sig \<Rightarrow>
                  Inr [''record_id'' \<mapsto> JStr (hexEncode (take 16 (sha256 C contentBytes))),
                       ''division_order'' \<mapsto> objJson divisionOrder,
                       ''verification_result'' \<mapsto> JBool verificationResult,
                       ''signed_at'' \<mapsto> JStr signedAt,
                       ''signature'' \<mapsto> JStr (hexEncode sig)]))"

definition VerifySettlementRecord :: "crypto \<Rightarrow> (settlementContent \<Rightarrow> bytes option) \<Rightarrow> jobj \<Rightarrow> bytes \<Rightarrow>
    record_error option" where
  "VerifySettlementRecord C marshal rec nodePublicKey =
     (let divisionOrder = asObj (rec ''division_order'');
          verificationResult = asBool (rec ''verification_result'');
          signedAt = asString (rec ''signed_at'');
          sigHex = asString (rec ''signature'')
      in if divisionOrder = None \<or> signedAt = [] \<or> sigHex = [] then Some Malformed
         else case hexDecode sigHex of
             None \<Rightarrow> Some BadSignatureHex
           | Some sig \<Rightarrow>
               (case marshal \<lparr> DivisionOrder = divisionOrder, VerificationResult = verificationResult,
                               SignedAt = signedAt \<rparr> of
                  None \<Rightarrow> Some RecordMarshal
                | Some contentBytes \<Rightarrow>
                    if \<not> VerifySignature C nodePublicKey contentBytes sig then Some SignatureFailed else None))"

text \<open>The flags and the status are the outcomes of encoding, of building and of the request.\<close>

definition PublishSettlementRecord :: "bool \<Rightarrow> bool \<Rightarrow> int option \<Rightarrow> record_error option" where
  "PublishSettlementRecord marshalOk buildOk status =
     (if \<not> marshalOk then Some RecordMarshal
      else if \<not> buildOk then Some PublishBuild
      else case status of
          None \<Rightarrow> Some PublishTransport
        | Some code \<Rightarrow> if code \<ge> 400 then Some (PublishStatus code) else None)"

section \<open>Leading zeros\<close>

text \<open>The number that a list of bytes is in big-endian order.\<close>

definition beValue :: "bytes \<Rightarrow> nat" where
  "beValue bs = foldl (\<lambda>v b. 256 * v + unat b) 0 bs"

lemma beValue_Cons: "beValue (b # bs) = unat b * 256 ^ length bs + beValue bs"
proof -
  have "foldl (\<lambda>v b. 256 * v + unat b) v xs = v * 256 ^ length xs + foldl (\<lambda>v b. 256 * v + unat b) 0 xs"
    for v and xs :: bytes
  proof (induction xs arbitrary: v)
    case (Cons x xs)
    from Cons.IH[of "256 * v + unat x"] Cons.IH[of "unat x"] show ?case by (simp add: algebra_simps)
  qed simp
  from this[of "unat b" bs] show ?thesis by (simp add: beValue_def)
qed

lemma beValue_Nil [simp]: "beValue [] = 0"
  by (simp add: beValue_def)

lemma beValue_less: "beValue bs < 256 ^ length bs"
proof (induction bs)
  case (Cons b bs)
  have "unat b < 256" using unsigned_less[of b, where 'a = nat] by simp
  then have "(unat b + 1) * 256 ^ length bs \<le> 256 * 256 ^ length bs" by (intro mult_right_mono) auto
  then have "unat b * 256 ^ length bs + 256 ^ length bs \<le> 256 * 256 ^ length bs"
    by (simp only: add_mult_distrib mult_1)
  then show ?case using Cons unfolding beValue_Cons length_Cons power_Suc by linarith
qed simp

lemma scanByte_shift: "scanByte b m (n + c) = map_sum (\<lambda>x. x + c) (\<lambda>x. x + c) (scanByte b m n)"
proof (induction b m n rule: scanByte.induct)
  case (1 b m n)
  then show ?case by (subst (1 2) scanByte.simps) (simp add: algebra_simps)
qed

lemma scanByte_small:
  "\<forall>v \<in> {1..<256}. case scanByte (of_nat v) 0x80 0 of
     Inl k \<Rightarrow> 0 \<le> k \<and> k < 8 \<and> 2 ^ nat (7 - k) \<le> v \<and> v < 2 ^ nat (8 - k) | Inr _ \<Rightarrow> False"
  by code_simp

lemma scanByte_result:
  assumes "b \<noteq> 0"
  shows "\<exists>k. scanByte b 0x80 n = Inl (n + k) \<and> 0 \<le> k \<and> k < 8 \<and>
    2 ^ nat (7 - k) \<le> unat b \<and> unat b < 2 ^ nat (8 - k)"
proof -
  have "unat b < 256" using unsigned_less[of b, where 'a = nat] by simp
  moreover have "unat b \<noteq> 0" using assms by (simp add: unat_eq_zero)
  ultimately have "unat b \<in> {1..<256}" by simp
  from bspec[OF scanByte_small this] obtain k where k: "scanByte b 0x80 0 = Inl k" "0 \<le> k" "k < 8"
    "2 ^ nat (7 - k) \<le> unat b" "unat b < 2 ^ nat (8 - k)" by (auto split: sum.splits)
  then show ?thesis using scanByte_shift[of b "0x80" 0 n] by (intro exI[of _ k]) (simp add: add.commute)
qed

text \<open>The count is the number of leading zeros of that number in its full width.\<close>

lemma leadingZeroBitsFrom_value:
  "\<exists>k. leadingZeroBitsFrom bs n = n + int k \<and> k \<le> 8 * length bs \<and> beValue bs < 2 ^ (8 * length bs - k) \<and>
     (k < 8 * length bs \<longrightarrow> 2 ^ (8 * length bs - k - 1) \<le> beValue bs)"
proof (induction bs arbitrary: n)
  case (Cons b bs)
  have p: "(256::nat) ^ length bs = 2 ^ (8 * length bs)" by (simp add: power_mult)
  show ?case
  proof (cases "b = 0")
    case True
    from Cons.IH[of "n + 8"] obtain k where k: "leadingZeroBitsFrom bs (n + 8) = n + 8 + int k" "k \<le> 8 * length bs"
      "beValue bs < 2 ^ (8 * length bs - k)" "k < 8 * length bs \<longrightarrow> 2 ^ (8 * length bs - k - 1) \<le> beValue bs" by blast
    then show ?thesis using True by (intro exI[of _ "k + 8"]) (simp add: beValue_Cons)
  next
    case False
    from scanByte_result[OF False, of n] obtain k where k: "scanByte b 0x80 n = Inl (n + k)" "0 \<le> k" "k < 8"
      "2 ^ nat (7 - k) \<le> unat b" "unat b < 2 ^ nat (8 - k)" by blast
    obtain m where m: "k = int m" "m < 8" using k(2,3) by (metis nonneg_int_cases of_nat_less_iff of_nat_numeral)
    have e: "nat (7 - k) = 7 - m" "nat (8 - k) = 8 - m" using m by (simp_all add: nat_diff_distrib)
    have "unat b + 1 \<le> 2 ^ (8 - m)" using k(5) by (simp add: e)
    then have "(unat b + 1) * 2 ^ (8 * length bs) \<le> 2 ^ (8 - m) * 2 ^ (8 * length bs)" by (intro mult_right_mono) auto
    also have "\<dots> = 2 ^ (8 * length (b # bs) - m)" using m(2) by (simp flip: power_add)
    finally have u: "beValue (b # bs) < 2 ^ (8 * length (b # bs) - m)"
      using beValue_less[of bs] by (simp add: beValue_Cons p)
    have "2 ^ (7 - m) * 2 ^ (8 * length bs) \<le> unat b * 2 ^ (8 * length bs)" using k(4) by (simp add: e)
    also have "\<dots> \<le> beValue (b # bs)" by (simp add: beValue_Cons p)
    finally have "2 ^ (8 * length (b # bs) - m - 1) \<le> beValue (b # bs)" using m(2) by (simp flip: power_add)
    then show ?thesis using False k(1) u m by (intro exI[of _ m]) simp
  qed
qed (auto intro: exI[of _ 0])

lemma leadingZeroBits_iff:
  assumes "d \<le> 8 * length bs"
  shows "int d \<le> leadingZeroBits bs \<longleftrightarrow> beValue bs < 2 ^ (8 * length bs - d)"
proof -
  obtain k where k: "leadingZeroBits bs = int k" "k \<le> 8 * length bs" "beValue bs < 2 ^ (8 * length bs - k)"
    "k < 8 * length bs \<longrightarrow> 2 ^ (8 * length bs - k - 1) \<le> beValue bs"
    using leadingZeroBitsFrom_value[of bs 0] by (auto simp: leadingZeroBits_def)
  show ?thesis
  proof (cases "d \<le> k")
    case True
    have "(2::nat) ^ (8 * length bs - k) \<le> 2 ^ (8 * length bs - d)" using True by (intro power_increasing) auto
    from less_le_trans[OF k(3) this] show ?thesis using True k(1) by simp
  next
    case False
    have "(2::nat) ^ (8 * length bs - d) \<le> 2 ^ (8 * length bs - k - 1)" using False by (intro power_increasing) auto
    also have "2 ^ (8 * length bs - k - 1) \<le> beValue bs" using k(4) False assms by simp
    finally show ?thesis using False k(1) by simp
  qed
qed

lemma leadingZeroBits_le: "leadingZeroBits bs \<le> 8 * int (length bs)"
  using leadingZeroBitsFrom_value[of bs 0] by (auto simp: leadingZeroBits_def)

section \<open>Grants and orders\<close>

lemma fold_last_step:
  "fold (\<lambda>step m. if score \<ge> MinVerifiedCapacityScore step then GrantMultiplier step else m) steps m0 =
     (case filter (\<lambda>step. score \<ge> MinVerifiedCapacityScore step) steps of
        [] \<Rightarrow> m0 | met \<Rightarrow> GrantMultiplier (last met))"
  by (induction steps arbitrary: m0) (auto split: list.splits)

lemma CurrentGrantMultiplier_default:
  "CurrentGrantMultiplier score DEFAULT_DECAY_STEPS =
     (if score < 0 then 0 else if score < 500 then 1 else if score < 2000 then 1 / 2 else 0)"
  by (simp add: CurrentGrantMultiplier_def DEFAULT_DECAY_STEPS_def not_less)

lemma grant_amounts [simp]: "fl BASE_GRANT_AMOUNT = 100" "fl (BASE_GRANT_AMOUNT / 2) = 50"
  by code_simp+

lemma fold_addLine_mono:
  assumes "d \<le> m" "\<forall>x \<in> set xs. DeliveredAmount x \<le> MeasuredAmount x"
    "fold addLine xs (m, d, v) = (m', d', v')"
  shows "d' \<le> m'"
  using assms
proof (induction xs arbitrary: m d v)
  case (Cons x xs)
  have "fadd d (DeliveredAmount x) \<le> fadd m (MeasuredAmount x)" using Cons.prems by (intro fl_mono add_mono) auto
  from Cons.IH[OF this, of "fadd v (fmul (DeliveredAmount x) (UnitPrice x))"] Cons.prems show ?case
    by (simp add: addLine_def)
qed simp

section \<open>Properties\<close>

text \<open>
  C15. The bit counting of the proof of work is the hashcash condition: a nonce is accepted
  exactly when the 256-bit number of the hash of the user id and the big-endian nonce is
  below 2 to the power 256 minus the difficulty; a difficulty above 256 accepts nothing and
  one that is not positive accepts everything.
\<close>

theorem proof_of_work_exact:
  assumes "\<And>x. length (sha256 C x) = 32"
  shows "(difficultyBits \<le> 0 \<longrightarrow> VerifyProofOfWork C u nonce difficultyBits) \<and>
         (0 < difficultyBits \<and> difficultyBits \<le> 256 \<longrightarrow>
            (VerifyProofOfWork C u nonce difficultyBits \<longleftrightarrow>
             beValue (sha256 C (bytes_of u @ be64 nonce)) < 2 ^ nat (256 - difficultyBits))) \<and>
         (256 < difficultyBits \<longrightarrow> \<not> VerifyProofOfWork C u nonce difficultyBits)"
proof -
  have iff: "0 < difficultyBits \<and> difficultyBits \<le> 256 \<longrightarrow>
      (difficultyBits \<le> leadingZeroBits (sha256 C x) \<longleftrightarrow> beValue (sha256 C x) < 2 ^ nat (256 - difficultyBits))" for x
    using leadingZeroBits_iff[of "nat difficultyBits" "sha256 C x"] assms[of x]
    by (auto simp: nat_diff_distrib)
  show ?thesis
    using iff[of "bytes_of u @ be64 nonce"] leadingZeroBits_le[of "sha256 C (bytes_of u @ be64 nonce)"]
      assms[of "bytes_of u @ be64 nonce"]
    by (auto simp: VerifyProofOfWork_def)
qed

definition toyCrypto :: crypto where
  "toyCrypto = \<lparr> sha256 = (\<lambda>x. replicate 2 0 @ replicate 30 (0x10 :: 8 word)),
     ed25519Verify = (\<lambda>pk m s. s = m), ed25519Sign = (\<lambda>sk m. m), p256Verify = (\<lambda>pk m s. s = m),
     marshalManifest = (\<lambda>m. Some []), marshalRefresh = (\<lambda>m t. Some []), marshalClaim = (\<lambda>n t. Some []),
     marshalAttestation = (\<lambda>n k t. Some []), marshalDigest = (\<lambda>d. Some []) \<rparr>"

theorem proof_of_work_exact_witness:
  "VerifyProofOfWork toyCrypto ''u'' 7 18 \<longleftrightarrow> beValue (replicate 2 0 @ replicate 30 0x10) < 2 ^ 238"
  using proof_of_work_exact[of toyCrypto 18 "''u''" 7] by (simp add: toyCrypto_def)

text \<open>
  The grant decay: the multiplier is that of the last step whose threshold is met, and
  with the default steps the grant is 100, 50 or 0 and never grows with the verified
  capacity of the pod.
\<close>

theorem grant_decay:
  "CurrentGrantMultiplier s steps =
     (case filter (\<lambda>step. s \<ge> MinVerifiedCapacityScore step) steps of
        [] \<Rightarrow> 0 | met \<Rightarrow> GrantMultiplier (last met)) \<and>
   fmul BASE_GRANT_AMOUNT (CurrentGrantMultiplier s DEFAULT_DECAY_STEPS) \<in> {100, 50, 0} \<and>
   (0 \<le> s \<and> s \<le> s' \<longrightarrow>
      fmul BASE_GRANT_AMOUNT (CurrentGrantMultiplier s' DEFAULT_DECAY_STEPS)
        \<le> fmul BASE_GRANT_AMOUNT (CurrentGrantMultiplier s DEFAULT_DECAY_STEPS))"
  unfolding CurrentGrantMultiplier_default by (simp add: CurrentGrantMultiplier_def fold_last_step)

theorem grant_decay_witness:
  "fmul BASE_GRANT_AMOUNT (CurrentGrantMultiplier 700 DEFAULT_DECAY_STEPS) \<le> 100"
  using grant_decay[of 100 DEFAULT_DECAY_STEPS 700] by (simp add: CurrentGrantMultiplier_default)

text \<open>
  Issuing a grant has exactly four outcomes: an empty user id and a failing database
  change nothing; a user whose log has a grant is told so and gets nothing; otherwise the
  log gains one entry of the decayed amount and the callback hears of it, so a second
  claim by the same user, whatever pod it is assigned to, is always refused.
\<close>

theorem startup_grant_issue:
  assumes "IssueStartupGrant ok u pod capacity steps now l = (res, l', notified)"
  shows "(case res of
      Inl UserIDRequired \<Rightarrow> u = [] \<and> l' = l \<and> notified = []
    | Inl (GrantCreditFailed e) \<Rightarrow> u \<noteq> [] \<and> l' = l \<and> notified = [] \<and> \<not> ok
    | Inl ErrStartupGrantAlreadyClaimed \<Rightarrow> 0 < grantCount (entries l) u \<and> l' = l \<and> notified = []
    | Inr e \<Rightarrow> grantCount (entries l) u = 0 \<and> entries l' = entries l @ [e] \<and> debits l' = debits l \<and>
        UserID e = u \<and> Origin e = CreditOriginStartupGrant \<and>
        Amount e = fmul BASE_GRANT_AMOUNT (CurrentGrantMultiplier (capacity pod) steps) \<and>
        notified = notifyCredit l e \<and>
        (\<forall>ok2 pod2 now2. IssueStartupGrant ok2 u pod2 capacity steps now2 l' =
            (Inl ErrStartupGrantAlreadyClaimed, l', [])))"
proof (cases "u = []")
  case True
  then show ?thesis using assms by (auto simp: IssueStartupGrant_def)
next
  case False
  define e where "e = \<lparr> UserID = u, Origin = CreditOriginStartupGrant,
    Amount = fmul BASE_GRANT_AMOUNT (CurrentGrantMultiplier (capacity pod) steps), GrantedOrEarnedAt = now,
    SourceReference = ''startup_grant:'' @ pod \<rparr>"
  show ?thesis
  proof (cases "hasStartupGrant u (entries l)")
    case True
    then show ?thesis using assms False
      by (auto simp: IssueStartupGrant_def ClaimStartupGrantOnce_def hasStartupGrant_count Let_def)
  next
    case no: False
    show ?thesis
    proof (cases "creditLocked ok e l")
      case (Inl err)
      then have "\<not> ok" by (auto simp: creditLocked_def split: option.splits if_splits)
      then show ?thesis using assms False no Inl
        by (auto simp: IssueStartupGrant_def ClaimStartupGrantOnce_def Let_def e_def)
    next
      case (Inr l2)
      note c = creditLocked_Inr[OF Inr]
      have r: "res = Inr e" "l' = l2" "notified = notifyCredit l2 e"
        using assms False no Inr by (auto simp: IssueStartupGrant_def ClaimStartupGrantOnce_def Let_def e_def)
      have "hasStartupGrant u (entries l2)" by (simp add: c(1) hasStartupGrant_def e_def)
      then have "IssueStartupGrant ok2 u pod2 capacity steps now2 l2 = (Inl ErrStartupGrantAlreadyClaimed, l2, [])"
        for ok2 pod2 now2 using False by (simp add: IssueStartupGrant_def ClaimStartupGrantOnce_def Let_def)
      moreover have "grantCount (entries l) u = 0" using no by (simp add: hasStartupGrant_count)
      moreover have "UserID e = u" "Origin e = CreditOriginStartupGrant"
        "Amount e = fmul BASE_GRANT_AMOUNT (CurrentGrantMultiplier (capacity pod) steps)" by (simp_all add: e_def)
      ultimately show ?thesis by (simp add: r c(1,2) notifyCredit_def c(4))
    qed
  qed
qed

theorem startup_grant_issue_witness:
  "\<exists>l'. IssueStartupGrant True ''u'' ''p'' (\<lambda>_. 600) DEFAULT_DECAY_STEPS 0 NewLedger =
     (Inr \<lparr> UserID = ''u'', Origin = CreditOriginStartupGrant, Amount = 50, GrantedOrEarnedAt = 0,
        SourceReference = ''startup_grant:p'' \<rparr>, l', []) \<and>
     IssueStartupGrant True ''u'' ''q'' (\<lambda>_. 600) DEFAULT_DECAY_STEPS 5 l' = (Inl ErrStartupGrantAlreadyClaimed, l', [])"
proof -
  let ?e = "\<lparr> UserID = ''u'', Origin = CreditOriginStartupGrant, Amount = 50, GrantedOrEarnedAt = 0,
        SourceReference = ''startup_grant:p'' \<rparr>"
  have r: "IssueStartupGrant True ''u'' ''p'' (\<lambda>_. 600) DEFAULT_DECAY_STEPS 0 NewLedger =
     (Inr ?e, NewLedger\<lparr> entries := [?e] \<rparr>, [])"
    by (simp add: IssueStartupGrant_def CurrentGrantMultiplier_default ClaimStartupGrantOnce_def creditLocked_def
        NewLedger_def hasStartupGrant_def notifyCredit_def Let_def)
  from startup_grant_issue[OF r] r show ?thesis by auto
qed

text \<open>
  Division orders keep measured and delivered amounts apart: with every line delivering
  at most what was measured, the totals do too and the reported shrinkage is not negative;
  an order is refused exactly when an id is missing; and the amount that survives the check
  against the measured signature is at most the claim and at most the allowance.
\<close>

theorem division_order_totals:
  assumes "\<forall>x \<in> set xs. DeliveredAmount x \<le> MeasuredAmount x"
  shows "(BuildDivisionOrder job n xs = None \<longleftrightarrow> job = [] \<or> n = []) \<and>
         (\<forall>order. BuildDivisionOrder job n xs = Some order \<longrightarrow>
            (\<exists>m d s. asNum (order ''total_measured'') = Some m \<and> asNum (order ''total_delivered'') = Some d \<and>
               asNum (order ''total_shrinkage'') = Some s \<and> d \<le> m \<and> s = fsub m d \<and> 0 \<le> s)) \<and>
         ReconcileAgainstMeasuredSignature claimed (Some sig) tol =
           min claimed (fmul (TokensPerSecDecode sig) (fadd 1 tol)) \<and>
         ReconcileAgainstMeasuredSignature claimed None tol = claimed"
proof -
  obtain m d v where f: "fold addLine xs (0, 0, 0) = (m, d, v)" using prod_cases3 by blast
  have le: "d \<le> m" using fold_addLine_mono[OF order_refl assms f] .
  then have "0 \<le> fsub m d" by (intro fl_nonneg) simp
  then show ?thesis using le f
    by (auto simp: BuildDivisionOrder_def ReconcileAgainstMeasuredSignature_def ComputeShrinkage_def asNum_def min_def)
qed

theorem division_order_totals_witness:
  "BuildDivisionOrder ''j'' ''n'' [\<lparr> ResourceType = ''compute_cycles'', MeasuredAmount = 3, DeliveredAmount = 2, UnitPrice = 1 \<rparr>] \<noteq> None"
  using division_order_totals[of "[\<lparr> ResourceType = ''compute_cycles'', MeasuredAmount = 3, DeliveredAmount = 2, UnitPrice = 1 \<rparr>]"
      "''j''" "''n''" 0 emptySignature 0] by simp

text \<open>
  Settlement records are evidence: what \<open>CreateSettlementRecord\<close> returns verifies under
  the signer's public key whether the verification it reports succeeded or not; and when a
  signature fits only one message, no other record with that signature verifies unless its
  division order, result and time are the signed ones.
\<close>

theorem settlement_records_are_evidence:
  assumes "\<And>m. ed25519Verify C pk m (ed25519Sign C sk m)"
    and "\<And>m m' s. ed25519Verify C pk m s \<Longrightarrow> ed25519Verify C pk m' s \<Longrightarrow> m = m'"
    and "\<And>m. ed25519Sign C sk m \<noteq> []"
    and "\<And>c c' b. marshal c = Some b \<Longrightarrow> marshal c' = Some b \<Longrightarrow> c = c'"
    and "length pk = 32"
    and "CreateSettlementRecord C marshal when (Some order) ok sk = Inr rec" and "when \<noteq> []"
  shows "VerifySettlementRecord C marshal rec pk = None \<and>
         (VerifySettlementRecord C marshal rec' pk = None \<and> rec' ''signature'' = rec ''signature'' \<longrightarrow>
            asObj (rec' ''division_order'') = Some order \<and> asBool (rec' ''verification_result'') = ok \<and>
            asString (rec' ''signed_at'') = when)"
proof -
  let ?c = "\<lparr> DivisionOrder = Some order, VerificationResult = ok, SignedAt = when \<rparr>"
  obtain b where b: "marshal ?c = Some b" and r: "rec =
     [''record_id'' \<mapsto> JStr (hexEncode (take 16 (sha256 C b))), ''division_order'' \<mapsto> JObj order,
      ''verification_result'' \<mapsto> JBool ok, ''signed_at'' \<mapsto> JStr when, ''signature'' \<mapsto> JStr (hexEncode (ed25519Sign C sk b))]"
    using assms(6) by (auto simp: CreateSettlementRecord_def SignPayload_def objJson_def Let_def split: option.splits if_splits)
  have "VerifySettlementRecord C marshal rec pk = None"
    using assms(1,3,5,7) b by (simp add: r VerifySettlementRecord_def VerifySignature_def json_views)
  moreover have "asObj (rec' ''division_order'') = Some order \<and> asBool (rec' ''verification_result'') = ok \<and>
      asString (rec' ''signed_at'') = when"
    if v: "VerifySettlementRecord C marshal rec' pk = None" and s: "rec' ''signature'' = rec ''signature''"
  proof -
    let ?c' = "\<lparr> DivisionOrder = asObj (rec' ''division_order''), VerificationResult = asBool (rec' ''verification_result''),
      SignedAt = asString (rec' ''signed_at'') \<rparr>"
    have sig: "asString (rec' ''signature'') = hexEncode (ed25519Sign C sk b)" by (simp add: s r asString_def)
    obtain b' where b': "marshal ?c' = Some b'" "ed25519Verify C pk b' (ed25519Sign C sk b)"
      using v by (auto simp: VerifySettlementRecord_def VerifySignature_def sig Let_def split: option.splits if_splits)
    have "b' = b" using assms(2)[OF b'(2) assms(1)] .
    then have "?c' = ?c" using assms(4) b b'(1) by blast
    then show ?thesis by simp
  qed
  ultimately show ?thesis by blast
qed

definition tagCrypto :: crypto where
  "tagCrypto = toyCrypto\<lparr> ed25519Verify := (\<lambda>pk m s. s = 1 # m), ed25519Sign := (\<lambda>sk m. 1 # m) \<rparr>"

text \<open>An injective encoder of the contents whose order is empty.\<close>

definition toyMarshal :: "settlementContent \<Rightarrow> bytes option" where
  "toyMarshal c = (if DivisionOrder c = Some Map.empty
     then Some ((if VerificationResult c then 1 else 0) # bytes_of (SignedAt c)) else None)"

lemma toyMarshal_inj: "toyMarshal c = Some b \<Longrightarrow> toyMarshal c' = Some b \<Longrightarrow> c = c'"
  by (cases c; cases c')
    (auto simp: toyMarshal_def bytes_of_inj split: if_splits)

theorem settlement_records_are_evidence_witness:
  "\<exists>rec. CreateSettlementRecord tagCrypto toyMarshal ''2026'' (Some Map.empty) False (replicate 64 0) = Inr rec \<and>
     VerifySettlementRecord tagCrypto toyMarshal rec (replicate 32 0) = None \<and>
     VerifySettlementRecord tagCrypto toyMarshal (rec(''verification_result'' \<mapsto> JBool True)) (replicate 32 0) \<noteq> None"
proof -
  obtain rec where r: "CreateSettlementRecord tagCrypto toyMarshal ''2026'' (Some Map.empty) False (replicate 64 0) = Inr rec"
    by (simp add: CreateSettlementRecord_def toyMarshal_def SignPayload_def)
  have "VerifySettlementRecord tagCrypto toyMarshal rec (replicate 32 0) = None \<and>
     (VerifySettlementRecord tagCrypto toyMarshal rec' (replicate 32 0) = None \<and> rec' ''signature'' = rec ''signature'' \<longrightarrow>
            asObj (rec' ''division_order'') = Some Map.empty \<and> asBool (rec' ''verification_result'') = False \<and>
            asString (rec' ''signed_at'') = ''2026'')" for rec'
    by (rule settlement_records_are_evidence[where sk = "replicate 64 0", OF _ _ _ toyMarshal_inj _ r])
      (simp_all add: tagCrypto_def)
  from this[of "rec(''verification_result'' \<mapsto> JBool True)"] show ?thesis using r by (auto simp: asBool_def)
qed

end
