(* ===== verification/PullDispatch.thy ===== *)
theory PullDispatch
  imports Protocol Json
begin

text \<open>
  The pull mailbox of \<open>internal/coordinator/pulldispatch.go\<close>: jobs handed to nodes that
  poll for work. The dispatcher's map of queues and map of waiters are the state; a call of
  \<open>Dispatch\<close> is a task that runs through its critical sections one step at a time, so steps
  of other calls can fall in between. A result channel has one buffer slot and is named by
  the number of the \<open>Dispatch\<close> call that made it. Where a Go \<open>select\<close> has several ready
  cases, each of them is a step.
\<close>

section \<open>State\<close>

record PendingJob =
  PendingJobID :: job_id
  PendingSpec :: JobSpec
  Messages :: "jobj list"

record JobResult =
  Result :: "jobj option"
  Err :: "string option"

datatype pull_outcome = Returned JobResult | CancelledBeforeSend | NodeQueueFull | NoResultBeforeDeadline

datatype phase = Registered | Waiting | Leaving pull_outcome | Finished pull_outcome

record task =
  taskNode :: node_id
  taskJob :: PendingJob
  taskPhase :: phase

record PullDispatcher =
  queues :: "node_id \<rightharpoonup> PendingJob list"
  waiters :: "job_id \<rightharpoonup> nat"
  slots :: "nat \<rightharpoonup> JobResult"
  tasks :: "nat \<rightharpoonup> task"
  nextTask :: nat

definition DefaultPullQueueDepth :: nat where "DefaultPullQueueDepth = 16"

definition NewPullDispatcher :: PullDispatcher where
  "NewPullDispatcher = \<lparr> queues = Map.empty, waiters = Map.empty, slots = Map.empty, tasks = Map.empty, nextTask = 0 \<rparr>"

section \<open>Operations\<close>

definition queueFor :: "node_id \<Rightarrow> PullDispatcher \<Rightarrow> PendingJob list \<times> PullDispatcher" where
  "queueFor nodeID p = (case queues p nodeID of
       Some q \<Rightarrow> (q, p)
     | None \<Rightarrow> ([], p\<lparr> queues := (queues p)(nodeID \<mapsto> []) \<rparr>))"

definition setPhase :: "nat \<Rightarrow> phase \<Rightarrow> PullDispatcher \<Rightarrow> PullDispatcher" where
  "setPhase k ph p = (case tasks p k of
       None \<Rightarrow> p
     | Some t \<Rightarrow> p\<lparr> tasks := (tasks p)(k \<mapsto> t\<lparr> taskPhase := ph \<rparr>) \<rparr>)"

text \<open>The first critical section of \<open>Dispatch\<close>: a fresh channel becomes the job's waiter.\<close>

definition dispatchRegister :: "node_id \<Rightarrow> JobSpec \<Rightarrow> jobj list \<Rightarrow> PullDispatcher \<Rightarrow> nat \<times> PullDispatcher" where
  "dispatchRegister nodeID job messages p =
     (let pending = \<lparr> PendingJobID = SpecJobID job, PendingSpec = job, Messages = messages \<rparr>; k = nextTask p
      in (k, p\<lparr> waiters := (waiters p)(SpecJobID job \<mapsto> k),
                tasks := (tasks p)(k \<mapsto> \<lparr> taskNode = nodeID, taskJob = pending, taskPhase = Registered \<rparr>),
                nextTask := k + 1 \<rparr>))"

text \<open>
  The send: \<open>ctxDone\<close> says whether the context has ended, \<open>preferCtx\<close> which ready case the
  runtime picks when the queue has room and the context has ended too.
\<close>

definition dispatchSend :: "bool \<Rightarrow> bool \<Rightarrow> nat \<Rightarrow> task \<Rightarrow> PullDispatcher \<Rightarrow> PullDispatcher" where
  "dispatchSend ctxDone preferCtx k t p =
     (let (q, p1) = queueFor (taskNode t) p;
          room = (length q < DefaultPullQueueDepth)
      in if room \<and> \<not> (ctxDone \<and> preferCtx)
         then setPhase k Waiting (p1\<lparr> queues := (queues p1)(taskNode t \<mapsto> q @ [taskJob t]) \<rparr>)
         else if ctxDone then setPhase k (Leaving CancelledBeforeSend) p1
         else setPhase k (Leaving NodeQueueFull) p1)"

text \<open>The second \<open>select\<close>: take the result out of the slot, or give up.\<close>

definition dispatchReceive :: "nat \<Rightarrow> JobResult \<Rightarrow> PullDispatcher \<Rightarrow> PullDispatcher" where
  "dispatchReceive k res p = setPhase k (Leaving (Returned res)) (p\<lparr> slots := (slots p)(k := None) \<rparr>)"

definition dispatchTimeout :: "nat \<Rightarrow> PullDispatcher \<Rightarrow> PullDispatcher" where
  "dispatchTimeout k p = setPhase k (Leaving NoResultBeforeDeadline) p"

text \<open>The deferred function: it deletes the waiter by the job's id.\<close>

definition dispatchCleanup :: "nat \<Rightarrow> task \<Rightarrow> pull_outcome \<Rightarrow> PullDispatcher \<Rightarrow> PullDispatcher" where
  "dispatchCleanup k t out p =
     setPhase k (Finished out) (p\<lparr> waiters := (waiters p)(PendingJobID (taskJob t) := None) \<rparr>)"

text \<open>A claim takes the first job of the node's queue; None is the end of the long poll.\<close>

definition Claim :: "node_id \<Rightarrow> PullDispatcher \<Rightarrow> PendingJob option \<times> PullDispatcher" where
  "Claim nodeID p = (case queueFor nodeID p of (q, p1) \<Rightarrow>
     (case q of
        [] \<Rightarrow> (None, p1)
      | job # rest \<Rightarrow> (Some job, p1\<lparr> queues := (queues p1)(nodeID \<mapsto> rest) \<rparr>)))"

definition SubmitResult :: "job_id \<Rightarrow> JobResult \<Rightarrow> PullDispatcher \<Rightarrow> bool \<times> PullDispatcher" where
  "SubmitResult jobID res p = (case waiters p jobID of
       None \<Rightarrow> (False, p)
     | Some k \<Rightarrow>
         (case slots p k of
            None \<Rightarrow> (True, p\<lparr> slots := (slots p)(k \<mapsto> res) \<rparr>)
          | Some _ \<Rightarrow> (False, p)))"

section \<open>Interleavings\<close>

datatype pull_event = EvBegin nat node_id JobSpec | EvSent nat node_id PendingJob | EvNotSent nat
  | EvClaim node_id "PendingJob option" | EvSubmit job_id JobResult "nat option"
  | EvReceive nat JobResult | EvTimeout nat | EvEnd nat pull_outcome

inductive pull_step :: "PullDispatcher \<Rightarrow> pull_event \<Rightarrow> PullDispatcher \<Rightarrow> bool" where
  Begin: "dispatchRegister nodeID job messages p = (k, p') \<Longrightarrow> pull_step p (EvBegin k nodeID job) p'"
| Sent: "tasks p k = Some t \<Longrightarrow> taskPhase t = Registered \<Longrightarrow> dispatchSend ctxDone preferCtx k t p = p' \<Longrightarrow>
    tasks p' k = Some t' \<Longrightarrow> taskPhase t' = Waiting \<Longrightarrow> pull_step p (EvSent k (taskNode t) (taskJob t)) p'"
| NotSent: "tasks p k = Some t \<Longrightarrow> taskPhase t = Registered \<Longrightarrow> dispatchSend ctxDone preferCtx k t p = p' \<Longrightarrow>
    tasks p' k = Some t' \<Longrightarrow> taskPhase t' \<noteq> Waiting \<Longrightarrow> pull_step p (EvNotSent k) p'"
| Claimed: "Claim nodeID p = (j, p') \<Longrightarrow> pull_step p (EvClaim nodeID j) p'"
| Submitted: "SubmitResult jobID res p = (ok, p') \<Longrightarrow>
    pull_step p (EvSubmit jobID res (if ok then waiters p jobID else None)) p'"
| Receive: "tasks p k = Some t \<Longrightarrow> taskPhase t = Waiting \<Longrightarrow> slots p k = Some res \<Longrightarrow>
    pull_step p (EvReceive k res) (dispatchReceive k res p)"
| Timeout: "tasks p k = Some t \<Longrightarrow> taskPhase t = Waiting \<Longrightarrow> pull_step p (EvTimeout k) (dispatchTimeout k p)"
| End: "tasks p k = Some t \<Longrightarrow> taskPhase t = Leaving out \<Longrightarrow> pull_step p (EvEnd k out) (dispatchCleanup k t out p)"

inductive pull_run :: "pull_event list \<Rightarrow> PullDispatcher \<Rightarrow> bool" where
  Start: "pull_run [] NewPullDispatcher"
| Step: "pull_run tr p \<Longrightarrow> pull_step p ev p' \<Longrightarrow> pull_run (tr @ [ev]) p'"

inductive_cases pull_stepE: "pull_step p ev p'"

text \<open>What a trace says about a node: the jobs sent to it and the jobs it claimed.\<close>

definition sentTo :: "node_id \<Rightarrow> pull_event list \<Rightarrow> PendingJob list" where
  "sentTo n tr = concat (map (\<lambda>ev. case ev of EvSent k m j \<Rightarrow> if m = n then [j] else [] | _ \<Rightarrow> []) tr)"

definition claimedBy :: "node_id \<Rightarrow> pull_event list \<Rightarrow> PendingJob list" where
  "claimedBy n tr = concat (map (\<lambda>ev. case ev of EvClaim m (Some j) \<Rightarrow> if m = n then [j] else [] | _ \<Rightarrow> []) tr)"

definition queued :: "node_id \<Rightarrow> PullDispatcher \<Rightarrow> PendingJob list" where
  "queued n p = (case queues p n of None \<Rightarrow> [] | Some q \<Rightarrow> q)"

lemma sentTo_snoc: "sentTo n (tr @ [ev]) = sentTo n tr @ (case ev of EvSent k m j \<Rightarrow> if m = n then [j] else [] | _ \<Rightarrow> [])"
  by (simp add: sentTo_def)

lemma claimedBy_snoc:
  "claimedBy n (tr @ [ev]) = claimedBy n tr @ (case ev of EvClaim m (Some j) \<Rightarrow> if m = n then [j] else [] | _ \<Rightarrow> [])"
  by (simp add: claimedBy_def)

section \<open>Effects of the operations\<close>

lemma setPhase_frame [simp]: "queues (setPhase k ph p) = queues p" "waiters (setPhase k ph p) = waiters p"
  "slots (setPhase k ph p) = slots p" "nextTask (setPhase k ph p) = nextTask p"
  by (simp_all add: setPhase_def split: option.splits)

lemma setPhase_tasks: "tasks p k = Some t \<Longrightarrow> tasks (setPhase k ph p) = (tasks p)(k \<mapsto> t\<lparr> taskPhase := ph \<rparr>)"
  by (simp add: setPhase_def)

lemma queueFor_frame: "queueFor n p = (q, p1) \<Longrightarrow> q = queued n p \<and> waiters p1 = waiters p \<and> slots p1 = slots p \<and>
    tasks p1 = tasks p \<and> nextTask p1 = nextTask p \<and> (\<forall>m. queued m p1 = queued m p)"
  by (auto simp: queueFor_def queued_def split: option.splits if_splits)

lemma dispatchSend_cases:
  assumes "tasks p k = Some t" "dispatchSend c d k t p = p'"
  shows "waiters p' = waiters p" "slots p' = slots p" "nextTask p' = nextTask p"
    "\<exists>ph. tasks p' = (tasks p)(k \<mapsto> t\<lparr> taskPhase := ph \<rparr>) \<and>
       (ph = Waiting \<and> length (queued (taskNode t) p) < DefaultPullQueueDepth \<and>
          (\<forall>m. queued m p' = (if m = taskNode t then queued m p @ [taskJob t] else queued m p)) \<or>
        ph \<in> {Leaving CancelledBeforeSend, Leaving NodeQueueFull} \<and> (\<forall>m. queued m p' = queued m p))"
proof -
  obtain q p1 where q: "queueFor (taskNode t) p = (q, p1)" by (cases "queueFor (taskNode t) p")
  note f = queueFor_frame[OF q]
  have t1: "tasks p1 k = Some t" using f assms(1) by simp
  show "waiters p' = waiters p" "slots p' = slots p" "nextTask p' = nextTask p"
    using assms(2) f by (auto simp: dispatchSend_def q Let_def)
  show "\<exists>ph. tasks p' = (tasks p)(k \<mapsto> t\<lparr> taskPhase := ph \<rparr>) \<and>
       (ph = Waiting \<and> length (queued (taskNode t) p) < DefaultPullQueueDepth \<and>
          (\<forall>m. queued m p' = (if m = taskNode t then queued m p @ [taskJob t] else queued m p)) \<or>
        ph \<in> {Leaving CancelledBeforeSend, Leaving NodeQueueFull} \<and> (\<forall>m. queued m p' = queued m p))"
  proof (cases "length q < DefaultPullQueueDepth \<and> \<not> (c \<and> d)")
    case True
    then have "p' = setPhase k Waiting (p1\<lparr> queues := (queues p1)(taskNode t \<mapsto> q @ [taskJob t]) \<rparr>)"
      using assms(2) by (simp add: dispatchSend_def q)
    then show ?thesis using True f t1
      by (intro exI[of _ Waiting]) (auto simp: setPhase_tasks queued_def)
  next
    case False
    then have "p' = setPhase k (Leaving (if c then CancelledBeforeSend else NodeQueueFull)) p1"
      using assms(2) by (auto simp: dispatchSend_def q Let_def)
    then show ?thesis using f t1
      by (intro exI[of _ "Leaving (if c then CancelledBeforeSend else NodeQueueFull)"])
        (auto simp: setPhase_tasks queued_def)
  qed
qed

lemma Claim_cases: "Claim n p = (j, p') \<Longrightarrow> waiters p' = waiters p \<and> slots p' = slots p \<and> tasks p' = tasks p \<and>
    nextTask p' = nextTask p \<and> (\<forall>m. m \<noteq> n \<longrightarrow> queued m p' = queued m p) \<and>
    (case j of None \<Rightarrow> queued n p = [] \<and> queued n p' = [] | Some x \<Rightarrow> queued n p = x # queued n p')"
  by (auto simp: Claim_def queueFor_def queued_def split: option.splits list.splits)

lemma SubmitResult_cases: "SubmitResult j res p = (ok, p') \<Longrightarrow> queues p' = queues p \<and> waiters p' = waiters p \<and>
    tasks p' = tasks p \<and> nextTask p' = nextTask p \<and>
    (if ok then \<exists>k. waiters p j = Some k \<and> slots p k = None \<and> slots p' = (slots p)(k \<mapsto> res) else p' = p)"
  by (auto simp: SubmitResult_def split: option.splits)

section \<open>The invariant of a run\<close>

definition fifo_ok :: "pull_event list \<Rightarrow> PullDispatcher \<Rightarrow> bool" where
  "fifo_ok tr p \<longleftrightarrow> (\<forall>n. sentTo n tr = claimedBy n tr @ queued n p \<and> length (queued n p) \<le> DefaultPullQueueDepth)"

definition task_ok :: "pull_event list \<Rightarrow> nat \<Rightarrow> task \<Rightarrow> bool" where
  "task_ok tr k t \<longleftrightarrow>
     (\<exists>job. EvBegin k (taskNode t) job \<in> set tr \<and> SpecJobID job = PendingJobID (taskJob t)) \<and>
     (\<forall>r. taskPhase t \<in> {Leaving (Returned r), Finished (Returned r)} \<longrightarrow>
        EvSubmit (PendingJobID (taskJob t)) r (Some k) \<in> set tr)"

definition pull_ok :: "pull_event list \<Rightarrow> PullDispatcher \<Rightarrow> bool" where
  "pull_ok tr p \<longleftrightarrow>
     (\<forall>k t. tasks p k = Some t \<longrightarrow> k < nextTask p \<and> task_ok tr k t) \<and>
     (\<forall>j k. waiters p j = Some k \<longrightarrow> (\<exists>t. tasks p k = Some t \<and> PendingJobID (taskJob t) = j)) \<and>
     (\<forall>k r. slots p k = Some r \<longrightarrow>
        (\<exists>t. tasks p k = Some t \<and> EvSubmit (PendingJobID (taskJob t)) r (Some k) \<in> set tr)) \<and>
     (\<forall>k out. EvEnd k out \<in> set tr \<longrightarrow> (\<exists>t. tasks p k = Some t \<and> taskPhase t = Finished out)) \<and>
     (\<forall>j r k. EvSubmit j r (Some k) \<in> set tr \<longrightarrow> (\<exists>t. tasks p k = Some t \<and> PendingJobID (taskJob t) = j))"

lemma fifo_step: "fifo_ok tr p \<Longrightarrow> pull_step p ev p' \<Longrightarrow> fifo_ok (tr @ [ev]) p'"
proof (erule pull_stepE)
  fix n job messages k assume "fifo_ok tr p" "ev = EvBegin k n job" "dispatchRegister n job messages p = (k, p')"
  then show ?thesis by (auto simp: fifo_ok_def sentTo_snoc claimedBy_snoc dispatchRegister_def Let_def queued_def)
next
  fix k t c d t'
  assume a: "fifo_ok tr p" "ev = EvSent k (taskNode t) (taskJob t)" "tasks p k = Some t" "dispatchSend c d k t p = p'"
    "tasks p' k = Some t'" "taskPhase t' = Waiting"
  from dispatchSend_cases(4)[OF a(3,4)] a(5,6)
  have "length (queued (taskNode t) p) < DefaultPullQueueDepth \<and>
      (\<forall>m. queued m p' = (if m = taskNode t then queued m p @ [taskJob t] else queued m p))" by auto
  then show ?thesis using a(1,2) by (simp add: fifo_ok_def sentTo_snoc claimedBy_snoc)
next
  fix k t c d t'
  assume a: "fifo_ok tr p" "ev = EvNotSent k" "tasks p k = Some t" "dispatchSend c d k t p = p'"
    "tasks p' k = Some t'" "taskPhase t' \<noteq> Waiting"
  from dispatchSend_cases(4)[OF a(3,4)] a(5,6) have "\<forall>m. queued m p' = queued m p" by auto
  then show ?thesis using a(1,2) by (simp add: fifo_ok_def sentTo_snoc claimedBy_snoc)
next
  fix n j assume a: "fifo_ok tr p" "ev = EvClaim n j" "Claim n p = (j, p')"
  from Claim_cases[OF a(3)] a(1,2) show ?thesis
    by (auto simp: fifo_ok_def sentTo_snoc claimedBy_snoc split: option.splits if_splits)
      (metis append.right_neutral append_Cons append_Nil append_assoc length_Cons Suc_leD)+
next
  fix j res ok assume a: "fifo_ok tr p" "ev = EvSubmit j res (if ok then waiters p j else None)" "SubmitResult j res p = (ok, p')"
  from SubmitResult_cases[OF a(3)] a(1,2) show ?thesis
    by (simp add: fifo_ok_def sentTo_snoc claimedBy_snoc queued_def)
qed (auto simp: fifo_ok_def sentTo_snoc claimedBy_snoc queued_def dispatchReceive_def dispatchTimeout_def dispatchCleanup_def)

lemma fifo_run: "pull_run tr p \<Longrightarrow> fifo_ok tr p"
  by (induction rule: pull_run.induct)
    (auto simp: fifo_step, simp add: fifo_ok_def sentTo_def claimedBy_def queued_def NewPullDispatcher_def)

lemma task_ok_mono: "task_ok tr k t \<Longrightarrow> task_ok (tr @ [ev]) k t"
  by (auto simp: task_ok_def)

text \<open>A step that changes only the phase of one live task keeps the invariant.\<close>

lemma pull_ok_phase:
  assumes "pull_ok tr p" "tasks p k = Some t" "tasks p' = (tasks p)(k \<mapsto> t\<lparr> taskPhase := ph \<rparr>)"
    and "nextTask p' = nextTask p" "waiters p' \<subseteq>\<^sub>m waiters p" "slots p' \<subseteq>\<^sub>m slots p"
    and "\<forall>out. taskPhase t \<noteq> Finished out"
    and "\<forall>r. ph \<in> {Leaving (Returned r), Finished (Returned r)} \<longrightarrow>
      slots p k = Some r \<or> taskPhase t = Leaving (Returned r)"
    and "\<forall>k' out. ev = EvEnd k' out \<longrightarrow> k' = k \<and> ph = Finished out" "\<forall>j r k'. ev \<noteq> EvSubmit j r (Some k')"
  shows "pull_ok (tr @ [ev]) p'"
proof -
  have w: "waiters p' j = Some x \<Longrightarrow> waiters p j = Some x" and s: "slots p' y = Some r \<Longrightarrow> slots p y = Some r" for j x y r
    using assms(5,6) by (auto simp: map_le_def dom_def)
  have tk: "task_ok tr k t" "k < nextTask p" using assms(1,2) by (auto simp: pull_ok_def)
  have sub: "slots p k = Some r \<Longrightarrow> EvSubmit (PendingJobID (taskJob t)) r (Some k) \<in> set tr" for r
    using assms(1,2) by (fastforce simp: pull_ok_def)
  have "task_ok (tr @ [ev]) k (t\<lparr> taskPhase := ph \<rparr>)"
    using tk(1) sub assms(8) by (auto simp: task_ok_def)
  then have 1: "\<forall>x t. tasks p' x = Some t \<longrightarrow> x < nextTask p' \<and> task_ok (tr @ [ev]) x t"
    using assms(1,3,4) tk(2) task_ok_mono by (auto simp: pull_ok_def)
  have 2: "\<forall>j x. waiters p' j = Some x \<longrightarrow> (\<exists>t. tasks p' x = Some t \<and> PendingJobID (taskJob t) = j)"
    using assms(1,2,3) w by (fastforce simp: pull_ok_def)
  have 3: "\<forall>x r. slots p' x = Some r \<longrightarrow>
      (\<exists>t. tasks p' x = Some t \<and> EvSubmit (PendingJobID (taskJob t)) r (Some x) \<in> set (tr @ [ev]))"
    using assms(1,2,3) s by (fastforce simp: pull_ok_def)
  have 4: "\<forall>x out. EvEnd x out \<in> set (tr @ [ev]) \<longrightarrow> (\<exists>t. tasks p' x = Some t \<and> taskPhase t = Finished out)"
    using assms(1,2,3,7,9) by (fastforce simp: pull_ok_def)
  have 5: "\<forall>j r x. EvSubmit j r (Some x) \<in> set (tr @ [ev]) \<longrightarrow> (\<exists>t. tasks p' x = Some t \<and> PendingJobID (taskJob t) = j)"
    using assms(1,2,3,10) by (fastforce simp: pull_ok_def)
  show ?thesis unfolding pull_ok_def using 1 2 3 4 5 by blast
qed

lemma pull_ok_same:
  assumes "pull_ok tr p" "tasks p' = tasks p" "waiters p' = waiters p" "slots p' = slots p" "nextTask p' = nextTask p"
    and "\<forall>k out. ev \<noteq> EvEnd k out" "\<forall>j r k. ev \<noteq> EvSubmit j r (Some k)"
  shows "pull_ok (tr @ [ev]) p'"
  using assms(1,6,7) unfolding pull_ok_def assms(2-5) set_append set_simps Un_iff insert_iff empty_iff
  by (metis task_ok_mono)

lemma pull_ok_begin:
  assumes "pull_ok tr p" "dispatchRegister n job messages p = (k, p')"
  shows "pull_ok (tr @ [EvBegin k n job]) p'"
proof -
  have k: "k = nextTask p" and p': "waiters p' = (waiters p)(SpecJobID job \<mapsto> k)" "nextTask p' = Suc k" "slots p' = slots p"
    "tasks p' = (tasks p)(k \<mapsto> \<lparr> taskNode = n, taskJob = \<lparr> PendingJobID = SpecJobID job, PendingSpec = job,
       Messages = messages \<rparr>, taskPhase = Registered \<rparr>)"
    using assms(2) by (auto simp: dispatchRegister_def Let_def)
  have fresh: "tasks p k = None" using assms(1) k by (cases "tasks p k") (auto simp: pull_ok_def)
  have 1: "x < nextTask p' \<and> task_ok (tr @ [EvBegin k n job]) x t" if "tasks p' x = Some t" for x t
  proof (cases "x = k")
    case True
    then show ?thesis using that by (auto simp: p' k task_ok_def)
  next
    case False
    then have "tasks p x = Some t" using that by (simp add: p')
    then have "x < nextTask p" "task_ok tr x t" using assms(1) by (simp_all add: pull_ok_def)
    then show ?thesis using task_ok_mono by (simp add: p' k)
  qed
  have old: "\<exists>t. tasks p' x = Some t \<and> Q t" if "\<exists>t. tasks p x = Some t \<and> Q t" for x Q
    using that fresh by (auto simp: p')
  have 2: "\<exists>t. tasks p' x = Some t \<and> PendingJobID (taskJob t) = j" if "waiters p' j = Some x" for j x
  proof (cases "j = SpecJobID job")
    case True
    then show ?thesis using that by (simp add: p')
  next
    case False
    then have "waiters p j = Some x" using that by (simp add: p')
    then show ?thesis using assms(1) by (intro old) (simp add: pull_ok_def)
  qed
  have 3: "\<exists>t. tasks p' x = Some t \<and> EvSubmit (PendingJobID (taskJob t)) r (Some x) \<in> set (tr @ [EvBegin k n job])"
    if "slots p' x = Some r" for x r
    using that assms(1) by (intro old) (simp add: pull_ok_def p')
  have 4: "\<exists>t. tasks p' x = Some t \<and> taskPhase t = Finished out" if "EvEnd x out \<in> set (tr @ [EvBegin k n job])" for x out
    using that assms(1) by (intro old) (simp add: pull_ok_def)
  have 5: "\<exists>t. tasks p' x = Some t \<and> PendingJobID (taskJob t) = j"
    if "EvSubmit j r (Some x) \<in> set (tr @ [EvBegin k n job])" for j r x
    using that assms(1) by (intro old) (auto simp: pull_ok_def)
  show ?thesis unfolding pull_ok_def using 1 2 3 4 5 by blast
qed

lemma pull_ok_submit:
  assumes "pull_ok tr p" "waiters p j = Some k"
    and "tasks p' = tasks p" "waiters p' = waiters p" "slots p' = (slots p)(k \<mapsto> res)" "nextTask p' = nextTask p"
  shows "pull_ok (tr @ [EvSubmit j res (Some k)]) p'"
proof -
  let ?ev = "EvSubmit j res (Some k)"
  obtain t where t: "tasks p k = Some t" "PendingJobID (taskJob t) = j"
    using assms(1,2) by (auto simp: pull_ok_def) blast
  have 1: "\<forall>x t. tasks p x = Some t \<longrightarrow> x < nextTask p \<and> task_ok (tr @ [?ev]) x t"
    using assms(1) task_ok_mono by (auto simp: pull_ok_def)
  have 3: "\<forall>x r. slots p' x = Some r \<longrightarrow>
      (\<exists>t. tasks p x = Some t \<and> EvSubmit (PendingJobID (taskJob t)) r (Some x) \<in> set (tr @ [?ev]))"
  proof (intro allI impI)
    fix x r assume r: "slots p' x = Some r"
    show "\<exists>t. tasks p x = Some t \<and> EvSubmit (PendingJobID (taskJob t)) r (Some x) \<in> set (tr @ [?ev])"
    proof (cases "x = k")
      case True
      then show ?thesis using r t by (simp add: assms(5))
    next
      case False
      then have "slots p x = Some r" using r by (simp add: assms(5))
      then obtain u where "tasks p x = Some u" "EvSubmit (PendingJobID (taskJob u)) r (Some x) \<in> set tr"
        using assms(1) by (auto simp: pull_ok_def) blast
      then show ?thesis by auto
    qed
  qed
  show ?thesis using assms(1) 1 3 t unfolding pull_ok_def assms(3,4,6) by auto
qed

lemma pull_ok_step: "pull_ok tr p \<Longrightarrow> pull_step p ev p' \<Longrightarrow> pull_ok (tr @ [ev]) p'"
proof (erule pull_stepE)
  fix n job messages k assume a: "pull_ok tr p" "ev = EvBegin k n job" "dispatchRegister n job messages p = (k, p')"
  show ?thesis unfolding a(2) by (rule pull_ok_begin[OF a(1,3)])
next
  fix k t c d t' assume a: "pull_ok tr p" "ev = EvSent k (taskNode t) (taskJob t)" "tasks p k = Some t"
    "taskPhase t = Registered" "dispatchSend c d k t p = p'"
  note f = dispatchSend_cases[OF a(3,5)]
  from f(4) obtain ph where ph: "tasks p' = (tasks p)(k \<mapsto> t\<lparr> taskPhase := ph \<rparr>)"
    "ph \<in> {Waiting, Leaving CancelledBeforeSend, Leaving NodeQueueFull}" by blast
  show ?thesis by (rule pull_ok_phase[OF a(1,3) ph(1)]) (use f(1-3) ph(2) a(2,4) in auto)
next
  fix k t c d t' assume a: "pull_ok tr p" "ev = EvNotSent k" "tasks p k = Some t"
    "taskPhase t = Registered" "dispatchSend c d k t p = p'"
  note f = dispatchSend_cases[OF a(3,5)]
  from f(4) obtain ph where ph: "tasks p' = (tasks p)(k \<mapsto> t\<lparr> taskPhase := ph \<rparr>)"
    "ph \<in> {Waiting, Leaving CancelledBeforeSend, Leaving NodeQueueFull}" by blast
  show ?thesis by (rule pull_ok_phase[OF a(1,3) ph(1)]) (use f(1-3) ph(2) a(2,4) in auto)
next
  fix n j assume a: "pull_ok tr p" "ev = EvClaim n j" "Claim n p = (j, p')"
  show ?thesis by (rule pull_ok_same[OF a(1)]) (use Claim_cases[OF a(3)] a(2) in auto)
next
  fix j res ok assume a: "pull_ok tr p" "ev = EvSubmit j res (if ok then waiters p j else None)" "SubmitResult j res p = (ok, p')"
  note f = SubmitResult_cases[OF a(3)]
  show ?thesis
  proof (cases ok)
    case True
    then obtain k where k: "waiters p j = Some k" "slots p' = (slots p)(k \<mapsto> res)" using f by auto
    have ev: "ev = EvSubmit j res (Some k)" using a(2) True k(1) by simp
    show ?thesis unfolding ev by (rule pull_ok_submit[OF a(1) k(1) _ _ k(2)]) (use f in auto)
  next
    case False
    show ?thesis by (rule pull_ok_same[OF a(1)]) (use f a(2) False in auto)
  qed
next
  fix k t res assume a: "pull_ok tr p" "ev = EvReceive k res" "p' = dispatchReceive k res p" "tasks p k = Some t"
    "taskPhase t = Waiting" "slots p k = Some res"
  have t: "tasks p' = (tasks p)(k \<mapsto> t\<lparr> taskPhase := Leaving (Returned res) \<rparr>)"
    by (simp add: a(3,4) dispatchReceive_def setPhase_def)
  show ?thesis by (rule pull_ok_phase[OF a(1,4) t]) (use a in \<open>auto simp: map_le_def dispatchReceive_def\<close>)
next
  fix k t assume a: "pull_ok tr p" "ev = EvTimeout k" "p' = dispatchTimeout k p" "tasks p k = Some t" "taskPhase t = Waiting"
  have t: "tasks p' = (tasks p)(k \<mapsto> t\<lparr> taskPhase := Leaving NoResultBeforeDeadline \<rparr>)"
    by (simp add: a(3,4) dispatchTimeout_def setPhase_def)
  show ?thesis by (rule pull_ok_phase[OF a(1,4) t]) (use a in \<open>auto simp: map_le_def dispatchTimeout_def\<close>)
next
  fix k t out assume a: "pull_ok tr p" "ev = EvEnd k out" "p' = dispatchCleanup k t out p" "tasks p k = Some t"
    "taskPhase t = Leaving out"
  have t: "tasks p' = (tasks p)(k \<mapsto> t\<lparr> taskPhase := Finished out \<rparr>)"
    by (simp add: a(3,4) dispatchCleanup_def setPhase_def)
  show ?thesis by (rule pull_ok_phase[OF a(1,4) t]) (use a in \<open>auto simp: map_le_def dispatchCleanup_def\<close>)
qed

lemma pull_ok_run: "pull_run tr p \<Longrightarrow> pull_ok tr p"
  by (induction rule: pull_run.induct) (auto simp: pull_ok_step, simp add: pull_ok_def NewPullDispatcher_def)

lemma pull_snoc: "pull_run tr p \<Longrightarrow> pull_step p ev p' \<Longrightarrow> pull_run (tr @ [ev]) p'"
  by (rule pull_run.Step)

text \<open>A task that is leaving ends with one step, a waiting one with two, a registered one with three.\<close>

lemma end_from_leaving:
  assumes "pull_run tr p" "tasks p k = Some t" "taskPhase t = Leaving out"
  shows "pull_run (tr @ [EvEnd k out]) (dispatchCleanup k t out p)"
  using pull_run.Step[OF assms(1) pull_step.End[OF assms(2,3)]] .

lemma end_from_waiting:
  assumes "pull_run tr p" "tasks p k = Some t" "taskPhase t = Waiting"
  shows "\<exists>p'. pull_run (tr @ [EvTimeout k, EvEnd k NoResultBeforeDeadline]) p'"
proof -
  from pull_run.Step[OF assms(1) pull_step.Timeout[OF assms(2,3)]]
  have r: "pull_run (tr @ [EvTimeout k]) (dispatchTimeout k p)" .
  have "tasks (dispatchTimeout k p) k = Some (t\<lparr> taskPhase := Leaving NoResultBeforeDeadline \<rparr>)"
    using assms(2) by (simp add: dispatchTimeout_def setPhase_def)
  from end_from_leaving[OF r this] show ?thesis by auto
qed

lemma end_from_registered:
  assumes "pull_run tr p" "tasks p k = Some t" "taskPhase t = Registered"
  shows "\<exists>out p'. pull_run (tr @ [EvNotSent k, EvEnd k out]) p'"
proof -
  let ?p = "dispatchSend True True k t p"
  obtain jobs p1 where qf: "queueFor (taskNode t) p = (jobs, p1)" by (cases "queueFor (taskNode t) p")
  have "tasks p1 k = Some t" using queueFor_frame[OF qf] assms(2) by simp
  then have q: "tasks ?p k = Some (t\<lparr> taskPhase := Leaving CancelledBeforeSend \<rparr>)"
    by (simp add: dispatchSend_def qf setPhase_def)
  from pull_run.Step[OF assms(1) pull_step.NotSent[OF assms(2,3) refl q]]
  have "pull_run (tr @ [EvNotSent k]) ?p" by simp
  from end_from_leaving[OF this q] show ?thesis by auto
qed

section \<open>Properties\<close>

text \<open>
  C16. The mailbox loses and invents nothing: for every node the jobs sent to it are those it
  claimed followed by those still queued, in this order, and never more than sixteen wait.
\<close>

theorem pull_queue_fifo:
  assumes "pull_run tr p"
  shows "sentTo n tr = claimedBy n tr @ queued n p \<and> length (queued n p) \<le> DefaultPullQueueDepth"
  using fifo_run[OF assms] by (simp add: fifo_ok_def)

definition demoSpec :: JobSpec where
  "demoSpec = emptyJob\<lparr> SpecJobID := ''j'' \<rparr>"

definition demoPending :: PendingJob where
  "demoPending = \<lparr> PendingJobID = ''j'', PendingSpec = demoSpec, Messages = [] \<rparr>"

text \<open>One task that registers and sends its job.\<close>

lemma run_begin_send:
  assumes "pull_run tr p" "k = nextTask p" "length (queued n p) < DefaultPullQueueDepth"
    and "x = \<lparr> PendingJobID = SpecJobID job, PendingSpec = job, Messages = messages \<rparr>"
  shows "\<exists>p'. pull_run (tr @ [EvBegin k n job, EvSent k n x]) p' \<and> nextTask p' = Suc k \<and>
      waiters p' = (waiters p)(SpecJobID job \<mapsto> k) \<and> slots p' = slots p \<and>
      tasks p' = (tasks p)(k \<mapsto> \<lparr> taskNode = n, taskJob = x, taskPhase = Waiting \<rparr>) \<and>
      (\<forall>m. queued m p' = (if m = n then queued m p @ [x] else queued m p))"
proof -
  let ?t = "\<lparr> taskNode = n, taskJob = x, taskPhase = Registered \<rparr>"
  obtain p1 where p1: "dispatchRegister n job messages p = (k, p1)"
    "tasks p1 = (tasks p)(k \<mapsto> ?t)" "waiters p1 = (waiters p)(SpecJobID job \<mapsto> k)" "nextTask p1 = Suc k"
    "slots p1 = slots p" "\<forall>m. queued m p1 = queued m p"
    using assms(2,4) by (simp add: dispatchRegister_def Let_def queued_def)
  have r1: "pull_run (tr @ [EvBegin k n job]) p1" by (rule pull_run.Step[OF assms(1) pull_step.Begin[OF p1(1)]])
  have t1: "tasks p1 k = Some ?t" by (simp add: p1(2))
  let ?p2 = "dispatchSend False False k ?t p1"
  obtain q p1' where q: "queueFor n p1 = (q, p1')" by (cases "queueFor n p1")
  have l: "length q < DefaultPullQueueDepth" "tasks p1' k = Some ?t"
    using queueFor_frame[OF q] assms(3) p1(6) t1 by simp_all
  then have t2: "tasks ?p2 k = Some (?t\<lparr> taskPhase := Waiting \<rparr>)"
    by (simp add: dispatchSend_def q setPhase_def)
  have "pull_step p1 (EvSent k n x) ?p2" using pull_step.Sent[OF t1 _ refl t2] by simp
  from pull_run.Step[OF r1 this] have r2: "pull_run (tr @ [EvBegin k n job, EvSent k n x]) ?p2" by simp
  note f = dispatchSend_cases[OF t1 refl, of False False]
  from f(4) obtain ph where ph: "tasks ?p2 = (tasks p1)(k \<mapsto> ?t\<lparr> taskPhase := ph \<rparr>)"
    "ph = Waiting \<longrightarrow> (\<forall>m. queued m ?p2 = (if m = taskNode ?t then queued m p1 @ [taskJob ?t] else queued m p1))" by blast
  have w: "ph = Waiting" using ph(1) t2 by simp
  have "tasks ?p2 = (tasks p)(k \<mapsto> \<lparr> taskNode = n, taskJob = x, taskPhase = Waiting \<rparr>)"
    using ph(1) by (simp add: w p1(2))
  moreover have "\<forall>m. queued m ?p2 = (if m = n then queued m p @ [x] else queued m p)"
    using ph(2) p1(6) by (simp add: w)
  moreover have "nextTask ?p2 = Suc k" "waiters ?p2 = (waiters p)(SpecJobID job \<mapsto> k)" "slots ?p2 = slots p"
    using f(1-3) p1(3-5) by simp_all
  ultimately show ?thesis using r2 by (intro exI[of _ ?p2] conjI) assumption+
qed

lemma late_run:
  assumes "a \<noteq> b"
  shows "\<exists>tr p. pull_run tr p \<and> EvBegin 0 a job \<in> set tr \<and> EvSubmit (SpecJobID job) r (Some 1) \<in> set tr \<and> EvEnd 0 NoResultBeforeDeadline \<in> set tr \<and>
     EvBegin 1 b job \<in> set tr \<and> EvEnd 1 (Returned r) \<in> set tr \<and>
     claimedBy b tr = [] \<and> map PendingJobID (queued b p) = [SpecJobID job]"
proof -
  define x where "x = \<lparr> PendingJobID = SpecJobID job, PendingSpec = job, Messages = [] \<rparr>"
  let ?ta = "\<lparr> taskNode = a, taskJob = x, taskPhase = Waiting \<rparr>"
  let ?tb = "\<lparr> taskNode = b, taskJob = x, taskPhase = Waiting \<rparr>"
  have "nextTask NewPullDispatcher = 0" "queued m NewPullDispatcher = []" "slots NewPullDispatcher = Map.empty" for m
    by (simp_all add: NewPullDispatcher_def queued_def)
  then obtain p1 where p1: "pull_run [EvBegin 0 a job, EvSent 0 a x] p1" "nextTask p1 = 1" "slots p1 = Map.empty"
    "tasks p1 0 = Some ?ta" "\<forall>m. queued m p1 = (if m = a then [x] else [])"
    using run_begin_send[OF pull_run.Start refl _ x_def, of a] by (auto simp: DefaultPullQueueDepth_def)
  let ?p2 = "dispatchTimeout 0 p1"
  let ?tl = "?ta\<lparr> taskPhase := Leaving NoResultBeforeDeadline \<rparr>"
  have r2: "pull_run [EvBegin 0 a job, EvSent 0 a x, EvTimeout 0] ?p2"
    using pull_run.Step[OF p1(1) pull_step.Timeout[OF p1(4)]] by simp
  have t2: "tasks ?p2 0 = Some ?tl" "nextTask ?p2 = 1" "slots ?p2 = Map.empty" "queues ?p2 = queues p1"
    using p1 by (simp_all add: dispatchTimeout_def setPhase_def)
  let ?p3 = "dispatchCleanup 0 ?tl NoResultBeforeDeadline ?p2"
  have r3: "pull_run [EvBegin 0 a job, EvSent 0 a x, EvTimeout 0, EvEnd 0 NoResultBeforeDeadline] ?p3"
    using end_from_leaving[OF r2 t2(1)] by simp
  have f3: "nextTask ?p3 = 1" "slots ?p3 = Map.empty" "queued m ?p3 = queued m p1" for m
    using t2 by (simp_all add: dispatchCleanup_def queued_def)
  obtain p4 where p4: "pull_run [EvBegin 0 a job, EvSent 0 a x, EvTimeout 0, EvEnd 0 NoResultBeforeDeadline,
      EvBegin 1 b job, EvSent 1 b x] p4" "waiters p4 (SpecJobID job) = Some 1" "slots p4 = Map.empty"
    "tasks p4 1 = Some ?tb" "queued b p4 = [x]"
    using run_begin_send[OF r3 f3(1)[symmetric] _ x_def, of b] f3 p1(5) assms
    by (auto simp: DefaultPullQueueDepth_def)
  let ?p5 = "p4\<lparr> slots := [1 \<mapsto> r] \<rparr>"
  have "SubmitResult (SpecJobID job) r p4 = (True, ?p5)" by (simp add: SubmitResult_def p4(2,3))
  from pull_run.Step[OF p4(1) pull_step.Submitted[OF this]]
  have r5: "pull_run [EvBegin 0 a job, EvSent 0 a x, EvTimeout 0, EvEnd 0 NoResultBeforeDeadline,
      EvBegin 1 b job, EvSent 1 b x, EvSubmit (SpecJobID job) r (Some 1)] ?p5" by (simp add: p4(2))
  let ?p6 = "dispatchReceive 1 r ?p5"
  have r6: "pull_run [EvBegin 0 a job, EvSent 0 a x, EvTimeout 0, EvEnd 0 NoResultBeforeDeadline,
      EvBegin 1 b job, EvSent 1 b x, EvSubmit (SpecJobID job) r (Some 1), EvReceive 1 r] ?p6"
    using pull_run.Step[OF r5 pull_step.Receive[of _ 1 ?tb r]] p4(4) by simp
  have t6: "tasks ?p6 1 = Some (?tb\<lparr> taskPhase := Leaving (Returned r) \<rparr>)" "queues ?p6 = queues p4"
    using p4(4) by (simp_all add: dispatchReceive_def setPhase_def)
  from end_from_leaving[OF r6 t6(1)]
  have r7: "pull_run [EvBegin 0 a job, EvSent 0 a x, EvTimeout 0, EvEnd 0 NoResultBeforeDeadline,
      EvBegin 1 b job, EvSent 1 b x, EvSubmit (SpecJobID job) r (Some 1), EvReceive 1 r, EvEnd 1 (Returned r)]
      (dispatchCleanup 1 (?tb\<lparr> taskPhase := Leaving (Returned r) \<rparr>) (Returned r) ?p6)" (is "pull_run ?tr ?p7") by simp
  have "queued b ?p7 = [x]" using p4(5) t6(2) by (simp add: dispatchCleanup_def queued_def)
  then show ?thesis using r7 by (intro exI[of _ ?tr] exI[of _ ?p7]) (simp add: claimedBy_def x_def)
qed

lemma demo_run:
  "\<exists>p. pull_run [EvBegin 0 ''n'' demoSpec, EvSent 0 ''n'' demoPending] p \<and>
     tasks p 0 = Some \<lparr> taskNode = ''n'', taskJob = demoPending, taskPhase = Waiting \<rparr>"
proof -
  have "demoPending = \<lparr> PendingJobID = SpecJobID demoSpec, PendingSpec = demoSpec, Messages = [] \<rparr>"
    by (simp add: demoPending_def demoSpec_def emptyJob_def)
  moreover have "0 = nextTask NewPullDispatcher" "length (queued ''n'' NewPullDispatcher) < DefaultPullQueueDepth"
    by (simp_all add: NewPullDispatcher_def queued_def DefaultPullQueueDepth_def)
  ultimately obtain p where "pull_run ([] @ [EvBegin 0 ''n'' demoSpec, EvSent 0 ''n'' demoPending]) p"
    "tasks p = (tasks NewPullDispatcher)(0 \<mapsto> \<lparr> taskNode = ''n'', taskJob = demoPending, taskPhase = Waiting \<rparr>)"
    using run_begin_send[OF pull_run.Start] by blast
  then show ?thesis by (intro exI[of _ p]) simp
qed

theorem pull_queue_fifo_witness:
  "\<exists>tr p. pull_run tr p \<and> sentTo ''n'' tr = [demoPending] \<and> claimedBy ''n'' tr @ queued ''n'' p = [demoPending]"
proof -
  obtain p where p: "pull_run [EvBegin 0 ''n'' demoSpec, EvSent 0 ''n'' demoPending] p" using demo_run by blast
  from pull_queue_fifo[OF p, of "''n''"] p show ?thesis
    by (intro exI[of _ "[EvBegin 0 ''n'' demoSpec, EvSent 0 ''n'' demoPending]"] exI[of _ p]) (simp add: sentTo_def)
qed

text \<open>
  C17. A dispatch returns only what was submitted for its job: when a call returns a result,
  that result was submitted under the id of the job the call was started with and accepted
  by the call's own channel; and a call ends with one outcome only.
\<close>

theorem pull_results_match_dispatch:
  assumes "pull_run tr p" and "EvEnd k (Returned r) \<in> set tr"
  shows "(\<exists>n job. EvBegin k n job \<in> set tr \<and> EvSubmit (SpecJobID job) r (Some k) \<in> set tr) \<and>
         (\<forall>out. EvEnd k out \<in> set tr \<longrightarrow> out = Returned r)"
proof -
  have ok: "pull_ok tr p" by (rule pull_ok_run[OF assms(1)])
  from ok obtain t where t: "tasks p k = Some t" "taskPhase t = Finished (Returned r)"
    using assms(2) unfolding pull_ok_def by blast
  then have "task_ok tr k t" using ok by (simp add: pull_ok_def)
  then have "\<exists>n job. EvBegin k n job \<in> set tr \<and> EvSubmit (SpecJobID job) r (Some k) \<in> set tr"
    using t(2) unfolding task_ok_def by (metis insertCI)
  moreover have "out = Returned r" if "EvEnd k out \<in> set tr" for out
    using ok t that by (fastforce simp: pull_ok_def)
  ultimately show ?thesis by blast
qed

theorem pull_results_match_dispatch_witness:
  "\<exists>tr p k r. pull_run tr p \<and> EvEnd k (Returned r) \<in> set tr \<and>
     (\<exists>n job. EvBegin k n job \<in> set tr \<and> EvSubmit (SpecJobID job) r (Some k) \<in> set tr)"
proof -
  let ?r = "\<lparr> Result = None, Err = None \<rparr>"
  obtain tr p where t: "pull_run tr p" "EvEnd 1 (Returned ?r) \<in> set tr"
    using late_run[of "''a''" "''b''" demoSpec ?r] by blast
  from pull_results_match_dispatch[OF t] t show ?thesis by blast
qed



text \<open>
  A late result completes the next attempt: after a call for node \<open>a\<close> has timed out and
  the job has been sent to node \<open>b\<close> under the same id, a result submitted for that id ends
  \<open>b\<close>'s call successfully although \<open>b\<close> never claimed the job, which stays in its queue.
\<close>

theorem late_result_completes_next_attempt:
  assumes "a \<noteq> b"
  shows "\<exists>tr p. pull_run tr p \<and> EvBegin 0 a job \<in> set tr \<and> EvEnd 0 NoResultBeforeDeadline \<in> set tr \<and>
     EvBegin 1 b job \<in> set tr \<and> EvEnd 1 (Returned r) \<in> set tr \<and>
     claimedBy b tr = [] \<and> map PendingJobID (queued b p) = [SpecJobID job]"
  using late_run[OF assms, of job r] by (elim exE conjE, intro exI conjI) assumption+

theorem late_result_completes_next_attempt_witness:
  "\<exists>tr p. pull_run tr p \<and> EvEnd 1 (Returned \<lparr> Result = None, Err = None \<rparr>) \<in> set tr \<and> claimedBy ''b'' tr = []"
  using late_result_completes_next_attempt[of "''a''" "''b''" demoSpec "\<lparr> Result = None, Err = None \<rparr>"] by auto

end
