(* ===== verification/TicketStore.thy ===== *)
theory TicketStore
  imports Prelude
begin

text \<open>
  The contract of a store of one-shot tickets with an expiry, which three components of the
  coordinator share: node reservations, wallet challenges and admin login challenges. A
  ticket is issued under a fresh key with a payload and can be redeemed once, before it
  expires. The locale derives from the laws of one issue and one redemption what holds
  over any sequence of them.
\<close>

datatype ('t, 'c) ticket_event = Issue 't string time | Redeem 'c string time

fun eventKey :: "('t, 'c) ticket_event \<Rightarrow> string" where
  "eventKey (Issue t k now) = k"
| "eventKey (Redeem c k now) = k"

fun eventTime :: "('t, 'c) ticket_event \<Rightarrow> time" where
  "eventTime (Issue t k now) = now"
| "eventTime (Redeem c k now) = now"

text \<open>\<open>lapsed\<close> is the test of the eviction loops, \<open>now.After(expiry)\<close>.\<close>

definition lapsed :: "time \<Rightarrow> 't \<times> time \<Rightarrow> bool" where
  "lapsed now v \<longleftrightarrow> snd v < now"

locale ticket_store =
  fixes live :: "'s \<Rightarrow> string \<Rightarrow> ('t \<times> time) option"
    and ttl :: duration
    and issue :: "'t \<Rightarrow> string \<Rightarrow> time \<Rightarrow> 's \<Rightarrow> 's"
    and redeem :: "'c \<Rightarrow> string \<Rightarrow> time \<Rightarrow> 's \<Rightarrow> 't option \<times> 's"
    and fresh :: 's
  assumes live_fresh: "live fresh = Map.empty"
    and live_issue: "live (issue t k now s) = (evict (\<lambda>_. lapsed now) (live s))(k \<mapsto> (t, now + ttl))"
    and redeem_take: "redeem c k now s = (Some t, s') \<Longrightarrow>
          (\<exists>e. live s k = Some (t, e) \<and> now \<le> e) \<and>
          (live s' = (live s)(k := None) \<or> live s' = evict (\<lambda>_. lapsed now) ((live s)(k := None)))"
    and redeem_keep: "redeem c k now s = (None, s') \<Longrightarrow> live s' = live s \<or> live s' = (live s)(k := None)"
begin

definition step :: "('t, 'c) ticket_event \<Rightarrow> 's \<Rightarrow> 's" where
  "step ev s = (case ev of Issue t k now \<Rightarrow> issue t k now s | Redeem c k now \<Rightarrow> snd (redeem c k now s))"

definition run :: "('t, 'c) ticket_event list \<Rightarrow> 's" where
  "run evs = fold step evs fresh"

lemma run_snoc: "run (evs @ [ev]) = step ev (run evs)"
  by (simp add: run_def)

lemma run_Nil: "run [] = fresh"
  by (simp add: run_def)

lemma run_issue: "run [Issue t k now] = issue t k now fresh"
  by (simp add: run_def step_def)

lemma step_redeem: "live (step (Redeem c k now) s) = live s \<or> live (step (Redeem c k now) s) = (live s)(k := None) \<or>
    live (step (Redeem c k now) s) = evict (\<lambda>_. lapsed now) ((live s)(k := None))"
proof (cases "redeem c k now s")
  case (Pair r s')
  then show ?thesis using redeem_take[of c k now s] redeem_keep[of c k now s]
    by (cases r) (auto simp: step_def)
qed

text \<open>A live ticket was issued, is dated from then, and nothing happened to its key since.\<close>

lemma live_issued:
  assumes "live (run evs) k = Some (t, e)"
  shows "\<exists>pre now post. evs = pre @ Issue t k now # post \<and> e = now + ttl \<and> (\<forall>ev \<in> set post. eventKey ev \<noteq> k
    \<or> (\<exists>c tau. ev = Redeem c k tau))"
  using assms
proof (induction evs rule: rev_induct)
  case Nil
  then show ?case by (simp add: run_def live_fresh)
next
  case (snoc ev evs)
  have keep: ?case if l: "live (run evs) k = Some (t, e)" and k: "eventKey ev \<noteq> k \<or> (\<exists>c tau. ev = Redeem c k tau)"
  proof -
    from snoc.IH[OF l] obtain pre now post where "evs = pre @ Issue t k now # post" "e = now + ttl"
      "\<forall>x \<in> set post. eventKey x \<noteq> k \<or> (\<exists>c tau. x = Redeem c k tau)" by blast
    then show ?thesis using k by (intro exI[of _ pre] exI[of _ now] exI[of _ "post @ [ev]"]) auto
  qed
  show ?case
  proof (cases ev)
    case (Issue u k' now)
    have l: "((evict (\<lambda>_. lapsed now) (live (run evs)))(k' \<mapsto> (u, now + ttl))) k = Some (t, e)"
      using snoc.prems by (simp add: run_snoc step_def Issue live_issue)
    show ?thesis
    proof (cases "k = k'")
      case True
      then show ?thesis using l Issue by (intro exI[of _ evs] exI[of _ now] exI[of _ "[]"]) auto
    next
      case False
      then show ?thesis using l Issue by (intro keep) auto
    qed
  next
    case (Redeem c k' now)
    have "live (run (evs @ [ev])) = live (run evs) \<or> live (run (evs @ [ev])) = (live (run evs))(k' := None) \<or>
        live (run (evs @ [ev])) = evict (\<lambda>_. lapsed now) ((live (run evs))(k' := None))"
      using step_redeem[of c k' now "run evs"] by (simp add: run_snoc Redeem)
    then have l: "live (run evs) k = Some (t, e)" using snoc.prems by (auto split: if_splits)
    show ?thesis using Redeem by (intro keep[OF l]) (cases "k' = k"; simp)
  qed
qed

text \<open>
  A successful redemption: the key was issued with this payload at most the lifetime ago,
  it has not been issued again, and no redemption of it succeeded since.
\<close>

theorem redeem_sound:
  assumes "redeem c k now (run evs) = (Some t, s')"
  shows "\<exists>pre tau post. evs = pre @ Issue t k tau # post \<and> now \<le> tau + ttl \<and>
     (\<forall>u tau'. Issue u k tau' \<notin> set post) \<and>
     (\<forall>i < length post. \<forall>c' tau'. post ! i = Redeem c' k tau' \<longrightarrow>
        fst (redeem c' k tau' (run (pre @ Issue t k tau # take i post))) = None)"
proof -
  from redeem_take[OF assms] obtain e where e: "live (run evs) k = Some (t, e)" "now \<le> e" by blast
  from live_issued[OF e(1)] obtain pre tau post where p: "evs = pre @ Issue t k tau # post" "e = tau + ttl"
    and only: "\<forall>ev \<in> set post. eventKey ev \<noteq> k \<or> (\<exists>c tau. ev = Redeem c k tau)" by blast
  have dead: "live (run (xs @ ys)) k = None" if "live (run xs) k = None"
    "\<forall>ev \<in> set ys. eventKey ev \<noteq> k \<or> (\<exists>c tau. ev = Redeem c k tau)" for xs ys
    using that
  proof (induction ys rule: rev_induct)
    case (snoc y ys)
    then have n: "live (run (xs @ ys)) k = None" by simp
    show ?case
    proof (cases y)
      case (Issue u k' now)
      then have "k' \<noteq> k" using snoc.prems(2) by auto
      then show ?thesis using n evict_None[of "live (run (xs @ ys))" k]
        by (simp add: Issue run_snoc[of "xs @ ys", simplified] step_def live_issue)
    next
      case (Redeem c k' now)
      then show ?thesis using n step_redeem[of c k' now "run (xs @ ys)"]
        by (auto simp: run_snoc[of "xs @ ys", simplified] evict_def)
    qed
  qed simp
  have "fst (redeem c' k tau' (run (pre @ Issue t k tau # take i post))) = None"
    if i: "i < length post" "post ! i = Redeem c' k tau'" for i c' tau'
  proof (rule ccontr)
    assume "fst (redeem c' k tau' (run (pre @ Issue t k tau # take i post))) \<noteq> None"
    then obtain u s2 where r: "redeem c' k tau' (run (pre @ Issue t k tau # take i post)) = (Some u, s2)"
      by (cases "redeem c' k tau' (run (pre @ Issue t k tau # take i post))") auto
    let ?xs = "pre @ Issue t k tau # take (Suc i) post"
    have "?xs = (pre @ Issue t k tau # take i post) @ [Redeem c' k tau']"
      using i by (simp add: take_Suc_conv_app_nth)
    then have "live (run ?xs) k = None"
      using redeem_take[OF r] by (simp only: run_snoc) (auto simp: step_def r evict_def)
    moreover have "\<forall>ev \<in> set (drop (Suc i) post). eventKey ev \<noteq> k \<or> (\<exists>c tau. ev = Redeem c k tau)"
      using only by (meson in_set_dropD)
    ultimately have "live (run (?xs @ drop (Suc i) post)) k = None" by (rule dead)
    then show False using e(1) p(1) by simp
  qed
  moreover have "Issue u k tau' \<notin> set post" for u tau' using only by fastforce
  ultimately show ?thesis using p e(2) by (intro exI[of _ pre] exI[of _ tau] exI[of _ post]) blast
qed

text \<open>A redeemed key is gone; a key that was never issued, or whose last issue is too old, is never redeemed.\<close>

lemma redeem_consumes:
  assumes "redeem c k now s = (Some t, s')"
  shows "live s' k = None"
  using redeem_take[OF assms] by (auto simp: evict_def)

lemma redeem_unknown:
  assumes "\<forall>t tau. Issue t k tau \<in> set evs \<longrightarrow> tau + ttl < now"
  shows "fst (redeem c k now (run evs)) = None"
proof (rule ccontr)
  assume "fst (redeem c k now (run evs)) \<noteq> None"
  then obtain t s' where "redeem c k now (run evs) = (Some t, s')" by (cases "redeem c k now (run evs)") auto
  from redeem_sound[OF this] assms show False by fastforce
qed

end

text \<open>
  A store that also honours its tickets: a credential that is accepted for a live ticket
  redeems it. With a clock that does not run backwards every ticket can be used until it
  expires.
\<close>

locale honest_ticket_store = ticket_store live ttl issue redeem fresh
  for live :: "'s \<Rightarrow> string \<Rightarrow> ('t \<times> time) option" and ttl issue
    and redeem :: "'c \<Rightarrow> string \<Rightarrow> time \<Rightarrow> 's \<Rightarrow> 't option \<times> 's" and fresh +
  fixes accepts :: "'c \<Rightarrow> string \<Rightarrow> 't \<Rightarrow> bool"
  assumes redeem_live: "live s k = Some (t, e) \<Longrightarrow> now \<le> e \<Longrightarrow> accepts c k t \<Longrightarrow> fst (redeem c k now s) = Some t"
begin

lemma live_stays:
  assumes "live (run xs) k = Some (t, e)"
    and "\<forall>ev \<in> set ys. eventKey ev \<noteq> k \<and> eventTime ev \<le> e"
  shows "live (run (xs @ ys)) k = Some (t, e)"
  using assms(2)
proof (induction ys rule: rev_induct)
  case Nil
  then show ?case using assms(1) by simp
next
  case (snoc y ys)
  then have l: "live (run (xs @ ys)) k = Some (t, e)" by simp
  show ?case
  proof (cases y)
    case (Issue u k' now)
    then have "k' \<noteq> k" using snoc.prems by simp
    then show ?thesis using l snoc.prems
      by (simp add: Issue run_snoc[of "xs @ ys", simplified] step_def live_issue lapsed_def not_less)
  next
    case (Redeem c k' now)
    then show ?thesis using l snoc.prems step_redeem[of c k' now "run (xs @ ys)"]
      by (auto simp: run_snoc[of "xs @ ys", simplified] lapsed_def)
  qed
qed

theorem redeem_complete:
  assumes "\<forall>ev \<in> set post. eventKey ev \<noteq> k \<and> eventTime ev \<le> now" and "now \<le> tau + ttl" and "accepts c k t"
  shows "fst (redeem c k now (run (pre @ Issue t k tau # post))) = Some t"
proof -
  have "live (run (pre @ [Issue t k tau])) k = Some (t, tau + ttl)"
    by (simp add: run_snoc step_def live_issue)
  moreover have "\<forall>ev \<in> set post. eventKey ev \<noteq> k \<and> eventTime ev \<le> tau + ttl" using assms(1,2) by fastforce
  ultimately have "live (run ((pre @ [Issue t k tau]) @ post)) k = Some (t, tau + ttl)" by (rule live_stays)
  then show ?thesis using redeem_live[of _ k t _ now c] assms(2,3) by simp
qed

end

end
