(* ===== verification/Registry.thy ===== *)
theory Registry
  imports Protocol
begin

text \<open>
  The coordinator's scoreboard of nodes, \<open>internal/coordinator/registry.go\<close>, with the
  signature gates of \<open>authn.go\<close> and \<open>attestation.go\<close> and the store of submitted
  measurements. The registry is a map from node ids to entries; every method gets the time
  at which it runs, and a method that ranges over the map gets the order \<open>ks\<close> in which its
  keys are visited. The in-flight counters are 32-bit integers that wrap.
\<close>

section \<open>State\<close>

record nodeEntry =
  manifest :: CapabilityManifest
  publicKey :: bytes
  lastSeen :: time
  unreachable :: bool
  inFlight :: int
  lastJobServedAt :: "time option"
  registeredAt :: time
  enclaveAttested :: bool
  enclavePublicKey :: bytes
  observedTPS :: "f64 option"
  observedSamples :: int

type_synonym registry = "node_id \<rightharpoonup> nodeEntry"

definition livenessTTL :: duration where "livenessTTL = 45 * second"
definition evictionTTL :: duration where "evictionTTL = 5 * minute"
definition throughputEMAAlpha :: rat where "throughputEMAAlpha = 3 / 10"

definition wrap32 :: "int \<Rightarrow> int" where "wrap32 n = signed_take_bit 31 n"

definition NewNodeRegistry :: registry where "NewNodeRegistry = Map.empty"

section \<open>Liveness and upkeep\<close>

definition isLive :: "time \<Rightarrow> nodeEntry \<Rightarrow> bool" where
  "isLive now e \<longleftrightarrow> now - lastSeen e < livenessTTL \<and> \<not> unreachable e"

definition IsPullNode :: "node_id \<Rightarrow> registry \<Rightarrow> bool" where
  "IsPullNode nodeID r = (case r nodeID of None \<Rightarrow> False | Some e \<Rightarrow> PullDelivery (manifest e))"

text \<open>One tick of the eviction loop.\<close>

definition runEviction :: "time \<Rightarrow> registry \<Rightarrow> registry" where
  "runEviction now r = evict (\<lambda>nid e. now - lastSeen e > evictionTTL) r"

text \<open>The constants \<open>1-throughputEMAAlpha\<close> and \<open>throughputEMAAlpha\<close> become doubles when they
  meet a variable.\<close>

definition RecordObservedThroughput :: "node_id \<Rightarrow> f64 \<Rightarrow> registry \<Rightarrow> registry" where
  "RecordObservedThroughput nodeID tokensPerSec r = (case r nodeID of
       None \<Rightarrow> r
     | Some e \<Rightarrow>
         if tokensPerSec \<le> 0 then r
         else let v = (case observedTPS e of
                    None \<Rightarrow> tokensPerSec
                  | Some old \<Rightarrow> fadd (fmul old (fl (1 - throughputEMAAlpha)))
                                     (fmul tokensPerSec (fl throughputEMAAlpha)))
              in r(nodeID \<mapsto> e\<lparr> observedTPS := Some v, observedSamples := observedSamples e + 1 \<rparr>))"

datatype register_error = NodeIDMismatch | SerializeManifest

definition freshEntry :: "NodeRegistration \<Rightarrow> time \<Rightarrow> nodeEntry" where
  "freshEntry reg now = \<lparr> manifest = RegManifest reg, publicKey = RegPublicKey reg, lastSeen = now,
     unreachable = False, inFlight = 0, lastJobServedAt = None, registeredAt = now,
     enclaveAttested = False, enclavePublicKey = [], observedTPS = None, observedSamples = 0 \<rparr>"

definition Register :: "crypto \<Rightarrow> NodeRegistration \<Rightarrow> time \<Rightarrow> registry \<Rightarrow>
    (register_error + bool) \<times> registry" where
  "Register C reg now r =
     (let expectedID = NodeIDFromPubKey C (RegPublicKey reg)
      in if expectedID \<noteq> NodeID (RegManifest reg) then (Inl NodeIDMismatch, r)
         else case marshalManifest C (RegManifest reg) of
             None \<Rightarrow> (Inl SerializeManifest, r)
           | Some payload \<Rightarrow>
               if \<not> VerifySignature C (RegPublicKey reg) payload (RegSignature reg) then (Inr False, r)
               else (Inr True, r(NodeID (RegManifest reg) \<mapsto> freshEntry reg now)))"

text \<open>None stands for the error of an unregistered node.\<close>

definition Refresh :: "node_id \<Rightarrow> CapabilityManifest \<Rightarrow> time \<Rightarrow> registry \<Rightarrow> registry option" where
  "Refresh nodeID m now r = (case r nodeID of
       None \<Rightarrow> None
     | Some e \<Rightarrow> Some (r(nodeID \<mapsto> e\<lparr> manifest := m, lastSeen := now, unreachable := False \<rparr>)))"

definition MarkEnclaveAttested :: "node_id \<Rightarrow> bytes \<Rightarrow> registry \<Rightarrow> registry option" where
  "MarkEnclaveAttested nodeID key r = (case r nodeID of
       None \<Rightarrow> None
     | Some e \<Rightarrow> Some (r(nodeID \<mapsto> e\<lparr> enclaveAttested := True, enclavePublicKey := key \<rparr>)))"

definition MarkUnreachable :: "node_id \<Rightarrow> registry \<Rightarrow> registry" where
  "MarkUnreachable nodeID r = (case r nodeID of
       None \<Rightarrow> r | Some e \<Rightarrow> r(nodeID \<mapsto> e\<lparr> unreachable := True \<rparr>))"

definition MarkJobServed :: "node_id \<Rightarrow> time \<Rightarrow> registry \<Rightarrow> registry" where
  "MarkJobServed nodeID now r = (case r nodeID of
       None \<Rightarrow> r | Some e \<Rightarrow> r(nodeID \<mapsto> e\<lparr> lastJobServedAt := Some now \<rparr>))"

definition MarkSeen :: "node_id \<Rightarrow> time \<Rightarrow> registry \<Rightarrow> registry" where
  "MarkSeen nodeID now r = (case r nodeID of
       None \<Rightarrow> r | Some e \<Rightarrow> r(nodeID \<mapsto> e\<lparr> lastSeen := now, unreachable := False \<rparr>))"

definition IsLive :: "node_id \<Rightarrow> time \<Rightarrow> registry \<Rightarrow> bool" where
  "IsLive nodeID now r = (case r nodeID of None \<Rightarrow> False | Some e \<Rightarrow> isLive now e)"

section \<open>Clusters and candidates\<close>

text \<open>The first loop: the least live nid of every cluster signature seen so far.\<close>

definition clusterStep :: "time \<Rightarrow> registry \<Rightarrow> node_id \<Rightarrow> (string \<rightharpoonup> node_id) \<Rightarrow> (string \<rightharpoonup> node_id)" where
  "clusterStep now r nid best = (case r nid of
       None \<Rightarrow> best
     | Some e \<Rightarrow>
         if ClusterSignature (manifest e) = [] \<or> \<not> isLive now e then best
         else case best (ClusterSignature (manifest e)) of
             None \<Rightarrow> best(ClusterSignature (manifest e) \<mapsto> nid)
           | Some cur \<Rightarrow> if nid < cur then best(ClusterSignature (manifest e) \<mapsto> nid) else best)"

definition clusterBest :: "time \<Rightarrow> node_id list \<Rightarrow> registry \<Rightarrow> string \<rightharpoonup> node_id" where
  "clusterBest now ks r = fold (clusterStep now r) ks Map.empty"

definition clusterStandbyNodeIDs :: "time \<Rightarrow> node_id list \<Rightarrow> registry \<Rightarrow> node_id list" where
  "clusterStandbyNodeIDs now ks r =
     (let best = clusterBest now ks r
      in filter (\<lambda>nid. case r nid of
             None \<Rightarrow> False
           | Some e \<Rightarrow> let sig = ClusterSignature (manifest e)
                      in sig \<noteq> [] \<and> isLive now e \<and> best sig \<noteq> Some nid) ks)"

fun hasModelIn :: "ModelCapability list \<Rightarrow> string \<Rightarrow> string \<Rightarrow> bool" where
  "hasModelIn [] modelID quantization = False"
| "hasModelIn (model # ms) modelID quantization =
     (if CapModelID model \<noteq> modelID then hasModelIn ms modelID quantization
      else if quantization \<noteq> [] \<and> Quantization model \<noteq> quantization
        then hasModelIn ms modelID quantization
      else True)"

definition hasModel :: "CapabilityManifest \<Rightarrow> string \<Rightarrow> string \<Rightarrow> bool" where
  "hasModel m modelID quantization = hasModelIn (Models m) modelID quantization"

fun modelIsLoadedIn :: "ModelCapability list \<Rightarrow> string \<Rightarrow> string \<Rightarrow> bool" where
  "modelIsLoadedIn [] modelID quantization = False"
| "modelIsLoadedIn (model # ms) modelID quantization =
     (if CapModelID model \<noteq> modelID then modelIsLoadedIn ms modelID quantization
      else if quantization \<noteq> [] \<and> Quantization model \<noteq> quantization
        then modelIsLoadedIn ms modelID quantization
      else Loaded model)"

definition modelIsLoaded :: "CapabilityManifest \<Rightarrow> string \<Rightarrow> string \<Rightarrow> bool" where
  "modelIsLoaded m modelID quantization = modelIsLoadedIn (Models m) modelID quantization"

text \<open>The entries a loop over the map sees, in its order.\<close>

definition rangeEntries :: "node_id list \<Rightarrow> registry \<Rightarrow> (node_id \<times> nodeEntry) list" where
  "rangeEntries ks r = concat (map (\<lambda>nid. case r nid of None \<Rightarrow> [] | Some e \<Rightarrow> [(nid, e)]) ks)"

definition Candidates :: "string \<Rightarrow> string \<Rightarrow> time \<Rightarrow> node_id list \<Rightarrow> registry \<Rightarrow> CapabilityManifest list" where
  "Candidates modelID quantization now ks r =
     (let standby = clusterStandbyNodeIDs now ks r
      in map (\<lambda>(nid, e). manifest e) (filter (\<lambda>(nid, e). isLive now e \<and> nid \<notin> set standby \<and>
           hasModel (manifest e) modelID quantization) (rangeEntries ks r)))"

record NodeWithLoad =
  Manifest :: CapabilityManifest
  InFlight :: int
  EnclaveAttested :: bool
  ObservedTPS :: "f64 option"

definition CandidatesWithLoad :: "string \<Rightarrow> string \<Rightarrow> time \<Rightarrow> node_id list \<Rightarrow> registry \<Rightarrow> NodeWithLoad list" where
  "CandidatesWithLoad modelID quantization now ks r =
     (let standby = clusterStandbyNodeIDs now ks r
      in map (\<lambda>(nid, e). \<lparr> Manifest = manifest e, InFlight = inFlight e,
                EnclaveAttested = enclaveAttested e, ObservedTPS = observedTPS e \<rparr>)
           (filter (\<lambda>(nid, e). isLive now e \<and> nid \<notin> set standby \<and>
             hasModel (manifest e) modelID quantization) (rangeEntries ks r)))"

definition idleFrom :: "nodeEntry \<Rightarrow> time" where
  "idleFrom e = (case lastJobServedAt e of None \<Rightarrow> registeredAt e | Some t \<Rightarrow> t)"

definition IdleCandidates :: "duration \<Rightarrow> time \<Rightarrow> node_id list \<Rightarrow> registry \<Rightarrow> CapabilityManifest list" where
  "IdleCandidates idleSince now ks r =
     (let cutoff = now - idleSince;
          standby = clusterStandbyNodeIDs now ks r;
          candidates = filter (\<lambda>(nid, e). isLive now e \<and> \<not> Simulated (manifest e) \<and>
            nid \<notin> set standby \<and> Models (manifest e) \<noteq> [] \<and> \<not> idleFrom e > cutoff) (rangeEntries ks r)
      in map (\<lambda>(nid, e). manifest e)
           (sort_slice (\<lambda>a b. idleFrom (snd a) < idleFrom (snd b)) candidates))"

section \<open>In-flight counters\<close>

definition IncrInFlight :: "node_id \<Rightarrow> registry \<Rightarrow> registry" where
  "IncrInFlight nodeID r = (case r nodeID of
       None \<Rightarrow> r | Some e \<Rightarrow> r(nodeID \<mapsto> e\<lparr> inFlight := wrap32 (inFlight e + 1) \<rparr>))"

definition DecrInFlight :: "node_id \<Rightarrow> registry \<Rightarrow> registry" where
  "DecrInFlight nodeID r = (case r nodeID of
       None \<Rightarrow> r
     | Some e \<Rightarrow> let n = wrap32 (inFlight e - 1)
                in r(nodeID \<mapsto> e\<lparr> inFlight := (if n < 0 then 0 else n) \<rparr>))"

definition TotalInFlight :: "time \<Rightarrow> node_id list \<Rightarrow> registry \<Rightarrow> int" where
  "TotalInFlight now ks r =
     fold (\<lambda>(nid, e) total. if isLive now e then wrap32 (total + inFlight e) else total)
       (rangeEntries ks r) 0"

section \<open>Lookups\<close>

definition PublicKey :: "node_id \<Rightarrow> registry \<Rightarrow> bytes option" where
  "PublicKey nodeID r = map_option publicKey (r nodeID)"

definition ManifestOf :: "node_id \<Rightarrow> registry \<Rightarrow> CapabilityManifest option" where
  "ManifestOf nodeID r = map_option manifest (r nodeID)"

definition ClaimedSignature :: "node_id \<Rightarrow> registry \<Rightarrow> MeasuredSignature option option" where
  "ClaimedSignature nodeID r = map_option (\<lambda>e. Measured (manifest e)) (r nodeID)"

section \<open>Aggregates\<close>

definition nodeTPS :: "nodeEntry \<Rightarrow> f64" where
  "nodeTPS e = (case observedTPS e of
       Some v \<Rightarrow> v
     | None \<Rightarrow> (case Measured (manifest e) of None \<Rightarrow> 0 | Some s \<Rightarrow> TokensPerSecDecode s))"

definition committedMemory :: "CapabilityManifest \<Rightarrow> f64" where
  "committedMemory m = fmul (DeclaredMemoryGB m) (DeclaredMemoryCapPct m)"

record digest_acc =
  accModels :: "string list"
  accLive :: int
  accTPS :: f64
  accMem :: f64
  accRealCount :: int
  accRealTPS :: f64
  accRealMem :: f64

text \<open>The body of the loop of \<open>HealthDigest\<close>; the set of models is a list without repetition.\<close>

definition digestNode :: "node_id list \<Rightarrow> time \<Rightarrow> node_id \<times> nodeEntry \<Rightarrow> digest_acc \<Rightarrow> digest_acc" where
  "digestNode standby now = (\<lambda>(nid, e) acc.
     if \<not> isLive now e \<or> nid \<in> set standby then acc
     else let tps = nodeTPS e; mem = committedMemory (manifest e);
              acc = acc\<lparr> accLive := accLive acc + 1,
                         accModels := fold (\<lambda>m xs. List.insert (CapModelID m) xs) (Models (manifest e)) (accModels acc),
                         accTPS := fadd (accTPS acc) tps, accMem := fadd (accMem acc) mem \<rparr>
          in if Simulated (manifest e) then acc
             else acc\<lparr> accRealCount := accRealCount acc + 1,
                       accRealTPS := fadd (accRealTPS acc) tps, accRealMem := fadd (accRealMem acc) mem \<rparr>)"

definition HealthDigest :: "pod_id \<Rightarrow> string \<Rightarrow> string \<Rightarrow> time \<Rightarrow> node_id list \<Rightarrow> registry \<Rightarrow> PodHealthDigest" where
  "HealthDigest podID regionHint endpoint now ks r =
     (let standby = clusterStandbyNodeIDs now ks r;
          acc = fold (digestNode standby now) (rangeEntries ks r)
            \<lparr> accModels = [], accLive = 0, accTPS = 0, accMem = 0, accRealCount = 0, accRealTPS = 0, accRealMem = 0 \<rparr>;
          health = (if accLive acc > 0 \<and> accTPS acc > 0
            then min 1 (fdiv (fdiv (accTPS acc) (f_of_int (accLive acc))) 100) else 0)
      in \<lparr> PodID = podID, RegionHint = regionHint, CoordinatorEndpoint = endpoint,
           ServableModelIDs = accModels acc, AggregateHealthScore = health, NodeCountApprox = accLive acc,
           TotalMemoryGB = accMem acc, AggregateToksPerSec = accTPS acc,
           RealNodeCountApprox = accRealCount acc, RealTotalMemoryGB = accRealMem acc,
           RealAggregateToksPerSec = accRealTPS acc, DigestPublicKey = [], DigestSignature = [] \<rparr>)"

datatype node_status = StatusLive | StatusStale | StatusUnreachable

record NodeSnapshot =
  SnapNodeID :: node_id
  SnapStatus :: node_status
  SnapManifest :: CapabilityManifest
  CommittedMemoryGB :: f64
  MeasuredToksPerSec :: f64
  SnapEnclaveAttested :: bool
  LastSeenAt :: time
  InFlightJobs :: int
  ClusterStandby :: bool
  ObservedToksPerSec :: "f64 option"
  ObservedSampleCount :: int

text \<open>The fields that are copied from the manifest unchanged are kept as the manifest.\<close>

definition Snapshot :: "time \<Rightarrow> node_id list \<Rightarrow> registry \<Rightarrow> NodeSnapshot list" where
  "Snapshot now ks r =
     (let standby = clusterStandbyNodeIDs now ks r
      in sort_slice (\<lambda>a b. SnapNodeID a < SnapNodeID b)
           (map (\<lambda>(nid, e). \<lparr> SnapNodeID = NodeID (manifest e),
               SnapStatus = (if unreachable e then StatusUnreachable
                             else if \<not> isLive now e then StatusStale else StatusLive),
               SnapManifest = manifest e, CommittedMemoryGB = committedMemory (manifest e),
               MeasuredToksPerSec = nodeTPS e, SnapEnclaveAttested = enclaveAttested e,
               LastSeenAt = lastSeen e, InFlightJobs = inFlight e, ClusterStandby = nid \<in> set standby,
               ObservedToksPerSec = observedTPS e, ObservedSampleCount = observedSamples e \<rparr>)
             (rangeEntries ks r)))"

section \<open>Measurements and the capacity score\<close>

type_synonym measurement_store = "node_id \<rightharpoonup> MeasuredSignature"

definition StoreMeasurement :: "node_id \<Rightarrow> MeasuredSignature \<Rightarrow> measurement_store \<Rightarrow> measurement_store" where
  "StoreMeasurement nodeID sig s = s(nodeID \<mapsto> sig)"

definition withinTolerance :: "f64 \<Rightarrow> f64 \<Rightarrow> f64 \<Rightarrow> bool" where
  "withinTolerance tolerancePct claim actual =
     (if claim \<le> 0 then actual \<ge> 0
      else let ratio = fdiv actual claim
           in ratio \<ge> fsub 1 tolerancePct \<and> ratio \<le> fadd 1 tolerancePct)"

definition CompareSignatures :: "MeasuredSignature \<Rightarrow> MeasuredSignature \<Rightarrow> f64 \<Rightarrow> bool" where
  "CompareSignatures claimed measured tolerancePct \<longleftrightarrow>
     withinTolerance tolerancePct (TokensPerSecDecode claimed) (TokensPerSecDecode measured) \<and>
     withinTolerance tolerancePct (TokensPerSecPrefill claimed) (TokensPerSecPrefill measured)"

definition VerifiedCapacityScore :: "measurement_store \<Rightarrow> f64 \<Rightarrow> time \<Rightarrow> node_id list \<Rightarrow> registry \<Rightarrow> f64" where
  "VerifiedCapacityScore measurements tolerancePct now ks r =
     fold (\<lambda>(nid, e) score.
       if \<not> isLive now e then score
       else case Measured (manifest e) of
           None \<Rightarrow> score
         | Some claimed \<Rightarrow>
             (case measurements (NodeID (manifest e)) of
                None \<Rightarrow> score
              | Some measured \<Rightarrow>
                  if CompareSignatures claimed measured tolerancePct
                  then fadd score (TokensPerSecDecode measured) else score))
       (rangeEntries ks r) 0"

section \<open>Signature gates\<close>

datatype node_auth_error = AuthNotFresh freshness_error | AuthUnknownNode | AuthBadSignature | AuthMarshal
  | AuthBadEnclaveSignature

definition VerifyNodeSignature :: "crypto \<Rightarrow> registry \<Rightarrow> node_id \<Rightarrow> int \<Rightarrow> bytes \<Rightarrow> bytes \<Rightarrow> time \<Rightarrow>
    node_auth_error option" where
  "VerifyNodeSignature C r nodeID timestamp signingBytes sig now =
     (case VerifyFreshness timestamp now of
        Some e \<Rightarrow> Some (AuthNotFresh e)
      | None \<Rightarrow>
          (case PublicKey nodeID r of
             None \<Rightarrow> Some AuthUnknownNode
           | Some pubKey \<Rightarrow>
               if \<not> VerifySignature C pubKey signingBytes sig then Some AuthBadSignature else None))"

definition VerifyEnclaveAttestation :: "crypto \<Rightarrow> registry \<Rightarrow> EnclaveAttestationRequest \<Rightarrow> time \<Rightarrow>
    node_auth_error option" where
  "VerifyEnclaveAttestation C r req now =
     (case VerifyFreshness (AttTimestamp req) now of
        Some e \<Rightarrow> Some (AuthNotFresh e)
      | None \<Rightarrow>
          (case AttestationSigningBytes C req of
             None \<Rightarrow> Some AuthMarshal
           | Some signingBytes \<Rightarrow>
               (case PublicKey (AttNodeID req) r of
                  None \<Rightarrow> Some AuthUnknownNode
                | Some nodePubKey \<Rightarrow>
                    if \<not> VerifySignature C nodePubKey signingBytes (AttSignature req) then Some AuthBadSignature
                    else if \<not> VerifyP256Signature C (EnclavePublicKey req) signingBytes (EnclaveSignature req)
                      then Some AuthBadEnclaveSignature
                    else None)))"

section \<open>Lookups after updates\<close>

lemma rangeEntries_iff:
  "(nid, e) \<in> set (rangeEntries ks r) \<longleftrightarrow> nid \<in> set ks \<and> r nid = Some e"
  by (auto simp: rangeEntries_def split: option.splits)

lemma rangeEntries_fst: "map fst (rangeEntries ks r) = filter (\<lambda>nid. r nid \<noteq> None) ks"
  by (induction ks) (auto simp: rangeEntries_def split: option.splits)

lemma distinct_rangeEntries: "distinct ks \<Longrightarrow> distinct (map fst (rangeEntries ks r))"
  by (simp add: rangeEntries_fst)

lemma hasModelIn_iff:
  "hasModelIn ms m q \<longleftrightarrow> (\<exists>c \<in> set ms. CapModelID c = m \<and> (q = [] \<or> Quantization c = q))"
  by (induction ms) auto

lemma modelIsLoadedIn_find:
  "modelIsLoadedIn ms m q \<longleftrightarrow>
     (case find (\<lambda>c. CapModelID c = m \<and> (q = [] \<or> Quantization c = q)) ms of
        None \<Rightarrow> False | Some c \<Rightarrow> Loaded c)"
  by (induction ms) auto

lemma modelIsLoaded_hasModel: "modelIsLoaded m a q \<Longrightarrow> hasModel m a q"
  by (auto simp: modelIsLoaded_def modelIsLoadedIn_find hasModel_def hasModelIn_iff
      split: option.splits dest!: find_Some_mem)

section \<open>One representative for every ring\<close>

text \<open>The live registrations of one physical ring.\<close>

definition ringMembers :: "time \<Rightarrow> registry \<Rightarrow> string \<Rightarrow> node_id set" where
  "ringMembers now r sig =
     {nid. \<exists>e. r nid = Some e \<and> ClusterSignature (manifest e) = sig \<and> isLive now e}"

lemma clusterBest_snoc: "clusterBest now (ks @ [nid]) r = clusterStep now r nid (clusterBest now ks r)"
  by (simp add: clusterBest_def)

lemma clusterBest_min:
  assumes "sig \<noteq> []"
  shows "clusterBest now ks r sig =
    (if set ks \<inter> ringMembers now r sig = {} then None else Some (Min (set ks \<inter> ringMembers now r sig)))"
proof (induction ks rule: rev_induct)
  case Nil
  then show ?case by (simp add: clusterBest_def)
next
  case (snoc nid ks)
  let ?S = "set ks \<inter> ringMembers now r sig"
  show ?case
  proof (cases "nid \<in> ringMembers now r sig")
    case mem: True
    then obtain e where e: "r nid = Some e" "ClusterSignature (manifest e) = sig" "isLive now e"
      by (auto simp: ringMembers_def)
    have S: "set (ks @ [nid]) \<inter> ringMembers now r sig = insert nid ?S" using mem by auto
    show ?thesis
    proof (cases "?S = {}")
      case True
      then show ?thesis using snoc assms mem by (auto simp: S clusterBest_snoc clusterStep_def e)
    next
      case False
      have M: "Min (set (ks @ [nid]) \<inter> ringMembers now r sig) = min nid (Min ?S)"
        unfolding S using False by (intro Min_insert) auto
      have "clusterBest now ks r sig = Some (Min ?S)" using snoc False by simp
      then have "clusterBest now (ks @ [nid]) r sig = Some (min nid (Min ?S))"
        using assms by (simp add: clusterBest_snoc clusterStep_def e min_def del: Min_gr_iff Min_less_iff)
          (simp add: less_le_not_le)
      then show ?thesis using S M by simp
    qed
  next
    case False
    then have S: "set (ks @ [nid]) \<inter> ringMembers now r sig = ?S" by auto
    have "clusterBest now (ks @ [nid]) r sig = clusterBest now ks r sig"
      using False by (auto simp: clusterBest_snoc clusterStep_def ringMembers_def split: option.splits)
    then show ?thesis using snoc unfolding S by simp
  qed
qed

lemma standby_iff:
  assumes "range_order ks r"
  shows "nid \<in> set (clusterStandbyNodeIDs now ks r) \<longleftrightarrow>
    (\<exists>e. r nid = Some e \<and> isLive now e \<and> ClusterSignature (manifest e) \<noteq> [] \<and>
         nid \<noteq> Min (ringMembers now r (ClusterSignature (manifest e))))"
proof -
  have ks: "set ks = dom r" using assms by (simp add: range_order_def)
  have S: "set ks \<inter> ringMembers now r sig = ringMembers now r sig" for sig
    using ks by (auto simp: ringMembers_def)
  show ?thesis
  proof (cases "r nid")
    case None
    then show ?thesis by (auto simp: clusterStandbyNodeIDs_def Let_def)
  next
    case (Some e)
    have "ClusterSignature (manifest e) \<noteq> [] \<Longrightarrow> isLive now e \<Longrightarrow>
      clusterBest now ks r (ClusterSignature (manifest e)) = Some (Min (ringMembers now r (ClusterSignature (manifest e))))"
      using Some by (subst clusterBest_min) (auto simp: S, auto simp: ringMembers_def)
    then show ?thesis using Some ks by (auto simp: clusterStandbyNodeIDs_def Let_def)
  qed
qed

lemma finite_set_dom: "set ks = dom r \<Longrightarrow> finite (dom r)"
  by (metis List.finite_set)

lemma finite_ringMembers: "range_order ks r \<Longrightarrow> finite (ringMembers now r sig)"
  by (rule finite_subset[of _ "dom r"])
    (auto simp: ringMembers_def range_order_def intro: finite_set_dom)

lemma representative_iff:
  assumes "range_order ks r" "sig \<noteq> []"
  shows "nid \<in> ringMembers now r sig \<and> nid \<notin> set (clusterStandbyNodeIDs now ks r) \<longleftrightarrow>
    ringMembers now r sig \<noteq> {} \<and> nid = Min (ringMembers now r sig)"
proof -
  have "Min (ringMembers now r sig) \<in> ringMembers now r sig" if "ringMembers now r sig \<noteq> {}"
    using that finite_ringMembers[OF assms(1)] by (rule Min_in[rotated])
  moreover have "nid \<notin> set (clusterStandbyNodeIDs now ks r) \<longleftrightarrow> nid = Min (ringMembers now r sig)"
    if "nid \<in> ringMembers now r sig"
    using that assms(2) by (auto simp: standby_iff[OF assms(1)] ringMembers_def)
  ultimately show ?thesis by auto
qed

section \<open>Candidates\<close>

lemma CandidatesWithLoad_iff:
  assumes "range_order ks r"
  shows "n \<in> set (CandidatesWithLoad m q now ks r) \<longleftrightarrow>
    (\<exists>nid e. r nid = Some e \<and> isLive now e \<and> nid \<notin> set (clusterStandbyNodeIDs now ks r) \<and>
       hasModel (manifest e) m q \<and> n = \<lparr> Manifest = manifest e, InFlight = inFlight e,
         EnclaveAttested = enclaveAttested e, ObservedTPS = observedTPS e \<rparr>)"
  using assms by (auto simp: CandidatesWithLoad_def Let_def rangeEntries_iff range_order_def image_iff)

lemma Candidates_manifests: "Candidates m q now ks r = map Manifest (CandidatesWithLoad m q now ks r)"
  by (simp add: Candidates_def CandidatesWithLoad_def Let_def case_prod_beta)

section \<open>Counters\<close>

lemma wrap32_id: "- (2 ^ 31) \<le> n \<Longrightarrow> n < 2 ^ 31 \<Longrightarrow> wrap32 n = n"
  unfolding wrap32_def by (rule signed_take_bit_int_eq_self) auto

lemma DecrInFlight_nonneg:
  "DecrInFlight nid r nid = Some e \<Longrightarrow> 0 \<le> inFlight e"
  by (auto simp: DecrInFlight_def Let_def split: option.splits)

lemma Incr_Decr:
  assumes "r nid = Some e" "0 \<le> inFlight e" "inFlight e < 2 ^ 31 - 1"
  shows "DecrInFlight nid (IncrInFlight nid r) = r"
  using assms wrap32_id[of "inFlight e + 1"] wrap32_id[of "inFlight e"]
  by (auto simp: DecrInFlight_def IncrInFlight_def Let_def fun_eq_iff)

section \<open>The registry as a state machine\<close>

text \<open>
  The transitions the coordinator's handlers and background loops make: a registration, a
  refresh whose signature was checked against the registered key, an attestation whose two
  signatures were checked, and the bookkeeping that needs no authentication.
\<close>

inductive reg_step :: "crypto \<Rightarrow> registry \<Rightarrow> registry \<Rightarrow> bool" for C where
  step_register: "Register C reg now r = (res, r') \<Longrightarrow> reg_step C r r'"
| step_refresh: "\<lbrakk>RefreshSigningBytes C req = Some b;
    VerifyNodeSignature C r nid (RefTimestamp req) b (RefSignature req) now = None;
    Refresh nid (RefManifest req) now' r = Some r'\<rbrakk> \<Longrightarrow> reg_step C r r'"
| step_attest: "\<lbrakk>VerifyEnclaveAttestation C r req now = None;
    MarkEnclaveAttested (AttNodeID req) (EnclavePublicKey req) r = Some r'\<rbrakk> \<Longrightarrow> reg_step C r r'"
| step_evict: "reg_step C r (runEviction now r)"
| step_unreachable: "reg_step C r (MarkUnreachable nid r)"
| step_served: "reg_step C r (MarkJobServed nid now r)"
| step_seen: "reg_step C r (MarkSeen nid now r)"
| step_observed: "reg_step C r (RecordObservedThroughput nid tps r)"
| step_incr: "reg_step C r (IncrInFlight nid r)"
| step_decr: "reg_step C r (DecrInFlight nid r)"

definition reachable_registry :: "crypto \<Rightarrow> registry \<Rightarrow> bool" where
  "reachable_registry C r \<longleftrightarrow> (reg_step C)\<^sup>*\<^sup>* NewNodeRegistry r"

text \<open>What every entry satisfies: the key hashes to the id, the attested flag has a proof
  signed by the node's own key and by the enclave key, the observed rate is not negative.\<close>

definition attestation_proof :: "crypto \<Rightarrow> node_id \<Rightarrow> bytes \<Rightarrow> bytes \<Rightarrow> bool" where
  "attestation_proof C nid key enclaveKey \<longleftrightarrow> (\<exists>ts payload sig esig.
     marshalAttestation C nid enclaveKey ts = Some payload \<and>
     VerifySignature C key payload sig \<and> VerifyP256Signature C enclaveKey payload esig)"

definition entry_ok :: "crypto \<Rightarrow> node_id \<Rightarrow> nodeEntry \<Rightarrow> bool" where
  "entry_ok C nid e \<longleftrightarrow> NodeIDFromPubKey C (publicKey e) = nid \<and>
     (enclaveAttested e \<longrightarrow> attestation_proof C nid (publicKey e) (enclavePublicKey e)) \<and>
     (\<forall>v. observedTPS e = Some v \<longrightarrow> 0 \<le> v)"

definition registry_ok :: "crypto \<Rightarrow> registry \<Rightarrow> bool" where
  "registry_ok C r \<longleftrightarrow> (\<forall>nid e. r nid = Some e \<longrightarrow> entry_ok C nid e)"

lemma registry_ok_upd:
  "registry_ok C r \<Longrightarrow> entry_ok C nid e \<Longrightarrow> registry_ok C (r(nid \<mapsto> e))"
  by (simp add: registry_ok_def)

lemma registry_okD: "registry_ok C r \<Longrightarrow> r nid = Some e \<Longrightarrow> entry_ok C nid e"
  by (simp add: registry_ok_def)

lemma VerifyEnclaveAttestation_proof:
  assumes "VerifyEnclaveAttestation C r req now = None" "r (AttNodeID req) = Some e"
  shows "attestation_proof C (AttNodeID req) (publicKey e) (EnclavePublicKey req)"
  using assms by (auto simp: VerifyEnclaveAttestation_def attestation_proof_def PublicKey_def
      AttestationSigningBytes_def split: option.splits if_splits)

lemma ema_nonneg: "0 \<le> a \<Longrightarrow> 0 \<le> b \<Longrightarrow> 0 \<le> fadd (fmul a (fl (1 - throughputEMAAlpha))) (fmul b (fl throughputEMAAlpha))"
  by (intro fl_nonneg add_nonneg_nonneg mult_nonneg_nonneg) (auto simp: throughputEMAAlpha_def intro: fl_nonneg)

lemma entry_ok_cong:
  "entry_ok C nid e \<Longrightarrow> publicKey e' = publicKey e \<Longrightarrow> enclaveAttested e' = enclaveAttested e \<Longrightarrow>
   enclavePublicKey e' = enclavePublicKey e \<Longrightarrow> observedTPS e' = observedTPS e \<Longrightarrow> entry_ok C nid e'"
  by (simp add: entry_ok_def)

lemma registry_ok_observe:
  assumes "registry_ok C r" shows "registry_ok C (RecordObservedThroughput nid tps r)"
proof (cases "r nid = None \<or> tps \<le> 0")
  case True
  then show ?thesis using assms by (auto simp: RecordObservedThroughput_def split: option.splits)
next
  case False
  then obtain e where e: "r nid = Some e" "0 < tps" by auto
  show ?thesis using e registry_okD[OF assms e(1)] ema_nonneg
    by (auto simp: RecordObservedThroughput_def Let_def entry_ok_def
        intro!: registry_ok_upd[OF assms] split: option.splits)
qed

lemma reg_step_ok:
  assumes "reg_step C r r'" "registry_ok C r"
  shows "registry_ok C r'"
  using assms
proof cases
  case (step_register reg now res)
  then show ?thesis using assms(2)
    by (auto simp: Register_def Let_def freshEntry_def entry_ok_def
        split: if_splits option.splits intro!: registry_ok_upd)
next
  case (step_refresh req b nid now now')
  then show ?thesis using assms(2)
    by (auto simp: Refresh_def split: option.splits intro!: registry_ok_upd
        intro: entry_ok_cong dest: registry_okD)
next
  case (step_attest req now)
  then obtain e where e: "r (AttNodeID req) = Some e"
    and r': "r' = r(AttNodeID req \<mapsto> e\<lparr> enclaveAttested := True, enclavePublicKey := EnclavePublicKey req \<rparr>)"
    by (auto simp: MarkEnclaveAttested_def split: option.splits)
  show ?thesis using VerifyEnclaveAttestation_proof[OF step_attest(1) e] registry_okD[OF assms(2) e]
    by (auto simp: r' entry_ok_def intro!: registry_ok_upd assms(2))
next
  case (step_evict now)
  then show ?thesis using assms(2) by (auto simp: runEviction_def registry_ok_def)
next
  case (step_observed nid tps)
  then show ?thesis using assms(2) registry_ok_observe by simp
qed (use assms(2) in \<open>auto simp: MarkUnreachable_def MarkJobServed_def MarkSeen_def IncrInFlight_def
    DecrInFlight_def Let_def split: option.splits intro!: registry_ok_upd
    intro: entry_ok_cong dest: registry_okD\<close>)

lemma reachable_registry_ok: "reachable_registry C r \<Longrightarrow> registry_ok C r"
  unfolding reachable_registry_def
  by (induction rule: rtranclp_induct) (auto simp: NewNodeRegistry_def registry_ok_def[of _ Map.empty] reg_step_ok)

section \<open>Properties\<close>

text \<open>
  C10. The registry keeps identities and attestations honest: in every state the handlers
  can bring about, the key stored under a node id hashes to that id, and a node counts as
  attested only with a proof signed by its registered key and by the enclave key.
\<close>

theorem registry_identity_invariant:
  assumes "reachable_registry C r" and "r nid = Some e"
  shows "NodeIDFromPubKey C (publicKey e) = nid \<and>
         (enclaveAttested e \<longrightarrow> attestation_proof C nid (publicKey e) (enclavePublicKey e)) \<and>
         (\<forall>v. observedTPS e = Some v \<longrightarrow> 0 \<le> v)"
  using registry_okD[OF reachable_registry_ok[OF assms(1)] assms(2)] by (simp add: entry_ok_def)

definition openCrypto :: crypto where
  "openCrypto = \<lparr> sha256 = (\<lambda>b. b), ed25519Verify = (\<lambda>k m s. True), ed25519Sign = (\<lambda>k m. [0]),
     p256Verify = (\<lambda>k m s. True), marshalManifest = (\<lambda>m. Some []), marshalRefresh = (\<lambda>m t. Some []),
     marshalClaim = (\<lambda>n t. Some []), marshalAttestation = (\<lambda>n k t. Some []), marshalDigest = (\<lambda>d. Some []) \<rparr>"

definition sampleRegistration :: NodeRegistration where
  "sampleRegistration = \<lparr> RegManifest = emptyManifest\<lparr> NodeID := replicate 32 CHR ''0'' \<rparr>,
     RegPublicKey = replicate 32 0, RegSignature = [], RegUserID = [] \<rparr>"

lemma sample_id: "NodeIDFromPubKey openCrypto (replicate 32 0) = replicate 32 CHR ''0''"
  by code_simp

lemma sample_register:
  "Register openCrypto sampleRegistration 0 NewNodeRegistry =
     (Inr True, NewNodeRegistry(replicate 32 CHR ''0'' \<mapsto> freshEntry sampleRegistration 0))"
  by (simp add: Register_def sampleRegistration_def sample_id Let_def)
    (simp add: openCrypto_def VerifySignature_def)

lemma sample_reachable:
  "reachable_registry openCrypto (NewNodeRegistry(replicate 32 CHR ''0'' \<mapsto> freshEntry sampleRegistration 0))"
  unfolding reachable_registry_def by (rule r_into_rtranclp) (rule step_register[OF sample_register])

theorem registry_identity_invariant_witness:
  "NodeIDFromPubKey openCrypto (publicKey (freshEntry sampleRegistration 0)) = replicate 32 CHR ''0''"
  using registry_identity_invariant[OF sample_reachable, of "replicate 32 CHR ''0''"] by simp

text \<open>
  One physical ring, one representative: among the live registrations that share a
  cluster signature exactly the one with the least node id is not a standby, whatever the
  order in which the map is visited, and a live node without a signature is never one.
\<close>

theorem cluster_single_representative:
  assumes "range_order ks r" and "r nid = Some e" and "isLive now e"
  shows "(nid \<notin> set (clusterStandbyNodeIDs now ks r) \<longleftrightarrow>
           ClusterSignature (manifest e) = [] \<or> nid = Min (ringMembers now r (ClusterSignature (manifest e)))) \<and>
         (ClusterSignature (manifest e) \<noteq> [] \<longrightarrow>
           (\<exists>!rep. rep \<in> ringMembers now r (ClusterSignature (manifest e)) \<and>
                   rep \<notin> set (clusterStandbyNodeIDs now ks r)))"
proof -
  have "ringMembers now r (ClusterSignature (manifest e)) \<noteq> {}"
    using assms(2,3) by (auto simp: ringMembers_def)
  then have "ClusterSignature (manifest e) \<noteq> [] \<longrightarrow>
      (\<exists>!rep. rep \<in> ringMembers now r (ClusterSignature (manifest e)) \<and>
              rep \<notin> set (clusterStandbyNodeIDs now ks r))"
    by (simp add: representative_iff[OF assms(1)])
  then show ?thesis using assms(2,3) by (auto simp: standby_iff[OF assms(1)])
qed

theorem cluster_single_representative_witness:
  "''b'' \<in> set (clusterStandbyNodeIDs 0 [''b'', ''a'']
     [''a'' \<mapsto> freshEntry (sampleRegistration\<lparr> RegManifest := emptyManifest\<lparr> ClusterSignature := ''s'' \<rparr> \<rparr>) 0,
      ''b'' \<mapsto> freshEntry (sampleRegistration\<lparr> RegManifest := emptyManifest\<lparr> ClusterSignature := ''s'' \<rparr> \<rparr>) 0])"
proof -
  let ?e = "freshEntry (sampleRegistration\<lparr> RegManifest := emptyManifest\<lparr> ClusterSignature := ''s'' \<rparr> \<rparr>) 0"
  let ?r = "[''a'' \<mapsto> ?e, ''b'' \<mapsto> ?e]"
  have f: "ClusterSignature (manifest ?e) = ''s''" "isLive 0 ?e"
    by (simp_all add: freshEntry_def isLive_def livenessTTL_def)
  have m: "ringMembers 0 ?r ''s'' = {''a'', ''b''}" using f by (auto simp: ringMembers_def)
  have "''a'' < ''b''" by (simp add: less_char_def)
  then have "Min {''a'', ''b''} = ''a''" by simp
  then show ?thesis
    using cluster_single_representative[of "[''b'', ''a'']" ?r "''b''" ?e 0] f m
    by (auto simp: range_order_def)
qed

text \<open>
  The candidates for a model are exactly the live nodes that have it and are not a
  standby, so no physical ring is ever offered twice.
\<close>

theorem candidates_one_per_ring:
  assumes "range_order ks r"
    and "r a = Some ea" and "r b = Some eb"
    and "a \<noteq> b" and "ClusterSignature (manifest ea) = ClusterSignature (manifest eb)"
    and "ClusterSignature (manifest ea) \<noteq> []"
    and "isLive now ea" and "isLive now eb"
  shows "(set (CandidatesWithLoad m q now ks r) =
           {\<lparr> Manifest = manifest e, InFlight = inFlight e, EnclaveAttested = enclaveAttested e,
              ObservedTPS = observedTPS e \<rparr> | nid e. r nid = Some e \<and> isLive now e \<and>
              nid \<notin> set (clusterStandbyNodeIDs now ks r) \<and> hasModel (manifest e) m q}) \<and>
         (a \<in> set (clusterStandbyNodeIDs now ks r) \<or> b \<in> set (clusterStandbyNodeIDs now ks r))"
proof -
  have "set (CandidatesWithLoad m q now ks r) =
           {\<lparr> Manifest = manifest e, InFlight = inFlight e, EnclaveAttested = enclaveAttested e,
              ObservedTPS = observedTPS e \<rparr> | nid e. r nid = Some e \<and> isLive now e \<and>
              nid \<notin> set (clusterStandbyNodeIDs now ks r) \<and> hasModel (manifest e) m q}"
    using CandidatesWithLoad_iff[OF assms(1), of _ m q now] by blast
  then show ?thesis using assms by (auto simp: standby_iff[OF assms(1)])
qed

theorem candidates_one_per_ring_witness:
  "''a'' \<in> set (clusterStandbyNodeIDs 0 [''b'', ''a'']
     [''a'' \<mapsto> freshEntry (sampleRegistration\<lparr> RegManifest := emptyManifest\<lparr> ClusterSignature := ''s'' \<rparr> \<rparr>) 0,
      ''b'' \<mapsto> freshEntry (sampleRegistration\<lparr> RegManifest := emptyManifest\<lparr> ClusterSignature := ''s'' \<rparr> \<rparr>) 0]) \<or>
   ''b'' \<in> set (clusterStandbyNodeIDs 0 [''b'', ''a'']
     [''a'' \<mapsto> freshEntry (sampleRegistration\<lparr> RegManifest := emptyManifest\<lparr> ClusterSignature := ''s'' \<rparr> \<rparr>) 0,
      ''b'' \<mapsto> freshEntry (sampleRegistration\<lparr> RegManifest := emptyManifest\<lparr> ClusterSignature := ''s'' \<rparr> \<rparr>) 0])"
proof -
  let ?e = "freshEntry (sampleRegistration\<lparr> RegManifest := emptyManifest\<lparr> ClusterSignature := ''s'' \<rparr> \<rparr>) 0"
  have f: "ClusterSignature (manifest ?e) = ''s''" "isLive 0 ?e"
    by (simp_all add: freshEntry_def isLive_def livenessTTL_def)
  show ?thesis
    using candidates_one_per_ring[of "[''b'', ''a'']" "[''a'' \<mapsto> ?e, ''b'' \<mapsto> ?e]" "''a''" ?e "''b''" ?e 0] f
    by (auto simp: range_order_def)
qed

end
