(* ===== verification/HashRing.thy ===== *)
theory HashRing
  imports GoStd
begin

text \<open>
  The consistent-hash ring of \<open>internal/coordinator/consistenthash.go\<close>, with the 32-bit
  FNV-1a hash computed on words. The number of virtual points per member is a parameter of
  \<open>ringPoints\<close>, so that small rings can be evaluated; the code's ring has 512.
\<close>

section \<open>Definitions\<close>

definition hashRingReplicas :: nat where "hashRingReplicas = 512"

record ringPoint =
  hash :: "32 word"
  member :: string

text \<open>FNV-1a: exclusive-or with the byte, then multiply by the prime, from the offset basis.\<close>

definition hashKey :: "string \<Rightarrow> 32 word" where
  "hashKey s = fold (\<lambda>b h. (h XOR ucast b) * 16777619) (bytes_of s) 2166136261"

definition memberPoint :: "string \<Rightarrow> nat \<Rightarrow> ringPoint" where
  "memberPoint m i = \<lparr> hash = hashKey (m @ ''#'' @ decimal i), member = m \<rparr>"

definition ringPoints :: "nat \<Rightarrow> string list \<Rightarrow> ringPoint list" where
  "ringPoints replicas members = concat (map (\<lambda>m. map (memberPoint m) [0..<replicas]) members)"

definition sortPoints :: "ringPoint list \<Rightarrow> ringPoint list" where
  "sortPoints = sort_slice (\<lambda>a b. hash a < hash b)"

definition newHashRing :: "string list \<Rightarrow> ringPoint list" where
  "newHashRing members = sortPoints (ringPoints hashRingReplicas members)"

text \<open>\<open>sort.Search\<close> finds the first point whose hash is not below the key's.\<close>

definition ringSearch :: "32 word \<Rightarrow> ringPoint list \<Rightarrow> nat" where
  "ringSearch h points = length (takeWhile (\<lambda>p. \<not> h \<le> hash p) points)"

definition ringGet :: "ringPoint list \<Rightarrow> string \<Rightarrow> string option" where
  "ringGet points key =
     (if points = [] then None
      else let h = hashKey key;
               i = ringSearch h points;
               i = (if i = length points then 0 else i)
           in Some (member (points ! i)))"

section \<open>The owner of a key\<close>

text \<open>The same lookup as a search: the first point at or after the key, else the first.\<close>

definition owner :: "32 word \<Rightarrow> ringPoint list \<Rightarrow> ringPoint option" where
  "owner h points = (case find (\<lambda>p. h \<le> hash p) points of
       Some p \<Rightarrow> Some p
     | None \<Rightarrow> (case points of [] \<Rightarrow> None | p # _ \<Rightarrow> Some p))"

lemma find_takeWhile:
  "find P xs = (let i = length (takeWhile (\<lambda>x. \<not> P x) xs) in if i = length xs then None else Some (xs ! i))"
  by (induction xs) (auto simp: Let_def)

lemma ringGet_owner: "ringGet points key = map_option member (owner (hashKey key) points)"
  by (cases points) (auto simp: ringGet_def owner_def ringSearch_def find_takeWhile Let_def)

lemma owner_in: "owner h points = Some p \<Longrightarrow> p \<in> set points"
  by (auto simp: owner_def split: option.splits list.splits dest: find_Some_mem)

lemma owner_None: "owner h points = None \<longleftrightarrow> points = []"
  by (cases points) (auto simp: owner_def split: option.splits)

text \<open>Dropping points other than the owner does not change the owner.\<close>

lemma find_filter: "find P xs = Some x \<Longrightarrow> Q x \<Longrightarrow> find P (filter Q xs) = Some x"
  by (induction xs) (auto split: if_splits)

lemma owner_filter:
  assumes "owner h points = Some p" "Q p" shows "owner h (filter Q points) = Some p"
proof (cases "find (\<lambda>p. h \<le> hash p) points")
  case (Some q)
  then have "find (\<lambda>p. h \<le> hash p) (filter Q points) = Some p"
    using assms by (intro find_filter) (auto simp: owner_def)
  then show ?thesis by (simp add: owner_def)
next
  case None
  then obtain ps where ps: "points = p # ps" using assms(1) by (auto simp: owner_def split: list.splits)
  have "find (\<lambda>p. h \<le> hash p) (filter Q points) = None" using None by (auto simp: find_None_all)
  then show ?thesis using ps assms(2) by (simp add: owner_def)
qed

lemma member_ringPoints: "p \<in> set (ringPoints n members) \<Longrightarrow> member p \<in> set members"
  by (auto simp: ringPoints_def memberPoint_def)

lemma ringPoints_Nil: "0 < n \<Longrightarrow> ringPoints n members = [] \<longleftrightarrow> members = []"
  by (cases members) (auto simp: ringPoints_def)

lemma filter_ringPoints:
  "filter (\<lambda>p. Q (member p)) (ringPoints n members) = ringPoints n (filter Q members)"
  by (induction members) (auto simp: ringPoints_def memberPoint_def filter_map comp_def)

lemma ring_filter:
  "filter (\<lambda>p. Q (member p)) (newHashRing members) = newHashRing (filter Q members)"
  by (simp add: newHashRing_def sortPoints_def filter_sort_slice filter_ringPoints)

lemma newHashRing_Nil [simp]: "newHashRing members = [] \<longleftrightarrow> members = []"
proof -
  have "length (newHashRing members) = length (ringPoints hashRingReplicas members)"
    by (simp add: newHashRing_def sortPoints_def)
  then show ?thesis using ringPoints_Nil[of hashRingReplicas members]
    by (metis length_0_conv hashRingReplicas_def zero_less_numeral)
qed

lemma ringGet_member: "ringGet (newHashRing members) key = Some m \<Longrightarrow> m \<in> set members"
  using owner_in member_ringPoints
  by (fastforce simp: ringGet_owner newHashRing_def sortPoints_def)

lemma ringGet_Some: "members \<noteq> [] \<Longrightarrow> \<exists>m. ringGet (newHashRing members) key = Some m"
  by (simp add: ringGet_def Let_def)

lemma ringPoints_perm:
  assumes "mset members = mset members'"
  shows "mset (ringPoints n members) = mset (ringPoints n members')"
proof -
  have "mset (ringPoints n ms) = (\<Sum>m \<in># mset ms. mset (map (memberPoint m) [0..<n]))" for ms
    by (induction ms) (simp_all add: ringPoints_def)
  then show ?thesis using assms by simp
qed

lemma ring_order_independent:
  assumes "mset members = mset members'" "distinct (map hash (ringPoints hashRingReplicas members))"
  shows "newHashRing members = newHashRing members'"
  unfolding newHashRing_def sortPoints_def
  by (rule sort_slice_unique[OF ringPoints_perm[OF assms(1)] assms(2)])

section \<open>Properties\<close>

text \<open>
  C11. The ring is consistent: every key has an owner among the members; when members leave,
  only the keys they owned move, every other key keeps its owner; and without colliding
  points the owner does not depend on the order of the members.
\<close>

theorem hash_ring_consistent:
  assumes "members \<noteq> []"
  shows "(\<exists>m \<in> set members. ringGet (newHashRing members) key = Some m) \<and>
         (\<forall>m. ringGet (newHashRing members) key = Some m \<and> Q m \<longrightarrow>
              ringGet (newHashRing (filter Q members)) key = Some m) \<and>
         (\<forall>members'. mset members' = mset members \<and>
              distinct (map hash (ringPoints hashRingReplicas members)) \<longrightarrow>
              ringGet (newHashRing members') key = ringGet (newHashRing members) key)"
proof (intro conjI allI impI)
  show "\<exists>m \<in> set members. ringGet (newHashRing members) key = Some m"
    using ringGet_Some[OF assms] ringGet_member by blast
next
  fix m assume "ringGet (newHashRing members) key = Some m \<and> Q m"
  then obtain p where p: "owner (hashKey key) (newHashRing members) = Some p" "member p = m" "Q (member p)"
    by (auto simp: ringGet_owner)
  have "owner (hashKey key) (newHashRing (filter Q members)) = Some p"
    using owner_filter[OF p(1), of "\<lambda>p. Q (member p)"] p(3) by (simp add: ring_filter)
  then show "ringGet (newHashRing (filter Q members)) key = Some m" using p(2) by (simp add: ringGet_owner)
next
  fix members'
  assume "mset members' = mset members \<and> distinct (map hash (ringPoints hashRingReplicas members))"
  then have "newHashRing members' = newHashRing members"
    using ring_order_independent[of members members'] by simp
  then show "ringGet (newHashRing members') key = ringGet (newHashRing members) key" by simp
qed

theorem hash_ring_consistent_witness:
  "\<exists>m. m \<in> {''a'', ''b''} \<and> ringGet (newHashRing [''a'', ''b'']) ''k'' = Some m"
proof -
  obtain m where "m \<in> set [''a'', ''b'']" "ringGet (newHashRing [''a'', ''b'']) ''k'' = Some m"
    using hash_ring_consistent[of "[''a'', ''b'']" "''k''" "\<lambda>_. True"] by blast
  then show ?thesis by (intro exI[of _ m]) simp
qed

end
