(* ===== verification/Router.thy ===== *)
theory Router
  imports Registry HashRing Json
begin

text \<open>
  The router of \<open>internal/coordinator/router.go\<close>: scoring, ranking with prefix affinity and
  power-of-two choices, dispatch with retries, sticky background assignments. What a node
  answers, and after how long, is an argument (the record \<open>transport\<close>), as are the two
  random numbers of a ranking; everything the coordinator does around them, including its
  bookkeeping in the registry, is computed. A dispatch also returns the list of the nodes it
  handed the job to.
\<close>

section \<open>Scores\<close>

text \<open>None is the score minus infinity of an ineligible node.\<close>

definition ScoreForFastLane :: "CapabilityManifest \<Rightarrow> JobSpec \<Rightarrow> int \<Rightarrow> bool \<Rightarrow> f64 option" where
  "ScoreForFastLane node job load attested =
     (if Sensitivity job = SensitivityHighRequiresAttestation \<and> \<not> attested then None
      else if \<not> hasModel node (ModelID job) (QuantizationRequired job) then None
      else if \<not> modelIsLoaded node (ModelID job) (QuantizationRequired job) then None
      else if MaxPricePerUnit job > 0 \<and>
        (case PricePerUnit node ''compute_cycles'' of None \<Rightarrow> False | Some price \<Rightarrow> price > MaxPricePerUnit job)
        then None
      else let base = (case Measured node of None \<Rightarrow> 1 | Some s \<Rightarrow> TokensPerSecDecode s)
           in Some (fdiv base (fadd 1 (fmul (f_of_int load) (1 / 2)))))"

definition effectiveManifest :: "NodeWithLoad \<Rightarrow> CapabilityManifest" where
  "effectiveManifest node = (case ObservedTPS node of
       None \<Rightarrow> Manifest node
     | Some tps \<Rightarrow>
         let m = Manifest node;
             sig = (case Measured m of None \<Rightarrow> emptySignature | Some s \<Rightarrow> s)
         in m\<lparr> Measured := Some (sig\<lparr> TokensPerSecDecode := tps \<rparr>) \<rparr>)"

definition powerOfTwoWindow :: nat where "powerOfTwoWindow = 3"
definition affinityPrefixChars :: nat where "affinityPrefixChars = 200"
definition affinityMaxInFlight :: int where "affinityMaxInFlight = 4"

definition systemPrefix :: "jobj list \<Rightarrow> string" where
  "systemPrefix messages =
     concat (map (\<lambda>m. if asString (m ''role'') = ''system'' then asString (m ''content'') else []) messages)"

definition promptAffinityKey :: "JobSpec \<Rightarrow> jobj list \<Rightarrow> string" where
  "promptAffinityKey job messages =
     (let prefix = systemPrefix messages;
          prefix = (if prefix = [] \<and> messages \<noteq> [] then asString ((messages ! 0) ''content'') else prefix)
      in if prefix = [] then []
         else let prefix = (if length prefix > affinityPrefixChars then take affinityPrefixChars prefix else prefix)
              in ModelID job @ [CHR 0x00] @ prefix)"

record scoredCandidate =
  score :: f64
  node :: NodeWithLoad

section \<open>Ranking\<close>

definition scoreCandidates :: "NodeWithLoad list \<Rightarrow> JobSpec \<Rightarrow> scoredCandidate list" where
  "scoreCandidates candidates job =
     concat (map (\<lambda>n. case ScoreForFastLane (effectiveManifest n) job (InFlight n) (EnclaveAttested n) of
         None \<Rightarrow> [] | Some s \<Rightarrow> [\<lparr> score = s, node = n \<rparr>]) candidates)"

definition sortRanked :: "scoredCandidate list \<Rightarrow> scoredCandidate list" where
  "sortRanked = sort_slice (\<lambda>a b. score a > score b)"

definition promoteAffinityNode :: "scoredCandidate list \<Rightarrow> JobSpec \<Rightarrow> jobj list \<Rightarrow>
    bool \<times> scoredCandidate list" where
  "promoteAffinityNode ranked job messages =
     (let key = promptAffinityKey job messages
      in if key = [] \<or> length ranked < 2 then (False, ranked)
         else case ringGet (newHashRing (map (\<lambda>r. NodeID (Manifest (node r))) ranked)) key of
             None \<Rightarrow> (False, ranked)
           | Some preferred \<Rightarrow>
               let i = length (takeWhile (\<lambda>r. NodeID (Manifest (node r)) \<noteq> preferred) ranked)
               in if i = length ranked then (False, ranked)
                  else if InFlight (node (ranked ! i)) > affinityMaxInFlight then (False, ranked)
                  else (True, swap_front i ranked))"

text \<open>The arguments are the results of \<open>rand.IntN(n)\<close> and \<open>rand.IntN(n - 1)\<close>.\<close>

definition twoRandomDistinctIndices :: "nat \<Rightarrow> nat \<Rightarrow> nat \<times> nat" where
  "twoRandomDistinctIndices r1 r2 = (r1, if r2 \<ge> r1 then r2 + 1 else r2)"

definition powerOfTwo :: "nat \<Rightarrow> nat \<Rightarrow> scoredCandidate list \<Rightarrow> scoredCandidate list" where
  "powerOfTwo r1 r2 ranked =
     (let (i, j) = twoRandomDistinctIndices r1 r2;
          winner = (if score (ranked ! j) > score (ranked ! i) then j else i)
      in if winner \<noteq> 0 then swap_front winner ranked else ranked)"

definition rankCandidates :: "nat \<Rightarrow> nat \<Rightarrow> NodeWithLoad list \<Rightarrow> JobSpec \<Rightarrow> jobj list \<Rightarrow> NodeWithLoad list" where
  "rankCandidates r1 r2 candidates job messages =
     (let ranked = sortRanked (scoreCandidates candidates job);
          (promoted, ranked) = promoteAffinityNode ranked job messages
      in map node (if \<not> promoted \<and> length ranked > 1 \<and> min (length ranked) powerOfTwoWindow > 1
                   then powerOfTwo r1 r2 ranked else ranked))"

text \<open>What \<open>rand\<close> can return for a list of this length.\<close>

definition drawOk :: "nat \<Rightarrow> nat \<Rightarrow> nat \<Rightarrow> bool" where
  "drawOk n r1 r2 \<longleftrightarrow> (n > 1 \<longrightarrow> r1 < min n powerOfTwoWindow \<and> r2 < min n powerOfTwoWindow - 1)"

definition filterPushOnly :: "NodeWithLoad list \<Rightarrow> NodeWithLoad list" where
  "filterPushOnly ranked = filter (\<lambda>n. \<not> PullDelivery (Manifest n)) ranked"

definition PickBestNode :: "nat \<Rightarrow> nat \<Rightarrow> JobSpec \<Rightarrow> time \<Rightarrow> node_id list \<Rightarrow> registry \<Rightarrow> NodeWithLoad option" where
  "PickBestNode r1 r2 job now ks r =
     (let candidates = CandidatesWithLoad (ModelID job) (QuantizationRequired job) now ks r;
          ranked = rankCandidates r1 r2 candidates job []
      in case ranked of [] \<Rightarrow> None | n # _ \<Rightarrow> Some n)"

section \<open>Delivery\<close>

record NodeTarget =
  TargetNodeID :: node_id
  Endpoint :: string
  TLSFingerprint :: string

definition TargetFromManifest :: "CapabilityManifest \<Rightarrow> NodeTarget" where
  "TargetFromManifest m = \<lparr> TargetNodeID = NodeID m, Endpoint = ReachabilityEndpoint m,
     TLSFingerprint = TLSCertFingerprint m \<rparr>"

datatype http_client = PlainClient | PinnedClient string

definition httpClientForTarget :: "NodeTarget \<Rightarrow> http_client" where
  "httpClientForTarget target =
     (if hasPrefix (Endpoint target) ''https://'' then PinnedClient (TLSFingerprint target) else PlainClient)"

text \<open>The body of the request that a push node receives.\<close>

definition dispatchPayload :: "JobSpec \<Rightarrow> jobj list \<Rightarrow> jobj" where
  "dispatchPayload job messages =
     (let payload = [''model'' \<mapsto> JStr (ModelID job), ''messages'' \<mapsto> JArr (map JObj messages),
                     ''stream'' \<mapsto> JBool False, ''oim_lane'' \<mapsto> JStr (Lane job)]
      in if PayloadRef job \<noteq> []
         then payload(''oim_payload_hash'' \<mapsto> JStr (PayloadRef job),
                      ''oim_payload_fetch_url'' \<mapsto> JStr (PayloadFetchURL job),
                      ''oim_ephemeral_public_key'' \<mapsto> JStr (PayloadEphemeralPubKey job))
         else payload)"

datatype node_response = TransportError | HttpResponse int "jobj option option"

datatype dispatch_error = DispatchFailed | NodeHttpError int | DecodeFailed | PullFailed
  | NoEligibleNodes job_id nat | UnknownNode | ModelNotDownloaded | StreamFailed

text \<open>A reply: its status and the decoded body, where the inner None is a JSON null.\<close>

definition dispatchToNode :: "node_response \<Rightarrow> dispatch_error + jobj option" where
  "dispatchToNode resp = (case resp of
       TransportError \<Rightarrow> Inl DispatchFailed
     | HttpResponse status body \<Rightarrow>
         if status \<ge> 400 then Inl (NodeHttpError status)
         else case body of None \<Rightarrow> Inl DecodeFailed | Some result \<Rightarrow> Inr result)"

record transport =
  pullWired :: bool
  pullAnswer :: "nat \<Rightarrow> node_id \<Rightarrow> JobSpec \<Rightarrow> jobj list \<Rightarrow> dispatch_error + jobj option"
  pushAnswer :: "nat \<Rightarrow> http_client \<Rightarrow> NodeTarget \<Rightarrow> jobj \<Rightarrow> node_response"
  elapsedNs :: "nat \<Rightarrow> node_id \<Rightarrow> duration"

text \<open>The attempt number \<open>k\<close> lets the answers differ from one attempt to the next.\<close>

definition deliverJob :: "transport \<Rightarrow> nat \<Rightarrow> node_id \<Rightarrow> bool \<Rightarrow> NodeTarget \<Rightarrow> JobSpec \<Rightarrow> jobj list \<Rightarrow>
    dispatch_error + jobj option" where
  "deliverJob T k nodeID isPull target job messages =
     (if isPull \<and> pullWired T then pullAnswer T k nodeID job messages
      else dispatchToNode (pushAnswer T k (httpClientForTarget target) target (dispatchPayload job messages)))"

definition minThroughputSampleTokens :: int where "minThroughputSampleTokens = 16"

definition completionTokensFromResult :: "jobj option \<Rightarrow> int" where
  "completionTokensFromResult result = (case result of
       None \<Rightarrow> 0
     | Some res \<Rightarrow>
         (case asObj (res ''usage'') of
            None \<Rightarrow> 0
          | Some usage \<Rightarrow>
              (case asNum (usage ''completion_tokens'') of
                 None \<Rightarrow> 0
               | Some n \<Rightarrow> if n > 0 then fint n else 0)))"

text \<open>The rate rounded to two places.\<close>

definition tokensPerSec :: "int \<Rightarrow> duration \<Rightarrow> f64" where
  "tokensPerSec tokens elapsed =
     fdiv (of_int (fround (fmul (fdiv (f_of_int tokens) (seconds elapsed)) 100))) 100"

section \<open>Dispatch\<close>

definition tagResult :: "NodeWithLoad \<Rightarrow> JobSpec \<Rightarrow> duration \<Rightarrow> jobj \<Rightarrow> jobj" where
  "tagResult n job elapsed res =
     (let res = res(''oim_served_by_node_id'' \<mapsto> JStr (NodeID (Manifest n)),
                    ''oim_lane'' \<mapsto> JStr (Lane job),
                    ''oim_latency_ms'' \<mapsto> JNum (of_int (elapsed div 1000000)));
          tokens = completionTokensFromResult (Some res)
      in if tokens > 0 \<and> elapsed > 0
         then res(''oim_tokens_per_sec'' \<mapsto> JNum (tokensPerSec tokens elapsed)) else res)"

definition observeResult :: "node_id \<Rightarrow> jobj option \<Rightarrow> duration \<Rightarrow> registry \<Rightarrow> registry" where
  "observeResult nodeID result elapsed r =
     (let tokens = completionTokensFromResult result
      in if tokens \<ge> minThroughputSampleTokens \<and> elapsed > 0
         then RecordObservedThroughput nodeID (tokensPerSec tokens elapsed) r else r)"

fun tryNodes :: "transport \<Rightarrow> JobSpec \<Rightarrow> jobj list \<Rightarrow> int \<Rightarrow> nat \<Rightarrow> NodeWithLoad list \<Rightarrow> registry \<Rightarrow>
    (dispatch_error + jobj option) \<times> registry \<times> NodeWithLoad list" where
  "tryNodes T job messages maxAttempts attempted [] r =
     (Inl (NoEligibleNodes (SpecJobID job) attempted), r, [])"
| "tryNodes T job messages maxAttempts attempted (n # ns) r =
     (if int attempted \<ge> maxAttempts then (Inl (NoEligibleNodes (SpecJobID job) attempted), r, [])
      else let nodeID = NodeID (Manifest n);
               r1 = IncrInFlight nodeID r;
               outcome = deliverJob T attempted nodeID (PullDelivery (Manifest n)) (TargetFromManifest (Manifest n)) job messages;
               elapsed = elapsedNs T attempted nodeID;
               r2 = DecrInFlight nodeID r1
           in case outcome of
                Inl err \<Rightarrow>
                  (let (res, r3, tried) = tryNodes T job messages maxAttempts (attempted + 1) ns (MarkUnreachable nodeID r2)
                   in (res, r3, n # tried))
              | Inr None \<Rightarrow> (Inr None, r2, [n])
              | Inr (Some res) \<Rightarrow>
                  (Inr (Some (tagResult n job elapsed res)), observeResult nodeID (Some res) elapsed r2, [n]))"

definition DispatchFastLane :: "transport \<Rightarrow> nat \<Rightarrow> nat \<Rightarrow> JobSpec \<Rightarrow> jobj list \<Rightarrow> int \<Rightarrow> time \<Rightarrow> node_id list \<Rightarrow>
    registry \<Rightarrow> (dispatch_error + jobj option) \<times> registry \<times> NodeWithLoad list" where
  "DispatchFastLane T r1 r2 job messages maxAttempts now ks r =
     (let candidates = CandidatesWithLoad (ModelID job) (QuantizationRequired job) now ks r;
          ranked = rankCandidates r1 r2 candidates job messages
      in tryNodes T job messages maxAttempts 0 ranked r)"

definition DispatchToResolvedNode :: "transport \<Rightarrow> JobSpec \<Rightarrow> jobj list \<Rightarrow> NodeTarget \<Rightarrow> registry \<Rightarrow>
    (dispatch_error + jobj option) \<times> registry" where
  "DispatchToResolvedNode T job messages target r =
     (let nodeID = TargetNodeID target;
          r1 = IncrInFlight nodeID r;
          outcome = deliverJob T 0 nodeID (IsPullNode nodeID r1) target job messages;
          elapsed = elapsedNs T 0 nodeID;
          r2 = DecrInFlight nodeID r1
      in case outcome of
           Inl err \<Rightarrow> (Inl err, MarkUnreachable nodeID r2)
         | Inr result \<Rightarrow> (Inr result, observeResult nodeID result elapsed r2))"

definition warmJob :: "node_id \<Rightarrow> string \<Rightarrow> nat \<Rightarrow> JobSpec" where
  "warmJob nodeID modelID nano =
     emptyJob\<lparr> SpecJobID := ''warm-'' @ nodeID @ ''-'' @ decimal nano, ModelID := modelID, Lane := JobLaneWarm \<rparr>"

definition WarmModel :: "transport \<Rightarrow> node_id \<Rightarrow> string \<Rightarrow> nat \<Rightarrow> registry \<Rightarrow>
    (dispatch_error + jobj option) \<times> registry" where
  "WarmModel T nodeID modelID nano r = (case ManifestOf nodeID r of
       None \<Rightarrow> (Inl UnknownNode, r)
     | Some m \<Rightarrow>
         if \<not> hasModel m modelID [] then (Inl ModelNotDownloaded, r)
         else DispatchToResolvedNode T (warmJob nodeID modelID nano) [] (TargetFromManifest m) r)"

text \<open>
  The streaming dispatch: a node's stream is described by whether bytes reached the client,
  the tokens counted and whether it failed. Once bytes were relayed there is no retry.
\<close>

record stream_outcome =
  started :: bool
  streamTokens :: int
  streamErr :: bool

record stream_result =
  servedBy :: node_id
  servedTokens :: int
  headersSent :: bool
  dispatchErr :: "dispatch_error option"

fun tryStreaming :: "(nat \<Rightarrow> NodeWithLoad \<Rightarrow> stream_outcome) \<Rightarrow> (nat \<Rightarrow> node_id \<Rightarrow> duration) \<Rightarrow> JobSpec \<Rightarrow> int \<Rightarrow> nat \<Rightarrow>
    NodeWithLoad list \<Rightarrow> registry \<Rightarrow> stream_result \<times> registry \<times> NodeWithLoad list" where
  "tryStreaming stream elapsedOf job maxAttempts attempted [] r =
     (\<lparr> servedBy = [], servedTokens = 0, headersSent = False,
        dispatchErr = Some (NoEligibleNodes (SpecJobID job) attempted) \<rparr>, r, [])"
| "tryStreaming stream elapsedOf job maxAttempts attempted (n # ns) r =
     (if int attempted \<ge> maxAttempts
      then (\<lparr> servedBy = [], servedTokens = 0, headersSent = False,
              dispatchErr = Some (NoEligibleNodes (SpecJobID job) attempted) \<rparr>, r, [])
      else let nodeID = NodeID (Manifest n);
               out = stream attempted n;
               elapsed = elapsedOf attempted nodeID;
               r2 = DecrInFlight nodeID (IncrInFlight nodeID r)
           in if streamErr out
              then if started out
                   then (\<lparr> servedBy = [], servedTokens = streamTokens out, headersSent = True,
                           dispatchErr = Some StreamFailed \<rparr>, r2, [n])
                   else let (res, r3, tried) = tryStreaming stream elapsedOf job maxAttempts (attempted + 1) ns
                              (MarkUnreachable nodeID r2)
                        in (res, r3, n # tried)
              else (\<lparr> servedBy = nodeID, servedTokens = streamTokens out, headersSent = True, dispatchErr = None \<rparr>,
                    (if streamTokens out \<ge> minThroughputSampleTokens \<and> elapsed > 0
                     then RecordObservedThroughput nodeID (tokensPerSec (streamTokens out) elapsed) r2 else r2), [n]))"

definition DispatchFastLaneStreaming :: "(nat \<Rightarrow> NodeWithLoad \<Rightarrow> stream_outcome) \<Rightarrow> (nat \<Rightarrow> node_id \<Rightarrow> duration) \<Rightarrow>
    nat \<Rightarrow> nat \<Rightarrow> JobSpec \<Rightarrow> jobj list \<Rightarrow> int \<Rightarrow> time \<Rightarrow> node_id list \<Rightarrow> registry \<Rightarrow>
    stream_result \<times> registry \<times> NodeWithLoad list" where
  "DispatchFastLaneStreaming stream elapsedOf r1 r2 job messages maxAttempts now ks r =
     (let candidates = CandidatesWithLoad (ModelID job) (QuantizationRequired job) now ks r;
          ranked = filterPushOnly (rankCandidates r1 r2 candidates job messages)
      in tryStreaming stream elapsedOf job maxAttempts 0 ranked r)"

section \<open>Background assignments\<close>

record BackgroundAssignment =
  AssignJobID :: job_id
  Primary :: node_id
  Backups :: "node_id list"
  AssignSpec :: JobSpec

datatype assign_result = AssignPanics | AssignError int nat | Assigned BackgroundAssignment

text \<open>Go panics when a slice is made with a negative capacity.\<close>

definition AssignBackgroundJob :: "JobSpec \<Rightarrow> time \<Rightarrow> node_id list \<Rightarrow> registry \<Rightarrow> assign_result" where
  "AssignBackgroundJob job now ks r =
     (let candidates = CandidatesWithLoad (ModelID job) (QuantizationRequired job) now ks r;
          ranked = sortRanked (scoreCandidates candidates job);
          needed = 1 + RedundancyDepth job
      in if int (length ranked) < needed then AssignError needed (length ranked)
         else if RedundancyDepth job < 0 then AssignPanics
         else Assigned \<lparr> AssignJobID = SpecJobID job,
                Primary = NodeID (Manifest (node (ranked ! 0))),
                Backups = map (\<lambda>i. NodeID (Manifest (node (ranked ! i)))) [1..<nat (RedundancyDepth job) + 1],
                AssignSpec = job \<rparr>)"

text \<open>None is the error that all assigned nodes are down.\<close>

definition ResolveForCycle :: "BackgroundAssignment \<Rightarrow> time \<Rightarrow> registry \<Rightarrow> (node_id \<times> bool) option" where
  "ResolveForCycle a now r =
     (if IsLive (Primary a) now r then Some (Primary a, True)
      else case find (\<lambda>b. IsLive b now r) (Backups a) of
          Some b \<Rightarrow> Some (b, False)
        | None \<Rightarrow> None)"

type_synonym assignment_store = "job_id \<rightharpoonup> BackgroundAssignment"

definition SaveAssignment :: "BackgroundAssignment \<Rightarrow> assignment_store \<Rightarrow> assignment_store" where
  "SaveAssignment a s = s(AssignJobID a \<mapsto> a)"

definition GetAssignment :: "job_id \<Rightarrow> assignment_store \<Rightarrow> BackgroundAssignment option" where
  "GetAssignment jobID s = s jobID"

section \<open>Eligibility and ranking\<close>

definition eligible :: "JobSpec \<Rightarrow> NodeWithLoad \<Rightarrow> bool" where
  "eligible job n \<longleftrightarrow>
     (Sensitivity job = SensitivityHighRequiresAttestation \<longrightarrow> EnclaveAttested n) \<and>
     hasModel (Manifest n) (ModelID job) (QuantizationRequired job) \<and>
     modelIsLoaded (Manifest n) (ModelID job) (QuantizationRequired job) \<and>
     (MaxPricePerUnit job > 0 \<longrightarrow>
        (\<forall>price. PricePerUnit (Manifest n) ''compute_cycles'' = Some price \<longrightarrow> price \<le> MaxPricePerUnit job))"

definition nodeScore :: "JobSpec \<Rightarrow> NodeWithLoad \<Rightarrow> f64 option" where
  "nodeScore job n = ScoreForFastLane (effectiveManifest n) job (InFlight n) (EnclaveAttested n)"

lemma effectiveManifest_fields:
  "Models (effectiveManifest n) = Models (Manifest n)"
  "PricePerUnit (effectiveManifest n) = PricePerUnit (Manifest n)"
  by (simp_all add: effectiveManifest_def Let_def split: option.splits)

lemma nodeScore_None: "nodeScore job n = None \<longleftrightarrow> \<not> eligible job n"
  by (auto simp: nodeScore_def ScoreForFastLane_def eligible_def hasModel_def modelIsLoaded_def
      effectiveManifest_fields Let_def split: option.splits)

lemma scoreCandidates_Cons:
  "scoreCandidates (n # ns) job =
     (case nodeScore job n of None \<Rightarrow> [] | Some s \<Rightarrow> [\<lparr> score = s, node = n \<rparr>]) @ scoreCandidates ns job"
  by (simp add: scoreCandidates_def nodeScore_def)

lemma scoreCandidates_nodes: "map node (scoreCandidates ns job) = filter (eligible job) ns"
  by (induction ns) (auto simp: scoreCandidates_Cons nodeScore_None[symmetric] scoreCandidates_def[of "[]"]
      split: option.splits)

lemma scoreCandidates_score: "c \<in> set (scoreCandidates ns job) \<Longrightarrow> nodeScore job (node c) = Some (score c)"
  by (auto simp: scoreCandidates_def nodeScore_def split: option.splits)

lemma sortRanked_sorted: "sorted_wrt (\<ge>) (map score (sortRanked cs))"
  unfolding sortRanked_def by (rule sort_slice_rev_key_sorted)

lemma sortRanked_mset [simp]: "mset (sortRanked cs) = mset cs"
  by (simp add: sortRanked_def)

lemma promote_index:
  assumes "promoteAffinityNode cs job messages = (True, cs')"
  obtains i where "i < length cs" "cs' = swap_front i cs" "InFlight (node (cs ! i)) \<le> affinityMaxInFlight"
    "ringGet (newHashRing (map (\<lambda>r. NodeID (Manifest (node r))) cs)) (promptAffinityKey job messages) =
       Some (NodeID (Manifest (node (cs ! i))))"
proof -
  obtain preferred where k: "ringGet (newHashRing (map (\<lambda>r. NodeID (Manifest (node r))) cs)) (promptAffinityKey job messages) =
      Some preferred"
    using assms by (auto simp: promoteAffinityNode_def Let_def split: if_splits option.splits)
  define i where "i = length (takeWhile (\<lambda>r. NodeID (Manifest (node r)) \<noteq> preferred) cs)"
  have i: "i \<noteq> length cs" "\<not> InFlight (node (cs ! i)) > affinityMaxInFlight" "cs' = swap_front i cs"
    using assms k by (auto simp: promoteAffinityNode_def Let_def i_def split: if_splits)
  have l: "i < length cs" using i(1) length_takeWhile_le[of _ cs] unfolding i_def by (simp add: le_neq_implies_less)
  have "NodeID (Manifest (node (cs ! i))) = preferred"
    using l nth_length_takeWhile[of "\<lambda>r. NodeID (Manifest (node r)) \<noteq> preferred" cs] unfolding i_def by blast
  then show ?thesis using that[OF l i(3)] i(2) k by simp
qed

lemma promote_False: "promoteAffinityNode cs job messages = (False, cs') \<Longrightarrow> cs' = cs"
  by (auto simp: promoteAffinityNode_def Let_def split: if_splits option.splits)

lemma promoteAffinityNode_mset:
  assumes "promoteAffinityNode ranked job messages = (b, ranked')"
  shows "mset ranked' = mset ranked"
proof (cases b)
  case True
  then have "promoteAffinityNode ranked job messages = (True, ranked')" using assms by simp
  from promote_index[OF this] show ?thesis by (metis mset_swap_front)
next
  case False
  then show ?thesis using assms promote_False by auto
qed

lemma powerOfTwo_mset:
  assumes "r1 < min (length ranked) 3" "r2 < min (length ranked) 3 - 1"
  shows "mset (powerOfTwo r1 r2 ranked) = mset ranked"
  using assms by (auto simp: powerOfTwo_def twoRandomDistinctIndices_def Let_def)

lemma rankCandidates_mset:
  assumes "drawOk (length (filter (eligible job) ns)) r1 r2"
  shows "mset (rankCandidates r1 r2 ns job messages) = mset (filter (eligible job) ns)"
proof -
  obtain b cs where p: "promoteAffinityNode (sortRanked (scoreCandidates ns job)) job messages = (b, cs)"
    by fastforce
  have m: "mset cs = mset (scoreCandidates ns job)" using promoteAffinityNode_mset[OF p] by simp
  have l: "length cs = length (filter (eligible job) ns)"
    using m by (metis length_map scoreCandidates_nodes size_mset)
  have "mset (map node cs) = mset (filter (eligible job) ns)"
    using m by (metis mset_map scoreCandidates_nodes)
  moreover have "mset (powerOfTwo r1 r2 cs) = mset cs" if "1 < length cs"
    using assms that l by (intro powerOfTwo_mset) (auto simp: drawOk_def powerOfTwoWindow_def)
  ultimately show ?thesis
    by (auto simp: rankCandidates_def p)
qed

lemma rankCandidates_set:
  assumes "drawOk (length (filter (eligible job) ns)) r1 r2"
  shows "n \<in> set (rankCandidates r1 r2 ns job messages) \<longleftrightarrow> n \<in> set ns \<and> eligible job n"
  using mset_eq_setD[OF rankCandidates_mset[OF assms, of messages]] by auto

text \<open>The better of two of the three best: at most one candidate scores higher.\<close>

lemma powerOfTwo_primary:
  assumes "sorted_wrt (\<ge>) (map score cs)" "1 < length cs"
    and "r1 < min (length cs) 3" "r2 < min (length cs) 3 - 1"
  shows "length (filter (\<lambda>c. score c > score (hd (powerOfTwo r1 r2 cs))) cs) \<le> 1"
proof -
  obtain i j where ij: "twoRandomDistinctIndices r1 r2 = (i, j)" by fastforce
  have d: "i < length cs" "j < length cs" "i \<le> 1 \<or> j \<le> 1" "i \<noteq> j"
    using ij assms(3,4) by (auto simp: twoRandomDistinctIndices_def split: if_splits)
  define w where "w = (if score (cs ! j) > score (cs ! i) then j else i)"
  have w: "w < length cs" "score (cs ! i) \<le> score (cs ! w)" "score (cs ! j) \<le> score (cs ! w)"
    using d by (auto simp: w_def)
  have "hd (powerOfTwo r1 r2 cs) = cs ! w"
  proof -
    have "powerOfTwo r1 r2 cs = swap_front w cs"
      by (auto simp: powerOfTwo_def ij Let_def w_def swap_front_def)
    then show ?thesis using w(1) hd_conv_nth[of "swap_front w cs"] assms(2)
      by (metis length_0_conv length_swap_front not_less_zero nth_swap_front_0)
  qed
  moreover have "score (cs ! k) \<le> score (cs ! w)" if "0 < k" "k < length cs" for k
  proof -
    have ge: "score (cs ! b) \<le> score (cs ! a)" if "a \<le> b" "b < length cs" for a b
      using assms(1) that by (cases "a = b") (auto simp: sorted_wrt_iff_nth_less)
    have "score (cs ! k) \<le> score (cs ! 1)" using ge[of 1 k] that by simp
    also have "\<dots> \<le> score (cs ! w)"
      using ge[of i 1] ge[of j 1] d w assms(2) by (metis One_nat_def order_trans)
    finally show ?thesis .
  qed
  moreover obtain c0 rest where c: "cs = c0 # rest" using assms(2) by (cases cs) auto
  moreover have "filter (\<lambda>c. score c > score (cs ! w)) rest = []"
  proof -
    have "\<forall>c \<in> set rest. score c \<le> score (cs ! w)"
    proof
      fix x assume "x \<in> set rest"
      then obtain k where "k < length rest" "x = rest ! k" by (metis in_set_conv_nth)
      then show "score x \<le> score (cs ! w)" using calculation(2)[of "Suc k"] c by simp
    qed
    then show ?thesis by (auto simp: filter_empty_conv not_less)
  qed
  ultimately show ?thesis by simp
qed

lemma promote_hd:
  assumes "promoteAffinityNode cs job messages = (True, cs')"
  shows "cs' \<noteq> []" "InFlight (node (hd cs')) \<le> affinityMaxInFlight"
    "ringGet (newHashRing (map (\<lambda>r. NodeID (Manifest (node r))) cs)) (promptAffinityKey job messages) =
      Some (NodeID (Manifest (node (hd cs'))))"
proof -
  obtain i where i: "i < length cs" "cs' = swap_front i cs" "InFlight (node (cs ! i)) \<le> affinityMaxInFlight"
    "ringGet (newHashRing (map (\<lambda>r. NodeID (Manifest (node r))) cs)) (promptAffinityKey job messages) =
       Some (NodeID (Manifest (node (cs ! i))))"
    using promote_index[OF assms] .
  have "length cs' > 0" using i by (metis length_swap_front not_less_zero gr0I)
  then show "cs' \<noteq> []" by simp
  moreover have "hd cs' = cs ! i" using i(1,2) calculation by (simp add: hd_conv_nth)
  ultimately show "InFlight (node (hd cs')) \<le> affinityMaxInFlight"
    "ringGet (newHashRing (map (\<lambda>r. NodeID (Manifest (node r))) cs)) (promptAffinityKey job messages) =
      Some (NodeID (Manifest (node (hd cs'))))" using i(3,4) by simp_all
qed

section \<open>The dispatch loop\<close>

lemma tryNodes_tried:
  "tryNodes T job messages maxA k ns r = (res, r', tried) \<Longrightarrow>
     tried = take (length tried) ns \<and> length tried \<le> nat (maxA - int k)"
proof (induction T job messages maxA k ns r arbitrary: res r' tried rule: tryNodes.induct)
  case (2 T job messages maxA k n ns r)
  show ?case
  proof (cases "int k \<ge> maxA")
    case True
    then show ?thesis using "2.prems" by simp
  next
    case False
    let ?id = "NodeID (Manifest n)"
    let ?r2 = "DecrInFlight ?id (IncrInFlight ?id r)"
    let ?out = "deliverJob T k ?id (PullDelivery (Manifest n)) (TargetFromManifest (Manifest n)) job messages"
    show ?thesis
    proof (cases ?out)
      case (Inl err)
      obtain res3 r3 tr where rec: "tryNodes T job messages maxA (k + 1) ns (MarkUnreachable ?id ?r2) = (res3, r3, tr)"
        by (metis prod_cases3)
      have "tried = n # tr" using "2.prems" False Inl rec by (simp add: Let_def)
      moreover have "tr = take (length tr) ns \<and> length tr \<le> nat (maxA - int (k + 1))"
        using "2.IH"[OF False refl refl refl refl refl Inl rec] .
      ultimately show ?thesis using False by auto
    next
      case (Inr result)
      then show ?thesis using "2.prems" False by (cases result) (auto simp: Let_def)
    qed
  qed
qed simp

text \<open>What an operation of the dispatch loop leaves untouched in every entry.\<close>

definition same_entry :: "nodeEntry \<Rightarrow> nodeEntry \<Rightarrow> bool" where
  "same_entry e e' \<longleftrightarrow> inFlight e' = inFlight e \<and> manifest e' = manifest e \<and> publicKey e' = publicKey e \<and>
     enclaveAttested e' = enclaveAttested e \<and> lastSeen e' = lastSeen e \<and> (unreachable e \<longrightarrow> unreachable e')"

definition same_books :: "registry \<Rightarrow> registry \<Rightarrow> bool" where
  "same_books r r' \<longleftrightarrow> (\<forall>nid. rel_option same_entry (r nid) (r' nid))"

definition counters_ok :: "registry \<Rightarrow> bool" where
  "counters_ok r \<longleftrightarrow> (\<forall>nid e. r nid = Some e \<longrightarrow> 0 \<le> inFlight e \<and> inFlight e < 2 ^ 31 - 1)"

lemma same_entry_refl [simp]: "same_entry e e"
  by (simp add: same_entry_def)

lemma same_entry_trans: "same_entry a b \<Longrightarrow> same_entry b c \<Longrightarrow> same_entry a c"
  by (auto simp: same_entry_def)

lemma same_books_refl [simp]: "same_books r r"
  by (simp add: same_books_def option.rel_refl)

lemma same_books_trans:
  assumes "same_books r r'" "same_books r' r''" shows "same_books r r''"
  unfolding same_books_def
proof
  fix nid
  have "rel_option same_entry (r nid) (r' nid)" "rel_option same_entry (r' nid) (r'' nid)"
    using assms by (simp_all add: same_books_def)
  then show "rel_option same_entry (r nid) (r'' nid)"
    by (cases "r nid"; cases "r' nid"; cases "r'' nid") (auto intro: same_entry_trans)
qed

lemma same_booksD: "same_books r r' \<Longrightarrow> r' nid = Some e' \<Longrightarrow> \<exists>e. r nid = Some e \<and> same_entry e e'"
  unfolding same_books_def by (metis option_rel_Some2)

lemma same_books_counters:
  assumes "same_books r r'" "counters_ok r" shows "counters_ok r'"
  unfolding counters_ok_def
proof (intro allI impI)
  fix nid e' assume "r' nid = Some e'"
  then obtain e where "r nid = Some e" "same_entry e e'" using same_booksD[OF assms(1)] by blast
  then show "0 \<le> inFlight e' \<and> inFlight e' < 2 ^ 31 - 1"
    using assms(2) by (auto simp: counters_ok_def same_entry_def)
qed

lemma same_books_upd: "r nid = Some e \<Longrightarrow> same_entry e e' \<Longrightarrow> same_books r (r(nid \<mapsto> e'))"
  by (simp add: same_books_def option.rel_refl)

lemma same_books_unreachable: "same_books r (MarkUnreachable nid r)"
proof (cases "r nid")
  case (Some e)
  then show ?thesis using same_books_upd[of r nid e "e\<lparr> unreachable := True \<rparr>"] Some
    by (simp add: MarkUnreachable_def same_entry_def)
qed (simp add: MarkUnreachable_def)

lemma same_books_observed: "same_books r (RecordObservedThroughput nid tps r)"
proof (cases "r nid")
  case (Some e)
  have "same_books r (r(nid \<mapsto> e\<lparr> observedTPS := v, observedSamples := k \<rparr>))" for v k
    by (rule same_books_upd[of r nid e]) (simp_all add: same_entry_def Some)
  then show ?thesis by (simp add: RecordObservedThroughput_def Some Let_def)
qed (simp add: RecordObservedThroughput_def)

lemma Decr_Incr_same: assumes "counters_ok r" shows "DecrInFlight nid (IncrInFlight nid r) = r"
proof (cases "r nid")
  case None
  then show ?thesis by (simp add: IncrInFlight_def DecrInFlight_def)
next
  case (Some e)
  then have "0 \<le> inFlight e" "inFlight e < 2 ^ 31 - 1" using assms by (auto simp: counters_ok_def)
  from Incr_Decr[of r, OF Some this] show ?thesis .
qed

lemma MarkUnreachable_marks: "MarkUnreachable nid r nid = Some e \<Longrightarrow> unreachable e"
  by (auto simp: MarkUnreachable_def split: option.splits)

lemma observeResult_same: "same_books r (observeResult nid result d r)"
  by (simp add: observeResult_def Let_def same_books_observed)

text \<open>The whole loop: counters are restored, failed nodes end up marked, nothing else changes.\<close>

lemma tryNodes_books:
  assumes "tryNodes T job messages maxA k ns r = (res, r', tried)" "counters_ok r"
  shows "same_books r r' \<and>
    (\<forall>n \<in> set (case res of Inl _ \<Rightarrow> tried | Inr _ \<Rightarrow> butlast tried).
       \<forall>e. r' (NodeID (Manifest n)) = Some e \<longrightarrow> unreachable e)"
  using assms
proof (induction T job messages maxA k ns r arbitrary: res r' tried rule: tryNodes.induct)
  case (2 T job messages maxA k n ns r)
  show ?case
  proof (cases "int k \<ge> maxA")
    case True
    then show ?thesis using "2.prems" by auto
  next
    case False
    let ?id = "NodeID (Manifest n)"
    let ?out = "deliverJob T k ?id (PullDelivery (Manifest n)) (TargetFromManifest (Manifest n)) job messages"
    have d: "DecrInFlight ?id (IncrInFlight ?id r) = r" by (rule Decr_Incr_same[OF "2.prems"(2)])
    show ?thesis
    proof (cases ?out)
      case (Inl err)
      let ?m = "MarkUnreachable ?id r"
      obtain res3 r3 tr where rec: "tryNodes T job messages maxA (k + 1) ns ?m = (res3, r3, tr)"
        by (metis prod_cases3)
      have eq: "res = res3" "r' = r3" "tried = n # tr" using "2.prems"(1) False Inl rec d by (simp_all add: Let_def)
      have m: "same_books r ?m" by (rule same_books_unreachable)
      have ih: "same_books ?m r3 \<and> (\<forall>n \<in> set (case res3 of Inl _ \<Rightarrow> tr | Inr _ \<Rightarrow> butlast tr).
          \<forall>e. r3 (NodeID (Manifest n)) = Some e \<longrightarrow> unreachable e)"
        using "2.IH"[OF False refl refl refl refl refl Inl] rec same_books_counters[OF m "2.prems"(2)]
        unfolding d by blast
      have "unreachable e" if e3: "r3 ?id = Some e" for e
      proof -
        obtain e0 where e0: "?m ?id = Some e0" "same_entry e0 e" using same_booksD[OF conjunct1[OF ih] e3] by blast
        then show ?thesis using MarkUnreachable_marks[OF e0(1)] by (simp add: same_entry_def)
      qed
      then show ?thesis using ih same_books_trans[OF m] eq by (auto split: sum.splits if_splits)
    next
      case (Inr result)
      have "(\<exists>x. res = Inr x) \<and> tried = [n] \<and> same_books r r'"
        using "2.prems"(1) False d observeResult_same by (cases result) (auto simp: Let_def Inr)
      then show ?thesis by auto
    qed
  qed
qed auto

lemma power_of_two_beaten:
  assumes "drawOk (length (filter (eligible job) ns)) r1 r2"
    and cs: "cs = sortRanked (scoreCandidates ns job)"
    and sc: "\<And>c. c \<in> set cs \<Longrightarrow> nodeScore job (node c) = Some (score c)"
    and "ranked = map node (if 1 < length cs then powerOfTwo r1 r2 cs else cs)" and "ranked \<noteq> []"
  shows "length (filter (\<lambda>n. the (nodeScore job n) > the (nodeScore job (hd ranked))) ranked) \<le> 1"
proof -
  have l: "length cs = length (filter (eligible job) ns)"
    using cs by (metis length_map scoreCandidates_nodes size_mset sortRanked_mset)
  define R where "R = (if 1 < length cs then powerOfTwo r1 r2 cs else cs)"
  have R: "ranked = map node R" using assms(4) by (simp add: R_def)
  have mR: "mset R = mset cs"
    using assms(1) l powerOfTwo_mset by (auto simp: R_def drawOk_def powerOfTwoWindow_def)
  then have sR: "set R = set cs" by (rule mset_eq_setD)
  have ne: "R \<noteq> []" using assms(5) R by simp
  have "length (filter (\<lambda>c. score c > score (hd R)) cs) \<le> 1"
  proof (cases "1 < length cs")
    case True
    then show ?thesis using powerOfTwo_primary[of cs r1 r2] assms(1) l sortRanked_sorted
      by (simp add: R_def cs drawOk_def powerOfTwoWindow_def)
  next
    case False
    then show ?thesis by (metis length_filter_le linorder_not_less order_trans)
  qed
  moreover have "filter (\<lambda>c. the (nodeScore job (node c)) > the (nodeScore job (node (hd R)))) R =
      filter (\<lambda>c. score c > score (hd R)) R"
  proof -
    have "nodeScore job (node (hd R)) = Some (score (hd R))" using sc sR hd_in_set[OF ne] by simp
    then show ?thesis using sc sR by (intro filter_cong) auto
  qed
  moreover have "length (filter P R) = length (filter P cs)" for P
    using mR by (metis mset_filter size_mset)
  ultimately show ?thesis using ne by (auto simp: R filter_map comp_def list.map_sel(1))
qed

section \<open>Properties\<close>


definition sampleModel :: ModelCapability where
  "sampleModel = \<lparr> CapModelID = ''m'', Quantization = ''q4'', Runtime = RuntimeExoMLX, MaxContextTokens = 4096,
     IsMoE = False, ExpertShardIDs = [], Loaded = True, DraftModelID = [], NumDraftTokens = 0 \<rparr>"

definition sampleNode :: "node_id \<Rightarrow> NodeWithLoad" where
  "sampleNode nid = \<lparr> Manifest = emptyManifest\<lparr> NodeID := nid, Models := [sampleModel] \<rparr>, InFlight = 0,
     EnclaveAttested = False, ObservedTPS = None \<rparr>"

definition sampleJob :: JobSpec where
  "sampleJob = emptyJob\<lparr> SpecJobID := ''j'', ModelID := ''m'', Lane := JobLaneFast, Sensitivity := SensitivityLow \<rparr>"

lemma sample_eligible [simp]: "eligible sampleJob (sampleNode nid)"
  by (simp add: eligible_def sampleJob_def sampleNode_def emptyJob_def emptyManifest_def sampleModel_def
      hasModel_def modelIsLoaded_def SensitivityLow_def SensitivityHighRequiresAttestation_def)



definition deafTransport :: transport where
  "deafTransport = \<lparr> pullWired = False, pullAnswer = (\<lambda>k n j m. Inl PullFailed),
     pushAnswer = (\<lambda>k c t p. TransportError), elapsedNs = (\<lambda>k n. 1) \<rparr>"


lemma tried_attested:
  assumes "registry_ok C r" and "range_order ks r"
    and "Sensitivity job = SensitivityHighRequiresAttestation"
    and "drawOk (length (filter (eligible job)
           (CandidatesWithLoad (ModelID job) (QuantizationRequired job) now ks r))) r1 r2"
    and "DispatchFastLane T r1 r2 job messages maxAttempts now ks r = (res, r', tried)"
    and "n \<in> set tried"
  shows "\<exists>nid e. r nid = Some e \<and> Manifest n = manifest e \<and> isLive now e \<and>
           attestation_proof C nid (publicKey e) (enclavePublicKey e)"
proof -
  let ?c = "CandidatesWithLoad (ModelID job) (QuantizationRequired job) now ks r"
  have "tried = take (length tried) (rankCandidates r1 r2 ?c job messages)"
    using tryNodes_tried[of T job messages maxAttempts 0 _ r res r' tried] assms(5)
    by (simp add: DispatchFastLane_def Let_def)
  then have "n \<in> set (rankCandidates r1 r2 ?c job messages)" using assms(6) by (metis in_set_takeD)
  then have "n \<in> set ?c" "eligible job n" using rankCandidates_set[OF assms(4)] by blast+
  then obtain nid e where e: "r nid = Some e" "isLive now e" "Manifest n = manifest e" "enclaveAttested e"
    using assms(3) by (auto simp: CandidatesWithLoad_iff[OF assms(2)] eligible_def)
  then show ?thesis using registry_okD[OF assms(1) e(1)] by (auto simp: entry_ok_def)
qed


lemma range_order_single: "range_order [nid] (NewNodeRegistry(nid \<mapsto> e))"
  by (simp add: range_order_def NewNodeRegistry_def)

definition attestedEntry :: nodeEntry where
  "attestedEntry = (freshEntry sampleRegistration 0)\<lparr>
     manifest := emptyManifest\<lparr> NodeID := replicate 32 CHR ''0'', Models := [sampleModel] \<rparr>,
     enclaveAttested := True \<rparr>"

lemma attested_reachable: "reachable_registry openCrypto (NewNodeRegistry(replicate 32 CHR ''0'' \<mapsto> attestedEntry))"
proof -
  let ?id = "replicate 32 CHR ''0''"
  let ?r0 = "NewNodeRegistry(?id \<mapsto> freshEntry sampleRegistration 0)"
  let ?e1 = "(freshEntry sampleRegistration 0)\<lparr> enclaveAttested := True \<rparr>"
  let ?att = "\<lparr> AttNodeID = ?id, EnclavePublicKey = [], AttTimestamp = 0, EnclaveSignature = [], AttSignature = [] \<rparr>"
  let ?ref = "\<lparr> RefManifest = emptyManifest\<lparr> NodeID := ?id, Models := [sampleModel] \<rparr>, RefTimestamp = 0, RefSignature = [] \<rparr>"
  have pk: "length (publicKey (freshEntry sampleRegistration 0)) = 32"
    by (simp add: freshEntry_def sampleRegistration_def)
  have v: "VerifyFreshness 0 0 = None" by code_simp
  have a: "VerifyEnclaveAttestation openCrypto ?r0 ?att 0 = None"
    using pk v by (simp add: VerifyEnclaveAttestation_def AttestationSigningBytes_def openCrypto_def PublicKey_def
        VerifySignature_def VerifyP256Signature_def)
  have "reg_step openCrypto ?r0 (NewNodeRegistry(?id \<mapsto> ?e1))"
    by (rule step_attest[OF a]) (simp add: MarkEnclaveAttested_def freshEntry_def)
  moreover have "reg_step openCrypto (NewNodeRegistry(?id \<mapsto> ?e1)) (NewNodeRegistry(?id \<mapsto> attestedEntry))"
  proof (rule step_refresh[where req = ?ref and nid = ?id and now = 0 and b = "[]"])
    show "RefreshSigningBytes openCrypto ?ref = Some []" by (simp add: RefreshSigningBytes_def openCrypto_def)
    show "VerifyNodeSignature openCrypto (NewNodeRegistry(?id \<mapsto> ?e1)) ?id (RefTimestamp ?ref) [] (RefSignature ?ref) 0 = None"
      using pk v by (simp add: VerifyNodeSignature_def PublicKey_def VerifySignature_def openCrypto_def)
    show "Refresh ?id (RefManifest ?ref) 0 (NewNodeRegistry(?id \<mapsto> ?e1)) = Some (NewNodeRegistry(?id \<mapsto> attestedEntry))"
      by (simp add: Refresh_def attestedEntry_def freshEntry_def)
  qed
  ultimately show ?thesis using sample_reachable unfolding reachable_registry_def
    by (meson rtranclp.rtrancl_into_rtrancl)
qed

definition attestedReg :: registry where
  "attestedReg = NewNodeRegistry(replicate 32 CHR ''0'' \<mapsto> attestedEntry)"

definition secretJob :: JobSpec where
  "secretJob = sampleJob\<lparr> Sensitivity := SensitivityHighRequiresAttestation \<rparr>"

definition attestedNode :: NodeWithLoad where
  "attestedNode = \<lparr> Manifest = manifest attestedEntry, InFlight = 0, EnclaveAttested = True, ObservedTPS = None \<rparr>"

lemma attested_candidates: "CandidatesWithLoad ''m'' [] 0 [replicate 32 CHR ''0''] attestedReg = [attestedNode]"
proof -
  have e: "rangeEntries [nid] (NewNodeRegistry(nid \<mapsto> attestedEntry)) = [(nid, attestedEntry)]" for nid
    by (simp add: rangeEntries_def)
  have l: "isLive 0 attestedEntry" by (simp add: isLive_def attestedEntry_def freshEntry_def livenessTTL_def)
  have s: "clusterStandbyNodeIDs 0 [nid] (NewNodeRegistry(nid \<mapsto> attestedEntry)) = []" for nid
    by (simp add: clusterStandbyNodeIDs_def attestedEntry_def emptyManifest_def)
  have h: "hasModel (manifest attestedEntry) ''m'' []"
    by (simp add: hasModel_def attestedEntry_def sampleModel_def)
  show ?thesis unfolding CandidatesWithLoad_def attestedReg_def e s
    by (simp add: l h attestedNode_def) (simp add: attestedEntry_def freshEntry_def)
qed

lemma secret_eligible: "eligible secretJob attestedNode"
  by (simp add: eligible_def secretJob_def sampleJob_def attestedNode_def emptyJob_def attestedEntry_def
      hasModel_def modelIsLoaded_def sampleModel_def emptyManifest_def)

lemma rank_single: "eligible job n \<Longrightarrow> rankCandidates r1 r2 [n] job messages = [n]"
  using rankCandidates_mset[of job "[n]" r1 r2 messages] by (simp add: drawOk_def)


text \<open>
  Identity confusion through a refresh: \<open>Refresh\<close> stores whatever \<open>NodeID\<close> the new
  manifest carries, so a node that refreshes with another node's id has its failed
  dispatches booked on that node: the failing attempt marks the other node unreachable and
  leaves the refreshing node live.
\<close>

theorem refresh_can_blame_another_node:
  assumes "r a = Some ea" and "r v = Some ev" and "a \<noteq> v"
    and "Refresh a m now r = Some r1" and "NodeID m = v" and "\<not> PullDelivery m"
    and "pushAnswer T 0 (httpClientForTarget (TargetFromManifest m)) (TargetFromManifest m)
           (dispatchPayload job messages) = TransportError"
    and "counters_ok r"
    and "tryNodes T job messages 1 0 [\<lparr> Manifest = m, InFlight = 0, EnclaveAttested = att, ObservedTPS = obs \<rparr>] r1 = (res, r2, tried)"
  shows "\<not> IsLive v now r2 \<and> r2 a = Some (ea\<lparr> manifest := m, lastSeen := now, unreachable := False \<rparr>) \<and>
         IsLive a now r2"
proof -
  have r1: "r1 = r(a \<mapsto> ea\<lparr> manifest := m, lastSeen := now, unreachable := False \<rparr>)"
    using assms(1,4) by (simp add: Refresh_def)
  have c: "counters_ok r1" using assms(1,8) by (auto simp: counters_ok_def r1)
  have "r2 = MarkUnreachable v r1"
    using assms(5,6,7,9) by (simp add: deliverJob_def dispatchToNode_def Let_def Decr_Incr_same[OF c])
  then have r2: "r2 = r1(v \<mapsto> ev\<lparr> unreachable := True \<rparr>)"
    using assms(2,3) by (simp add: MarkUnreachable_def r1)
  show ?thesis using assms(3) by (simp add: r2 IsLive_def isLive_def) (simp add: r1 isLive_def livenessTTL_def)
qed

theorem refresh_can_blame_another_node_witness:
  "\<not> IsLive ''v'' 0 (fst (snd (tryNodes deafTransport sampleJob [] 1 0
      [\<lparr> Manifest = emptyManifest\<lparr> NodeID := ''v'' \<rparr>, InFlight = 0, EnclaveAttested = False, ObservedTPS = None \<rparr>]
      (the (Refresh ''a'' (emptyManifest\<lparr> NodeID := ''v'' \<rparr>) 0
        [''a'' \<mapsto> freshEntry sampleRegistration 0, ''v'' \<mapsto> freshEntry sampleRegistration 0])))))"
proof -
  let ?m = "emptyManifest\<lparr> NodeID := ''v'' \<rparr>"
  let ?e = "freshEntry sampleRegistration 0"
  let ?r = "[''a'' \<mapsto> ?e, ''v'' \<mapsto> ?e]"
  obtain r1 where r1: "Refresh ''a'' ?m 0 ?r = Some r1" by (simp add: Refresh_def)
  obtain res r2 tried where t: "tryNodes deafTransport sampleJob [] 1 0
      [\<lparr> Manifest = ?m, InFlight = 0, EnclaveAttested = False, ObservedTPS = None \<rparr>] r1 = (res, r2, tried)"
    by (metis prod_cases3)
  have c: "counters_ok ?r" by (auto simp: counters_ok_def freshEntry_def split: if_splits)
  have "\<not> IsLive ''v'' 0 r2"
    using refresh_can_blame_another_node[OF _ _ _ r1 _ _ _ c t] by (simp add: emptyManifest_def deafTransport_def)
  then show ?thesis using r1 t by simp
qed

lemma resolve_spec:
  "(IsLive (Primary a) now r \<longrightarrow> ResolveForCycle a now r = Some (Primary a, True)) \<and>
   (\<forall>b cont. ResolveForCycle a now r = Some (b, cont) \<longrightarrow> IsLive b now r \<and> b \<in> set (Primary a # Backups a)) \<and>
   (ResolveForCycle a now r = None \<longleftrightarrow> (\<forall>b \<in> set (Primary a # Backups a). \<not> IsLive b now r))"
  using find_None_all[of "\<lambda>b. IsLive b now r" "Backups a"] find_Some_mem[of "\<lambda>b. IsLive b now r" "Backups a"]
  by (cases "find (\<lambda>b. IsLive b now r) (Backups a)") (simp_all add: ResolveForCycle_def)

text \<open>
  Sticky background assignments: the primary is a best eligible node and the backups are
  the next best in order, as many as the redundancy asks for; each cycle goes to the primary
  while it is live, else to the first live backup, and fails only when all of them are down.
\<close>

theorem background_assignment_sticky:
  assumes "AssignBackgroundJob job now ks r = Assigned a"
    and "ranked = sortRanked (scoreCandidates (CandidatesWithLoad (ModelID job) (QuantizationRequired job) now ks r) job)"
  shows "int (length (Backups a)) = RedundancyDepth job \<and>
         Primary a # Backups a = map (\<lambda>c. NodeID (Manifest (node c))) (take (Suc (length (Backups a))) ranked) \<and>
         sorted_wrt (\<ge>) (map score ranked) \<and>
         (IsLive (Primary a) now' r' \<longrightarrow> ResolveForCycle a now' r' = Some (Primary a, True)) \<and>
         (\<forall>b cont. ResolveForCycle a now' r' = Some (b, cont) \<longrightarrow> IsLive b now' r' \<and> b \<in> set (Primary a # Backups a)) \<and>
         (ResolveForCycle a now' r' = None \<longleftrightarrow> (\<forall>b \<in> set (Primary a # Backups a). \<not> IsLive b now' r')) \<and>
         GetAssignment (SpecJobID job) (SaveAssignment a s) = Some a"
proof -
  have d: "0 \<le> RedundancyDepth job" "nat (RedundancyDepth job) < length ranked"
    and a: "a = \<lparr> AssignJobID = SpecJobID job, Primary = NodeID (Manifest (node (ranked ! 0))),
      Backups = map (\<lambda>i. NodeID (Manifest (node (ranked ! i)))) [1..<nat (RedundancyDepth job) + 1], AssignSpec = job \<rparr>"
    using assms by (auto simp: AssignBackgroundJob_def Let_def split: if_splits)
  have "Primary a # Backups a = map (\<lambda>i. NodeID (Manifest (node (ranked ! i)))) [0..<Suc (nat (RedundancyDepth job))]"
    by (subst upt_conv_Cons) (simp_all add: a del: upt_Suc)
  moreover have "take (Suc (nat (RedundancyDepth job))) ranked = map ((!) ranked) [0..<Suc (nat (RedundancyDepth job))]"
    using d by (intro nth_equalityI) (auto simp del: upt_Suc)
  moreover have len: "length (Backups a) = nat (RedundancyDepth job)" by (simp add: a)
  ultimately have "Primary a # Backups a = map (\<lambda>c. NodeID (Manifest (node c))) (take (Suc (length (Backups a))) ranked)"
    by simp
  moreover have "int (length (Backups a)) = RedundancyDepth job" using d(1) len by simp
  moreover have "GetAssignment (SpecJobID job) (SaveAssignment a s) = Some a"
    by (simp add: a GetAssignment_def SaveAssignment_def)
  moreover have "sorted_wrt (\<ge>) (map score ranked)" unfolding assms(2) by (rule sortRanked_sorted)
  moreover note resolve_spec[of a now' r']
  ultimately show ?thesis by - (elim conjE, intro conjI; assumption)
qed

lemma sample_candidates:
  "CandidatesWithLoad ''m'' [] 0 [replicate 32 CHR ''0''] attestedReg = [attestedNode] \<Longrightarrow>
   ModelID secretJob = ''m'' \<Longrightarrow> scoreCandidates [attestedNode] secretJob = [\<lparr> score = 1, node = attestedNode \<rparr>]"
  by (simp add: scoreCandidates_def ScoreForFastLane_def effectiveManifest_def attestedNode_def attestedEntry_def
      secretJob_def sampleJob_def emptyJob_def sampleModel_def hasModel_def modelIsLoaded_def emptyManifest_def)

theorem background_assignment_sticky_witness:
  "\<exists>a. AssignBackgroundJob secretJob 0 [replicate 32 CHR ''0''] attestedReg = Assigned a \<and>
     ResolveForCycle a 0 attestedReg = Some (Primary a, True)"
proof -
  have j: "ModelID secretJob = ''m''" "QuantizationRequired secretJob = []" "RedundancyDepth secretJob = 0"
    by (simp_all add: secretJob_def sampleJob_def emptyJob_def)
  obtain a where a: "AssignBackgroundJob secretJob 0 [replicate 32 CHR ''0''] attestedReg = Assigned a"
    "Primary a = NodeID (Manifest attestedNode)"
    unfolding AssignBackgroundJob_def j Let_def attested_candidates sample_candidates[OF attested_candidates j(1)]
    by (simp add: sortRanked_def)
  have "IsLive (Primary a) 0 attestedReg"
    by (simp add: a(2) attestedNode_def attestedReg_def IsLive_def isLive_def attestedEntry_def freshEntry_def livenessTTL_def)
  then show ?thesis using background_assignment_sticky[OF a(1) refl, of 0 attestedReg Map.empty] a(1) by blast
qed

text \<open>
  A negative redundancy depth passes the validation of every tier but the highest and
  then makes the assignment panic, whatever the state of the registry.
\<close>

theorem negative_redundancy_panics:
  assumes "RedundancyDepth job < 0"
    and "Sensitivity job \<noteq> SensitivityHighRequiresAttestation"
    and "Lane job = JobLaneBackground" and "Recurrence job \<noteq> None"
  shows "Validate job = None \<and> AssignBackgroundJob job now ks r = AssignPanics"
  using assms by (simp add: Validate_def JobLaneBackground_def JobLaneFast_def AssignBackgroundJob_def Let_def)

theorem negative_redundancy_panics_witness:
  "AssignBackgroundJob (sampleJob\<lparr> RedundancyDepth := - 1, Lane := JobLaneBackground,
     Recurrence := Some \<lparr> IntervalSeconds = 60, MaxJitterSeconds = 0 \<rparr> \<rparr>) 0 [] NewNodeRegistry = AssignPanics"
  using negative_redundancy_panics[of "sampleJob\<lparr> RedundancyDepth := - 1, Lane := JobLaneBackground,
     Recurrence := Some \<lparr> IntervalSeconds = 60, MaxJitterSeconds = 0 \<rparr> \<rparr>" 0 "[]" NewNodeRegistry]
  by (simp add: sampleJob_def SensitivityLow_def SensitivityHighRequiresAttestation_def)

end
