(* ===== verification/Stores.thy ===== *)
theory Stores
  imports TicketStore Router
begin

text \<open>
  Two short-lived stores of the coordinator: the node reservations of
  \<open>internal/coordinator/reservation.go\<close>, an instance of the ticket contract, and the
  registry of coordination participants of \<open>internal/coordinator/coordination.go\<close>.
\<close>

section \<open>Reservations\<close>

definition ReservationTTL :: duration where "ReservationTTL = 30 * second"

record Reservation =
  ResTarget :: NodeTarget
  ResExpiresAt :: time

type_synonym reservation_store = "string \<rightharpoonup> Reservation"

definition NewReservationStore :: reservation_store where "NewReservationStore = Map.empty"

text \<open>The part of \<open>Create\<close> under the lock.\<close>

definition storeReservation :: "NodeTarget \<Rightarrow> string \<Rightarrow> time \<Rightarrow> reservation_store \<Rightarrow> reservation_store" where
  "storeReservation target rid now s =
     (evict (\<lambda>_ v. now > ResExpiresAt v) s)(rid \<mapsto> \<lparr> ResTarget = target, ResExpiresAt = now + ReservationTTL \<rparr>)"

text \<open>The argument \<open>raw\<close> is what \<open>rand.Read\<close> delivers, None its error.\<close>

definition CreateReservation :: "bytes option \<Rightarrow> NodeTarget \<Rightarrow> time \<Rightarrow> reservation_store \<Rightarrow>
    string option \<times> reservation_store" where
  "CreateReservation raw target now s = (case raw of
       None \<Rightarrow> (None, s)
     | Some bs \<Rightarrow> (let rid = hexEncode bs in (Some rid, storeReservation target rid now s)))"

definition ResolveReservation :: "string \<Rightarrow> time \<Rightarrow> reservation_store \<Rightarrow> Reservation option \<times> reservation_store" where
  "ResolveReservation rid now s = (case s rid of
       None \<Rightarrow> (None, s)
     | Some r \<Rightarrow>
         let s' = s(rid := None)
         in if now > ResExpiresAt r then (None, s') else (Some r, s'))"

definition liveReservations :: "reservation_store \<Rightarrow> string \<Rightarrow> (NodeTarget \<times> time) option" where
  "liveReservations s k = map_option (\<lambda>r. (ResTarget r, ResExpiresAt r)) (s k)"

definition redeemReservation :: "unit \<Rightarrow> string \<Rightarrow> time \<Rightarrow> reservation_store \<Rightarrow> NodeTarget option \<times> reservation_store" where
  "redeemReservation c rid now s = (case ResolveReservation rid now s of (r, s') \<Rightarrow> (map_option ResTarget r, s'))"

interpretation res: honest_ticket_store liveReservations ReservationTTL storeReservation redeemReservation
  NewReservationStore "\<lambda>_ _ _. True"
proof unfold_locales
  show "liveReservations NewReservationStore = Map.empty"
    by (rule ext) (simp add: liveReservations_def NewReservationStore_def)
  show "liveReservations (storeReservation t k now s) =
      (evict (\<lambda>_. lapsed now) (liveReservations s))(k \<mapsto> (t, now + ReservationTTL))" for t k now s
    by (rule ext) (simp add: liveReservations_def storeReservation_def evict_def lapsed_def split: option.splits)
  show "redeemReservation c k now s = (Some t, s') \<Longrightarrow>
      (\<exists>e. liveReservations s k = Some (t, e) \<and> now \<le> e) \<and>
      (liveReservations s' = (liveReservations s)(k := None) \<or>
       liveReservations s' = evict (\<lambda>_. lapsed now) ((liveReservations s)(k := None)))"
    for c k now s t s'
    by (auto simp: redeemReservation_def ResolveReservation_def liveReservations_def Let_def fun_eq_iff
        split: option.splits if_splits)
  show "redeemReservation c k now s = (None, s') \<Longrightarrow>
      liveReservations s' = liveReservations s \<or> liveReservations s' = (liveReservations s)(k := None)" for c k now s s'
    by (auto simp: redeemReservation_def ResolveReservation_def liveReservations_def Let_def fun_eq_iff
        split: option.splits if_splits)
  show "liveReservations s k = Some (t, e) \<Longrightarrow> now \<le> e \<Longrightarrow> True \<Longrightarrow> fst (redeemReservation c k now s) = Some t"
    for s k t e now c
    by (auto simp: redeemReservation_def ResolveReservation_def liveReservations_def Let_def)
qed

section \<open>Coordination participants\<close>

definition CoordinationTTL :: duration where "CoordinationTTL = 90 * second"

record CoordinationParticipant =
  DeviceID :: string
  Role :: string
  IsMobile :: bool
  PartGeographicHint :: string
  Region :: string
  LastSeenAt :: string
  PointersServed :: int

record coordEntry =
  participant :: CoordinationParticipant
  lastSeen :: time

type_synonym coord_registry = "string \<rightharpoonup> coordEntry"

definition NewCoordinationRegistry :: coord_registry where "NewCoordinationRegistry = Map.empty"

text \<open>\<open>rfc3339\<close> is the text form of a time, which is shown and never read back.\<close>

definition Announce :: "(time \<Rightarrow> string) \<Rightarrow> CoordinationParticipant \<Rightarrow> time \<Rightarrow> coord_registry \<Rightarrow> coord_registry" where
  "Announce rfc3339 p now r =
     (if DeviceID p = [] then r
      else let p = (if Role p = [] then p\<lparr> Role := ''pointer_host'' \<rparr> else p);
               p = p\<lparr> LastSeenAt := rfc3339 now \<rparr>;
               p = (case r (DeviceID p) of
                      None \<Rightarrow> p
                    | Some prev \<Rightarrow> p\<lparr> PointersServed := PointersServed (participant prev) \<rparr>)
           in r(DeviceID p \<mapsto> \<lparr> participant = p, lastSeen = now \<rparr>))"

definition RecordPointerServed :: "string \<Rightarrow> coord_registry \<Rightarrow> bool \<times> coord_registry" where
  "RecordPointerServed deviceID r =
     (if deviceID = [] then (False, r)
      else case r deviceID of
          None \<Rightarrow> (False, r)
        | Some e \<Rightarrow> (True, r(deviceID \<mapsto> e\<lparr> participant := (participant e)
              \<lparr> PointersServed := PointersServed (participant e) + 1 \<rparr> \<rparr>)))"

definition Withdraw :: "string \<Rightarrow> coord_registry \<Rightarrow> coord_registry" where
  "Withdraw deviceID r = r(deviceID := None)"

text \<open>The loop over the map visits its keys in the order \<open>ks\<close>.\<close>

definition coordExpired :: "time \<Rightarrow> coordEntry \<Rightarrow> bool" where
  "coordExpired now e \<longleftrightarrow> timeSub now (lastSeen e) > CoordinationTTL"

definition SnapshotAt :: "string list \<Rightarrow> time \<Rightarrow> coord_registry \<Rightarrow> CoordinationParticipant list \<times> coord_registry" where
  "SnapshotAt ks now r =
     (concat (map (\<lambda>k. case r k of None \<Rightarrow> [] | Some e \<Rightarrow> if coordExpired now e then [] else [participant e]) ks),
      evict (\<lambda>_. coordExpired now) r)"

definition Count :: "string list \<Rightarrow> time \<Rightarrow> coord_registry \<Rightarrow> nat \<times> coord_registry" where
  "Count ks now r = (case SnapshotAt ks now r of (ps, r') \<Rightarrow> (length ps, r'))"

lemma SnapshotAt_mem:
  assumes "range_order ks r"
  shows "p \<in> set (fst (SnapshotAt ks now r)) \<longleftrightarrow> (\<exists>k e. r k = Some e \<and> \<not> coordExpired now e \<and> p = participant e)"
proof
  assume "p \<in> set (fst (SnapshotAt ks now r))"
  then show "\<exists>k e. r k = Some e \<and> \<not> coordExpired now e \<and> p = participant e"
    by (auto simp: SnapshotAt_def split: option.splits if_splits) metis
next
  assume "\<exists>k e. r k = Some e \<and> \<not> coordExpired now e \<and> p = participant e"
  then obtain k e where k: "r k = Some e" "\<not> coordExpired now e" "p = participant e" by blast
  then have "k \<in> set ks" using assms by (auto simp: range_order_def)
  then show "p \<in> set (fst (SnapshotAt ks now r))" using k by (auto simp: SnapshotAt_def intro!: bexI[of _ k])
qed

lemma Announce_entry:
  assumes "DeviceID p \<noteq> []"
  shows "\<exists>e. Announce fmt p now r (DeviceID p) = Some e \<and> lastSeen e = now \<and> PointersServed (participant e) =
      (case r (DeviceID p) of None \<Rightarrow> PointersServed p | Some old \<Rightarrow> PointersServed (participant old))"
proof -
  define q where "q = (if Role p = [] then p\<lparr> Role := ''pointer_host'' \<rparr> else p)\<lparr> LastSeenAt := fmt now \<rparr>"
  have q: "DeviceID q = DeviceID p" "PointersServed q = PointersServed p" by (simp_all add: q_def)
  have "Announce fmt p now r = r(DeviceID p \<mapsto> \<lparr> participant = (case r (DeviceID p) of None \<Rightarrow> q
      | Some prev \<Rightarrow> q\<lparr> PointersServed := PointersServed (participant prev) \<rparr>), lastSeen = now \<rparr>)"
    using assms by (cases "r (DeviceID p)") (simp_all add: Announce_def q_def Let_def)
  then show ?thesis by (cases "r (DeviceID p)") (simp_all add: q)
qed

section \<open>Properties\<close>

text \<open>
  A reservation is good for one job within thirty seconds: a resolved reservation was
  created for exactly this target at most thirty seconds before and not resolved since, and
  one that is presented in time, before anything else touched its id, always resolves.
\<close>

theorem reservation_single_use:
  assumes "redeemReservation () rid now (res.run evs) = (Some target, s')"
  shows "(\<exists>pre tau post. evs = pre @ Issue target rid tau # post \<and> now \<le> tau + ReservationTTL \<and>
            (\<forall>i < length post. \<forall>tau'. post ! i = Redeem () rid tau' \<longrightarrow>
               fst (redeemReservation () rid tau' (res.run (pre @ Issue target rid tau # take i post))) = None)) \<and>
         (\<forall>later. fst (redeemReservation () rid later s') = None) \<and>
         (\<forall>pre post t tau later. (\<forall>ev \<in> set post. eventKey ev \<noteq> rid \<and> eventTime ev \<le> later) \<and>
            later \<le> tau + ReservationTTL \<longrightarrow>
            fst (redeemReservation () rid later (res.run (pre @ Issue t rid tau # post))) = Some t)"
proof (intro conjI allI impI)
  from res.redeem_sound[OF assms] obtain pre tau post where p: "evs = pre @ Issue target rid tau # post"
    "now \<le> tau + ReservationTTL" "\<forall>i < length post. \<forall>c' tau'. post ! i = Redeem c' rid tau' \<longrightarrow>
      fst (redeemReservation c' rid tau' (res.run (pre @ Issue target rid tau # take i post))) = None" by blast
  then show "\<exists>pre tau post. evs = pre @ Issue target rid tau # post \<and> now \<le> tau + ReservationTTL \<and>
            (\<forall>i < length post. \<forall>tau'. post ! i = Redeem () rid tau' \<longrightarrow>
               fst (redeemReservation () rid tau' (res.run (pre @ Issue target rid tau # take i post))) = None)" by blast
next
  fix later
  have "liveReservations s' rid = None" by (rule res.redeem_consumes[OF assms])
  then show "fst (redeemReservation () rid later s') = None"
    by (simp add: liveReservations_def redeemReservation_def ResolveReservation_def)
next
  fix pre post :: "(NodeTarget, unit) ticket_event list" and t tau later
  assume "(\<forall>ev \<in> set post. eventKey ev \<noteq> rid \<and> eventTime ev \<le> later) \<and> later \<le> tau + ReservationTTL"
  then show "fst (redeemReservation () rid later (res.run (pre @ Issue t rid tau # post))) = Some t"
    by (intro res.redeem_complete) auto
qed

theorem reservation_single_use_witness:
  "\<exists>s'. redeemReservation () ''r'' 5 (res.run [Issue \<lparr> TargetNodeID = ''n'', Endpoint = ''e'', TLSFingerprint = [] \<rparr> ''r'' 0])
     = (Some \<lparr> TargetNodeID = ''n'', Endpoint = ''e'', TLSFingerprint = [] \<rparr>, s') \<and>
     fst (redeemReservation () ''r'' 6 s') = None"
proof -
  let ?t = "\<lparr> TargetNodeID = ''n'', Endpoint = ''e'', TLSFingerprint = [] \<rparr>"
  have "fst (redeemReservation () ''r'' 5 (res.run ([] @ Issue ?t ''r'' 0 # []))) = Some ?t"
    by (rule res.redeem_complete) (simp_all add: ReservationTTL_def)
  then obtain s' where r: "redeemReservation () ''r'' 5 (res.run [Issue ?t ''r'' 0]) = (Some ?t, s')"
    by (cases "redeemReservation () ''r'' 5 (res.run [Issue ?t ''r'' 0])") simp
  from reservation_single_use[OF r] r show ?thesis by blast
qed

text \<open>
  Coordination participants: a snapshot shows exactly those heard from within ninety
  seconds and drops the others; announcing again keeps the tally of served pointers; but
  serving a pointer is credited to a device that is known, however long it has been silent,
  as long as no snapshot has swept it out.
\<close>

theorem coordination_registry:
  assumes "range_order ks r" and "DeviceID p \<noteq> []"
  shows "(\<forall>q. q \<in> set (fst (SnapshotAt ks now r)) \<longleftrightarrow>
            (\<exists>k e. r k = Some e \<and> q = participant e \<and> timeSub now (lastSeen e) \<le> CoordinationTTL)) \<and>
         (\<forall>k e. snd (SnapshotAt ks now r) k = Some e \<longrightarrow> timeSub now (lastSeen e) \<le> CoordinationTTL) \<and>
         (\<exists>e. Announce fmt p now r (DeviceID p) = Some e \<and> lastSeen e = now \<and>
            PointersServed (participant e) =
              (case r (DeviceID p) of None \<Rightarrow> PointersServed p | Some old \<Rightarrow> PointersServed (participant old))) \<and>
         (\<forall>d. fst (RecordPointerServed d r) \<longleftrightarrow> d \<noteq> [] \<and> r d \<noteq> None) \<and>
         fst (RecordPointerServed (DeviceID p) (Announce fmt p now r)) \<and>
         \<not> fst (RecordPointerServed (DeviceID p) (Withdraw (DeviceID p) r))"
proof (intro conjI allI)
  show "q \<in> set (fst (SnapshotAt ks now r)) \<longleftrightarrow>
     (\<exists>k e. r k = Some e \<and> q = participant e \<and> timeSub now (lastSeen e) \<le> CoordinationTTL)" for q
    unfolding SnapshotAt_mem[OF assms(1)] by (auto simp: coordExpired_def not_less)
  show "snd (SnapshotAt ks now r) k = Some e \<longrightarrow> timeSub now (lastSeen e) \<le> CoordinationTTL" for k e
    by (simp add: SnapshotAt_def coordExpired_def not_less)
  show "\<exists>e. Announce fmt p now r (DeviceID p) = Some e \<and> lastSeen e = now \<and> PointersServed (participant e) =
      (case r (DeviceID p) of None \<Rightarrow> PointersServed p | Some old \<Rightarrow> PointersServed (participant old))"
    by (rule Announce_entry[OF assms(2)])
  show "fst (RecordPointerServed d r) \<longleftrightarrow> d \<noteq> [] \<and> r d \<noteq> None" for d
    by (auto simp: RecordPointerServed_def split: option.splits)
  show "fst (RecordPointerServed (DeviceID p) (Announce fmt p now r))"
    using Announce_entry[OF assms(2), of fmt now r] assms(2) by (auto simp: RecordPointerServed_def)
  show "\<not> fst (RecordPointerServed (DeviceID p) (Withdraw (DeviceID p) r))"
    by (simp add: RecordPointerServed_def Withdraw_def)
qed

definition samplePhone :: CoordinationParticipant where
  "samplePhone = \<lparr> DeviceID = ''d'', Role = [], IsMobile = True, PartGeographicHint = [], Region = ''eu'',
     LastSeenAt = [], PointersServed = 0 \<rparr>"

theorem coordination_registry_witness:
  "fst (RecordPointerServed ''d'' (Announce (\<lambda>_. []) samplePhone 0 NewCoordinationRegistry)) \<and>
   fst (SnapshotAt [] 0 NewCoordinationRegistry) = []"
proof -
  have "range_order [] NewCoordinationRegistry" by (simp add: range_order_def NewCoordinationRegistry_def)
  moreover have "DeviceID samplePhone \<noteq> []" by (simp add: samplePhone_def)
  ultimately have "fst (RecordPointerServed (DeviceID samplePhone) (Announce (\<lambda>_. []) samplePhone 0 NewCoordinationRegistry))"
    using coordination_registry by blast
  then show ?thesis by (simp add: SnapshotAt_def) (simp add: samplePhone_def)
qed

end
