(* ===== verification/Wallet.thy ===== *)
theory Wallet
  imports TicketStore Protocol
begin

text \<open>
  Account identity of \<open>internal/wallet/wallet.go\<close>: addresses derived from account keys,
  one-shot login challenges (an instance of the ticket contract) and the links from devices
  to the accounts that earn for them.
\<close>

section \<open>Addresses and messages\<close>

definition AddressPrefix :: string where "AddressPrefix = ''oim''"
definition ChallengeTTL :: duration where "ChallengeTTL = 5 * minute"

datatype wallet_error = GenerateNonce | ErrUnknownChallenge | ErrChallengeExpired
  | ErrKeyAddressMismatch | ErrBadSignature

definition AddressFromPubKey :: "crypto \<Rightarrow> bytes \<Rightarrow> string" where
  "AddressFromPubKey C pubKey = AddressPrefix @ hexEncode (sha256 C pubKey)"

record Challenge =
  ChAddress :: string
  ChNonce :: string
  ChExpiresAt :: time

definition SigningMessage :: "Challenge \<Rightarrow> bytes" where
  "SigningMessage c = bytes_of (''oim-account-auth:'' @ ChAddress c @ '':'' @ ChNonce c)"

definition deviceLinkMessage :: "string \<Rightarrow> node_id \<Rightarrow> bytes" where
  "deviceLinkMessage accountAddress deviceNodeID =
     bytes_of (''oim-account-link:'' @ accountAddress @ '':'' @ deviceNodeID)"

record WalletManager =
  challenges :: "string \<rightharpoonup> Challenge"
  deviceLinks :: "node_id \<rightharpoonup> string"

definition NewManager :: WalletManager where
  "NewManager = \<lparr> challenges = Map.empty, deviceLinks = Map.empty \<rparr>"

section \<open>Challenges\<close>

definition storeChallenge :: "string \<Rightarrow> string \<Rightarrow> time \<Rightarrow> WalletManager \<Rightarrow> WalletManager" where
  "storeChallenge address nonce now m =
     m\<lparr> challenges := (evict (\<lambda>_ c. now > ChExpiresAt c) (challenges m))
         (nonce \<mapsto> \<lparr> ChAddress = address, ChNonce = nonce, ChExpiresAt = now + ChallengeTTL \<rparr>) \<rparr>"

text \<open>The argument \<open>raw\<close> is what \<open>rand.Read\<close> delivers, None its error.\<close>

definition IssueChallenge :: "bytes option \<Rightarrow> string \<Rightarrow> time \<Rightarrow> WalletManager \<Rightarrow>
    (wallet_error + Challenge) \<times> WalletManager" where
  "IssueChallenge raw address now m = (case raw of
       None \<Rightarrow> (Inl GenerateNonce, m)
     | Some bs \<Rightarrow>
         let nonce = hexEncode bs
         in (Inr \<lparr> ChAddress = address, ChNonce = nonce, ChExpiresAt = now + ChallengeTTL \<rparr>,
             storeChallenge address nonce now m))"

definition VerifyChallenge :: "crypto \<Rightarrow> string \<Rightarrow> string \<Rightarrow> bytes \<Rightarrow> bytes \<Rightarrow> time \<Rightarrow> WalletManager \<Rightarrow>
    wallet_error option \<times> WalletManager" where
  "VerifyChallenge C address nonce accountPubKey signature now m =
     (if AddressFromPubKey C accountPubKey \<noteq> address then (Some ErrKeyAddressMismatch, m)
      else case challenges m nonce of
          None \<Rightarrow> (Some ErrUnknownChallenge, m)
        | Some c \<Rightarrow>
            let m' = m\<lparr> challenges := (challenges m)(nonce := None) \<rparr>
            in if ChAddress c \<noteq> address then (Some ErrUnknownChallenge, m')
               else if now > ChExpiresAt c then (Some ErrChallengeExpired, m')
               else if \<not> VerifySignature C accountPubKey (SigningMessage c) signature then (Some ErrBadSignature, m')
               else (None, m'))"

section \<open>Device links\<close>

definition LinkDevice :: "crypto \<Rightarrow> string \<Rightarrow> node_id \<Rightarrow> bytes \<Rightarrow> bytes \<Rightarrow> WalletManager \<Rightarrow>
    wallet_error option \<times> WalletManager" where
  "LinkDevice C accountAddress deviceNodeID accountPubKey linkSig m =
     (if AddressFromPubKey C accountPubKey \<noteq> accountAddress then (Some ErrKeyAddressMismatch, m)
      else if \<not> VerifySignature C accountPubKey (deviceLinkMessage accountAddress deviceNodeID) linkSig
        then (Some ErrBadSignature, m)
      else (None, m\<lparr> deviceLinks := (deviceLinks m)(deviceNodeID \<mapsto> accountAddress) \<rparr>))"

definition AccountForDevice :: "node_id \<Rightarrow> WalletManager \<Rightarrow> string option" where
  "AccountForDevice deviceNodeID m = deviceLinks m deviceNodeID"

definition UnlinkDevice :: "crypto \<Rightarrow> string \<Rightarrow> node_id \<Rightarrow> bytes \<Rightarrow> bytes \<Rightarrow> WalletManager \<Rightarrow>
    wallet_error option \<times> WalletManager" where
  "UnlinkDevice C accountAddress deviceNodeID accountPubKey sig m =
     (if AddressFromPubKey C accountPubKey \<noteq> accountAddress then (Some ErrKeyAddressMismatch, m)
      else if \<not> VerifySignature C accountPubKey (deviceLinkMessage accountAddress deviceNodeID) sig
        then (Some ErrBadSignature, m)
      else (None, if deviceLinks m deviceNodeID = Some accountAddress
                  then m\<lparr> deviceLinks := (deviceLinks m)(deviceNodeID := None) \<rparr> else m))"

section \<open>Challenges are tickets\<close>

definition liveChallenges :: "WalletManager \<Rightarrow> string \<Rightarrow> (string \<times> time) option" where
  "liveChallenges m k = map_option (\<lambda>c. (ChAddress c, ChExpiresAt c)) (challenges m k)"

text \<open>A credential is the claimed address, the account key and the signature.\<close>

definition redeemChallenge :: "crypto \<Rightarrow> string \<times> bytes \<times> bytes \<Rightarrow> string \<Rightarrow> time \<Rightarrow> WalletManager \<Rightarrow>
    string option \<times> WalletManager" where
  "redeemChallenge C = (\<lambda>(address, pk, sig) nonce now m.
     case VerifyChallenge C address nonce pk sig now m of
       (None, m') \<Rightarrow> (Some address, m')
     | (Some e, m') \<Rightarrow> (None, m'))"

lemma VerifyChallenge_ok:
  assumes "VerifyChallenge C address nonce pk sig now m = (None, m')"
  shows "\<exists>c. challenges m nonce = Some c \<and> ChAddress c = address \<and> now \<le> ChExpiresAt c \<and>
    AddressFromPubKey C pk = address \<and> VerifySignature C pk (SigningMessage c) sig \<and>
    m' = m\<lparr> challenges := (challenges m)(nonce := None) \<rparr>"
  using assms by (auto simp: VerifyChallenge_def Let_def not_less split: option.splits if_splits)

lemma VerifyChallenge_err:
  "VerifyChallenge C address nonce pk sig now m = (Some e, m') \<Longrightarrow>
     m' = m \<or> m' = m\<lparr> challenges := (challenges m)(nonce := None) \<rparr>"
  by (auto simp: VerifyChallenge_def Let_def split: option.splits if_splits)

lemma redeemChallenge_cases:
  "redeemChallenge C (address, pk, sig) nonce now m = (r, m') \<longleftrightarrow>
     (\<exists>err. VerifyChallenge C address nonce pk sig now m = (err, m') \<and> r = (if err = None then Some address else None))"
  by (cases "VerifyChallenge C address nonce pk sig now m"; cases "fst (VerifyChallenge C address nonce pk sig now m)")
    (auto simp: redeemChallenge_def)

lemma redeemChallenge_snd:
  "VerifyChallenge C address nonce pk sig now m = (err, m') \<Longrightarrow> snd (redeemChallenge C (address, pk, sig) nonce now m) = m'"
  by (cases err) (simp_all add: redeemChallenge_def)

interpretation wal: ticket_store liveChallenges ChallengeTTL storeChallenge "redeemChallenge C" NewManager for C
proof unfold_locales
  show "liveChallenges NewManager = Map.empty"
    by (rule ext) (simp add: liveChallenges_def NewManager_def)
  show "liveChallenges (storeChallenge t k now s) =
      (evict (\<lambda>_. lapsed now) (liveChallenges s))(k \<mapsto> (t, now + ChallengeTTL))" for t k now s
    by (rule ext) (simp add: liveChallenges_def storeChallenge_def evict_def lapsed_def split: option.splits)
  fix c :: "string \<times> bytes \<times> bytes" and k now s t s'
  obtain address pk sig where c: "c = (address, pk, sig)" by (cases c)
  show "redeemChallenge C c k now s = (Some t, s') \<Longrightarrow>
      (\<exists>e. liveChallenges s k = Some (t, e) \<and> now \<le> e) \<and>
      (liveChallenges s' = (liveChallenges s)(k := None) \<or>
       liveChallenges s' = evict (\<lambda>_. lapsed now) ((liveChallenges s)(k := None)))"
    by (auto simp: c redeemChallenge_cases liveChallenges_def fun_eq_iff split: if_splits dest!: VerifyChallenge_ok)
  show "redeemChallenge C c k now s = (None, s') \<Longrightarrow>
      liveChallenges s' = liveChallenges s \<or> liveChallenges s' = (liveChallenges s)(k := None)"
    by (auto simp: c redeemChallenge_cases liveChallenges_def fun_eq_iff split: if_splits dest!: VerifyChallenge_err)
qed

lemma storeChallenge_nonce:
  "challenges (storeChallenge t k' now m) k = Some c \<Longrightarrow> (k = k' \<and> ChNonce c = k') \<or> challenges m k = Some c"
  by (auto simp: storeChallenge_def split: if_splits)

lemma wallet_nonces: "challenges (wal.run C evs) k = Some c \<Longrightarrow> ChNonce c = k"
proof (induction evs rule: rev_induct)
  case Nil
  then show ?case unfolding wal.run_Nil by (simp add: NewManager_def)
next
  case (snoc ev evs)
  show ?case
  proof (cases ev)
    case (Issue t k' now)
    have "challenges (storeChallenge t k' now (wal.run C evs)) k = Some c"
      using snoc.prems by (simp only: Issue wal.run_snoc wal.step_def ticket_event.case)
    then show ?thesis using storeChallenge_nonce snoc.IH by blast
  next
    case (Redeem cr k' now)
    obtain address pk sig where cr: "cr = (address, pk, sig)" by (cases cr)
    obtain err m' where v: "VerifyChallenge C address k' pk sig now (wal.run C evs) = (err, m')"
      by (cases "VerifyChallenge C address k' pk sig now (wal.run C evs)")
    then have "snd (redeemChallenge C cr k' now (wal.run C evs)) = m'"
      unfolding cr by (rule redeemChallenge_snd)
    then have "wal.run C (evs @ [ev]) = m'"
      by (simp only: Redeem wal.run_snoc wal.step_def ticket_event.case)
    moreover have "challenges m' = challenges (wal.run C evs) \<or>
        challenges m' = (challenges (wal.run C evs))(k' := None)"
      using v VerifyChallenge_ok[of C address k' pk sig now] VerifyChallenge_err[of C address k' pk sig now]
      by (cases err) fastforce+
    ultimately show ?thesis using snoc by (auto split: if_splits)
  qed
qed

section \<open>Link histories\<close>

datatype link_event = LinkEv string node_id bytes bytes | UnlinkEv string node_id bytes bytes

fun linkStep :: "crypto \<Rightarrow> link_event \<Rightarrow> WalletManager \<Rightarrow> WalletManager" where
  "linkStep C (LinkEv a d pk sig) m = snd (LinkDevice C a d pk sig m)"
| "linkStep C (UnlinkEv a d pk sig) m = snd (UnlinkDevice C a d pk sig m)"

lemma linkStep_links:
  "deviceLinks (linkStep C ev m) d = Some a \<Longrightarrow> deviceLinks m d = Some a \<or>
     (\<exists>pk sig. ev = LinkEv a d pk sig \<and> AddressFromPubKey C pk = a \<and> VerifySignature C pk (deviceLinkMessage a d) sig)"
  by (cases ev) (auto simp: LinkDevice_def UnlinkDevice_def split: if_splits)

lemma links_authorised:
  "deviceLinks (fold (linkStep C) evs NewManager) d = Some a \<Longrightarrow>
     \<exists>pk sig. LinkEv a d pk sig \<in> set evs \<and> AddressFromPubKey C pk = a \<and> VerifySignature C pk (deviceLinkMessage a d) sig"
proof (induction evs rule: rev_induct)
  case (snoc ev evs)
  then show ?case using linkStep_links[of C ev "fold (linkStep C) evs NewManager" d a] by auto
qed (simp add: NewManager_def)

lemma link_auth_disjoint: "deviceLinkMessage a d \<noteq> SigningMessage c"
  unfolding deviceLinkMessage_def SigningMessage_def bytes_of_inj by simp

section \<open>Properties\<close>

text \<open>
  C20. A login proves the account key: when a challenge verifies, the presented key derives
  to the address, it signed the login message of this address and nonce, the nonce was
  issued for this address at most five minutes before and has not been used since; and
  presenting the nonce again fails.
\<close>

theorem wallet_login_sound:
  assumes "VerifyChallenge C address nonce pk sig now (wal.run C evs) = (None, m')"
  shows "AddressFromPubKey C pk = address \<and>
         VerifySignature C pk (bytes_of (''oim-account-auth:'' @ address @ '':'' @ nonce)) sig \<and>
         (\<exists>pre tau post. evs = pre @ Issue address nonce tau # post \<and> now \<le> tau + ChallengeTTL \<and>
            (\<forall>i < length post. \<forall>cr tau'. post ! i = Redeem cr nonce tau' \<longrightarrow>
               fst (redeemChallenge C cr nonce tau' (wal.run C (pre @ Issue address nonce tau # take i post))) = None)) \<and>
         (\<forall>address' pk' sig' later. fst (VerifyChallenge C address' nonce pk' sig' later m') \<noteq> None)"
proof -
  from VerifyChallenge_ok[OF assms] obtain c where c: "challenges (wal.run C evs) nonce = Some c" "ChAddress c = address"
    "AddressFromPubKey C pk = address" "VerifySignature C pk (SigningMessage c) sig"
    "m' = (wal.run C evs)\<lparr> challenges := (challenges (wal.run C evs))(nonce := None) \<rparr>" by blast
  have n: "ChNonce c = nonce" by (rule wallet_nonces[OF c(1)])
  have "redeemChallenge C (address, pk, sig) nonce now (wal.run C evs) = (Some address, m')"
    using assms by (simp add: redeemChallenge_def)
  from wal.redeem_sound[OF this] obtain pre tau post where "evs = pre @ Issue address nonce tau # post"
    "now \<le> tau + ChallengeTTL" "\<forall>i < length post. \<forall>cr tau'. post ! i = Redeem cr nonce tau' \<longrightarrow>
      fst (redeemChallenge C cr nonce tau' (wal.run C (pre @ Issue address nonce tau # take i post))) = None" by blast
  moreover have "fst (VerifyChallenge C address' nonce pk' sig' later m') \<noteq> None" for address' pk' sig' later
    by (simp add: VerifyChallenge_def c(5))
  ultimately show ?thesis using c n by (auto simp: SigningMessage_def)
qed

definition echoCrypto :: crypto where
  "echoCrypto = \<lparr> sha256 = (\<lambda>x. replicate 32 7), ed25519Verify = (\<lambda>pk m s. s = m), ed25519Sign = (\<lambda>sk m. m),
     p256Verify = (\<lambda>pk m s. s = m), marshalManifest = (\<lambda>m. Some []), marshalRefresh = (\<lambda>m t. Some []),
     marshalClaim = (\<lambda>n t. Some []), marshalAttestation = (\<lambda>n k t. Some []), marshalDigest = (\<lambda>d. Some []) \<rparr>"

definition echoAddress :: string where
  "echoAddress = AddressFromPubKey echoCrypto (replicate 32 0)"

theorem wallet_login_sound_witness:
  "\<exists>m'. VerifyChallenge echoCrypto echoAddress ''n'' (replicate 32 0)
       (bytes_of (''oim-account-auth:'' @ echoAddress @ '':'' @ ''n'')) 9 (wal.run echoCrypto [Issue echoAddress ''n'' 0]) = (None, m')
     \<and> fst (VerifyChallenge echoCrypto echoAddress ''n'' (replicate 32 0) [] 10 m') \<noteq> None"
proof -
  let ?sig = "bytes_of (''oim-account-auth:'' @ echoAddress @ '':'' @ ''n'')"
  have "fst (VerifyChallenge echoCrypto echoAddress ''n'' (replicate 32 0) ?sig 9
      (wal.run echoCrypto [Issue echoAddress ''n'' 0])) = None"
    unfolding wal.run_issue
    by (simp add: VerifyChallenge_def storeChallenge_def echoAddress_def[symmetric]
        ChallengeTTL_def SigningMessage_def VerifySignature_def) (simp add: echoCrypto_def)
  then obtain m' where r: "VerifyChallenge echoCrypto echoAddress ''n'' (replicate 32 0) ?sig 9
      (wal.run echoCrypto [Issue echoAddress ''n'' 0]) = (None, m')" by (metis prod.collapse)
  from wallet_login_sound[OF r] r show ?thesis by blast
qed

text \<open>
  Earnings go where the account key sent them: after any history, a linked device has a
  link request signed by the key behind its account, and no login signature can serve as
  one. But link and unlink share one signed message without a nonce: whoever saw the link
  request can undo the link with its signature, and restore it after the owner unlinked.
\<close>

theorem device_links_authorised:
  assumes "deviceLinks (fold (linkStep C) evs NewManager) d = Some a"
  shows "\<exists>pk sig. LinkEv a d pk sig \<in> set evs \<and> AddressFromPubKey C pk = a \<and>
     VerifySignature C pk (deviceLinkMessage a d) sig \<and> (\<forall>c. SigningMessage c \<noteq> deviceLinkMessage a d) \<and>
     (\<forall>m. fst (UnlinkDevice C a d pk sig m) = None \<and>
        (deviceLinks m d = Some a \<longrightarrow> deviceLinks (snd (UnlinkDevice C a d pk sig m)) d = None) \<and>
        deviceLinks (snd (LinkDevice C a d pk sig m)) d = Some a)"
proof -
  from links_authorised[OF assms] obtain pk sig where l: "LinkEv a d pk sig \<in> set evs" "AddressFromPubKey C pk = a"
    "VerifySignature C pk (deviceLinkMessage a d) sig" by blast
  have "fst (UnlinkDevice C a d pk sig m) = None \<and>
      (deviceLinks m d = Some a \<longrightarrow> deviceLinks (snd (UnlinkDevice C a d pk sig m)) d = None) \<and>
      deviceLinks (snd (LinkDevice C a d pk sig m)) d = Some a" for m
    using l(2,3) by (simp add: UnlinkDevice_def LinkDevice_def)
  then show ?thesis using l link_auth_disjoint by metis
qed

theorem device_links_authorised_witness:
  "deviceLinks (fold (linkStep echoCrypto) [LinkEv echoAddress ''d'' (replicate 32 0) (deviceLinkMessage echoAddress ''d'')]
     NewManager) ''d'' = Some echoAddress \<and>
   fst (UnlinkDevice echoCrypto echoAddress ''d'' (replicate 32 0) (deviceLinkMessage echoAddress ''d'') NewManager) = None"
proof -
  have l: "deviceLinks (fold (linkStep echoCrypto) [LinkEv echoAddress ''d'' (replicate 32 0) (deviceLinkMessage echoAddress ''d'')]
     NewManager) ''d'' = Some echoAddress"
    by (simp add: LinkDevice_def echoAddress_def[symmetric] VerifySignature_def) (simp add: echoCrypto_def)
  from device_links_authorised[OF l] obtain pk sig where s:
    "LinkEv echoAddress ''d'' pk sig \<in> set [LinkEv echoAddress ''d'' (replicate 32 0) (deviceLinkMessage echoAddress ''d'')]"
    "fst (UnlinkDevice echoCrypto echoAddress ''d'' pk sig NewManager) = None" by blast
  then show ?thesis using l by simp
qed

end
