(* ===== verification/AdminAuth.thy ===== *)
theory AdminAuth
  imports TicketStore Protocol
begin

text \<open>
  The administrator's login of \<open>internal/adminauth/adminauth.go\<close>: challenges signed with the
  one configured key (an instance of the ticket contract) and the sessions they open.
\<close>

section \<open>State and operations\<close>

definition AdminChallengeTTL :: duration where "AdminChallengeTTL = 5 * minute"
definition SessionTTL :: duration where "SessionTTL = hour"
definition SessionTokenPrefix :: string where "SessionTokenPrefix = ''oimadmin_''"

datatype admin_error = AdminNonce | AdminUnknownChallenge | AdminChallengeExpired | AdminBadSignature
  | AdminNotConfigured | AdminKeyHex | AdminKeySize nat | AdminToken

definition adminSigningMessage :: "string \<Rightarrow> bytes" where
  "adminSigningMessage nonce = bytes_of (''oim-admin-auth:'' @ nonce)"

text \<open>A nil key is the empty list.\<close>

record Authenticator =
  publicKey :: bytes
  adminChallenges :: "string \<rightharpoonup> time"
  sessions :: "string \<rightharpoonup> time"

definition freshAuthenticator :: "bytes \<Rightarrow> Authenticator" where
  "freshAuthenticator pk = \<lparr> publicKey = pk, adminChallenges = Map.empty, sessions = Map.empty \<rparr>"

definition NewAuthenticator :: "string \<Rightarrow> admin_error + Authenticator" where
  "NewAuthenticator bdflPublicKeyHex =
     (if bdflPublicKeyHex = [] then Inr (freshAuthenticator [])
      else case hexDecode bdflPublicKeyHex of
          None \<Rightarrow> Inl AdminKeyHex
        | Some raw \<Rightarrow> if length raw \<noteq> 32 then Inl (AdminKeySize (length raw)) else Inr (freshAuthenticator raw))"

definition Configured :: "Authenticator \<Rightarrow> bool" where
  "Configured a \<longleftrightarrow> length (publicKey a) = 32"

definition evictExpiredLocked :: "time \<Rightarrow> Authenticator \<Rightarrow> Authenticator" where
  "evictExpiredLocked now a =
     a\<lparr> adminChallenges := evict (\<lambda>_ e. now > e) (adminChallenges a), sessions := evict (\<lambda>_ e. now > e) (sessions a) \<rparr>"

definition storeAdminChallenge :: "unit \<Rightarrow> string \<Rightarrow> time \<Rightarrow> Authenticator \<Rightarrow> Authenticator" where
  "storeAdminChallenge u nonce now a =
     (let a = evictExpiredLocked now a
      in a\<lparr> adminChallenges := (adminChallenges a)(nonce \<mapsto> now + AdminChallengeTTL) \<rparr>)"

text \<open>The arguments \<open>raw\<close> are what \<open>rand.Read\<close> delivers, None its error.\<close>

definition IssueAdminChallenge :: "bytes option \<Rightarrow> time \<Rightarrow> Authenticator \<Rightarrow>
    (admin_error + string \<times> time) \<times> Authenticator" where
  "IssueAdminChallenge raw now a = (case raw of
       None \<Rightarrow> (Inl AdminNonce, a)
     | Some bs \<Rightarrow> (Inr (hexEncode bs, now + AdminChallengeTTL), storeAdminChallenge () (hexEncode bs) now a))"

definition VerifyAndIssueSession :: "crypto \<Rightarrow> string \<Rightarrow> bytes \<Rightarrow> bytes option \<Rightarrow> time \<Rightarrow> Authenticator \<Rightarrow>
    (admin_error + string \<times> time) \<times> Authenticator" where
  "VerifyAndIssueSession C nonce signature raw now a =
     (if \<not> Configured a then (Inl AdminNotConfigured, a)
      else case adminChallenges a nonce of
          None \<Rightarrow> (Inl AdminUnknownChallenge, a)
        | Some challengeExpiry \<Rightarrow>
            let a = a\<lparr> adminChallenges := (adminChallenges a)(nonce := None) \<rparr>
            in if now > challengeExpiry then (Inl AdminChallengeExpired, a)
               else if \<not> VerifySignature C (publicKey a) (adminSigningMessage nonce) signature
                 then (Inl AdminBadSignature, a)
               else case raw of
                   None \<Rightarrow> (Inl AdminToken, a)
                 | Some bs \<Rightarrow>
                     let token = SessionTokenPrefix @ hexEncode bs; a = evictExpiredLocked now a
                     in (Inr (token, now + SessionTTL), a\<lparr> sessions := (sessions a)(token \<mapsto> now + SessionTTL) \<rparr>))"

definition ValidSession :: "string \<Rightarrow> time \<Rightarrow> Authenticator \<Rightarrow> bool \<times> Authenticator" where
  "ValidSession token now a =
     (if token = [] then (False, a)
      else case sessions a token of
          None \<Rightarrow> (False, a)
        | Some expiresAt \<Rightarrow>
            if now > expiresAt then (False, a\<lparr> sessions := (sessions a)(token := None) \<rparr>) else (True, a))"

section \<open>Challenges are tickets\<close>

definition liveAdmin :: "Authenticator \<Rightarrow> string \<Rightarrow> (unit \<times> time) option" where
  "liveAdmin a k = map_option (Pair ()) (adminChallenges a k)"

definition redeemAdmin :: "crypto \<Rightarrow> bytes \<times> bytes option \<Rightarrow> string \<Rightarrow> time \<Rightarrow> Authenticator \<Rightarrow>
    unit option \<times> Authenticator" where
  "redeemAdmin C = (\<lambda>(sig, raw) nonce now a. case VerifyAndIssueSession C nonce sig raw now a of
       (Inl e, a') \<Rightarrow> (None, a')
     | (Inr s, a') \<Rightarrow> (Some (), a'))"

lemma VerifyAndIssue_ok:
  assumes "VerifyAndIssueSession C nonce sig raw now a = (Inr (token, e), a')"
  shows "\<exists>bs exp. raw = Some bs \<and> token = SessionTokenPrefix @ hexEncode bs \<and> e = now + SessionTTL \<and>
    Configured a \<and> VerifySignature C (publicKey a) (adminSigningMessage nonce) sig \<and>
    adminChallenges a nonce = Some exp \<and> now \<le> exp \<and> publicKey a' = publicKey a \<and>
    adminChallenges a' = evict (\<lambda>_ e. now > e) ((adminChallenges a)(nonce := None)) \<and>
    sessions a' = (evict (\<lambda>_ e. now > e) (sessions a))(token \<mapsto> e)"
  using assms by (auto simp: VerifyAndIssueSession_def evictExpiredLocked_def Let_def not_less
      split: option.splits if_splits)

lemma VerifyAndIssue_err:
  "VerifyAndIssueSession C nonce sig raw now a = (Inl e, a') \<Longrightarrow>
     a' = a \<or> a' = a\<lparr> adminChallenges := (adminChallenges a)(nonce := None) \<rparr>"
  by (auto simp: VerifyAndIssueSession_def Let_def split: option.splits if_splits)

lemma redeemAdmin_pair:
  assumes "redeemAdmin C (sig, raw) nonce now a = (r, a')"
  obtains e where "r = None" "VerifyAndIssueSession C nonce sig raw now a = (Inl e, a')"
  | s where "r = Some ()" "VerifyAndIssueSession C nonce sig raw now a = (Inr s, a')"
  using assms by (auto simp: redeemAdmin_def split: prod.splits sum.splits)

interpretation adm: ticket_store liveAdmin AdminChallengeTTL storeAdminChallenge "redeemAdmin C" "freshAuthenticator pk"
  for C pk
proof unfold_locales
  show "liveAdmin (freshAuthenticator pk) = Map.empty"
    by (rule ext) (simp add: liveAdmin_def freshAuthenticator_def)
  show "liveAdmin (storeAdminChallenge t k now s) =
      (evict (\<lambda>_. lapsed now) (liveAdmin s))(k \<mapsto> (t, now + AdminChallengeTTL))" for t k now s
    by (rule ext) (simp add: liveAdmin_def storeAdminChallenge_def evictExpiredLocked_def Let_def evict_def lapsed_def
        split: option.splits)
  fix c :: "bytes \<times> bytes option" and k now s t s'
  obtain sig raw where c: "c = (sig, raw)" by (cases c)
  show "(\<exists>e. liveAdmin s k = Some (t, e) \<and> now \<le> e) \<and> (liveAdmin s' = (liveAdmin s)(k := None) \<or>
      liveAdmin s' = evict (\<lambda>_. lapsed now) ((liveAdmin s)(k := None)))"
    if "redeemAdmin C c k now s = (Some t, s')"
    using that unfolding c
  proof (cases rule: redeemAdmin_pair)
    case (2 x)
    obtain token e where x: "x = (token, e)" by (cases x)
    from VerifyAndIssue_ok[OF 2(2)[unfolded x]] obtain exp where
      "adminChallenges s k = Some exp" "now \<le> exp" "adminChallenges s' = evict (\<lambda>_ e. now > e) ((adminChallenges s)(k := None))"
      by blast
    then show ?thesis
      by (auto simp: liveAdmin_def fun_eq_iff evict_def lapsed_def split: option.splits)
  qed simp
  show "liveAdmin s' = liveAdmin s \<or> liveAdmin s' = (liveAdmin s)(k := None)"
    if "redeemAdmin C c k now s = (None, s')"
    using that unfolding c
  proof (cases rule: redeemAdmin_pair)
    case (1 e)
    from VerifyAndIssue_err[OF this(2)] show ?thesis by (auto simp: liveAdmin_def fun_eq_iff)
  qed simp
qed

section \<open>Where sessions come from\<close>

lemma publicKey_run: "publicKey (adm.run C pk evs) = pk"
proof (induction evs rule: rev_induct)
  case Nil
  then show ?case unfolding adm.run_Nil by (simp add: freshAuthenticator_def)
next
  case (snoc ev evs)
  show ?case
  proof (cases ev)
    case (Issue t k now)
    have "publicKey (storeAdminChallenge t k now a) = publicKey a" for a
      by (simp add: storeAdminChallenge_def evictExpiredLocked_def Let_def)
    then have "publicKey (storeAdminChallenge t k now (adm.run C pk evs)) = pk" using snoc by (simp only:)
    then show ?thesis by (simp only: Issue adm.run_snoc adm.step_def ticket_event.case)
  next
    case (Redeem c k now)
    obtain sig raw where c: "c = (sig, raw)" by (cases c)
    obtain r a' where r: "redeemAdmin C (sig, raw) k now (adm.run C pk evs) = (r, a')"
      by (cases "redeemAdmin C (sig, raw) k now (adm.run C pk evs)")
    then have "publicKey a' = pk"
    proof (cases rule: redeemAdmin_pair)
      case (1 e)
      then show ?thesis using VerifyAndIssue_err[OF 1(2)] snoc by auto
    next
      case (2 x)
      then show ?thesis using VerifyAndIssue_ok[of C k sig raw now "adm.run C pk evs" "fst x" "snd x" a'] snoc by auto
    qed
    then show ?thesis by (simp only: Redeem c adm.run_snoc adm.step_def ticket_event.case r snd_conv)
  qed
qed

text \<open>A session that a step leaves behind was there before or is minted by this step.\<close>

lemma session_step:
  assumes "sessions (adm.run C pk (evs @ [ev])) token = Some e"
  shows "sessions (adm.run C pk evs) token = Some e \<or>
    (\<exists>sig raw nonce tau a'. ev = Redeem (sig, Some raw) nonce tau \<and> token = SessionTokenPrefix @ hexEncode raw \<and>
       e = tau + SessionTTL \<and> length pk = 32 \<and> VerifySignature C pk (adminSigningMessage nonce) sig \<and>
       redeemAdmin C (sig, Some raw) nonce tau (adm.run C pk evs) = (Some (), a'))"
proof (cases ev)
  case (Issue t k now)
  have "sessions (storeAdminChallenge t k now (adm.run C pk evs)) token = Some e"
    using assms by (simp only: Issue adm.run_snoc adm.step_def ticket_event.case)
  then show ?thesis by (simp add: storeAdminChallenge_def evictExpiredLocked_def Let_def)
next
  case (Redeem c k now)
  obtain sig raw where c: "c = (sig, raw)" by (cases c)
  obtain r a' where r: "redeemAdmin C (sig, raw) k now (adm.run C pk evs) = (r, a')"
    by (cases "redeemAdmin C (sig, raw) k now (adm.run C pk evs)")
  have s: "sessions a' token = Some e"
    using assms by (simp only: Redeem c adm.run_snoc adm.step_def ticket_event.case r snd_conv)
  from r show ?thesis
  proof (cases rule: redeemAdmin_pair)
    case (1 x)
    then show ?thesis using VerifyAndIssue_err[OF 1(2)] s by auto
  next
    case (2 x)
    obtain token' e' where x: "x = (token', e')" by (cases x)
    from VerifyAndIssue_ok[OF 2(2)[unfolded x]] obtain bs where v: "raw = Some bs" "token' = SessionTokenPrefix @ hexEncode bs"
      "e' = now + SessionTTL" "Configured (adm.run C pk evs)"
      "VerifySignature C (publicKey (adm.run C pk evs)) (adminSigningMessage k) sig"
      "sessions a' = (evict (\<lambda>_ e. now > e) (sessions (adm.run C pk evs)))(token' \<mapsto> e')" by blast
    show ?thesis
    proof (cases "token = token'")
      case True
      then have "e = e'" using s v(6) by simp
      then show ?thesis using v True r 2(1) by (auto simp: Redeem c Configured_def publicKey_run)
    next
      case False
      then show ?thesis using s v(6) by simp
    qed
  qed
qed

lemma session_minted:
  "sessions (adm.run C pk evs) token = Some e \<Longrightarrow>
    \<exists>pre sig raw nonce tau post a'. evs = pre @ Redeem (sig, Some raw) nonce tau # post \<and>
       token = SessionTokenPrefix @ hexEncode raw \<and> e = tau + SessionTTL \<and> length pk = 32 \<and>
       VerifySignature C pk (adminSigningMessage nonce) sig \<and>
       redeemAdmin C (sig, Some raw) nonce tau (adm.run C pk pre) = (Some (), a')"
proof (induction evs rule: rev_induct)
  case Nil
  then show ?case unfolding adm.run_Nil by (simp add: freshAuthenticator_def)
next
  case (snoc ev evs)
  from session_step[OF snoc.prems] show ?case
  proof
    assume "sessions (adm.run C pk evs) token = Some e"
    from snoc.IH[OF this] obtain pre sig raw nonce tau post a' where
      "evs = pre @ Redeem (sig, Some raw) nonce tau # post" "token = SessionTokenPrefix @ hexEncode raw" "e = tau + SessionTTL"
      "length pk = 32" "VerifySignature C pk (adminSigningMessage nonce) sig"
      "redeemAdmin C (sig, Some raw) nonce tau (adm.run C pk pre) = (Some (), a')" by blast
    then show ?thesis
      by (intro exI[of _ pre] exI[of _ sig] exI[of _ raw] exI[of _ nonce] exI[of _ tau] exI[of _ "post @ [ev]"] exI[of _ a']) simp
  next
    assume "\<exists>sig raw nonce tau a'. ev = Redeem (sig, Some raw) nonce tau \<and> token = SessionTokenPrefix @ hexEncode raw \<and>
       e = tau + SessionTTL \<and> length pk = 32 \<and> VerifySignature C pk (adminSigningMessage nonce) sig \<and>
       redeemAdmin C (sig, Some raw) nonce tau (adm.run C pk evs) = (Some (), a')"
    then obtain sig raw nonce tau a' where "ev = Redeem (sig, Some raw) nonce tau" "token = SessionTokenPrefix @ hexEncode raw"
      "e = tau + SessionTTL" "length pk = 32" "VerifySignature C pk (adminSigningMessage nonce) sig"
      "redeemAdmin C (sig, Some raw) nonce tau (adm.run C pk evs) = (Some (), a')" by blast
    then show ?thesis
      by (intro exI[of _ evs] exI[of _ sig] exI[of _ raw] exI[of _ nonce] exI[of _ tau] exI[of _ "[]"] exI[of _ a']) simp
  qed
qed

section \<open>Properties\<close>

text \<open>
  Admin authority needs the configured key: whatever was issued and tried before, a
  token is valid only if at most an hour ago somebody redeemed, within five minutes of its
  issue and for the first time, a nonce with a signature of the configured 32-byte key
  over the namespaced message. Without a configured key no token is ever valid.
\<close>

theorem admin_session_needs_key:
  assumes "fst (ValidSession token now (adm.run C pk evs))"
  shows "length pk = 32 \<and>
    (\<exists>pre nonce tau0 mid sig raw tau post.
       evs = pre @ Issue () nonce tau0 # mid @ Redeem (sig, Some raw) nonce tau # post \<and>
       token = SessionTokenPrefix @ hexEncode raw \<and> now \<le> tau + SessionTTL \<and> tau \<le> tau0 + AdminChallengeTTL \<and>
       VerifySignature C pk (adminSigningMessage nonce) sig \<and>
       (\<forall>i < length mid. \<forall>cr tau'. mid ! i = Redeem cr nonce tau' \<longrightarrow>
          fst (redeemAdmin C cr nonce tau' (adm.run C pk (pre @ Issue () nonce tau0 # take i mid))) = None))"
proof -
  obtain e where e: "sessions (adm.run C pk evs) token = Some e" "now \<le> e"
    using assms by (auto simp: ValidSession_def not_less split: option.splits if_splits)
  from session_minted[OF e(1)] obtain front sig raw nonce tau post a' where m:
    "evs = front @ Redeem (sig, Some raw) nonce tau # post" "token = SessionTokenPrefix @ hexEncode raw" "e = tau + SessionTTL"
    "length pk = 32" "VerifySignature C pk (adminSigningMessage nonce) sig"
    "redeemAdmin C (sig, Some raw) nonce tau (adm.run C pk front) = (Some (), a')" by blast
  from adm.redeem_sound[OF m(6)] obtain pre tau0 mid where i: "front = pre @ Issue () nonce tau0 # mid"
    "tau \<le> tau0 + AdminChallengeTTL" "\<forall>i < length mid. \<forall>cr tau'. mid ! i = Redeem cr nonce tau' \<longrightarrow>
      fst (redeemAdmin C cr nonce tau' (adm.run C pk (pre @ Issue () nonce tau0 # take i mid))) = None" by blast
  have "evs = pre @ Issue () nonce tau0 # mid @ Redeem (sig, Some raw) nonce tau # post" using m(1) i(1) by simp
  moreover have "now \<le> tau + SessionTTL" using e(2) m(3) by simp
  ultimately show ?thesis using m(2,4,5) i(2,3) by blast
qed

definition laxCrypto :: crypto where
  "laxCrypto = \<lparr> sha256 = (\<lambda>x. x), ed25519Verify = (\<lambda>pk m s. s = m), ed25519Sign = (\<lambda>sk m. m),
     p256Verify = (\<lambda>pk m s. s = m), marshalManifest = (\<lambda>m. Some []), marshalRefresh = (\<lambda>m t. Some []),
     marshalClaim = (\<lambda>n t. Some []), marshalAttestation = (\<lambda>n k t. Some []), marshalDigest = (\<lambda>d. Some []) \<rparr>"

theorem admin_session_needs_key_witness:
  "\<exists>pre nonce tau0 mid sig raw tau post.
     [Issue () ''n'' 0, Redeem (adminSigningMessage ''n'', Some [1]) ''n'' 5] =
        pre @ Issue () nonce tau0 # mid @ Redeem (sig, Some raw) nonce tau # post \<and>
     SessionTokenPrefix @ ''01'' = SessionTokenPrefix @ hexEncode raw \<and> tau \<le> tau0 + AdminChallengeTTL"
proof -
  let ?pk = "replicate 32 0"
  let ?a = "storeAdminChallenge () ''n'' 0 (freshAuthenticator ?pk)"
  let ?r = "Redeem (adminSigningMessage ''n'', Some [1]) ''n'' 5"
  obtain a' where v: "VerifyAndIssueSession laxCrypto ''n'' (adminSigningMessage ''n'') (Some [1]) 5 ?a =
      (Inr (SessionTokenPrefix @ hexEncode [1], 5 + SessionTTL), a')"
    by (simp add: VerifyAndIssueSession_def storeAdminChallenge_def freshAuthenticator_def evictExpiredLocked_def
        Configured_def VerifySignature_def laxCrypto_def AdminChallengeTTL_def Let_def)
  have h: "hexEncode [1] = ''01''" by code_simp
  have "adm.run laxCrypto ?pk ([Issue () ''n'' 0] @ [?r]) = a'"
    unfolding adm.run_snoc adm.run_issue adm.step_def ticket_event.case by (simp add: redeemAdmin_def v)
  moreover have "fst (ValidSession (SessionTokenPrefix @ hexEncode [1]) 10 a')"
    using VerifyAndIssue_ok[OF v] by (auto simp: ValidSession_def SessionTokenPrefix_def SessionTTL_def)
  ultimately have "fst (ValidSession (SessionTokenPrefix @ hexEncode [1]) 10 (adm.run laxCrypto ?pk [Issue () ''n'' 0, ?r]))"
    by simp
  from admin_session_needs_key[OF this] show ?thesis unfolding h by blast
qed

end
