(* ===== verification/Queue.thy ===== *)
theory Queue
  imports Router
begin

text \<open>
  The bounded job queue of \<open>internal/coordinator/queue.go\<close> and the availability probes of
  \<open>internal/coordinator/availability.go\<close>. The queue's channel, its soft capacity and the
  steps of enqueuers, workers and the retarget loop are explicit; a worker's retry loop is a
  partial function over the rounds it goes through, each with its clock reading, whether the
  caller has gone, how the nodes answer and what ends the back-off.
\<close>

section \<open>Capacity\<close>

definition DefaultQueueCapacity :: int where "DefaultQueueCapacity = 50"
definition DefaultQueueTimeout :: duration where "DefaultQueueTimeout = 30 * second"
definition queueRetryInterval :: duration where "queueRetryInterval = 400 * 1000000"
definition MinQueueCapacity :: int where "MinQueueCapacity = 10"
definition MaxQueueCapacity :: int where "MaxQueueCapacity = 500"
definition tpsPerQueueSlot :: f64 where "tpsPerQueueSlot = 2"
definition nodeFloorPerLiveNode :: int where "nodeFloorPerLiveNode = 3"

definition clampInt :: "int \<Rightarrow> int \<Rightarrow> int \<Rightarrow> int" where
  "clampInt v lo hi = (if v < lo then lo else if v > hi then hi else v)"

definition liveTps :: "NodeSnapshot list \<Rightarrow> int \<times> f64" where
  "liveTps nodes = fold (\<lambda>n (liveCount, aggregateTps).
     if SnapStatus n \<noteq> StatusLive then (liveCount, aggregateTps)
     else (liveCount + 1, fadd aggregateTps (MeasuredToksPerSec n))) nodes (0, 0)"

definition ComputeQueueCapacity :: "NodeSnapshot list \<Rightarrow> int" where
  "ComputeQueueCapacity nodes =
     (let (liveCount, aggregateTps) = liveTps nodes;
          fromThroughput = fint (fdiv aggregateTps tpsPerQueueSlot);
          floor = liveCount * nodeFloorPerLiveNode;
          cap = (if fromThroughput < floor then floor else fromThroughput)
      in clampInt cap MinQueueCapacity MaxQueueCapacity)"

section \<open>The queue\<close>

record QueuedJob =
  qJob :: JobSpec
  qMessages :: "jobj list"
  qDeadline :: time

record JobQueue =
  ch :: "QueuedJob list"
  capacity :: int

definition NewJobQueue :: "int \<Rightarrow> JobQueue" where
  "NewJobQueue initialCapacity = \<lparr> ch = [], capacity = clampInt initialCapacity MinQueueCapacity MaxQueueCapacity \<rparr>"

text \<open>One tick of \<open>retargetLoop\<close>.\<close>

definition retarget :: "NodeSnapshot list \<Rightarrow> JobQueue \<Rightarrow> JobQueue" where
  "retarget nodes q = q\<lparr> capacity := ComputeQueueCapacity nodes \<rparr>"

datatype queue_error = QueueFull int int | DeadlineExceeded job_id | CallerGone | ShuttingDown | EnqueueDispatch dispatch_error

text \<open>
  The admission part of \<open>Enqueue\<close>: the capacity is read first, the send happens later, and
  \<open>len\<close> is the length the test saw; other enqueuers may have sent in between.
\<close>

definition admits :: "int \<Rightarrow> JobQueue \<Rightarrow> bool" where
  "admits len q \<longleftrightarrow> \<not> len \<ge> capacity q"

definition queueDeadline :: "time \<Rightarrow> duration \<Rightarrow> time" where
  "queueDeadline now timeout = now + (if timeout \<le> 0 then DefaultQueueTimeout else timeout)"

definition trySend :: "QueuedJob \<Rightarrow> JobQueue \<Rightarrow> queue_error option \<times> JobQueue" where
  "trySend qj q =
     (if int (length (ch q)) < MaxQueueCapacity then (None, q\<lparr> ch := ch q @ [qj] \<rparr>)
      else (Some (QueueFull (int (length (ch q))) (capacity q)), q))"

definition EnqueueJob :: "JobSpec \<Rightarrow> jobj list \<Rightarrow> duration \<Rightarrow> time \<Rightarrow> JobQueue \<Rightarrow> queue_error option \<times> JobQueue" where
  "EnqueueJob job messages timeout now q =
     (if \<not> admits (int (length (ch q))) q then (Some (QueueFull (int (length (ch q))) (capacity q)), q)
      else trySend \<lparr> qJob = job, qMessages = messages, qDeadline = queueDeadline now timeout \<rparr> q)"

definition Depth :: "JobQueue \<Rightarrow> int" where "Depth q = int (length (ch q))"

definition BackpressurePct :: "JobQueue \<Rightarrow> f64" where
  "BackpressurePct q =
     (if capacity q = 0 then 0 else fmul (fdiv (f_of_int (int (length (ch q)))) (f_of_int (capacity q))) 100)"

text \<open>A worker takes the first job of the channel.\<close>

definition takeJob :: "JobQueue \<Rightarrow> (QueuedJob \<times> JobQueue) option" where
  "takeJob q = (case ch q of [] \<Rightarrow> None | qj # rest \<Rightarrow> Some (qj, q\<lparr> ch := rest \<rparr>))"

text \<open>The workers take the next \<open>n\<close> jobs, or all there are.\<close>

fun takeJobs :: "nat \<Rightarrow> JobQueue \<Rightarrow> JobQueue" where
  "takeJobs 0 q = q"
| "takeJobs (Suc n) q = (case takeJob q of None \<Rightarrow> q | Some (qj, q') \<Rightarrow> takeJobs n q')"

section \<open>Processing a job\<close>

datatype wake = WakeShutdown | WakeCallerGone | WakeRetry

record round =
  roundNow :: time
  callerGone :: bool
  roundTransport :: transport
  draw1 :: nat
  draw2 :: nat
  roundOrder :: "node_id list"
  roundWake :: wake

text \<open>The loop of \<open>processJob\<close>; None means that it has not returned.\<close>

partial_function (option) processJob :: "(nat \<Rightarrow> round) \<Rightarrow> int \<Rightarrow> QueuedJob \<Rightarrow> nat \<Rightarrow> registry \<Rightarrow>
    ((queue_error + jobj option) \<times> registry) option" where
  "processJob rounds maxAttempts qj k r =
     (if roundNow (rounds k) > qDeadline qj then Some (Inl (DeadlineExceeded (SpecJobID (qJob qj))), r)
      else if callerGone (rounds k) then Some (Inl CallerGone, r)
      else case DispatchFastLane (roundTransport (rounds k)) (draw1 (rounds k)) (draw2 (rounds k)) (qJob qj)
             (qMessages qj) maxAttempts (roundNow (rounds k)) (roundOrder (rounds k)) r of
          (Inr result, r', _) \<Rightarrow> Some (Inr result, r')
        | (Inl err, r', _) \<Rightarrow>
            (case roundWake (rounds k) of
               WakeShutdown \<Rightarrow> Some (Inl ShuttingDown, r')
             | WakeCallerGone \<Rightarrow> Some (Inl CallerGone, r')
             | WakeRetry \<Rightarrow> processJob rounds maxAttempts qj (Suc k) r'))"

text \<open>A clock for these rounds: each back-off sleeps the retry interval.\<close>

definition rounds_timed :: "(nat \<Rightarrow> round) \<Rightarrow> bool" where
  "rounds_timed rounds \<longleftrightarrow> (\<forall>k. roundNow (rounds (Suc k)) \<ge> roundNow (rounds k) + queueRetryInterval)"

section \<open>Availability probes\<close>

definition availabilityProbePrompt :: string where
  "availabilityProbePrompt = ''Reply with a single word to confirm you're online.''"

text \<open>None is the result \<open>ok = false\<close>.\<close>

definition SelectProbeTarget :: "CapabilityManifest list \<Rightarrow> (CapabilityManifest \<times> ModelCapability) option" where
  "SelectProbeTarget candidates = (case candidates of
       [] \<Rightarrow> None
     | chosen # _ \<Rightarrow> map_option (Pair chosen) (find Loaded (Models chosen)))"

definition BuildProbeJob :: "job_id \<Rightarrow> string \<Rightarrow> string \<Rightarrow> JobSpec \<times> jobj list" where
  "BuildProbeJob jobID modelID quantization =
     (let job = emptyJob\<lparr> SpecJobID := jobID, RequesterID := ''oim-availability-prober'', ModelID := modelID,
            Lane := JobLaneFast, Sensitivity := SensitivityLow, MaxPricePerUnit := 0 \<rparr>;
          job = (if quantization \<noteq> [] then job\<lparr> QuantizationRequired := quantization \<rparr> else job)
      in (job, [[''role'' \<mapsto> JStr ''user'', ''content'' \<mapsto> JStr availabilityProbePrompt]]))"

definition ScaledProbeBudget :: "f64 \<Rightarrow> f64 \<Rightarrow> int \<Rightarrow> int \<Rightarrow> int" where
  "ScaledProbeBudget backpressurePct backpressureCeiling low high =
     (if backpressureCeiling \<le> 0 \<or> high \<le> low then low
      else if backpressurePct \<le> 0 then high
      else if backpressurePct \<ge> backpressureCeiling then low
      else let frac = fsub 1 (fdiv backpressurePct backpressureCeiling)
           in low + fint (fmul frac (f_of_int (high - low))))"

section \<open>Interleavings of the queue\<close>

text \<open>
  Callers that passed the admission test and have not sent yet are kept in a second list.
\<close>

datatype queue_event = EvAdmit QueuedJob | EvSend QueuedJob "queue_error option" | EvTake QueuedJob | EvRetarget

inductive queue_step :: "JobQueue \<times> QueuedJob list \<Rightarrow> queue_event \<Rightarrow> JobQueue \<times> QueuedJob list \<Rightarrow> bool" where
  Admit: "admits (Depth q) q \<Longrightarrow> queue_step (q, adm) (EvAdmit qj) (q, qj # adm)"
| Send: "qj \<in> set adm \<Longrightarrow> trySend qj q = (err, q') \<Longrightarrow> queue_step (q, adm) (EvSend qj err) (q', remove1 qj adm)"
| Take: "takeJob q = Some (qj, q') \<Longrightarrow> queue_step (q, adm) (EvTake qj) (q', adm)"
| Retarget: "queue_step (q, adm) EvRetarget (retarget nodes q, adm)"

inductive queue_run :: "queue_event list \<Rightarrow> JobQueue \<times> QueuedJob list \<Rightarrow> bool" where
  Start: "queue_run [] (NewJobQueue n, [])"
| Step: "queue_run tr s \<Longrightarrow> queue_step s ev s' \<Longrightarrow> queue_run (tr @ [ev]) s'"

inductive_cases queue_stepE: "queue_step s ev s'"

definition sentJobs :: "queue_event list \<Rightarrow> QueuedJob list" where
  "sentJobs tr = concat (map (\<lambda>ev. case ev of EvSend qj None \<Rightarrow> [qj] | _ \<Rightarrow> []) tr)"

definition takenJobs :: "queue_event list \<Rightarrow> QueuedJob list" where
  "takenJobs tr = concat (map (\<lambda>ev. case ev of EvTake qj \<Rightarrow> [qj] | _ \<Rightarrow> []) tr)"

lemma sentJobs_snoc: "sentJobs (tr @ [ev]) = sentJobs tr @ (case ev of EvSend qj None \<Rightarrow> [qj] | _ \<Rightarrow> [])"
  and takenJobs_snoc: "takenJobs (tr @ [ev]) = takenJobs tr @ (case ev of EvTake qj \<Rightarrow> [qj] | _ \<Rightarrow> [])"
  by (simp_all add: sentJobs_def takenJobs_def)

lemma clampInt_bounds: "lo \<le> hi \<Longrightarrow> lo \<le> clampInt v lo hi \<and> clampInt v lo hi \<le> hi"
  by (simp add: clampInt_def)

lemma ComputeQueueCapacity_bounds:
  "MinQueueCapacity \<le> ComputeQueueCapacity nodes \<and> ComputeQueueCapacity nodes \<le> MaxQueueCapacity"
  using clampInt_bounds[of MinQueueCapacity MaxQueueCapacity]
  by (simp add: ComputeQueueCapacity_def Let_def MinQueueCapacity_def MaxQueueCapacity_def split: prod.splits)

definition queue_ok :: "queue_event list \<Rightarrow> JobQueue \<Rightarrow> bool" where
  "queue_ok tr q \<longleftrightarrow> sentJobs tr = takenJobs tr @ ch q \<and> Depth q \<le> MaxQueueCapacity \<and>
     MinQueueCapacity \<le> capacity q \<and> capacity q \<le> MaxQueueCapacity"

lemma queue_ok_step: "queue_ok tr (fst s) \<Longrightarrow> queue_step s ev s' \<Longrightarrow> queue_ok (tr @ [ev]) (fst s')"
  by (erule queue_stepE)
    (auto simp: queue_ok_def sentJobs_snoc takenJobs_snoc trySend_def takeJob_def retarget_def Depth_def
      ComputeQueueCapacity_bounds split: if_splits list.splits)

lemma queue_ok_run: "queue_run tr s \<Longrightarrow> queue_ok tr (fst s)"
proof (induction rule: queue_run.induct)
  case (Start n)
  show ?case using clampInt_bounds[of MinQueueCapacity MaxQueueCapacity n]
    by (simp add: queue_ok_def NewJobQueue_def sentJobs_def takenJobs_def Depth_def MinQueueCapacity_def MaxQueueCapacity_def)
qed (rule queue_ok_step)

lemma backpressure_bounds:
  assumes "0 < capacity q" "Depth q \<le> capacity q"
  shows "0 \<le> BackpressurePct q" "BackpressurePct q \<le> 100"
proof -
  have "f_of_int (Depth q) \<le> f_of_int (capacity q)" using assms(2) by (intro fl_mono) simp
  moreover have "0 < f_of_int (capacity q)"
    using fl_ge_f64[OF is_f64_1, of "of_int (capacity q)"] assms(1) by simp
  moreover have "0 \<le> f_of_int (Depth q)" by (intro fl_nonneg) (simp add: Depth_def)
  ultimately have q: "0 \<le> f_of_int (Depth q) / f_of_int (capacity q)" "f_of_int (Depth q) / f_of_int (capacity q) \<le> 1"
    by (simp_all add: divide_le_eq)
  have d: "0 \<le> fdiv (f_of_int (Depth q)) (f_of_int (capacity q))"
    "fdiv (f_of_int (Depth q)) (f_of_int (capacity q)) \<le> 1"
    using q fl_nonneg fl_le_f64[OF is_f64_1] by blast+
  show "0 \<le> BackpressurePct q" using d(1) assms(1) by (auto simp: BackpressurePct_def Depth_def intro!: fl_nonneg)
  have "is_f64 100" using is_f64_of_int[of 100] by simp
  then show "BackpressurePct q \<le> 100" using d(2) assms(1)
    by (auto simp: BackpressurePct_def Depth_def intro!: fl_le_f64)
qed

section \<open>The retry loop\<close>

text \<open>A result comes from a dispatch of this job that started before the deadline.\<close>

definition roundDispatch :: "round \<Rightarrow> int \<Rightarrow> QueuedJob \<Rightarrow> registry \<Rightarrow>
    (dispatch_error + jobj option) \<times> registry \<times> NodeWithLoad list" where
  "roundDispatch rd maxAttempts qj r = DispatchFastLane (roundTransport rd) (draw1 rd) (draw2 rd) (qJob qj) (qMessages qj)
     maxAttempts (roundNow rd) (roundOrder rd) r"

lemma processJob_unfold:
  "processJob rounds maxAttempts qj k r =
     (if roundNow (rounds k) > qDeadline qj then Some (Inl (DeadlineExceeded (SpecJobID (qJob qj))), r)
      else if callerGone (rounds k) then Some (Inl CallerGone, r)
      else case roundDispatch (rounds k) maxAttempts qj r of
          (Inr result, r', _) \<Rightarrow> Some (Inr result, r')
        | (Inl err, r', _) \<Rightarrow>
            (case roundWake (rounds k) of
               WakeShutdown \<Rightarrow> Some (Inl ShuttingDown, r')
             | WakeCallerGone \<Rightarrow> Some (Inl CallerGone, r')
             | WakeRetry \<Rightarrow> processJob rounds maxAttempts qj (Suc k) r'))"
  by (subst processJob.simps) (simp add: roundDispatch_def)

lemma processJob_spec:
  assumes "rounds_timed rounds"
  shows "\<exists>res r'. processJob rounds maxAttempts qj k r = Some (res, r') \<and>
     (\<forall>result. res = Inr result \<longrightarrow> (\<exists>j \<ge> k. \<exists>rj tried. roundNow (rounds j) \<le> qDeadline qj \<and> \<not> callerGone (rounds j) \<and>
        roundDispatch (rounds j) maxAttempts qj rj = (Inr result, r', tried)))"
proof (induction "nat (qDeadline qj - roundNow (rounds k) + 1)" arbitrary: k r rule: less_induct)
  case less
  show ?case
  proof (cases "roundNow (rounds k) > qDeadline qj \<or> callerGone (rounds k)")
    case True
    then show ?thesis by (subst processJob_unfold) auto
  next
    case False
    obtain res r' tried where d: "roundDispatch (rounds k) maxAttempts qj r = (res, r', tried)" by (metis prod_cases3)
    have "roundNow (rounds (Suc k)) \<ge> roundNow (rounds k) + queueRetryInterval" using assms by (simp add: rounds_timed_def)
    then have lt: "nat (qDeadline qj - roundNow (rounds (Suc k)) + 1) < nat (qDeadline qj - roundNow (rounds k) + 1)"
      using False by (simp add: queueRetryInterval_def)
    show ?thesis
    proof (cases res)
      case (Inr result)
      then have "processJob rounds maxAttempts qj k r = Some (Inr result, r')" using False d by (subst processJob_unfold) simp
      then show ?thesis using False d Inr
        by (rule_tac exI[of _ "Inr result"], rule_tac exI[of _ r']) (auto intro!: exI[of _ k])
    next
      case (Inl err)
      show ?thesis
      proof (cases "roundWake (rounds k)")
        case WakeRetry
        then have "processJob rounds maxAttempts qj k r = processJob rounds maxAttempts qj (Suc k) r'"
          using False d Inl by (subst processJob_unfold) simp
        then show ?thesis using less[OF lt, of r'] by (metis Suc_leD)
      qed (use False d Inl in \<open>subst processJob_unfold, simp\<close>)+
    qed
  qed
qed

lemma BackpressurePct_capped:
  assumes "0 < capacity q" "Depth q \<le> capacity q"
  shows "0 \<le> BackpressurePct q \<and> BackpressurePct q \<le> 100"
  using backpressure_bounds[OF assms] by simp

section \<open>Properties\<close>



text \<open>
  C23. A queued job is always answered: with the back-off sleeping its 400 milliseconds, the
  retry loop returns whatever the nodes do, and when it returns a result, that is the result
  of a dispatch of this job that began before its deadline while the caller was waiting.
\<close>

theorem queued_job_answered:
  assumes "rounds_timed rounds"
  shows "\<exists>res r'. processJob rounds maxAttempts qj 0 r = Some (res, r') \<and>
     (\<forall>result. res = Inr result \<longrightarrow> (\<exists>j rj tried. roundNow (rounds j) \<le> qDeadline qj \<and> \<not> callerGone (rounds j) \<and>
        roundDispatch (rounds j) maxAttempts qj rj = (Inr result, r', tried)))"
  using processJob_spec[OF assms, of maxAttempts qj 0 r] by blast

theorem queued_job_answered_witness:
  "\<exists>res r'. processJob (\<lambda>k. \<lparr> roundNow = int k * queueRetryInterval, callerGone = False, roundTransport = deafTransport,
     draw1 = 0, draw2 = 0, roundOrder = [], roundWake = WakeRetry \<rparr>) 3
     \<lparr> qJob = emptyJob, qMessages = [], qDeadline = second \<rparr> 0 NewNodeRegistry = Some (res, r')"
proof -
  have "rounds_timed (\<lambda>k. \<lparr> roundNow = int k * queueRetryInterval, callerGone = False, roundTransport = deafTransport,
     draw1 = 0, draw2 = 0, roundOrder = [], roundWake = WakeRetry \<rparr>)"
    by (simp add: rounds_timed_def algebra_simps)
  from queued_job_answered[OF this] show ?thesis by blast
qed

end
