(* ===== verification/ApiKeys.thy ===== *)
theory ApiKeys
  imports Protocol
begin

text \<open>
  The store of user API keys in \<open>cmd/coordinator/main.go\<close>: only hashes are kept, in two
  maps and, when a database is configured, in the table \<open>api_keys\<close>. The random bytes of a
  key and the outcome of each database call are arguments.
\<close>

section \<open>The store\<close>

definition hashAPIKey :: "crypto \<Rightarrow> string \<Rightarrow> string" where
  "hashAPIKey C key = hexEncode (sha256 C (bytes_of key))"

text \<open>\<open>keyTable\<close> is the table, None for a store without a database (\<open>db == nil\<close>).\<close>

record apiKeyStore =
  byKey :: "string \<rightharpoonup> user_id"
  byUser :: "user_id \<rightharpoonup> string"
  keyTable :: "(user_id \<rightharpoonup> string) option"

definition newAPIKeyStore :: apiKeyStore where
  "newAPIKeyStore = \<lparr> byKey = Map.empty, byUser = Map.empty, keyTable = None \<rparr>"

datatype key_error = OpenKeyDB | MigrateKeys | LoadKeys | ScanKey | IterateKeys | KeyRandom | PersistKey

text \<open>
  The loop over the rows; \<open>fault\<close> is the first failure of opening, migrating, querying or
  reading, if there is one.
\<close>

definition loadKeyRow :: "user_id \<times> string \<Rightarrow> apiKeyStore \<Rightarrow> apiKeyStore" where
  "loadKeyRow = (\<lambda>(userID, key) s. s\<lparr> byUser := (byUser s)(userID \<mapsto> key), byKey := (byKey s)(key \<mapsto> userID) \<rparr>)"

definition newPersistentAPIKeyStore :: "key_error option \<Rightarrow> (user_id \<rightharpoonup> string) \<Rightarrow> user_id list \<Rightarrow> key_error + apiKeyStore" where
  "newPersistentAPIKeyStore fault table rows = (case fault of
       Some e \<Rightarrow> Inl e
     | None \<Rightarrow> Inr (fold loadKeyRow (map (\<lambda>u. (u, the (table u))) rows)
         \<lparr> byKey = Map.empty, byUser = Map.empty, keyTable = Some table \<rparr>))"

text \<open>
  \<open>INSERT OR REPLACE\<close> on a table whose user is the primary key and whose key is unique: it
  removes every row that collides in either column.
\<close>

definition insertOrReplace :: "user_id \<Rightarrow> string \<Rightarrow> (user_id \<rightharpoonup> string) \<Rightarrow> (user_id \<rightharpoonup> string)" where
  "insertOrReplace u h t = (evict (\<lambda>_ k. k = h) t)(u \<mapsto> h)"

text \<open>What the user is shown once.\<close>

definition rawAPIKey :: "bytes \<Rightarrow> string" where
  "rawAPIKey raw = ''oim_'' @ hexEncode raw"

definition generateKey :: "crypto \<Rightarrow> bytes option \<Rightarrow> bool \<Rightarrow> user_id \<Rightarrow> apiKeyStore \<Rightarrow> (key_error + string) \<times> apiKeyStore" where
  "generateKey C raw persistOk userID s = (case raw of
       None \<Rightarrow> (Inl KeyRandom, s)
     | Some bs \<Rightarrow>
         let key = rawAPIKey bs; hashed = hashAPIKey C key
         in if keyTable s \<noteq> None \<and> \<not> persistOk then (Inl PersistKey, s)
            else let s = s\<lparr> keyTable := map_option (insertOrReplace userID hashed) (keyTable s) \<rparr>;
                     s = (case byUser s userID of None \<Rightarrow> s | Some old \<Rightarrow> s\<lparr> byKey := (byKey s)(old := None) \<rparr>)
                 in (Inr key, s\<lparr> byKey := (byKey s)(hashed \<mapsto> userID), byUser := (byUser s)(userID \<mapsto> hashed) \<rparr>))"

definition lookupKey :: "crypto \<Rightarrow> string \<Rightarrow> apiKeyStore \<Rightarrow> user_id option" where
  "lookupKey C key s = byKey s (hashAPIKey C key)"

definition revokeKey :: "bool \<Rightarrow> user_id \<Rightarrow> apiKeyStore \<Rightarrow> apiKeyStore" where
  "revokeKey deleteOk userID s =
     (let s = (if deleteOk then s\<lparr> keyTable := map_option (\<lambda>t. t(userID := None)) (keyTable s) \<rparr> else s)
      in case byUser s userID of
           None \<Rightarrow> s
         | Some key \<Rightarrow> s\<lparr> byKey := (byKey s)(key := None), byUser := (byUser s)(userID := None) \<rparr>)"

definition keyExists :: "user_id \<Rightarrow> apiKeyStore \<Rightarrow> bool" where
  "keyExists userID s \<longleftrightarrow> byUser s userID \<noteq> None"

lemma evict_empty [simp]: "evict dead (\<lambda>x. None) = Map.empty"
  by (simp add: evict_def)

section \<open>Histories\<close>

text \<open>
  A restart opens the table again, reading its rows in some order; without a database every
  key is lost.
\<close>

datatype key_event = KeyGenerate user_id "bytes option" bool | KeyRevoke user_id bool | KeyRestart "user_id list"

fun key_step :: "crypto \<Rightarrow> key_event \<Rightarrow> apiKeyStore \<Rightarrow> apiKeyStore" where
  "key_step C (KeyGenerate u raw ok) s = snd (generateKey C raw ok u s)"
| "key_step C (KeyRevoke u ok) s = revokeKey ok u s"
| "key_step C (KeyRestart rows) s = (case keyTable s of
     None \<Rightarrow> newAPIKeyStore
   | Some t \<Rightarrow> (case newPersistentAPIKeyStore None t rows of Inr s' \<Rightarrow> s' | Inl e \<Rightarrow> s))"

definition key_run :: "crypto \<Rightarrow> key_event list \<Rightarrow> apiKeyStore \<Rightarrow> apiKeyStore" where
  "key_run C evs s = fold (key_step C) evs s"

text \<open>What a store promises: each user has the last key generated and not revoked.\<close>

fun spec_step :: "bool \<Rightarrow> key_event \<Rightarrow> (user_id \<rightharpoonup> string) \<Rightarrow> (user_id \<rightharpoonup> string)" where
  "spec_step persistent (KeyGenerate u raw ok) m =
     (case raw of None \<Rightarrow> m | Some bs \<Rightarrow> if persistent \<and> \<not> ok then m else m(u \<mapsto> rawAPIKey bs))"
| "spec_step persistent (KeyRevoke u ok) m = m(u := None)"
| "spec_step persistent (KeyRestart rows) m = (if persistent then m else Map.empty)"

definition key_spec :: "bool \<Rightarrow> key_event list \<Rightarrow> (user_id \<rightharpoonup> string)" where
  "key_spec persistent evs = fold (spec_step persistent) evs Map.empty"

definition drawnKeys :: "key_event list \<Rightarrow> string list" where
  "drawnKeys evs = concat (map (\<lambda>ev. case ev of KeyGenerate u (Some bs) ok \<Rightarrow> [rawAPIKey bs] | _ \<Rightarrow> []) evs)"

text \<open>A restart reads each row of the table once.\<close>

fun rows_ok :: "crypto \<Rightarrow> key_event list \<Rightarrow> apiKeyStore \<Rightarrow> bool" where
  "rows_ok C [] s \<longleftrightarrow> True"
| "rows_ok C (ev # evs) s \<longleftrightarrow>
     (case ev of KeyRestart rows \<Rightarrow> (\<forall>t. keyTable s = Some t \<longrightarrow> range_order rows t) | _ \<Rightarrow> True) \<and> rows_ok C evs (key_step C ev s)"

section \<open>Refinement\<close>

text \<open>
  The stored maps agree with the promised one, through the hash, and only drawn keys occur.
\<close>

definition keys_agree :: "crypto \<Rightarrow> bool \<Rightarrow> string set \<Rightarrow> (user_id \<rightharpoonup> string) \<Rightarrow> apiKeyStore \<Rightarrow> bool" where
  "keys_agree C persistent drawn m s \<longleftrightarrow>
     byUser s = map_option (hashAPIKey C) \<circ> m \<and>
     (\<forall>h u. byKey s h = Some u \<longleftrightarrow> (\<exists>k. m u = Some k \<and> h = hashAPIKey C k)) \<and>
     keyTable s = (if persistent then Some (byUser s) else None) \<and>
     ran m \<subseteq> drawn \<and> inj_on m (dom m)"

lemma keys_agree_unique:
  assumes "keys_agree C p drawn m s" "inj_on (hashAPIKey C) drawn" "m u = Some k" "m v = Some l" "hashAPIKey C k = hashAPIKey C l"
  shows "u = v \<and> k = l"
proof -
  have "k \<in> drawn" "l \<in> drawn" using assms(1,3,4) by (auto simp: keys_agree_def ran_def)
  then have "k = l" using assms(2,5) by (auto dest: inj_onD)
  then show ?thesis using assms(1,3,4) by (metis domI inj_onD keys_agree_def)
qed

lemma keys_agree_generate:
  assumes a: "keys_agree C p drawn m s" and i: "inj_on (hashAPIKey C) (insert key drawn)" and n: "key \<notin> drawn"
    and key: "key = rawAPIKey bs" and ok: "p \<longrightarrow> ok"
  shows "keys_agree C p (insert key drawn) (m(u \<mapsto> key)) (snd (generateKey C (Some bs) ok u s))"
proof -
  let ?h = "hashAPIKey C"
  have new: "?h k \<noteq> ?h key" if "m v = Some k" for v k
    using that a i n by (auto simp: keys_agree_def ran_def inj_on_def)
  have tab: "insertOrReplace u (?h key) (byUser s) = (byUser s)(u \<mapsto> ?h key)"
    using a new by (auto simp: insertOrReplace_def evict_def keys_agree_def fun_eq_iff split: option.splits)
  define s' where "s' = snd (generateKey C (Some bs) ok u s)"
  have s': "byUser s' = (byUser s)(u \<mapsto> ?h key)" "keyTable s' = (if p then Some (byUser s') else None)"
    "byKey s' = (case byUser s u of None \<Rightarrow> byKey s | Some old \<Rightarrow> (byKey s)(old := None))(?h key \<mapsto> u)"
    using a ok tab by (auto simp: s'_def generateKey_def key[symmetric] Let_def keys_agree_def split: option.splits)
  have "byKey s' h = Some v \<longleftrightarrow> (\<exists>k. (m(u \<mapsto> key)) v = Some k \<and> h = ?h k)" for h v
  proof (cases "h = ?h key")
    case True
    then show ?thesis using new[of v] by (auto simp: s'(3))
  next
    case False
    have bk: "byKey s h = Some v \<longleftrightarrow> (\<exists>k. m v = Some k \<and> h = ?h k)" using a by (simp add: keys_agree_def)
    show ?thesis
    proof (cases "m u")
      case None
      then show ?thesis using False bk a by (auto simp: s'(3) keys_agree_def)
    next
      case (Some old)
      then have "byUser s u = Some (?h old)" using a by (simp add: keys_agree_def)
      then have "byKey s' h = (if h = ?h old then None else byKey s h)" using False by (simp add: s'(3))
      moreover have "h = ?h old \<Longrightarrow> m v = Some k \<Longrightarrow> h = ?h k \<Longrightarrow> v = u" for k
        using keys_agree_unique[OF a inj_on_subset[OF i] Some, of v k] by auto
      ultimately show ?thesis using False bk Some by auto
    qed
  qed
  moreover have "ran (m(u \<mapsto> key)) \<subseteq> insert key drawn" using a by (auto simp: keys_agree_def ran_def)
  moreover have "inj_on (m(u \<mapsto> key)) (dom (m(u \<mapsto> key)))"
    using a n by (auto simp: keys_agree_def inj_on_def ran_def split: if_splits)
  ultimately show ?thesis using s' a by (auto simp: keys_agree_def s'_def[symmetric] fun_eq_iff)
qed

lemma revokeKey_fields:
  "byUser (revokeKey ok u s) = (byUser s)(u := None)"
  "byKey (revokeKey ok u s) = (case byUser s u of None \<Rightarrow> byKey s | Some old \<Rightarrow> (byKey s)(old := None))"
  "keyTable (revokeKey ok u s) = (if ok then map_option (\<lambda>t. t(u := None)) (keyTable s) else keyTable s)"
  by (cases "byUser s u"; simp add: revokeKey_def Let_def fun_upd_idem)+

lemma keys_agree_revoke:
  assumes a: "keys_agree C p drawn m s" and i: "inj_on (hashAPIKey C) drawn" and ok: "p \<longrightarrow> ok"
  shows "keys_agree C p drawn (m(u := None)) (revokeKey ok u s)"
proof -
  have parts: "byUser s = map_option (hashAPIKey C) \<circ> m" "keyTable s = (if p then Some (byUser s) else None)"
    "ran m \<subseteq> drawn" "inj_on m (dom m)"
    and bk: "byKey s h = Some v \<longleftrightarrow> (\<exists>k. m v = Some k \<and> h = hashAPIKey C k)" for h v
    using a by (simp_all add: keys_agree_def)
  have 1: "byKey (revokeKey ok u s) h = Some v \<longleftrightarrow> (\<exists>k. (m(u := None)) v = Some k \<and> h = hashAPIKey C k)" for h v
  proof (cases "m u")
    case None
    then have "byUser s u = None" by (simp add: parts(1))
    then show ?thesis using fun_upd_idem[of m u None] None by (simp add: revokeKey_fields bk)
  next
    case (Some old)
    then have "byUser s u = Some (hashAPIKey C old)" by (simp add: parts(1))
    then have "byKey (revokeKey ok u s) h = (if h = hashAPIKey C old then None else byKey s h)"
      by (simp add: revokeKey_fields)
    note upd = this
    have other: "h \<noteq> hashAPIKey C old" if w: "byKey s h = Some v" "v \<noteq> u"
    proof
      obtain k where k: "m v = Some k" "h = hashAPIKey C k" using w(1) bk[of h v] by auto
      assume "h = hashAPIKey C old"
      then show False using keys_agree_unique[OF a i Some k(1)] k(2) w(2) by simp
    qed
    show ?thesis
    proof (cases "v = u")
      case True
      have "byKey s h = Some u \<longleftrightarrow> h = hashAPIKey C old" using bk[of h u] Some by simp
      then show ?thesis using True by (simp add: upd)
    next
      case False
      have "byKey (revokeKey ok u s) h = Some v \<longleftrightarrow> byKey s h = Some v" using other False by (auto simp: upd)
      then show ?thesis using False by (simp add: bk)
    qed
  qed
  have 2: "ran (m(u := None)) \<subseteq> drawn" using parts(3) by (auto simp: ran_def)
  have 3: "inj_on (m(u := None)) (dom (m(u := None)))" using parts(4) by (auto simp: inj_on_def)
  have 4: "byUser (revokeKey ok u s) = map_option (hashAPIKey C) \<circ> m(u := None)"
    by (simp add: revokeKey_fields parts(1) fun_eq_iff)
  have 5: "keyTable (revokeKey ok u s) = (if p then Some (byUser (revokeKey ok u s)) else None)"
    using ok by (auto simp: revokeKey_fields parts(2))
  show ?thesis unfolding keys_agree_def by (intro conjI allI 1 2 3 4 5)
qed

lemma load_rows:
  assumes "distinct rows" "set rows \<subseteq> dom t" "inj_on t (dom t)"
  shows "byUser (fold loadKeyRow (map (\<lambda>u. (u, the (t u))) rows) \<lparr> byKey = Map.empty, byUser = Map.empty, keyTable = Some t \<rparr>) = t |` set rows \<and>
    (\<forall>h u. byKey (fold loadKeyRow (map (\<lambda>u. (u, the (t u))) rows) \<lparr> byKey = Map.empty, byUser = Map.empty, keyTable = Some t \<rparr>) h = Some u
       \<longleftrightarrow> u \<in> set rows \<and> t u = Some h) \<and>
    keyTable (fold loadKeyRow (map (\<lambda>u. (u, the (t u))) rows) \<lparr> byKey = Map.empty, byUser = Map.empty, keyTable = Some t \<rparr>) = Some t"
  using assms(1,2)
proof (induction rows rule: rev_induct)
  case (snoc v rows)
  obtain h where h: "t v = Some h" using snoc.prems by auto
  have u: "t w = Some h \<Longrightarrow> w = v" for w using assms(3) h by (metis domI inj_onD)
  from snoc show ?case by (auto simp: loadKeyRow_def h restrict_map_insert dest: u)
qed simp

lemma keys_agree_restart:
  assumes a: "keys_agree C True drawn m s" and i: "inj_on (hashAPIKey C) drawn" and r: "range_order rows (byUser s)"
  shows "keys_agree C True drawn m (key_step C (KeyRestart rows) s)"
proof -
  have t: "keyTable s = Some (byUser s)" using a by (simp add: keys_agree_def)
  have m: "(\<exists>k. m u = Some k \<and> h = hashAPIKey C k) \<longleftrightarrow> byUser s u = Some h" for u h
    using a by (auto simp: keys_agree_def)
  have "u = v" if "byUser s u = Some h" "byUser s v = Some h" for u v h
    using that keys_agree_unique[OF a i] unfolding m[symmetric] by blast
  then have inj: "inj_on (byUser s) (dom (byUser s))" by (auto simp: inj_on_def dom_def)
  have d: "distinct rows" "set rows \<subseteq> dom (byUser s)" "set rows = dom (byUser s)" using r by (auto simp: range_order_def)
  define s' where "s' = key_step C (KeyRestart rows) s"
  have "s' = fold loadKeyRow (map (\<lambda>u. (u, the (byUser s u))) rows) \<lparr> byKey = Map.empty, byUser = Map.empty, keyTable = Some (byUser s) \<rparr>"
    unfolding s'_def key_step.simps t option.case newPersistentAPIKeyStore_def sum.case by (rule refl)
  with load_rows[OF d(1,2) inj] have l: "byUser s' = byUser s |` set rows" "keyTable s' = Some (byUser s)"
    "byKey s' h = Some u \<longleftrightarrow> u \<in> set rows \<and> byUser s u = Some h" for h u by simp_all
  have "byUser s |` set rows = byUser s" unfolding d(3) by (auto simp: restrict_map_def fun_eq_iff domIff)
  moreover have "byKey s' h = Some u \<longleftrightarrow> (\<exists>k. m u = Some k \<and> h = hashAPIKey C k)" for h u
    unfolding l(3) m d(3) by auto
  ultimately show ?thesis using a l(1,2) unfolding s'_def[symmetric] keys_agree_def by simp
qed

lemma keys_agree_start: "keys_agree C persistent {} Map.empty
    (if persistent then \<lparr> byKey = Map.empty, byUser = Map.empty, keyTable = Some Map.empty \<rparr> else newAPIKeyStore)"
  by (auto simp: keys_agree_def newAPIKeyStore_def fun_eq_iff)

lemma drawnKeys_Cons: "drawnKeys (ev # evs) =
    (case ev of KeyGenerate u (Some bs) ok \<Rightarrow> [rawAPIKey bs] | _ \<Rightarrow> []) @ drawnKeys evs"
  by (simp add: drawnKeys_def)

lemma keys_agree_mono: "keys_agree C p drawn m s \<Longrightarrow> drawn \<subseteq> drawn' \<Longrightarrow> keys_agree C p drawn' m s"
  by (auto simp: keys_agree_def)

lemma keys_agree_run:
  assumes "keys_agree C p drawn m s" "inj_on (hashAPIKey C) (drawn \<union> set (drawnKeys evs))"
    "distinct (drawnKeys evs)" "drawn \<inter> set (drawnKeys evs) = {}" "rows_ok C evs s" "\<forall>u. KeyRevoke u False \<notin> set evs"
  shows "keys_agree C p (drawn \<union> set (drawnKeys evs)) (fold (spec_step p) evs m) (key_run C evs s)"
  using assms
proof (induction evs arbitrary: drawn m s)
  case (Cons ev evs)
  have i: "inj_on (hashAPIKey C) drawn" using Cons.prems(2) by (rule inj_on_subset) auto
  define drawn' where "drawn' = drawn \<union> set (case ev of KeyGenerate u (Some bs) ok \<Rightarrow> [rawAPIKey bs] | _ \<Rightarrow> [])"
  have "keys_agree C p drawn' (spec_step p ev m) (key_step C ev s)"
  proof (cases ev)
    case (KeyGenerate u raw ok)
    show ?thesis
    proof (cases raw)
      case None
      then show ?thesis using Cons.prems(1) KeyGenerate by (simp add: drawn'_def generateKey_def)
    next
      case (Some bs)
      have f: "inj_on (hashAPIKey C) (insert (rawAPIKey bs) drawn)" "rawAPIKey bs \<notin> drawn"
        using Cons.prems(2,4) KeyGenerate Some by (auto simp: drawnKeys_Cons elim: inj_on_subset)
      show ?thesis
      proof (cases "p \<and> \<not> ok")
        case True
        then have "keyTable s \<noteq> None" using Cons.prems(1) by (simp add: keys_agree_def)
        then have "key_step C ev s = s" "spec_step p ev m = m" using True KeyGenerate Some
          by (simp_all add: generateKey_def Let_def)
        then show ?thesis using Cons.prems(1) by (simp only:) (rule keys_agree_mono, auto simp: drawn'_def)
      next
        case False
        then have "p \<longrightarrow> ok" by simp
        from keys_agree_generate[OF Cons.prems(1) f refl this, of u] show ?thesis using False KeyGenerate Some
          by (auto simp: drawn'_def)
      qed
    qed
  next
    case (KeyRevoke u ok)
    then have "p \<longrightarrow> ok" using Cons.prems(6) by (cases ok) auto
    from keys_agree_revoke[OF Cons.prems(1) i this] show ?thesis by (simp add: KeyRevoke drawn'_def)
  next
    case (KeyRestart rows)
    show ?thesis
    proof (cases p)
      case True
      have "range_order rows (byUser s)" using Cons.prems(1,5) True KeyRestart by (simp add: keys_agree_def)
      moreover have "keys_agree C True drawn m s" using Cons.prems(1) True by simp
      ultimately have "keys_agree C True drawn m (key_step C (KeyRestart rows) s)" by (intro keys_agree_restart i)
      then show ?thesis using True
        by (simp add: KeyRestart drawn'_def del: key_step.simps)
    next
      case False
      then have "key_step C ev s = newAPIKeyStore" using Cons.prems(1) KeyRestart by (simp add: keys_agree_def)
      then show ?thesis using False keys_agree_start[of C False] KeyRestart
        by (auto simp: drawn'_def intro: keys_agree_mono)
    qed
  qed
  moreover have "drawn' \<union> set (drawnKeys evs) = drawn \<union> set (drawnKeys (ev # evs))"
    by (auto simp: drawn'_def drawnKeys_Cons)
  moreover have "drawn' \<inter> set (drawnKeys evs) = {}" "distinct (drawnKeys evs)"
    using Cons.prems(3,4) unfolding drawn'_def drawnKeys_Cons by (auto split: key_event.splits option.splits)
  ultimately show ?case using Cons.IH[of drawn' "spec_step p ev m" "key_step C ev s"] Cons.prems(2,5,6)
    by (simp add: key_run_def)
qed (simp add: key_run_def drawnKeys_def)

section \<open>Properties\<close>


definition plainCrypto :: crypto where
  "plainCrypto = \<lparr> sha256 = (\<lambda>x. x), ed25519Verify = (\<lambda>pk m s. s = m), ed25519Sign = (\<lambda>sk m. m),
     p256Verify = (\<lambda>pk m s. s = m), marshalManifest = (\<lambda>m. Some []), marshalRefresh = (\<lambda>m t. Some []),
     marshalClaim = (\<lambda>n t. Some []), marshalAttestation = (\<lambda>n k t. Some []), marshalDigest = (\<lambda>d. Some []) \<rparr>"

lemma hashAPIKey_plain: "inj_on (hashAPIKey plainCrypto) A"
  by (rule inj_onI) (simp add: hashAPIKey_def plainCrypto_def hexEncode_inj bytes_of_inj)


text \<open>
  A revocation whose database deletion fails (which the code only logs) lasts until the next
  restart: then the revoked key is valid again.
\<close>

theorem failed_revocation_returns:
  "lookupKey plainCrypto (rawAPIKey [1]) (key_run plainCrypto [KeyGenerate u (Some [1]) True, KeyRevoke u False] s0) = None \<and>
   lookupKey plainCrypto (rawAPIKey [1]) (key_run plainCrypto [KeyGenerate u (Some [1]) True, KeyRevoke u False, KeyRestart [u]] s0) = Some u"
  if "s0 = \<lparr> byKey = Map.empty, byUser = Map.empty, keyTable = Some Map.empty \<rparr>"
  using that by (simp add: key_run_def generateKey_def insertOrReplace_def lookupKey_def Let_def
      newPersistentAPIKeyStore_def loadKeyRow_def revokeKey_def)

end
