(* ===== verification/RateLimit.thy ===== *)
theory RateLimit
  imports Float64 GoStd
begin

text \<open>
  The token buckets of the code: the keyed limiter of \<open>internal/httpmw/ratelimit.go\<close>
  with its eviction loop, which guards logins, grants and writes, the outbound limiter of
  \<open>internal/httpx/ratelimit.go\<close>, and the connection limit of \<open>internal/httpmw/limits.go\<close>.
  Clock readings are arguments; an execution is a sequence of requests and eviction ticks.
\<close>

section \<open>The keyed limiter\<close>

record bucket =
  bktTokens :: f64
  bktLastSeen :: time

record RateLimiter =
  rlBuckets :: "string \<rightharpoonup> bucket"
  ratePerSec :: f64
  rlBurst :: f64

definition NewRateLimiter :: "f64 \<Rightarrow> f64 \<Rightarrow> RateLimiter" where
  "NewRateLimiter rate burst = \<lparr> rlBuckets = Map.empty, ratePerSec = rate, rlBurst = burst \<rparr>"

text \<open>One tick of \<open>runEviction\<close>, which a limiter that is switched off does not start.\<close>

definition evictIdle :: "time \<Rightarrow> RateLimiter \<Rightarrow> RateLimiter" where
  "evictIdle now l =
     (if ratePerSec l > 0
      then l\<lparr> rlBuckets := evict (\<lambda>_ b. now - bktLastSeen b > 10 * minute) (rlBuckets l) \<rparr>
      else l)"

definition refillBucket :: "RateLimiter \<Rightarrow> time \<Rightarrow> bucket \<Rightarrow> bucket" where
  "refillBucket l now b =
     \<lparr> bktTokens = min (rlBurst l) (fadd (bktTokens b) (fmul (seconds (now - bktLastSeen b)) (ratePerSec l))),
       bktLastSeen = now \<rparr>"

definition AllowKey :: "string \<Rightarrow> time \<Rightarrow> RateLimiter \<Rightarrow> bool \<times> RateLimiter" where
  "AllowKey key now l =
     (if ratePerSec l \<le> 0 then (True, l)
      else let b = (case rlBuckets l key of None \<Rightarrow> \<lparr> bktTokens = rlBurst l, bktLastSeen = now \<rparr> | Some b \<Rightarrow> b);
               b = refillBucket l now b
           in if bktTokens b < 1 then (False, l\<lparr> rlBuckets := (rlBuckets l)(key \<mapsto> b) \<rparr>)
              else (True, l\<lparr> rlBuckets := (rlBuckets l)(key \<mapsto> b\<lparr> bktTokens := fsub (bktTokens b) 1 \<rparr>) \<rparr>))"

section \<open>The outbound limiter\<close>

record Limiter =
  lTokens :: f64
  lMax :: f64
  perSec :: f64
  lastFill :: time

definition NewLimiter :: "f64 \<Rightarrow> int \<Rightarrow> time \<Rightarrow> Limiter" where
  "NewLimiter rate burst now =
     (let b = f_of_int burst; b = (if b < 1 then 1 else b)
      in \<lparr> lTokens = b, lMax = b, perSec = rate, lastFill = now \<rparr>)"

definition refill :: "time \<Rightarrow> Limiter \<Rightarrow> Limiter" where
  "refill t l =
     (if perSec l \<le> 0 then l
      else let elapsed = seconds (t - lastFill l)
           in if elapsed \<le> 0 then l
              else let total = fadd (lTokens l) (fmul elapsed (perSec l))
                   in l\<lparr> lTokens := (if total > lMax l then lMax l else total), lastFill := t \<rparr>)"

definition AllowOut :: "time \<Rightarrow> Limiter \<Rightarrow> bool \<times> Limiter" where
  "AllowOut t l =
     (if perSec l \<le> 0 then (True, l)
      else let l = refill t l
           in if lTokens l \<ge> 1 then (True, l\<lparr> lTokens := fsub (lTokens l) 1 \<rparr>) else (False, l))"

text \<open>
  The polling loop of \<open>Wait\<close>: round \<open>k\<close> reads the clock at \<open>clock k\<close> and then either sees
  the context's end, which \<open>ctxDone k\<close> tells, or sleeps ten milliseconds. The result is
  whether a token was taken.
\<close>

partial_function (option) WaitRound :: "(nat \<Rightarrow> time) \<Rightarrow> (nat \<Rightarrow> bool) \<Rightarrow> nat \<Rightarrow> Limiter \<Rightarrow> (bool \<times> Limiter) option" where
  "WaitRound clock ctxDone k l =
     (case AllowOut (clock k) l of
        (ok, l') \<Rightarrow> if ok then Some (True, l') else if ctxDone k then Some (False, l')
                     else WaitRound clock ctxDone (Suc k) l')"

definition WaitToken :: "(nat \<Rightarrow> time) \<Rightarrow> (nat \<Rightarrow> bool) \<Rightarrow> Limiter \<Rightarrow> (bool \<times> Limiter) option" where
  "WaitToken clock ctxDone l = (if perSec l \<le> 0 then Some (True, l) else WaitRound clock ctxDone 0 l)"

section \<open>Concurrency\<close>

text \<open>The semaphore of \<open>LimitConcurrency\<close>: None is the immediate 503 answer.\<close>

definition enterLimited :: "int \<Rightarrow> nat \<Rightarrow> nat option" where
  "enterLimited limit inFlight =
     (if limit \<le> 0 then Some inFlight
      else if int inFlight < limit then Some (inFlight + 1) else None)"

definition leaveLimited :: "int \<Rightarrow> nat \<Rightarrow> nat" where
  "leaveLimited limit inFlight = (if limit \<le> 0 then inFlight else inFlight - 1)"

definition DefaultMaxBodyBytes :: int where "DefaultMaxBodyBytes = 8 * 2 ^ 20"

definition bodyLimit :: "int \<Rightarrow> int" where
  "bodyLimit limit = (if limit \<le> 0 then DefaultMaxBodyBytes else limit)"

section \<open>Executions of the keyed limiter\<close>

datatype limit_event = Hit string time | EvictTick time

fun eventAt :: "limit_event \<Rightarrow> time" where
  "eventAt (Hit key t) = t"
| "eventAt (EvictTick t) = t"

fun granted :: "string \<Rightarrow> limit_event list \<Rightarrow> RateLimiter \<Rightarrow> nat" where
  "granted key [] l = 0"
| "granted key (Hit k t # evs) l =
     (if k = key \<and> fst (AllowKey k t l) then 1 else 0) + granted key evs (snd (AllowKey k t l))"
| "granted key (EvictTick t # evs) l = granted key evs (evictIdle t l)"

definition dawdle :: f64 where "dawdle = (1 + 1 / 2 ^ 53) ^ 3"

text \<open>What a bucket can hold after a refill: the elapsed time pays for it.\<close>

lemma is_f64_half_ns: "is_f64 (1 / 2 ^ 31)"
proof -
  have "(1 / 2 ^ 31 :: rat) = of_int 1 * 2 powi (- 31)" by (simp add: power_int_def power_divide)
  then show ?thesis unfolding is_f64_def by (intro exI[of _ 1] exI[of _ "-31"]) simp
qed

lemma fl_of_int_ge1: "1 \<le> n \<Longrightarrow> 1 \<le> f_of_int n"
  by (rule fl_ge_f64[OF is_f64_1]) (simp only: of_int_1_le_iff)

lemma seconds_split:
  assumes "1 \<le> d"
  shows "seconds d = fl (f_of_int (d div second) + fdiv (f_of_int (d mod second)) 1000000000)"
proof -
  have "sgn d = 1" "\<bar>d\<bar> = d" using assms by simp_all
  then show ?thesis unfolding seconds_def by simp
qed

lemma seconds_ge:
  assumes "1 \<le> d"
  shows "1 / 2 ^ 31 \<le> seconds d"
proof -
  define a b where "a = f_of_int (d div second)" and "b = fdiv (f_of_int (d mod second)) 1000000000"
  have d0: "0 \<le> d div second" by (rule pos_imp_zdiv_nonneg_iff[THEN iffD2]) (use assms in simp_all)
  then have a0: "0 \<le> a" unfolding a_def by (intro fl_nonneg) (simp only: of_int_0_le_iff)
  have "0 \<le> d mod second" by simp
  then have "0 \<le> f_of_int (d mod second)" by (intro fl_nonneg) (simp only: of_int_0_le_iff)
  then have b0: "0 \<le> b" unfolding b_def by (intro fl_nonneg divide_nonneg_nonneg) simp_all
  have "1 / 2 ^ 31 \<le> a + b"
  proof (cases "1 \<le> d div second")
    case True
    then have "1 \<le> a" unfolding a_def by (rule fl_of_int_ge1)
    moreover have "1 / 2 ^ 31 \<le> (1::rat)" by simp
    ultimately show ?thesis using b0 by linarith
  next
    case False
    then have "d = d mod second" using d0 div_mult_mod_eq[of d second] by linarith
    then have "1 \<le> f_of_int (d mod second)" using assms fl_of_int_ge1[of d] by simp
    then have "1 / 1000000000 \<le> f_of_int (d mod second) / 1000000000" by (rule divide_right_mono) simp
    moreover have "1 / 2 ^ 31 \<le> (1 / 1000000000 :: rat)" by simp
    ultimately have "1 / 2 ^ 31 \<le> b" unfolding b_def by (intro fl_ge_f64[OF is_f64_half_ns]) (rule order_trans)
    then show ?thesis using a0 by linarith
  qed
  then show ?thesis unfolding seconds_split[OF assms] a_def b_def by (rule fl_ge_f64[OF is_f64_half_ns])
qed

lemma earned_le:
  assumes "0 \<le> d" "d div second \<le> 2 ^ 53" "1 / 2 ^ 29 \<le> rate"
  shows "fmul (seconds d) rate \<le> rate * (of_int d / of_int second) * dawdle"
proof -
  have r: "0 \<le> rate" using assms(3) by (rule order_trans[rotated]) simp
  have "seconds d * rate = 0 \<or> 1 / 2 ^ 60 \<le> seconds d * rate"
  proof (cases "d = 0")
    case False
    then have "1 \<le> d" using assms(1) by simp
    from mult_mono[OF seconds_ge[OF this] assms(3)] r show ?thesis
      using seconds_nonneg[OF assms(1)] by simp
  qed (simp add: seconds_def)
  then have "fmul (seconds d) rate \<le> seconds d * rate * (1 + 1 / 2 ^ 53)" by (rule fl_rel_up)
  also have "\<dots> \<le> (of_int d / of_int second * (1 + 1 / 2 ^ 53) ^ 2) * rate * (1 + 1 / 2 ^ 53)"
    using seconds_le[OF assms(1,2)] r by (intro mult_right_mono) simp_all
  also have "\<dots> = rate * (of_int d / of_int second) * dawdle"
    by (simp add: dawdle_def power2_eq_square power3_eq_cube mult_ac)
  finally show ?thesis .
qed

lemma one_plus_part: "a * (1 + 1 / c) = a + a / (c :: rat)"
  by (simp add: distrib_left)

lemma refill_le:
  assumes "is_f64 tok" "0 \<le> tok" "is_f64 x" "0 \<le> x" "0 \<le> B"
  shows "min B (fl (tok + x)) \<le> tok + x + B / 2 ^ 53"
proof (cases "tok + x \<le> B")
  case True
  have "fl (tok + x) \<le> (tok + x) + (tok + x) / 2 ^ 53"
    using f64_add_le[OF assms(1,3)] assms(2,4) by (simp only: one_plus_part add_nonneg_nonneg)
  also have "\<dots> \<le> tok + x + B / 2 ^ 53" using True by (intro add_left_mono divide_right_mono) simp_all
  finally show ?thesis by simp
next
  case False
  then have "min B (fl (tok + x)) \<le> tok + x" by simp
  also have "\<dots> \<le> tok + x + B / 2 ^ 53" using assms(5) by simp
  finally show ?thesis .
qed

text \<open>One request on a bucket with \<open>tok\<close> tokens, \<open>d\<close> after its last one.\<close>

lemma bucket_step:
  assumes "is_f64 tok" "0 \<le> tok" "0 \<le> d" "d div second \<le> 2 ^ 53" "1 / 2 ^ 29 \<le> rate" "0 \<le> B" "is_f64 B"
    and t: "t = min B (fadd tok (fmul (seconds d) rate))"
  shows "0 \<le> t" "is_f64 t" "t \<le> tok + rate * (of_int d / of_int second) * dawdle + B / 2 ^ 53"
    "1 \<le> t \<Longrightarrow> fsub t 1 \<le> t - 1 + B / 2 ^ 53"
proof -
  have r: "0 \<le> rate" using assms(5) by (rule order_trans[rotated]) simp
  have x0: "0 \<le> fmul (seconds d) rate" using seconds_nonneg[OF assms(3)] r by (intro fl_nonneg) simp
  show "0 \<le> t" using assms x0 by (auto simp: t intro!: fl_nonneg)
  show f: "is_f64 t" using assms(7) by (simp add: t is_f64_min)
  have "t \<le> tok + fmul (seconds d) rate + B / 2 ^ 53" using refill_le[OF assms(1,2) _ x0 assms(6)] by (simp add: t)
  then show "t \<le> tok + rate * (of_int d / of_int second) * dawdle + B / 2 ^ 53"
    using earned_le[OF assms(3,4,5)] by linarith
  assume "1 \<le> t"
  then have "fsub t 1 \<le> (t - 1) + (t - 1) / 2 ^ 53" using f64_diff_le[OF f is_f64_1] by (simp only: one_plus_part)
  also have "(t - 1) / 2 ^ 53 \<le> B / 2 ^ 53" by (rule divide_right_mono) (simp_all add: t)
  finally show "fsub t 1 \<le> t - 1 + B / 2 ^ 53" by simp
qed

text \<open>
  What a limiter can still grant to a key up to time \<open>T\<close>: the tokens left and what the
  time since then pays for; an evicted key was idle long enough to have earned a full bucket.
\<close>

definition earns :: "f64 \<Rightarrow> time \<Rightarrow> time \<Rightarrow> rat" where
  "earns rate a b = rate * (of_int (b - a) / of_int second) * dawdle"

definition allowance :: "RateLimiter \<Rightarrow> string \<Rightarrow> time \<Rightarrow> time \<Rightarrow> rat" where
  "allowance l key now T = (case rlBuckets l key of
       None \<Rightarrow> rlBurst l + earns (ratePerSec l) now T
     | Some b \<Rightarrow> bktTokens b + earns (ratePerSec l) (bktLastSeen b) T)"

definition limiter_ok :: "RateLimiter \<Rightarrow> string \<Rightarrow> time \<Rightarrow> time \<Rightarrow> bool" where
  "limiter_ok l key t0 now \<longleftrightarrow> 1 / 2 ^ 29 \<le> ratePerSec l \<and> is_f64 (rlBurst l) \<and> 0 \<le> rlBurst l \<and>
     rlBurst l \<le> 600 * ratePerSec l \<and>
     (\<forall>b. rlBuckets l key = Some b \<longrightarrow> is_f64 (bktTokens b) \<and> 0 \<le> bktTokens b \<and> t0 \<le> bktLastSeen b \<and> bktLastSeen b \<le> now)"

lemma dawdle_ge1: "1 \<le> dawdle"
  unfolding dawdle_def by (rule one_le_power) simp

lemma earns_add: "earns rate a b + earns rate b c = earns rate a c"
  by (simp add: earns_def field_simps)

lemma earns_mono: "0 \<le> rate \<Longrightarrow> a \<le> b \<Longrightarrow> 0 \<le> earns rate a b"
  using dawdle_ge1 by (simp add: earns_def)

lemma other_key_kept: "k \<noteq> key \<Longrightarrow> rlBuckets (snd (AllowKey k t l)) key = rlBuckets l key"
  by (simp add: AllowKey_def Let_def)

lemma limiter_params: "ratePerSec (snd (AllowKey k t l)) = ratePerSec l" "rlBurst (snd (AllowKey k t l)) = rlBurst l"
  "ratePerSec (evictIdle t l) = ratePerSec l" "rlBurst (evictIdle t l) = rlBurst l"
  by (simp_all add: AllowKey_def evictIdle_def Let_def)

lemma own_bucket:
  assumes "0 < ratePerSec l"
    and b: "b = (case rlBuckets l key of None \<Rightarrow> \<lparr> bktTokens = rlBurst l, bktLastSeen = t \<rparr> | Some b \<Rightarrow> b)"
    and x: "x = min (rlBurst l) (fadd (bktTokens b) (fmul (seconds (t - bktLastSeen b)) (ratePerSec l)))"
  shows "fst (AllowKey key t l) \<longleftrightarrow> 1 \<le> x"
    "rlBuckets (snd (AllowKey key t l)) key = Some \<lparr> bktTokens = (if 1 \<le> x then fsub x 1 else x), bktLastSeen = t \<rparr>"
  using assms(1) by (auto simp: AllowKey_def refillBucket_def Let_def b x)

lemma allowance_hit:
  assumes ok: "limiter_ok l key t0 now" and t: "now \<le> t" "t \<le> t0 + 2 ^ 53 * second" "t0 \<le> now"
    and l': "l' = snd (AllowKey key t l)"
  shows "limiter_ok l' key t0 t"
    "(if fst (AllowKey key t l) then 1 else 0) + allowance l' key t T \<le> allowance l key now T + rlBurst l / 2 ^ 52"
proof -
  let ?rate = "ratePerSec l" and ?B = "rlBurst l"
  define b where "b = (case rlBuckets l key of None \<Rightarrow> \<lparr> bktTokens = ?B, bktLastSeen = t \<rparr> | Some b \<Rightarrow> b)"
  define d where "d = t - bktLastSeen b"
  define x where "x = min ?B (fadd (bktTokens b) (fmul (seconds d) ?rate))"
  have r: "1 / 2 ^ 29 \<le> ?rate" "is_f64 ?B" "0 \<le> ?B" using ok by (simp_all add: limiter_ok_def)
  then have r0: "0 < ?rate" by simp
  have b: "is_f64 (bktTokens b)" "0 \<le> bktTokens b" "0 \<le> d" "d \<le> t - t0"
    using ok t by (auto simp: limiter_ok_def b_def d_def split: option.splits)
  have "d div second \<le> (2 ^ 53 * second) div second" using b(4) t(2) by (intro zdiv_mono1) simp_all
  then have d: "d div second \<le> 2 ^ 53" by simp
  note st = bucket_step[OF b(1,2,3) d r(1) r(3) r(2) x_def]
  note ow = own_bucket[OF r0 b_def, of x, unfolded d_def[symmetric], OF x_def, folded l']
  have p: "ratePerSec l' = ?rate" "rlBurst l' = ?B" by (simp_all add: l' limiter_params)
  show "limiter_ok l' key t0 t" using ok st(1,2) t ow(2) p
    by (auto simp: limiter_ok_def intro!: fl_nonneg)
  have base: "bktTokens b + earns ?rate (bktLastSeen b) T \<le> allowance l key now T"
    using t(1) earns_add[of ?rate now t T] earns_mono[of ?rate now t] r0
    by (auto simp: allowance_def b_def split: option.splits)
  have e: "earns ?rate (bktLastSeen b) t + earns ?rate t T = earns ?rate (bktLastSeen b) T" by (rule earns_add)
  have x3: "x \<le> bktTokens b + earns ?rate (bktLastSeen b) t + ?B / 2 ^ 53" using st(3) by (simp add: earns_def d_def)
  have h: "?B / 2 ^ 52 = ?B / 2 ^ 53 + ?B / 2 ^ 53" by simp
  have B0: "0 \<le> ?B / 2 ^ 53" using r(3) by simp
  show "(if fst (AllowKey key t l) then 1 else 0) + allowance l' key t T \<le> allowance l key now T + ?B / 2 ^ 52"
  proof (cases "1 \<le> x")
    case True
    then have "allowance l' key t T = fsub x 1 + earns ?rate t T" using ow(2) p by (simp add: allowance_def)
    then show ?thesis using True st(4) x3 e base h ow(1) by simp
  next
    case False
    then have "allowance l' key t T = x + earns ?rate t T" using ow(2) p by (simp add: allowance_def)
    then show ?thesis using False x3 e base h ow(1) B0 by simp
  qed
qed

lemma allowance_evict:
  assumes ok: "limiter_ok l key t0 now" and t: "now \<le> t" "t0 \<le> now"
  shows "limiter_ok (evictIdle t l) key t0 t" "allowance (evictIdle t l) key t T \<le> allowance l key now T"
proof -
  let ?rate = "ratePerSec l" and ?l = "evictIdle t l"
  have r: "1 / 2 ^ 29 \<le> ?rate" "rlBurst l \<le> 600 * ?rate" using ok by (simp_all add: limiter_ok_def)
  then have r0: "0 < ?rate" by simp
  have bk: "rlBuckets ?l = evict (\<lambda>_ b. t - bktLastSeen b > 10 * minute) (rlBuckets l)" using r0 by (simp add: evictIdle_def)
  show "limiter_ok ?l key t0 t" using ok t by (auto simp: limiter_ok_def bk limiter_params)
  show "allowance ?l key t T \<le> allowance l key now T"
  proof (cases "rlBuckets l key")
    case None
    then show ?thesis using earns_add[of ?rate now t T] earns_mono[of ?rate now t] t r0
      by (simp add: allowance_def bk evict_None limiter_params)
  next
    case (Some b)
    have t0: "0 \<le> bktTokens b" using ok Some by (simp add: limiter_ok_def)
    show ?thesis
    proof (cases "t - bktLastSeen b > 10 * minute")
      case True
      have "600 * ?rate \<le> earns ?rate (bktLastSeen b) t"
      proof -
        have "600 * second \<le> t - bktLastSeen b" using True by simp
        then have "(of_int (600 * second) :: rat) \<le> of_int (t - bktLastSeen b)" by (simp only: of_int_le_iff)
        then have "600 * 1 \<le> of_int (t - bktLastSeen b) / of_int second * dawdle"
          using dawdle_ge1 by (intro mult_mono) simp_all
        then have "?rate * (600 * 1) \<le> ?rate * (of_int (t - bktLastSeen b) / of_int second * dawdle)"
          using r0 by (intro mult_left_mono) simp_all
        then show ?thesis by (simp add: earns_def mult.assoc mult.commute[of 600])
      qed
      moreover have "evict (\<lambda>_ b. t - bktLastSeen b > 10 * minute) (rlBuckets l) key = None"
        using Some True by (simp add: evict_def)
      ultimately show ?thesis using Some r(2) t0 earns_add[of ?rate "bktLastSeen b" t T]
        by (simp add: allowance_def bk limiter_params)
    next
      case False
      then show ?thesis using Some by (simp add: allowance_def bk evict_def limiter_params)
    qed
  qed
qed

lemma allowance_other:
  assumes "limiter_ok l key t0 now" "now \<le> t" "k \<noteq> key"
  shows "limiter_ok (snd (AllowKey k t l)) key t0 t" "allowance (snd (AllowKey k t l)) key t T \<le> allowance l key now T"
proof -
  have "0 \<le> ratePerSec l" using assms(1) by (auto simp: limiter_ok_def intro: order_trans[rotated])
  then show "allowance (snd (AllowKey k t l)) key t T \<le> allowance l key now T"
    using assms(2) other_key_kept[OF assms(3)] earns_add[of "ratePerSec l" now t T] earns_mono[of "ratePerSec l" now t]
    by (auto simp: allowance_def limiter_params split: option.splits)
  show "limiter_ok (snd (AllowKey k t l)) key t0 t"
    using assms other_key_kept[OF assms(3)] by (auto simp: limiter_ok_def limiter_params)
qed

lemma granted_le:
  assumes "limiter_ok l key t0 now" "sorted (map eventAt evs)" "\<forall>ev \<in> set evs. now \<le> eventAt ev \<and> eventAt ev \<le> T"
    "t0 \<le> now" "now \<le> T" "T \<le> t0 + 2 ^ 53 * second"
  shows "of_nat (granted key evs l) \<le> allowance l key now T + of_nat (length evs) * (rlBurst l / 2 ^ 52)"
  using assms
proof (induction evs arbitrary: l now)
  case Nil
  have "0 \<le> ratePerSec l" using Nil.prems(1) by (auto simp: limiter_ok_def intro: order_trans[rotated])
  then have "0 \<le> allowance l key now T" using Nil.prems
    by (auto simp: allowance_def limiter_ok_def intro!: add_nonneg_nonneg earns_mono split: option.splits)
  then show ?case by simp
next
  case (Cons ev evs)
  have B: "0 \<le> rlBurst l / 2 ^ 52" using Cons.prems(1) by (simp add: limiter_ok_def)
  have later: "sorted (map eventAt evs)" "\<forall>e \<in> set evs. eventAt ev \<le> eventAt e \<and> eventAt e \<le> T"
    "t0 \<le> eventAt ev" "eventAt ev \<le> T" "now \<le> eventAt ev" using Cons.prems by auto
  define n where "n = of_nat (length evs) * (rlBurst l / 2 ^ 52)"
  have n: "of_nat (length (ev # evs)) * (rlBurst l / 2 ^ 52) = n + rlBurst l / 2 ^ 52"
    by (simp add: n_def distrib_right)
  show ?case
  proof (cases ev)
    case (Hit k t)
    define l' where "l' = snd (AllowKey k t l)"
    have bl: "rlBurst l' = rlBurst l" by (simp add: l'_def limiter_params)
    have t: "now \<le> t" "t0 \<le> t" "t \<le> t0 + 2 ^ 53 * second" "t \<le> T" using later Cons.prems(6) Hit by auto
    have IH: "of_nat (granted key evs l') \<le> allowance l' key t T + n" if "limiter_ok l' key t0 t"
      using Cons.IH[OF that] later Hit Cons.prems(6) unfolding n_def bl by simp
    show ?thesis
    proof (cases "k = key")
      case True
      have l': "l' = snd (AllowKey key t l)" using True by (simp add: l'_def)
      note allowance_hit(1)[OF Cons.prems(1) t(1,3) Cons.prems(4) l'] allowance_hit(2)[OF Cons.prems(1) t(1,3) Cons.prems(4) l', of T]
      then show ?thesis using IH True unfolding n by (simp add: Hit l'_def split: if_splits)
    next
      case False
      note o = allowance_other(1)[OF Cons.prems(1) t(1) False] allowance_other(2)[OF Cons.prems(1) t(1) False, of T]
      then have "of_nat (granted key evs l') \<le> allowance l key now T + n" using IH unfolding l'_def by linarith
      then have "of_nat (granted key evs l') \<le> allowance l key now T + (n + rlBurst l / 2 ^ 52)" using B by linarith
      then show ?thesis unfolding n using False by (simp add: Hit l'_def)
    qed
  next
    case (EvictTick t)
    have t: "now \<le> t" using later EvictTick by simp
    have "of_nat (granted key evs (evictIdle t l)) \<le> allowance (evictIdle t l) key t T + n"
      using Cons.IH[OF allowance_evict(1)[OF Cons.prems(1) t Cons.prems(4)]] later EvictTick Cons.prems(6)
      unfolding n_def by (simp add: limiter_params)
    then show ?thesis using allowance_evict(2)[OF Cons.prems(1) t Cons.prems(4), of T] B unfolding n by (simp add: EvictTick)
  qed
qed

section \<open>Waiting and the semaphore\<close>

lemma WaitRound_returns:
  assumes "ctxDone n" "k \<le> n"
  shows "\<exists>res. WaitRound clock ctxDone k l = Some res"
  using assms(2)
proof (induction "n - k" arbitrary: k l rule: less_induct)
  case less
  obtain ok l' where a: "AllowOut (clock k) l = (ok, l')" by (cases "AllowOut (clock k) l")
  show ?case
  proof (cases "ok \<or> ctxDone k")
    case True
    then show ?thesis by (subst WaitRound.simps) (auto simp: a)
  next
    case False
    then have "k \<noteq> n" using assms(1) by auto
    then have "n - Suc k < n - k" "Suc k \<le> n" using less.prems by auto
    from less.hyps[OF this, of l'] show ?thesis using False by (subst WaitRound.simps) (simp add: a)
  qed
qed

section \<open>Properties\<close>



text \<open>Two claims, then silence for twelve minutes with the eviction ticks of that time.\<close>

definition grantPair :: "nat \<Rightarrow> limit_event list" where
  "grantPair i = [Hit ''ip'' (int i * (12 * minute)), Hit ''ip'' (int i * (12 * minute))] @
     map (\<lambda>j. EvictTick (int i * (12 * minute) + j * (2 * minute))) [1, 2, 3, 4, 5, 6]"

text \<open>The bucket of a key that was drained at \<open>now\<close>, whatever the other keys do.\<close>

definition grantStart :: "time \<Rightarrow> RateLimiter \<Rightarrow> bool" where
  "grantStart now l \<longleftrightarrow> ratePerSec l = 6 / 3600 \<and> rlBurst l = 2 \<and> rlBuckets l ''ip'' = None"

lemma is_f64_2: "is_f64 2"
  using is_f64_of_int[of 2] by simp

lemma fl_2_minus_1: "fl (2 - 1) = 1" "fl (1 - 1) = 0"
  by simp_all

lemma granted_pair:
  assumes "grantStart t l"
  shows "granted ''ip'' (Hit ''ip'' t # Hit ''ip'' t # evs) l = 2 + granted ''ip'' evs (snd (AllowKey ''ip'' t (snd (AllowKey ''ip'' t l))))"
    "rlBuckets (snd (AllowKey ''ip'' t (snd (AllowKey ''ip'' t l)))) ''ip'' = Some \<lparr> bktTokens = 0, bktLastSeen = t \<rparr>"
proof -
  let ?l = "snd (AllowKey ''ip'' t l)"
  have p: "0 < ratePerSec l" "rlBurst l = 2" "rlBuckets l ''ip'' = None" using assms by (simp_all add: grantStart_def)
  have s: "seconds 0 = 0" by (simp add: seconds_def)
  have first: "fst (AllowKey ''ip'' t l)" "rlBuckets ?l ''ip'' = Some \<lparr> bktTokens = 1, bktLastSeen = t \<rparr>"
    using p s fl_id[OF is_f64_2] by (simp_all add: AllowKey_def refillBucket_def Let_def)
  have p': "0 < ratePerSec ?l" "rlBurst ?l = 2" using p by (simp_all add: limiter_params)
  have "fst (AllowKey ''ip'' t ?l)"
    using p' first(2) s by (simp add: AllowKey_def[of _ _ ?l] refillBucket_def Let_def)
  then show "granted ''ip'' (Hit ''ip'' t # Hit ''ip'' t # evs) l = 2 + granted ''ip'' evs (snd (AllowKey ''ip'' t ?l))"
    using first(1) by simp
  show "rlBuckets (snd (AllowKey ''ip'' t ?l)) ''ip'' = Some \<lparr> bktTokens = 0, bktLastSeen = t \<rparr>"
    using p' first(2) s by (simp add: AllowKey_def[of _ _ ?l] refillBucket_def Let_def)
qed

lemma ticks_evict:
  assumes "rlBuckets l ''ip'' = Some \<lparr> bktTokens = x, bktLastSeen = t \<rparr>" "ratePerSec l = 6 / 3600" "rlBurst l = 2"
  shows "granted ''ip'' (map (\<lambda>j. EvictTick (t + j * (2 * minute))) [1, 2, 3, 4, 5, 6] @ evs) l =
    granted ''ip'' evs (fold (\<lambda>j. evictIdle (t + j * (2 * minute))) [1, 2, 3, 4, 5, 6] l)"
    "grantStart t' (fold (\<lambda>j. evictIdle (t + j * (2 * minute))) [1, 2, 3, 4, 5, 6] l)"
  using assms by (simp_all add: grantStart_def evictIdle_def evict_def)

text \<open>
  Eviction defeats the startup-grant limit: with the configured six claims an hour and
  a burst of two, ten minutes of silence drop the bucket and the next two claims pass, so a
  client that claims in pairs every twelve minutes is granted every claim, ten an hour for
  as long as it likes.
\<close>

theorem eviction_defeats_grant_limit:
  "granted ''ip'' (concat (map grantPair [0..<n])) (NewRateLimiter (6 / 3600) 2) = 2 * n"
proof -
  have "granted ''ip'' (concat (map grantPair [k..<k + n])) l = 2 * n" if "grantStart (int k * (12 * minute)) l" for k l
    using that
  proof (induction n arbitrary: k l)
    case (Suc n)
    let ?t = "int k * (12 * minute)"
    let ?l2 = "snd (AllowKey ''ip'' ?t (snd (AllowKey ''ip'' ?t l)))"
    let ?l3 = "fold (\<lambda>j. evictIdle (?t + j * (2 * minute))) [1, 2, 3, 4, 5, 6] ?l2"
    let ?rest = "concat (map grantPair [Suc k..<Suc k + n])"
    have "[k..<k + Suc n] = k # [Suc k..<Suc k + n]" by (simp add: upt_rec)
    then have c: "concat (map grantPair [k..<k + Suc n]) =
        Hit ''ip'' ?t # Hit ''ip'' ?t # map (\<lambda>j. EvictTick (?t + j * (2 * minute))) [1, 2, 3, 4, 5, 6] @ ?rest"
      unfolding grantPair_def by simp
    have l2: "ratePerSec ?l2 = 6 / 3600" "rlBurst ?l2 = 2" using Suc.prems by (simp_all add: grantStart_def limiter_params)
    note ev = ticks_evict[OF granted_pair(2)[OF Suc.prems] l2]
    have "granted ''ip'' (concat (map grantPair [k..<k + Suc n])) l = 2 + granted ''ip'' ?rest ?l3"
      unfolding c by (simp only: granted_pair(1)[OF Suc.prems] ev(1))
    also have "granted ''ip'' ?rest ?l3 = 2 * n" by (rule Suc.IH[OF ev(2)])
    finally show ?case by simp
  qed simp
  from this[of 0] show ?thesis by (simp add: grantStart_def NewRateLimiter_def)
qed

text \<open>
  Waiting for a token returns: at the latest in the first round that sees the context ended.
\<close>

lemma wait_returns:
  assumes "ctxDone n"
  shows "\<exists>res. WaitToken clock ctxDone l = Some res"
  using WaitRound_returns[of ctxDone n 0] assms by (auto simp: WaitToken_def)

end
