(* ===== verification/HttpGuards.thy ===== *)
theory HttpGuards
  imports GoStd
begin

unbundle bit_operations_syntax

text \<open>
  The guards around HTTP traffic: retries with backoff (\<open>internal/httpx/retry.go\<close>), the
  client address behind trusted proxies (\<open>internal/httpmw/clientip.go\<close>) and the check of
  addresses a node may be sent to (\<open>internal/httpmw/ssrf.go\<close>). Parsing the text of
  addresses and URLs and resolving names is left to functions that are arguments; the
  addresses themselves are the byte slices of package \<open>net\<close>.
\<close>

section \<open>Retries\<close>

record RetryConfig =
  MaxAttempts :: int
  BaseDelay :: duration
  MaxDelay :: duration

definition DefaultRetry :: RetryConfig where
  "DefaultRetry = \<lparr> MaxAttempts = 4, BaseDelay = 200 * 1000000, MaxDelay = 5 * second \<rparr>"

text \<open>How a callback of \<open>Do\<close> ends; \<open>Transient\<close> marks the errors worth retrying.\<close>

datatype 'e call_outcome = CallOk | CallPermanent 'e | CallTransient 'e

datatype 'e retry_error = CallFailed 'e | RetryCanceled

fun backoffLoop :: "RetryConfig \<Rightarrow> nat \<Rightarrow> duration \<Rightarrow> duration" where
  "backoffLoop cfg 0 d = d"
| "backoffLoop cfg (Suc n) d =
     (let d = wrap64 (d * 2) in if d \<ge> MaxDelay cfg then MaxDelay cfg else backoffLoop cfg n d)"

text \<open>\<open>draw d\<close> is the number \<open>Int63n\<close> returns for the bound \<open>d\<close>.\<close>

definition backoffFor :: "RetryConfig \<Rightarrow> nat \<Rightarrow> (int \<Rightarrow> int) \<Rightarrow> duration" where
  "backoffFor cfg attempt draw =
     (let d = backoffLoop cfg (attempt - 1) (BaseDelay cfg) in if d \<le> 0 then 0 else draw d)"

text \<open>
  The loop of \<open>Do\<close> from an attempt on: \<open>call k\<close> is the outcome of attempt \<open>k\<close> and
  \<open>canceled k\<close> tells whether the context ended while waiting after it. The second
  component counts the calls made.
\<close>

function retryFrom :: "nat \<Rightarrow> (nat \<Rightarrow> 'e call_outcome) \<Rightarrow> (nat \<Rightarrow> bool) \<Rightarrow> nat \<Rightarrow> 'e retry_error option \<times> nat" where
  "retryFrom m call canceled k =
     (case call k of
        CallOk \<Rightarrow> (None, k)
      | CallPermanent e \<Rightarrow> (Some (CallFailed e), k)
      | CallTransient e \<Rightarrow>
          if k \<ge> m then (Some (CallFailed e), k)
          else if canceled k then (Some RetryCanceled, k)
          else retryFrom m call canceled (Suc k))"
  by pat_completeness auto
termination by (relation "measure (\<lambda>(m, _, _, k). m - k)") auto

declare retryFrom.simps [simp del]

definition retryDo :: "RetryConfig \<Rightarrow> (nat \<Rightarrow> 'e call_outcome) \<Rightarrow> (nat \<Rightarrow> bool) \<Rightarrow> 'e retry_error option \<times> nat" where
  "retryDo cfg call canceled = retryFrom (nat (if MaxAttempts cfg < 1 then 1 else MaxAttempts cfg)) call canceled 1"

lemma retryFrom_spec:
  assumes "k \<le> m" "retryFrom m call canceled k = (res, n)"
  shows "k \<le> n \<and> n \<le> m \<and> (\<forall>i. k \<le> i \<and> i < n \<longrightarrow> (\<exists>e. call i = CallTransient e) \<and> \<not> canceled i) \<and>
    res = (case call n of CallOk \<Rightarrow> None | CallPermanent e \<Rightarrow> Some (CallFailed e)
           | CallTransient e \<Rightarrow> Some (if n = m then CallFailed e else RetryCanceled)) \<and>
    (\<forall>e. call n = CallTransient e \<longrightarrow> n = m \<or> canceled n)"
  using assms
proof (induction m call canceled k rule: retryFrom.induct)
  case (1 m call canceled k)
  show ?case
  proof (cases "call k")
    case (CallTransient e)
    show ?thesis
    proof (cases "k \<ge> m \<or> canceled k")
      case True
      then show ?thesis using 1(2,3) CallTransient by (subst (asm) retryFrom.simps) (auto split: if_splits)
    next
      case False
      then have "retryFrom m call canceled (Suc k) = (res, n)"
        using 1(3) CallTransient by (subst (asm) retryFrom.simps) simp
      with 1(1)[OF CallTransient] False have IH: "Suc k \<le> n \<and> n \<le> m \<and>
          (\<forall>i. Suc k \<le> i \<and> i < n \<longrightarrow> (\<exists>e. call i = CallTransient e) \<and> \<not> canceled i) \<and>
          res = (case call n of CallOk \<Rightarrow> None | CallPermanent e \<Rightarrow> Some (CallFailed e)
            | CallTransient e \<Rightarrow> Some (if n = m then CallFailed e else RetryCanceled)) \<and>
          (\<forall>e. call n = CallTransient e \<longrightarrow> n = m \<or> canceled n)" by simp
      have "(\<exists>e. call i = CallTransient e) \<and> \<not> canceled i" if "k \<le> i" "i < n" for i
        using IH False CallTransient that by (cases "i = k") auto
      then show ?thesis using IH by simp
    qed
  qed (use 1(2,3) in \<open>simp_all add: retryFrom.simps[of m call canceled k]\<close>, auto)
qed

lemma backoffLoop_le:
  assumes "0 \<le> d" "d \<le> MaxDelay cfg" "MaxDelay cfg < 2 ^ 62"
  shows "0 \<le> backoffLoop cfg n d \<and> backoffLoop cfg n d \<le> MaxDelay cfg"
  using assms
proof (induction n arbitrary: d)
  case (Suc n)
  have "wrap64 (d * 2) = d * 2" using Suc.prems by (intro wrap64_id) auto
  then show ?case using Suc.IH[of "d * 2"] Suc.prems by (simp add: Let_def)
qed simp

section \<open>The client's address\<close>

text \<open>\<open>IP.To4\<close>: the four bytes of an address that is one of version 4 in either form.\<close>

definition to4 :: "bytes \<Rightarrow> bytes option" where
  "to4 ip = (if length ip = 4 then Some ip
     else if length ip = 16 \<and> take 10 ip = replicate 10 0 \<and> take 2 (drop 10 ip) = [255, 255] then Some (drop 12 ip)
     else None)"

record IPNet =
  netIP :: bytes
  netMask :: bytes

definition networkNumberAndMask :: "IPNet \<Rightarrow> (bytes \<times> bytes) option" where
  "networkNumberAndMask n =
     (case (case to4 (netIP n) of Some x \<Rightarrow> Some x | None \<Rightarrow> if length (netIP n) = 16 then Some (netIP n) else None) of
        None \<Rightarrow> None
      | Some ip \<Rightarrow> if length (netMask n) = 4 then (if length ip \<noteq> 4 then None else Some (ip, netMask n))
          else if length (netMask n) = 16 then Some (ip, if length ip = 4 then drop 12 (netMask n) else netMask n)
          else None)"

definition netContains :: "IPNet \<Rightarrow> bytes \<Rightarrow> bool" where
  "netContains n ip = (case networkNumberAndMask n of
       None \<Rightarrow> False
     | Some (nn, m) \<Rightarrow> let ip = (case to4 ip of Some x \<Rightarrow> x | None \<Rightarrow> ip)
         in length ip = length nn \<and> list_all2 (=) (map2 (AND) nn m) (map2 (AND) ip m))"

definition ipInAny :: "bytes \<Rightarrow> IPNet list \<Rightarrow> bool" where
  "ipInAny ip nets \<longleftrightarrow> list_ex (\<lambda>n. netContains n ip) nets"

text \<open>The text functions of package \<open>net\<close>; None is their error or nil.\<close>

record netlib =
  splitHostPort :: "string \<Rightarrow> string option"
  parseIP :: "string \<Rightarrow> bytes option"
  parseCIDR :: "string \<Rightarrow> IPNet option"

fun ParseTrustedProxies :: "netlib \<Rightarrow> string list \<Rightarrow> string + IPNet list" where
  "ParseTrustedProxies L [] = Inr []"
| "ParseTrustedProxies L (s # specs) =
     (let s = trimSpace s
      in if s = [] then ParseTrustedProxies L specs
         else let s = (if containsStr s ''/'' then s else case parseIP L s of None \<Rightarrow> s
                       | Some ip \<Rightarrow> s @ ''/'' @ (if to4 ip = None then ''128'' else ''32''))
              in case parseCIDR L s of
                   None \<Rightarrow> Inl s
                 | Some ipnet \<Rightarrow> map_sum id (Cons ipnet) (ParseTrustedProxies L specs))"

definition untrustedHop :: "netlib \<Rightarrow> IPNet list \<Rightarrow> string \<Rightarrow> string option" where
  "untrustedHop L trustedProxies part =
     (let ipStr = trimSpace part
      in case parseIP L ipStr of None \<Rightarrow> None | Some ip \<Rightarrow> if ipInAny ip trustedProxies then None else Some ipStr)"

fun firstHop :: "netlib \<Rightarrow> IPNet list \<Rightarrow> string list \<Rightarrow> string option" where
  "firstHop L trustedProxies [] = None"
| "firstHop L trustedProxies (p # ps) =
     (case untrustedHop L trustedProxies p of Some ipStr \<Rightarrow> Some ipStr | None \<Rightarrow> firstHop L trustedProxies ps)"

definition ClientIP :: "netlib \<Rightarrow> string \<Rightarrow> string \<Rightarrow> IPNet list \<Rightarrow> string" where
  "ClientIP L remoteAddr forwardedFor trustedProxies =
     (let host = (case splitHostPort L remoteAddr of None \<Rightarrow> remoteAddr | Some h \<Rightarrow> h)
      in if trustedProxies = [] then host
         else case parseIP L host of
             None \<Rightarrow> host
           | Some peer \<Rightarrow>
               if \<not> ipInAny peer trustedProxies then host
               else case firstHop L trustedProxies (rev (splitAt (CHR '','') forwardedFor)) of
                   Some ipStr \<Rightarrow> ipStr
                 | None \<Rightarrow> host)"

lemma splitAt_not_Nil [simp]: "splitAt sep s \<noteq> []"
  by (induction s) (auto split: list.splits)

lemma splitAt_append: "splitAt sep (a @ sep # b) = splitAt sep a @ splitAt sep b"
  by (induction a) (auto split: list.splits)

lemma splitAt_single: "sep \<notin> set s \<Longrightarrow> splitAt sep s = [s]"
  by (induction s) auto

lemma firstHop_skip:
  "\<forall>p \<in> set ps. untrustedHop L nets p = None \<Longrightarrow> firstHop L nets (ps @ qs) = firstHop L nets qs"
  by (induction ps) auto

section \<open>Addresses a payload may be fetched from\<close>

datatype fetch_error = FetchParse | FetchScheme string | FetchNoHost | FetchResolve | FetchNoAddresses
  | FetchLoopback | FetchLinkLocal | FetchUnspecified

definition isLoopback :: "bytes \<Rightarrow> bool" where
  "isLoopback ip = (case to4 ip of Some x \<Rightarrow> x ! 0 = 127 | None \<Rightarrow> ip = replicate 15 0 @ [1])"

definition isLinkLocalUnicast :: "bytes \<Rightarrow> bool" where
  "isLinkLocalUnicast ip = (case to4 ip of Some x \<Rightarrow> x ! 0 = 169 \<and> x ! 1 = 254
     | None \<Rightarrow> length ip = 16 \<and> ip ! 0 = 254 \<and> ip ! 1 AND 192 = 128)"

definition isLinkLocalMulticast :: "bytes \<Rightarrow> bool" where
  "isLinkLocalMulticast ip = (case to4 ip of Some x \<Rightarrow> x ! 0 = 224 \<and> x ! 1 = 0 \<and> x ! 2 = 0
     | None \<Rightarrow> length ip = 16 \<and> ip ! 0 = 255 \<and> ip ! 1 AND 15 = 2)"

definition isUnspecified :: "bytes \<Rightarrow> bool" where
  "isUnspecified ip \<longleftrightarrow> to4 ip = Some (replicate 4 0) \<or> ip = replicate 16 0"

definition checkIP :: "bytes \<Rightarrow> fetch_error option" where
  "checkIP ip =
     (if isLoopback ip then Some FetchLoopback
      else if isLinkLocalUnicast ip \<or> isLinkLocalMulticast ip then Some FetchLinkLocal
      else if isUnspecified ip then Some FetchUnspecified
      else None)"

fun firstRefusal :: "bytes list \<Rightarrow> fetch_error option" where
  "firstRefusal [] = None"
| "firstRefusal (ip # ips) = (case checkIP ip of Some e \<Rightarrow> Some e | None \<Rightarrow> firstRefusal ips)"

text \<open>\<open>parseURL\<close> gives scheme and host name, \<open>lookupIP\<close> the addresses of a name.\<close>

definition ValidateFetchURL :: "netlib \<Rightarrow> (string \<Rightarrow> (string \<times> string) option) \<Rightarrow> (string \<Rightarrow> bytes list option) \<Rightarrow>
    string \<Rightarrow> fetch_error option" where
  "ValidateFetchURL L parseURL lookupIP raw = (case parseURL (trimSpace raw) of
       None \<Rightarrow> Some FetchParse
     | Some (scheme, host) \<Rightarrow>
         if scheme \<noteq> ''http'' \<and> scheme \<noteq> ''https'' then Some (FetchScheme scheme)
         else if host = [] then Some FetchNoHost
         else case parseIP L host of
             Some ip \<Rightarrow> checkIP ip
           | None \<Rightarrow> (case lookupIP host of
               None \<Rightarrow> Some FetchResolve
             | Some ips \<Rightarrow> if ips = [] then Some FetchNoAddresses else firstRefusal ips))"

text \<open>The dialer's \<open>Control\<close> hook looks at the address that is connected to.\<close>

definition dialControl :: "netlib \<Rightarrow> (bytes \<Rightarrow> fetch_error option) \<Rightarrow> string \<Rightarrow> fetch_error option" where
  "dialControl L ipCheck address = (case splitHostPort L address of
       None \<Rightarrow> Some FetchParse
     | Some host \<Rightarrow> (case parseIP L host of None \<Rightarrow> Some FetchParse | Some ip \<Rightarrow> ipCheck ip))"

lemma firstRefusal_None: "firstRefusal ips = None \<longleftrightarrow> (\<forall>ip \<in> set ips. checkIP ip = None)"
  by (induction ips) (auto split: option.splits)

lemma checkIP_None: "checkIP ip = None \<longleftrightarrow>
    \<not> isLoopback ip \<and> \<not> isLinkLocalUnicast ip \<and> \<not> isLinkLocalMulticast ip \<and> \<not> isUnspecified ip"
  by (simp add: checkIP_def)

text \<open>Both forms of an address of version 4 are judged alike.\<close>

lemma to4_mapped: "length v4 = 4 \<Longrightarrow> to4 (replicate 10 0 @ [255, 255] @ v4) = Some v4" "length v4 = 4 \<Longrightarrow> to4 v4 = Some v4"
  by (simp_all add: to4_def)

section \<open>Properties\<close>

text \<open>
  C25. Retrying is bounded and faithful: the callback runs at least once and at most
  \<open>MaxAttempts\<close> times, a permanent error or a success is final, only transient errors are
  retried, the result is that of the last call (or the cancellation that cut the waiting
  short), and with a sane configuration no wait reaches \<open>MaxDelay\<close>.
\<close>

theorem retry_bounded:
  assumes "retryDo cfg call canceled = (res, n)"
  shows "1 \<le> n \<and> int n \<le> max 1 (MaxAttempts cfg) \<and>
    (\<forall>i. 1 \<le> i \<and> i < n \<longrightarrow> (\<exists>e. call i = CallTransient e) \<and> \<not> canceled i) \<and>
    res = (case call n of CallOk \<Rightarrow> None | CallPermanent e \<Rightarrow> Some (CallFailed e)
           | CallTransient e \<Rightarrow> Some (if int n = max 1 (MaxAttempts cfg) then CallFailed e else RetryCanceled)) \<and>
    (0 < BaseDelay cfg \<and> BaseDelay cfg \<le> MaxDelay cfg \<and> MaxDelay cfg < 2 ^ 62 \<and>
       (\<forall>d > 0. 0 \<le> draw d \<and> draw d < d) \<longrightarrow> 0 \<le> backoffFor cfg k draw \<and> backoffFor cfg k draw < MaxDelay cfg)"
proof -
  define m where "m = nat (if MaxAttempts cfg < 1 then 1 else MaxAttempts cfg)"
  have m: "1 \<le> m" "int m = max 1 (MaxAttempts cfg)" by (auto simp: m_def)
  have "retryFrom m call canceled 1 = (res, n)" using assms by (simp add: retryDo_def m_def)
  from retryFrom_spec[OF m(1) this] have spec: "1 \<le> n" "n \<le> m"
    "\<forall>i. 1 \<le> i \<and> i < n \<longrightarrow> (\<exists>e. call i = CallTransient e) \<and> \<not> canceled i"
    "res = (case call n of CallOk \<Rightarrow> None | CallPermanent e \<Rightarrow> Some (CallFailed e)
       | CallTransient e \<Rightarrow> Some (if n = m then CallFailed e else RetryCanceled))" by simp_all
  have "0 \<le> backoffFor cfg k draw \<and> backoffFor cfg k draw < MaxDelay cfg"
    if "0 < BaseDelay cfg" "BaseDelay cfg \<le> MaxDelay cfg" "MaxDelay cfg < 2 ^ 62" "\<forall>d > 0. 0 \<le> draw d \<and> draw d < d"
  proof -
    have b: "backoffLoop cfg (k - 1) (BaseDelay cfg) \<le> MaxDelay cfg" using backoffLoop_le[of "BaseDelay cfg" cfg "k - 1"] that by simp
    show ?thesis
    proof (cases "backoffLoop cfg (k - 1) (BaseDelay cfg) \<le> 0")
      case False
      then have "0 \<le> draw (backoffLoop cfg (k - 1) (BaseDelay cfg)) \<and>
          draw (backoffLoop cfg (k - 1) (BaseDelay cfg)) < backoffLoop cfg (k - 1) (BaseDelay cfg)" using that(4) by simp
      then show ?thesis using False b by (simp add: backoffFor_def Let_def)
    qed (use that in \<open>simp add: backoffFor_def\<close>)
  qed
  moreover have e: "n = m \<longleftrightarrow> int n = max 1 (MaxAttempts cfg)" "int n \<le> max 1 (MaxAttempts cfg)"
    using spec(2) by (simp_all flip: m(2))
  ultimately show ?thesis using spec(1,3) spec(4)[unfolded e(1)] by blast
qed

theorem retry_bounded_witness:
  "fst (retryDo DefaultRetry (\<lambda>k. if k < 3 then CallTransient ''503'' else CallOk) (\<lambda>k. False)) = None \<and>
   0 \<le> backoffFor DefaultRetry 4 (\<lambda>d. d - 1) \<and> backoffFor DefaultRetry 4 (\<lambda>d. d - 1) < 5 * second"
proof -
  have r: "retryDo DefaultRetry (\<lambda>k. if k < 3 then CallTransient ''503'' else CallOk) (\<lambda>k. False) = (None, 3)"
    by (simp add: retryDo_def DefaultRetry_def retryFrom.simps)
  from retry_bounded[OF r, of "\<lambda>d. d - 1" 4]
  have "0 \<le> backoffFor DefaultRetry 4 (\<lambda>d. d - 1) \<and> backoffFor DefaultRetry 4 (\<lambda>d. d - 1) < 5 * second"
    by (simp add: DefaultRetry_def)
  then show ?thesis by (simp add: r)
qed

text \<open>
  C26. A client cannot choose the address it is limited by: unless the connection comes from
  a trusted proxy the forwarding header is ignored, and behind trusted proxies the address
  is the last one they did not add themselves, whatever the client wrote before it.
\<close>

theorem client_ip_unspoofable:
  assumes "peerHost = (case splitHostPort L remoteAddr of None \<Rightarrow> remoteAddr | Some h \<Rightarrow> h)"
  shows "(nets = [] \<or> (\<forall>ip. parseIP L peerHost = Some ip \<longrightarrow> \<not> ipInAny ip nets) \<longrightarrow> ClientIP L remoteAddr xff nets = peerHost) \<and>
    (\<forall>peer ip client hops.
       parseIP L peerHost = Some peer \<and> ipInAny peer nets \<and> nets \<noteq> [] \<and>
       CHR '','' \<notin> set client \<and> parseIP L (trimSpace client) = Some ip \<and> \<not> ipInAny ip nets \<and>
       (\<forall>h \<in> set hops. CHR '','' \<notin> set h \<and> untrustedHop L nets h = None) \<longrightarrow>
       ClientIP L remoteAddr (concat (map (\<lambda>h. h @ '','') forged) @ client @ concat (map (\<lambda>h. '','' @ h) hops)) nets = trimSpace client)"
proof -
  have host: "(case splitHostPort L remoteAddr of None \<Rightarrow> remoteAddr | Some h \<Rightarrow> h) = peerHost"
    using assms by simp
  have "splitAt CHR '','' (client @ concat (map (\<lambda>h. '','' @ h) hops)) = client # hops"
    if "CHR '','' \<notin> set client" "\<forall>h \<in> set hops. CHR '','' \<notin> set h" for client hops
    using that by (induction hops arbitrary: client) (simp_all add: splitAt_single splitAt_append)
  moreover have "\<exists>ws. splitAt CHR '','' (concat (map (\<lambda>h. h @ '','') forged) @ s) = ws @ splitAt CHR '','' s" for s
    by (induction forged) (auto simp: splitAt_append)
  ultimately have split: "\<exists>ws. splitAt CHR '','' (concat (map (\<lambda>h. h @ '','') forged) @ client @ concat (map (\<lambda>h. '','' @ h) hops))
      = ws @ client # hops" if "CHR '','' \<notin> set client" "\<forall>h \<in> set hops. CHR '','' \<notin> set h" for client hops
    using that by metis
  show ?thesis
  proof (intro conjI allI impI; (elim conjE)?)
    assume "nets = [] \<or> (\<forall>ip. parseIP L peerHost = Some ip \<longrightarrow> \<not> ipInAny ip nets)"
    then show "ClientIP L remoteAddr xff nets = peerHost" by (auto simp: ClientIP_def host split: option.splits)
  next
    fix peer ip client hops
    assume a: "parseIP L peerHost = Some peer" "ipInAny peer nets" "nets \<noteq> []" "CHR '','' \<notin> set client"
      "parseIP L (trimSpace client) = Some ip" "\<not> ipInAny ip nets"
      "\<forall>h \<in> set hops. CHR '','' \<notin> set h \<and> untrustedHop L nets h = None"
    obtain ws where ws: "splitAt CHR '','' (concat (map (\<lambda>h. h @ '','') forged) @ client @ concat (map (\<lambda>h. '','' @ h) hops))
        = ws @ client # hops" using split[of client hops] a by auto
    have "untrustedHop L nets client = Some (trimSpace client)" using a by (simp add: untrustedHop_def)
    then have "firstHop L nets (rev (ws @ client # hops)) = Some (trimSpace client)"
      using firstHop_skip[of "rev hops" L nets "client # rev ws"] a(7) by simp
    then show "ClientIP L remoteAddr (concat (map (\<lambda>h. h @ '','') forged) @ client @ concat (map (\<lambda>h. '','' @ h) hops)) nets
        = trimSpace client"
      using a(1-3) by (simp add: ClientIP_def host ws del: append.simps)
  qed
qed

text \<open>A toy notation: the byte 1 for the proxy, 2 for a client, written as one letter.\<close>

definition toyNet :: netlib where
  "toyNet = \<lparr> splitHostPort = (\<lambda>s. Some s),
     parseIP = (\<lambda>s. if s = ''P'' then Some [10, 0, 0, 1] else if s = ''C'' then Some [9, 9, 9, 9] else None),
     parseCIDR = (\<lambda>s. None) \<rparr>"

theorem client_ip_unspoofable_witness:
  "ClientIP toyNet ''C'' ''P'' [\<lparr> netIP = [10, 0, 0, 0], netMask = [255, 0, 0, 0] \<rparr>] = ''C'' \<and>
   ClientIP toyNet ''P'' ''X, C, P'' [\<lparr> netIP = [10, 0, 0, 0], netMask = [255, 0, 0, 0] \<rparr>] = ''C''"
proof -
  let ?nets = "[\<lparr> netIP = [10, 0, 0, 0], netMask = [255, 0, 0, 0] \<rparr>]"
  have p: "ipInAny [10, 0, 0, 1] ?nets" "\<not> ipInAny [9, 9, 9, 9] ?nets" by code_simp+
  have t: "trimSpace '' C'' = ''C''" "trimSpace '' P'' = ''P''" by code_simp+
  have n: "parseIP toyNet ''P'' = Some [10, 0, 0, 1]" "parseIP toyNet ''C'' = Some [9, 9, 9, 9]"
    "splitHostPort toyNet x = Some x" for x by (simp_all add: toyNet_def)
  have u: "untrustedHop toyNet ?nets '' P'' = None" using p n t by (simp add: untrustedHop_def)
  have h: "x = (case splitHostPort toyNet x of None \<Rightarrow> x | Some h \<Rightarrow> h)" for x by (simp add: n)
  have "ClientIP toyNet ''C'' ''P'' ?nets = ''C''"
    using client_ip_unspoofable[OF h, of ?nets "''C''" "''P''" "[]"] p n by simp
  moreover note client_ip_unspoofable[OF h, of ?nets "''P''" "[]" "[''X'']", THEN conjunct2, rule_format,
    of "[10, 0, 0, 1]" "'' C''" "[9, 9, 9, 9]" "['' P'']"]
  then have "ClientIP toyNet ''P'' ''X, C, P'' ?nets = trimSpace '' C''" using p n t u by simp
  ultimately show ?thesis by (simp add: t)
qed

text \<open>No address that the guard lets through is loopback, link-local or unspecified.\<close>

lemma fetch_guard:
  assumes "ValidateFetchURL L parseURL lookupIP raw = None" "parseURL (trimSpace raw) = Some (scheme, host)"
  shows "scheme \<in> {''http'', ''https''} \<and>
    (case parseIP L host of Some ip \<Rightarrow> checkIP ip = None
     | None \<Rightarrow> \<exists>ips. lookupIP host = Some ips \<and> ips \<noteq> [] \<and> (\<forall>ip \<in> set ips. checkIP ip = None))"
  using assms by (auto simp: ValidateFetchURL_def firstRefusal_None split: option.splits if_splits)

end
