(* ===== verification/Access.thy ===== *)
theory Access
  imports AdminAuth ApiKeys RateLimit HttpGuards
begin

text \<open>
  Who may do what: the authorisation checks and the middleware of \<open>cmd/coordinator/main.go\<close>.
  A handler chain is a function that either hands the request (possibly with a changed
  header) to the next handler or answers with a status; the sessions of the administrator
  and the rate limiters are its state, the clock its argument.
\<close>

section \<open>Requests\<close>

text \<open>\<open>Header\<close> is \<open>Header.Get\<close> on canonical names: the empty string for a missing header.\<close>

record request =
  Method :: string
  URLPath :: string
  Header :: "string \<Rightarrow> string"
  RemoteAddr :: string

definition bearer :: "request \<Rightarrow> string" where
  "bearer r = trimPrefix (Header r ''Authorization'') ''Bearer ''"

datatype 'r gate = Pass 'r | Refuse nat

section \<open>Authorisation\<close>

definition authorizeUserRead :: "crypto \<Rightarrow> request \<Rightarrow> user_id \<Rightarrow> bool \<Rightarrow> string \<Rightarrow> apiKeyStore \<Rightarrow> bool" where
  "authorizeUserRead C r uid protect adminKey keys =
     (if \<not> protect then True
      else let auth = bearer r
           in if auth = [] then False
              else if adminKey \<noteq> [] \<and> auth = adminKey then True
              else if hasPrefix auth ''oim_'' then (case lookupKey C auth keys of Some u \<Rightarrow> u = uid | None \<Rightarrow> False)
              else False)"

text \<open>A nil authenticator is None.\<close>

definition adminAuthorized :: "request \<Rightarrow> string \<Rightarrow> time \<Rightarrow> Authenticator option \<Rightarrow> bool \<times> Authenticator option" where
  "adminAuthorized r adminKey now adminAuth =
     (let auth = bearer r
      in if auth = [] then (False, adminAuth)
         else if adminKey \<noteq> [] \<and> auth = adminKey then (True, adminAuth)
         else case adminAuth of
             None \<Rightarrow> (False, adminAuth)
           | Some a \<Rightarrow> if hasPrefix auth SessionTokenPrefix then map_prod id Some (ValidSession auth now a)
                       else (False, adminAuth))"

definition callerControlsAccount :: "crypto \<Rightarrow> request \<Rightarrow> user_id \<Rightarrow> string \<Rightarrow> time \<Rightarrow> apiKeyStore \<Rightarrow>
    Authenticator option \<Rightarrow> bool \<times> Authenticator option" where
  "callerControlsAccount C r uid adminKey now keys adminAuth =
     (let (ok, adminAuth) = adminAuthorized r adminKey now adminAuth
      in (ok \<or> authorizeUserRead C r uid True adminKey keys, adminAuth))"

definition federationAuthorized :: "request \<Rightarrow> string \<Rightarrow> bool" where
  "federationAuthorized r federationKey = (if federationKey = [] then False else bearer r = federationKey)"

definition isSelfAuthenticatingWrite :: "string \<Rightarrow> string \<Rightarrow> bool" where
  "isSelfAuthenticatingWrite httpMethod path =
     (if httpMethod \<noteq> ''POST'' then False
      else if path \<in> {''/nodes/register'', ''/settlement/records'', ''/account/challenge'', ''/account/auth'',
          ''/admin/challenge'', ''/admin/authenticate'', ''/coordination/announce'', ''/coordination/withdraw'',
          ''/jobs/claim'', ''/jobs/result''} then True
      else if hasPrefix path ''/nodes/'' \<and> (hasSuffix path ''/refresh'' \<or> hasSuffix path ''/attest-enclave'' \<or>
          hasSuffix path ''/benchmark-result'' \<or> hasSuffix path ''/job-outcome'') then True
      else if hasPrefix path ''/users/'' \<and> (hasSuffix path ''/startup-grant'' \<or> hasSuffix path ''/api-key'') then True
      else if hasPrefix path ''/account/'' \<and> (hasSuffix path ''/link-device'' \<or> hasSuffix path ''/unlink-device'') then True
      else False)"

text \<open>The state is the authenticator and the per-account limiter, None where the code has nil.\<close>

definition authMiddleware :: "crypto \<Rightarrow> string \<Rightarrow> apiKeyStore \<Rightarrow> time \<Rightarrow> request \<Rightarrow>
    Authenticator option \<times> RateLimiter option \<Rightarrow> request gate \<times> (Authenticator option \<times> RateLimiter option)" where
  "authMiddleware C adminKey keys now r = (\<lambda>(adminAuth, userLimiter).
     if Method r = ''GET'' \<or> Method r = ''OPTIONS'' \<or> isSelfAuthenticatingWrite (Method r) (URLPath r)
     then (Pass r, adminAuth, userLimiter)
     else if bearer r = [] then (Refuse 401, adminAuth, userLimiter)
     else let (admin, adminAuth) = adminAuthorized r adminKey now adminAuth
          in if admin then (Pass r, adminAuth, userLimiter)
             else if hasPrefix (bearer r) ''oim_''
               then (case lookupKey C (bearer r) keys of
                   None \<Rightarrow> (Refuse 401, adminAuth, userLimiter)
                 | Some uid \<Rightarrow>
                     let (allowed, userLimiter) = (case userLimiter of
                           None \<Rightarrow> (True, None)
                         | Some l \<Rightarrow> map_prod id Some (AllowKey (''user:'' @ uid) now l))
                     in if \<not> allowed then (Refuse 429, adminAuth, userLimiter)
                        else (Pass (r\<lparr> Header := (Header r)(''X-OIM-User-ID'' := uid) \<rparr>), adminAuth, userLimiter))
             else (Refuse 401, adminAuth, userLimiter))"

section \<open>Outer middleware\<close>

definition rateLimitMiddleware :: "netlib \<Rightarrow> IPNet list \<Rightarrow> time \<Rightarrow> request \<Rightarrow> RateLimiter \<Rightarrow> request gate \<times> RateLimiter" where
  "rateLimitMiddleware L trustedProxies now r limiter =
     (if Method r = ''OPTIONS'' \<or> URLPath r = ''/nodes/stream'' then (Pass r, limiter)
      else let (ok, limiter) = AllowKey (ClientIP L (RemoteAddr r) (Header r ''X-Forwarded-For'') trustedProxies) now limiter
           in if ok then (Pass r, limiter) else (Refuse 429, limiter))"

text \<open>One entry of the allowlist, already in lower case and trimmed.\<close>

definition entryAllows :: "string \<Rightarrow> string \<Rightarrow> bool" where
  "entryAllows entry origin =
     (if entry = [] then False
      else case indexOf entry ''*.'' of
          Some i \<Rightarrow>
            let schemePrefix = take i entry; domainSuffix = drop (i + 2) entry
            in if \<not> hasPrefix origin schemePrefix then False
               else let host = drop (length schemePrefix) origin
                    in hasSuffix host (''.'' @ domainSuffix) \<and> length host > length domainSuffix + 1
        | None \<Rightarrow> origin = entry)"

definition originAllowed :: "string \<Rightarrow> string list \<Rightarrow> bool" where
  "originAllowed origin allowlist =
     list_ex (\<lambda>entry. entryAllows (toLower (trimSpace entry)) (toLower (trimSpace origin))) allowlist"

text \<open>
  The headers the answer gets, and whether the request goes on to the next handler (a
  preflight is answered with 204).
\<close>

definition corsMiddleware :: "string list \<Rightarrow> request \<Rightarrow> (string \<times> string) list \<times> request gate" where
  "corsMiddleware allowedOrigins r =
     (let origin = Header r ''Origin'';
          allow = (if allowedOrigins = [] then [(''Access-Control-Allow-Origin'', ''*'')]
                   else if origin \<noteq> [] \<and> originAllowed origin allowedOrigins
                   then [(''Access-Control-Allow-Origin'', origin), (''Vary'', ''Origin'')]
                   else [])
      in (allow @ [(''Access-Control-Allow-Methods'', ''GET, POST, DELETE, OPTIONS''),
                   (''Access-Control-Allow-Headers'', ''Content-Type, Authorization, X-OIM-User-ID'')],
          if Method r = ''OPTIONS'' then Refuse 204 else Pass r))"

text \<open>The chain of the server behind the header and size limits: rate limit, then identity.\<close>

definition frontDoor :: "netlib \<Rightarrow> IPNet list \<Rightarrow> crypto \<Rightarrow> string \<Rightarrow> apiKeyStore \<Rightarrow> time \<Rightarrow> request \<Rightarrow>
    RateLimiter \<times> Authenticator option \<times> RateLimiter option \<Rightarrow>
    request gate \<times> RateLimiter \<times> Authenticator option \<times> RateLimiter option" where
  "frontDoor L trustedProxies C adminKey keys now r = (\<lambda>(limiter, st).
     case rateLimitMiddleware L trustedProxies now r limiter of
       (Refuse code, limiter) \<Rightarrow> (Refuse code, limiter, st)
     | (Pass r, limiter) \<Rightarrow>
         if adminKey = [] \<and> (case fst st of None \<Rightarrow> True | Some a \<Rightarrow> \<not> Configured a) then (Pass r, limiter, st)
         else let (g, st) = authMiddleware C adminKey keys now r st in (g, limiter, st))"

section \<open>Lemmas\<close>

lemma map_prod_id_iff: "map_prod id f p = (a, b) \<longleftrightarrow> fst p = a \<and> b = f (snd p)"
  by (cases p) auto

lemma adminAuthorized_True:
  assumes "adminAuthorized r adminKey now adminAuth = (True, adminAuth')"
  shows "bearer r \<noteq> [] \<and> (adminKey \<noteq> [] \<and> bearer r = adminKey \<or>
    (\<exists>a. adminAuth = Some a \<and> fst (ValidSession (bearer r) now a)))"
  using assms by (auto simp: adminAuthorized_def Let_def map_prod_id_iff split: if_splits option.splits)

lemma oim_not_session: "hasPrefix s ''oim_'' \<Longrightarrow> \<not> hasPrefix s SessionTokenPrefix"
  by (auto simp: hasPrefix_iff SessionTokenPrefix_def)

lemma authorizeUserRead_True:
  "authorizeUserRead C r uid True adminKey keys \<Longrightarrow>
     bearer r \<noteq> [] \<and> (adminKey \<noteq> [] \<and> bearer r = adminKey \<or> lookupKey C (bearer r) keys = Some uid)"
  by (auto simp: authorizeUserRead_def Let_def split: if_splits option.splits)

text \<open>The middleware on a gated request, by the kind of credential.\<close>

lemma authMiddleware_Pass:
  assumes "authMiddleware C adminKey keys now r (adminAuth, quota) = (Pass r', st')"
    and "Method r \<noteq> ''GET''" "Method r \<noteq> ''OPTIONS''" "\<not> isSelfAuthenticatingWrite (Method r) (URLPath r)"
  shows "(r' = r \<and> fst (adminAuthorized r adminKey now adminAuth)) \<or>
    (\<exists>uid. lookupKey C (bearer r) keys = Some uid \<and> r' = r\<lparr> Header := (Header r)(''X-OIM-User-ID'' := uid) \<rparr> \<and>
      (\<forall>l. quota = Some l \<longrightarrow> fst (AllowKey (''user:'' @ uid) now l)))"
proof -
  obtain admin auth' where a: "adminAuthorized r adminKey now adminAuth = (admin, auth')"
    by (cases "adminAuthorized r adminKey now adminAuth")
  show ?thesis
  proof (cases admin)
    case True
    then show ?thesis using assms a by (auto simp: authMiddleware_def split: if_splits)
  next
    case False
    then obtain uid where u: "lookupKey C (bearer r) keys = Some uid"
      using assms a by (auto simp: authMiddleware_def split: if_splits option.splits)
    obtain ok quota' where l: "(case quota of None \<Rightarrow> (True, None) | Some l \<Rightarrow> map_prod id Some (AllowKey (''user:'' @ uid) now l)) = (ok, quota')"
      by (metis surj_pair)
    have "ok" "r' = r\<lparr> Header := (Header r)(''X-OIM-User-ID'' := uid) \<rparr>"
      using assms a False u l by (auto simp: authMiddleware_def split: if_splits)
    then have "\<forall>l. quota = Some l \<longrightarrow> fst (AllowKey (''user:'' @ uid) now l)"
      using l by (auto simp: map_prod_id_iff)
    then show ?thesis using u \<open>r' = _\<close> by blast
  qed
qed

section \<open>Properties\<close>

text \<open>
  C28. The gate in front of every write decides whose request it is: a write that does not
  authenticate itself passes only with the admin key or a live admin session, or with a key
  of the store, and then it carries the identity of exactly that key's user, whatever
  \<open>X-OIM-User-ID\<close> the client had sent, and has been charged to that user's quota.
\<close>

theorem auth_gate_sound:
  assumes "authMiddleware C adminKey keys now r (adminAuth, quota) = (Pass r', st')"
    and "Method r \<noteq> ''GET''" "Method r \<noteq> ''OPTIONS''" "\<not> isSelfAuthenticatingWrite (Method r) (URLPath r)"
  shows "bearer r \<noteq> [] \<and>
    (adminKey \<noteq> [] \<and> bearer r = adminKey \<and> r' = r \<or>
     (\<exists>a. adminAuth = Some a \<and> hasPrefix (bearer r) SessionTokenPrefix \<and> fst (ValidSession (bearer r) now a) \<and> r' = r) \<or>
     (\<exists>uid. lookupKey C (bearer r) keys = Some uid \<and> hasPrefix (bearer r) ''oim_'' \<and> Header r' ''X-OIM-User-ID'' = uid \<and>
        (\<forall>h. h \<noteq> ''X-OIM-User-ID'' \<longrightarrow> Header r' h = Header r h) \<and> Method r' = Method r \<and> URLPath r' = URLPath r \<and>
        (\<forall>l. quota = Some l \<longrightarrow> fst (AllowKey (''user:'' @ uid) now l))))"
proof -
  have b: "bearer r \<noteq> []" using assms by (auto simp: authMiddleware_def split: if_splits)
  from authMiddleware_Pass[OF assms] show ?thesis
  proof
    assume "r' = r \<and> fst (adminAuthorized r adminKey now adminAuth)"
    then show ?thesis using b by (auto simp: adminAuthorized_def Let_def split: if_splits option.splits)
  next
    assume "\<exists>uid. lookupKey C (bearer r) keys = Some uid \<and> r' = r\<lparr> Header := (Header r)(''X-OIM-User-ID'' := uid) \<rparr> \<and>
      (\<forall>l. quota = Some l \<longrightarrow> fst (AllowKey (''user:'' @ uid) now l))"
    moreover have "hasPrefix (bearer r) ''oim_'' \<or> r' = r \<and> fst (adminAuthorized r adminKey now adminAuth)"
      using assms by (auto simp: authMiddleware_def split: if_splits prod.splits)
    moreover have "r' = r \<and> fst (adminAuthorized r adminKey now adminAuth) \<Longrightarrow> ?thesis"
      using b by (auto simp: adminAuthorized_def Let_def split: if_splits option.splits)
    ultimately show ?thesis using b by force
  qed
qed

definition forgedRequest :: request where
  "forgedRequest = \<lparr> Method = ''POST'', URLPath = ''/v1/chat/completions'',
     Header = (\<lambda>h. [])(''Authorization'' := ''Bearer '' @ rawAPIKey [1], ''X-OIM-User-ID'' := ''victim''), RemoteAddr = ''P'' \<rparr>"

theorem auth_gate_sound_witness:
  "\<exists>r' st'. authMiddleware plainCrypto [] (snd (generateKey plainCrypto (Some [1]) True ''mallory'' newAPIKeyStore)) 0 forgedRequest (None, None)
     = (Pass r', st') \<and> Header r' ''X-OIM-User-ID'' = ''mallory''"
proof -
  let ?keys = "snd (generateKey plainCrypto (Some [1]) True ''mallory'' newAPIKeyStore)"
  have h: "Header forgedRequest ''Authorization'' = ''Bearer '' @ rawAPIKey [1]"
    by (simp add: forgedRequest_def)
  have b: "bearer forgedRequest = rawAPIKey [1]"
    unfolding bearer_def h trimPrefix_def hasPrefix_def by simp
  have k: "lookupKey plainCrypto (rawAPIKey [1]) ?keys = Some ''mallory''"
    by (simp add: lookupKey_def generateKey_def newAPIKeyStore_def Let_def)
  have m: "Method forgedRequest = ''POST''" "\<not> isSelfAuthenticatingWrite ''POST'' (URLPath forgedRequest)"
    by (simp_all add: forgedRequest_def isSelfAuthenticatingWrite_def hasPrefix_def)
  have p: "hasPrefix (rawAPIKey [1]) ''oim_''" "rawAPIKey [1] \<noteq> []" by (simp_all add: rawAPIKey_def hasPrefix_def)
  obtain r' st' where "authMiddleware plainCrypto [] ?keys 0 forgedRequest (None, None) = (Pass r', st')"
    using m p k b by (simp add: authMiddleware_def adminAuthorized_def)
  moreover from auth_gate_sound[OF this] m k b have "Header r' ''X-OIM-User-ID'' = ''mallory''" by auto
  ultimately show ?thesis by blast
qed

text \<open>
  Nobody else can touch an account's credential: replacing or revoking a key needs the
  admin key, a live admin session or the account's own current key, and reading a protected
  account needs the admin key or that key.
\<close>

theorem account_control:
  assumes "fst (callerControlsAccount C r uid adminKey now keys adminAuth)"
  shows "bearer r \<noteq> [] \<and> (adminKey \<noteq> [] \<and> bearer r = adminKey \<or>
     (\<exists>a. adminAuth = Some a \<and> fst (ValidSession (bearer r) now a)) \<or>
     lookupKey C (bearer r) keys = Some uid)"
proof -
  obtain ok a' where "adminAuthorized r adminKey now adminAuth = (ok, a')"
    by (cases "adminAuthorized r adminKey now adminAuth")
  then show ?thesis using assms adminAuthorized_True[of r adminKey now adminAuth a'] authorizeUserRead_True[of C r uid adminKey keys]
    by (cases ok) (auto simp: callerControlsAccount_def)
qed

text \<open>A wildcard entry allows exactly the origins with a label of its own before the suffix.\<close>

lemma entryAllows_wildcard:
  assumes "indexOf (scheme @ ''*.'' @ suffix) ''*.'' = Some (length scheme)"
  shows "entryAllows (scheme @ ''*.'' @ suffix) origin \<longleftrightarrow> (\<exists>label. label \<noteq> [] \<and> origin = scheme @ label @ ''.'' @ suffix)"
proof -
  have e: "drop (length scheme + 2) (scheme @ ''*.'' @ suffix) = suffix" by simp
  show ?thesis unfolding entryAllows_def assms option.case Let_def e
    by (auto simp: hasPrefix_iff hasSuffix_iff)
qed

end
