(* ===== verification/Hints.thy ===== *)
theory Hints
  imports Protocol
begin

text \<open>
  On-device routing hints (\<open>internal/coordinator/hintvalidator.go\<close>): how far a client's
  hint is trusted, when the coordinator classifies for itself, and the tier a job is routed
  with. The history of a requester is a function, None for a store that is nil.
\<close>

section \<open>Hints and their weight\<close>

record RouterHint =
  HintJobType :: string
  SensitivityTier :: string
  ModelFamily :: string
  Confidence :: f64
  RouterVersion :: string
  IsFromMLModel :: bool

definition CurrentRouterVersionNumber :: int where "CurrentRouterVersionNumber = 1"

text \<open>\<open>ClassificationAccuracy\<close>: None when there is no history.\<close>

type_synonym accuracy_store = "string \<Rightarrow> f64 option"

definition clamp01 :: "f64 \<Rightarrow> f64" where
  "clamp01 v = (if v < 0 then 0 else if v > 1 then 1 else v)"

text \<open>\<open>strconv.Atoi\<close> on a run of digits: an error beyond the range of \<open>int\<close>.\<close>

definition digitValue :: "char \<Rightarrow> nat" where "digitValue c = of_char c - 48"

definition isDigit :: "char \<Rightarrow> bool" where
  "isDigit c \<longleftrightarrow> (of_char c :: nat) \<ge> 48 \<and> (of_char c :: nat) \<le> 57"

definition atoiDigits :: "string \<Rightarrow> int option" where
  "atoiDigits ds = (let n = fold (\<lambda>c n. 10 * n + int (digitValue c)) ds 0 in if n < 2 ^ 63 then Some n else None)"

definition trailingInt :: "string \<Rightarrow> int option" where
  "trailingInt s =
     (let ds = rev (takeWhile isDigit (rev s)) in if ds = [] then None else atoiDigits ds)"

definition versionFactor :: "string \<Rightarrow> f64" where
  "versionFactor version = (case trailingInt version of
       None \<Rightarrow> fl (2 / 10)
     | Some n \<Rightarrow>
         let delta = CurrentRouterVersionNumber - n
         in if delta \<le> 0 then 1 else if delta = 1 then fl (8 / 10) else fl (4 / 10))"

definition ComputeHintWeight :: "string \<Rightarrow> RouterHint option \<Rightarrow> accuracy_store option \<Rightarrow> f64" where
  "ComputeHintWeight requesterID hint store = (case hint of
       None \<Rightarrow> 0
     | Some h \<Rightarrow> (case store of
         None \<Rightarrow> 0
       | Some acc \<Rightarrow> (case acc requesterID of
           None \<Rightarrow> 0
         | Some a \<Rightarrow>
             let histFactor = clamp01 (fsub (fmul (fl (125 / 100)) a) (fl (325 / 1000)));
                 verFactor = versionFactor (RouterVersion h)
             in if Confidence h < fl (5 / 10) then 0
                else let confFactor = clamp01 (Confidence h);
                         mlFactor = (if \<not> IsFromMLModel h then fl (7 / 10) else 1);
                         w = fmul (fmul (fmul histFactor verFactor) confFactor) mlFactor
                     in if w > fl (95 / 100) then fl (95 / 100) else w)))"

section \<open>Tiers\<close>

definition tierRank :: "string \<Rightarrow> nat" where
  "tierRank t = (if t = SensitivityLow then 1 else if t = SensitivityModerate then 2
     else if t = SensitivityHighRequiresAttestation then 3 else 0)"

definition maxTier :: "string \<Rightarrow> string \<Rightarrow> string" where
  "maxTier a b = (if tierRank a \<ge> tierRank b then a else b)"

definition ValidateSensitivity :: "string \<Rightarrow> string \<Rightarrow> string \<Rightarrow> f64 \<Rightarrow> string" where
  "ValidateSensitivity hintedTier coordinatorTier sensitivityOverride hintWeight =
     (if sensitivityOverride \<noteq> [] then maxTier sensitivityOverride coordinatorTier
      else if hintedTier \<noteq> [] \<and> tierRank hintedTier > tierRank coordinatorTier \<and> hintWeight > fl (7 / 10) then hintedTier
      else coordinatorTier)"

definition ShouldReclassify :: "bool \<Rightarrow> f64 \<Rightarrow> string \<Rightarrow> string \<Rightarrow> bool" where
  "ShouldReclassify hintPresent hintWeight hintedSensitivity hintedJobType =
     (if \<not> hintPresent then True
      else if hintWeight < fl (3 / 10) then True
      else if hintedSensitivity = SensitivityHighRequiresAttestation then True
      else if hintedJobType = [] \<or> hintedJobType = ''unknown'' then True
      else if hintWeight \<ge> fl (7 / 10) \<and>
          (hintedSensitivity = SensitivityLow \<or> hintedSensitivity = SensitivityModerate) then False
      else True)"

text \<open>
  The observation handed to the recorder, None when nothing is recorded: requester, job type
  match, sensitivity match. \<open>strings.EqualFold\<close> is equality of the lower-case forms.
\<close>

definition RecordHintAccuracy :: "bool \<Rightarrow> string \<Rightarrow> RouterHint option \<Rightarrow> string \<Rightarrow> string \<Rightarrow> (string \<times> bool \<times> bool) option" where
  "RecordHintAccuracy recorder requesterID hint coordinatorJobType coordinatorSensitivity = (case hint of
       None \<Rightarrow> None
     | Some h \<Rightarrow> if \<not> recorder then None
         else Some (requesterID, toLower (HintJobType h) = toLower coordinatorJobType,
                    toLower (SensitivityTier h) = toLower coordinatorSensitivity))"

definition ResolveRouting :: "string \<Rightarrow> RouterHint option \<Rightarrow> string \<Rightarrow> string \<Rightarrow> accuracy_store option \<Rightarrow> string \<times> bool \<times> f64" where
  "ResolveRouting requesterID hint sensitivityOverride coordinatorTier store =
     (let weight = ComputeHintWeight requesterID hint store;
          hintedSensitivity = (case hint of None \<Rightarrow> [] | Some h \<Rightarrow> SensitivityTier h);
          hintedJobType = (case hint of None \<Rightarrow> [] | Some h \<Rightarrow> HintJobType h);
          reclassified = ShouldReclassify (hint \<noteq> None) weight hintedSensitivity hintedJobType;
          effective = ValidateSensitivity hintedSensitivity coordinatorTier sensitivityOverride weight
      in (effective, reclassified, weight))"

section \<open>Lemmas\<close>

lemma clamp01_bounds: "0 \<le> clamp01 v" "clamp01 v \<le> 1"
  by (simp_all add: clamp01_def)

lemma fl_le_1: "x \<le> 1 \<Longrightarrow> fl x \<le> 1"
  by (rule fl_le_f64[OF is_f64_1])

lemma versionFactor_bounds: "0 \<le> versionFactor v" "versionFactor v \<le> 1"
  by (auto simp: versionFactor_def Let_def intro!: fl_nonneg fl_le_1 split: option.splits)

lemma is_f64_quarter: "is_f64 (1 / 4)"
proof -
  have "(1 / 4 :: rat) = of_int 1 * 2 powi (- 2)" by (simp add: power_int_def power2_eq_square)
  then show ?thesis unfolding is_f64_def by (intro exI[of _ 1] exI[of _ "-2"]) simp
qed

lemma weight_bounds: "0 \<le> ComputeHintWeight r hint store" "ComputeHintWeight r hint store \<le> fl (95 / 100)"
proof -
  have n: "0 \<le> fl (95 / 100)" by (rule fl_nonneg) simp
  show "0 \<le> ComputeHintWeight r hint store"
    using n by (auto simp: ComputeHintWeight_def Let_def clamp01_bounds versionFactor_bounds
        intro!: fl_nonneg mult_nonneg_nonneg split: option.splits)
  show "ComputeHintWeight r hint store \<le> fl (95 / 100)"
    using n by (auto simp: ComputeHintWeight_def Let_def split: option.splits)
qed

lemma tierRank_max: "tierRank (maxTier a b) = max (tierRank a) (tierRank b)"
  by (simp add: maxTier_def)

lemma ValidateSensitivity_ge: "tierRank coordinatorTier \<le> tierRank (ValidateSensitivity hinted coordinatorTier ovr w)"
  by (auto simp: ValidateSensitivity_def maxTier_def)

section \<open>Properties\<close>

text \<open>
  A hint can only raise a job's sensitivity: whatever the hint, the override and the
  history say, the tier routed with ranks at least as high as the coordinator's own and is
  its own, the override or the hinted one; the weight stays between 0 and 0.95; without a
  hint, a history or an override the coordinator's tier is used and it classifies itself.
\<close>

theorem hints_only_escalate:
  assumes "ResolveRouting requesterID hint sensitivityOverride coordinatorTier store = (effective, reclassified, weight)"
  shows "tierRank coordinatorTier \<le> tierRank effective \<and>
    effective \<in> insert coordinatorTier ({sensitivityOverride} - {[]} \<union> SensitivityTier ` set_option hint) \<and>
    0 \<le> weight \<and> weight \<le> fl (95 / 100) \<and>
    (hint = None \<or> store = None \<longrightarrow> weight = 0 \<and> reclassified \<and>
       effective = (if sensitivityOverride = [] then coordinatorTier else maxTier sensitivityOverride coordinatorTier)) \<and>
    (\<not> reclassified \<longrightarrow> weight \<ge> fl (7 / 10) \<and> (\<exists>h. hint = Some h \<and> SensitivityTier h \<in> {SensitivityLow, SensitivityModerate}))"
proof -
  have w: "weight = ComputeHintWeight requesterID hint store"
    and e: "effective = ValidateSensitivity (case hint of None \<Rightarrow> [] | Some h \<Rightarrow> SensitivityTier h) coordinatorTier sensitivityOverride weight"
    and r: "reclassified = ShouldReclassify (hint \<noteq> None) weight (case hint of None \<Rightarrow> [] | Some h \<Rightarrow> SensitivityTier h)
      (case hint of None \<Rightarrow> [] | Some h \<Rightarrow> HintJobType h)"
    using assms by (auto simp: ResolveRouting_def Let_def)
  have seven: "0 < fl (7 / 10)" "0 < fl (3 / 10)"
    by (rule less_le_trans[OF _ fl_ge_f64[OF is_f64_quarter]]; simp)+
  have eff: "effective \<in> insert coordinatorTier ({sensitivityOverride} - {[]} \<union> SensitivityTier ` set_option hint)"
    by (cases hint) (auto simp: e ValidateSensitivity_def maxTier_def)
  have none: "weight = 0 \<and> reclassified \<and>
       effective = (if sensitivityOverride = [] then coordinatorTier else maxTier sensitivityOverride coordinatorTier)"
    if "hint = None \<or> store = None"
  proof -
    have "weight = 0" using that by (auto simp: w ComputeHintWeight_def split: option.splits)
    then show ?thesis using seven by (simp add: e r ValidateSensitivity_def ShouldReclassify_def)
  qed
  have kept: "weight \<ge> fl (7 / 10) \<and> (\<exists>h. hint = Some h \<and> SensitivityTier h \<in> {SensitivityLow, SensitivityModerate})"
    if "\<not> reclassified"
    using that by (cases hint) (auto simp: r ShouldReclassify_def split: if_splits)
  have "tierRank coordinatorTier \<le> tierRank effective" unfolding e by (rule ValidateSensitivity_ge)
  then show ?thesis using weight_bounds[of requesterID hint store, folded w] eff none kept by blast
qed

definition trustedHint :: RouterHint where
  "trustedHint = \<lparr> HintJobType = ''chat'', SensitivityTier = SensitivityLow, ModelFamily = ''llama'', Confidence = 1,
     RouterVersion = ''core_ml_v1'', IsFromMLModel = True \<rparr>"

theorem hints_only_escalate_witness:
  "tierRank (fst (ResolveRouting ''u'' (Some trustedHint) [] SensitivityModerate (Some (\<lambda>u. Some 1)))) \<ge> tierRank SensitivityModerate"
proof -
  obtain effective reclassified weight where
    r: "ResolveRouting ''u'' (Some trustedHint) [] SensitivityModerate (Some (\<lambda>u. Some 1)) = (effective, reclassified, weight)"
    by (cases "ResolveRouting ''u'' (Some trustedHint) [] SensitivityModerate (Some (\<lambda>u. Some 1))")
  from hints_only_escalate[OF r] show ?thesis by (simp add: r)
qed

end
