(* ===== verification/Earnings.thy ===== *)
theory Earnings
  imports Economics Ledger Stores Wallet Queue Access Hints PullDispatch
begin

text \<open>
  The coordinator's shared state (the variables of \<open>runCoordinator\<close> in
  \<open>cmd/coordinator/main.go\<close>) and its money paths: which account a nid earns for, what a
  served job, a served pointer and an availability probe pay, and the settlement of a chat
  request after its dispatch. Every operation takes the books, that is the ledger together
  with the entries its credit callback was called with; the outcome of each SQL statement
  is an argument.
\<close>

section \<open>State\<close>

type_synonym books = "Ledger \<times> CreditEntry list"

record coordinator =
  coReg :: registry
  coBooks :: books
  coKeys :: apiKeyStore
  coWallet :: WalletManager
  coNodeUsers :: "node_id \<rightharpoonup> user_id"
  coCredited :: "job_id set"
  coQueue :: JobQueue
  coReservations :: reservation_store
  coCoord :: coord_registry
  coAssign :: assignment_store
  coMeasured :: measurement_store
  coRecords :: "jobj list"
  coAdmin :: Authenticator
  coGrantLimiter :: RateLimiter
  coTreasuryLimiter :: RateLimiter
  coPull :: PullDispatcher

section \<open>Accounts and tokens\<close>

definition resolveEarningsAccount :: "WalletManager \<Rightarrow> (node_id \<rightharpoonup> user_id) \<Rightarrow> node_id \<Rightarrow> user_id" where
  "resolveEarningsAccount w nodeUsers nodeID = (case AccountForDevice nodeID w of
       Some acct \<Rightarrow> acct
     | None \<Rightarrow> (case nodeUsers nodeID of Some acct \<Rightarrow> acct | None \<Rightarrow> nodeID))"

definition extractCompletionTokens :: "jobj option \<Rightarrow> int \<Rightarrow> int" where
  "extractCompletionTokens result maxTok =
     (case (case result of None \<Rightarrow> None | Some res \<Rightarrow> asObj (res ''usage'')) of
        None \<Rightarrow> maxTok
      | Some usage \<Rightarrow> (case asNum (usage ''completion_tokens'') of
          Some n \<Rightarrow> if n > 0 then fint n else maxTok
        | None \<Rightarrow> maxTok))"

section \<open>Credits\<close>

definition postCredit :: "bool \<Rightarrow> CreditEntry \<Rightarrow> books \<Rightarrow> books" where
  "postCredit ok entry = (\<lambda>(l, notes). case CreditAccount ok entry l of (_, l', ns) \<Rightarrow> (l', notes @ ns))"

definition earnedEntry :: "user_id \<Rightarrow> f64 \<Rightarrow> time \<Rightarrow> string \<Rightarrow> CreditEntry" where
  "earnedEntry u amount now ref =
     \<lparr> UserID = u, Origin = CreditOriginEarnedContrib, Amount = amount, GrantedOrEarnedAt = now, SourceReference = ref \<rparr>"

text \<open>\<open>sql k\<close> is the outcome of the \<open>k\<close>-th statement.\<close>

definition creditNodeEarning :: "(nat \<Rightarrow> bool) \<Rightarrow> time \<Rightarrow> WalletManager \<Rightarrow> (node_id \<rightharpoonup> user_id) \<Rightarrow> registry \<Rightarrow> node_id \<Rightarrow>
    job_id \<Rightarrow> lane \<Rightarrow> string \<Rightarrow> int \<Rightarrow> f64 \<Rightarrow> books \<Rightarrow> books" where
  "creditNodeEarning sql now w nodeUsers r servedByNodeID jobID lane sensitivity tokenCount consumerCharge b =
     (if (case ManifestOf servedByNodeID r of Some m \<Rightarrow> Simulated m | None \<Rightarrow> False) then b
      else let accountKey = resolveEarningsAccount w nodeUsers servedByNodeID;
               reward = ProviderReward lane sensitivity tokenCount;
               margin = fsub consumerCharge reward;
               margin = (if margin < 0 then 0 else margin);
               b = postCredit (sql 0) (earnedEntry accountKey reward now jobID) b
           in if margin > 0 then postCredit (sql 1) (earnedEntry TreasuryAccount margin now (jobID @ ''-margin'')) b
              else b)"

definition creditPointerHost :: "(nat \<Rightarrow> bool) \<Rightarrow> time \<Rightarrow> string \<Rightarrow> job_id \<Rightarrow> coordinator \<Rightarrow> coordinator" where
  "creditPointerHost sql now host jobID c =
     (if host = [] then c
      else let (known, cr) = RecordPointerServed host (coCoord c); c = c\<lparr> coCoord := cr \<rparr>
           in if \<not> known then c
              else case AccountForDevice host (coWallet c) of
                  None \<Rightarrow> c
                | Some acct \<Rightarrow>
                    let reward = CoordinationReward 1;
                        (l, notes) = postCredit (sql 0) (earnedEntry acct reward now (jobID @ ''-coord'')) (coBooks c);
                        l = (if Total (GetBalance TreasuryAccount l) \<ge> reward
                             then snd (DebitAccount (sql 1) TreasuryAccount reward (jobID @ ''-coord'') now l) else l)
                    in c\<lparr> coBooks := (l, notes) \<rparr>)"

section \<open>Availability rewards\<close>

definition availabilityProbeInterval :: duration where "availabilityProbeInterval = 10 * minute"
definition availabilityProbeBackpressureCeiling :: f64 where "availabilityProbeBackpressureCeiling = 40"
definition availabilityIdleThreshold :: duration where "availabilityIdleThreshold = 30 * minute"
definition availabilityProbeMaxPerRound :: int where "availabilityProbeMaxPerRound = 3"
definition availabilityProbeMaxPerRoundCeiling :: int where "availabilityProbeMaxPerRoundCeiling = 15"
definition availabilityProbeFallbackTokens :: int where "availabilityProbeFallbackTokens = 32"

definition creditAvailabilityReward :: "bool \<Rightarrow> time \<Rightarrow> WalletManager \<Rightarrow> (node_id \<rightharpoonup> user_id) \<Rightarrow> node_id \<Rightarrow> job_id \<Rightarrow> int \<Rightarrow>
    books \<Rightarrow> bool \<times> books" where
  "creditAvailabilityReward sqlOk now w nodeUsers nodeID jobID tokenCount b =
     (let accountKey = resolveEarningsAccount w nodeUsers nodeID;
          reward = ProviderReward LaneBackground SensitivityLow tokenCount
      in if reward \<le> 0 then (False, b) else (True, postCredit sqlOk (earnedEntry accountKey reward now jobID) b))"

text \<open>
  One probe: \<open>nano\<close> is the clock reading its job id carries, \<open>T\<close> how the nid answers,
  \<open>later\<close> the time when the answer is there.
\<close>

record probe_env =
  prNano :: nat
  prNet :: transport
  prLater :: time
  prSql :: bool

definition probeOneNode :: "probe_env \<Rightarrow> CapabilityManifest \<Rightarrow> ModelCapability \<Rightarrow> coordinator \<Rightarrow> coordinator" where
  "probeOneNode E m model c =
     (let jobID = ''availability-probe-'' @ NodeID m @ ''-'' @ decimal (prNano E);
          (job, messages) = BuildProbeJob jobID (CapModelID model) (Quantization model)
      in case DispatchToResolvedNode (prNet E) job messages (TargetFromManifest m) (coReg c) of
          (Inl err, r) \<Rightarrow> c\<lparr> coReg := r \<rparr>
        | (Inr result, r) \<Rightarrow>
            let c = c\<lparr> coReg := r \<rparr>; tokens = extractCompletionTokens result availabilityProbeFallbackTokens
            in if tokens \<le> 0 then c
               else let (credited, b) = creditAvailabilityReward (prSql E) (prLater E) (coWallet c) (coNodeUsers c)
                          (NodeID m) jobID tokens (coBooks c);
                        c = c\<lparr> coBooks := b \<rparr>
                    in if \<not> credited then c else c\<lparr> coReg := MarkJobServed (NodeID m) (prLater E) (coReg c) \<rparr>)"

text \<open>The loop over the candidates of a round; \<open>envs k\<close> belongs to the \<open>k\<close>-th candidate.\<close>

fun probeLoop :: "(nat \<Rightarrow> probe_env) \<Rightarrow> nat \<Rightarrow> CapabilityManifest list \<Rightarrow> coordinator \<Rightarrow> coordinator" where
  "probeLoop envs k [] c = c"
| "probeLoop envs k (m # ms) c =
     probeLoop envs (Suc k) ms
       (case SelectProbeTarget (m # ms) of None \<Rightarrow> c | Some (chosen, model) \<Rightarrow> probeOneNode (envs k) chosen model c)"

definition probeIdleNodes :: "(nat \<Rightarrow> probe_env) \<Rightarrow> duration \<Rightarrow> time \<Rightarrow> node_id list \<Rightarrow> coordinator \<Rightarrow> coordinator" where
  "probeIdleNodes envs idleThreshold now ks c =
     (let bp = BackpressurePct (coQueue c)
      in if bp > availabilityProbeBackpressureCeiling then c
         else let budget = ScaledProbeBudget bp availabilityProbeBackpressureCeiling availabilityProbeMaxPerRound
                             availabilityProbeMaxPerRoundCeiling;
                  candidates = IdleCandidates idleThreshold now ks (coReg c);
                  candidates = (if int (length candidates) > budget then take (nat budget) candidates else candidates)
              in probeLoop envs 0 candidates c)"

section \<open>Settling a chat request\<close>

text \<open>
  Crediting the node that served a job, at most once per job id: \<open>LoadOrStore\<close> on the
  credited jobs, the credits and the mark on the nid.
\<close>

definition creditServed :: "(nat \<Rightarrow> bool) \<Rightarrow> time \<Rightarrow> node_id \<Rightarrow> job_id \<Rightarrow> string \<Rightarrow> int \<Rightarrow> f64 \<Rightarrow> coordinator \<Rightarrow> coordinator" where
  "creditServed sql now servedByNode jobID sensitivity tokens actualCost c =
     (if servedByNode \<noteq> [] \<and> tokens > 0
      then if jobID \<in> coCredited c then c
           else c\<lparr> coCredited := insert jobID (coCredited c),
                   coBooks := creditNodeEarning sql now (coWallet c) (coNodeUsers c) (coReg c) servedByNode jobID LaneFast
                     sensitivity tokens actualCost (coBooks c),
                   coReg := MarkJobServed servedByNode now (coReg c) \<rparr>
      else c)"

definition debitCaller :: "bool \<Rightarrow> time \<Rightarrow> user_id \<Rightarrow> f64 \<Rightarrow> job_id \<Rightarrow> coordinator \<Rightarrow> bool \<times> coordinator" where
  "debitCaller sqlOk now userID actualCost jobID c =
     (case DebitAccount sqlOk userID actualCost jobID now (fst (coBooks c)) of
        (ok, l) \<Rightarrow> (ok, c\<lparr> coBooks := (l, snd (coBooks c)) \<rparr>))"

text \<open>
  The end of the buffered path: the tokens the reply reports are priced once, the serving
  node and the treasury are credited, then the caller is debited; a refused debit is only
  logged. The flag tells whether a debit was made.
\<close>

definition settleBuffered :: "(nat \<Rightarrow> bool) \<Rightarrow> time \<Rightarrow> user_id \<Rightarrow> job_id \<Rightarrow> string \<Rightarrow> int \<Rightarrow> jobj option \<Rightarrow> coordinator \<Rightarrow>
    bool \<times> coordinator" where
  "settleBuffered sql now userID jobID sensitivity maxTok result c =
     (let observedTok = extractCompletionTokens result maxTok;
          actualCost = ConsumerCostWithActivityDiscount LaneFast sensitivity observedTok (BackpressurePct (coQueue c));
          servedByNode = asString (case result of None \<Rightarrow> None | Some res \<Rightarrow> res ''oim_served_by_node_id'');
          c = creditServed sql now servedByNode jobID sensitivity observedTok actualCost c
      in if userID \<noteq> [] then debitCaller (sql 2) now userID actualCost jobID c else (False, c))"

text \<open>The end of the streaming path, with the tokens of the usage frame.\<close>

definition settleStreaming :: "(nat \<Rightarrow> bool) \<Rightarrow> time \<Rightarrow> user_id \<Rightarrow> job_id \<Rightarrow> string \<Rightarrow> node_id \<Rightarrow> int \<Rightarrow> coordinator \<Rightarrow>
    bool \<times> coordinator" where
  "settleStreaming sql now userID jobID sensitivity servedByNode tokens c =
     (let actualCost = (if tokens > 0 then ConsumerCostWithActivityDiscount LaneFast sensitivity tokens
                           (BackpressurePct (coQueue c)) else 0);
          c = creditServed sql now servedByNode jobID sensitivity tokens actualCost c
      in if userID \<noteq> [] \<and> tokens > 0 then debitCaller (sql 2) now userID actualCost jobID c else (False, c))"

section \<open>What the books add up to\<close>

text \<open>Exact sums over the logs; their difference is the money in circulation.\<close>

definition creditSum :: "Ledger \<Rightarrow> rat" where
  "creditSum l = sum_list (map Amount (entries l))"

definition debitSum :: "Ledger \<Rightarrow> rat" where
  "debitSum l = sum_list (map DebitAmount (debits l))"

definition netIssue :: "coordinator \<Rightarrow> rat" where
  "netIssue c = creditSum (fst (coBooks c)) - debitSum (fst (coBooks c))"

lemma postCredit_ok:
  "entries (fst (postCredit True e b)) = entries (fst b) @ [e]" "debits (fst (postCredit True e b)) = debits (fst b)"
  by (cases b; auto simp: postCredit_def CreditAccount_def creditLocked_def split: option.splits)+

lemma postCredit_sums:
  "creditSum (fst (postCredit True e b)) = creditSum (fst b) + Amount e" "debitSum (fst (postCredit True e b)) = debitSum (fst b)"
  by (simp_all add: creditSum_def debitSum_def postCredit_ok)

definition isSimulated :: "node_id \<Rightarrow> registry \<Rightarrow> bool" where
  "isSimulated nodeID r \<longleftrightarrow> (case ManifestOf nodeID r of Some m \<Rightarrow> Simulated m | None \<Rightarrow> False)"

text \<open>
  The reward and the margin that a charge is split into; with the discount the treasury may
  get nothing, and the parts add up exactly.
\<close>

lemma creditNodeEarning_entries:
  assumes "\<forall>k. sql k" "\<not> isSimulated n r" "is_f64 charge" "ProviderReward lane sens t \<le> charge" "charge \<le> 2 * ProviderReward lane sens t"
  shows "entries (fst (creditNodeEarning sql now w us r n job lane sens t charge b)) =
      entries (fst b) @ earnedEntry (resolveEarningsAccount w us n) (ProviderReward lane sens t) now job #
        (if charge > ProviderReward lane sens t
         then [earnedEntry TreasuryAccount (charge - ProviderReward lane sens t) now (job @ ''-margin'')] else [])"
    "debits (fst (creditNodeEarning sql now w us r n job lane sens t charge b)) = debits (fst b)"
proof -
  have m: "fsub charge (ProviderReward lane sens t) = charge - ProviderReward lane sens t"
    using assms(3-5) by (rule share_exact)
  have s: "sql 0" "sql 1" using assms(1) by simp_all
  have ns: "\<not> (case ManifestOf n r of Some m \<Rightarrow> Simulated m | None \<Rightarrow> False)" using assms(2) by (simp add: isSimulated_def)
  show "entries (fst (creditNodeEarning sql now w us r n job lane sens t charge b)) =
      entries (fst b) @ earnedEntry (resolveEarningsAccount w us n) (ProviderReward lane sens t) now job #
        (if charge > ProviderReward lane sens t
         then [earnedEntry TreasuryAccount (charge - ProviderReward lane sens t) now (job @ ''-margin'')] else [])"
    using assms(4) s ns by (simp add: creditNodeEarning_def m Let_def postCredit_ok)
  show "debits (fst (creditNodeEarning sql now w us r n job lane sens t charge b)) = debits (fst b)"
    using s by (simp add: creditNodeEarning_def m Let_def postCredit_ok)
qed

text \<open>A job that is credited: it is served by a real node, for the first time under its id.\<close>

definition credits_job :: "node_id \<Rightarrow> job_id \<Rightarrow> int \<Rightarrow> coordinator \<Rightarrow> bool" where
  "credits_job nid job tokens c \<longleftrightarrow> nid \<noteq> [] \<and> tokens > 0 \<and> job \<notin> coCredited c \<and> \<not> isSimulated nid (coReg c)"

lemma creditServed_sums:
  assumes "\<forall>k. sql k" "tokens \<le> 2 ^ 40" "cost = ConsumerCostWithActivityDiscount LaneFast sens tokens bp"
  shows "creditSum (fst (coBooks (creditServed sql now nid job sens tokens cost c))) =
      creditSum (fst (coBooks c)) + (if credits_job nid job tokens c then cost else 0)"
    "debits (fst (coBooks (creditServed sql now nid job sens tokens cost c))) = debits (fst (coBooks c))"
proof -
  let ?b = "creditNodeEarning sql now (coWallet c) (coNodeUsers c) (coReg c) nid job LaneFast sens tokens cost (coBooks c)"
  have c: "is_f64 cost" "ProviderReward LaneFast sens tokens \<le> cost" "cost \<le> 2 * ProviderReward LaneFast sens tokens"
    using assms(2) by (simp_all add: assms(3) discounted_ge_reward discounted_le_twice_reward)
  have sim: "isSimulated nid (coReg c) \<Longrightarrow> ?b = coBooks c" by (simp add: creditNodeEarning_def isSimulated_def)
  have real: "\<not> isSimulated nid (coReg c) \<Longrightarrow> creditSum (fst ?b) = creditSum (fst (coBooks c)) + cost \<and> debits (fst ?b) = debits (fst (coBooks c))"
    using creditNodeEarning_entries[OF assms(1) _ c, of nid "coReg c"] c(2)
    by (auto simp: creditSum_def earnedEntry_def)
  show "creditSum (fst (coBooks (creditServed sql now nid job sens tokens cost c))) =
      creditSum (fst (coBooks c)) + (if credits_job nid job tokens c then cost else 0)"
    using sim real by (auto simp: creditServed_def credits_job_def)
  show "debits (fst (coBooks (creditServed sql now nid job sens tokens cost c))) = debits (fst (coBooks c))"
    using sim real by (cases "isSimulated nid (coReg c)") (auto simp: creditServed_def)
qed

lemma debitCaller_sums:
  assumes "debitCaller ok now u a job c = (paid, c')"
  shows "creditSum (fst (coBooks c')) = creditSum (fst (coBooks c))"
    "debitSum (fst (coBooks c')) = debitSum (fst (coBooks c)) + (if paid then a else 0)"
    "coCredited c' = coCredited c" "coReg c' = coReg c" "coQueue c' = coQueue c"
proof -
  obtain l where d: "DebitAccount ok u a job now (fst (coBooks c)) = (paid, l)" and c': "c' = c\<lparr> coBooks := (l, snd (coBooks c)) \<rparr>"
    using assms by (auto simp: debitCaller_def split: prod.splits)
  show "creditSum (fst (coBooks c')) = creditSum (fst (coBooks c))"
    "debitSum (fst (coBooks c')) = debitSum (fst (coBooks c)) + (if paid then a else 0)"
    using d by (cases paid; auto simp: c' creditSum_def debitSum_def dest: DebitAccount_True(1,2) DebitAccount_False)+
qed (use assms in \<open>auto simp: debitCaller_def split: prod.splits\<close>)

section \<open>Sequences of settlements\<close>

text \<open>A settlement with its clock reading and SQL outcomes, the caller identified or not.\<close>

datatype settlement =
    Buffered "nat \<Rightarrow> bool" time user_id job_id string int "jobj option"
  | Streamed "nat \<Rightarrow> bool" time user_id job_id string node_id int

fun settle :: "settlement \<Rightarrow> coordinator \<Rightarrow> bool \<times> coordinator" where
  "settle (Buffered sql now u job sens maxTok result) c = settleBuffered sql now u job sens maxTok result c"
| "settle (Streamed sql now u job sens nid tokens) c = settleStreaming sql now u job sens nid tokens c"

fun settledTokens :: "settlement \<Rightarrow> int" where
  "settledTokens (Buffered sql now u job sens maxTok result) = extractCompletionTokens result maxTok"
| "settledTokens (Streamed sql now u job sens nid tokens) = tokens"

fun settledCost :: "settlement \<Rightarrow> coordinator \<Rightarrow> f64" where
  "settledCost (Buffered sql now u job sens maxTok result) c =
     ConsumerCostWithActivityDiscount LaneFast sens (extractCompletionTokens result maxTok) (BackpressurePct (coQueue c))"
| "settledCost (Streamed sql now u job sens nid tokens) c =
     ConsumerCostWithActivityDiscount LaneFast sens tokens (BackpressurePct (coQueue c))"

fun settledSql :: "settlement \<Rightarrow> nat \<Rightarrow> bool" where
  "settledSql (Buffered sql now u job sens maxTok result) = sql"
| "settledSql (Streamed sql now u job sens nid tokens) = sql"

fun settledUser :: "settlement \<Rightarrow> user_id" where
  "settledUser (Buffered sql now u job sens maxTok result) = u"
| "settledUser (Streamed sql now u job sens nid tokens) = u"

fun settledNode :: "settlement \<Rightarrow> node_id" where
  "settledNode (Buffered sql now u job sens maxTok result) =
     asString (case result of None \<Rightarrow> None | Some res \<Rightarrow> res ''oim_served_by_node_id'')"
| "settledNode (Streamed sql now u job sens nid tokens) = nid"

fun settledJob :: "settlement \<Rightarrow> job_id" where
  "settledJob (Buffered sql now u job sens maxTok result) = job"
| "settledJob (Streamed sql now u job sens nid tokens) = job"

lemma settle_net:
  assumes "settle s c = (paid, c')" "\<forall>k. settledSql s k" "settledTokens s \<le> 2 ^ 40"
  shows "netIssue c' - netIssue c =
     (if credits_job (settledNode s) (settledJob s) (settledTokens s) c then settledCost s c else 0) -
     (if paid then settledCost s c else 0)"
proof (cases s)
  case (Buffered sql now u job sens maxTok result)
  define t where "t = extractCompletionTokens result maxTok"
  define cost where "cost = ConsumerCostWithActivityDiscount LaneFast sens t (BackpressurePct (coQueue c))"
  define nid where "nid = asString (case result of None \<Rightarrow> None | Some res \<Rightarrow> res ''oim_served_by_node_id'')"
  define c1 where "c1 = creditServed sql now nid job sens t cost c"
  have c1: "creditSum (fst (coBooks c1)) = creditSum (fst (coBooks c)) + (if credits_job nid job t c then cost else 0)"
    "debitSum (fst (coBooks c1)) = debitSum (fst (coBooks c))"
    using creditServed_sums[of sql t cost sens "BackpressurePct (coQueue c)" now nid job c] assms(2,3) Buffered
    by (simp_all add: c1_def cost_def t_def debitSum_def)
  have s: "settle s c = (if u \<noteq> [] then debitCaller (sql 2) now u cost job c1 else (False, c1))"
    by (simp add: Buffered settleBuffered_def Let_def c1_def t_def cost_def nid_def)
  have f: "settledCost s c = cost" "settledTokens s = t" "settledNode s = nid" "settledJob s = job"
    by (simp_all add: Buffered cost_def t_def nid_def)
  show ?thesis
  proof (cases "u = []")
    case True
    then show ?thesis using assms(1) s c1 f by (simp add: netIssue_def)
  next
    case False
    then have "debitCaller (sql 2) now u cost job c1 = (paid, c')" using assms(1) s by simp
    from debitCaller_sums(1,2)[OF this] show ?thesis using c1 f by (simp add: netIssue_def)
  qed
next
  case (Streamed sql now u job sens nid t)
  define cost where "cost = (if t > 0 then ConsumerCostWithActivityDiscount LaneFast sens t (BackpressurePct (coQueue c)) else 0)"
  define c1 where "c1 = creditServed sql now nid job sens t cost c"
  have c1: "creditSum (fst (coBooks c1)) = creditSum (fst (coBooks c)) + (if credits_job nid job t c then cost else 0)"
    "debitSum (fst (coBooks c1)) = debitSum (fst (coBooks c))"
    using creditServed_sums[of sql t cost sens "BackpressurePct (coQueue c)" now nid job c] assms(2,3) Streamed
    by (cases "t > 0"; simp add: c1_def cost_def debitSum_def credits_job_def creditServed_def)+
  have s: "settle s c = (if u \<noteq> [] \<and> t > 0 then debitCaller (sql 2) now u cost job c1 else (False, c1))"
    by (simp add: Streamed settleStreaming_def Let_def c1_def cost_def)
  have f: "settledTokens s = t" "settledNode s = nid" "settledJob s = job" "t > 0 \<Longrightarrow> settledCost s c = cost"
    by (simp_all add: Streamed cost_def)
  show ?thesis
  proof (cases "u \<noteq> [] \<and> t > 0")
    case True
    then have "debitCaller (sql 2) now u cost job c1 = (paid, c')" using assms(1) s by simp
    from debitCaller_sums(1,2)[OF this] show ?thesis using c1 f True by (simp add: netIssue_def)
  next
    case False
    then show ?thesis using assms(1) s c1 f by (cases "t > 0") (auto simp: netIssue_def credits_job_def)
  qed
qed

text \<open>The costs of the settlements of a run whose debit was refused or had no account.\<close>

fun settleAll :: "settlement list \<Rightarrow> coordinator \<Rightarrow> rat \<times> coordinator" where
  "settleAll [] c = (0, c)"
| "settleAll (s # ss) c =
     (let (paid, c1) = settle s c; (unpaid, c2) = settleAll ss c1
      in ((if paid then 0 else settledCost s c) + unpaid, c2))"

lemma settledCost_nonneg: "0 \<le> settledCost s c"
  by (cases s; simp; rule order_trans[OF ProviderReward_nonneg discounted_ge_reward])

lemma settleAll_net:
  assumes "settleAll ss c = (unpaid, c')" "\<forall>s \<in> set ss. (\<forall>k. settledSql s k) \<and> settledTokens s \<le> 2 ^ 40"
  shows "netIssue c' \<le> netIssue c + unpaid"
  using assms
proof (induction ss arbitrary: c unpaid)
  case (Cons s ss)
  obtain paid c1 where s: "settle s c = (paid, c1)" by (cases "settle s c")
  obtain rest where r: "settleAll ss c1 = (rest, c')" "unpaid = (if paid then 0 else settledCost s c) + rest"
    using Cons.prems(1) s by (auto split: prod.splits)
  have "netIssue c' \<le> netIssue c1 + rest" using Cons.IH[OF r(1)] Cons.prems(2) by simp
  moreover have "netIssue c1 - netIssue c \<le> (if paid then 0 else settledCost s c)"
    using settle_net[OF s] Cons.prems(2) settledCost_nonneg[of s c] by simp
  ultimately show ?case using r(2) by simp
qed simp

section \<open>Properties\<close>


text \<open>A fresh coordinator with one real node, and a user with a startup grant.\<close>

definition emptyCoordinator :: coordinator where
  "emptyCoordinator = \<lparr> coReg = NewNodeRegistry, coBooks = (NewLedger, []), coKeys = newAPIKeyStore, coWallet = NewManager,
     coNodeUsers = Map.empty, coCredited = {}, coQueue = NewJobQueue 50, coReservations = NewReservationStore,
     coCoord = NewCoordinationRegistry, coAssign = Map.empty, coMeasured = Map.empty, coRecords = [],
     coAdmin = freshAuthenticator [], coGrantLimiter = NewRateLimiter 0 2, coTreasuryLimiter = NewRateLimiter 0 1,
     coPull = NewPullDispatcher \<rparr>"

definition fundedCoordinator :: "user_id \<Rightarrow> f64 \<Rightarrow> coordinator" where
  "fundedCoordinator u amount = emptyCoordinator\<lparr> coBooks := postCredit True
     \<lparr> UserID = u, Origin = CreditOriginStartupGrant, Amount = amount, GrantedOrEarnedAt = 0, SourceReference = [] \<rparr>
     (coBooks emptyCoordinator) \<rparr>"


lemma fint_of_int: "- (2 ^ 63) \<le> n \<Longrightarrow> n < 2 ^ 63 \<Longrightarrow> fint (of_int n) = n"
  by (simp add: fint_def)

text \<open>
  The token count a job is paid by is the node's own claim: a reply that reports any
  number of tokens up to 2^40, whatever limit the request set, credits its node with the
  reward for that many, and if the caller cannot pay for them the debit is dropped while the
  credits stay, so that the whole charge is minted from nothing.
\<close>

theorem reported_usage_mints:
  assumes "result ''usage'' = Some (JObj usage)" "usage ''completion_tokens'' = Some (JNum (of_int t))" "0 < t" "t \<le> 2 ^ 40"
    and "result ''oim_served_by_node_id'' = Some (JStr nid)" "credits_job nid job t c" "\<forall>k. sql k" "u \<noteq> []"
    and cost: "cost = ConsumerCostWithActivityDiscount LaneFast sens t (BackpressurePct (coQueue c))"
    and poor: "u \<noteq> resolveEarningsAccount (coWallet c) (coNodeUsers c) nid" "u \<noteq> TreasuryAccount"
      "available (accountTotals (fst (coBooks c)) u) < cost"
  shows "\<exists>c'. settleBuffered sql now u job sens maxTok (Some result) c = (False, c') \<and>
    netIssue c' = netIssue c + cost \<and>
    earnedEntry (resolveEarningsAccount (coWallet c) (coNodeUsers c) nid) (ProviderReward LaneFast sens t) now job
      \<in> set (entries (fst (coBooks c')))"
proof -
  have t: "extractCompletionTokens (Some result) maxTok = t"
    using assms(1-4) by (simp add: extractCompletionTokens_def asObj_def asNum_def fint_of_int)
  let ?c1 = "creditServed sql now nid job sens t cost c"
  let ?b = "creditNodeEarning sql now (coWallet c) (coNodeUsers c) (coReg c) nid job LaneFast sens t cost (coBooks c)"
  have cost': "is_f64 cost" "ProviderReward LaneFast sens t \<le> cost" "cost \<le> 2 * ProviderReward LaneFast sens t"
    using assms(4) by (simp_all add: cost discounted_ge_reward discounted_le_twice_reward)
  have fresh: "nid \<noteq> []" "job \<notin> coCredited c" "\<not> isSimulated nid (coReg c)" using assms(6) by (simp_all add: credits_job_def)
  have b: "coBooks ?c1 = ?b" using fresh assms(3) by (simp add: creditServed_def)
  note en = creditNodeEarning_entries[OF assms(7) fresh(3) cost', of now "coWallet c" "coNodeUsers c" job "coBooks c"]
  have other: "accountTotals (fst ?b) u = accountTotals (fst (coBooks c)) u"
    using poor(1,2) by (simp add: accountTotals_def en creditLoop_def earnedEntry_def)
  have "fst (DebitAccount (sql 2) u cost job now (fst ?b)) = False"
    using poor(3) other by (auto simp: DebitAccount_def available_def Let_def split: prod.splits)
  then obtain l where d: "DebitAccount (sql 2) u cost job now (fst ?b) = (False, l)" by (metis prod.collapse)
  then have l: "l = fst ?b" by (rule DebitAccount_False)
  define c' where "c' = ?c1\<lparr> coBooks := (l, snd ?b) \<rparr>"
  have r: "settleBuffered sql now u job sens maxTok (Some result) c = (False, c')"
    using assms(5,8) d b by (simp add: settleBuffered_def t asString_def cost[symmetric] debitCaller_def Let_def c'_def)
  have "settle (Buffered sql now u job sens maxTok (Some result)) c = (False, c')" by (simp add: r)
  from settle_net[OF this] have "netIssue c' = netIssue c + cost"
    using assms(4,6,7) by (simp add: t assms(5) asString_def cost)
  moreover have "earnedEntry (resolveEarningsAccount (coWallet c) (coNodeUsers c) nid) (ProviderReward LaneFast sens t) now job
      \<in> set (entries (fst (coBooks c')))"
    by (simp add: c'_def l en)
  ultimately show ?thesis using r by blast
qed

theorem reported_usage_mints_witness:
  "\<exists>c'. settleBuffered (\<lambda>k. True) 5 ''ann'' ''job-1'' ''moderate'' 1
     (Some [''usage'' \<mapsto> JObj [''completion_tokens'' \<mapsto> JNum (2 ^ 40)], ''oim_served_by_node_id'' \<mapsto> JStr ''node-1''])
     (fundedCoordinator ''ann'' 1) = (False, c') \<and> netIssue c' > netIssue (fundedCoordinator ''ann'' 1) + 100000000"
proof -
  let ?c = "fundedCoordinator ''ann'' 1"
  let ?r = "[''usage'' \<mapsto> JObj [''completion_tokens'' \<mapsto> JNum (2 ^ 40)], ''oim_served_by_node_id'' \<mapsto> JStr ''node-1'']"
  define cost where "cost = ConsumerCostWithActivityDiscount LaneFast ''moderate'' (2 ^ 40) (BackpressurePct (coQueue ?c))"
  have bp: "BackpressurePct (coQueue ?c) = 0"
    by (simp add: fundedCoordinator_def emptyCoordinator_def NewJobQueue_def BackpressurePct_def)
  have "100000000 < ProviderReward LaneFast ''moderate'' (2 ^ 40)" by code_simp
  then have cost: "100000000 < cost" unfolding cost_def bp discounted_idle[OF order_refl] .
  have w: "coWallet ?c = NewManager" "coNodeUsers ?c = Map.empty" "coCredited ?c = {}" "coReg ?c = NewNodeRegistry"
    by (simp_all add: fundedCoordinator_def emptyCoordinator_def)
  have acct: "resolveEarningsAccount (coWallet ?c) (coNodeUsers ?c) ''node-1'' = ''node-1''"
    by (simp add: w resolveEarningsAccount_def AccountForDevice_def NewManager_def)
  have credits: "credits_job ''node-1'' ''job-1'' (2 ^ 40) ?c"
    by (simp add: credits_job_def w isSimulated_def ManifestOf_def NewNodeRegistry_def)
  have "accountTotals (fst (coBooks ?c)) ''ann'' = (1, 0, 0)"
    by (simp add: fundedCoordinator_def emptyCoordinator_def accountTotals_def creditLoop_def debitLoop_def
        postCredit_ok NewLedger_def postCredit_def CreditAccount_def creditLocked_def addCredit_def)
  then have poor: "available (accountTotals (fst (coBooks ?c)) ''ann'') < cost" using cost by (simp add: available_def)
  from reported_usage_mints[of ?r "[''completion_tokens'' \<mapsto> JNum (2 ^ 40)]" "2 ^ 40" "''node-1''" "''job-1''" ?c "\<lambda>k. True" "''ann''" cost "''moderate''" 5 1,
      unfolded acct, OF _ _ _ _ _ credits _ _ cost_def _ _ poor]
  show ?thesis using cost by (auto simp: TreasuryAccount_def)
qed

end
