(* ===== verification/Federation.thy ===== *)
theory Federation
  imports Ledger Grants
begin

text \<open>
  Witnessed credit histories, \<open>internal/federation\<close>: signed, numbered ledger events
  (\<open>event.go\<close>), the store of a pod's own events, of the events it witnessed from its peers and
  of the keys pinned for them (\<open>store.go\<close>), and the client that pulls them (\<open>client.go\<close>).
  The JSON encoding of an event, the outcome of each SQL statement and the answers of peers
  are arguments.
\<close>

section \<open>Events\<close>

definition EventStartupGrant :: string where "EventStartupGrant = ''startup_grant''"
definition EventEarnedContrib :: string where "EventEarnedContrib = ''earned''"

record LedgerEvent =
  EvPodID :: pod_id
  EvSequence :: "64 word"
  EvType :: string
  EvUserID :: user_id
  EvAmount :: f64
  EvIssuedAt :: string
  EvPublicKey :: string
  EvSignature :: string

text \<open>\<open>M\<close> is \<open>json.Marshal\<close> on events, None its error.\<close>

type_synonym event_codec = "LedgerEvent \<Rightarrow> bytes option"

definition eventSignableBytes :: "event_codec \<Rightarrow> LedgerEvent \<Rightarrow> bytes option" where
  "eventSignableBytes M e = M (e\<lparr> EvSignature := [] \<rparr>)"

datatype fed_error = FedMarshal | FedSign | OpenFed | MigrateFed | LoadSelf | LoadWitnessed | LoadPeerKeys
  | WrongSequence "64 word" "64 word" | PersistSelf | PersistPin | BadEventSignature pod_id
  | ErrKeyMismatch | ErrForkedHistory | PersistWitnessed

definition SignEvent :: "crypto \<Rightarrow> event_codec \<Rightarrow> LedgerEvent \<Rightarrow> bytes \<Rightarrow> bytes \<Rightarrow> fed_error + LedgerEvent" where
  "SignEvent C M e privateKey publicKey =
     (let e = e\<lparr> EvPublicKey := hexEncode publicKey, EvSignature := [] \<rparr>
      in case eventSignableBytes M e of
           None \<Rightarrow> Inl FedMarshal
         | Some payload \<Rightarrow>
             (case SignPayload C privateKey payload of
                None \<Rightarrow> Inl FedSign
              | Some sig \<Rightarrow> Inr (e\<lparr> EvSignature := hexEncode sig \<rparr>)))"

text \<open>None is the result \<open>ok = false\<close>.\<close>

definition VerifySelfConsistent :: "crypto \<Rightarrow> event_codec \<Rightarrow> LedgerEvent \<Rightarrow> bytes option" where
  "VerifySelfConsistent C M e =
     (if EvPublicKey e = [] \<or> EvSignature e = [] then None
      else case hexDecode (EvPublicKey e) of
          None \<Rightarrow> None
        | Some pub \<Rightarrow>
            (case hexDecode (EvSignature e) of
               None \<Rightarrow> None
             | Some sig \<Rightarrow>
                 (case eventSignableBytes M e of
                    None \<Rightarrow> None
                  | Some payload \<Rightarrow> if \<not> VerifySignature C pub payload sig then None else Some pub)))"

section \<open>The store\<close>

text \<open>A row of the table of own events has no pod id column.\<close>

record self_row =
  RowSequence :: "64 word"
  RowType :: string
  RowUserID :: user_id
  RowAmount :: f64
  RowIssuedAt :: string
  RowPublicKey :: string
  RowSignature :: string

record fed_tables =
  selfTable :: "self_row list"
  witnessedTable :: "LedgerEvent list"
  keyRows :: "pod_id \<rightharpoonup> string"

definition migrateSchema :: fed_tables where
  "migrateSchema = \<lparr> selfTable = [], witnessedTable = [], keyRows = Map.empty \<rparr>"

text \<open>\<open>witnessed\<close> gives the empty slice for a pod that is not in the map.\<close>

record fed_store =
  fedDb :: "fed_tables option"
  selfEvents :: "LedgerEvent list"
  nextSeq :: "64 word"
  peerKeys :: "pod_id \<rightharpoonup> string"
  witnessed :: "pod_id \<Rightarrow> LedgerEvent list"

definition emptyStore :: fed_store where
  "emptyStore = \<lparr> fedDb = None, selfEvents = [], nextSeq = 1, peerKeys = Map.empty, witnessed = (\<lambda>p. []) \<rparr>"

definition selfRow :: "LedgerEvent \<Rightarrow> self_row" where
  "selfRow e = \<lparr> RowSequence = EvSequence e, RowType = EvType e, RowUserID = EvUserID e, RowAmount = EvAmount e,
     RowIssuedAt = EvIssuedAt e, RowPublicKey = EvPublicKey e, RowSignature = EvSignature e \<rparr>"

definition scanSelfRow :: "self_row \<Rightarrow> LedgerEvent" where
  "scanSelfRow r = \<lparr> EvPodID = [], EvSequence = RowSequence r, EvType = RowType r, EvUserID = RowUserID r,
     EvAmount = RowAmount r, EvIssuedAt = RowIssuedAt r, EvPublicKey = RowPublicKey r, EvSignature = RowSignature r \<rparr>"

text \<open>
  \<open>loadFromDB\<close> on the tables; \<open>fault\<close> is the first failing query or scan. The queries order
  the rows by sequence number, the keys by nothing.
\<close>

definition loadEvents :: "fed_error option \<Rightarrow> fed_store \<Rightarrow> fed_error + fed_store" where
  "loadEvents fault s = (case fault of
       Some e \<Rightarrow> Inl e
     | None \<Rightarrow> (case fedDb s of
           None \<Rightarrow> Inr s
         | Some t \<Rightarrow>
             let selfs = map scanSelfRow (sort_key (unat \<circ> RowSequence) (selfTable t))
             in Inr (s\<lparr> selfEvents := selfs,
                  nextSeq := fold (\<lambda>e n. if EvSequence e \<ge> n then EvSequence e + 1 else n) selfs (nextSeq s),
                  witnessed := (\<lambda>p. filter (\<lambda>e. EvPodID e = p) (sort_key (unat \<circ> EvSequence) (witnessedTable t))),
                  peerKeys := keyRows t \<rparr>)))"

text \<open>The argument \<open>tables\<close> is the database file, None for an empty path.\<close>

definition NewStore :: "fed_error option \<Rightarrow> fed_tables option \<Rightarrow> fed_error + fed_store" where
  "NewStore fault tables = (case tables of
       None \<Rightarrow> Inr emptyStore
     | Some t \<Rightarrow> loadEvents fault (emptyStore\<lparr> fedDb := Some t \<rparr>))"

definition NextSequence :: "fed_store \<Rightarrow> 64 word" where "NextSequence s = nextSeq s"

text \<open>The sequence number is the primary key of the table.\<close>

definition AppendSelfEvent :: "bool \<Rightarrow> LedgerEvent \<Rightarrow> fed_store \<Rightarrow> fed_error option \<times> fed_store" where
  "AppendSelfEvent ok evt s =
     (if EvSequence evt \<noteq> nextSeq s then (Some (WrongSequence (nextSeq s) (EvSequence evt)), s)
      else let s' = s\<lparr> selfEvents := selfEvents s @ [evt], nextSeq := nextSeq s + 1 \<rparr>
           in case fedDb s of
               None \<Rightarrow> (None, s')
             | Some t \<Rightarrow>
                 if \<not> ok \<or> list_ex (\<lambda>r. RowSequence r = EvSequence evt) (selfTable t) then (Some PersistSelf, s)
                 else (None, s'\<lparr> fedDb := Some (t\<lparr> selfTable := selfTable t @ [selfRow evt] \<rparr>) \<rparr>))"

definition SelfEventsSince :: "64 word \<Rightarrow> fed_store \<Rightarrow> LedgerEvent list" where
  "SelfEventsSince since s = filter (\<lambda>e. EvSequence e > since) (selfEvents s)"

definition PinnedPeerKey :: "pod_id \<Rightarrow> fed_store \<Rightarrow> string option" where
  "PinnedPeerKey podID s = peerKeys s podID"

definition pinPeerKeyLocked :: "bool \<Rightarrow> pod_id \<Rightarrow> string \<Rightarrow> fed_store \<Rightarrow> fed_error option \<times> fed_store" where
  "pinPeerKeyLocked ok podID pubKeyHex s = (case fedDb s of
       None \<Rightarrow> (None, s\<lparr> peerKeys := (peerKeys s)(podID \<mapsto> pubKeyHex) \<rparr>)
     | Some t \<Rightarrow>
         if \<not> ok \<or> keyRows t podID \<noteq> None then (Some PersistPin, s)
         else (None, s\<lparr> fedDb := Some (t\<lparr> keyRows := (keyRows t)(podID \<mapsto> pubKeyHex) \<rparr>),
                        peerKeys := (peerKeys s)(podID \<mapsto> pubKeyHex) \<rparr>))"

text \<open>The part of \<open>StoreWitnessedEvent\<close> after the key check.\<close>

definition insertWitnessed :: "bool \<Rightarrow> LedgerEvent \<Rightarrow> fed_store \<Rightarrow> fed_error option \<times> fed_store" where
  "insertWitnessed ok evt s = (case find (\<lambda>e. EvSequence e = EvSequence evt) (witnessed s (EvPodID evt)) of
       Some existing \<Rightarrow> (if EvSignature existing = EvSignature evt then None else Some ErrForkedHistory, s)
     | None \<Rightarrow>
         let s' = s\<lparr> witnessed := (witnessed s)(EvPodID evt := witnessed s (EvPodID evt) @ [evt]) \<rparr>
         in case fedDb s of
              None \<Rightarrow> (None, s')
            | Some t \<Rightarrow>
                if \<not> ok \<or> list_ex (\<lambda>e. EvPodID e = EvPodID evt \<and> EvSequence e = EvSequence evt) (witnessedTable t)
                then (Some PersistWitnessed, s)
                else (None, s'\<lparr> fedDb := Some (t\<lparr> witnessedTable := witnessedTable t @ [evt] \<rparr>) \<rparr>))"

text \<open>\<open>sql 0\<close> is the outcome of the insertion of the key, \<open>sql 1\<close> that of the event.\<close>

definition StoreWitnessedEvent :: "crypto \<Rightarrow> event_codec \<Rightarrow> (nat \<Rightarrow> bool) \<Rightarrow> LedgerEvent \<Rightarrow> fed_store \<Rightarrow>
    fed_error option \<times> fed_store" where
  "StoreWitnessedEvent C M sql evt s = (case VerifySelfConsistent C M evt of
       None \<Rightarrow> (Some (BadEventSignature (EvPodID evt)), s)
     | Some pub \<Rightarrow>
         (case peerKeys s (EvPodID evt) of
            Some pinned \<Rightarrow> if pinned \<noteq> EvPublicKey evt then (Some ErrKeyMismatch, s) else insertWitnessed (sql 1) evt s
          | None \<Rightarrow>
              (case pinPeerKeyLocked (sql 0) (EvPodID evt) (EvPublicKey evt) s of
                 (Some e, s) \<Rightarrow> (Some e, s)
               | (None, s) \<Rightarrow> insertWitnessed (sql 1) evt s)))"

definition WitnessedHighWatermark :: "pod_id \<Rightarrow> fed_store \<Rightarrow> 64 word" where
  "WitnessedHighWatermark podID s = fold (\<lambda>e m. if EvSequence e > m then EvSequence e else m) (witnessed s podID) 0"

definition WitnessedGrossCredits :: "pod_id \<Rightarrow> user_id \<Rightarrow> fed_store \<Rightarrow> f64" where
  "WitnessedGrossCredits podID userID s =
     fold (\<lambda>e total. if EvUserID e = userID then fadd total (EvAmount e) else total) (witnessed s podID) 0"

section \<open>Witnessing the own credits\<close>

text \<open>
  The credit callback of \<open>cmd/coordinator/main.go\<close> reads the next sequence number, signs and
  appends in three steps; \<open>rfc\<close> formats the time.
\<close>

definition creditEventOf :: "(time \<Rightarrow> string) \<Rightarrow> pod_id \<Rightarrow> 64 word \<Rightarrow> CreditEntry \<Rightarrow> LedgerEvent" where
  "creditEventOf rfc podID n entry =
     \<lparr> EvPodID = podID, EvSequence = n,
       EvType = (if Origin entry = CreditOriginStartupGrant then EventStartupGrant else EventEarnedContrib),
       EvUserID = UserID entry, EvAmount = Amount entry, EvIssuedAt = rfc (GrantedOrEarnedAt entry),
       EvPublicKey = [], EvSignature = [] \<rparr>"

definition appendCredit :: "crypto \<Rightarrow> event_codec \<Rightarrow> (time \<Rightarrow> string) \<Rightarrow> bytes \<Rightarrow> bytes \<Rightarrow> pod_id \<Rightarrow> bool \<Rightarrow> 64 word \<Rightarrow>
    CreditEntry \<Rightarrow> fed_store \<Rightarrow> fed_store" where
  "appendCredit C M rfc priv pub podID ok n entry s = (case SignEvent C M (creditEventOf rfc podID n entry) priv pub of
       Inl e \<Rightarrow> s
     | Inr evt \<Rightarrow> snd (AppendSelfEvent ok evt s))"

definition onCreditCallback :: "crypto \<Rightarrow> event_codec \<Rightarrow> (time \<Rightarrow> string) \<Rightarrow> bytes \<Rightarrow> bytes \<Rightarrow> pod_id \<Rightarrow> bool \<Rightarrow>
    CreditEntry \<Rightarrow> fed_store \<Rightarrow> fed_store" where
  "onCreditCallback C M rfc priv pub podID ok entry s = appendCredit C M rfc priv pub podID ok (NextSequence s) entry s"

section \<open>Pulling from peers\<close>

text \<open>
  What a GET to a peer ends with: no request or no response, a status, a body that decodes
  or not.
\<close>

datatype 'a http_get = GetFailed | GetStatus int "'a option"

datatype client_error = RequestFailed | PeerStatus int | ParseResponse

definition fetchJson :: "'a http_get \<Rightarrow> client_error + 'a" where
  "fetchJson g = (case g of
       GetFailed \<Rightarrow> Inl RequestFailed
     | GetStatus status body \<Rightarrow>
         if status \<ge> 400 then Inl (PeerStatus status)
         else case body of None \<Rightarrow> Inl ParseResponse | Some a \<Rightarrow> Inr a)"

record IdentityResponse =
  IdentPodID :: pod_id
  IdentPublicKey :: string

definition FetchIdentity :: "IdentityResponse http_get \<Rightarrow> client_error + IdentityResponse" where
  "FetchIdentity g = fetchJson g"

text \<open>The answer depends on the sequence number asked for.\<close>

definition FetchEventsSince :: "(64 word \<Rightarrow> LedgerEvent list http_get) \<Rightarrow> 64 word \<Rightarrow> client_error + LedgerEvent list" where
  "FetchEventsSince answer since = fetchJson (answer since)"

definition FetchBalance :: "Balance http_get \<Rightarrow> client_error + Balance" where
  "FetchBalance g = fetchJson g"

text \<open>Storing a batch; the rejected events are listed with their errors.\<close>

fun storeBatch :: "crypto \<Rightarrow> event_codec \<Rightarrow> (nat \<Rightarrow> nat \<Rightarrow> bool) \<Rightarrow> nat \<Rightarrow> LedgerEvent list \<Rightarrow> fed_store \<Rightarrow>
    (64 word \<times> fed_error) list \<times> fed_store" where
  "storeBatch C M sql k [] s = ([], s)"
| "storeBatch C M sql k (evt # evts) s =
     (let (err, s1) = StoreWitnessedEvent C M (sql k) evt s; (rejected, s2) = storeBatch C M sql (Suc k) evts s1
      in (case err of None \<Rightarrow> rejected | Some e \<Rightarrow> (EvSequence evt, e) # rejected, s2))"

text \<open>
  One poll: the directories are asked in order for the topology until one answers (its status
  is not looked at), then every listed peer is pulled.
\<close>

fun fetchTopology :: "PodHealthDigest list http_get list \<Rightarrow> PodHealthDigest list option" where
  "fetchTopology [] = None"
| "fetchTopology (GetStatus status (Some pods) # gs) = Some pods"
| "fetchTopology (g # gs) = fetchTopology gs"

fun pullPeers :: "crypto \<Rightarrow> event_codec \<Rightarrow> (nat \<Rightarrow> nat \<Rightarrow> nat \<Rightarrow> bool) \<Rightarrow> (nat \<Rightarrow> 64 word \<Rightarrow> LedgerEvent list http_get) \<Rightarrow>
    pod_id \<Rightarrow> nat \<Rightarrow> PodHealthDigest list \<Rightarrow> fed_store \<Rightarrow> fed_store" where
  "pullPeers C M sql answers selfPodID i [] s = s"
| "pullPeers C M sql answers selfPodID i (pod # pods) s =
     pullPeers C M sql answers selfPodID (Suc i) pods
       (if PodID pod = selfPodID \<or> CoordinatorEndpoint pod = [] then s
        else case FetchEventsSince (answers i) (WitnessedHighWatermark (PodID pod) s) of
            Inl e \<Rightarrow> s
          | Inr events \<Rightarrow> snd (storeBatch C M (sql i) 0 events s))"

definition pollFederationPeers :: "crypto \<Rightarrow> event_codec \<Rightarrow> (nat \<Rightarrow> nat \<Rightarrow> nat \<Rightarrow> bool) \<Rightarrow> PodHealthDigest list http_get list \<Rightarrow>
    (nat \<Rightarrow> 64 word \<Rightarrow> LedgerEvent list http_get) \<Rightarrow> pod_id \<Rightarrow> fed_store \<Rightarrow> fed_store" where
  "pollFederationPeers C M sql topologies answers selfPodID s = (case fetchTopology topologies of
       None \<Rightarrow> s
     | Some pods \<Rightarrow> pullPeers C M sql answers selfPodID 0 pods s)"

section \<open>Histories\<close>

text \<open>
  What can happen to a store: an event is witnessed, an own credit is appended under a number
  drawn before, the coordinator restarts. The configuration is the pod's identity.
\<close>

record pod_identity =
  idCrypto :: crypto
  idCodec :: event_codec
  idFormat :: "time \<Rightarrow> string"
  idPrivate :: bytes
  idPublic :: bytes
  idPod :: pod_id

datatype fed_event = WitnessEv "nat \<Rightarrow> bool" LedgerEvent | OwnEv bool "64 word" CreditEntry | RestartEv

fun fed_step :: "pod_identity \<Rightarrow> fed_event \<Rightarrow> fed_store \<Rightarrow> fed_store" where
  "fed_step I (WitnessEv sql evt) s = snd (StoreWitnessedEvent (idCrypto I) (idCodec I) sql evt s)"
| "fed_step I (OwnEv ok n entry) s =
     appendCredit (idCrypto I) (idCodec I) (idFormat I) (idPrivate I) (idPublic I) (idPod I) ok n entry s"
| "fed_step I RestartEv s = (case NewStore None (fedDb s) of Inl e \<Rightarrow> s | Inr s' \<Rightarrow> s')"

definition fed_run :: "pod_identity \<Rightarrow> fed_event list \<Rightarrow> fed_store \<Rightarrow> fed_store" where
  "fed_run I evs s = fold (fed_step I) evs s"

definition freshStore :: "bool \<Rightarrow> fed_store" where
  "freshStore persistent = emptyStore\<lparr> fedDb := (if persistent then Some migrateSchema else None) \<rparr>"

text \<open>
  The witnessed part of a store: every event is of its pod, signed by the pinned key and the
  only one of its number; a database holds the same.
\<close>

definition witness_ok :: "crypto \<Rightarrow> event_codec \<Rightarrow> fed_store \<Rightarrow> bool" where
  "witness_ok C M s \<longleftrightarrow>
     (\<forall>p. distinct (map EvSequence (witnessed s p)) \<and>
       (\<forall>e \<in> set (witnessed s p). EvPodID e = p \<and> VerifySelfConsistent C M e \<noteq> None \<and> peerKeys s p = Some (EvPublicKey e))) \<and>
     (\<forall>t. fedDb s = Some t \<longrightarrow> keyRows t = peerKeys s \<and>
       (\<forall>p. mset (filter (\<lambda>e. EvPodID e = p) (witnessedTable t)) = mset (witnessed s p)))"

definition witness_grows :: "fed_store \<Rightarrow> fed_store \<Rightarrow> bool" where
  "witness_grows s s' \<longleftrightarrow> peerKeys s \<subseteq>\<^sub>m peerKeys s' \<and> (\<forall>p. set (witnessed s p) \<subseteq> set (witnessed s' p))"

lemma witness_grows_refl [simp]: "witness_grows s s" by (simp add: witness_grows_def)

lemma witness_grows_trans: "witness_grows s t \<Longrightarrow> witness_grows t u \<Longrightarrow> witness_grows s u"
  unfolding witness_grows_def by (meson map_le_trans subset_trans)

lemma witness_ok_fresh: "witness_ok C M (freshStore b)"
  by (simp add: witness_ok_def freshStore_def emptyStore_def migrateSchema_def)

lemma pin_ok:
  assumes "witness_ok C M s" "peerKeys s p = None" "pinPeerKeyLocked ok p k s = (err, s')"
  shows "witness_ok C M s'" "witness_grows s s'" "err = None \<Longrightarrow> peerKeys s' p = Some k" "witnessed s' = witnessed s"
  using assms
  by (auto simp: pinPeerKeyLocked_def witness_ok_def witness_grows_def map_le_def split: option.splits if_splits)

lemma find_seq_None:
  "find (\<lambda>e. EvSequence e = n) es = None \<Longrightarrow> n \<notin> EvSequence ` set es"
  by (auto simp: find_None_iff)

lemma insertWitnessed_ok:
  assumes "witness_ok C M s" "peerKeys s (EvPodID evt) = Some (EvPublicKey evt)" "VerifySelfConsistent C M evt \<noteq> None"
    and "insertWitnessed ok evt s = (err, s')"
  shows "witness_ok C M s'" "witness_grows s s'"
proof -
  let ?s1 = "s\<lparr> witnessed := (witnessed s)(EvPodID evt := witnessed s (EvPodID evt) @ [evt]) \<rparr>"
  have cases: "s' = s \<or> (find (\<lambda>e. EvSequence e = EvSequence evt) (witnessed s (EvPodID evt)) = None \<and>
      (fedDb s = None \<and> s' = ?s1 \<or>
       (\<exists>t. fedDb s = Some t \<and> s' = ?s1\<lparr> fedDb := Some (t\<lparr> witnessedTable := witnessedTable t @ [evt] \<rparr>) \<rparr>)))"
    using assms(4) by (auto simp: insertWitnessed_def Let_def split: option.splits if_splits)
  then show "witness_grows s s'" by (auto simp: witness_grows_def)
  show "witness_ok C M s'"
  proof (cases "s' = s")
    case False
    then have n: "EvSequence evt \<notin> EvSequence ` set (witnessed s (EvPodID evt))" using cases find_seq_None by blast
    have "distinct (map EvSequence (witnessed s' p)) \<and>
        (\<forall>e \<in> set (witnessed s' p). EvPodID e = p \<and> VerifySelfConsistent C M e \<noteq> None \<and> peerKeys s' p = Some (EvPublicKey e))" for p
      using assms(1-3) cases False n by (cases "p = EvPodID evt") (auto simp: witness_ok_def)
    moreover have "keyRows t = peerKeys s' \<and>
        (\<forall>p. mset (filter (\<lambda>e. EvPodID e = p) (witnessedTable t)) = mset (witnessed s' p))" if "fedDb s' = Some t" for t
      using assms(1) cases False that by (auto simp: witness_ok_def)
    ultimately show ?thesis by (simp add: witness_ok_def)
  qed (use assms(1) in simp)
qed

lemma StoreWitnessedEvent_ok:
  assumes "witness_ok C M s" "StoreWitnessedEvent C M sql evt s = (err, s')"
  shows "witness_ok C M s' \<and> witness_grows s s'"
proof (cases "VerifySelfConsistent C M evt")
  case None
  then show ?thesis using assms by (simp add: StoreWitnessedEvent_def)
next
  case (Some pub)
  show ?thesis
  proof (cases "peerKeys s (EvPodID evt)")
    case (Some pinned)
    show ?thesis
    proof (cases "pinned = EvPublicKey evt")
      case True
      then show ?thesis
        using insertWitnessed_ok[OF assms(1), of evt "sql 1" err s'] assms(2) Some \<open>VerifySelfConsistent C M evt = _\<close>
        by (simp add: StoreWitnessedEvent_def)
    next
      case False
      then show ?thesis using assms Some \<open>VerifySelfConsistent C M evt = _\<close> by (simp add: StoreWitnessedEvent_def)
    qed
  next
    case None
    obtain e1 s1 where p: "pinPeerKeyLocked (sql 0) (EvPodID evt) (EvPublicKey evt) s = (e1, s1)"
      by (cases "pinPeerKeyLocked (sql 0) (EvPodID evt) (EvPublicKey evt) s")
    note pin = pin_ok[OF assms(1) None p]
    show ?thesis
    proof (cases e1)
      case None
      then have "insertWitnessed (sql 1) evt s1 = (err, s')"
        using assms(2) p \<open>peerKeys s (EvPodID evt) = None\<close> Some by (simp add: StoreWitnessedEvent_def)
      from insertWitnessed_ok[OF pin(1) pin(3)[OF None] _ this] pin(2) show ?thesis
        using Some witness_grows_trans by auto
    next
      case (Some e)
      then show ?thesis
        using assms(2) p \<open>peerKeys s (EvPodID evt) = None\<close> \<open>VerifySelfConsistent C M evt = _\<close> pin(1,2)
        by (simp add: StoreWitnessedEvent_def)
    qed
  qed
qed

lemma appendCredit_witness:
  "witnessed (appendCredit C M rfc priv pub pod ok n entry s) = witnessed s"
  "peerKeys (appendCredit C M rfc priv pub pod ok n entry s) = peerKeys s"
  "witness_ok C M s \<Longrightarrow> witness_ok C M (appendCredit C M rfc priv pub pod ok n entry s)"
  by (auto simp: appendCredit_def AppendSelfEvent_def Let_def witness_ok_def split: sum.splits option.splits)

lemma restart_witness:
  assumes "witness_ok C M s" "fedDb s = Some t" "NewStore None (fedDb s) = Inr s'"
  shows "witness_ok C M s'" "witness_grows s s'"
proof -
  have w: "mset (witnessed s' p) = mset (witnessed s p)" "peerKeys s' = peerKeys s" "fedDb s' = fedDb s" for p
    using assms by (auto simp: NewStore_def loadEvents_def Let_def witness_ok_def filter_sort[symmetric])
  then have st: "set (witnessed s' p) = set (witnessed s p)" for p by (metis mset_eq_setD)
  have "distinct (map EvSequence (witnessed s' p))" for p
  proof -
    have "distinct (map EvSequence (witnessed s p))" using assms(1) by (simp add: witness_ok_def)
    then show ?thesis using w(1)[of p] by (metis mset_eq_imp_distinct_iff mset_map)
  qed
  then show "witness_ok C M s'" using assms(1) w st by (simp add: witness_ok_def)
  show "witness_grows s s'" by (simp add: witness_grows_def st w(2))
qed

lemma fed_step_ok:
  assumes "witness_ok (idCrypto I) (idCodec I) s"
  shows "witness_ok (idCrypto I) (idCodec I) (fed_step I ev s)"
    "fedDb s \<noteq> None \<or> ev \<noteq> RestartEv \<Longrightarrow> witness_grows s (fed_step I ev s)"
    "fedDb (fed_step I ev s) = None \<longleftrightarrow> fedDb s = None"
proof (atomize (full), cases ev)
  case (WitnessEv sql evt)
  obtain err s' where r: "StoreWitnessedEvent (idCrypto I) (idCodec I) sql evt s = (err, s')"
    by (cases "StoreWitnessedEvent (idCrypto I) (idCodec I) sql evt s")
  have "fedDb s' = None \<longleftrightarrow> fedDb s = None"
    using r by (auto simp: StoreWitnessedEvent_def insertWitnessed_def pinPeerKeyLocked_def Let_def
        split: option.splits if_splits prod.splits)
  with StoreWitnessedEvent_ok[OF assms r] show "witness_ok (idCrypto I) (idCodec I) (fed_step I ev s) \<and>
    (fedDb s \<noteq> None \<or> ev \<noteq> RestartEv \<longrightarrow> witness_grows s (fed_step I ev s)) \<and> (fedDb (fed_step I ev s) = None) = (fedDb s = None)"
    by (simp add: WitnessEv r)
next
  case (OwnEv ok n entry)
  have "(fedDb (fed_step I ev s) = None) = (fedDb s = None)"
    by (auto simp: OwnEv appendCredit_def AppendSelfEvent_def Let_def split: sum.splits option.splits)
  then show "witness_ok (idCrypto I) (idCodec I) (fed_step I ev s) \<and>
    (fedDb s \<noteq> None \<or> ev \<noteq> RestartEv \<longrightarrow> witness_grows s (fed_step I ev s)) \<and> (fedDb (fed_step I ev s) = None) = (fedDb s = None)"
    using assms by (simp add: OwnEv appendCredit_witness witness_grows_def)
next
  case RestartEv
  show "witness_ok (idCrypto I) (idCodec I) (fed_step I ev s) \<and>
    (fedDb s \<noteq> None \<or> ev \<noteq> RestartEv \<longrightarrow> witness_grows s (fed_step I ev s)) \<and> (fedDb (fed_step I ev s) = None) = (fedDb s = None)"
  proof (cases "fedDb s")
    case None
    then show ?thesis using witness_ok_fresh[of _ _ False] by (simp add: RestartEv NewStore_def freshStore_def emptyStore_def)
  next
    case (Some t)
    obtain s' where r: "NewStore None (fedDb s) = Inr s'" by (simp add: Some NewStore_def loadEvents_def Let_def)
    have "fedDb s' = Some t" using r Some by (auto simp: NewStore_def loadEvents_def Let_def)
    then show ?thesis using restart_witness[OF assms Some r] Some by (simp add: RestartEv r[unfolded Some])
  qed
qed

lemma fed_run_ok:
  assumes "witness_ok (idCrypto I) (idCodec I) s"
  shows "witness_ok (idCrypto I) (idCodec I) (fed_run I evs s) \<and>
    (fedDb s \<noteq> None \<or> RestartEv \<notin> set evs \<longrightarrow> witness_grows s (fed_run I evs s))"
  using assms
proof (induction evs arbitrary: s)
  case (Cons ev evs)
  note step = fed_step_ok[OF Cons.prems, of ev]
  from Cons.IH[OF step(1)] step(2,3) show ?case
    by (auto simp: fed_run_def intro: witness_grows_trans)
qed (simp add: fed_run_def)

lemma fed_run_db:
  "witness_ok (idCrypto I) (idCodec I) s \<Longrightarrow> fedDb (fed_run I evs s) = None \<longleftrightarrow> fedDb s = None"
  by (induction evs arbitrary: s) (simp_all add: fed_run_def fed_step_ok)

lemma fedDb_fresh: "fedDb (fed_run I evs (freshStore persistent)) = None \<longleftrightarrow> \<not> persistent"
  by (simp add: fed_run_db[OF witness_ok_fresh]) (simp add: freshStore_def emptyStore_def)

text \<open>What a number that was witnessed before is met with.\<close>

lemma rewitnessed:
  assumes "witness_ok C M s" "e \<in> set (witnessed s (EvPodID evt))" "EvSequence evt = EvSequence e"
    "VerifySelfConsistent C M evt \<noteq> None"
  shows "StoreWitnessedEvent C M sql evt s =
    (if EvPublicKey evt \<noteq> EvPublicKey e then Some ErrKeyMismatch
     else if EvSignature evt \<noteq> EvSignature e then Some ErrForkedHistory else None, s)"
proof -
  have d: "distinct (map EvSequence (witnessed s (EvPodID evt)))" using assms(1) unfolding witness_ok_def by blast
  have k: "peerKeys s (EvPodID evt) = Some (EvPublicKey e)" using assms(1,2) unfolding witness_ok_def by blast
  have "find (\<lambda>x. EvSequence x = EvSequence evt) (witnessed s (EvPodID evt)) \<noteq> None"
    unfolding find_None_all using assms(2,3) by auto
  then obtain x where x: "find (\<lambda>x. EvSequence x = EvSequence evt) (witnessed s (EvPodID evt)) = Some x" by blast
  note x' = find_Some_mem[OF x]
  have "inj_on EvSequence (set (witnessed s (EvPodID evt)))" using d by (simp add: distinct_map)
  then have "x = e" by (rule inj_onD) (use x' assms(2,3) in simp_all)
  obtain pub where "VerifySelfConsistent C M evt = Some pub" using assms(4) by blast
  then show ?thesis using k x \<open>x = e\<close> by (simp add: StoreWitnessedEvent_def insertWitnessed_def)
qed

section \<open>The own history\<close>

text \<open>An honest identity: its signatures verify, only for what was signed, and encodings differ.\<close>

definition honest_identity :: "pod_identity \<Rightarrow> bool" where
  "honest_identity I \<longleftrightarrow> length (idPublic I) = 32 \<and> length (idPrivate I) = 64 \<and>
     (\<forall>m. ed25519Sign (idCrypto I) (idPrivate I) m \<noteq> []) \<and>
     (\<forall>m m'. ed25519Verify (idCrypto I) (idPublic I) m (ed25519Sign (idCrypto I) (idPrivate I) m') \<longleftrightarrow> m = m') \<and>
     (\<forall>e e'. idCodec I e = idCodec I e' \<longrightarrow> idCodec I e = None \<or> e = e')"

definition own_event :: "pod_identity \<Rightarrow> LedgerEvent \<Rightarrow> bool" where
  "own_event I e \<longleftrightarrow> EvPodID e = idPod I \<and> EvPublicKey e = hexEncode (idPublic I) \<and>
     (\<exists>payload. eventSignableBytes (idCodec I) e = Some payload \<and>
        EvSignature e = hexEncode (ed25519Sign (idCrypto I) (idPrivate I) payload))"

text \<open>Contiguous numbers from one, own signed events, and the table in step.\<close>

definition self_ok :: "pod_identity \<Rightarrow> fed_store \<Rightarrow> bool" where
  "self_ok I s \<longleftrightarrow>
     map EvSequence (selfEvents s) = map of_nat [1..<Suc (length (selfEvents s))] \<and>
     nextSeq s = of_nat (Suc (length (selfEvents s))) \<and>
     (\<forall>e \<in> set (selfEvents s). own_event I e) \<and>
     (\<forall>t. fedDb s = Some t \<longrightarrow> selfTable t = map selfRow (selfEvents s))"

lemma SignEvent_own:
  assumes "SignEvent C M (creditEventOf rfc pod n entry) priv pub = Inr evt"
  shows "EvPodID evt = pod \<and> EvPublicKey evt = hexEncode pub \<and>
    (\<exists>payload. eventSignableBytes M evt = Some payload \<and> EvSignature evt = hexEncode (ed25519Sign C priv payload))"
  using assms
  by (auto simp: SignEvent_def SignPayload_def eventSignableBytes_def creditEventOf_def Let_def split: option.splits if_splits)

lemma own_event_verifies:
  assumes "honest_identity I" "own_event I e"
  shows "VerifySelfConsistent (idCrypto I) (idCodec I) e = Some (idPublic I)"
proof -
  obtain payload where e: "EvPublicKey e = hexEncode (idPublic I)" "eventSignableBytes (idCodec I) e = Some payload"
    "EvSignature e = hexEncode (ed25519Sign (idCrypto I) (idPrivate I) payload)"
    using assms(2) by (auto simp: own_event_def)
  have "idPublic I \<noteq> []" using assms(1) by (auto simp: honest_identity_def)
  then show ?thesis using assms(1) e by (simp add: VerifySelfConsistent_def honest_identity_def VerifySignature_def)
qed

lemma own_event_relabelled:
  assumes "honest_identity I" "own_event I e" "pod \<noteq> idPod I"
  shows "VerifySelfConsistent (idCrypto I) (idCodec I) (e\<lparr> EvPodID := pod \<rparr>) = None"
proof (rule ccontr)
  assume "VerifySelfConsistent (idCrypto I) (idCodec I) (e\<lparr> EvPodID := pod \<rparr>) \<noteq> None"
  then obtain q where q: "idCodec I (e\<lparr> EvPodID := pod, EvSignature := [] \<rparr>) = Some q"
    "idCodec I (e\<lparr> EvSignature := [] \<rparr>) = Some q"
    using assms(1,2)
    by (auto simp: VerifySelfConsistent_def own_event_def honest_identity_def VerifySignature_def eventSignableBytes_def
        split: if_splits option.splits)
  have "e\<lparr> EvPodID := pod, EvSignature := [] \<rparr> = e\<lparr> EvSignature := [] \<rparr>"
    using assms(1) q unfolding honest_identity_def by (metis option.distinct(1))
  then have "EvPodID (e\<lparr> EvPodID := pod, EvSignature := [] \<rparr>) = EvPodID (e\<lparr> EvSignature := [] \<rparr>)" by metis
  then show False using assms(2,3) by (simp add: own_event_def)
qed

lemma AppendSelfEvent_self:
  assumes "self_ok I s" "own_event I evt" "AppendSelfEvent ok evt s = (err, s')"
  shows "self_ok I s' \<and> length (selfEvents s') \<le> Suc (length (selfEvents s))"
proof (cases "s' = s")
  case False
  then have f: "EvSequence evt = nextSeq s" "selfEvents s' = selfEvents s @ [evt]" "nextSeq s' = nextSeq s + 1"
    "\<And>t'. fedDb s' = Some t' \<Longrightarrow> \<exists>t. fedDb s = Some t \<and> selfTable t' = selfTable t @ [selfRow evt]"
    using assms(3) by (auto simp: AppendSelfEvent_def Let_def split: if_splits option.splits)
  have "map EvSequence (selfEvents s') = map of_nat [1..<Suc (length (selfEvents s'))]"
    using assms(1) f(1,2) by (simp add: self_ok_def)
  moreover have "nextSeq s' = of_nat (Suc (length (selfEvents s')))" using assms(1) f(2,3) by (simp add: self_ok_def)
  moreover have "\<forall>e \<in> set (selfEvents s'). own_event I e" using assms(1,2) f(2) by (auto simp: self_ok_def)
  moreover have "\<forall>t. fedDb s' = Some t \<longrightarrow> selfTable t = map selfRow (selfEvents s')"
    using assms(1) f(2,4) by (fastforce simp: self_ok_def)
  ultimately show ?thesis using f(2) by (simp add: self_ok_def)
qed (use assms(1) in simp)

lemma StoreWitnessed_selfs:
  assumes "StoreWitnessedEvent C M sql evt s = (err, s')"
  shows "selfEvents s' = selfEvents s \<and> nextSeq s' = nextSeq s \<and>
    (fedDb s' = fedDb s \<or> (\<exists>t t'. fedDb s = Some t \<and> fedDb s' = Some t' \<and> selfTable t' = selfTable t))"
  using assms
  by (auto simp: StoreWitnessedEvent_def insertWitnessed_def pinPeerKeyLocked_def Let_def split: option.splits if_splits prod.splits)

lemma fed_step_self:
  assumes "self_ok I s" "ev \<noteq> RestartEv"
  shows "self_ok I (fed_step I ev s) \<and> length (selfEvents (fed_step I ev s)) \<le> Suc (length (selfEvents s))"
proof (cases ev)
  case (WitnessEv sql evt)
  obtain err s' where r: "StoreWitnessedEvent (idCrypto I) (idCodec I) sql evt s = (err, s')"
    by (cases "StoreWitnessedEvent (idCrypto I) (idCodec I) sql evt s")
  have "self_ok I s'" using StoreWitnessed_selfs[OF r] assms(1) unfolding self_ok_def by (elim conjE disjE) auto
  then show ?thesis using StoreWitnessed_selfs[OF r] by (simp add: WitnessEv r)
next
  case (OwnEv ok n entry)
  show ?thesis
  proof (cases "SignEvent (idCrypto I) (idCodec I) (creditEventOf (idFormat I) (idPod I) n entry) (idPrivate I) (idPublic I)")
    case (Inr evt)
    obtain err s' where r: "AppendSelfEvent ok evt s = (err, s')" by (cases "AppendSelfEvent ok evt s")
    have "own_event I evt" using SignEvent_own[OF Inr] by (simp add: own_event_def)
    from AppendSelfEvent_self[OF assms(1) this r] show ?thesis by (simp add: OwnEv appendCredit_def Inr r)
  qed (use assms in \<open>simp add: OwnEv appendCredit_def\<close>)
qed (use assms in simp)

lemma fed_run_self:
  assumes "RestartEv \<notin> set evs" "self_ok I s"
  shows "self_ok I (fed_run I evs s) \<and> length (selfEvents (fed_run I evs s)) \<le> length (selfEvents s) + length evs"
  using assms
proof (induction evs arbitrary: s)
  case (Cons ev evs)
  then have "self_ok I (fed_step I ev s)" "length (selfEvents (fed_step I ev s)) \<le> Suc (length (selfEvents s))"
    using fed_step_self by auto
  with Cons.IH[of "fed_step I ev s"] Cons.prems(1) show ?case by (simp add: fed_run_def)
qed (simp add: fed_run_def)

lemma self_ok_fresh: "self_ok I (freshStore b)"
  by (simp add: self_ok_def freshStore_def emptyStore_def migrateSchema_def)

text \<open>A restart reads the own events back in order, each without its pod id.\<close>

lemma restart_selfs:
  assumes "self_ok I s" "fedDb s = Some t" "length (selfEvents s) < 2 ^ 64" "NewStore None (fedDb s) = Inr s'"
  shows "selfEvents s' = map (\<lambda>e. e\<lparr> EvPodID := [] \<rparr>) (selfEvents s)"
proof -
  define n where "n = length (selfEvents s)"
  have small: "unat (of_nat i :: 64 word) = i" if "i \<in> set [1..<Suc n]" for i
  proof -
    have "i < 2 ^ LENGTH(64)" using that assms(3) unfolding n_def by auto
    then show ?thesis by (simp add: unat_of_nat take_bit_nat_eq_self)
  qed
  have "map EvSequence (selfEvents s) = map of_nat [1..<Suc n]" using assms(1) unfolding self_ok_def n_def by blast
  then have "map unat (map EvSequence (selfEvents s)) = map (\<lambda>i. unat (of_nat i :: 64 word)) [1..<Suc n]"
    by (simp only: map_map comp_def)
  then have seqs: "map (unat \<circ> EvSequence) (selfEvents s) = [1..<Suc n]"
    by (simp only: map_map map_idI[OF small])
  have "sort_key (unat \<circ> RowSequence) (map selfRow (selfEvents s)) = map selfRow (selfEvents s)"
  proof (rule sort_key_id_if_sorted)
    have "map (unat \<circ> RowSequence) (map selfRow (selfEvents s)) = map (unat \<circ> EvSequence) (selfEvents s)"
      by (simp add: selfRow_def comp_def del: upt_Suc)
    then show "sorted (map (unat \<circ> RowSequence) (map selfRow (selfEvents s)))" unfolding seqs by (simp only: sorted_upt)
  qed
  then have "sort_key (unat \<circ> RowSequence) (selfTable t) = map selfRow (selfEvents s)"
    using assms(1,2) by (simp add: self_ok_def)
  then have "selfEvents s' = map scanSelfRow (map selfRow (selfEvents s))"
    using assms(2,4) by (auto simp: NewStore_def loadEvents_def Let_def)
  then show ?thesis by (simp add: selfRow_def scanSelfRow_def comp_def)
qed

section \<open>Properties\<close>

text \<open>
  C31. Witnessed histories are sound. Over any history of witnessed events, own credits and (with
  a database) restarts, every witnessed event belongs to its pod, is signed by the key pinned
  for it and is the only one of its number; pins and events are never lost or changed; and an
  event that presents a number again is accepted silently when it is the same, and reported
  as a foreign key or as a forked history when it is not.
\<close>

theorem witnessed_history_sound:
  assumes "persistent \<or> RestartEv \<notin> set evs'"
    and s: "s = fed_run I evs (freshStore persistent)" and s': "s' = fed_run I evs' s"
  shows "(\<forall>p. distinct (map EvSequence (witnessed s' p)) \<and> (\<forall>e \<in> set (witnessed s' p). EvPodID e = p \<and>
        VerifySelfConsistent (idCrypto I) (idCodec I) e \<noteq> None \<and> PinnedPeerKey p s' = Some (EvPublicKey e))) \<and>
    peerKeys s \<subseteq>\<^sub>m peerKeys s' \<and> (\<forall>p. set (witnessed s p) \<subseteq> set (witnessed s' p)) \<and>
    (\<forall>sql evt e. e \<in> set (witnessed s (EvPodID evt)) \<and> EvSequence evt = EvSequence e \<and>
        VerifySelfConsistent (idCrypto I) (idCodec I) evt \<noteq> None \<longrightarrow>
      StoreWitnessedEvent (idCrypto I) (idCodec I) sql evt s' =
        (if EvPublicKey evt \<noteq> EvPublicKey e then Some ErrKeyMismatch
         else if EvSignature evt \<noteq> EvSignature e then Some ErrForkedHistory else None, s'))"
proof -
  have ok: "witness_ok (idCrypto I) (idCodec I) s" using fed_run_ok[OF witness_ok_fresh] s by simp
  have live: "fedDb s \<noteq> None \<or> RestartEv \<notin> set evs'" using assms(1) by (auto simp: s fedDb_fresh)
  have ok': "witness_ok (idCrypto I) (idCodec I) s'" and g: "witness_grows s s'"
    unfolding s' using fed_run_ok[OF ok, of evs'] live by blast+
  have again: "StoreWitnessedEvent (idCrypto I) (idCodec I) sql evt s' =
        (if EvPublicKey evt \<noteq> EvPublicKey e then Some ErrKeyMismatch
         else if EvSignature evt \<noteq> EvSignature e then Some ErrForkedHistory else None, s')"
    if a: "e \<in> set (witnessed s (EvPodID evt))" "EvSequence evt = EvSequence e"
      "VerifySelfConsistent (idCrypto I) (idCodec I) evt \<noteq> None" for sql evt e
    by (rule rewitnessed[OF ok' _ a(2,3)]) (use a(1) g in \<open>auto simp: witness_grows_def\<close>)
  have "\<forall>p. distinct (map EvSequence (witnessed s' p)) \<and> (\<forall>e \<in> set (witnessed s' p). EvPodID e = p \<and>
        VerifySelfConsistent (idCrypto I) (idCodec I) e \<noteq> None \<and> PinnedPeerKey p s' = Some (EvPublicKey e))"
    using ok' unfolding PinnedPeerKey_def witness_ok_def by blast
  moreover have "peerKeys s \<subseteq>\<^sub>m peerKeys s'" "\<forall>p. set (witnessed s p) \<subseteq> set (witnessed s' p)"
    using g by (simp_all add: witness_grows_def)
  ultimately show ?thesis using again by (intro conjI) (assumption, assumption, assumption, iprover)
qed

text \<open>A toy signature scheme: a signature is the message behind a tag byte.\<close>

definition tagCrypto :: crypto where
  "tagCrypto = \<lparr> sha256 = (\<lambda>x. x), ed25519Verify = (\<lambda>pk m s. s = 7 # m), ed25519Sign = (\<lambda>sk m. 7 # m),
     p256Verify = (\<lambda>pk m s. s = m), marshalManifest = (\<lambda>m. Some []), marshalRefresh = (\<lambda>m t. Some []),
     marshalClaim = (\<lambda>n t. Some []), marshalAttestation = (\<lambda>n k t. Some []), marshalDigest = (\<lambda>d. Some []) \<rparr>"

text \<open>Two events that differ in the pod id, and an identity that can encode just these.\<close>

definition sampleCredit :: CreditEntry where
  "sampleCredit = \<lparr> UserID = ''ann'', Origin = CreditOriginEarnedContrib, Amount = 3, GrantedOrEarnedAt = 5, SourceReference = [] \<rparr>"

definition sampleEvent :: "pod_id \<Rightarrow> LedgerEvent" where
  "sampleEvent pod = (creditEventOf (\<lambda>t. ''now'') pod 1 sampleCredit)\<lparr> EvPublicKey := hexEncode (replicate 32 9) \<rparr>"

definition samplePod :: pod_identity where
  "samplePod = \<lparr> idCrypto = tagCrypto,
     idCodec = (\<lambda>e. if e = sampleEvent ''pod-a'' then Some [1] else if e = sampleEvent [] then Some [2] else None),
     idFormat = (\<lambda>t. ''now''), idPrivate = replicate 64 8, idPublic = replicate 32 9, idPod = ''pod-a'' \<rparr>"

lemma samplePod_honest: "honest_identity samplePod"
  by (auto simp: honest_identity_def samplePod_def tagCrypto_def split: if_splits)

definition signedSample :: LedgerEvent where
  "signedSample = (sampleEvent ''pod-a'')\<lparr> EvSignature := hexEncode [7, 1] \<rparr>"

lemma sign_sample:
  "SignEvent (idCrypto samplePod) (idCodec samplePod) (creditEventOf (\<lambda>t. ''now'') ''pod-a'' 1 sampleCredit)
     (replicate 64 8) (replicate 32 9) = Inr signedSample"
  by (simp add: SignEvent_def eventSignableBytes_def SignPayload_def samplePod_def tagCrypto_def signedSample_def sampleEvent_def
      creditEventOf_def Let_def)

lemma verify_sample: "VerifySelfConsistent (idCrypto samplePod) (idCodec samplePod) signedSample = Some (replicate 32 9)"
  using own_event_verifies[OF samplePod_honest, of signedSample] SignEvent_own[OF sign_sample]
  by (simp add: own_event_def samplePod_def tagCrypto_def)

theorem witnessed_history_sound_witness:
  "StoreWitnessedEvent (idCrypto samplePod) (idCodec samplePod) (\<lambda>k. True) signedSample
     (fed_run samplePod [RestartEv] (fed_run samplePod [WitnessEv (\<lambda>k. True) signedSample] (freshStore True))) =
   (None, fed_run samplePod [RestartEv] (fed_run samplePod [WitnessEv (\<lambda>k. True) signedSample] (freshStore True)))"
proof -
  let ?s = "fed_run samplePod [WitnessEv (\<lambda>k. True) signedSample] (freshStore True)"
  have "EvPodID signedSample = ''pod-a''" by (simp add: signedSample_def sampleEvent_def creditEventOf_def)
  then have "signedSample \<in> set (witnessed ?s (EvPodID signedSample))"
    by (simp add: fed_run_def StoreWitnessedEvent_def verify_sample freshStore_def emptyStore_def migrateSchema_def
        pinPeerKeyLocked_def insertWitnessed_def)
  with witnessed_history_sound[OF _ refl refl, of True "[RestartEv]" samplePod "[WitnessEv (\<lambda>k. True) signedSample]"] verify_sample
  show ?thesis by (auto simp: simp del: fed_step.simps)
qed

text \<open>
  A restart silences a pod's past. However the credits of a pod interleave, its own history
  is numbered from one without gaps and every event of it verifies under the pod's key; but
  the table has no pod id, so that after a restart the pod serves the same events without it,
  and no peer accepts any of them, because their signatures cover the pod id.
\<close>

theorem restarted_history_rejected:
  assumes honest: "honest_identity I" and pod: "idPod I \<noteq> []"
    and evs: "RestartEv \<notin> set evs" "length evs < 2 ^ 64" and s: "s = fed_run I evs (freshStore True)"
    and s': "NewStore None (fedDb s) = Inr s'"
  shows "map EvSequence (selfEvents s) = map of_nat [1..<Suc (length (selfEvents s))] \<and>
    (\<forall>e \<in> set (selfEvents s). EvPodID e = idPod I \<and> VerifySelfConsistent (idCrypto I) (idCodec I) e = Some (idPublic I)) \<and>
    selfEvents s' = map (\<lambda>e. e\<lparr> EvPodID := [] \<rparr>) (selfEvents s) \<and>
    (\<forall>since sql peer. \<forall>e \<in> set (SelfEventsSince since s').
       StoreWitnessedEvent (idCrypto I) (idCodec I) sql e peer = (Some (BadEventSignature []), peer))"
proof -
  have ok: "self_ok I s" and len: "length (selfEvents s) \<le> length evs"
    using fed_run_self[OF evs(1) self_ok_fresh, of I True] by (simp_all add: s freshStore_def emptyStore_def)
  obtain t where t: "fedDb s = Some t" using fedDb_fresh[of I evs True] by (auto simp: s)
  have r: "selfEvents s' = map (\<lambda>e. e\<lparr> EvPodID := [] \<rparr>) (selfEvents s)"
    by (rule restart_selfs[OF ok t _ s']) (use len evs(2) in linarith)
  have own: "own_event I e" if "e \<in> set (selfEvents s)" for e using ok that by (simp add: self_ok_def)
  have "StoreWitnessedEvent (idCrypto I) (idCodec I) sql e peer = (Some (BadEventSignature []), peer)"
    if e: "e \<in> set (SelfEventsSince since s')" for since sql e peer
  proof -
    obtain e0 where e0: "e0 \<in> set (selfEvents s)" "e = e0\<lparr> EvPodID := [] \<rparr>"
      using e r by (auto simp: SelfEventsSince_def)
    from own_event_relabelled[OF honest own[OF e0(1)]] pod e0(2) show ?thesis by (simp add: StoreWitnessedEvent_def)
  qed
  moreover have "map EvSequence (selfEvents s) = map of_nat [1..<Suc (length (selfEvents s))]"
    using ok unfolding self_ok_def by blast
  ultimately show ?thesis using r own own_event_verifies[OF honest own] by (auto simp: own_event_def)
qed

theorem restarted_history_rejected_witness:
  "\<exists>s'. NewStore None (fedDb (fed_run samplePod [OwnEv True 1 sampleCredit] (freshStore True))) = Inr s' \<and>
     selfEvents s' \<noteq> [] \<and> (\<forall>e \<in> set (SelfEventsSince 0 s').
       fst (StoreWitnessedEvent (idCrypto samplePod) (idCodec samplePod) (\<lambda>k. True) e emptyStore) = Some (BadEventSignature []))"
proof -
  let ?s = "fed_run samplePod [OwnEv True 1 sampleCredit] (freshStore True)"
  have f: "idFormat samplePod = (\<lambda>t. ''now'')" "idPod samplePod = ''pod-a''" "idPrivate samplePod = replicate 64 8"
    "idPublic samplePod = replicate 32 9" by (simp_all add: samplePod_def)
  have "?s = snd (AppendSelfEvent True signedSample (freshStore True))"
    unfolding fed_run_def fed_step.simps fold_simps appendCredit_def f sign_sample id_apply comp_def by simp
  then have s: "selfEvents ?s = [signedSample]" "fedDb ?s \<noteq> None"
    by (simp_all add: AppendSelfEvent_def freshStore_def emptyStore_def migrateSchema_def signedSample_def sampleEvent_def
        creditEventOf_def Let_def)
  then obtain s' where s': "NewStore None (fedDb ?s) = Inr s'" by (auto simp: NewStore_def loadEvents_def Let_def)
  from restarted_history_rejected[OF samplePod_honest _ _ _ refl s'] s(1) s' show ?thesis by (auto simp: f)
qed

end
