(* ===== verification/Deploy.thy ===== *)
theory Deploy
  imports Hints
begin

text \<open>
  The deployment tool: the log of deployments, the commands it sends and the evaluation of
  the health checks (\<open>internal/deploytool\<close>), and the subcommands that drive them
  (\<open>cmd/oim/deploy.go\<close>). A subcommand is a function from the effects performed so far to
  its outcome and the effects performed then; what the target answers may depend on all of
  them. Printing is left out.
\<close>

section \<open>The log\<close>

record DeployRecord =
  RecTimestamp :: time
  DeployAction :: string
  GitCommit :: string
  RecImageTag :: string
  Component :: string
  RecDeployedBy :: string
  HealthyAfter :: "bool option"

type_synonym History = "DeployRecord list"

datatype file_read = NoFile | ReadError | Contents string

datatype history_error = CannotRead | CannotParse | CannotMarshal | CannotWrite

definition LoadHistory :: "(string \<Rightarrow> History option) \<Rightarrow> file_read \<Rightarrow> history_error + History" where
  "LoadHistory decode file = (case file of
       NoFile \<Rightarrow> Inr []
     | ReadError \<Rightarrow> Inl CannotRead
     | Contents s \<Rightarrow> (case decode s of None \<Rightarrow> Inl CannotParse | Some h \<Rightarrow> Inr h))"

definition AppendRecord :: "DeployRecord \<Rightarrow> History \<Rightarrow> History" where
  "AppendRecord r h = h @ [r]"

text \<open>The contents of the file after \<open>Save\<close>; the write may fail.\<close>

definition Save :: "(History \<Rightarrow> string option) \<Rightarrow> bool \<Rightarrow> History \<Rightarrow> file_read \<Rightarrow> history_error option \<times> file_read" where
  "Save encode ok h file = (case encode h of
       None \<Rightarrow> (Some CannotMarshal, file)
     | Some s \<Rightarrow> if ok then (None, Contents s) else (Some CannotWrite, file))"

definition Latest :: "History \<Rightarrow> DeployRecord option" where
  "Latest h = (if h = [] then None else Some (h ! (length h - 1)))"

definition proven :: "DeployRecord \<Rightarrow> bool" where
  "proven r \<longleftrightarrow> DeployAction r = ''deploy'' \<and> HealthyAfter r = Some True"

text \<open>The loop, at index \<open>i - 1\<close> and down.\<close>

fun rollbackLoop :: "History \<Rightarrow> nat \<Rightarrow> DeployRecord option" where
  "rollbackLoop h 0 = None"
| "rollbackLoop h (Suc i) = (if proven (h ! i) then Some (h ! i) else rollbackLoop h i)"

definition SelectRollbackTarget :: "History \<Rightarrow> DeployRecord option" where
  "SelectRollbackTarget h = rollbackLoop h (length h - 1)"

section \<open>Commands\<close>

definition RsyncPushArgs :: "string \<Rightarrow> string \<Rightarrow> string \<Rightarrow> string \<Rightarrow> string list" where
  "RsyncPushArgs sourceDir sshHost remoteDir sshKey =
     [''-az''] @ (if sshKey \<noteq> [] then [''-e'', ''ssh -i '' @ sshKey @ '' -o StrictHostKeyChecking=no''] else [])
     @ [''--include=go.mod'', ''--include=go.sum'', ''--include=Dockerfile'', ''--include=cmd/***'', ''--include=internal/***'',
        ''--include=tools/***'', ''--exclude=*'', sourceDir @ ''/'', sshHost @ '':'' @ remoteDir @ ''/'']"

definition RemoteBuildCommand :: "string \<Rightarrow> string \<Rightarrow> string" where
  "RemoteBuildCommand remoteDir imageTag =
     ''cd '' @ remoteDir @ '' && docker build -t mlxmesh:'' @ imageTag @ '' . && docker tag mlxmesh:'' @ imageTag
     @ '' mlxmesh:latest-deploy && docker tag mlxmesh:'' @ imageTag @ '' mlxmesh:latest''"

definition RemoteRetagCommand :: "string \<Rightarrow> string" where
  "RemoteRetagCommand imageTag = ''docker tag mlxmesh:'' @ imageTag @ '' mlxmesh:latest-deploy''"

definition RemoteImageExistsCommand :: "string \<Rightarrow> string" where
  "RemoteImageExistsCommand imageTag = ''docker image inspect mlxmesh:'' @ imageTag @ '' > /dev/null 2>&1''"

definition RemoteRedeployInfraCommand :: string where
  "RemoteRedeployInfraCommand = ''bash ~/redeploy-infra.sh''"

definition RemoteRefreshNodesCommand :: "int \<Rightarrow> int \<Rightarrow> string" where
  "RemoteRefreshNodesCommand start end' = ''python3 ~/refresh-nodes.py '' @ showInt start @ '' '' @ showInt end'"

definition RemoteContainerCountCommand :: string where
  "RemoteContainerCountCommand = ''docker ps -q | wc -l''"

definition ImageTag :: "(time \<Rightarrow> string) \<Rightarrow> string \<Rightarrow> time \<Rightarrow> string" where
  "ImageTag stamp gitCommit t = ''mlxmesh-'' @ gitCommit @ ''-'' @ stamp t"

definition DeployedBy :: "string \<Rightarrow> string option \<Rightarrow> string" where
  "DeployedBy user hostname =
     (if user = [] then ''unknown'' else user) @ ''@'' @
     (case hostname of None \<Rightarrow> ''unknown'' | Some h \<Rightarrow> if h = [] then ''unknown'' else h)"

section \<open>Golden signals\<close>

record GoldenSignalCheck =
  CheckName :: string
  CheckOK :: bool
  CheckDetail :: string

definition AllHealthy :: "GoldenSignalCheck list \<Rightarrow> bool" where
  "AllHealthy checks = (if length checks = 0 then False else list_all CheckOK checks)"

text \<open>\<open>ks\<close> is the order in which the map is walked.\<close>

definition EvaluateEndpointChecks :: "string list \<Rightarrow> (string \<rightharpoonup> int) \<Rightarrow> GoldenSignalCheck list" where
  "EvaluateEndpointChecks ks statuses = map (\<lambda>url. let code = (case statuses url of Some n \<Rightarrow> n | None \<Rightarrow> 0)
     in \<lparr> CheckName = url, CheckOK = (code = 200), CheckDetail = ''HTTP '' @ showInt code \<rparr>) ks"

definition EvaluateContainerCount :: "int \<Rightarrow> int \<Rightarrow> GoldenSignalCheck" where
  "EvaluateContainerCount actual expected =
     \<lparr> CheckName = ''container count'', CheckOK = (actual = expected),
       CheckDetail = showInt actual @ '' running, expected '' @ showInt expected \<rparr>"

definition EvaluateLedgerConsistency :: "string list \<Rightarrow> (string \<rightharpoonup> bool) \<Rightarrow> GoldenSignalCheck list" where
  "EvaluateLedgerConsistency ks consistentByPod = map (\<lambda>pod. let c = (consistentByPod pod = Some True)
     in \<lparr> CheckName = ''ledger consistent: '' @ pod, CheckOK = c, CheckDetail = ''oim_ledger_consistent='' @ (if c then ''true'' else ''false'') \<rparr>) ks"

section \<open>The target machine\<close>

text \<open>
  \<open>Exec argv stdin\<close> is a process that is run, here or over ssh, \<open>Get u\<close> a request of the
  health check. \<open>ouExec\<close> gives whether the process succeeds and what it prints, \<open>ouGet\<close> the
  status of the answer, None for a failed request, both after the effects so far.
\<close>

datatype effect = Exec "string list" string | Get string

record outside =
  ouExec :: "effect list \<Rightarrow> string list \<Rightarrow> string \<Rightarrow> bool \<times> string"
  ouGet :: "effect list \<Rightarrow> string \<Rightarrow> int option"
  ouCommit :: "string option"
  ouUser :: string
  ouHostname :: "string option"
  ouClock :: "nat \<Rightarrow> time"
  ouStamp :: "time \<Rightarrow> string"
  ouKeys :: "string list \<Rightarrow> string list"
  ouEncode :: "History \<Rightarrow> string option"
  ouDecode :: "string \<Rightarrow> History option"

record remoteRunner =
  sshHost :: string
  sshKey :: string
  dryRun :: bool

definition remoteHistoryPath :: string where "remoteHistoryPath = ''~/.oim-deployments.json''"

definition shellArgv :: "remoteRunner \<Rightarrow> string \<Rightarrow> string list" where
  "shellArgv r cmd =
     (if sshHost r = [] then [''sh'', ''-c'', cmd]
      else [''ssh''] @ (if sshKey r \<noteq> [] then [''-i'', sshKey r] else []) @ [sshHost r, cmd])"

definition execRemote :: "outside \<Rightarrow> remoteRunner \<Rightarrow> string \<Rightarrow> string \<Rightarrow> effect list \<Rightarrow> (bool \<times> string) \<times> effect list" where
  "execRemote U r cmd stdin t = (ouExec U t (shellArgv r cmd) stdin, t @ [Exec (shellArgv r cmd) stdin])"

definition runRemote :: "outside \<Rightarrow> remoteRunner \<Rightarrow> string \<Rightarrow> effect list \<Rightarrow> (bool \<times> string) \<times> effect list" where
  "runRemote U r cmd t = (if dryRun r then ((True, []), t) else execRemote U r cmd [] t)"

definition queryRemote :: "outside \<Rightarrow> remoteRunner \<Rightarrow> string \<Rightarrow> effect list \<Rightarrow> (bool \<times> string) \<times> effect list" where
  "queryRemote U r cmd t = execRemote U r cmd [] t"

definition writeRemoteFile :: "outside \<Rightarrow> remoteRunner \<Rightarrow> string \<Rightarrow> string \<Rightarrow> effect list \<Rightarrow> bool \<times> effect list" where
  "writeRemoteFile U r path contents t =
     (if dryRun r then (True, t)
      else case execRemote U r (''cat > '' @ path) contents t of ((ok, out), t) \<Rightarrow> (ok, t))"

definition historyQuery :: string where
  "historyQuery = ''cat '' @ remoteHistoryPath @ '' 2>/dev/null || true''"

definition fetchRemoteHistory :: "outside \<Rightarrow> remoteRunner \<Rightarrow> effect list \<Rightarrow> (history_error + History) \<times> effect list" where
  "fetchRemoteHistory U r t = (case queryRemote U r historyQuery t of
       ((ok, out), t) \<Rightarrow>
         (if \<not> ok then Inl CannotRead
          else let out = trimSpace out
               in if out = [] then Inr []
                  else case ouDecode U out of None \<Rightarrow> Inl CannotParse | Some h \<Rightarrow> Inr h, t))"

definition saveRemoteHistory :: "outside \<Rightarrow> remoteRunner \<Rightarrow> History \<Rightarrow> effect list \<Rightarrow> history_error option \<times> effect list" where
  "saveRemoteHistory U r h t = (case ouEncode U h of
       None \<Rightarrow> (Some CannotMarshal, t)
     | Some data \<Rightarrow> (case writeRemoteFile U r remoteHistoryPath data t of
         (ok, t) \<Rightarrow> (if ok then None else Some CannotWrite, t)))"

text \<open>\<open>strconv.Atoi\<close> with the error dropped: 0 for a malformed number, the nearest one out of range.\<close>

definition atoiValue :: "string \<Rightarrow> int" where
  "atoiValue s =
     (let neg = hasPrefix s ''-'';
          ds = (if hasPrefix s ''-'' \<or> hasPrefix s ''+'' then drop 1 s else s);
          n = fold (\<lambda>c n. 10 * n + int (digitValue c)) ds 0
      in if ds = [] \<or> \<not> list_all isDigit ds then 0
         else if neg then max (- n) (- (2 ^ 63)) else min n (2 ^ 63 - 1))"

fun probeEndpoints :: "outside \<Rightarrow> string list \<Rightarrow> (string \<rightharpoonup> int) \<Rightarrow> effect list \<Rightarrow> (string \<rightharpoonup> int) \<times> effect list" where
  "probeEndpoints U [] statuses t = (statuses, t)"
| "probeEndpoints U (u # us) statuses t =
     probeEndpoints U us (statuses(u \<mapsto> (case ouGet U t u of None \<Rightarrow> 0 | Some code \<Rightarrow> code))) (t @ [Get u])"

definition runGoldenSignals :: "outside \<Rightarrow> remoteRunner \<Rightarrow> string list \<Rightarrow> int \<Rightarrow> effect list \<Rightarrow>
    GoldenSignalCheck list \<times> effect list" where
  "runGoldenSignals U r endpoints expectedContainers t =
     (if dryRun r then ([], t)
      else case probeEndpoints U endpoints Map.empty t of
          (statuses, t) \<Rightarrow>
            let checks = EvaluateEndpointChecks (ouKeys U endpoints) statuses
            in if expectedContainers > 0
               then (case runRemote U r RemoteContainerCountCommand t of
                   ((ok, out), t) \<Rightarrow>
                     (checks @ [EvaluateContainerCount (if ok then atoiValue (trimSpace out) else - 1) expectedContainers], t))
               else (checks, t))"

definition gitShortSHA :: "outside \<Rightarrow> string" where
  "gitShortSHA U = (case ouCommit U of None \<Rightarrow> ''unknown'' | Some out \<Rightarrow> trimSpace out)"

section \<open>Subcommands\<close>

record deploy_flags =
  flHost :: string
  flKey :: string
  flSource :: string
  flRemoteDir :: string
  flComponent :: string
  flNodeStart :: int
  flNodeEnd :: int
  flContainers :: int
  flEndpoints :: "string list"
  flDryRun :: bool

datatype deploy_error = RsyncFailed | BuildFailed | InfraFailed | NodesFailed | RetagFailed | ImageGone string
  | NothingHealthy | HistoryUnreadable history_error | Unhealthy

definition runnerOf :: "deploy_flags \<Rightarrow> remoteRunner" where
  "runnerOf f = \<lparr> sshHost = flHost f, sshKey = flKey f, dryRun = flDryRun f \<rparr>"

text \<open>The step both \<open>push\<close> and \<open>rollback\<close> have: recreate the requested containers.\<close>

definition redeploy :: "outside \<Rightarrow> deploy_flags \<Rightarrow> effect list \<Rightarrow> deploy_error option \<times> effect list" where
  "redeploy U f t =
     (let r = runnerOf f;
          ((ok, _), t) = (if flComponent f \<in> {''all'', ''coordinator'', ''directory''}
                          then runRemote U r RemoteRedeployInfraCommand t else ((True, []), t))
      in if \<not> ok then (Some InfraFailed, t)
         else let ((ok, _), t) = (if flComponent f \<in> {''all'', ''node''}
                                  then runRemote U r (RemoteRefreshNodesCommand (flNodeStart f) (flNodeEnd f)) t
                                  else ((True, []), t))
              in (if \<not> ok then Some NodesFailed else None, t))"

definition syncSource :: "outside \<Rightarrow> deploy_flags \<Rightarrow> effect list \<Rightarrow> bool \<times> effect list" where
  "syncSource U f t =
     (if flDryRun f \<or> flHost f = [] then (True, t)
      else let argv = ''rsync'' # RsyncPushArgs (flSource f) (flHost f) (flRemoteDir f) (flKey f)
           in (fst (ouExec U t argv []), t @ [Exec argv []]))"

text \<open>The record is written before the health check and completed after it.\<close>

definition recordPush :: "outside \<Rightarrow> deploy_flags \<Rightarrow> string \<Rightarrow> string \<Rightarrow> effect list \<Rightarrow> deploy_error option \<times> effect list" where
  "recordPush U f commit tag t =
     (let r = runnerOf f;
          rec = \<lparr> RecTimestamp = ouClock U 1, DeployAction = ''deploy'', GitCommit = commit, RecImageTag = tag,
                  Component = flComponent f, RecDeployedBy = DeployedBy (ouUser U) (ouHostname U), HealthyAfter = None \<rparr>;
          (read, t) = fetchRemoteHistory U r t;
          hist = AppendRecord rec (case read of Inl e \<Rightarrow> [] | Inr h \<Rightarrow> h);
          (_, t) = saveRemoteHistory U r hist t;
          (report, t) = runGoldenSignals U r (flEndpoints f) (flContainers f) t
      in if flDryRun f then (None, t)
         else let ok = AllHealthy report;
                  hist = hist[length hist - 1 := (hist ! (length hist - 1))\<lparr> HealthyAfter := Some ok \<rparr>];
                  (_, t) = saveRemoteHistory U r hist t
              in (if ok then None else Some Unhealthy, t))"

definition deployPush :: "outside \<Rightarrow> deploy_flags \<Rightarrow> effect list \<Rightarrow> deploy_error option \<times> effect list" where
  "deployPush U f t =
     (let commit = gitShortSHA U;
          tag = ImageTag (ouStamp U) commit (ouClock U 0);
          (ok, t) = syncSource U f t
      in if \<not> ok then (Some RsyncFailed, t)
         else case runRemote U (runnerOf f) (RemoteBuildCommand (flRemoteDir f) tag) t of
             ((ok, out), t) \<Rightarrow>
               if \<not> ok then (Some BuildFailed, t)
               else case redeploy U f t of
                   (Some e, t) \<Rightarrow> (Some e, t)
                 | (None, t) \<Rightarrow> recordPush U f commit tag t)"

definition recordRollback :: "outside \<Rightarrow> deploy_flags \<Rightarrow> History \<Rightarrow> DeployRecord \<Rightarrow> effect list \<Rightarrow> deploy_error option \<times> effect list" where
  "recordRollback U f hist target t =
     (case runGoldenSignals U (runnerOf f) (flEndpoints f) (flContainers f) t of
        (report, t) \<Rightarrow>
          let healthy = AllHealthy report;
              hist = AppendRecord \<lparr> RecTimestamp = ouClock U 0, DeployAction = ''rollback'', GitCommit = GitCommit target,
                RecImageTag = RecImageTag target, Component = flComponent f,
                RecDeployedBy = DeployedBy (ouUser U) (ouHostname U), HealthyAfter = Some healthy \<rparr> hist
          in if flDryRun f then (None, t)
             else let (_, t) = saveRemoteHistory U (runnerOf f) hist t in (if healthy then None else Some Unhealthy, t))"

definition deployRollback :: "outside \<Rightarrow> deploy_flags \<Rightarrow> effect list \<Rightarrow> deploy_error option \<times> effect list" where
  "deployRollback U f t = (case fetchRemoteHistory U (runnerOf f) t of
       (Inl e, t) \<Rightarrow> (Some (HistoryUnreadable e), t)
     | (Inr hist, t) \<Rightarrow> (case SelectRollbackTarget hist of
         None \<Rightarrow> (Some NothingHealthy, t)
       | Some target \<Rightarrow> (case queryRemote U (runnerOf f) (RemoteImageExistsCommand (RecImageTag target)) t of
           ((ok, out), t) \<Rightarrow>
             if \<not> ok then (Some (ImageGone (RecImageTag target)), t)
             else case runRemote U (runnerOf f) (RemoteRetagCommand (RecImageTag target)) t of
                 ((ok, out), t) \<Rightarrow>
                   if \<not> ok then (Some RetagFailed, t)
                   else case redeploy U f t of
                       (Some e, t) \<Rightarrow> (Some e, t)
                     | (None, t) \<Rightarrow> recordRollback U f hist target t)))"

text \<open>The status line is the last record, the history the last \<open>limit\<close> of them.\<close>

definition deployStatus :: "outside \<Rightarrow> deploy_flags \<Rightarrow> effect list \<Rightarrow> (deploy_error option \<times> DeployRecord option) \<times> effect list" where
  "deployStatus U f t =
     (let r = (runnerOf f)\<lparr> dryRun := False \<rparr>;
          (report, t) = runGoldenSignals U r (flEndpoints f) (flContainers f) t;
          (read, t) = fetchRemoteHistory U r t
      in ((if AllHealthy report then None else Some Unhealthy, case read of Inl e \<Rightarrow> None | Inr h \<Rightarrow> Latest h), t))"

definition healthLabel :: "bool option \<Rightarrow> string" where
  "healthLabel h = (case h of None \<Rightarrow> ''unknown'' | Some ok \<Rightarrow> if ok then ''healthy'' else ''unhealthy'')"

definition deployHistory :: "outside \<Rightarrow> deploy_flags \<Rightarrow> int \<Rightarrow> effect list \<Rightarrow>
    (history_error + (DeployRecord \<times> string) list) \<times> effect list" where
  "deployHistory U f limit t = (case fetchRemoteHistory U ((runnerOf f)\<lparr> dryRun := False \<rparr>) t of
       (Inl e, t) \<Rightarrow> (Inl e, t)
     | (Inr h, t) \<Rightarrow>
         let shown = (if limit > 0 \<and> int (length h) > limit then drop (length h - nat limit) h else h)
         in (Inr (map (\<lambda>r. (r, healthLabel (HealthyAfter r))) shown), t))"

section \<open>Rollback targets\<close>

lemma rollbackLoop_find: "rollbackLoop h n = find proven (rev (map ((!) h) [0..<n]))"
  by (induction n) auto

lemma SelectRollbackTarget_find: "SelectRollbackTarget h = find proven (rev (butlast h))"
proof -
  have "map ((!) h) [0..<length h - 1] = take (length h - 1) h" by (auto intro: nth_equalityI)
  then show ?thesis by (simp add: SelectRollbackTarget_def rollbackLoop_find butlast_conv_take)
qed

lemma find_rev_last:
  assumes "find P (rev xs) = Some x"
  shows "\<exists>i < length xs. xs ! i = x \<and> P x \<and> (\<forall>j. i < j \<and> j < length xs \<longrightarrow> \<not> P (xs ! j))"
proof -
  obtain k where k: "k < length xs" "P (rev xs ! k)" "x = rev xs ! k" "\<forall>j < k. \<not> P (rev xs ! j)"
    using assms by (auto simp: find_Some_iff)
  have "\<not> P (xs ! j)" if "length xs - 1 - k < j" "j < length xs" for j
  proof -
    have "rev xs ! (length xs - 1 - j) = xs ! j" using that by (simp add: rev_nth)
    moreover have "length xs - 1 - j < k" using that k(1) by simp
    ultimately show ?thesis using k(4) by metis
  qed
  then show ?thesis using k by (intro exI[of _ "length xs - 1 - k"]) (auto simp: rev_nth)
qed

lemma SelectRollbackTarget_Some:
  assumes "SelectRollbackTarget h = Some x"
  shows "\<exists>i. i + 1 < length h \<and> h ! i = x \<and> proven x \<and> (\<forall>j. i < j \<and> j + 1 < length h \<longrightarrow> \<not> proven (h ! j))"
  using find_rev_last[OF assms[unfolded SelectRollbackTarget_find]] by (auto simp: nth_butlast less_diff_conv)

lemma SelectRollbackTarget_snoc: "SelectRollbackTarget (h @ [r]) = find proven (rev h)"
  by (simp add: SelectRollbackTarget_find)

section \<open>Effects\<close>

lemma shellArgv_inj [simp]: "shellArgv r a = shellArgv r b \<longleftrightarrow> a = b"
  by (simp add: shellArgv_def)

lemma last_shellArgv [simp]: "last (shellArgv r cmd) = cmd" "shellArgv r cmd \<noteq> []"
  by (simp_all add: shellArgv_def)

text \<open>An effect that tags an image, and one that neither does so nor writes the log.\<close>

definition activates :: "effect \<Rightarrow> bool" where
  "activates e = (case e of Exec argv x \<Rightarrow> argv \<noteq> [] \<and> hasPrefix (last argv) ''docker tag'' | Get u \<Rightarrow> False)"

definition quiet :: "remoteRunner \<Rightarrow> effect \<Rightarrow> bool" where
  "quiet r e \<longleftrightarrow> \<not> activates e \<and> (\<forall>x. e \<noteq> Exec (shellArgv r (''cat > '' @ remoteHistoryPath)) x)"

definition extends :: "remoteRunner \<Rightarrow> bool \<Rightarrow> effect list \<Rightarrow> effect list \<Rightarrow> bool" where
  "extends r dry t t' \<longleftrightarrow> (\<exists>u. t' = t @ u \<and> (dry \<longrightarrow> u = []) \<and> (\<forall>e \<in> set u. quiet r e))"

lemma extends_refl [simp]: "extends r dry t t" by (simp add: extends_def)

lemma extends_trans: "extends r dry t u \<Longrightarrow> extends r dry u v \<Longrightarrow> extends r dry t v"
  unfolding extends_def by fastforce

lemma extends_run:
  assumes "runRemote U r cmd t = (out, t')" "cmd \<noteq> ''cat > '' @ remoteHistoryPath" "\<not> hasPrefix cmd ''docker tag''"
  shows "extends r (dryRun r) t t'"
  using assms by (auto simp: runRemote_def execRemote_def extends_def quiet_def activates_def split: if_splits)

lemma extends_probe: "probeEndpoints U us st t = (st', t') \<Longrightarrow> extends r False t t'"
proof (induction us arbitrary: st t)
  case (Cons u us)
  have "extends r False t (t @ [Get u])" by (simp add: extends_def quiet_def activates_def)
  then show ?case using Cons extends_trans by fastforce
qed simp

lemma extends_signals:
  assumes "runGoldenSignals U r us n t = (rep, t')"
  shows "extends r (dryRun r) t t'"
proof (cases "dryRun r")
  case False
  obtain st t1 where p: "probeEndpoints U us Map.empty t = (st, t1)" by (cases "probeEndpoints U us Map.empty t")
  obtain ok out t2 where c: "runRemote U r RemoteContainerCountCommand t1 = ((ok, out), t2)"
    by (metis prod.exhaust_sel)
  have "extends r False t1 t2"
    using extends_run[OF c] False by (simp add: RemoteContainerCountCommand_def remoteHistoryPath_def hasPrefix_def)
  then have "extends r False t t1" "extends r False t t2" using extends_probe[OF p] extends_trans by blast+
  then show ?thesis using assms False p c by (auto simp: runGoldenSignals_def Let_def split: if_splits)
qed (use assms in \<open>simp add: runGoldenSignals_def\<close>)

lemma runnerOf_simps [simp]: "dryRun (runnerOf f) = flDryRun f" by (simp add: runnerOf_def)

lemma extends_redeploy:
  assumes "redeploy U f t = (e, t')"
  shows "extends (runnerOf f) (flDryRun f) t t'"
proof -
  obtain a x t1 where i: "(if flComponent f \<in> {''all'', ''coordinator'', ''directory''}
      then runRemote U (runnerOf f) RemoteRedeployInfraCommand t else ((True, []), t)) = ((a, x), t1)"
    by (metis prod.exhaust_sel)
  obtain b y t2 where n: "(if flComponent f \<in> {''all'', ''node''}
      then runRemote U (runnerOf f) (RemoteRefreshNodesCommand (flNodeStart f) (flNodeEnd f)) t1 else ((True, []), t1)) = ((b, y), t2)"
    by (metis prod.exhaust_sel)
  have "extends (runnerOf f) (flDryRun f) t t1"
    using i extends_run[of U "runnerOf f" RemoteRedeployInfraCommand t "(a, x)" t1]
    by (auto simp: RemoteRedeployInfraCommand_def remoteHistoryPath_def hasPrefix_def split: if_splits)
  moreover have "extends (runnerOf f) (flDryRun f) t1 t2"
    using n extends_run[of U "runnerOf f" "RemoteRefreshNodesCommand (flNodeStart f) (flNodeEnd f)" t1 "(b, y)" t2]
    by (auto simp: RemoteRefreshNodesCommand_def remoteHistoryPath_def hasPrefix_def split: if_splits)
  moreover have "t' = (if a then t2 else t1)"
    using assms unfolding redeploy_def Let_def i prod.case
    by (cases a) (simp_all only: n prod.case if_True if_False not_False_eq_True not_True_eq_False prod.inject)
  ultimately show ?thesis using extends_trans by (cases a) auto
qed

section \<open>The log on the target\<close>

text \<open>
  What the file holds after the effects \<open>t\<close>, and a target that keeps it: \<open>cat\<close> prints
  what the last write left.
\<close>

definition written :: "remoteRunner \<Rightarrow> string \<Rightarrow> effect list \<Rightarrow> string" where
  "written r s0 t = foldl (\<lambda>s e. case e of
       Exec argv x \<Rightarrow> if argv = shellArgv r (''cat > '' @ remoteHistoryPath) then x else s
     | Get u \<Rightarrow> s) s0 t"

definition keeps_log :: "outside \<Rightarrow> remoteRunner \<Rightarrow> string \<Rightarrow> bool" where
  "keeps_log U r s0 \<longleftrightarrow> (\<forall>t. ouExec U t (shellArgv r historyQuery) [] = (True, written r s0 t))"

text \<open>\<open>encoding/json\<close>: a history is encoded without error and decoded to itself.\<close>

definition sound_codec :: "outside \<Rightarrow> bool" where
  "sound_codec U \<longleftrightarrow> (\<forall>h. \<exists>s. ouEncode U h = Some s \<and> trimSpace s \<noteq> [] \<and> ouDecode U (trimSpace s) = Some h)"

definition log_of :: "outside \<Rightarrow> remoteRunner \<Rightarrow> string \<Rightarrow> effect list \<Rightarrow> history_error + History" where
  "log_of U r s0 t = (let out = trimSpace (written r s0 t)
     in if out = [] then Inr [] else case ouDecode U out of None \<Rightarrow> Inl CannotParse | Some h \<Rightarrow> Inr h)"

lemma written_Nil: "written r s0 [] = s0"
  by (simp add: written_def)

lemma written_append: "written r s0 (t @ u) = written r (written r s0 t) u"
  by (simp add: written_def)

lemma written_quiet: "\<forall>e \<in> set u. quiet r e \<Longrightarrow> written r s u = s"
  unfolding written_def by (induction u arbitrary: s) (auto simp: quiet_def split: effect.split)

lemma log_of_extends: "extends r dry t t' \<Longrightarrow> log_of U r s0 t' = log_of U r s0 t"
  by (auto simp: extends_def log_of_def written_append written_quiet)

lemma fetch_log:
  assumes "keeps_log U r s0"
  shows "fetchRemoteHistory U r t = (log_of U r s0 t, t @ [Exec (shellArgv r historyQuery) []])"
  using assms by (simp add: fetchRemoteHistory_def queryRemote_def execRemote_def keeps_log_def log_of_def Let_def)

lemma log_of_query [simp]: "log_of U r s0 (t @ [Exec (shellArgv r historyQuery) []]) = log_of U r s0 t"
  by (rule log_of_extends[of r False]) (simp add: extends_def quiet_def activates_def hasPrefix_def historyQuery_def remoteHistoryPath_def)

lemma save_log:
  assumes "sound_codec U" "\<not> dryRun r" "\<forall>t x. fst (ouExec U t (shellArgv r (''cat > '' @ remoteHistoryPath)) x)" "saveRemoteHistory U r h t = (e, t')"
  shows "log_of U r s0 t' = Inr h"
proof -
  obtain s where s: "ouEncode U h = Some s" "trimSpace s \<noteq> []" "ouDecode U (trimSpace s) = Some h"
    using assms(1) by (auto simp: sound_codec_def)
  then have "t' = t @ [Exec (shellArgv r (''cat > '' @ remoteHistoryPath)) s]"
    using assms(2-4) by (auto simp: saveRemoteHistory_def writeRemoteFile_def execRemote_def split: prod.splits)
  then show ?thesis using s by (simp add: log_of_def written_append) (simp add: written_def)
qed

section \<open>One rollback\<close>

definition inspects :: "deploy_flags \<Rightarrow> DeployRecord \<Rightarrow> effect" where
  "inspects f a = Exec (shellArgv (runnerOf f) (RemoteImageExistsCommand (RecImageTag a))) []"

definition retags :: "deploy_flags \<Rightarrow> DeployRecord \<Rightarrow> effect" where
  "retags f a = Exec (shellArgv (runnerOf f) (RemoteRetagCommand (RecImageTag a))) []"

text \<open>The rollback, by how far it gets.\<close>

lemma rollback_cases:
  assumes "deployRollback U f t = (res, t')" "fetchRemoteHistory U (runnerOf f) t = (read, t1)"
  obtains (nothing) "t' = t1" "res \<noteq> None"
  | (gone) h a where "read = Inr h" "SelectRollbackTarget h = Some a" "t' = t1 @ [inspects f a]" "res \<noteq> None"
  | (failed) h a where "read = Inr h" "SelectRollbackTarget h = Some a" "\<not> flDryRun f"
      "fst (ouExec U t1 (shellArgv (runnerOf f) (RemoteImageExistsCommand (RecImageTag a))) [])"
      "t' = t1 @ [inspects f a, retags f a]" "res \<noteq> None"
  | (redeployed) h a u e t2 where "read = Inr h" "SelectRollbackTarget h = Some a"
      "fst (ouExec U t1 (shellArgv (runnerOf f) (RemoteImageExistsCommand (RecImageTag a))) [])"
      "u = t1 @ [inspects f a] @ (if flDryRun f then [] else [retags f a])" "redeploy U f u = (e, t2)"
      "case e of Some e' \<Rightarrow> res = Some e' \<and> t' = t2 | None \<Rightarrow> recordRollback U f h a t2 = (res, t')"
proof (cases "\<exists>h a. read = Inr h \<and> SelectRollbackTarget h = Some a")
  case False
  show ?thesis by (rule nothing; use False assms in \<open>auto simp: deployRollback_def split: sum.splits option.splits\<close>)
next
  case True
  then obtain h a where ha: "read = Inr h" "SelectRollbackTarget h = Some a" by blast
  obtain ok out where q: "ouExec U t1 (shellArgv (runnerOf f) (RemoteImageExistsCommand (RecImageTag a))) [] = (ok, out)"
    by (metis surj_pair)
  obtain ok2 out2 u where r: "runRemote U (runnerOf f) (RemoteRetagCommand (RecImageTag a)) (t1 @ [inspects f a]) = ((ok2, out2), u)"
    by (metis prod.exhaust_sel)
  have u: "u = t1 @ [inspects f a] @ (if flDryRun f then [] else [retags f a])" "\<not> ok2 \<Longrightarrow> \<not> flDryRun f"
    using r by (auto simp: runRemote_def execRemote_def retags_def split: if_splits)
  obtain e t2 where d: "redeploy U f u = (e, t2)" by (metis surj_pair)
  have R: "deployRollback U f t = (if \<not> ok then (Some (ImageGone (RecImageTag a)), t1 @ [inspects f a])
      else if \<not> ok2 then (Some RetagFailed, u)
      else case e of Some e' \<Rightarrow> (Some e', t2) | None \<Rightarrow> recordRollback U f h a t2)"
    unfolding deployRollback_def assms(2) ha(1) sum.case prod.case ha(2) option.case queryRemote_def execRemote_def q
    using r d by (simp add: inspects_def split: option.splits)
  show ?thesis
  proof (cases "ok \<and> ok2")
    case True
    then show ?thesis using redeployed[OF ha _ u(1) d] R assms(1) q by (auto split: option.splits)
  next
    case False
    then show ?thesis using gone[OF ha] failed[OF ha] R assms(1) q u by (auto split: if_splits)
  qed
qed

lemma save_prefix: "saveRemoteHistory U r h t = (e, t') \<Longrightarrow> \<exists>v. t' = t @ v \<and> (dryRun r \<longrightarrow> v = [])"
  by (auto simp: saveRemoteHistory_def writeRemoteFile_def execRemote_def split: option.splits if_splits prod.splits)

lemma recordRollback_prefix:
  assumes "recordRollback U f h a t = (res, t')"
  shows "\<exists>v. t' = t @ v \<and> (flDryRun f \<longrightarrow> v = [])"
proof -
  obtain report t1 where g: "runGoldenSignals U (runnerOf f) (flEndpoints f) (flContainers f) t = (report, t1)" by (metis surj_pair)
  obtain w where w: "t1 = t @ w" "flDryRun f \<longrightarrow> w = []" using extends_signals[OF g] by (auto simp: extends_def)
  show ?thesis
    using assms g w by (auto simp: recordRollback_def Let_def split: if_splits prod.splits dest!: save_prefix)
qed

lemma recordRollback_log:
  assumes "recordRollback U f h a t = (res, t')" "\<not> flDryRun f"
    and "sound_codec U" "\<forall>t argv x. fst (ouExec U t argv x)"
  shows "\<exists>r. log_of U (runnerOf f) s0 t' = Inr (h @ [r]) \<and> DeployAction r = ''rollback''"
proof -
  obtain report t1 where g: "runGoldenSignals U (runnerOf f) (flEndpoints f) (flContainers f) t = (report, t1)" by (metis surj_pair)
  define r where "r = \<lparr> RecTimestamp = ouClock U 0, DeployAction = ''rollback'', GitCommit = GitCommit a,
    RecImageTag = RecImageTag a, Component = flComponent f, RecDeployedBy = DeployedBy (ouUser U) (ouHostname U),
    HealthyAfter = Some (AllHealthy report) \<rparr>"
  obtain e where s: "saveRemoteHistory U (runnerOf f) (h @ [r]) t1 = (e, t')"
    using assms(1,2) g by (auto simp: recordRollback_def Let_def AppendRecord_def r_def split: prod.splits)
  show ?thesis using save_log[OF assms(3) _ _ s] assms(2,4) by (auto simp: r_def)
qed

lemma extends_activated: "extends r dry t t' \<Longrightarrow> filter activates t' = filter activates t"
  by (auto simp: extends_def quiet_def)

lemma save_activated: "saveRemoteHistory U r h t = (e, t') \<Longrightarrow> filter activates t' = filter activates t"
  by (auto simp: saveRemoteHistory_def writeRemoteFile_def execRemote_def activates_def hasPrefix_def
      split: option.splits if_splits prod.splits)

lemma recordRollback_activated:
  assumes "recordRollback U f h a t = (res, t')"
  shows "filter activates t' = filter activates t"
proof -
  obtain report t1 where g: "runGoldenSignals U (runnerOf f) (flEndpoints f) (flContainers f) t = (report, t1)" by (metis surj_pair)
  show ?thesis using assms g extends_activated[OF extends_signals[OF g]]
    by (auto simp: recordRollback_def Let_def split: if_splits prod.splits dest!: save_activated)
qed

lemma redeploy_ok:
  assumes "\<forall>t argv x. argv \<noteq> shellArgv (runnerOf f) historyQuery \<longrightarrow> fst (ouExec U t argv x)"
  shows "fst (redeploy U f t) = None"
proof -
  have "fst (fst (runRemote U (runnerOf f) cmd t))" if "cmd \<noteq> historyQuery" for cmd t
    using assms that by (simp add: runRemote_def execRemote_def)
  moreover have "RemoteRedeployInfraCommand \<noteq> historyQuery" "RemoteRefreshNodesCommand a b \<noteq> historyQuery" for a b
    by (simp_all add: RemoteRedeployInfraCommand_def RemoteRefreshNodesCommand_def historyQuery_def)
  ultimately show ?thesis by (auto simp: redeploy_def Let_def split: prod.splits if_splits) (metis fst_conv)+
qed

lemma effects_kinds:
  "activates (retags f a)" "quiet (runnerOf f) (inspects f a)" "quiet (runnerOf f) (Exec (shellArgv (runnerOf f) historyQuery) [])"
  "retags f a \<noteq> Exec (shellArgv (runnerOf f) (''cat > '' @ remoteHistoryPath)) x"
  by (simp_all add: retags_def inspects_def quiet_def activates_def hasPrefix_def RemoteRetagCommand_def RemoteImageExistsCommand_def
      historyQuery_def remoteHistoryPath_def)

text \<open>One rollback on a target that keeps its log and on which every command succeeds.\<close>

lemma rollback_step:
  assumes U: "keeps_log U (runnerOf f) s0" "sound_codec U" "\<forall>t argv x. fst (ouExec U t argv x)" "\<not> flDryRun f"
    and h: "log_of U (runnerOf f) s0 t = Inr h" "SelectRollbackTarget h = Some a"
    and run: "deployRollback U f t = (res, t')"
  shows "\<exists>r. log_of U (runnerOf f) s0 t' = Inr (h @ [r]) \<and> DeployAction r = ''rollback'' \<and>
    filter activates t' = filter activates t @ [retags f a]"
proof -
  have F: "fetchRemoteHistory U (runnerOf f) t = (Inr h, t @ [Exec (shellArgv (runnerOf f) historyQuery) []])"
    using fetch_log[OF U(1)] h(1) by simp
  define u where "u = t @ [Exec (shellArgv (runnerOf f) historyQuery) []] @ [inspects f a] @ [retags f a]"
  obtain e t2 where d: "redeploy U f u = (e, t2)" by (metis surj_pair)
  then have "e = None" using redeploy_ok[of f U u] U(3) by simp
  obtain o1 where q: "ouExec U (t @ [Exec (shellArgv (runnerOf f) historyQuery) []]) (shellArgv (runnerOf f) (RemoteImageExistsCommand (RecImageTag a))) [] = (True, o1)"
    using U(3) by (metis prod.collapse)
  obtain o2 where q2: "ouExec U (t @ [Exec (shellArgv (runnerOf f) historyQuery) [], inspects f a]) (shellArgv (runnerOf f) (RemoteRetagCommand (RecImageTag a))) [] = (True, o2)"
    using U(3) by (metis prod.collapse)
  have R: "recordRollback U f h a t2 = (res, t')"
    using run d q q2 \<open>e = None\<close> F h(2) U(4)
    by (simp add: deployRollback_def queryRemote_def runRemote_def execRemote_def inspects_def retags_def u_def)
  have "filter activates t' = filter activates t @ [retags f a]"
    using recordRollback_activated[OF R] extends_activated[OF extends_redeploy[OF d]] effects_kinds by (simp add: u_def quiet_def)
  then show ?thesis using recordRollback_log[OF R U(4,2,3)] by blast
qed

text \<open>Rollbacks one after the other, each with its clock.\<close>

fun rollbacks :: "outside \<Rightarrow> deploy_flags \<Rightarrow> (nat \<Rightarrow> time) list \<Rightarrow> effect list \<Rightarrow> effect list" where
  "rollbacks U f [] t = t"
| "rollbacks U f (c # cs) t = rollbacks U f cs (snd (deployRollback (U\<lparr> ouClock := c \<rparr>) f t))"

lemma clock_irrelevant:
  "keeps_log (U\<lparr> ouClock := c \<rparr>) r s0 = keeps_log U r s0" "sound_codec (U\<lparr> ouClock := c \<rparr>) = sound_codec U"
  "log_of (U\<lparr> ouClock := c \<rparr>) r s0 t = log_of U r s0 t"
  by (simp_all add: keeps_log_def sound_codec_def log_of_def cong: if_cong)

lemma find_skip: "\<forall>x \<in> set ys. \<not> P x \<Longrightarrow> find P (ys @ xs) = find P xs"
  by (induction ys) auto

lemma target_past_rollbacks:
  assumes "\<forall>r \<in> set rs. DeployAction r = ''rollback''" "rs \<noteq> []"
  shows "SelectRollbackTarget (h @ [b] @ rs) = (if proven b then Some b else find proven (rev h))"
proof -
  have "\<forall>r \<in> set (rev (butlast rs)). \<not> proven r" using assms(1) by (auto simp: proven_def dest: in_set_butlastD)
  from find_skip[OF this, of "b # rev h"] show ?thesis using assms(2) by (simp add: SelectRollbackTarget_find butlast_append)
qed

lemma later_rollbacks:
  assumes U: "keeps_log U (runnerOf f) s0" "sound_codec U" "\<forall>t argv x. fst (ouExec U t argv x)" "\<not> flDryRun f"
    and a: "(if proven b then Some b else find proven (rev h)) = Some a"
  shows "log_of U (runnerOf f) s0 t = Inr (h @ [b] @ rs) \<Longrightarrow> \<forall>r \<in> set rs. DeployAction r = ''rollback'' \<Longrightarrow> rs \<noteq> [] \<Longrightarrow>
    filter activates (rollbacks U f cs t) = filter activates t @ replicate (length cs) (retags f a)"
proof (induction cs arbitrary: t rs)
  case (Cons c cs)
  let ?U = "U\<lparr> ouClock := c \<rparr>"
  obtain res t' where run: "deployRollback ?U f t = (res, t')" by (metis surj_pair)
  have "SelectRollbackTarget (h @ [b] @ rs) = Some a" using target_past_rollbacks[OF Cons.prems(2,3)] a by simp
  then obtain r where "log_of U (runnerOf f) s0 t' = Inr ((h @ [b] @ rs) @ [r])" "DeployAction r = ''rollback''"
      "filter activates t' = filter activates t @ [retags f a]"
    using rollback_step[of ?U f s0 t "h @ [b] @ rs" a res t'] run U Cons.prems(1) by (auto simp: clock_irrelevant)
  then show ?case using Cons.IH[of t' "rs @ [r]"] Cons.prems(2) run by simp
qed simp

section \<open>One push\<close>

lemma log_of_sync:
  assumes "syncSource U f t = (ok, t')"
  shows "log_of U r s0 t' = log_of U r s0 t"
proof -
  have "''rsync'' # argv \<noteq> shellArgv r x" for argv x by (simp add: shellArgv_def)
  then have "written r s [Exec (''rsync'' # argv) y] = s" for argv y s by (simp add: written_def)
  then show ?thesis using assms by (auto simp: syncSource_def log_of_def Let_def written_append split: if_splits)
qed

lemma recordPush_log:
  assumes run: "recordPush U f commit tag t = (res, t')" and live: "\<not> flDryRun f"
    and U: "sound_codec U" "\<forall>t argv x. argv \<noteq> shellArgv (runnerOf f) historyQuery \<longrightarrow> fst (ouExec U t argv x)"
    and read: "fst (fetchRemoteHistory U (runnerOf f) t) = read"
  shows "\<exists>r. log_of U (runnerOf f) s0 t' = Inr ((case read of Inl e \<Rightarrow> [] | Inr h \<Rightarrow> h) @ [r]) \<and> DeployAction r = ''deploy'' \<and>
    RecImageTag r = tag \<and> HealthyAfter r = Some (res = None)"
proof -
  define rec where "rec = \<lparr> RecTimestamp = ouClock U 1, DeployAction = ''deploy'', GitCommit = commit, RecImageTag = tag,
    Component = flComponent f, RecDeployedBy = DeployedBy (ouUser U) (ouHostname U), HealthyAfter = None \<rparr>"
  define old where "old = (case read of Inl e \<Rightarrow> [] | Inr h \<Rightarrow> h)"
  obtain t1 where f: "fetchRemoteHistory U (runnerOf f) t = (read, t1)" using read by (metis prod.collapse)
  obtain e2 t2 where s1: "saveRemoteHistory U (runnerOf f) (old @ [rec]) t1 = (e2, t2)" by (metis surj_pair)
  obtain report t3 where g: "runGoldenSignals U (runnerOf f) (flEndpoints f) (flContainers f) t2 = (report, t3)" by (metis surj_pair)
  define rec' where "rec' = rec\<lparr> HealthyAfter := Some (AllHealthy report) \<rparr>"
  obtain e4 t4 where s2: "saveRemoteHistory U (runnerOf f) (old @ [rec']) t3 = (e4, t4)" by (metis surj_pair)
  have "(res, t') = (if AllHealthy report then None else Some Unhealthy, t4)"
    using run live s1 s2 unfolding recordPush_def Let_def f prod.case AppendRecord_def rec_def[symmetric] old_def[symmetric]
    by (simp add: g rec'_def)
  moreover have "log_of U (runnerOf f) s0 t4 = Inr (old @ [rec'])"
    using save_log[OF U(1) _ _ s2] live U(2) by (simp add: historyQuery_def remoteHistoryPath_def)
  ultimately show ?thesis by (auto simp: old_def[symmetric] rec'_def rec_def intro!: exI[of _ rec'])
qed

text \<open>With the default flags nothing is checked, and nothing checked is not healthy.\<close>

lemma unchecked_push_unhealthy:
  assumes "\<not> flDryRun f" "flEndpoints f = []" "flContainers f \<le> 0" "ouKeys U [] = []"
  shows "fst (recordPush U f commit tag t) = Some Unhealthy"
proof -
  have "runGoldenSignals U (runnerOf f) (flEndpoints f) (flContainers f) t = ([], t)" for t
    using assms by (simp add: runGoldenSignals_def EvaluateEndpointChecks_def)
  then show ?thesis using assms(1) by (simp add: recordPush_def AllHealthy_def Let_def split: prod.splits)
qed

section \<open>Properties\<close>


text \<open>
  Rolling back again never goes further back. On a target that keeps its log, runs every command
  and whose last entry is \<open>b\<close>, the first rollback activates \<open>a\<close>, the latest proved deploy
  before \<open>b\<close>; every later one activates the same image again if \<open>b\<close> had not passed its
  check, and otherwise puts back the very \<open>b\<close> that the first one replaced. No number of
  rollbacks reaches an earlier deploy.
\<close>

theorem rollback_never_digs_deeper:
  assumes U: "keeps_log U (runnerOf f) s0" "sound_codec U" "\<forall>t argv x. fst (ouExec U t argv x)" "\<not> flDryRun f"
    and h: "log_of U (runnerOf f) s0 [] = Inr (h @ [b])" "SelectRollbackTarget (h @ [b]) = Some a"
  shows "filter activates (rollbacks U f (c # cs) []) =
    retags f a # replicate (length cs) (retags f (if proven b then b else a))"
proof -
  let ?U = "U\<lparr> ouClock := c \<rparr>"
  obtain res t' where run: "deployRollback ?U f [] = (res, t')" by (metis surj_pair)
  obtain r where r: "log_of U (runnerOf f) s0 t' = Inr ((h @ [b]) @ [r])" "DeployAction r = ''rollback''"
      "filter activates t' = [retags f a]"
    using rollback_step[of ?U f s0, OF _ _ _ U(4) _ h(2) run] U(1-3) h(1) by (auto simp: clock_irrelevant)
  have "(if proven b then Some b else find proven (rev h)) = Some (if proven b then b else a)"
    using h(2) by (simp add: SelectRollbackTarget_snoc)
  from later_rollbacks[OF U this, of t' "[r]" cs] show ?thesis using r run by simp
qed

text \<open>
  A push that cannot read the log erases it. When every command of a push succeeds, the log
  it leaves is what it read with its own record appended, marked healthy exactly when the
  push reports success; and where reading failed (the connection dropped, or the file did not
  parse) that is this one record alone, after which there is nothing left to roll back to.
\<close>

theorem push_log:
  assumes run: "deployPush U f [] = (res, t')" and live: "\<not> flDryRun f"
    and U: "sound_codec U" "\<forall>t argv x. argv \<noteq> shellArgv (runnerOf f) historyQuery \<longrightarrow> fst (ouExec U t argv x)"
    and read: "\<forall>t. log_of U (runnerOf f) s0 t = log_of U (runnerOf f) s0 [] \<longrightarrow> fst (fetchRemoteHistory U (runnerOf f) t) = read"
  shows "\<exists>r. log_of U (runnerOf f) s0 t' = Inr ((case read of Inl e \<Rightarrow> [] | Inr h \<Rightarrow> h) @ [r]) \<and> DeployAction r = ''deploy'' \<and>
    HealthyAfter r = Some (res = None) \<and> (\<forall>e. read = Inl e \<longrightarrow> SelectRollbackTarget [r] = None)"
proof -
  let ?r = "runnerOf f"
  define build where "build = RemoteBuildCommand (flRemoteDir f) (ImageTag (ouStamp U) (gitShortSHA U) (ouClock U 0))"
  have b: "build \<noteq> ''cat > '' @ remoteHistoryPath" "build \<noteq> historyQuery" "\<not> hasPrefix build ''docker tag''"
    by (simp_all add: build_def RemoteBuildCommand_def historyQuery_def remoteHistoryPath_def hasPrefix_def)
  obtain ok t1 where s: "syncSource U f [] = (ok, t1)" by (metis surj_pair)
  obtain ok2 out t2 where c: "runRemote U ?r build t1 = ((ok2, out), t2)" by (metis prod.exhaust_sel)
  obtain e t3 where d: "redeploy U f t2 = (e, t3)" by (metis surj_pair)
  have "''rsync'' # argv \<noteq> shellArgv ?r x" for argv x by (simp add: shellArgv_def)
  then have "ok" using s U(2) by (auto simp: syncSource_def Let_def split: if_splits)
  moreover have "ok2" using c U(2) b(2) live by (auto simp: runRemote_def execRemote_def) (metis fst_conv shellArgv_inj)
  moreover have "e = None" using d redeploy_ok[of f U t2] U(2) by simp
  ultimately have R: "recordPush U f (gitShortSHA U) (ImageTag (ouStamp U) (gitShortSHA U) (ouClock U 0)) t3 = (res, t')"
    using run s c d by (simp add: deployPush_def Let_def build_def)
  have "log_of U ?r s0 t3 = log_of U ?r s0 []"
    using log_of_sync[OF s] log_of_extends[OF extends_run[OF c b(1,3)]] log_of_extends[OF extends_redeploy[OF d]] by metis
  from recordPush_log[OF R live U read[rule_format, OF this], of s0] show ?thesis
    by (auto simp: SelectRollbackTarget_def)
qed

section \<open>Examples\<close>

text \<open>A sample encoding: every field in letters that \<open>TrimSpace\<close> keeps, ended by a dot.\<close>

definition fieldInt :: "int \<Rightarrow> string" where
  "fieldInt n = (if n < 0 then CHR ''m'' # replicate (nat (- n)) CHR ''i'' else CHR ''p'' # replicate (nat n) CHR ''i'')"

definition readInt :: "string \<Rightarrow> int" where
  "readInt s = (if hasPrefix s ''m'' then - int (length s - 1) else int (length s - 1))"

definition fieldStr :: "string \<Rightarrow> string" where "fieldStr s = hexEncode (bytes_of s)"

definition readStr :: "string \<Rightarrow> string" where
  "readStr s = (case hexDecode s of Some bs \<Rightarrow> map (\<lambda>b. char_of (unat b)) bs | None \<Rightarrow> [])"

definition fieldsOf :: "DeployRecord \<Rightarrow> string list" where
  "fieldsOf r = [fieldInt (RecTimestamp r), fieldStr (DeployAction r), fieldStr (GitCommit r), fieldStr (RecImageTag r),
     fieldStr (Component r), fieldStr (RecDeployedBy r),
     (case HealthyAfter r of None \<Rightarrow> ''n'' | Some b \<Rightarrow> if b then ''t'' else ''f'')]"

fun readFields :: "string list \<Rightarrow> History option" where
  "readFields [x] = (if x = ''!'' then Some [] else None)"
| "readFields (a # b # c # d # e # g # h # rest) = map_option (\<lambda>rs. \<lparr> RecTimestamp = readInt a, DeployAction = readStr b,
     GitCommit = readStr c, RecImageTag = readStr d, Component = readStr e, RecDeployedBy = readStr g,
     HealthyAfter = (if h = ''n'' then None else Some (h = ''t'')) \<rparr> # rs) (readFields rest)"
| "readFields fs = None"

definition sampleEncode :: "History \<Rightarrow> string" where
  "sampleEncode h = concat (map (\<lambda>x. x @ ''.'') (concat (map fieldsOf h))) @ ''!''"

definition sampleAlphabet :: string where "sampleAlphabet = ''0123456789abcdefmpitn''"

lemma hexDigit_alphabet: "n < 16 \<Longrightarrow> hexDigit n \<in> set sampleAlphabet"
proof -
  have "\<forall>n \<in> {0..<16}. hexDigit n \<in> set sampleAlphabet" by code_simp
  then show "n < 16 \<Longrightarrow> hexDigit n \<in> set sampleAlphabet" by simp
qed

lemma set_hexEncode: "set (hexEncode bs) \<subseteq> set sampleAlphabet"
proof -
  have "unat b div 16 < 16 \<and> unat b mod 16 < 16" for b :: "8 word"
    using unsigned_less[of b, where 'a = nat] by auto
  then show ?thesis by (auto simp: hexEncode_def hexDigit_alphabet)
qed

lemma sampleAlphabet_letters: "set ''minpft'' \<subseteq> set sampleAlphabet"
  by code_simp

lemma set_fieldsOf:
  assumes "x \<in> set (fieldsOf r)"
  shows "set x \<subseteq> set sampleAlphabet"
proof -
  have m: "c \<in> set ''minpft'' \<Longrightarrow> c \<in> set sampleAlphabet" for c using sampleAlphabet_letters by blast
  have "set (fieldInt n) \<subseteq> set sampleAlphabet" for n by (auto simp: fieldInt_def m)
  moreover have "set (fieldStr s) \<subseteq> set sampleAlphabet" for s by (simp add: fieldStr_def set_hexEncode)
  moreover have "set (case HealthyAfter r of None \<Rightarrow> ''n'' | Some b \<Rightarrow> if b then ''t'' else ''f'') \<subseteq> set sampleAlphabet"
    by (auto simp: m split: option.splits if_splits)
  moreover have "x = fieldInt (RecTimestamp r) \<or> (\<exists>s. x = fieldStr s) \<or>
      x = (case HealthyAfter r of None \<Rightarrow> ''n'' | Some b \<Rightarrow> if b then ''t'' else ''f'')"
    using assms by (auto simp: fieldsOf_def)
  ultimately show ?thesis by metis
qed

lemma alphabet_kinds: "CHR ''.'' \<notin> set sampleAlphabet" "\<forall>c \<in> set (''.!'' @ sampleAlphabet). \<not> isSpace c"
  by code_simp+

lemma splitAt_word: "sep \<notin> set w \<Longrightarrow> splitAt sep (w @ sep # xs) = w # splitAt sep xs" "sep \<notin> set w \<Longrightarrow> splitAt sep w = [w]"
  by (induction w) auto

lemma splitAt_fields:
  "\<forall>x \<in> set fs. CHR ''.'' \<notin> set x \<Longrightarrow> splitAt CHR ''.'' (concat (map (\<lambda>x. x @ ''.'') fs) @ ''!'') = fs @ [''!'']"
  by (induction fs) (simp_all add: splitAt_word)

lemma readStr_fieldStr: "readStr (fieldStr s) = s"
  by (simp add: readStr_def fieldStr_def bytes_of_def o_def)

lemma readInt_fieldInt: "readInt (fieldInt n) = n"
  by (auto simp: readInt_def fieldInt_def hasPrefix_def)

lemma readFields_fieldsOf: "readFields (concat (map fieldsOf h) @ [''!'']) = Some h"
proof (induction h)
  case (Cons r h)
  then show ?case by (cases r; cases "HealthyAfter r") (auto simp: fieldsOf_def readStr_fieldStr readInt_fieldInt)
qed simp

lemma trimSpace_id: "\<forall>c \<in> set s. \<not> isSpace c \<Longrightarrow> trimSpace s = s"
proof -
  assume a: "\<forall>c \<in> set s. \<not> isSpace c"
  have d: "dropWhile isSpace xs = xs" if "\<forall>c \<in> set xs. \<not> isSpace c" for xs
    using that by (cases xs) auto
  show ?thesis using a by (simp add: trimSpace_def d)
qed

lemma sampleEncode_trim: "trimSpace (sampleEncode h) = sampleEncode h"
proof (rule trimSpace_id, rule ballI)
  fix c assume "c \<in> set (sampleEncode h)"
  then have "c \<in> set ''.!'' \<or> (\<exists>r \<in> set h. \<exists>x \<in> set (fieldsOf r). c \<in> set x)"
    by (auto simp: sampleEncode_def split: if_splits)
  then have "c \<in> set (''.!'' @ sampleAlphabet)" using set_fieldsOf by (metis Un_iff set_append subsetD)
  then show "\<not> isSpace c" using alphabet_kinds(2) by blast
qed

text \<open>A target that keeps the log, on which every command succeeds and every endpoint answers 200.\<close>

definition sampleFlags :: deploy_flags where
  "sampleFlags = \<lparr> flHost = ''op@seed'', flKey = [], flSource = ''.'', flRemoteDir = ''~/src'', flComponent = ''all'',
     flNodeStart = 1, flNodeEnd = 2, flContainers = 0, flEndpoints = [''https://oim''], flDryRun = False \<rparr>"

definition sampleTarget :: "History \<Rightarrow> outside" where
  "sampleTarget h = \<lparr> ouExec = (\<lambda>t argv x. (True, if argv = shellArgv (runnerOf sampleFlags) historyQuery
        then written (runnerOf sampleFlags) (sampleEncode h) t else [])),
     ouGet = (\<lambda>t u. Some 200), ouCommit = Some ''a1b2c3d'', ouUser = ''op'', ouHostname = Some ''desk'', ouClock = int,
     ouStamp = (\<lambda>t. ''20260315-143022''), ouKeys = remdups, ouEncode = (\<lambda>h. Some (sampleEncode h)),
     ouDecode = (\<lambda>s. readFields (splitAt CHR ''.'' s)) \<rparr>"

lemma sampleCodec: "readFields (splitAt CHR ''.'' (sampleEncode h)) = Some h"
proof -
  have "\<forall>x \<in> set (concat (map fieldsOf h)). CHR ''.'' \<notin> set x" using set_fieldsOf alphabet_kinds(1) by auto
  then show ?thesis by (simp add: sampleEncode_def splitAt_fields readFields_fieldsOf)
qed

lemma sampleEncode_nonempty: "sampleEncode h \<noteq> []" by (simp add: sampleEncode_def)

lemma sampleTarget_ok:
  "keeps_log (sampleTarget h) (runnerOf sampleFlags) (sampleEncode h)" "sound_codec (sampleTarget h)"
  "\<forall>t argv x. fst (ouExec (sampleTarget h) t argv x)" "\<not> flDryRun sampleFlags"
  "log_of (sampleTarget h) (runnerOf sampleFlags) (sampleEncode h) [] = Inr h"
  by (simp_all add: keeps_log_def sound_codec_def sampleTarget_def sampleEncode_trim sampleCodec log_of_def written_Nil
      sampleEncode_nonempty) (simp add: sampleFlags_def)

definition sampleRecord :: "string \<Rightarrow> bool option \<Rightarrow> DeployRecord" where
  "sampleRecord tag healthy = \<lparr> RecTimestamp = 0, DeployAction = ''deploy'', GitCommit = [], RecImageTag = tag,
     Component = ''all'', RecDeployedBy = [], HealthyAfter = healthy \<rparr>"


theorem rollback_never_digs_deeper_witness:
  "filter activates (rollbacks (sampleTarget [sampleRecord ''v1'' (Some True), sampleRecord ''v2'' (Some True), sampleRecord ''v3'' (Some True)])
      sampleFlags [int, int, int] []) =
     [retags sampleFlags (sampleRecord ''v2'' (Some True)), retags sampleFlags (sampleRecord ''v3'' (Some True)),
      retags sampleFlags (sampleRecord ''v3'' (Some True))]"
  using rollback_never_digs_deeper[OF sampleTarget_ok(1-4),
      of "[sampleRecord ''v1'' (Some True), sampleRecord ''v2'' (Some True), sampleRecord ''v3'' (Some True)]"
        "[sampleRecord ''v1'' (Some True), sampleRecord ''v2'' (Some True)]" "sampleRecord ''v3'' (Some True)"
        "sampleRecord ''v2'' (Some True)" int "[int, int]"] sampleTarget_ok(5)
  by (simp add: SelectRollbackTarget_def numeral_eq_Suc proven_def sampleRecord_def)

definition flakyTarget :: "History \<Rightarrow> outside" where
  "flakyTarget h = (sampleTarget h)\<lparr> ouExec := (\<lambda>t argv x. (argv \<noteq> shellArgv (runnerOf sampleFlags) historyQuery, [])) \<rparr>"

theorem push_log_witness:
  "let h = [sampleRecord ''v1'' (Some True), sampleRecord ''v2'' (Some True)]; U = flakyTarget h;
       after = snd (deployPush U sampleFlags [])
   in log_of U (runnerOf sampleFlags) (sampleEncode h) [] = Inr h \<and>
      (\<exists>r. log_of U (runnerOf sampleFlags) (sampleEncode h) after = Inr [r] \<and> SelectRollbackTarget [r] = None)"
proof -
  let ?h = "[sampleRecord ''v1'' (Some True), sampleRecord ''v2'' (Some True)]"
  let ?U = "flakyTarget ?h" and ?r = "runnerOf sampleFlags"
  obtain res t' where run: "deployPush ?U sampleFlags [] = (res, t')" by (metis surj_pair)
  have U: "sound_codec ?U" "\<forall>t argv x. argv \<noteq> shellArgv ?r historyQuery \<longrightarrow> fst (ouExec ?U t argv x)"
      "log_of ?U ?r (sampleEncode ?h) [] = Inr ?h"
    using sampleTarget_ok(2,5)[of ?h] by (auto simp: flakyTarget_def sound_codec_def log_of_def cong: if_cong)
  have f: "fst (fetchRemoteHistory ?U ?r t) = Inl CannotRead" for t
    by (simp add: fetchRemoteHistory_def queryRemote_def execRemote_def flakyTarget_def)
  show ?thesis using push_log[OF run sampleTarget_ok(4) U(1,2), of "sampleEncode ?h" "Inl CannotRead"] f U(3)
    by (auto simp: run)
qed

end
