(* ===== verification/Requests.thy ===== *)
theory Requests
  imports Earnings Federation Reconcile Deploy
begin

text \<open>
  What the handlers of \<open>cmd/coordinator/main.go\<close> share: the remaining signed requests of
  \<open>internal/protocol/signed_requests.go\<close>, the configuration of a coordinator, the
  surroundings of one request (clock readings, SQL outcomes, random bytes, map orders, how
  the nodes answer) and the shape of an answer. A request body is None where
  \<open>json.Decode\<close> fails.
\<close>

section \<open>Base64\<close>

text \<open>\<open>base64.StdEncoding\<close>: padded, line breaks ignored, unused bits not checked.\<close>

definition b64Value :: "char \<Rightarrow> nat option" where
  "b64Value c = (let n = (of_char c :: nat) in
     if 65 \<le> n \<and> n \<le> 90 then Some (n - 65)
     else if 97 \<le> n \<and> n \<le> 122 then Some (n - 71)
     else if 48 \<le> n \<and> n \<le> 57 then Some (n + 4)
     else if n = 43 then Some 62 else if n = 47 then Some 63 else None)"

definition b64Bytes :: "nat \<Rightarrow> nat \<Rightarrow> nat \<Rightarrow> nat \<Rightarrow> bytes" where
  "b64Bytes a b c d = [of_nat (4 * a + b div 16), of_nat (16 * (b mod 16) + c div 4), of_nat (64 * (c mod 4) + d)]"

fun b64Groups :: "string \<Rightarrow> bytes option" where
  "b64Groups [] = Some []"
| "b64Groups (a # b # c # d # rest) =
     (case (b64Value a, b64Value b) of
        (Some x, Some y) \<Rightarrow>
          if c = CHR ''='' then (if d = CHR ''='' \<and> rest = [] then Some (take 1 (b64Bytes x y 0 0)) else None)
          else (case b64Value c of
              None \<Rightarrow> None
            | Some z \<Rightarrow>
                if d = CHR ''='' then (if rest = [] then Some (take 2 (b64Bytes x y z 0)) else None)
                else (case (b64Value d, b64Groups rest) of
                    (Some v, Some bs) \<Rightarrow> Some (b64Bytes x y z v @ bs)
                  | _ \<Rightarrow> None))
      | _ \<Rightarrow> None)"
| "b64Groups s = None"

definition b64Decode :: "string \<Rightarrow> bytes option" where
  "b64Decode s = b64Groups (filter (\<lambda>c. (of_char c :: nat) \<noteq> 10 \<and> (of_char c :: nat) \<noteq> 13) s)"

section \<open>Signed requests\<close>

record BenchmarkResultRequest =
  BenchMeasured :: MeasuredSignature
  BenchTimestamp :: int
  BenchSignature :: bytes

record JobOutcomeRequest =
  OutJobID :: job_id
  Success :: bool
  LatencyMs :: f64
  TokensDelivered :: int
  OutTimestamp :: int
  OutSignature :: bytes

record JobResultRequest =
  ResNodeID :: node_id
  ResJobID :: job_id
  ResResult :: "jobj option"
  ResError :: string
  ResTimestamp :: int
  ResSignature :: bytes

text \<open>Their JSON encodings, None for the error of \<open>Marshal\<close>.\<close>

record request_codec =
  marshalBenchmark :: "MeasuredSignature \<Rightarrow> int \<Rightarrow> bytes option"
  marshalOutcome :: "job_id \<Rightarrow> bool \<Rightarrow> f64 \<Rightarrow> int \<Rightarrow> int \<Rightarrow> bytes option"
  marshalResult :: "node_id \<Rightarrow> job_id \<Rightarrow> jobj option \<Rightarrow> string \<Rightarrow> int \<Rightarrow> bytes option"

definition BenchmarkSigningBytes :: "request_codec \<Rightarrow> BenchmarkResultRequest \<Rightarrow> bytes option" where
  "BenchmarkSigningBytes K r = marshalBenchmark K (BenchMeasured r) (BenchTimestamp r)"

definition OutcomeSigningBytes :: "request_codec \<Rightarrow> JobOutcomeRequest \<Rightarrow> bytes option" where
  "OutcomeSigningBytes K r = marshalOutcome K (OutJobID r) (Success r) (LatencyMs r) (TokensDelivered r) (OutTimestamp r)"

definition ResultSigningBytes :: "request_codec \<Rightarrow> JobResultRequest \<Rightarrow> bytes option" where
  "ResultSigningBytes K r = marshalResult K (ResNodeID r) (ResJobID r) (ResResult r) (ResError r) (ResTimestamp r)"

section \<open>Configuration and surroundings\<close>

text \<open>The parameters of \<open>runCoordinator\<close> that its handlers read, and the libraries.\<close>

record config =
  cfAllowAnon :: bool
  cfApiKey :: string
  cfPodID :: pod_id
  cfRegion :: string
  cfPublicURL :: string
  cfMaxAttempts :: int
  cfProxyNets :: "IPNet list"
  cfGrantPoWBits :: int
  cfFederationKey :: string
  cfProtectReads :: bool
  cfCrypto :: crypto
  cfCodec :: request_codec
  cfEventCodec :: event_codec
  cfNet :: netlib
  cfParseURL :: "string \<Rightarrow> (string \<times> string) option"
  cfLookupIP :: "string \<Rightarrow> bytes list option"
  cfFormat :: "time \<Rightarrow> string"

text \<open>
  \<open>wClock k\<close> is the \<open>k\<close>-th clock reading of the request, \<open>wSql k\<close> the outcome of its
  \<open>k\<close>-th SQL statement, \<open>wOrder k\<close> the order of its \<open>k\<close>-th loop over the nodes; \<open>wGone\<close> says
  that the client leaves while its job is queued, \<open>wRounds\<close> how a worker fares with it.
\<close>

record world =
  wClock :: "nat \<Rightarrow> time"
  wSql :: "nat \<Rightarrow> bool"
  wRand :: "bytes option"
  wOrder :: "nat \<Rightarrow> node_id list"
  wNet :: transport
  wStream :: "nat \<Rightarrow> NodeWithLoad \<Rightarrow> stream_outcome"
  wDraw1 :: nat
  wDraw2 :: nat
  wGone :: bool
  wRounds :: "nat \<Rightarrow> round"

section \<open>Answers\<close>

datatype api_error = ErrText string | ErrRegister register_error | ErrAuth node_auth_error | ErrDispatch dispatch_error
  | ErrQueue queue_error | ErrSpec spec_error | ErrWallet wallet_error | ErrAdmin admin_error | ErrKey key_error
  | ErrGrant grant_error | ErrLedger ledger_error | ErrFetch fetch_error | ErrClient client_error

datatype content = Failure api_error | Fields jobj | ResultBody "jobj option" | JobBody PendingJob
  | AssignmentBody BackgroundAssignment | EntryBody CreditEntry | BalanceBody Balance | ReportBody ReconciliationReport
  | ActionsBody "AdminAction list" | ChallengeBody Challenge | DigestBody PodHealthDigest
  | NodesBody "NodeSnapshot list" "CoordinationParticipant list" int int f64 int | EventsBody pod_id "LedgerEvent list"
  | AuditBody pod_id user_id f64 f64 bool "(64 word \<times> fed_error) list" | IdentityBody IdentityResponse
  | StreamBody stream_result | HistoryBody History | TextBody string | Frames "content list" | IndexBody pod_id string PodHealthDigest
  | NoContent | Panicked

type_synonym reply = "nat \<times> content"

definition failWith :: "nat \<Rightarrow> api_error \<Rightarrow> reply" where "failWith code e = (code, Failure e)"

definition statusOk :: "jobj \<Rightarrow> reply" where "statusOk m = (200, Fields m)"

lemmas reply_defs = failWith_def statusOk_def

section \<open>A sample configuration\<close>

text \<open>
  What the examples of the handler theories run in: a coordinator without an admin key, a
  database that never fails, and nodes that answer with twenty tokens.
\<close>

definition twentyTokens :: jobj where
  "twentyTokens = [''usage'' \<mapsto> JObj [''completion_tokens'' \<mapsto> JNum 20]]"

definition obligingNet :: transport where
  "obligingNet = \<lparr> pullWired = False, pullAnswer = (\<lambda>k n job ms. Inl PullFailed),
     pushAnswer = (\<lambda>k cl t p. HttpResponse 200 (Some (Some twentyTokens))), elapsedNs = (\<lambda>k n. 0) \<rparr>"

definition obligingWorld :: world where
  "obligingWorld = \<lparr> wClock = (\<lambda>k. 0), wSql = (\<lambda>k. True), wRand = None, wOrder = (\<lambda>k. []), wNet = obligingNet,
     wStream = (\<lambda>k n. \<lparr> started = False, streamTokens = 0, streamErr = True \<rparr>), wDraw1 = 0, wDraw2 = 0, wGone = False,
     wRounds = (\<lambda>k. \<lparr> roundNow = int k * queueRetryInterval, callerGone = False, roundTransport = obligingNet,
       draw1 = 0, draw2 = 0, roundOrder = [], roundWake = WakeRetry \<rparr>) \<rparr>"

definition plainConfig :: config where
  "plainConfig = \<lparr> cfAllowAnon = False, cfApiKey = [], cfPodID = ''pod'', cfRegion = [], cfPublicURL = [], cfMaxAttempts = 3,
     cfProxyNets = [], cfGrantPoWBits = 0, cfFederationKey = ''fed'', cfProtectReads = True, cfCrypto = plainCrypto,
     cfCodec = \<lparr> marshalBenchmark = (\<lambda>m t. Some []), marshalOutcome = (\<lambda>j s l t u. Some []), marshalResult = (\<lambda>n j r e t. Some []) \<rparr>,
     cfEventCodec = (\<lambda>e. Some []), cfNet = \<lparr> splitHostPort = (\<lambda>s. None), parseIP = (\<lambda>s. None), parseCIDR = (\<lambda>s. None) \<rparr>,
     cfParseURL = (\<lambda>s. None), cfLookupIP = (\<lambda>s. None), cfFormat = (\<lambda>t. []) \<rparr>"

end
