(* ===== verification/NodeHandlers.thy ===== *)
theory NodeHandlers
  imports Requests
begin

text \<open>
  The handlers of \<open>cmd/coordinator/main.go\<close> that nodes and devices call: registration,
  refresh, model warm-up, pull claims and results, attestation, deregistration, benchmarks
  and outcomes, tier checks, settlement records and coordination participants. Each takes the
  configuration, the surroundings of the request, the path parameter and the decoded body,
  and returns the answer and the next state.
\<close>

section \<open>Registration and upkeep\<close>

definition handleRegister :: "config \<Rightarrow> world \<Rightarrow> NodeRegistration option \<Rightarrow> coordinator \<Rightarrow> reply \<times> coordinator" where
  "handleRegister cf w body c = (case body of
       None \<Rightarrow> (failWith 400 (ErrText ''parse registration''), c)
     | Some reg \<Rightarrow>
         (case Register (cfCrypto cf) reg (wClock w 0) (coReg c) of
            (Inl e, r) \<Rightarrow> (failWith 400 (ErrRegister e), c\<lparr> coReg := r \<rparr>)
          | (Inr ok, r) \<Rightarrow>
              if \<not> ok then (failWith 403 (ErrText ''signature verification failed''), c\<lparr> coReg := r \<rparr>)
              else let nid = NodeID (RegManifest reg);
                       earningsTarget = (if RegUserID reg \<noteq> [] then RegUserID reg else nid)
                   in (statusOk [''status'' \<mapsto> JStr ''registered'', ''node_id'' \<mapsto> JStr nid],
                       c\<lparr> coReg := r, coNodeUsers := (coNodeUsers c)(nid \<mapsto> earningsTarget) \<rparr>)))"

text \<open>The gate that the signed node requests share, over the bytes that were signed.\<close>

definition signedBy :: "config \<Rightarrow> world \<Rightarrow> node_id \<Rightarrow> int \<Rightarrow> bytes option \<Rightarrow> bytes \<Rightarrow> coordinator \<Rightarrow> reply option" where
  "signedBy cf w nodeID timestamp signingBytes sig c = (case signingBytes of
       None \<Rightarrow> Some (failWith 400 (ErrText ''build signing bytes''))
     | Some bs \<Rightarrow>
         (case VerifyNodeSignature (cfCrypto cf) (coReg c) nodeID timestamp bs sig (wClock w 0) of
            Some e \<Rightarrow> Some (failWith 401 (ErrAuth e))
          | None \<Rightarrow> None))"

definition handleRefresh :: "config \<Rightarrow> world \<Rightarrow> node_id \<Rightarrow> RefreshRequest option \<Rightarrow> coordinator \<Rightarrow> reply \<times> coordinator" where
  "handleRefresh cf w nodeID body c = (case body of
       None \<Rightarrow> (failWith 400 (ErrText ''parse refresh request''), c)
     | Some req \<Rightarrow>
         (case signedBy cf w nodeID (RefTimestamp req) (RefreshSigningBytes (cfCrypto cf) req) (RefSignature req) c of
            Some err \<Rightarrow> (err, c)
          | None \<Rightarrow>
              (case Refresh nodeID (RefManifest req) (wClock w 1) (coReg c) of
                 None \<Rightarrow> (failWith 404 (ErrText ''node not registered''), c)
               | Some r \<Rightarrow> (statusOk [''status'' \<mapsto> JStr ''refreshed''], c\<lparr> coReg := r \<rparr>))))"

text \<open>The body is the field \<open>model_id\<close>.\<close>

definition handleWarmModel :: "config \<Rightarrow> world \<Rightarrow> node_id \<Rightarrow> string option \<Rightarrow> coordinator \<Rightarrow> reply \<times> coordinator" where
  "handleWarmModel cf w nodeID body c = (case body of
       None \<Rightarrow> (failWith 400 (ErrText ''parse warm-model request''), c)
     | Some model \<Rightarrow>
         if model = [] then (failWith 400 (ErrText ''model_id is required''), c)
         else case WarmModel (wNet w) nodeID model (nat (wClock w 0)) (coReg c) of
             (Inl e, r) \<Rightarrow> (failWith 503 (ErrDispatch e), c\<lparr> coReg := r \<rparr>)
           | (Inr result, r) \<Rightarrow> ((200, ResultBody result), c\<lparr> coReg := r \<rparr>))"

section \<open>Pulling work\<close>

definition pullClaimTimeout :: duration where "pullClaimTimeout = 25 * second"

text \<open>
  The claim is made on the mailbox as it is when the wait ends: with a job for the node, or
  empty after the timeout.
\<close>

definition handleClaim :: "config \<Rightarrow> world \<Rightarrow> ClaimRequest option \<Rightarrow> coordinator \<Rightarrow> reply \<times> coordinator" where
  "handleClaim cf w body c = (case body of
       None \<Rightarrow> (failWith 400 (ErrText ''parse claim request''), c)
     | Some req \<Rightarrow>
         (case signedBy cf w (ClaimNodeID req) (ClaimTimestamp req) (ClaimSigningBytes (cfCrypto cf) req) (ClaimSignature req) c of
            Some err \<Rightarrow> (err, c)
          | None \<Rightarrow>
              let c = c\<lparr> coReg := MarkSeen (ClaimNodeID req) (wClock w 1) (coReg c) \<rparr>
              in case Claim (ClaimNodeID req) (coPull c) of
                  (None, p) \<Rightarrow> ((204, NoContent), c\<lparr> coPull := p \<rparr>)
                | (Some job, p) \<Rightarrow> ((200, JobBody job), c\<lparr> coPull := p \<rparr>)))"

definition handleResult :: "config \<Rightarrow> world \<Rightarrow> JobResultRequest option \<Rightarrow> coordinator \<Rightarrow> reply \<times> coordinator" where
  "handleResult cf w body c = (case body of
       None \<Rightarrow> (failWith 400 (ErrText ''parse result request''), c)
     | Some req \<Rightarrow>
         (case signedBy cf w (ResNodeID req) (ResTimestamp req) (ResultSigningBytes (cfCodec cf) req) (ResSignature req) c of
            Some err \<Rightarrow> (err, c)
          | None \<Rightarrow>
              let execErr = (if ResError req \<noteq> [] then Some (''node execution error: '' @ ResError req) else None);
                  (delivered, p) = SubmitResult (ResJobID req) \<lparr> Result = ResResult req, Err = execErr \<rparr> (coPull c)
              in (statusOk [''delivered'' \<mapsto> JBool delivered], c\<lparr> coPull := p \<rparr>)))"

section \<open>Attestation and departure\<close>

definition handleAttest :: "config \<Rightarrow> world \<Rightarrow> node_id \<Rightarrow> EnclaveAttestationRequest option \<Rightarrow> coordinator \<Rightarrow> reply \<times> coordinator" where
  "handleAttest cf w nodeID body c = (case body of
       None \<Rightarrow> (failWith 400 (ErrText ''parse attestation request''), c)
     | Some req \<Rightarrow>
         let req = req\<lparr> AttNodeID := nodeID \<rparr>
         in case VerifyEnclaveAttestation (cfCrypto cf) (coReg c) req (wClock w 0) of
             Some e \<Rightarrow> (failWith 401 (ErrAuth e), c)
           | None \<Rightarrow>
               (case MarkEnclaveAttested nodeID (EnclavePublicKey req) (coReg c) of
                  None \<Rightarrow> (failWith 404 (ErrText ''node not registered''), c)
                | Some r \<Rightarrow> (statusOk [''status'' \<mapsto> JStr ''attested''], c\<lparr> coReg := r \<rparr>)))"

definition handleDeregister :: "node_id \<Rightarrow> coordinator \<Rightarrow> reply \<times> coordinator" where
  "handleDeregister nodeID c =
     (statusOk [''status'' \<mapsto> JStr ''deregistered''], c\<lparr> coReg := MarkUnreachable nodeID (coReg c) \<rparr>)"

section \<open>Reputation\<close>

definition handleBenchmark :: "config \<Rightarrow> world \<Rightarrow> node_id \<Rightarrow> BenchmarkResultRequest option \<Rightarrow> coordinator \<Rightarrow> reply \<times> coordinator" where
  "handleBenchmark cf w nodeID body c = (case body of
       None \<Rightarrow> (failWith 400 (ErrText ''parse measurement''), c)
     | Some req \<Rightarrow>
         (case signedBy cf w nodeID (BenchTimestamp req) (BenchmarkSigningBytes (cfCodec cf) req) (BenchSignature req) c of
            Some err \<Rightarrow> (err, c)
          | None \<Rightarrow> (statusOk [''status'' \<mapsto> JStr ''stored''],
              c\<lparr> coMeasured := StoreMeasurement nodeID (BenchMeasured req) (coMeasured c) \<rparr>)))"

definition handleOutcome :: "config \<Rightarrow> world \<Rightarrow> node_id \<Rightarrow> JobOutcomeRequest option \<Rightarrow> coordinator \<Rightarrow> reply \<times> coordinator" where
  "handleOutcome cf w nodeID body c = (case body of
       None \<Rightarrow> (failWith 400 (ErrText ''parse outcome''), c)
     | Some req \<Rightarrow>
         (case signedBy cf w nodeID (OutTimestamp req) (OutcomeSigningBytes (cfCodec cf) req) (OutSignature req) c of
            Some err \<Rightarrow> (err, c)
          | None \<Rightarrow> (statusOk [''status'' \<mapsto> JStr ''recorded'', ''credit'' \<mapsto> JStr ''coordinator_observed''], c)))"

text \<open>\<open>VerifyTierClaim\<close> of \<open>verification.go\<close>; None is its error \<open>ErrNoMeasurement\<close>.\<close>

definition VerifyTierClaim :: "node_id \<Rightarrow> MeasuredSignature \<Rightarrow> measurement_store \<Rightarrow> f64 \<Rightarrow> bool option" where
  "VerifyTierClaim nodeID claimed measurements tolerancePct =
     map_option (\<lambda>measured. CompareSignatures claimed measured tolerancePct) (measurements nodeID)"

text \<open>
  The query parameter: None when it is absent, otherwise what \<open>Sscanf\<close> makes of it, with
  None for its error.
\<close>

definition handleVerifyTier :: "f64 option option \<Rightarrow> node_id \<Rightarrow> coordinator \<Rightarrow> reply" where
  "handleVerifyTier tolerance nodeID c =
     (case (case tolerance of None \<Rightarrow> Some (fl (2 / 10)) | Some t \<Rightarrow> t) of
        None \<Rightarrow> failWith 400 (ErrText ''invalid tolerance'')
      | Some tolerancePct \<Rightarrow>
          (case ClaimedSignature nodeID (coReg c) of
             None \<Rightarrow> failWith 404 (ErrText ''node not registered'')
           | Some None \<Rightarrow> statusOk [''node_id'' \<mapsto> JStr nodeID, ''verified'' \<mapsto> JBool False,
               ''reason'' \<mapsto> JStr ''node has no claimed MeasuredSignature to compare against'']
           | Some (Some claimed) \<Rightarrow>
               (case VerifyTierClaim nodeID claimed (coMeasured c) tolerancePct of
                  None \<Rightarrow> statusOk [''node_id'' \<mapsto> JStr nodeID, ''verified'' \<mapsto> JBool False,
                    ''reason'' \<mapsto> JStr ''no submitted benchmark measurement for this node'']
                | Some ok \<Rightarrow> statusOk [''node_id'' \<mapsto> JStr nodeID, ''verified'' \<mapsto> JBool ok, ''tolerance'' \<mapsto> JNum tolerancePct,
                    ''reason'' \<mapsto> JStr (if ok then ''within tolerance'' else ''measured performance diverges from claimed signature'')])))"

section \<open>Evidence and participants\<close>

definition storeRecord :: "jobj \<Rightarrow> jobj list \<Rightarrow> jobj list" where "storeRecord rec rs = rs @ [rec]"

definition handleSettlementRecord :: "jobj option \<Rightarrow> coordinator \<Rightarrow> reply \<times> coordinator" where
  "handleSettlementRecord body c = (case body of
       None \<Rightarrow> (failWith 400 (ErrText ''parse record''), c)
     | Some rec \<Rightarrow> (statusOk [''status'' \<mapsto> JStr ''stored''], c\<lparr> coRecords := storeRecord rec (coRecords c) \<rparr>))"

definition handleAnnounce :: "config \<Rightarrow> world \<Rightarrow> CoordinationParticipant option \<Rightarrow> coordinator \<Rightarrow> reply \<times> coordinator" where
  "handleAnnounce cf w body c = (case body of
       None \<Rightarrow> (failWith 400 (ErrText ''parse announce''), c)
     | Some p \<Rightarrow>
         if DeviceID p = [] then (failWith 400 (ErrText ''device_id required''), c)
         else let p = p\<lparr> Region := cfRegion cf \<rparr>;
                  p = (if Region p = [] then p\<lparr> Region := PartGeographicHint p \<rparr> else p)
              in (statusOk [''status'' \<mapsto> JStr ''announced'', ''device_id'' \<mapsto> JStr (DeviceID p)],
                  c\<lparr> coCoord := Announce (cfFormat cf) p (wClock w 0) (coCoord c) \<rparr>))"

definition handleWithdraw :: "string option \<Rightarrow> coordinator \<Rightarrow> reply \<times> coordinator" where
  "handleWithdraw body c = (case body of
       None \<Rightarrow> (failWith 400 (ErrText ''parse withdraw''), c)
     | Some deviceID \<Rightarrow> (statusOk [''status'' \<mapsto> JStr ''withdrawn''], c\<lparr> coCoord := Withdraw deviceID (coCoord c) \<rparr>))"

end
