(* ===== verification/UserHandlers.thy ===== *)
theory UserHandlers
  imports Requests
begin

text \<open>
  The handlers of \<open>cmd/coordinator/main.go\<close> for accounts and administration: startup
  grants, balances, API keys, wallet login and device links, the administrator's login, the
  treasury and its audit trail, reconciliation, and the federation reads. The handler behind
  the gate sees the request that the gate passed on.
\<close>

section \<open>Users\<close>

text \<open>
  \<open>VerifiedCapacityForPod\<close> is the capacity score of this coordinator with tolerance 0.2.
  The body is the nonce; an empty body counts as zero.
\<close>

definition VerifiedCapacityForPod :: "world \<Rightarrow> coordinator \<Rightarrow> pod_id \<Rightarrow> f64" where
  "VerifiedCapacityForPod w c pod =
     VerifiedCapacityScore (coMeasured c) (fl (2 / 10)) (wClock w 1) (wOrder w 0) (coReg c)"

datatype 'a optional_body = BadBody | EmptyBody | GoodBody 'a

definition bodyNonce :: "64 word optional_body \<Rightarrow> 64 word option" where
  "bodyNonce body = (case body of BadBody \<Rightarrow> None | EmptyBody \<Rightarrow> Some 0 | GoodBody n \<Rightarrow> Some n)"

definition handleStartupGrant :: "config \<Rightarrow> world \<Rightarrow> request \<Rightarrow> user_id \<Rightarrow> 64 word optional_body \<Rightarrow> coordinator \<Rightarrow>
    reply \<times> coordinator" where
  "handleStartupGrant cf w r userID body c =
     (let (allowed, gl) = AllowKey (ClientIP (cfNet cf) (RemoteAddr r) (Header r ''X-Forwarded-For'') (cfProxyNets cf))
            (wClock w 0) (coGrantLimiter c);
          c = c\<lparr> coGrantLimiter := gl \<rparr>
      in if \<not> allowed then (failWith 429 (ErrText ''too many startup-grant claims''), c)
         else case bodyNonce body of
             None \<Rightarrow> (failWith 400 (ErrText ''parse request''), c)
           | Some nonce \<Rightarrow>
               if \<not> VerifyProofOfWork (cfCrypto cf) userID nonce (cfGrantPoWBits cf)
               then (failWith 400 (ErrText ''missing or insufficient proof of work''), c)
               else let (l, notes) = coBooks c;
                        (res, l, notified) = IssueStartupGrant (wSql w 0) userID (cfPodID cf) (VerifiedCapacityForPod w c)
                          DEFAULT_DECAY_STEPS (wClock w 2) l;
                        c = c\<lparr> coBooks := (l, notes @ notified) \<rparr>
                    in case res of
                        Inr entry \<Rightarrow> ((200, EntryBody entry), c)
                      | Inl ErrStartupGrantAlreadyClaimed \<Rightarrow>
                          (statusOk [''amount'' \<mapsto> JNum (GrantBalance (GetBalance userID l)),
                                     ''status'' \<mapsto> JStr ''already_claimed''], c)
                      | Inl e \<Rightarrow> (failWith 400 (ErrGrant e), c))"

definition handleBalance :: "config \<Rightarrow> request \<Rightarrow> user_id \<Rightarrow> coordinator \<Rightarrow> reply" where
  "handleBalance cf r userID c =
     (if \<not> authorizeUserRead (cfCrypto cf) r userID (cfProtectReads cf) (cfApiKey cf) (coKeys c)
      then failWith 403 (ErrText ''forbidden'')
      else (200, BalanceBody (GetBalance userID (fst (coBooks c)))))"

text \<open>
  The check of ownership, which may drop an expired admin session. The constant note in the
  answer of a mint is left out.
\<close>

definition controls :: "config \<Rightarrow> world \<Rightarrow> request \<Rightarrow> user_id \<Rightarrow> coordinator \<Rightarrow> bool \<times> coordinator" where
  "controls cf w r userID c =
     (case callerControlsAccount (cfCrypto cf) r userID (cfApiKey cf) (wClock w 0) (coKeys c) (Some (coAdmin c)) of
        (ok, Some a) \<Rightarrow> (ok, c\<lparr> coAdmin := a \<rparr>) | (ok, None) \<Rightarrow> (ok, c))"

definition handleMintKey :: "config \<Rightarrow> world \<Rightarrow> request \<Rightarrow> user_id \<Rightarrow> coordinator \<Rightarrow> reply \<times> coordinator" where
  "handleMintKey cf w r userID c =
     (let (ok, c) = (if keyExists userID (coKeys c) then controls cf w r userID c else (True, c))
      in if \<not> ok then (failWith 403 (ErrText ''forbidden: this account already has an API key''), c)
         else case generateKey (cfCrypto cf) (wRand w) (wSql w 0) userID (coKeys c) of
             (Inl e, ks) \<Rightarrow> (failWith 500 (ErrKey e), c\<lparr> coKeys := ks \<rparr>)
           | (Inr key, ks) \<Rightarrow> (statusOk [''api_key'' \<mapsto> JStr key, ''user_id'' \<mapsto> JStr userID], c\<lparr> coKeys := ks \<rparr>))"

definition handleKeyExists :: "config \<Rightarrow> request \<Rightarrow> user_id \<Rightarrow> coordinator \<Rightarrow> reply" where
  "handleKeyExists cf r userID c =
     (if \<not> authorizeUserRead (cfCrypto cf) r userID (cfProtectReads cf) (cfApiKey cf) (coKeys c)
      then failWith 403 (ErrText ''forbidden'')
      else statusOk [''user_id'' \<mapsto> JStr userID, ''exists'' \<mapsto> JBool (keyExists userID (coKeys c))])"

definition handleRevokeKey :: "config \<Rightarrow> world \<Rightarrow> request \<Rightarrow> user_id \<Rightarrow> coordinator \<Rightarrow> reply \<times> coordinator" where
  "handleRevokeKey cf w r userID c =
     (let (ok, c) = controls cf w r userID c
      in if \<not> ok then (failWith 403 (ErrText ''forbidden''), c)
         else (statusOk [''status'' \<mapsto> JStr ''revoked''], c\<lparr> coKeys := revokeKey (wSql w 0) userID (coKeys c) \<rparr>))"

section \<open>Wallets\<close>

definition handleChallenge :: "world \<Rightarrow> string option \<Rightarrow> coordinator \<Rightarrow> reply \<times> coordinator" where
  "handleChallenge w body c =
     (if body = None \<or> body = Some [] then (failWith 400 (ErrText ''address required''), c)
      else case IssueChallenge (wRand w) (the body) (wClock w 0) (coWallet c) of
          (Inl e, m) \<Rightarrow> (failWith 500 (ErrWallet e), c\<lparr> coWallet := m \<rparr>)
        | (Inr chal, m) \<Rightarrow> ((200, ChallengeBody chal), c\<lparr> coWallet := m \<rparr>))"

record auth_body =
  abAddress :: string
  abNonce :: string
  abPublicKey :: string
  abSignature :: string

definition handleAccountAuth :: "config \<Rightarrow> world \<Rightarrow> auth_body option \<Rightarrow> coordinator \<Rightarrow> reply \<times> coordinator" where
  "handleAccountAuth cf w body c = (case body of
       None \<Rightarrow> (failWith 400 (ErrText ''parse auth''), c)
     | Some b \<Rightarrow>
         (case (b64Decode (abPublicKey b), b64Decode (abSignature b)) of
            (Some pub, Some sig) \<Rightarrow>
              (case VerifyChallenge (cfCrypto cf) (abAddress b) (abNonce b) pub sig (wClock w 0) (coWallet c) of
                 (Some e, m) \<Rightarrow> (failWith 401 (ErrWallet e), c\<lparr> coWallet := m \<rparr>)
               | (None, m) \<Rightarrow>
                   let c = c\<lparr> coWallet := m \<rparr>
                   in case generateKey (cfCrypto cf) (wRand w) (wSql w 0) (abAddress b) (coKeys c) of
                       (Inl e, ks) \<Rightarrow> (failWith 500 (ErrKey e), c\<lparr> coKeys := ks \<rparr>)
                     | (Inr key, ks) \<Rightarrow>
                         (statusOk [''address'' \<mapsto> JStr (abAddress b), ''api_key'' \<mapsto> JStr key], c\<lparr> coKeys := ks \<rparr>))
          | _ \<Rightarrow> (failWith 400 (ErrText ''public_key and signature must be base64''), c)))"

record link_body =
  lbDevice :: node_id
  lbPublicKey :: string
  lbSignature :: string

definition handleLinkDevice :: "config \<Rightarrow> string \<Rightarrow> link_body option \<Rightarrow> coordinator \<Rightarrow> reply \<times> coordinator" where
  "handleLinkDevice cf address body c = (case body of
       None \<Rightarrow> (failWith 400 (ErrText ''parse link''), c)
     | Some b \<Rightarrow>
         (case (b64Decode (lbPublicKey b), b64Decode (lbSignature b)) of
            (Some pub, Some sig) \<Rightarrow>
              (case LinkDevice (cfCrypto cf) address (lbDevice b) pub sig (coWallet c) of
                 (Some e, m) \<Rightarrow> (failWith 401 (ErrWallet e), c\<lparr> coWallet := m \<rparr>)
               | (None, m) \<Rightarrow> (statusOk [''status'' \<mapsto> JStr ''linked'', ''device_node_id'' \<mapsto> JStr (lbDevice b),
                   ''account'' \<mapsto> JStr address], c\<lparr> coWallet := m \<rparr>))
          | _ \<Rightarrow> (failWith 400 (ErrText ''account_public_key and signature must be base64''), c)))"

definition handleUnlinkDevice :: "config \<Rightarrow> string \<Rightarrow> link_body option \<Rightarrow> coordinator \<Rightarrow> reply \<times> coordinator" where
  "handleUnlinkDevice cf address body c = (case body of
       None \<Rightarrow> (failWith 400 (ErrText ''parse unlink''), c)
     | Some b \<Rightarrow>
         (case (b64Decode (lbPublicKey b), b64Decode (lbSignature b)) of
            (Some pub, Some sig) \<Rightarrow>
              (case UnlinkDevice (cfCrypto cf) address (lbDevice b) pub sig (coWallet c) of
                 (Some e, m) \<Rightarrow> (failWith 401 (ErrWallet e), c\<lparr> coWallet := m \<rparr>)
               | (None, m) \<Rightarrow> (statusOk [''status'' \<mapsto> JStr ''unlinked'', ''device_node_id'' \<mapsto> JStr (lbDevice b),
                   ''account'' \<mapsto> JStr address], c\<lparr> coWallet := m \<rparr>))
          | _ \<Rightarrow> (failWith 400 (ErrText ''account_public_key and signature must be base64''), c)))"

section \<open>Administration\<close>

text \<open>The check that the admin reads make themselves.\<close>

definition isAdmin :: "config \<Rightarrow> world \<Rightarrow> request \<Rightarrow> coordinator \<Rightarrow> bool \<times> coordinator" where
  "isAdmin cf w r c = (case adminAuthorized r (cfApiKey cf) (wClock w 0) (Some (coAdmin c)) of
       (ok, Some a) \<Rightarrow> (ok, c\<lparr> coAdmin := a \<rparr>) | (ok, None) \<Rightarrow> (ok, c))"

definition handleReconcile :: "config \<Rightarrow> world \<Rightarrow> request \<Rightarrow> coordinator \<Rightarrow> reply \<times> coordinator" where
  "handleReconcile cf w r c = (case isAdmin cf w r c of (ok, c) \<Rightarrow>
     (if \<not> ok then failWith 401 (ErrText ''admin API key required'')
      else (200, ReportBody (Reconcile (wOrder w 0) (fst (coBooks c)))), c))"

definition handleAdminChallenge :: "config \<Rightarrow> world \<Rightarrow> coordinator \<Rightarrow> reply \<times> coordinator" where
  "handleAdminChallenge cf w c =
     (if \<not> Configured (coAdmin c) then (failWith 404 (ErrText ''admin panel login is not configured''), c)
      else case IssueAdminChallenge (wRand w) (wClock w 0) (coAdmin c) of
          (Inl e, a) \<Rightarrow> (failWith 500 (ErrAdmin e), c\<lparr> coAdmin := a \<rparr>)
        | (Inr (nonce, expiresAt), a) \<Rightarrow> (statusOk [''nonce'' \<mapsto> JStr nonce, ''expires_at'' \<mapsto> JStr (cfFormat cf expiresAt)], c\<lparr> coAdmin := a \<rparr>))"

text \<open>The body is the nonce and the base64 signature.\<close>

definition handleAdminAuthenticate :: "config \<Rightarrow> world \<Rightarrow> (string \<times> string) option \<Rightarrow> coordinator \<Rightarrow> reply \<times> coordinator" where
  "handleAdminAuthenticate cf w body c = (case body of
       None \<Rightarrow> (failWith 400 (ErrText ''parse authenticate''), c)
     | Some (nonce, signature) \<Rightarrow>
         (case b64Decode signature of
            None \<Rightarrow> (failWith 400 (ErrText ''signature must be base64''), c)
          | Some sig \<Rightarrow>
              (case VerifyAndIssueSession (cfCrypto cf) nonce sig (wRand w) (wClock w 0) (coAdmin c) of
                 (Inl e, a) \<Rightarrow> (failWith 401 (ErrAdmin e), c\<lparr> coAdmin := a \<rparr>)
               | (Inr (token, expiresAt), a) \<Rightarrow> (statusOk [''session_token'' \<mapsto> JStr token, ''expires_at'' \<mapsto> JStr (cfFormat cf expiresAt)],
                   c\<lparr> coAdmin := a \<rparr>))))"

definition handleTreasury :: "config \<Rightarrow> world \<Rightarrow> request \<Rightarrow> coordinator \<Rightarrow> reply \<times> coordinator" where
  "handleTreasury cf w r c = (case isAdmin cf w r c of (ok, c) \<Rightarrow>
     (if \<not> ok then failWith 401 (ErrText ''admin credential required'')
      else (200, BalanceBody (GetBalance TreasuryAccount (fst (coBooks c)))), c))"

definition adjustment :: "f64 \<Rightarrow> time \<Rightarrow> CreditEntry" where
  "adjustment amount now = \<lparr> UserID = TreasuryAccount, Origin = CreditOriginAdminAdjustment, Amount = amount,
     GrantedOrEarnedAt = now, SourceReference = [] \<rparr>"

text \<open>The body is the amount and the reason; a failed audit row is only logged.\<close>

definition handleTreasuryCredit :: "world \<Rightarrow> (f64 \<times> string) option \<Rightarrow> coordinator \<Rightarrow> reply \<times> coordinator" where
  "handleTreasuryCredit w body c = (case body of
       None \<Rightarrow> (failWith 400 (ErrText ''parse treasury credit''), c)
     | Some (amount, reason) \<Rightarrow>
         if amount \<le> 0 then (failWith 400 (ErrText ''amount must be positive''), c)
         else if trimSpace reason = [] then (failWith 400 (ErrText ''reason is required''), c)
         else let (allowed, tl) = AllowKey ''admin'' (wClock w 0) (coTreasuryLimiter c); c = c\<lparr> coTreasuryLimiter := tl \<rparr>
              in if \<not> allowed then (failWith 429 (ErrText ''too many treasury credits''), c)
                 else let now = wClock w 1; (l, notes) = coBooks c;
                          (err, l, notified) = CreditAccount (wSql w 0) (adjustment amount now) l
                      in case err of
                          Some e \<Rightarrow> (failWith 500 (ErrLedger e), c)
                        | None \<Rightarrow>
                            let (_, l) = RecordAdminAction (wSql w 1) ''treasury_credit'' reason amount now l
                            in ((200, BalanceBody (GetBalance TreasuryAccount l)), c\<lparr> coBooks := (l, notes @ notified) \<rparr>))"

text \<open>The limit is 50 unless the query gives a number.\<close>

definition handleAuditLog :: "config \<Rightarrow> world \<Rightarrow> request \<Rightarrow> int option \<Rightarrow> coordinator \<Rightarrow> reply \<times> coordinator" where
  "handleAuditLog cf w r limit c = (case isAdmin cf w r c of (ok, c) \<Rightarrow>
     (if \<not> ok then failWith 401 (ErrText ''admin credential required'')
      else (200, ActionsBody (RecentAdminActions (case limit of None \<Rightarrow> 50 | Some n \<Rightarrow> n) (fst (coBooks c)))), c))"

section \<open>Federation reads\<close>

definition handleIdentity :: "config \<Rightarrow> bytes \<Rightarrow> reply" where
  "handleIdentity cf coordPub = (200, IdentityBody \<lparr> IdentPodID = cfPodID cf, IdentPublicKey = hexEncode coordPub \<rparr>)"

text \<open>The query parameter: None when absent, otherwise the parsed number, with None for a bad one.\<close>

definition handleLedgerEvents :: "config \<Rightarrow> request \<Rightarrow> 64 word option option \<Rightarrow> fed_store \<Rightarrow> reply" where
  "handleLedgerEvents cf r since s =
     (if \<not> federationAuthorized r (cfFederationKey cf) then failWith 401 (ErrText ''federation-key required'')
      else case (case since of None \<Rightarrow> Some 0 | Some n \<Rightarrow> n) of
          None \<Rightarrow> failWith 400 (ErrText ''invalid since'')
        | Some n \<Rightarrow> (200, EventsBody (cfPodID cf) (SelfEventsSince n s)))"

record peer_answers =
  peerIdentity :: "IdentityResponse http_get"
  peerEvents :: "64 word \<Rightarrow> LedgerEvent list http_get"
  peerBalance :: "Balance http_get"

definition handleFederationAudit :: "config \<Rightarrow> (nat \<Rightarrow> nat \<Rightarrow> bool) \<Rightarrow> request \<Rightarrow> user_id \<Rightarrow> string \<Rightarrow> peer_answers \<Rightarrow>
    fed_store \<Rightarrow> reply \<times> fed_store" where
  "handleFederationAudit cf sql r userID peerEndpoint peer s =
     (if \<not> federationAuthorized r (cfFederationKey cf) then (failWith 401 (ErrText ''federation-key required''), s)
      else if peerEndpoint = [] then (failWith 400 (ErrText ''peer_endpoint query param required''), s)
      else case FetchIdentity (peerIdentity peer) of
          Inl e \<Rightarrow> (failWith 502 (ErrClient e), s)
        | Inr ident \<Rightarrow>
            (case FetchEventsSince (peerEvents peer) (WitnessedHighWatermark (IdentPodID ident) s) of
               Inl e \<Rightarrow> (failWith 502 (ErrClient e), s)
             | Inr events \<Rightarrow>
                 let (rejected, s) = storeBatch (cfCrypto cf) (cfEventCodec cf) sql 0 events s
                 in case FetchBalance (peerBalance peer) of
                     Inl e \<Rightarrow> (failWith 502 (ErrClient e), s)
                   | Inr balance \<Rightarrow>
                       let gross = WitnessedGrossCredits (IdentPodID ident) userID s
                       in ((200, AuditBody (IdentPodID ident) userID (Total balance) gross (Total balance \<le> gross) rejected), s)))"

section \<open>Lemmas\<close>

lemma generateKey_lookup:
  assumes "generateKey C (Some bs) ok u s = (Inr key, s')"
  shows "key = rawAPIKey bs \<and> lookupKey C key s' = Some u"
  using assms by (auto simp: generateKey_def lookupKey_def Let_def split: if_splits)

lemma generateKey_ok:
  "keyTable s = None \<or> ok \<Longrightarrow> \<exists>s'. generateKey C (Some bs) ok u s = (Inr (rawAPIKey bs), s')"
  by (auto simp: generateKey_def Let_def)

text \<open>A key of the store opens every gated route, whoever its user is.\<close>

lemma gate_passes_any_key:
  assumes "Method r = ''POST''" "\<not> isSelfAuthenticatingWrite ''POST'' (URLPath r)" "bearer r = rawAPIKey bs" "rawAPIKey bs \<noteq> adminKey"
    and "lookupKey C (rawAPIKey bs) keys = Some u" "\<forall>l. quota = Some l \<longrightarrow> fst (AllowKey (''user:'' @ u) now l)"
  shows "fst (authMiddleware C adminKey keys now r (adminAuth, quota)) = Pass (r\<lparr> Header := (Header r)(''X-OIM-User-ID'' := u) \<rparr>)"
proof -
  have p: "hasPrefix (rawAPIKey bs) ''oim_''" "rawAPIKey bs \<noteq> []" by (simp_all add: rawAPIKey_def hasPrefix_iff)
  have "adminAuthorized r adminKey now adminAuth = (False, adminAuth)"
    using assms(3,4) p oim_not_session[OF p(1)] by (auto simp: adminAuthorized_def Let_def split: option.splits)
  then show ?thesis using assms p
    by (auto simp: authMiddleware_def map_prod_def Let_def split: option.splits prod.splits)
qed

lemma handleTreasuryCredit_ok:
  assumes "0 < amount" "trimSpace reason \<noteq> []" "fst (AllowKey ''admin'' (wClock w 0) (coTreasuryLimiter c))" "wSql w 0"
  shows "\<exists>b c'. handleTreasuryCredit w (Some (amount, reason)) c = ((200, BalanceBody b), c') \<and> coKeys c' = coKeys c \<and>
    netIssue c' = netIssue c + amount \<and> coAdmin c' = coAdmin c"
proof -
  obtain tl where tl: "AllowKey ''admin'' (wClock w 0) (coTreasuryLimiter c) = (True, tl)" using assms(3) by (metis prod.collapse)
  obtain l ns where b: "coBooks c = (l, ns)" by (cases "coBooks c")
  obtain l1 ns1 where cr: "CreditAccount True (adjustment amount (wClock w 1)) l = (None, l1, ns1)"
    "entries l1 = entries l @ [adjustment amount (wClock w 1)]" "debits l1 = debits l"
    by (cases "db l") (simp_all add: CreditAccount_def creditLocked_def)
  obtain e l2 where au: "RecordAdminAction (wSql w 1) ''treasury_credit'' reason amount (wClock w 1) l1 = (e, l2)"
    by (cases "RecordAdminAction (wSql w 1) ''treasury_credit'' reason amount (wClock w 1) l1")
  have l2: "entries l2 = entries l1" "debits l2 = debits l1"
    using au by (auto simp: RecordAdminAction_def Let_def split: option.splits if_splits)
  show ?thesis using assms(1,2,4) tl cr au l2
    by (simp add: handleTreasuryCredit_def b Let_def netIssue_def creditSum_def debitSum_def adjustment_def)
qed

section \<open>Properties\<close>

text \<open>
  Anyone can take over the treasury and mint its money. As long as the treasury account has
  no API key, a request without any credential is let through to the mint handler and gets
  a key for it; that key, like the key of any user, opens the gate of
  \<open>POST /admin/treasury/credit\<close>, whose handler asks for no administrator: the requested
  amount is created, and the key identifies its holder as the treasury from then on.
\<close>

theorem treasury_takeover:
  assumes free: "\<not> keyExists TreasuryAccount (coKeys c)" and rand: "wRand w1 = Some bs" "keyTable (coKeys c) = None \<or> wSql w1 0"
    and mint: "Method r1 = ''POST''" "URLPath r1 = ''/users/'' @ TreasuryAccount @ ''/api-key''"
    and spend: "Method r2 = ''POST''" "URLPath r2 = ''/admin/treasury/credit''" "bearer r2 = rawAPIKey bs" "rawAPIKey bs \<noteq> cfApiKey cf"
    and quota: "\<forall>l. quota = Some l \<longrightarrow> fst (AllowKey (''user:'' @ TreasuryAccount) now2 l)"
    and body: "0 < amount" "trimSpace reason \<noteq> []" "fst (AllowKey ''admin'' (wClock w2 0) (coTreasuryLimiter c))" "wSql w2 0"
  shows "\<exists>c1 c2 fields b.
    fst (authMiddleware (cfCrypto cf) (cfApiKey cf) (coKeys c) now1 r1 (Some (coAdmin c), quota)) = Pass r1 \<and>
    handleMintKey cf w1 r1 TreasuryAccount c = ((200, Fields fields), c1) \<and> fields ''api_key'' = Some (JStr (rawAPIKey bs)) \<and>
    fst (authMiddleware (cfCrypto cf) (cfApiKey cf) (coKeys c1) now2 r2 (Some (coAdmin c1), quota)) =
      Pass (r2\<lparr> Header := (Header r2)(''X-OIM-User-ID'' := TreasuryAccount) \<rparr>) \<and>
    handleTreasuryCredit w2 (Some (amount, reason)) c1 = ((200, BalanceBody b), c2) \<and>
    netIssue c2 = netIssue c + amount \<and> lookupKey (cfCrypto cf) (rawAPIKey bs) (coKeys c2) = Some TreasuryAccount"
proof -
  have open1: "fst (authMiddleware (cfCrypto cf) (cfApiKey cf) (coKeys c) now1 r1 (Some (coAdmin c), quota)) = Pass r1"
    by (simp add: authMiddleware_def mint isSelfAuthenticatingWrite_def hasPrefix_iff hasSuffix_iff)
  obtain ks where g: "generateKey (cfCrypto cf) (Some bs) (wSql w1 0) TreasuryAccount (coKeys c) = (Inr (rawAPIKey bs), ks)"
    using generateKey_ok[OF rand(2)] by blast
  define c1 where "c1 = c\<lparr> coKeys := ks \<rparr>"
  have m: "handleMintKey cf w1 r1 TreasuryAccount c =
      ((200, Fields [''api_key'' \<mapsto> JStr (rawAPIKey bs), ''user_id'' \<mapsto> JStr TreasuryAccount]), c1)"
    using free rand(1) g by (simp add: handleMintKey_def statusOk_def c1_def)
  have k: "lookupKey (cfCrypto cf) (rawAPIKey bs) (coKeys c1) = Some TreasuryAccount"
    using generateKey_lookup[OF g] by (simp add: c1_def)
  have "\<not> isSelfAuthenticatingWrite ''POST'' (URLPath r2)" by (simp add: spend(2) isSelfAuthenticatingWrite_def hasPrefix_def)
  from gate_passes_any_key[OF spend(1) this spend(3,4) k quota]
  have p: "fst (authMiddleware (cfCrypto cf) (cfApiKey cf) (coKeys c1) now2 r2 (Some (coAdmin c1), quota)) =
      Pass (r2\<lparr> Header := (Header r2)(''X-OIM-User-ID'' := TreasuryAccount) \<rparr>)" .
  have "fst (AllowKey ''admin'' (wClock w2 0) (coTreasuryLimiter c1))" using body(3) by (simp add: c1_def)
  from handleTreasuryCredit_ok[OF body(1,2) this body(4)] obtain b c2 where
    t: "handleTreasuryCredit w2 (Some (amount, reason)) c1 = ((200, BalanceBody b), c2)" "coKeys c2 = coKeys c1"
      "netIssue c2 = netIssue c1 + amount" by blast
  have "netIssue c1 = netIssue c" by (simp add: c1_def netIssue_def)
  then show ?thesis using open1 m p t k
    by (intro exI[of _ c1] exI[of _ c2] exI[of _ "[''api_key'' \<mapsto> JStr (rawAPIKey bs), ''user_id'' \<mapsto> JStr TreasuryAccount]"] exI[of _ b])
      simp
qed

theorem treasury_takeover_witness:
  "\<exists>c1 c2 fields b. handleMintKey plainConfig (obligingWorld\<lparr> wRand := Some [7] \<rparr>) (forgedRequest\<lparr> Header := (\<lambda>h. []),
       URLPath := ''/users/oim-treasury/api-key'' \<rparr>) TreasuryAccount emptyCoordinator = ((200, Fields fields), c1) \<and>
     handleTreasuryCredit obligingWorld (Some (1000000, ''gift'')) c1 = ((200, BalanceBody b), c2) \<and>
     netIssue c2 = netIssue emptyCoordinator + 1000000"
proof -
  let ?r1 = "forgedRequest\<lparr> Header := (\<lambda>h. []), URLPath := ''/users/oim-treasury/api-key'' \<rparr>"
  let ?r2 = "forgedRequest\<lparr> Header := (\<lambda>h. [])(''Authorization'' := ''Bearer '' @ rawAPIKey [7]), URLPath := ''/admin/treasury/credit'' \<rparr>"
  have b: "bearer ?r2 = rawAPIKey [7]" by (simp add: bearer_def trimPrefix_def hasPrefix_def)
  have e: "\<not> keyExists TreasuryAccount (coKeys emptyCoordinator)" "keyTable (coKeys emptyCoordinator) = None"
    by (simp_all add: keyExists_def emptyCoordinator_def newAPIKeyStore_def)
  have f: "Method ?r1 = ''POST''" "URLPath ?r1 = ''/users/'' @ TreasuryAccount @ ''/api-key''" "Method ?r2 = ''POST''"
    "URLPath ?r2 = ''/admin/treasury/credit''" "rawAPIKey [7] \<noteq> cfApiKey plainConfig" "trimSpace ''gift'' \<noteq> []"
    by (simp_all add: forgedRequest_def TreasuryAccount_def plainConfig_def rawAPIKey_def trimSpace_def isSpace_def Let_def)
  have w: "wRand (obligingWorld\<lparr> wRand := Some [7] \<rparr>) = Some [7]" "wSql obligingWorld 0"
    "fst (AllowKey ''admin'' (wClock obligingWorld 0) (coTreasuryLimiter emptyCoordinator))"
    by (simp_all add: obligingWorld_def emptyCoordinator_def AllowKey_def NewRateLimiter_def)
  from treasury_takeover[of emptyCoordinator "obligingWorld\<lparr> wRand := Some [7] \<rparr>" "[7]" ?r1 ?r2 plainConfig None 0 1000000 "''gift''" obligingWorld 0,
      OF e(1) w(1) disjI1[OF e(2)] f(1,2,3,4) b f(5) _ _ f(6) w(3,2)]
  show ?thesis by auto
qed

end
