(* ===== verification/Chat.thy ===== *)
theory Chat
  imports Requests
begin

text \<open>
  Serving a chat completion, \<open>POST /v1/chat/completions\<close> and \<open>POST /v1/reserve-node\<close> of
  \<open>cmd/coordinator/main.go\<close>: the credit gate, the routing decision, pointer attribution,
  dispatch (streamed, reserved, best node, or held in the queue) and settlement. The phases
  are definitions of their own; the handler runs them in order. The result is None only if
  the retry loop of a queued job never ends. A job that waits in the queue has left it when
  its worker starts; what else happened to the queue meanwhile is not part of the request.
\<close>

section \<open>Reserving a node\<close>

definition tierOf :: "string \<Rightarrow> string" where
  "tierOf s =
     (if s = SensitivityLow then SensitivityLow
      else if s = SensitivityHighRequiresAttestation then SensitivityHighRequiresAttestation
      else SensitivityModerate)"

text \<open>The body is the model and the sensitivity.\<close>

definition handleReserve :: "config \<Rightarrow> world \<Rightarrow> (string \<times> string) option \<Rightarrow> coordinator \<Rightarrow> reply \<times> coordinator" where
  "handleReserve cf w body c = (case body of
       None \<Rightarrow> (failWith 400 (ErrText ''parse request''), c)
     | Some (model, sensitivity) \<Rightarrow>
         let job = emptyJob\<lparr> ModelID := model, Lane := JobLaneFast, Sensitivity := tierOf sensitivity \<rparr>
         in case PickBestNode (wDraw1 w) (wDraw2 w) job (wClock w 0) (wOrder w 0) (coReg c) of
             None \<Rightarrow> (failWith 503 (ErrText ''no eligible nodes''), c)
           | Some n \<Rightarrow>
               if ECDHPublicKey (Manifest n) = []
               then (failWith 503 (ErrText ''selected node does not support encrypted-pointer jobs''), c)
               else let now = wClock w 1;
                        (resID, rs) = CreateReservation (wRand w) (TargetFromManifest (Manifest n)) now (coReservations c);
                        c = c\<lparr> coReservations := rs \<rparr>
                    in case resID of
                        None \<Rightarrow> (failWith 500 (ErrText ''generate reservation id''), c)
                      | Some rid \<Rightarrow> (statusOk [''reservation_id'' \<mapsto> JStr rid, ''node_id'' \<mapsto> JStr (NodeID (Manifest n)),
                          ''ecdh_public_key'' \<mapsto> JStr (ECDHPublicKey (Manifest n)),
                          ''expires_at'' \<mapsto> JStr (cfFormat cf (now + ReservationTTL))], c))"

section \<open>The request\<close>

record chat_request =
  crModel :: string
  crMessages :: "jobj list"
  crMaxTokens :: int
  crStream :: bool
  crJobID :: job_id
  crSensitiv :: string
  crMaxPrice :: f64
  crHint :: "RouterHint option"
  crSensOverride :: string
  crPayloadHash :: string
  crPayloadFetchURL :: string
  crEphemeralPubKey :: string
  crReservationID :: string

definition defaultMaxTokens :: int where "defaultMaxTokens = 2048"

definition chatMaxTok :: "chat_request \<Rightarrow> int" where
  "chatMaxTok req = (if crMaxTokens req \<le> 0 then defaultMaxTokens else crMaxTokens req)"

definition estimatedCost :: "chat_request \<Rightarrow> coordinator \<Rightarrow> f64" where
  "estimatedCost req c =
     ConsumerCostWithActivityDiscount LaneFast (crSensitiv req) (chatMaxTok req) (BackpressurePct (coQueue c))"

text \<open>The credit gate: the refusal, or None to go on.\<close>

definition creditGate :: "config \<Rightarrow> user_id \<Rightarrow> chat_request \<Rightarrow> coordinator \<Rightarrow> reply option" where
  "creditGate cf userID req c =
     (if userID = [] \<and> \<not> cfAllowAnon cf then Some (failWith 401 (ErrText ''unidentified caller''))
      else if userID \<noteq> [] \<and> Total (GetBalance userID (fst (coBooks c))) < estimatedCost req c
        then Some (402, Fields [''error'' \<mapsto> JStr ''insufficient_credits'',
          ''balance'' \<mapsto> JNum (Total (GetBalance userID (fst (coBooks c)))),
          ''required'' \<mapsto> JNum (estimatedCost req c), ''max_tokens'' \<mapsto> JNum (of_int (chatMaxTok req))])
      else None)"

definition chatSensitivity :: "user_id \<Rightarrow> chat_request \<Rightarrow> string" where
  "chatSensitivity userID req =
     fst (ResolveRouting userID (crHint req) (crSensOverride req) (tierOf (crSensitiv req)) None)"

definition chatJobID :: "world \<Rightarrow> chat_request \<Rightarrow> job_id" where
  "chatJobID w req = (if crJobID req = [] then ''job-'' @ decimal (nat (wClock w 0)) else crJobID req)"

definition chatJob :: "user_id \<Rightarrow> job_id \<Rightarrow> chat_request \<Rightarrow> JobSpec" where
  "chatJob userID jobID req = emptyJob\<lparr> SpecJobID := jobID, ModelID := crModel req, Lane := JobLaneFast,
     Sensitivity := chatSensitivity userID req, MaxPricePerUnit := crMaxPrice req, RedundancyDepth := 0,
     PayloadRef := crPayloadHash req, PayloadFetchURL := crPayloadFetchURL req,
     PayloadEphemeralPubKey := crEphemeralPubKey req \<rparr>"

definition payloadGuard :: "config \<Rightarrow> chat_request \<Rightarrow> fetch_error option" where
  "payloadGuard cf req =
     (if crPayloadFetchURL req = [] then None
      else ValidateFetchURL (cfNet cf) (cfParseURL cf) (cfLookupIP cf) (crPayloadFetchURL req))"

section \<open>Dispatch\<close>

text \<open>
  The buffered dispatch: a reservation pins its node, otherwise the router chooses; a refusal
  of the reservation is 409 at once.
\<close>

definition chatDispatch :: "config \<Rightarrow> world \<Rightarrow> JobSpec \<Rightarrow> chat_request \<Rightarrow> coordinator \<Rightarrow>
    (reply + (dispatch_error + jobj option)) \<times> coordinator" where
  "chatDispatch cf w job req c =
     (if crReservationID req \<noteq> []
      then case ResolveReservation (crReservationID req) (wClock w 2) (coReservations c) of
          (None, rs) \<Rightarrow> (Inl (failWith 409 (ErrText ''reservation_expired_or_unknown'')), c\<lparr> coReservations := rs \<rparr>)
        | (Some res, rs) \<Rightarrow>
            (case DispatchToResolvedNode (wNet w) job (crMessages req) (ResTarget res) (coReg c) of
               (out, r) \<Rightarrow> (Inr out, c\<lparr> coReservations := rs, coReg := r \<rparr>))
      else case DispatchFastLane (wNet w) (wDraw1 w) (wDraw2 w) job (crMessages req) (cfMaxAttempts cf) (wClock w 2)
             (wOrder w 0) (coReg c) of
          (out, r, tried) \<Rightarrow> (Inr out, c\<lparr> coReg := r \<rparr>))"

text \<open>
  Waiting for the worker, unless the client leaves first. The worker that answers has taken
  the job, and the workers the jobs before it, from the channel; the job of a client that
  left stays in it.
\<close>

definition awaitQueued :: "config \<Rightarrow> world \<Rightarrow> QueuedJob \<Rightarrow> registry \<Rightarrow> ((queue_error + jobj option) \<times> registry) option" where
  "awaitQueued cf w qj r =
     (if wGone w then Some (Inl CallerGone, r) else processJob (wRounds w) (cfMaxAttempts cf) qj 0 r)"

definition chatEnqueue :: "config \<Rightarrow> world \<Rightarrow> JobSpec \<Rightarrow> chat_request \<Rightarrow> coordinator \<Rightarrow>
    ((queue_error + jobj option) \<times> coordinator) option" where
  "chatEnqueue cf w job req c =
     (case EnqueueJob job (crMessages req) DefaultQueueTimeout (wClock w 3) (coQueue c) of
        (Some e, q) \<Rightarrow> Some (Inl e, c\<lparr> coQueue := q \<rparr>)
      | (None, q) \<Rightarrow>
          map_option (\<lambda>(res, r). (res, c\<lparr> coQueue := (if wGone w then q else takeJobs (length (ch q)) q), coReg := r \<rparr>))
            (awaitQueued cf w \<lparr> qJob = job, qMessages = crMessages req,
               qDeadline = queueDeadline (wClock w 3) DefaultQueueTimeout \<rparr> (coReg c)))"

section \<open>The handler\<close>

text \<open>\<open>later\<close> drops the statement outcomes that the pointer attribution may have used up.\<close>

definition later :: "world \<Rightarrow> nat \<Rightarrow> bool" where "later w k = wSql w (k + 2)"

definition chatFinish :: "world \<Rightarrow> user_id \<Rightarrow> job_id \<Rightarrow> chat_request \<Rightarrow> jobj option \<Rightarrow> coordinator \<Rightarrow> reply \<times> coordinator" where
  "chatFinish w userID jobID req result c =
     ((200, ResultBody result),
      snd (settleBuffered (later w) (wClock w 4) userID jobID (crSensitiv req) (chatMaxTok req) result c))"

definition chatBuffered :: "config \<Rightarrow> world \<Rightarrow> request \<Rightarrow> user_id \<Rightarrow> job_id \<Rightarrow> chat_request \<Rightarrow> coordinator \<Rightarrow>
    (reply \<times> coordinator) option" where
  "chatBuffered cf w r userID jobID req c =
     (let job = chatJob userID jobID req
      in case chatDispatch cf w job req c of
          (Inl refusal, c) \<Rightarrow> Some (refusal, c)
        | (Inr (Inr result), c) \<Rightarrow> Some (chatFinish w userID jobID req result c)
        | (Inr (Inl err), c) \<Rightarrow>
            if Header r ''X-OIM-Queue'' = ''true'' \<and> crReservationID req = []
            then case chatEnqueue cf w job req c of
                None \<Rightarrow> None
              | Some (Inl e, c) \<Rightarrow> Some (failWith 503 (ErrQueue e), c)
              | Some (Inr result, c) \<Rightarrow> Some (chatFinish w userID jobID req result c)
            else Some (failWith 503 (ErrDispatch err), c))"

definition chatStreamed :: "config \<Rightarrow> world \<Rightarrow> user_id \<Rightarrow> job_id \<Rightarrow> chat_request \<Rightarrow> coordinator \<Rightarrow> reply \<times> coordinator" where
  "chatStreamed cf w userID jobID req c =
     (case DispatchFastLaneStreaming (wStream w) (elapsedNs (wNet w)) (wDraw1 w) (wDraw2 w) (chatJob userID jobID req)
            (crMessages req) (cfMaxAttempts cf) (wClock w 2) (wOrder w 0) (coReg c) of
        (res, rg, tried) \<Rightarrow>
          let c = c\<lparr> coReg := rg \<rparr>
          in case dispatchErr res of
              Some e \<Rightarrow> ((if headersSent res then (200, StreamBody res) else failWith 503 (ErrDispatch e)), c)
            | None \<Rightarrow> ((200, StreamBody res),
                snd (settleStreaming (later w) (wClock w 4) userID jobID (crSensitiv req) (servedBy res) (servedTokens res) c)))"

definition handleChat :: "config \<Rightarrow> world \<Rightarrow> request \<Rightarrow> chat_request option \<Rightarrow> coordinator \<Rightarrow> (reply \<times> coordinator) option" where
  "handleChat cf w r body c = (case body of
       None \<Rightarrow> Some (failWith 400 (ErrText ''parse request''), c)
     | Some req \<Rightarrow>
         let userID = Header r ''X-OIM-User-ID''
         in case creditGate cf userID req c of
             Some refusal \<Rightarrow> Some (refusal, c)
           | None \<Rightarrow>
               (case payloadGuard cf req of
                  Some e \<Rightarrow> Some (failWith 400 (ErrFetch e), c)
                | None \<Rightarrow>
                    let jobID = chatJobID w req;
                        c = (if crPayloadHash req \<noteq> []
                             then creditPointerHost (wSql w) (wClock w 1) (Header r ''X-OIM-Pointer-Host'') jobID c else c)
                    in if crStream req \<and> crReservationID req = []
                       then Some (chatStreamed cf w userID jobID req c)
                       else chatBuffered cf w r userID jobID req c))"

section \<open>What the phases leave alone\<close>

lemma postCredit_debits: "debits (fst (postCredit ok e b)) = debits (fst b)"
  by (cases b) (auto simp: postCredit_def CreditAccount_def creditLocked_def split: sum.splits option.splits if_splits)

lemma creditNodeEarning_debits:
  "debits (fst (creditNodeEarning sql now w us r n job lane sens t charge b)) = debits (fst b)"
  by (simp add: creditNodeEarning_def Let_def postCredit_debits)

lemma creditServed_keeps:
  "debits (fst (coBooks (creditServed sql now n job sens t cost c))) = debits (fst (coBooks c))"
  "coQueue (creditServed sql now n job sens t cost c) = coQueue c"
  "coKeys (creditServed sql now n job sens t cost c) = coKeys c"
  by (simp_all add: creditServed_def creditNodeEarning_debits)

text \<open>A debit of the caller for a job.\<close>

definition callerDebit :: "user_id \<Rightarrow> job_id \<Rightarrow> ledgerDebit \<Rightarrow> bool" where
  "callerDebit u job d \<longleftrightarrow> u \<noteq> [] \<and> DebitUserID d = u \<and> JobID d = job"

lemma debitCaller_debits:
  "\<exists>ds. debits (fst (coBooks (snd (debitCaller ok now u cost job c)))) = debits (fst (coBooks c)) @ ds \<and> length ds \<le> 1 \<and>
     (\<forall>d \<in> set ds. DebitUserID d = u \<and> JobID d = job)"
proof -
  obtain paid l where d: "DebitAccount ok u cost job now (fst (coBooks c)) = (paid, l)"
    by (cases "DebitAccount ok u cost job now (fst (coBooks c))")
  then show ?thesis
    by (cases paid) (auto simp: debitCaller_def dest: DebitAccount_True(1) DebitAccount_False)
qed

definition debits_added :: "user_id \<Rightarrow> job_id \<Rightarrow> coordinator \<Rightarrow> coordinator \<Rightarrow> bool" where
  "debits_added u job c c' \<longleftrightarrow>
     (\<exists>ds. debits (fst (coBooks c')) = debits (fst (coBooks c)) @ ds \<and> length ds \<le> 1 \<and> (\<forall>d \<in> set ds. callerDebit u job d))"

lemma debits_added_refl: "debits (fst (coBooks c')) = debits (fst (coBooks c)) \<Longrightarrow> debits_added u job c c'"
  by (simp add: debits_added_def)

lemma settleBuffered_debits: "debits_added u job c (snd (settleBuffered sql now u job sens maxTok result c))"
proof (cases "u = []")
  case True
  then show ?thesis by (simp add: settleBuffered_def Let_def debits_added_def creditServed_keeps)
next
  case False
  obtain n t cost where s: "settleBuffered sql now u job sens maxTok result c =
      debitCaller (sql 2) now u cost job (creditServed sql now n job sens t cost c)"
    using False by (simp add: settleBuffered_def Let_def)
  show ?thesis unfolding s debits_added_def callerDebit_def
    using debitCaller_debits[of "sql 2" now u cost job "creditServed sql now n job sens t cost c"] False
    by (auto simp: creditServed_keeps)
qed

lemma settleStreaming_debits: "debits_added u job c (snd (settleStreaming sql now u job sens n t c))"
proof (cases "u \<noteq> [] \<and> t > 0")
  case False
  then obtain cost where s: "settleStreaming sql now u job sens n t c = (False, creditServed sql now n job sens t cost c)"
    unfolding settleStreaming_def Let_def by (simp only: if_False)
  show ?thesis unfolding s by (simp add: debits_added_def creditServed_keeps)
next
  case True
  obtain cost where s: "settleStreaming sql now u job sens n t c =
      debitCaller (sql 2) now u cost job (creditServed sql now n job sens t cost c)"
    using True by (simp add: settleStreaming_def Let_def)
  show ?thesis unfolding s debits_added_def callerDebit_def
    using debitCaller_debits[of "sql 2" now u cost job "creditServed sql now n job sens t cost c"] True
    by (auto simp: creditServed_keeps)
qed

lemma chatDispatch_books: "chatDispatch cf w job req c = (out, c') \<Longrightarrow> coBooks c' = coBooks c"
  by (auto simp: chatDispatch_def split: option.splits prod.splits if_splits)

lemma chatEnqueue_books: "chatEnqueue cf w job req c = Some (out, c') \<Longrightarrow> coBooks c' = coBooks c"
  by (auto simp: chatEnqueue_def split: option.splits prod.splits)

text \<open>A phase that ends a request: either it charges nothing, or it was served.\<close>

definition charged_if_served :: "user_id \<Rightarrow> job_id \<Rightarrow> coordinator \<Rightarrow> reply \<times> coordinator \<Rightarrow> bool" where
  "charged_if_served u job c out \<longleftrightarrow> (coBooks (snd out) = coBooks c \<and> fst (fst out) \<in> {409, 503, 200}) \<or>
     (fst (fst out) = 200 \<and> debits_added u job c (snd out))"

lemma chatFinish_charged:
  assumes "coBooks c1 = coBooks c"
  shows "charged_if_served u job c (chatFinish w u job req result c1)"
proof -
  have "debits_added u job c1 (snd (settleBuffered (later w) (wClock w 4) u job (crSensitiv req) (chatMaxTok req) result c1))"
    by (rule settleBuffered_debits)
  then show ?thesis using assms by (simp add: charged_if_served_def chatFinish_def debits_added_def)
qed

lemma chatBuffered_charged:
  assumes "chatBuffered cf w r u job req c = Some out"
  shows "charged_if_served u job c out"
proof -
  obtain d c1 where d: "chatDispatch cf w (chatJob u job req) req c = (d, c1)"
    by (cases "chatDispatch cf w (chatJob u job req) req c")
  note b = chatDispatch_books[OF d]
  show ?thesis
  proof (cases d)
    case (Inl refusal)
    then have "refusal = failWith 409 (ErrText ''reservation_expired_or_unknown'')"
      using d by (auto simp: chatDispatch_def split: option.splits prod.splits if_splits)
    then show ?thesis using assms d b Inl by (auto simp: chatBuffered_def Let_def charged_if_served_def failWith_def)
  next
    case (Inr res)
    show ?thesis
    proof (cases res)
      case (Inr result)
      then show ?thesis using assms d chatFinish_charged[OF b] \<open>d = Inr res\<close> by (auto simp: chatBuffered_def Let_def)
    next
      case (Inl err)
      show ?thesis
      proof (cases "Header r ''X-OIM-Queue'' = ''true'' \<and> crReservationID req = []")
        case False
        then show ?thesis using assms d b Inl \<open>d = Inr res\<close>
          by (auto simp: chatBuffered_def Let_def charged_if_served_def failWith_def)
      next
        case True
        then obtain o2 c2 where q: "chatEnqueue cf w (chatJob u job req) req c1 = Some (o2, c2)"
          using assms d Inl \<open>d = Inr res\<close> by (auto simp: chatBuffered_def Let_def split: option.splits)
        from chatEnqueue_books[OF q] b have b2: "coBooks c2 = coBooks c" by simp
        have o: "out = (case o2 of Inl e \<Rightarrow> (failWith 503 (ErrQueue e), c2) | Inr result \<Rightarrow> chatFinish w u job req result c2)"
          using assms d q Inl \<open>d = Inr res\<close> True by (auto simp: chatBuffered_def Let_def split: sum.splits)
        show ?thesis
        proof (cases o2)
          case (Inl e)
          then show ?thesis using o b2 by (simp add: charged_if_served_def failWith_def)
        next
          case (Inr result)
          then show ?thesis using o chatFinish_charged[OF b2] by simp
        qed
      qed
    qed
  qed
qed

lemma chatStreamed_charged: "charged_if_served u job c (chatStreamed cf w u job req c)"
proof -
  obtain res rg tried where d: "DispatchFastLaneStreaming (wStream w) (elapsedNs (wNet w)) (wDraw1 w) (wDraw2 w) (chatJob u job req)
      (crMessages req) (cfMaxAttempts cf) (wClock w 2) (wOrder w 0) (coReg c) = (res, rg, tried)"
    by (metis prod_cases3)
  have "debits_added u job (c\<lparr> coReg := rg \<rparr>) (snd (settleStreaming (later w) (wClock w 4) u job (crSensitiv req)
      (servedBy res) (servedTokens res) (c\<lparr> coReg := rg \<rparr>)))"
    by (rule settleStreaming_debits)
  then show ?thesis
    by (auto simp: chatStreamed_def d Let_def charged_if_served_def failWith_def debits_added_def split: option.splits)
qed

text \<open>The pointer attribution may debit the treasury one flat reward.\<close>

definition pointerDebit :: "job_id \<Rightarrow> ledgerDebit \<Rightarrow> bool" where
  "pointerDebit job d \<longleftrightarrow> DebitUserID d = TreasuryAccount \<and> DebitAmount d = CoordinationReward 1 \<and> JobID d = job @ ''-coord''"

lemma creditPointerHost_debits:
  "\<exists>ds. debits (fst (coBooks (creditPointerHost sql now host job c))) = debits (fst (coBooks c)) @ ds \<and>
     (\<forall>d \<in> set ds. pointerDebit job d)"
proof -
  obtain known cr where k: "RecordPointerServed host (coCoord c) = (known, cr)" by (cases "RecordPointerServed host (coCoord c)")
  show ?thesis
  proof (cases "host = [] \<or> \<not> known \<or> AccountForDevice host (coWallet c) = None")
    case True
    then show ?thesis by (auto simp: creditPointerHost_def k Let_def split: option.splits)
  next
    case False
    then obtain acct where a: "AccountForDevice host (coWallet c) = Some acct" by auto
    obtain l ns where p: "postCredit (sql 0) (earnedEntry acct (CoordinationReward 1) now (job @ ''-coord'')) (coBooks c) = (l, ns)"
      by (cases "postCredit (sql 0) (earnedEntry acct (CoordinationReward 1) now (job @ ''-coord'')) (coBooks c)")
    have l: "debits l = debits (fst (coBooks c))" using postCredit_debits[of "sql 0" _ "coBooks c"] p by (metis fst_conv)
    obtain paid l2 where d: "DebitAccount (sql 1) TreasuryAccount (CoordinationReward 1) (job @ ''-coord'') now l = (paid, l2)"
      by (cases "DebitAccount (sql 1) TreasuryAccount (CoordinationReward 1) (job @ ''-coord'') now l")
    have "\<exists>ds. debits l2 = debits l @ ds \<and> (\<forall>x \<in> set ds. pointerDebit job x)"
      using d by (cases paid) (auto simp: pointerDebit_def dest: DebitAccount_True(1) DebitAccount_False)
    then obtain ds where ds: "debits l2 = debits l @ ds" "\<forall>x \<in> set ds. pointerDebit job x" by blast
    have "debits (fst (coBooks (creditPointerHost sql now host job c))) =
        (if Total (GetBalance TreasuryAccount l) \<ge> CoordinationReward 1 then debits l2 else debits l)"
      using False a d by (simp add: creditPointerHost_def k Let_def p)
    then show ?thesis using ds l by (cases "Total (GetBalance TreasuryAccount l) \<ge> CoordinationReward 1") auto
  qed
qed

lemma creditGate_codes: "creditGate cf u req c = Some reply \<Longrightarrow> fst reply \<in> {401, 402}"
  by (auto simp: creditGate_def failWith_def split: if_splits)

text \<open>The request behind the gate and the pointer attribution.\<close>

definition chatPointed :: "world \<Rightarrow> request \<Rightarrow> chat_request \<Rightarrow> coordinator \<Rightarrow> coordinator" where
  "chatPointed w r req c = (if crPayloadHash req \<noteq> []
     then creditPointerHost (wSql w) (wClock w 1) (Header r ''X-OIM-Pointer-Host'') (chatJobID w req) c else c)"

lemma chatPointed_debits:
  "\<exists>ds. debits (fst (coBooks (chatPointed w r req c))) = debits (fst (coBooks c)) @ ds \<and>
     (\<forall>d \<in> set ds. pointerDebit (chatJobID w req) d)"
  using creditPointerHost_debits by (simp add: chatPointed_def)

lemma handleChat_cases:
  assumes "handleChat cf w r (Some req) c = Some out"
  obtains "fst (fst out) \<in> {400, 401, 402}" "snd out = c"
  | "creditGate cf (Header r ''X-OIM-User-ID'') req c = None"
    "charged_if_served (Header r ''X-OIM-User-ID'') (chatJobID w req) (chatPointed w r req c) out"
proof (cases "creditGate cf (Header r ''X-OIM-User-ID'') req c")
  case (Some refusal)
  then have "out = (refusal, c)" using assms by (simp add: handleChat_def)
  then show ?thesis using creditGate_codes[OF Some] that(1) by auto
next
  case None
  show ?thesis
  proof (cases "payloadGuard cf req")
    case (Some e)
    then have "out = (failWith 400 (ErrFetch e), c)" using assms None by (simp add: handleChat_def)
    then show ?thesis using that(1) by (simp add: failWith_def)
  next
    case none: None
    then have "(if crStream req \<and> crReservationID req = []
        then Some (chatStreamed cf w (Header r ''X-OIM-User-ID'') (chatJobID w req) req (chatPointed w r req c))
        else chatBuffered cf w r (Header r ''X-OIM-User-ID'') (chatJobID w req) req (chatPointed w r req c)) = Some out"
      using assms unfolding handleChat_def chatPointed_def Let_def by (simp only: None none option.case)
    then show ?thesis
      using that(2)[OF None] chatStreamed_charged chatBuffered_charged by (auto split: if_splits)
  qed
qed

text \<open>The handler returns whatever the nodes do, with the retry loop's clock.\<close>

lemma handleChat_returns:
  assumes "rounds_timed (wRounds w)"
  shows "handleChat cf w r body c \<noteq> None"
proof -
  have q: "chatEnqueue cf w job req d \<noteq> None" for job req d
    using processJob_spec[OF assms] by (auto simp: chatEnqueue_def awaitQueued_def split: option.splits prod.splits) fastforce
  have buf: "chatBuffered cf w r u j req d \<noteq> None" for u j req d
  proof -
    obtain x d1 where d: "chatDispatch cf w (chatJob u j req) req d = (x, d1)" by (cases "chatDispatch cf w (chatJob u j req) req d")
    obtain y d2 where e: "chatEnqueue cf w (chatJob u j req) req d1 = Some (y, d2)" using q by fast
    show ?thesis by (cases x; cases "projr x"; cases y) (simp_all add: chatBuffered_def d e split: if_split, simp_all add: chatFinish_def)
  qed
  show ?thesis
  proof (cases body)
    case (Some req)
    show ?thesis
      by (cases "creditGate cf (Header r ''X-OIM-User-ID'') req c"; cases "payloadGuard cf req";
          cases "crStream req \<and> crReservationID req = []")
        (unfold handleChat_def Some Let_def option.case, simp_all add: buf del: not_None_eq)
  qed (simp add: handleChat_def)
qed

section \<open>Properties\<close>


text \<open>A funded caller with a key, and a reservation whose node reports twenty tokens.\<close>

definition reservedCoordinator :: coordinator where
  "reservedCoordinator = (fundedCoordinator ''mallory'' 100)
     \<lparr> coKeys := snd (generateKey plainCrypto (Some [1]) True ''mallory'' newAPIKeyStore),
       coReservations := [''r1'' \<mapsto> \<lparr> ResTarget = \<lparr> TargetNodeID = ''node-1'', Endpoint = ''http://a'', TLSFingerprint = [] \<rparr>,
         ResExpiresAt = 9 \<rparr>] \<rparr>"

definition reservedRequest :: chat_request where
  "reservedRequest = \<lparr> crModel = ''m'', crMessages = [], crMaxTokens = 20, crStream = False, crJobID = ''job-1'', crSensitiv = ''low'',
     crMaxPrice = 0, crHint = None, crSensOverride = [], crPayloadHash = [], crPayloadFetchURL = [], crEphemeralPubKey = [],
     crReservationID = ''r1'' \<rparr>"

lemma price_twenty: "ConsumerCostWithActivityDiscount LaneFast ''low'' 20 0 \<le> 1"
  "Total (balanceFromTotals 100 0 0) = 100" "fsub (fadd 100 0) 0 = (100 :: f64)"
  by code_simp+

lemma fl_hundred: "fl 100 = 100"
  by code_simp

lemma reservedCoordinator_facts:
  "BackpressurePct (coQueue reservedCoordinator) = 0"
  "accountTotals (fst (coBooks reservedCoordinator)) ''mallory'' = (100, 0, 0)"
  "db (fst (coBooks reservedCoordinator)) = None"
  by (simp_all add: reservedCoordinator_def fundedCoordinator_def emptyCoordinator_def NewJobQueue_def BackpressurePct_def
      accountTotals_def creditLoop_def debitLoop_def postCredit_ok NewLedger_def addCredit_def postCredit_def CreditAccount_def
      creditLocked_def fl_hundred)

lemma reserved_gate: "creditGate plainConfig ''mallory'' reservedRequest reservedCoordinator = None"
  using price_twenty(1)
  by (simp add: creditGate_def estimatedCost_def reservedCoordinator_facts GetBalance_def price_twenty(2) reservedRequest_def chatMaxTok_def)

lemma reserved_resolve:
  "fst (ResolveReservation ''r1'' 0 (coReservations reservedCoordinator)) =
     Some \<lparr> ResTarget = \<lparr> TargetNodeID = ''node-1'', Endpoint = ''http://a'', TLSFingerprint = [] \<rparr>, ResExpiresAt = 9 \<rparr>"
  by (simp add: ResolveReservation_def reservedCoordinator_def)

lemma reserved_dispatch:
  "fst (DispatchToResolvedNode obligingNet job ms \<lparr> TargetNodeID = ''node-1'', Endpoint = ''http://a'', TLSFingerprint = [] \<rparr>
     (coReg reservedCoordinator)) = Inr (Some twentyTokens)"
  by (simp add: DispatchToResolvedNode_def reservedCoordinator_def fundedCoordinator_def emptyCoordinator_def NewNodeRegistry_def
      IncrInFlight_def IsPullNode_def deliverJob_def obligingNet_def dispatchToNode_def Let_def)


text \<open>
  Work on reserved nodes is never paid. The result of a job pinned by a reservation carries
  no tag of its node, unless the node writes one itself; so for the encrypted-pointer path the
  caller is debited the whole charge and neither the node nor the treasury is credited:
  the charge leaves the books.
\<close>

theorem reserved_job_unpaid:
  assumes "creditGate cf u req c = None" "payloadGuard cf req = None" "crReservationID req \<noteq> []" "u = Header r ''X-OIM-User-ID''" "u \<noteq> []"
    and res: "fst (ResolveReservation (crReservationID req) (wClock w 2) (coReservations (chatPointed w r req c))) = Some res"
    and served: "fst (DispatchToResolvedNode (wNet w) (chatJob u (chatJobID w req) req) (crMessages req) (ResTarget res)
      (coReg (chatPointed w r req c))) = Inr (Some result)" "result ''oim_served_by_node_id'' = None"
    and cost: "cost = ConsumerCostWithActivityDiscount LaneFast (crSensitiv req) (extractCompletionTokens (Some result) (chatMaxTok req))
      (BackpressurePct (coQueue (chatPointed w r req c)))"
    and pays: "cost \<le> available (accountTotals (fst (coBooks (chatPointed w r req c))) u)" "wSql w 4"
  shows "\<exists>c'. handleChat cf w r (Some req) c = Some ((200, ResultBody (Some result)), c') \<and>
    entries (fst (coBooks c')) = entries (fst (coBooks (chatPointed w r req c))) \<and>
    (\<exists>d. debits (fst (coBooks c')) = debits (fst (coBooks (chatPointed w r req c))) @ [d] \<and> DebitUserID d = u \<and> DebitAmount d = cost) \<and>
    netIssue c' = netIssue (chatPointed w r req c) - cost"
proof -
  let ?p = "chatPointed w r req c" and ?job = "chatJobID w req"
  obtain rs where rs: "ResolveReservation (crReservationID req) (wClock w 2) (coReservations ?p) = (Some res, rs)"
    using res by (metis prod.collapse)
  obtain rg where rg: "DispatchToResolvedNode (wNet w) (chatJob u ?job req) (crMessages req) (ResTarget res) (coReg ?p) = (Inr (Some result), rg)"
    using served(1) by (metis prod.collapse)
  define c1 where "c1 = ?p\<lparr> coReservations := rs, coReg := rg \<rparr>"
  have d: "chatDispatch cf w (chatJob u ?job req) req ?p = (Inr (Inr (Some result)), c1)"
    using assms(3) rs rg by (simp add: chatDispatch_def c1_def)
  define out where "out = settleBuffered (later w) (wClock w 4) u ?job (crSensitiv req) (chatMaxTok req) (Some result) c1"
  have "handleChat cf w r (Some req) c = chatBuffered cf w r u ?job req ?p"
    using assms(1-4) unfolding handleChat_def chatPointed_def Let_def by simp
  then have h: "handleChat cf w r (Some req) c = Some ((200, ResultBody (Some result)), snd out)"
    by (simp add: chatBuffered_def d chatFinish_def out_def Let_def)
  have b: "coBooks c1 = coBooks ?p" "coQueue c1 = coQueue ?p" by (simp_all add: c1_def)
  have o: "out = debitCaller (wSql w 4) (wClock w 4) u cost ?job c1"
    using assms(5) served(2) by (simp add: out_def settleBuffered_def cost b(2) asString_def creditServed_def later_def Let_def)
  obtain paid l where dl: "DebitAccount (wSql w 4) u cost ?job (wClock w 4) (fst (coBooks ?p)) = (paid, l)"
    by (cases "DebitAccount (wSql w 4) u cost ?job (wClock w 4) (fst (coBooks ?p))")
  have paid using dl pays
    by (cases "accountTotals (fst (coBooks ?p)) u") (auto simp: DebitAccount_def available_def Let_def split: option.splits if_splits)
  note dt = DebitAccount_True(1,2)[OF dl[unfolded eqTrueI[OF \<open>paid\<close>]]]
  have "fst (coBooks (snd out)) = l" by (simp add: o debitCaller_def b dl)
  then show ?thesis using h dt by (auto simp: netIssue_def creditSum_def debitSum_def)
qed

theorem reserved_job_unpaid_witness:
  "\<exists>c'. handleChat plainConfig obligingWorld (forgedRequest\<lparr> Header := (\<lambda>h. ''mallory'') \<rparr>) (Some reservedRequest) reservedCoordinator =
     Some ((200, ResultBody (Some twentyTokens)), c') \<and> netIssue c' < netIssue reservedCoordinator"
proof -
  let ?r = "forgedRequest\<lparr> Header := (\<lambda>h. ''mallory'') \<rparr>" and ?res = "\<lparr> ResTarget = \<lparr> TargetNodeID = ''node-1'',
    Endpoint = ''http://a'', TLSFingerprint = [] \<rparr>, ResExpiresAt = 9 \<rparr>"
  have p: "chatPointed obligingWorld ?r reservedRequest reservedCoordinator = reservedCoordinator"
    by (simp add: chatPointed_def reservedRequest_def)
  have t: "extractCompletionTokens (Some twentyTokens) 20 = 20"
    using fint_of_int[of 20] by (simp add: extractCompletionTokens_def twentyTokens_def asObj_def asNum_def)
  have f: "crReservationID reservedRequest = ''r1''" "crSensitiv reservedRequest = ''low''" "chatMaxTok reservedRequest = 20"
    "wNet obligingWorld = obligingNet" "wClock obligingWorld = (\<lambda>k. 0)" "wSql obligingWorld = (\<lambda>k. True)" "crMessages reservedRequest = []"
    by (simp_all add: reservedRequest_def obligingWorld_def chatMaxTok_def)
  have pos: "0 < ConsumerCostWithActivityDiscount LaneFast ''low'' 20 0" by code_simp
  have "ConsumerCostWithActivityDiscount LaneFast ''low'' 20 0 \<le> available (100, 0, 0)"
    using price_twenty by (simp add: available_def)
  with reserved_job_unpaid[of plainConfig "''mallory''" reservedRequest reservedCoordinator ?r obligingWorld ?res twentyTokens,
      unfolded p f t reservedCoordinator_facts, OF reserved_gate _ _ _ _ reserved_resolve _ _ refl] pos
  show ?thesis
    by (auto simp: payloadGuard_def reservedRequest_def reserved_dispatch twentyTokens_def)
qed

end
