(* ===== verification/Splitter.thy ===== *)
theory Splitter
  imports Protocol Json
begin

text \<open>
  Splitting a long document for parallel processing, \<open>internal/coordinator/splitter.go\<close>.
  A text is its bytes; the Unicode case and space tables of package \<open>strings\<close> are the
  argument \<open>U\<close>, the encoding of runes is computed.
\<close>

section \<open>Text\<close>

record text_tables =
  upperText :: "string \<Rightarrow> string"
  lowerText :: "string \<Rightarrow> string"
  trimText :: "string \<Rightarrow> string"

text \<open>Continuation bytes and the number of bytes of the first rune; an invalid byte is a rune.\<close>

definition isCont :: "nat \<Rightarrow> bool" where "isCont b \<longleftrightarrow> 128 \<le> b \<and> b \<le> 191"

definition runeWidth :: "nat list \<Rightarrow> nat" where
  "runeWidth bs = (case bs of
       a # b # rest \<Rightarrow>
         if 194 \<le> a \<and> a \<le> 223 \<and> isCont b then 2
         else (case rest of
             c # rest' \<Rightarrow>
               if 224 \<le> a \<and> a \<le> 239 \<and> isCont b \<and> (a = 224 \<longrightarrow> 160 \<le> b) \<and> (a = 237 \<longrightarrow> b \<le> 159) \<and> isCont c then 3
               else (case rest' of
                   d # _ \<Rightarrow>
                     if 240 \<le> a \<and> a \<le> 244 \<and> isCont b \<and> (a = 240 \<longrightarrow> 144 \<le> b) \<and> (a = 244 \<longrightarrow> b \<le> 143) \<and>
                        isCont c \<and> isCont d then 4 else 1
                 | [] \<Rightarrow> 1)
           | [] \<Rightarrow> 1)
     | _ \<Rightarrow> 1)"

lemma runeWidth_bounds: "0 < runeWidth bs"
  by (auto simp: runeWidth_def split: list.splits)

function runeCountFrom :: "nat list \<Rightarrow> nat" where
  "runeCountFrom bs = (if bs = [] then 0 else 1 + runeCountFrom (drop (runeWidth bs) bs))"
  by pat_completeness auto
termination by (relation "measure length") (auto simp: runeWidth_bounds)

declare runeCountFrom.simps [simp del]

definition runeCount :: "string \<Rightarrow> nat" where "runeCount s = runeCountFrom (map of_char s)"

definition estimateTokens :: "string \<Rightarrow> nat" where
  "estimateTokens content =
     (let n = runeCount content
      in if n = 0 then 0 else let est = n div 4 in if est < 1 then 1 else est)"

section \<open>Strategies\<close>

definition SplitParagraphBoundary :: string where "SplitParagraphBoundary = ''paragraph_boundary''"
definition SplitSQLStatement :: string where "SplitSQLStatement = ''sql_statement''"
definition SplitLogEntry :: string where "SplitLogEntry = ''log_entry''"
definition SplitSemanticSentence :: string where "SplitSemanticSentence = ''semantic_sentence''"
definition SplitFixedTokenCount :: string where "SplitFixedTokenCount = ''fixed_token_count''"

definition newline :: char where "newline = CHR 0x0A"

definition DetectSplitStrategy :: "text_tables \<Rightarrow> string \<Rightarrow> string" where
  "DetectSplitStrategy U content =
     (let prefix = (if length content > 512 then take 512 content else content); upper = upperText U prefix
      in if list_ex (containsStr upper) [''SELECT '', ''INSERT '', ''UPDATE '', ''CREATE TABLE'', ''ALTER TABLE'', ''DROP '']
         then SplitSQLStatement
         else if list_ex (containsStr prefix) ['' ERROR '', '' WARN '', '' INFO '', '' DEBUG ''] then SplitLogEntry
         else if containsStr content [newline, newline] then SplitParagraphBoundary
         else SplitSemanticSentence)"

section \<open>Boundaries\<close>

text \<open>
  The search loops look at \<open>mid + delta\<close> and then at \<open>mid - delta\<close> for growing \<open>delta\<close>; the
  first position with a boundary gives the cut behind it.
\<close>

fun outward :: "(nat \<Rightarrow> bool) \<Rightarrow> nat \<Rightarrow> nat \<Rightarrow> nat list \<Rightarrow> nat option" where
  "outward hit skip mid [] = None"
| "outward hit skip mid (delta # ds) =
     (if hit (mid + delta) then Some (mid + delta + skip)
      else if delta \<le> mid \<and> hit (mid - delta) then Some (mid - delta + skip)
      else outward hit skip mid ds)"

definition byteAt :: "string \<Rightarrow> char \<Rightarrow> nat \<Rightarrow> bool" where
  "byteAt content b i \<longleftrightarrow> i < length content \<and> content ! i = b"

definition nearestSQLBoundary :: "string \<Rightarrow> nat \<Rightarrow> nat" where
  "nearestSQLBoundary content mid =
     (case outward (byteAt content (CHR '';'')) 1 mid [0..<length content div 2] of None \<Rightarrow> mid | Some i \<Rightarrow> i)"

definition nearestLineBoundary :: "string \<Rightarrow> nat \<Rightarrow> nat" where
  "nearestLineBoundary content mid =
     (case outward (byteAt content newline) 1 mid [0..<length content div 2] of None \<Rightarrow> mid | Some i \<Rightarrow> i)"

definition paragraphAt :: "string \<Rightarrow> nat \<Rightarrow> bool" where
  "paragraphAt content i \<longleftrightarrow> i + 1 < length content \<and> content ! i = newline \<and> content ! (i + 1) = newline"

definition nearestParagraphBoundary :: "string \<Rightarrow> nat \<Rightarrow> nat" where
  "nearestParagraphBoundary content mid =
     (case outward (paragraphAt content) 2 mid [0..<length content div 2 - 1] of
        None \<Rightarrow> nearestLineBoundary content mid | Some i \<Rightarrow> i)"

definition sentenceAt :: "string \<Rightarrow> nat \<Rightarrow> bool" where
  "sentenceAt content i \<longleftrightarrow> 1 \<le> i \<and> i + 1 < length content \<and>
     (content ! i = CHR ''.'' \<or> content ! i = CHR ''!'' \<or> content ! i = CHR ''?'') \<and> content ! (i + 1) = CHR '' ''"

definition nearestSentenceBoundary :: "string \<Rightarrow> nat \<Rightarrow> nat" where
  "nearestSentenceBoundary content mid =
     (case outward (sentenceAt content) 2 mid [0..<length content div 2 - 1] of None \<Rightarrow> mid | Some i \<Rightarrow> i)"

definition FindMidpoint :: "string \<Rightarrow> string \<Rightarrow> nat" where
  "FindMidpoint content strategy =
     (let mid = length content div 2
      in if mid = 0 then 0
         else if strategy = SplitSQLStatement then nearestSQLBoundary content mid
         else if strategy = SplitLogEntry then nearestLineBoundary content mid
         else if strategy = SplitParagraphBoundary then nearestParagraphBoundary content mid
         else nearestSentenceBoundary content mid)"

section \<open>Splitting\<close>

record DocumentSplit =
  SplitID :: string
  SplitParentJobID :: job_id
  Content :: string
  ContentRef :: string
  Position :: string
  TokenEstimate :: nat
  SplitStrategyUsed :: string
  Checksum :: string

definition splitChecksum :: "crypto \<Rightarrow> string \<Rightarrow> string" where
  "splitChecksum C content = hexEncode (sha256 C (bytes_of content))"

datatype split_error = UnsupportedSplits int | EmptyContent | ContentTooShort nat

definition splitPart :: "crypto \<Rightarrow> job_id \<Rightarrow> string \<Rightarrow> string \<Rightarrow> string \<Rightarrow> DocumentSplit" where
  "splitPart C parentJobID position strategy content =
     \<lparr> SplitID = parentJobID @ ''-split-'' @ position, SplitParentJobID = parentJobID, Content = content,
       ContentRef = ''mem://'' @ parentJobID @ ''/'' @ position, Position = position, TokenEstimate = estimateTokens content,
       SplitStrategyUsed = strategy, Checksum = splitChecksum C content \<rparr>"

definition SplitDocument :: "crypto \<Rightarrow> text_tables \<Rightarrow> string \<Rightarrow> job_id \<Rightarrow> int \<Rightarrow> split_error + DocumentSplit list" where
  "SplitDocument C U content parentJobID maxSplits =
     (if maxSplits \<noteq> 2 then Inl (UnsupportedSplits maxSplits)
      else if trimText U content = [] then Inl EmptyContent
      else if length content < 64 then Inl (ContentTooShort (length content))
      else let strategy = DetectSplitStrategy U content;
               mid = FindMidpoint content strategy;
               mid = (if mid = 0 \<or> mid \<ge> length content then length content div 2 else mid)
           in Inr [splitPart C parentJobID ''left'' strategy (take mid content),
                   splitPart C parentJobID ''right'' strategy (drop mid content)])"

text \<open>The speed-up estimate; the total is a sum of \<open>int\<close>s.\<close>

definition coordinationOverheadTokens :: nat where "coordinationOverheadTokens = 200"

definition EstimateParallelismGain :: "DocumentSplit list \<Rightarrow> f64 \<Rightarrow> f64" where
  "EstimateParallelismGain splits nodeToksPerSec =
     (if splits = [] \<or> nodeToksPerSec \<le> 0 then 1
      else let totalTokens = sum_list (map TokenEstimate splits);
               maxSplitTokens = fold (\<lambda>s m. max (TokenEstimate s) m) splits 0
           in if maxSplitTokens = 0 then 1
              else let parallelTime = fdiv (f_of_int (int (maxSplitTokens + coordinationOverheadTokens))) nodeToksPerSec;
                       sequentialTime = fdiv (f_of_int (int totalTokens)) nodeToksPerSec
                   in if parallelTime \<le> 0 then 1 else fdiv sequentialTime parallelTime)"

section \<open>The search\<close>

text \<open>The distance of a position from the middle.\<close>

definition dist :: "nat \<Rightarrow> nat \<Rightarrow> nat" where "dist mid i = (if i \<ge> mid then i - mid else mid - i)"

lemma outward_None:
  "outward hit skip mid ds = None \<longleftrightarrow> (\<forall>delta \<in> set ds. \<not> hit (mid + delta) \<and> (delta \<le> mid \<longrightarrow> \<not> hit (mid - delta)))"
  by (induction ds) auto

lemma outward_Some:
  assumes "outward hit skip mid ds = Some c"
  obtains i as bs where "c = i + skip" "hit i" "ds = as @ dist mid i # bs"
    "\<forall>delta \<in> set as. \<not> hit (mid + delta) \<and> (delta \<le> mid \<longrightarrow> \<not> hit (mid - delta))"
  using assms
proof (induction ds arbitrary: thesis)
  case (Cons delta ds)
  consider (up) "hit (mid + delta)" | (down) "\<not> hit (mid + delta)" "delta \<le> mid" "hit (mid - delta)"
    | (none) "\<not> hit (mid + delta)" "delta \<le> mid \<longrightarrow> \<not> hit (mid - delta)" by blast
  then show ?case
  proof cases
    case up
    then show ?thesis using Cons.prems(2) by (intro Cons.prems(1)[of "mid + delta" "[]" ds]) (simp_all add: dist_def)
  next
    case down
    then show ?thesis using Cons.prems(2) by (intro Cons.prems(1)[of "mid - delta" "[]" ds]) (auto simp: dist_def)
  next
    case none
    then have "outward hit skip mid ds = Some c" using Cons.prems(2) by auto
    then obtain i as bs where "c = i + skip" "hit i" "ds = as @ dist mid i # bs"
      "\<forall>delta \<in> set as. \<not> hit (mid + delta) \<and> (delta \<le> mid \<longrightarrow> \<not> hit (mid - delta))" using Cons.IH by blast
    with none show ?thesis by (intro Cons.prems(1)[of i "delta # as" bs]) auto
  qed
qed simp

text \<open>A search over all distances below a bound finds a nearest boundary.\<close>

lemma outward_nearest:
  assumes "outward hit skip mid [0..<n] = Some c"
  shows "\<exists>i. c = i + skip \<and> hit i \<and> dist mid i < n \<and> (\<forall>j. hit j \<longrightarrow> dist mid i \<le> dist mid j)"
proof -
  obtain i as bs where i: "c = i + skip" "hit i" "[0..<n] = as @ dist mid i # bs"
    "\<forall>delta \<in> set as. \<not> hit (mid + delta) \<and> (delta \<le> mid \<longrightarrow> \<not> hit (mid - delta))"
    using outward_Some[OF assms] by metis
  have l: "length as < n" using arg_cong[OF i(3), of length] by simp
  have "[0..<n] ! length as = dist mid i" unfolding i(3) by simp
  then have k: "dist mid i = length as" using l by simp
  have "as = take (length as) [0..<n]" unfolding i(3) by simp
  then have as: "as = [0..<dist mid i]" "dist mid i < n" using l k by (simp_all add: take_upt)
  have "dist mid i \<le> dist mid j" if "hit j" for j
  proof (rule ccontr)
    assume "\<not> dist mid i \<le> dist mid j"
    then have "dist mid j \<in> set as" using as(1) by simp
    with i(4) that show False by (cases "j \<ge> mid") (auto simp: dist_def)
  qed
  then show ?thesis using i as(2) by blast
qed

lemma outward_none_near:
  "outward hit skip mid [0..<n] = None \<Longrightarrow> hit j \<Longrightarrow> n \<le> dist mid j"
proof (rule ccontr)
  assume a: "outward hit skip mid [0..<n] = None" "hit j" "\<not> n \<le> dist mid j"
  then have "dist mid j \<in> set [0..<n]" by simp
  with a(1) have "\<not> hit (mid + dist mid j) \<and> (dist mid j \<le> mid \<longrightarrow> \<not> hit (mid - dist mid j))" unfolding outward_None by blast
  with a(2) show False by (cases "j \<ge> mid") (auto simp: dist_def)
qed

section \<open>Where the cut is\<close>

definition boundary :: "string \<Rightarrow> string \<Rightarrow> nat \<Rightarrow> bool" where
  "boundary strategy content =
     (if strategy = SplitSQLStatement then byteAt content (CHR '';'')
      else if strategy = SplitLogEntry then byteAt content newline
      else if strategy = SplitParagraphBoundary then paragraphAt content
      else sentenceAt content)"

definition boundarySkip :: "string \<Rightarrow> nat" where
  "boundarySkip strategy = (if strategy = SplitSQLStatement \<or> strategy = SplitLogEntry then 1 else 2)"

text \<open>
  The cut lies behind a boundary nearest to the middle; or every boundary is at the very edge
  of the text, and the cut is the middle or, for paragraphs, behind the end of a line.
\<close>

definition good_cut :: "string \<Rightarrow> string \<Rightarrow> nat \<Rightarrow> bool" where
  "good_cut strategy content c \<longleftrightarrow>
     (let mid = length content div 2 in
       (\<exists>i. boundary strategy content i \<and> c = i + boundarySkip strategy \<and> (\<forall>j. boundary strategy content j \<longrightarrow> dist mid i \<le> dist mid j)) \<or>
       (\<forall>j. boundary strategy content j \<longrightarrow> mid - 2 \<le> dist mid j) \<and>
         (c = mid \<or> strategy = SplitParagraphBoundary \<and> byteAt content newline (c - 1)))"

definition settleCut :: "string \<Rightarrow> nat \<Rightarrow> nat" where
  "settleCut content c = (if c = 0 \<or> c \<ge> length content then length content div 2 else c)"

lemma far_at_end: "dist (n div 2) i \<le> k \<Longrightarrow> n \<le> i + 2 \<Longrightarrow> n div 2 - 2 \<le> (k :: nat)"
  by (auto simp: dist_def split: if_splits)

lemma search_cut:
  assumes "boundarySkip strategy \<in> {1, 2}" "m = length content div 2 \<or> m = length content div 2 - 1"
    and "outward (boundary strategy content) (boundarySkip strategy) (length content div 2) [0..<m] = r"
  shows "(\<exists>c. r = Some c \<and> good_cut strategy content (settleCut content c)) \<or>
    r = None \<and> (\<forall>j. boundary strategy content j \<longrightarrow> length content div 2 - 2 \<le> dist (length content div 2) j)"
proof (cases r)
  case None
  have "m \<le> dist (length content div 2) j" if "boundary strategy content j" for j
    using outward_none_near[of "boundary strategy content" "boundarySkip strategy" "length content div 2" m j] assms(3) None that by simp
  then show ?thesis using None assms(2) by fastforce
next
  case (Some c)
  then obtain i where i: "c = i + boundarySkip strategy" "boundary strategy content i"
    "\<forall>j. boundary strategy content j \<longrightarrow> dist (length content div 2) i \<le> dist (length content div 2) j"
    using outward_nearest assms(3) by blast
  show ?thesis
  proof (cases "c \<ge> length content")
    case True
    then have "length content \<le> i + 2" using i(1) assms(1) by auto
    then have "\<forall>j. boundary strategy content j \<longrightarrow> length content div 2 - 2 \<le> dist (length content div 2) j"
      using i(3) far_at_end by blast
    then show ?thesis using Some True by (simp add: good_cut_def settleCut_def Let_def)
  next
    case False
    then have "settleCut content c = c" using i(1) assms(1) by (auto simp: settleCut_def)
    then show ?thesis using Some i by (auto simp: good_cut_def Let_def)
  qed
qed

lemma FindMidpoint_cut:
  assumes "64 \<le> length content"
  shows "good_cut strategy content (settleCut content (FindMidpoint content strategy))"
proof -
  let ?mid = "length content div 2"
  have mid: "?mid \<noteq> 0" "settleCut content ?mid = ?mid" using assms by (auto simp: settleCut_def)
  have edge: "good_cut strategy content (settleCut content ?mid)"
    if "\<forall>j. boundary strategy content j \<longrightarrow> ?mid - 2 \<le> dist ?mid j"
    using that mid by (auto simp: good_cut_def Let_def)
  have sk: "boundarySkip strategy \<in> {1, 2}" by (simp add: boundarySkip_def)
  consider "strategy = SplitSQLStatement \<or> strategy = SplitLogEntry" | "strategy = SplitParagraphBoundary"
    | "strategy \<notin> {SplitSQLStatement, SplitLogEntry, SplitParagraphBoundary}" by auto
  then show ?thesis
  proof cases
    case 1
    then have "FindMidpoint content strategy =
        (case outward (boundary strategy content) (boundarySkip strategy) ?mid [0..<?mid] of None \<Rightarrow> ?mid | Some i \<Rightarrow> i)"
      using mid(1) by (auto simp: FindMidpoint_def Let_def boundary_def boundarySkip_def nearestSQLBoundary_def
          nearestLineBoundary_def SplitSQLStatement_def SplitLogEntry_def)
    then show ?thesis using search_cut[OF sk disjI1[OF refl], of content] edge
      by (auto split: option.splits)
  next
    case 2
    let ?o = "outward (boundary strategy content) (boundarySkip strategy) ?mid [0..<?mid - 1]"
    have f: "FindMidpoint content strategy = (case ?o of None \<Rightarrow> nearestLineBoundary content ?mid | Some i \<Rightarrow> i)"
      using 2 mid(1) by (simp add: FindMidpoint_def Let_def boundary_def boundarySkip_def nearestParagraphBoundary_def
          SplitSQLStatement_def SplitLogEntry_def SplitParagraphBoundary_def)
    from search_cut[OF sk disjI2[OF refl], of content ?o] show ?thesis
    proof
      assume n: "?o = None \<and> (\<forall>j. boundary strategy content j \<longrightarrow> ?mid - 2 \<le> dist ?mid j)"
      show ?thesis
      proof (cases "outward (byteAt content newline) 1 ?mid [0..<?mid]")
        case None
        then show ?thesis using n f edge by (simp add: nearestLineBoundary_def)
      next
        case (Some c)
        then obtain i where "c = i + 1" "byteAt content newline i" using outward_nearest by blast
        then show ?thesis using n f Some 2 by (auto simp: nearestLineBoundary_def good_cut_def settleCut_def Let_def)
      qed
    qed (auto simp: f)
  next
    case 3
    then have "FindMidpoint content strategy =
        (case outward (boundary strategy content) (boundarySkip strategy) ?mid [0..<?mid - 1] of None \<Rightarrow> ?mid | Some i \<Rightarrow> i)"
      using mid(1) by (simp add: FindMidpoint_def Let_def boundary_def boundarySkip_def nearestSentenceBoundary_def)
    then show ?thesis using search_cut[OF sk disjI2[OF refl], of content] edge
      by (auto split: option.splits)
  qed
qed

section \<open>Properties\<close>

text \<open>
  Splitting loses nothing and cuts where it should: a successful split gives a left and a right
  part, both non-empty, whose contents in this order are the document, each with the checksum
  of its content; the cut lies behind a boundary of the detected strategy that is nearest to the
  middle, unless all boundaries are at the edge of the text.
\<close>

theorem split_lossless:
  assumes "SplitDocument C U content job n = Inr parts"
  shows "\<exists>left right. parts = [left, right] \<and> Position left = ''left'' \<and> Position right = ''right'' \<and>
    Content left @ Content right = content \<and> Content left \<noteq> [] \<and> Content right \<noteq> [] \<and>
    Checksum left = splitChecksum C (Content left) \<and> Checksum right = splitChecksum C (Content right) \<and>
    good_cut (SplitStrategyUsed left) content (length (Content left))"
proof -
  let ?s = "DetectSplitStrategy U content"
  have l: "64 \<le> length content" using assms by (auto simp: SplitDocument_def split: if_splits)
  define c where "c = settleCut content (FindMidpoint content ?s)"
  have parts: "parts = [splitPart C job ''left'' ?s (take c content), splitPart C job ''right'' ?s (drop c content)]"
    using assms l by (auto simp: SplitDocument_def c_def settleCut_def Let_def split: if_splits)
  have "0 < c" "c < length content" using l by (auto simp: c_def settleCut_def)
  moreover have "good_cut ?s content c" unfolding c_def by (rule FindMidpoint_cut[OF l])
  moreover have "content \<noteq> []" using l by auto
  ultimately show ?thesis unfolding parts by (simp add: splitPart_def min_def)
qed

definition asciiText :: text_tables where
  "asciiText = \<lparr> upperText = map (\<lambda>c. let n = (of_char c :: nat) in if 97 \<le> n \<and> n \<le> 122 then char_of (n - 32) else c),
     lowerText = toLower, trimText = trimSpace \<rparr>"

theorem split_lossless_witness:
  "\<exists>left right. SplitDocument \<lparr> sha256 = (\<lambda>x. x), ed25519Verify = (\<lambda>p m s. False), ed25519Sign = (\<lambda>k m. m),
       p256Verify = (\<lambda>p m s. False), marshalManifest = (\<lambda>m. None), marshalRefresh = (\<lambda>m t. None), marshalClaim = (\<lambda>n t. None),
       marshalAttestation = (\<lambda>n k t. None), marshalDigest = (\<lambda>d. None) \<rparr>
     asciiText (''select a;'' @ replicate 70 CHR ''x'') ''job'' 2 = Inr [left, right] \<and>
     Content left @ Content right = ''select a;'' @ replicate 70 CHR ''x''"
proof -
  let ?C = "\<lparr> sha256 = (\<lambda>x. x), ed25519Verify = (\<lambda>p m s. False), ed25519Sign = (\<lambda>k m. m),
       p256Verify = (\<lambda>p m s. False), marshalManifest = (\<lambda>m. None), marshalRefresh = (\<lambda>m t. None), marshalClaim = (\<lambda>n t. None),
       marshalAttestation = (\<lambda>n k t. None), marshalDigest = (\<lambda>d. None) \<rparr>"
  let ?t = "''select a;'' @ replicate 70 CHR ''x''"
  have "trimText asciiText ?t \<noteq> []" by code_simp
  then obtain parts where r: "SplitDocument ?C asciiText ?t ''job'' 2 = Inr parts"
    by (simp add: SplitDocument_def Let_def)
  from split_lossless[OF r] r show ?thesis by auto
qed

end
