(* ===== verification/Decompose.thy ===== *)
theory Decompose
  imports Splitter
begin

text \<open>
  Breaking a background job into sub-tasks, \<open>internal/coordinator/decomposer.go\<close>: the
  keyword classifier, the classifier interface, the dependency edges, the sub-tasks with
  their prompts and the estimate whether parallel work pays. An external classifier is the
  argument \<open>model\<close>; lower-casing is the table \<open>lowerText\<close>.
\<close>

section \<open>Types of sub-tasks\<close>

definition SubTaskSchemaLookup :: string where "SubTaskSchemaLookup = ''SCHEMA_LOOKUP''"
definition SubTaskAnomalyDetection :: string where "SubTaskAnomalyDetection = ''ANOMALY_DETECTION''"
definition SubTaskTrendAnalysis :: string where "SubTaskTrendAnalysis = ''TREND_ANALYSIS''"
definition SubTaskQueryOptimization :: string where "SubTaskQueryOptimization = ''QUERY_OPTIMIZATION''"
definition SubTaskSummarization :: string where "SubTaskSummarization = ''SUMMARIZATION''"
definition SubTaskClassification :: string where "SubTaskClassification = ''CLASSIFICATION''"
definition SubTaskMerge :: string where "SubTaskMerge = ''MERGE''"

lemmas sub_task_types = SubTaskSchemaLookup_def SubTaskAnomalyDetection_def SubTaskTrendAnalysis_def
  SubTaskQueryOptimization_def SubTaskSummarization_def SubTaskClassification_def SubTaskMerge_def

record SubTask =
  SubTaskID :: string
  ParentJob :: job_id
  SubModelID :: string
  SubTaskKind :: string
  Prompt :: string
  DependsOn :: "string list"
  AssignedNode :: node_id

record DecomposedJob =
  OriginalJobID :: job_id
  SubTasks :: "SubTask list"
  ConfidenceScore :: f64
  ClassifierUsed :: string

section \<open>Classification\<close>

datatype model_error = ModelNotImplemented | ModelError

type_synonym DecompositionModel = "string \<Rightarrow> model_error + (string list \<times> f64)"

definition LoadDecompositionModel :: "string \<Rightarrow> model_error + DecompositionModel" where
  "LoadDecompositionModel modelPath = Inl ModelNotImplemented"

definition typeKeywords :: "(string \<times> string list) list" where
  "typeKeywords =
     [(SubTaskSchemaLookup, [''schema'', ''table structure'', ''column'', ''data type'']),
      (SubTaskAnomalyDetection, [''anomal'', ''outlier'', ''unusual'', ''spike'', ''deviation'']),
      (SubTaskTrendAnalysis, [''trend'', ''over time'', ''growth'', ''forecast'', ''historical'']),
      (SubTaskQueryOptimization, [''optimis'', ''optimiz'', ''slow query'', ''index'', ''execution plan'']),
      (SubTaskSummarization, [''summari'', ''tldr'', ''key points'', ''brief'']),
      (SubTaskClassification, [''classif'', ''categor'', ''label'', ''detect''])]"

definition matchedTypes :: "string \<Rightarrow> string list" where
  "matchedTypes lower = map fst (filter (\<lambda>(t, ws). list_ex (containsStr lower) ws) typeKeywords)"

definition keywordHeuristicClassify :: "text_tables \<Rightarrow> string \<Rightarrow> string list \<times> f64" where
  "keywordHeuristicClassify U queryText =
     (let matched = matchedTypes (lowerText U queryText)
      in if matched = [] then ([], 0)
         else (matched, if length matched > 2 then fl (45 / 100) else fl (65 / 100)))"

definition ClassifyQueryIntent :: "text_tables \<Rightarrow> string \<Rightarrow> DecompositionModel option \<Rightarrow> model_error + (string list \<times> f64)" where
  "ClassifyQueryIntent U queryText model = (case model of
       Some m \<Rightarrow> (case m queryText of
           Inr r \<Rightarrow> Inr r
         | Inl ModelNotImplemented \<Rightarrow> Inr (keywordHeuristicClassify U queryText)
         | Inl ModelError \<Rightarrow> Inl ModelError)
     | None \<Rightarrow> Inr (keywordHeuristicClassify U queryText))"

section \<open>Sub-tasks\<close>

definition BuildDependencyDAG :: "string list \<Rightarrow> (string \<times> string) list" where
  "BuildDependencyDAG subTaskTypes = map (\<lambda>t. (t, SubTaskMerge)) (filter (\<lambda>t. t \<noteq> SubTaskMerge) subTaskTypes)"

definition buildSubTaskPrompt :: "string \<Rightarrow> job_id \<Rightarrow> string" where
  "buildSubTaskPrompt t jobID = ''For job '' @ jobID @
     (if t = SubTaskSchemaLookup then '': identify and explain all relevant schema structures, tables, and column types.''
      else if t = SubTaskAnomalyDetection then '': identify anomalies, outliers, and unexpected patterns in the data.''
      else if t = SubTaskTrendAnalysis then '': analyze temporal trends, growth rates, and forecasts.''
      else if t = SubTaskQueryOptimization
        then '': suggest query optimisations, index recommendations, and execution plan improvements.''
      else if t = SubTaskSummarization then '': produce a concise summary of the key points.''
      else if t = SubTaskClassification
        then '': classify and categorize the data according to the requested taxonomy.''
      else '': perform the requested '' @ t @ '' task.'')"

definition twoDigits :: "nat \<Rightarrow> string" where
  "twoDigits n = (if n < 10 then CHR ''0'' # decimal n else decimal n)"

definition analyticalID :: "text_tables \<Rightarrow> job_id \<Rightarrow> nat \<Rightarrow> string \<Rightarrow> string" where
  "analyticalID U jobID i t = jobID @ ''-sub-'' @ twoDigits i @ ''-'' @ lowerText U t"

definition analyticalTask :: "text_tables \<Rightarrow> JobSpec \<Rightarrow> nat \<Rightarrow> string \<Rightarrow> SubTask" where
  "analyticalTask U job i t =
     \<lparr> SubTaskID = analyticalID U (SpecJobID job) i t, ParentJob = SpecJobID job, SubModelID = ModelID job,
       SubTaskKind = t, Prompt = buildSubTaskPrompt t (SpecJobID job), DependsOn = [], AssignedNode = [] \<rparr>"

definition mergeTask :: "JobSpec \<Rightarrow> string list \<Rightarrow> SubTask" where
  "mergeTask job deps =
     \<lparr> SubTaskID = SpecJobID job @ ''-sub-merge'', ParentJob = SpecJobID job, SubModelID = ModelID job,
       SubTaskKind = SubTaskMerge, Prompt = ''Synthesize the sub-task outputs into a single coherent response.'',
       DependsOn = deps, AssignedNode = [] \<rparr>"

datatype decompose_error = NotOptedIn job_id | FastLaneJob job_id | ClassifierFailed
  | NotDecomposable job_id f64 "string list"

text \<open>The classifier is asked about the job's id, the only text the coordinator sees.\<close>

definition DecomposeJob :: "text_tables \<Rightarrow> JobSpec \<Rightarrow> DecompositionModel option \<Rightarrow> decompose_error + DecomposedJob" where
  "DecomposeJob U job model =
     (if \<not> AllowDecomposition job then Inl (NotOptedIn (SpecJobID job))
      else if Lane job = JobLaneFast then Inl (FastLaneJob (SpecJobID job))
      else case ClassifyQueryIntent U (SpecJobID job) model of
          Inl e \<Rightarrow> Inl ClassifierFailed
        | Inr (types, confidence) \<Rightarrow>
            if types = [] \<or> confidence < fl (1 / 2) then Inl (NotDecomposable (SpecJobID job) confidence types)
            else let tasks = map (\<lambda>(i, t). analyticalTask U job i t) (List.enumerate 0 types)
                 in Inr \<lparr> OriginalJobID = SpecJobID job, SubTasks = tasks @ [mergeTask job (map SubTaskID tasks)],
                      ConfidenceScore = confidence,
                      ClassifierUsed = (if model = None then ''keyword_heuristic'' else ''bert_classifier'') \<rparr>)"

definition analytical :: "SubTask list \<Rightarrow> SubTask list" where
  "analytical ts = filter (\<lambda>t. SubTaskKind t \<noteq> SubTaskMerge) ts"

definition IsDecompositionWorthIt :: "DecomposedJob \<Rightarrow> f64 \<Rightarrow> bool" where
  "IsDecompositionWorthIt d coordinationOverheadMs =
     (let overhead = (if coordinationOverheadMs \<le> 0 then 50 else coordinationOverheadMs);
          analyticalCount = length (analytical (SubTasks d))
      in analyticalCount \<ge> 2 \<and>
         fadd (fdiv 2000 (f_of_int (int analyticalCount))) overhead < 1800)"

section \<open>What a job without a classifier becomes\<close>

lemma types_not_merge: "t \<in> set (matchedTypes s) \<Longrightarrow> t \<noteq> SubTaskMerge"
proof -
  have "\<forall>k \<in> set typeKeywords. fst k \<noteq> SubTaskMerge" by code_simp
  then show "t \<in> set (matchedTypes s) \<Longrightarrow> t \<noteq> SubTaskMerge" by (auto simp: matchedTypes_def)
qed

lemma confidence_values: "\<not> fl (65 / 100) < fl (1 / 2)" "fl (45 / 100) < fl (1 / 2)"
  by code_simp+

lemma two_tasks_worth: "fadd (fdiv 2000 (f_of_int 2)) 50 < 1800" by code_simp

text \<open>The keyword classifier yields a job worth splitting exactly for two matching types.\<close>

lemma analytical_tasks:
  assumes "\<forall>t \<in> set types. t \<noteq> SubTaskMerge"
  shows "analytical (map (\<lambda>(i, t). analyticalTask U job i t) (List.enumerate n types) @ [mergeTask job deps]) =
    map (\<lambda>(i, t). analyticalTask U job i t) (List.enumerate n types)"
proof -
  have "filter (\<lambda>t. SubTaskKind t \<noteq> SubTaskMerge) (map (\<lambda>(i, t). analyticalTask U job i t) (List.enumerate n types)) =
      map (\<lambda>(i, t). analyticalTask U job i t) (List.enumerate n types)"
    using assms by (induction types arbitrary: n) (auto simp: analyticalTask_def)
  then show ?thesis by (simp add: analytical_def mergeTask_def)
qed

definition twoTaskJob :: "text_tables \<Rightarrow> JobSpec \<Rightarrow> string \<Rightarrow> string \<Rightarrow> DecomposedJob" where
  "twoTaskJob U job t1 t2 = \<lparr> OriginalJobID = SpecJobID job,
     SubTasks = [analyticalTask U job 0 t1, analyticalTask U job 1 t2,
       mergeTask job [analyticalID U (SpecJobID job) 0 t1, analyticalID U (SpecJobID job) 1 t2]],
     ConfidenceScore = fl (65 / 100), ClassifierUsed = ''keyword_heuristic'' \<rparr>"

lemma DecomposeJob_heuristic:
  "DecomposeJob U job None = Inr d \<and> IsDecompositionWorthIt d 50 \<longleftrightarrow>
    AllowDecomposition job \<and> Lane job \<noteq> JobLaneFast \<and>
    (\<exists>t1 t2. matchedTypes (lowerText U (SpecJobID job)) = [t1, t2] \<and>
       d = twoTaskJob U job t1 t2)"
proof -
  define ts where "ts = matchedTypes (lowerText U (SpecJobID job))"
  have nm: "\<forall>t \<in> set ts. t \<noteq> SubTaskMerge" using types_not_merge by (auto simp: ts_def)
  have id: "SubTaskID (analyticalTask U job i t) = analyticalID U (SpecJobID job) i t" for i t
    by (simp add: analyticalTask_def)
  note defs = twoTaskJob_def DecomposeJob_def ClassifyQueryIntent_def keywordHeuristicClassify_def IsDecompositionWorthIt_def
  consider "length ts = 0 \<or> 2 < length ts" | t where "ts = [t]" | t1 t2 where "ts = [t1, t2]"
    by (cases ts; cases "tl ts"; cases "tl (tl ts)") auto
  then show ?thesis
  proof cases
    case 1
    then show ?thesis using confidence_values(2) unfolding defs ts_def[symmetric] by (auto simp: Let_def)
  next
    case 2
    have "length (analytical (map (\<lambda>(i, t). analyticalTask U job i t) (List.enumerate 0 ts) @ [mergeTask job x])) = 1" for x
      unfolding analytical_tasks[OF nm] by (simp add: 2)
    then show ?thesis using confidence_values(1) 2 unfolding defs ts_def[symmetric] by (auto simp: Let_def)
  next
    case 3
    have "analytical [analyticalTask U job 0 t1, analyticalTask U job 1 t2, mergeTask job x] =
        [analyticalTask U job 0 t1, analyticalTask U job 1 t2]" for x
      using analytical_tasks[OF nm, of U job 0 x] by (simp add: 3)
    then show ?thesis using confidence_values(1) two_tasks_worth 3 unfolding defs ts_def[symmetric]
      by (auto simp: Let_def id)
  qed
qed

end
