(* ===== verification/Parallel.thy ===== *)
theory Parallel
  imports Decompose Router
begin

text \<open>
  Parallel work on a background job: output checksums and the decision to verify
  (\<open>internal/coordinator/parallelverifier.go\<close>), merging (\<open>merger.go\<close>), the spot and baseline
  checks (\<open>verification.go\<close>), and the driver \<open>RouteWithDecomposition\<close> with its fan-out
  (\<open>router.go\<close>). The JSON encoder of single values is the argument \<open>enc\<close>; the answers of the
  nodes are the transport of the router theory. A run also returns the requests it sent, in
  the order of their attempt numbers, for the properties.
\<close>

section \<open>Checksums of outputs\<close>

type_synonym json_encoder = "json \<Rightarrow> bytes option"

definition sortedKeys :: "jobj \<Rightarrow> string list" where
  "sortedKeys m = sorted_list_of_set (dom m)"

text \<open>One field; a key that vanished would be Go's nil, which no key of the list is.\<close>

definition joinField :: "json_encoder \<Rightarrow> (string \<Rightarrow> bytes option option) \<Rightarrow> string \<Rightarrow> bytes option" where
  "joinField enc vals k = (case (enc (JStr k), case vals k of None \<Rightarrow> enc JNull | Some vb \<Rightarrow> vb) of
       (Some kb, Some vb) \<Rightarrow> Some (kb @ bytes_of '':'' @ vb)
     | _ \<Rightarrow> None)"

fun joinFields :: "json_encoder \<Rightarrow> (string \<Rightarrow> bytes option option) \<Rightarrow> string list \<Rightarrow> bytes option" where
  "joinFields enc vals [] = Some []"
| "joinFields enc vals (k # ks) = (case joinField enc vals k of
     None \<Rightarrow> None
   | Some f \<Rightarrow> map_option (\<lambda>rest. f @ (if ks = [] then [] else bytes_of '','') @ rest) (joinFields enc vals ks))"

definition braced :: "bytes option \<Rightarrow> bytes option" where
  "braced body = map_option (\<lambda>b. bytes_of ''{'' @ b @ bytes_of ''}'') body"

primrec canonicalValue :: "json_encoder \<Rightarrow> json \<Rightarrow> bytes option" where
  "canonicalValue enc JNull = enc JNull"
| "canonicalValue enc (JBool b) = enc (JBool b)"
| "canonicalValue enc (JNum n) = enc (JNum n)"
| "canonicalValue enc (JStr s) = enc (JStr s)"
| "canonicalValue enc (JArr xs) = enc (JArr xs)"
| "canonicalValue enc (JObj m) =
     braced (joinFields enc (\<lambda>k. map_option (canonicalValue enc) (m k)) (sortedKeys m))"

definition canonicalJSON :: "json_encoder \<Rightarrow> jobj \<Rightarrow> bytes option" where
  "canonicalJSON enc m = canonicalValue enc (JObj m)"

definition ComputeOutputChecksum :: "crypto \<Rightarrow> json_encoder \<Rightarrow> jobj option \<Rightarrow> string option" where
  "ComputeOutputChecksum C enc out =
     map_option (\<lambda>b. hexEncode (sha256 C b)) (canonicalJSON enc (case out of None \<Rightarrow> Map.empty | Some m \<Rightarrow> m))"

section \<open>Verification of splits\<close>

record SplitVerificationResult =
  VerSplitID :: string
  VerNodeID :: node_id
  OutputChecksum :: string
  InputChecksum :: string
  Passed :: bool
  DivergenceDetail :: string

definition VerifySplitPair :: "SplitVerificationResult \<Rightarrow> SplitVerificationResult \<Rightarrow> f64 \<Rightarrow> bool" where
  "VerifySplitPair left right tolerance \<longleftrightarrow> tolerance = 0 \<and> OutputChecksum left = OutputChecksum right"

definition dialNode :: "transport \<Rightarrow> nat \<Rightarrow> JobSpec \<Rightarrow> jobj list \<Rightarrow> NodeTarget \<Rightarrow> dispatch_error + jobj option" where
  "dialNode T k job messages target =
     dispatchToNode (pushAnswer T k (httpClientForTarget target) target (dispatchPayload job messages))"

datatype rerun_error = NoFallbackEndpoint job_id | FallbackDispatch dispatch_error

definition TriggerFullRerunIfDiverged :: "transport \<Rightarrow> job_id \<Rightarrow> SplitVerificationResult list \<Rightarrow> NodeTarget \<Rightarrow>
    JobSpec \<Rightarrow> jobj list \<Rightarrow> rerun_error + jobj option" where
  "TriggerFullRerunIfDiverged T jobID splitResults fallbackTarget job messages =
     (if list_all Passed splitResults then Inr None
      else if Endpoint fallbackTarget = [] then Inl (NoFallbackEndpoint jobID)
      else case dialNode T 0 job messages fallbackTarget of
          Inl e \<Rightarrow> Inl (FallbackDispatch e)
        | Inr result \<Rightarrow> Inr result)"

definition ShouldUseParallelVerification :: "JobSpec \<Rightarrow> nat \<Rightarrow> nat \<Rightarrow> bool" where
  "ShouldUseParallelVerification job eligibleNodeCount estimatedInputTokens \<longleftrightarrow>
     Lane job = JobLaneBackground \<and> RequireDeterministicOutput job \<and>
     \<not> estimatedInputTokens < 500 \<and> \<not> eligibleNodeCount < 2"

section \<open>Spot and baseline checks\<close>

definition responseContentLen :: "jobj option \<Rightarrow> nat" where
  "responseContentLen result =
     (case asArr (Option.bind result (\<lambda>m. m ''choices'')) of
        Some (c # _) \<Rightarrow>
          (let choice = asObj (Some c);
               msg = asObj (Option.bind choice (\<lambda>m. m ''message''))
           in length (asString (Option.bind msg (\<lambda>m. m ''content''))))
      | _ \<Rightarrow> 0)"

datatype spot_error = SpotMarshal | SpotDispatch | SpotHttp int | SpotParse | SpotEmpty job_id nat nat

text \<open>
  \<open>draw\<close> is the random number, \<open>marshals\<close> whether the request body can be encoded.
\<close>

definition verifierRequest :: "string \<Rightarrow> jobj list \<Rightarrow> jobj" where
  "verifierRequest modelID messages = [''model'' \<mapsto> JStr modelID, ''messages'' \<mapsto> JArr (map JObj messages)]"

definition SpotCheckFastLane :: "f64 \<Rightarrow> bool \<Rightarrow> (http_client \<Rightarrow> NodeTarget \<Rightarrow> jobj \<Rightarrow> node_response) \<Rightarrow> job_id \<Rightarrow> jobj list \<Rightarrow>
    string \<Rightarrow> jobj option \<Rightarrow> NodeTarget \<Rightarrow> f64 \<Rightarrow> spot_error + bool" where
  "SpotCheckFastLane draw marshals answer jobID messages modelID primaryResult verifier sampleRate =
     (if draw \<ge> sampleRate then Inr True
      else if \<not> marshals then Inl SpotMarshal
      else case answer (httpClientForTarget verifier) verifier (verifierRequest modelID messages) of
          TransportError \<Rightarrow> Inl SpotDispatch
        | HttpResponse status body \<Rightarrow>
            if status \<ge> 400 then Inl (SpotHttp status)
            else case body of
                None \<Rightarrow> Inl SpotParse
              | Some verifierResult \<Rightarrow>
                  let p = responseContentLen primaryResult; v = responseContentLen verifierResult
                  in if p = 0 \<or> v = 0 then Inl (SpotEmpty jobID p v)
                     else let ratio = fdiv (f_of_int (int v)) (f_of_int (int p))
                          in Inr (ratio \<ge> fl (1 / 2) \<and> ratio \<le> 2))"

definition StatisticalBaselineCheck :: "job_id \<Rightarrow> jobj option list \<Rightarrow> jobj \<Rightarrow> bool" where
  "StatisticalBaselineCheck jobID recentOutputs baselineDist =
     (if baselineDist = Map.empty \<or> recentOutputs = [] then True
      else case (asNum (baselineDist ''mean_length''), asNum (baselineDist ''stddev_length'')) of
          (Some meanLen, Some stddevLen) \<Rightarrow>
            if stddevLen \<le> 0 then True
            else let total = sum_list (map responseContentLen recentOutputs);
                     observedMean = fdiv (f_of_int (int total)) (f_of_int (int (length recentOutputs)));
                     diff = fsub observedMean meanLen;
                     diff = (if diff < 0 then - diff else diff)
                 in diff \<le> fmul 3 stddevLen
        | _ \<Rightarrow> True)"

section \<open>Merging\<close>

record MergeInput =
  MergeSubTaskID :: string
  MergeSubTaskType :: string
  MergeResult :: "jobj option"
  MergePosition :: string
  VerificationPassed :: bool

record MergedResult =
  MergedJobID :: job_id
  MergedOutput :: "jobj option"
  SubTaskCount :: nat
  AnyVerificationFailures :: bool
  MergeNodeID :: string

definition noTarget :: NodeTarget where
  "noTarget = \<lparr> TargetNodeID = [], Endpoint = [], TLSFingerprint = [] \<rparr>"

definition ranOn :: "MergeInput \<Rightarrow> node_id \<Rightarrow> bool" where
  "ranOn i nid \<longleftrightarrow> (case Option.bind (MergeResult i) (\<lambda>m. m ''_node_id'') of Some (JStr s) \<Rightarrow> s = nid | _ \<Rightarrow> False)"

definition SelectMergeNode :: "CapabilityManifest list \<Rightarrow> MergeInput list \<Rightarrow> NodeTarget" where
  "SelectMergeNode podNodes subTaskResults =
     (case find (\<lambda>n. \<not> list_ex (\<lambda>i. ranOn i (NodeID n)) subTaskResults) podNodes of
        Some n \<Rightarrow> TargetFromManifest n
      | None \<Rightarrow> (case podNodes of n # _ \<Rightarrow> TargetFromManifest n | [] \<Rightarrow> noTarget))"

definition orderInputs :: "MergeInput list \<Rightarrow> MergeInput list" where
  "orderInputs inputs = fold (\<lambda>r ordered. if MergePosition r = ''left'' then r # ordered else ordered @ [r]) inputs []"

definition resultText :: "jobj option \<Rightarrow> string" where
  "resultText result =
     (case asArr (Option.bind result (\<lambda>m. m ''choices'')) of
        Some (c # _) \<Rightarrow>
          (let msg = asObj (Option.bind (asObj (Some c)) (\<lambda>m. m ''message''))
           in asString (Option.bind msg (\<lambda>m. m ''content'')))
      | _ \<Rightarrow> [])"

definition mergeSection :: "nat \<Rightarrow> MergeInput \<Rightarrow> string" where
  "mergeSection i r = ''## Sub-task '' @ decimal (i + 1) @
     (if MergePosition r \<noteq> [] then '' ('' @ MergePosition r @ '')'' else []) @ [newline] @
     resultText (MergeResult r) @ [newline, newline]"

definition BuildMergePrompt :: "MergeInput list \<Rightarrow> JobSpec \<Rightarrow> string" where
  "BuildMergePrompt subTaskResults job =
     ''You are a result merger. You receive the outputs of parallel inference sub-tasks '' @
     ''that were run on separate halves of a large input document. '' @
     ''Produce a single coherent response that combines them faithfully, '' @
     ''without adding information not present in the sub-task outputs.'' @ [newline, newline] @
     concat (map (\<lambda>(i, r). mergeSection i r) (List.enumerate 0 (orderInputs subTaskResults))) @
     ''Combine the above into a single response for job: '' @ SpecJobID job"

datatype merge_error = UnverifiedInput job_id string | NoMergeEndpoint job_id | MergeInference dispatch_error

definition mergeMessages :: "MergeInput list \<Rightarrow> JobSpec \<Rightarrow> jobj list" where
  "mergeMessages inputs job = [[''role'' \<mapsto> JStr ''system'', ''content'' \<mapsto> JStr (BuildMergePrompt inputs job)]]"

definition ExecuteMerge :: "transport \<Rightarrow> nat \<Rightarrow> MergeInput list \<Rightarrow> JobSpec \<Rightarrow> NodeTarget \<Rightarrow> merge_error + MergedResult" where
  "ExecuteMerge T k mergeInputs job mergeTarget =
     (case find (\<lambda>i. \<not> VerificationPassed i) mergeInputs of
        Some i \<Rightarrow> Inl (UnverifiedInput (SpecJobID job) (MergeSubTaskID i))
      | None \<Rightarrow>
          if Endpoint mergeTarget = [] then Inl (NoMergeEndpoint (SpecJobID job))
          else case dialNode T k job (mergeMessages mergeInputs job) mergeTarget of
              Inl e \<Rightarrow> Inl (MergeInference e)
            | Inr result \<Rightarrow> Inr \<lparr> MergedJobID = SpecJobID job, MergedOutput = result, SubTaskCount = length mergeInputs,
                AnyVerificationFailures = False,
                MergeNodeID = (if TargetNodeID mergeTarget = [] then Endpoint mergeTarget else TargetNodeID mergeTarget) \<rparr>)"

definition splitInput :: "string \<Rightarrow> string \<Rightarrow> jobj option \<Rightarrow> bool \<Rightarrow> MergeInput" where
  "splitInput splitID pos result ok = \<lparr> MergeSubTaskID = splitID, MergeSubTaskType = ''document_split'',
     MergeResult = result, MergePosition = pos, VerificationPassed = ok \<rparr>"

definition MergeSplitOutputs :: "transport \<Rightarrow> jobj option \<Rightarrow> jobj option \<Rightarrow> bool \<Rightarrow> bool \<Rightarrow> string \<Rightarrow> string \<Rightarrow> JobSpec \<Rightarrow>
    NodeTarget \<Rightarrow> merge_error + MergedResult" where
  "MergeSplitOutputs T leftResult rightResult leftVerified rightVerified leftSplitID rightSplitID job mergeTarget =
     ExecuteMerge T 0 [splitInput leftSplitID ''left'' leftResult leftVerified,
       splitInput rightSplitID ''right'' rightResult rightVerified] job mergeTarget"

section \<open>Fanning out\<close>

definition buildSubTaskJob :: "SubTask \<Rightarrow> JobSpec \<times> jobj list" where
  "buildSubTaskJob t =
     (emptyJob\<lparr> SpecJobID := SubTaskID t, RequesterID := ParentJob t, ModelID := SubModelID t, Lane := JobLaneBackground \<rparr>,
      [[''role'' \<mapsto> JStr ''user'', ''content'' \<mapsto> JStr (Prompt t)]])"

definition estimateAnalyticalPromptTokens :: "SubTask list \<Rightarrow> nat" where
  "estimateAnalyticalPromptTokens tasks = sum_list (map (\<lambda>t. estimateTokens (Prompt t)) tasks)"

text \<open>
  The polls of a waiting sub-task: \<open>now k\<close> is the clock at the \<open>k\<close>-th test of the deadline,
  \<open>completed k\<close> the ids of the finished sub-tasks at the \<open>k\<close>-th look under the lock.
\<close>

record dep_polls =
  pollNow :: "nat \<Rightarrow> time"
  pollDone :: "nat \<Rightarrow> string set"

partial_function (option) pollDependencies :: "dep_polls \<Rightarrow> string list \<Rightarrow> time \<Rightarrow> nat \<Rightarrow> bool option" where
  "pollDependencies P deps deadline k =
     (if pollNow P k < deadline
      then if list_all (\<lambda>d. d \<in> pollDone P k) deps then Some True else pollDependencies P deps deadline (Suc k)
      else Some False)"

definition WaitForDependencies :: "dep_polls \<Rightarrow> SubTask \<Rightarrow> time \<Rightarrow> duration \<Rightarrow> bool option" where
  "WaitForDependencies P t now timeout =
     (if DependsOn t = [] then Some True else pollDependencies P (DependsOn t) (now + timeout) 0)"

lemma WaitForDependencies_returns:
  assumes "now + timeout \<le> pollNow P k"
  shows "WaitForDependencies P t now timeout \<noteq> None"
proof -
  have "pollDependencies P deps deadline j \<noteq> None" if "deadline \<le> pollNow P k" "j \<le> k" for deps deadline j
    using that(2)
  proof (induction j rule: inc_induct)
    case base
    show ?case using that(1) by (subst pollDependencies.simps) simp
  next
    case (step n)
    then show ?case by (subst pollDependencies.simps) (simp del: not_None_eq)
  qed
  then show ?thesis using assms by (auto simp: WaitForDependencies_def simp del: not_None_eq)
qed

datatype sub_error = DependencyTimeout string | SubDispatch string dispatch_error

text \<open>One worker: sub-task \<open>i\<close> waits with the polls \<open>P i\<close> and asks its node.\<close>

definition runSubTask :: "transport \<Rightarrow> (nat \<Rightarrow> dep_polls) \<Rightarrow> time \<Rightarrow> CapabilityManifest list \<Rightarrow> nat \<Rightarrow> SubTask \<Rightarrow>
    (sub_error + jobj option) option" where
  "runSubTask T P now podNodes i t =
     map_option (\<lambda>ready.
         if \<not> ready then Inl (DependencyTimeout (SubTaskID t))
         else case dialNode T i (fst (buildSubTaskJob t)) (snd (buildSubTaskJob t))
                (TargetFromManifest (podNodes ! (i mod length podNodes))) of
             Inl e \<Rightarrow> Inl (SubDispatch (SubTaskID t) e)
           | Inr result \<Rightarrow> Inr result)
       (WaitForDependencies (P i) t now (30 * second))"

fun allOutcomes :: "'a option list \<Rightarrow> 'a list option" where
  "allOutcomes [] = Some []"
| "allOutcomes (None # os) = None"
| "allOutcomes (Some x # os) = map_option ((#) x) (allOutcomes os)"

datatype fan_error = NoPodNodes | FanFailures "sub_error list"

text \<open>
  None when a worker never ends. The failures are reported in the order the workers send
  them; the model lists them in the order of the sub-tasks.
\<close>

definition DispatchSubTasksInParallel :: "transport \<Rightarrow> (nat \<Rightarrow> dep_polls) \<Rightarrow> time \<Rightarrow> SubTask list \<Rightarrow> CapabilityManifest list \<Rightarrow>
    (fan_error + jobj option list) option" where
  "DispatchSubTasksInParallel T P now subTasks podNodes =
     (if podNodes = [] then Some (Inl NoPodNodes)
      else map_option (\<lambda>outs.
          let errs = List.map_filter (\<lambda>out. case out of Inl e \<Rightarrow> Some e | Inr _ \<Rightarrow> None) outs
          in if errs \<noteq> [] then Inl (FanFailures errs)
             else Inr (List.map_filter (\<lambda>out. case out of Inr res \<Rightarrow> Some res | Inl _ \<Rightarrow> None) outs))
        (allOutcomes (map (\<lambda>(i, t). runSubTask T P now podNodes i t) (List.enumerate 0 subTasks))))"

section \<open>Routing with decomposition\<close>

datatype route_error = FastLaneRoute job_id | SubTaskNil job_id nat | SubTaskUnverified job_id string
  | MergeFailed job_id merge_error | SingleNode dispatch_error

text \<open>A request the coordinator sent: to which node and with which body.\<close>

type_synonym contact = "NodeTarget \<times> jobj"

definition laterNet :: "nat \<Rightarrow> transport \<Rightarrow> transport" where
  "laterNet n T = T\<lparr> pullAnswer := (\<lambda>k. pullAnswer T (k + n)), pushAnswer := (\<lambda>k. pushAnswer T (k + n)),
     elapsedNs := (\<lambda>k. elapsedNs T (k + n)) \<rparr>"

text \<open>
  The surroundings of one call: answers, draws, the clock and map order of the candidate
  list and of a fallback, and the polls of the workers.
\<close>

record surroundings =
  suNet :: transport
  suDraw1 :: nat
  suDraw2 :: nat
  suNow :: "nat \<Rightarrow> time"
  suOrder :: "nat \<Rightarrow> node_id list"
  suPolls :: "nat \<Rightarrow> dep_polls"

definition singleNode :: "surroundings \<Rightarrow> nat \<Rightarrow> JobSpec \<Rightarrow> jobj list \<Rightarrow> int \<Rightarrow> contact list \<Rightarrow> registry \<Rightarrow>
    (route_error + jobj option) \<times> registry \<times> contact list" where
  "singleNode S n job messages maxAttempts sent r =
     (case DispatchFastLane (laterNet n (suNet S)) (suDraw1 S) (suDraw2 S) job messages maxAttempts (suNow S 1) (suOrder S 1) r of
        (out, r', tried) \<Rightarrow>
          (case out of Inl e \<Rightarrow> Inl (SingleNode e) | Inr res \<Rightarrow> Inr res, r',
           sent @ map (\<lambda>c. (TargetFromManifest (Manifest c), dispatchPayload job messages)) tried))"

definition podNodesFor :: "JobSpec \<Rightarrow> time \<Rightarrow> node_id list \<Rightarrow> registry \<Rightarrow> CapabilityManifest list" where
  "podNodesFor job now ks r =
     (let candidates = CandidatesWithLoad (ModelID job) (QuantizationRequired job) now ks r;
          candidates = (if Sensitivity job = SensitivityHighRequiresAttestation
                        then filter EnclaveAttested candidates else candidates)
      in map Manifest candidates)"

definition capSubTasks :: "JobSpec \<Rightarrow> SubTask list \<Rightarrow> SubTask list" where
  "capSubTasks job ts =
     (if MaxParallelNodes job > 0 \<and> int (length ts) > MaxParallelNodes job then take (nat (MaxParallelNodes job)) ts else ts)"

text \<open>The sampled sub-task is the first; its replica goes to the second node of the ring.\<close>

definition replicaNode :: "CapabilityManifest list \<Rightarrow> CapabilityManifest" where
  "replicaNode podNodes = podNodes ! (1 mod length podNodes)"

definition verifySample :: "crypto \<Rightarrow> json_encoder \<Rightarrow> transport \<Rightarrow> nat \<Rightarrow> SubTask \<Rightarrow> jobj option \<Rightarrow> CapabilityManifest list \<Rightarrow> bool" where
  "verifySample C enc T k t result podNodes =
     (case dialNode T k (fst (buildSubTaskJob t)) (snd (buildSubTaskJob t)) (TargetFromManifest (replicaNode podNodes)) of
        Inl e \<Rightarrow> False
      | Inr replica \<Rightarrow> (case (ComputeOutputChecksum C enc result, ComputeOutputChecksum C enc replica) of
            (Some a, Some b) \<Rightarrow> a = b | _ \<Rightarrow> False))"

definition verifies :: "JobSpec \<Rightarrow> SubTask list \<Rightarrow> CapabilityManifest list \<Rightarrow> bool" where
  "verifies job tasks podNodes \<longleftrightarrow>
     ShouldUseParallelVerification job (length podNodes) (estimateAnalyticalPromptTokens tasks) \<and>
     length tasks \<ge> 1 \<and> length podNodes \<ge> 2"

definition mergeInput :: "bool \<Rightarrow> SubTask \<Rightarrow> jobj option \<Rightarrow> MergeInput" where
  "mergeInput ok t res = \<lparr> MergeSubTaskID = SubTaskID t, MergeSubTaskType = SubTaskKind t, MergeResult = res,
     MergePosition = [], VerificationPassed = ok \<rparr>"

definition subContacts :: "SubTask list \<Rightarrow> CapabilityManifest list \<Rightarrow> contact list" where
  "subContacts tasks podNodes = map (\<lambda>(i, t). (TargetFromManifest (podNodes ! (i mod length podNodes)),
     dispatchPayload (fst (buildSubTaskJob t)) (snd (buildSubTaskJob t)))) (List.enumerate 0 tasks)"

text \<open>From the results of the sub-tasks to the answer.\<close>

definition finishDecomposed :: "crypto \<Rightarrow> json_encoder \<Rightarrow> transport \<Rightarrow> JobSpec \<Rightarrow> SubTask list \<Rightarrow> CapabilityManifest list \<Rightarrow>
    jobj option list \<Rightarrow> (route_error + jobj option) \<times> contact list" where
  "finishDecomposed C enc T job tasks podNodes subResults =
     (let sent = subContacts tasks podNodes; n = length tasks
      in case find (\<lambda>(i, res). res = None) (List.enumerate 0 subResults) of
          Some (i, _) \<Rightarrow> (Inl (SubTaskNil (SpecJobID job) i), sent)
        | None \<Rightarrow>
            let passed = (if verifies job tasks podNodes then verifySample C enc T n (hd tasks) (hd subResults) podNodes else True);
                sent = (if verifies job tasks podNodes
                        then sent @ [(TargetFromManifest (replicaNode podNodes),
                          dispatchPayload (fst (buildSubTaskJob (hd tasks))) (snd (buildSubTaskJob (hd tasks))))] else sent);
                inputs = map (\<lambda>(t, res). mergeInput passed t res) (zip tasks subResults)
            in case find (\<lambda>i. \<not> VerificationPassed i) inputs of
                Some i \<Rightarrow> (Inl (SubTaskUnverified (SpecJobID job) (MergeSubTaskID i)), sent)
              | None \<Rightarrow>
                  let target = SelectMergeNode podNodes inputs;
                      sent' = (if Endpoint target = [] then sent
                               else sent @ [(target, dispatchPayload job (mergeMessages inputs job))])
                  in case ExecuteMerge T (n + 1) inputs job target of
                      Inl e \<Rightarrow> (Inl (MergeFailed (SpecJobID job) e), sent')
                    | Inr merged \<Rightarrow> (Inr (MergedOutput merged), sent'))"

definition RouteWithDecomposition :: "crypto \<Rightarrow> json_encoder \<Rightarrow> text_tables \<Rightarrow> surroundings \<Rightarrow> JobSpec \<Rightarrow> jobj list \<Rightarrow>
    DecompositionModel option \<Rightarrow> int \<Rightarrow> registry \<Rightarrow>
    ((route_error + jobj option) \<times> registry \<times> contact list) option" where
  "RouteWithDecomposition C enc U S job messages model maxAttempts r =
     (if Lane job = JobLaneFast then Some (Inl (FastLaneRoute (SpecJobID job)), r, [])
      else case DecomposeJob U job model of
          Inl e \<Rightarrow> Some (singleNode S 0 job messages maxAttempts [] r)
        | Inr d \<Rightarrow>
            let podNodes = podNodesFor job (suNow S 0) (suOrder S 0) r;
                tasks = analytical (capSubTasks job (SubTasks d)); n = length tasks
            in if \<not> IsDecompositionWorthIt d 50 \<or> podNodes = []
               then Some (singleNode S 0 job messages maxAttempts [] r)
               else map_option (\<lambda>out. case out of
                     Inl e \<Rightarrow> singleNode S n job messages maxAttempts (subContacts tasks podNodes) r
                   | Inr subResults \<Rightarrow>
                       (case finishDecomposed C enc (suNet S) job tasks podNodes subResults of (res, sent) \<Rightarrow> (res, r, sent)))
                 (DispatchSubTasksInParallel (suNet S) (suPolls S) (suNow S 0) tasks podNodes))"

section \<open>Whom a decomposed job reaches\<close>

lemma podNodesFor_entry:
  assumes "range_order ks r" "m \<in> set (podNodesFor job now ks r)"
  shows "\<exists>nid e. r nid = Some e \<and> m = manifest e \<and>
    (Sensitivity job = SensitivityHighRequiresAttestation \<longrightarrow> enclaveAttested e)"
  using assms(2) by (auto simp: podNodesFor_def Let_def CandidatesWithLoad_iff[OF assms(1)] split: if_splits) blast+

lemma subContacts_mem:
  "podNodes \<noteq> [] \<Longrightarrow> (target, payload) \<in> set (subContacts tasks podNodes) \<Longrightarrow>
    \<exists>m \<in> set podNodes. target = TargetFromManifest m"
  by (auto simp: subContacts_def in_set_enumerate_eq intro!: bexI[OF _ nth_mem])

lemma SelectMergeNode_mem:
  "podNodes \<noteq> [] \<Longrightarrow> \<exists>m \<in> set podNodes. SelectMergeNode podNodes inputs = TargetFromManifest m"
  by (auto simp: SelectMergeNode_def split: option.splits list.splits dest: find_Some_mem)

lemma replicaNode_mem: "podNodes \<noteq> [] \<Longrightarrow> replicaNode podNodes \<in> set podNodes"
  unfolding replicaNode_def by (intro nth_mem mod_less_divisor) simp

lemma finishDecomposed_mem:
  assumes "podNodes \<noteq> []" "finishDecomposed C enc T job tasks podNodes subResults = (res, sent)" "(target, payload) \<in> set sent"
  shows "\<exists>m \<in> set podNodes. target = TargetFromManifest m"
proof -
  have "(target, payload) \<in> set (subContacts tasks podNodes) \<or> target = TargetFromManifest (replicaNode podNodes) \<or>
      (\<exists>inputs. target = SelectMergeNode podNodes inputs)"
    using assms(2,3) unfolding finishDecomposed_def Let_def
    by (auto split: option.splits sum.splits if_splits prod.splits)
  then show ?thesis
    using subContacts_mem[OF assms(1)] SelectMergeNode_mem[OF assms(1)] replicaNode_mem[OF assms(1)] by blast
qed

definition fallback_target :: "surroundings \<Rightarrow> JobSpec \<Rightarrow> jobj list \<Rightarrow> int \<Rightarrow> registry \<Rightarrow> NodeTarget \<Rightarrow> bool" where
  "fallback_target S job messages maxAttempts r target \<longleftrightarrow>
     (\<exists>n out r2 tried c. DispatchFastLane (laterNet n (suNet S)) (suDraw1 S) (suDraw2 S) job messages maxAttempts
        (suNow S 1) (suOrder S 1) r = (out, r2, tried) \<and> c \<in> set tried \<and> target = TargetFromManifest (Manifest c))"

lemma singleNode_contacts:
  assumes "singleNode S n job messages maxAttempts pre r = (res, r', sent)" "(target, payload) \<in> set sent"
  shows "(target, payload) \<in> set pre \<or> fallback_target S job messages maxAttempts r target"
proof -
  obtain out r2 tried where d: "DispatchFastLane (laterNet n (suNet S)) (suDraw1 S) (suDraw2 S) job messages maxAttempts
      (suNow S 1) (suOrder S 1) r = (out, r2, tried)" by (metis prod_cases3)
  have "(target, payload) \<in> set pre \<or> (\<exists>c \<in> set tried. target = TargetFromManifest (Manifest c))"
    using assms unfolding singleNode_def d by auto
  then show ?thesis unfolding fallback_target_def using d by blast
qed

lemma RouteWithDecomposition_cases:
  assumes "RouteWithDecomposition C enc U S job messages model maxAttempts r = Some out"
  obtains (fast) "Lane job = JobLaneFast" "out = (Inl (FastLaneRoute (SpecJobID job)), r, [])"
  | (single) n pre where "out = singleNode S n job messages maxAttempts pre r"
      "pre = [] \<or> podNodesFor job (suNow S 0) (suOrder S 0) r \<noteq> [] \<and>
        (\<exists>tasks. pre = subContacts tasks (podNodesFor job (suNow S 0) (suOrder S 0) r))"
  | (decomposed) d subResults where "DecomposeJob U job model = Inr d" "podNodesFor job (suNow S 0) (suOrder S 0) r \<noteq> []"
      "DispatchSubTasksInParallel (suNet S) (suPolls S) (suNow S 0) (analytical (capSubTasks job (SubTasks d)))
        (podNodesFor job (suNow S 0) (suOrder S 0) r) = Some (Inr subResults)"
      "out = (case finishDecomposed C enc (suNet S) job (analytical (capSubTasks job (SubTasks d)))
        (podNodesFor job (suNow S 0) (suOrder S 0) r) subResults of (res, sent) \<Rightarrow> (res, r, sent))"
proof (cases "Lane job = JobLaneFast")
  case True
  then show thesis using assms fast by (simp add: RouteWithDecomposition_def)
next
  case False
  let ?nodes = "podNodesFor job (suNow S 0) (suOrder S 0) r"
  show thesis
  proof (cases "DecomposeJob U job model")
    case (Inl e)
    then show thesis using assms False single[of 0 "[]"] by (simp add: RouteWithDecomposition_def)
  next
    case (Inr d)
    let ?tasks = "analytical (capSubTasks job (SubTasks d))"
    let ?fan = "DispatchSubTasksInParallel (suNet S) (suPolls S) (suNow S 0) ?tasks ?nodes"
    show thesis
    proof (cases "\<not> IsDecompositionWorthIt d 50 \<or> ?nodes = []")
      case True
      then show thesis using assms False Inr single[of 0 "[]"] by (simp add: RouteWithDecomposition_def)
    next
      case worth: False
      then obtain f where f: "?fan = Some f" using assms False Inr
        by (cases ?fan) (auto simp: RouteWithDecomposition_def Let_def)
      show thesis
      proof (cases f)
        case (Inl e)
        then show thesis using assms False \<open>DecomposeJob U job model = Inr d\<close> worth f
            single[of "length ?tasks" "subContacts ?tasks ?nodes"]
          by (auto simp: RouteWithDecomposition_def Let_def)
      next
        case (Inr subResults)
        then show thesis using assms False \<open>DecomposeJob U job model = Inr d\<close> worth f decomposed
          by (auto simp: RouteWithDecomposition_def Let_def)
      qed
    qed
  qed
qed

lemma RouteWithDecomposition_contacts:
  assumes "RouteWithDecomposition C enc U S job messages model maxAttempts r = Some (res, r', sent)" "(target, payload) \<in> set sent"
  shows "(\<exists>m \<in> set (podNodesFor job (suNow S 0) (suOrder S 0) r). target = TargetFromManifest m) \<or>
    fallback_target S job messages maxAttempts r target"
  using assms(1)
proof (cases rule: RouteWithDecomposition_cases)
  case fast
  then show ?thesis using assms(2) by simp
next
  case (single n pre)
  from singleNode_contacts[OF single(1)[symmetric] assms(2)] show ?thesis using single(2) subContacts_mem by auto
next
  case (decomposed d subResults)
  let ?tasks = "analytical (capSubTasks job (SubTasks d))" and ?nodes = "podNodesFor job (suNow S 0) (suOrder S 0) r"
  obtain x y where f: "finishDecomposed C enc (suNet S) job ?tasks ?nodes subResults = (x, y)" by fastforce
  then have "sent = y" using decomposed(4) by simp
  then show ?thesis using finishDecomposed_mem[OF decomposed(2) f] assms(2) by blast
qed

section \<open>Two sub-tasks\<close>

definition subPayload :: "text_tables \<Rightarrow> JobSpec \<Rightarrow> nat \<Rightarrow> string \<Rightarrow> jobj" where
  "subPayload U job i t = dispatchPayload (fst (buildSubTaskJob (analyticalTask U job i t)))
     (snd (buildSubTaskJob (analyticalTask U job i t)))"

definition askSub :: "text_tables \<Rightarrow> transport \<Rightarrow> JobSpec \<Rightarrow> nat \<Rightarrow> string \<Rightarrow> CapabilityManifest \<Rightarrow> dispatch_error + jobj option" where
  "askSub U T job i t m = dialNode T i (fst (buildSubTaskJob (analyticalTask U job i t)))
     (snd (buildSubTaskJob (analyticalTask U job i t))) (TargetFromManifest m)"

lemma runSubTask_analytical:
  "runSubTask T P now podNodes i (analyticalTask U job i t) =
     Some (case askSub U T job i t (podNodes ! (i mod length podNodes)) of
       Inl e \<Rightarrow> Inl (SubDispatch (analyticalID U (SpecJobID job) i t) e) | Inr res \<Rightarrow> Inr res)"
  by (auto simp: runSubTask_def WaitForDependencies_def askSub_def analyticalTask_def split: sum.splits)

lemma fan_two:
  assumes "podNodes \<noteq> []" "askSub U T job 0 t1 (hd podNodes) = Inr a" "askSub U T job 1 t2 (podNodes ! (1 mod length podNodes)) = Inr b"
  shows "DispatchSubTasksInParallel T P now [analyticalTask U job 0 t1, analyticalTask U job 1 t2] podNodes = Some (Inr [a, b])"
  using assms runSubTask_analytical[of T P now podNodes 0 U job t1] runSubTask_analytical[of T P now podNodes 1 U job t2]
  by (simp add: DispatchSubTasksInParallel_def hd_conv_nth map_filter_simps)

lemma runeCount_le: "runeCount s \<le> length s"
proof -
  have "runeCountFrom bs \<le> length bs" for bs
  proof (induction bs rule: runeCountFrom.induct)
    case (1 bs)
    show ?case
    proof (cases "bs = []")
      case False
      then have "runeCountFrom (drop (runeWidth bs) bs) < length bs"
        using 1 runeWidth_bounds[of bs] by (metis diff_less le_less_trans length_drop length_greater_0_conv)
      then show ?thesis by (subst runeCountFrom.simps) simp
    qed (simp add: runeCountFrom.simps)
  qed
  then show ?thesis by (metis length_map runeCount_def)
qed

lemma estimateTokens_le: "estimateTokens s \<le> 1 + length s div 4"
  using div_le_mono[OF runeCount_le[of s], of 4] by (simp add: estimateTokens_def Let_def)

lemma buildSubTaskPrompt_length:
  assumes "t \<in> set (matchedTypes s)"
  shows "length (buildSubTaskPrompt t jobID) \<le> 95 + length jobID"
proof -
  have "t \<in> set (map fst typeKeywords)" using assms by (auto simp: matchedTypes_def)
  then show ?thesis by (auto simp: typeKeywords_def sub_task_types buildSubTaskPrompt_def)
qed

text \<open>With the keyword classifier and a job id of ordinary length, the prompts stay under the threshold.\<close>

lemma short_prompts_unverified:
  assumes "t1 \<in> set (matchedTypes s)" "t2 \<in> set (matchedTypes s)" "length (SpecJobID job) \<le> 890"
  shows "\<not> verifies job' [analyticalTask U job 0 t1, analyticalTask U job 1 t2] podNodes"
proof -
  have "estimateTokens (buildSubTaskPrompt t (SpecJobID job)) \<le> 247" if "t \<in> set (matchedTypes s)" for t
    using estimateTokens_le[of "buildSubTaskPrompt t (SpecJobID job)"] buildSubTaskPrompt_length[OF that, of "SpecJobID job"] assms(3)
    by linarith
  from this[OF assms(1)] this[OF assms(2)] show ?thesis
    by (simp add: verifies_def ShouldUseParallelVerification_def estimateAnalyticalPromptTokens_def analyticalTask_def)
qed

lemma SelectMergeNode_unnamed:
  "podNodes \<noteq> [] \<Longrightarrow> (\<forall>i \<in> set inputs. Option.bind (MergeResult i) (\<lambda>m. m ''_node_id'') = None) \<Longrightarrow>
    SelectMergeNode podNodes inputs = TargetFromManifest (hd podNodes)"
  by (cases podNodes) (auto simp: SelectMergeNode_def ranOn_def list_ex_iff)

section \<open>Properties\<close>

text \<open>
  Decomposition does not weaken attestation. For a job that requires it, every request the
  driver sends, whether a sub-task, the replica that checks one, the merge call or an attempt
  of the single-node fallback, goes to the target of a registry entry whose enclave
  key is proved by two verified signatures; this holds for any classifier and any answers.
\<close>

theorem decomposition_attested_only:
  assumes "reachable_registry C r" and "range_order (suOrder S 0) r" and "range_order (suOrder S 1) r"
    and "Sensitivity job = SensitivityHighRequiresAttestation"
    and "drawOk (length (filter (eligible job) (CandidatesWithLoad (ModelID job) (QuantizationRequired job)
           (suNow S 1) (suOrder S 1) r))) (suDraw1 S) (suDraw2 S)"
    and "RouteWithDecomposition C enc U S job messages model maxAttempts r = Some (res, r', sent)"
    and "(target, payload) \<in> set sent"
  shows "\<exists>nid e. r nid = Some e \<and> target = TargetFromManifest (manifest e) \<and>
    attestation_proof C nid (publicKey e) (enclavePublicKey e)"
proof -
  have ok: "registry_ok C r" by (rule reachable_registry_ok[OF assms(1)])
  from RouteWithDecomposition_contacts[OF assms(6,7)] show ?thesis
  proof (elim disjE exE bexE conjE)
    fix m assume m: "m \<in> set (podNodesFor job (suNow S 0) (suOrder S 0) r)" "target = TargetFromManifest m"
    from podNodesFor_entry[OF assms(2) m(1)] obtain nid e where "r nid = Some e" "m = manifest e" "enclaveAttested e"
      using assms(4) by blast
    then show ?thesis using m(2) registry_okD[OF ok] by (auto simp: entry_ok_def)
  next
    assume "fallback_target S job messages maxAttempts r target"
    then show ?thesis unfolding fallback_target_def using tried_attested[OF ok assms(3,4,5)] by metis
  qed
qed

definition trendJob :: JobSpec where
  "trendJob = sampleJob\<lparr> SpecJobID := ''schema trend'', Lane := JobLaneBackground, AllowDecomposition := True,
     Sensitivity := SensitivityHighRequiresAttestation \<rparr>"

definition deafSurroundings :: surroundings where
  "deafSurroundings = \<lparr> suNet = deafTransport, suDraw1 = 0, suDraw2 = 0, suNow = (\<lambda>k. 0),
     suOrder = (\<lambda>k. [replicate 32 CHR ''0'']), suPolls = (\<lambda>i. \<lparr> pollNow = (\<lambda>k. 0), pollDone = (\<lambda>k. {}) \<rparr>) \<rparr>"

lemma trend_plan:
  "DecomposeJob asciiText trendJob None = Inr (twoTaskJob asciiText trendJob SubTaskSchemaLookup SubTaskTrendAnalysis)"
  "IsDecompositionWorthIt (twoTaskJob asciiText trendJob SubTaskSchemaLookup SubTaskTrendAnalysis) 50"
proof -
  have "AllowDecomposition trendJob" "Lane trendJob \<noteq> JobLaneFast"
    by (simp_all add: trendJob_def JobLaneBackground_def JobLaneFast_def)
  moreover have "matchedTypes (lowerText asciiText (SpecJobID trendJob)) = [SubTaskSchemaLookup, SubTaskTrendAnalysis]"
    by code_simp
  ultimately show "DecomposeJob asciiText trendJob None = Inr (twoTaskJob asciiText trendJob SubTaskSchemaLookup SubTaskTrendAnalysis)"
    "IsDecompositionWorthIt (twoTaskJob asciiText trendJob SubTaskSchemaLookup SubTaskTrendAnalysis) 50"
    using DecomposeJob_heuristic by blast+
qed

lemma twoTaskJob_tasks:
  assumes "matchedTypes s = [t1, t2]" "\<not> 0 < MaxParallelNodes job \<or> 2 \<le> MaxParallelNodes job"
  shows "analytical (capSubTasks job (SubTasks (twoTaskJob U job t1 t2))) = [analyticalTask U job 0 t1, analyticalTask U job 1 t2]"
proof -
  have t: "t1 \<noteq> SubTaskMerge" "t2 \<noteq> SubTaskMerge" using types_not_merge[of _ s] assms(1) by auto
  have "capSubTasks job [a, b, c] = [a, b, c] \<or> capSubTasks job [a, b, c] = [a, b]" for a b c
    using assms(2) by (auto simp: capSubTasks_def take_Cons' nat_le_iff)
  moreover have "analytical [analyticalTask U job 0 t1, analyticalTask U job 1 t2, mergeTask job x] =
      [analyticalTask U job 0 t1, analyticalTask U job 1 t2]"
    "analytical [analyticalTask U job 0 t1, analyticalTask U job 1 t2] = [analyticalTask U job 0 t1, analyticalTask U job 1 t2]" for x
    using t by (simp_all add: analytical_def analyticalTask_def mergeTask_def)
  ultimately show ?thesis unfolding twoTaskJob_def DecomposedJob.simps by metis
qed

definition subInputs :: "text_tables \<Rightarrow> JobSpec \<Rightarrow> string \<Rightarrow> string \<Rightarrow> jobj \<Rightarrow> jobj \<Rightarrow> MergeInput list" where
  "subInputs U job t1 t2 a b = [mergeInput True (analyticalTask U job 0 t1) (Some a), mergeInput True (analyticalTask U job 1 t2) (Some b)]"

lemma finish_two:
  assumes "podNodes \<noteq> []" "\<not> verifies job [analyticalTask U job 0 t1, analyticalTask U job 1 t2] podNodes"
    and "a ''_node_id'' = None" "b ''_node_id'' = None" "ReachabilityEndpoint (hd podNodes) \<noteq> []"
  shows "finishDecomposed C enc T job [analyticalTask U job 0 t1, analyticalTask U job 1 t2] podNodes [Some a, Some b] =
    (case dialNode T 3 job (mergeMessages (subInputs U job t1 t2 a b) job) (TargetFromManifest (hd podNodes)) of
       Inl e \<Rightarrow> Inl (MergeFailed (SpecJobID job) (MergeInference e)) | Inr res \<Rightarrow> Inr res,
     [(TargetFromManifest (hd podNodes), subPayload U job 0 t1),
      (TargetFromManifest (podNodes ! (1 mod length podNodes)), subPayload U job 1 t2),
      (TargetFromManifest (hd podNodes), dispatchPayload job (mergeMessages (subInputs U job t1 t2 a b) job))])"
proof -
  have sel: "SelectMergeNode podNodes (subInputs U job t1 t2 a b) = TargetFromManifest (hd podNodes)"
    by (rule SelectMergeNode_unnamed[OF assms(1)]) (simp add: subInputs_def mergeInput_def assms(3,4))
  have ends: "Endpoint (TargetFromManifest (hd podNodes)) \<noteq> []" using assms(5) by (simp add: TargetFromManifest_def)
  have ok: "find (\<lambda>i. \<not> VerificationPassed i) (subInputs U job t1 t2 a b) = None"
    by (simp add: subInputs_def mergeInput_def)
  have zip: "map (\<lambda>(t, res). mergeInput True t res) (zip [analyticalTask U job 0 t1, analyticalTask U job 1 t2] [Some a, Some b]) =
      subInputs U job t1 t2 a b" by (simp add: subInputs_def)
  have sent: "subContacts [analyticalTask U job 0 t1, analyticalTask U job 1 t2] podNodes =
      [(TargetFromManifest (hd podNodes), subPayload U job 0 t1),
       (TargetFromManifest (podNodes ! (1 mod length podNodes)), subPayload U job 1 t2)]"
    using assms(1) by (simp add: subContacts_def subPayload_def hd_conv_nth)
  have three: "length [x, y] + 1 = 3" for x y :: SubTask by simp
  have full: "find (\<lambda>(i, res). res = None) (List.enumerate 0 [Some a, Some b]) = None" by simp
  show ?thesis unfolding finishDecomposed_def Let_def full option.case if_not_P[OF assms(2)] zip ok sel ExecuteMerge_def sent three
    using ends by (auto split: sum.splits)
qed

text \<open>
  What a decomposed job really does. With the keyword classifier, the only one the program
  calls it with, a background job whose id matches exactly two types is carried out by three
  requests: the two instruction texts made from the job id, and a merge call to the very node
  that answered the first of them. The user's messages occur in none of these requests and the answer
  does not depend on them; and a job that asks for deterministic, verified output is merged
  without any verification as long as its id has at most 890 bytes.
\<close>

theorem decomposed_execution:
  assumes "AllowDecomposition job" and "Lane job = JobLaneBackground"
    and types: "matchedTypes (lowerText U (SpecJobID job)) = [t1, t2]"
    and "\<not> 0 < MaxParallelNodes job \<or> 2 \<le> MaxParallelNodes job"
    and "length (SpecJobID job) \<le> 890"
    and nodes: "nodes = podNodesFor job (suNow S 0) (suOrder S 0) r" "nodes \<noteq> []" "ReachabilityEndpoint (hd nodes) \<noteq> []"
    and answers: "askSub U (suNet S) job 0 t1 (hd nodes) = Inr (Some a)" "a ''_node_id'' = None"
      "askSub U (suNet S) job 1 t2 (nodes ! (1 mod length nodes)) = Inr (Some b)" "b ''_node_id'' = None"
  shows "RouteWithDecomposition C enc U S job messages None maxAttempts r = Some
    (case dialNode (suNet S) 3 job (mergeMessages (subInputs U job t1 t2 a b) job) (TargetFromManifest (hd nodes)) of
       Inl e \<Rightarrow> Inl (MergeFailed (SpecJobID job) (MergeInference e)) | Inr res \<Rightarrow> Inr res,
     r,
     [(TargetFromManifest (hd nodes), subPayload U job 0 t1),
      (TargetFromManifest (nodes ! (1 mod length nodes)), subPayload U job 1 t2),
      (TargetFromManifest (hd nodes), dispatchPayload job (mergeMessages (subInputs U job t1 t2 a b) job))])"
proof -
  let ?d = "twoTaskJob U job t1 t2" and ?t = "[analyticalTask U job 0 t1, analyticalTask U job 1 t2]"
  have lane: "Lane job \<noteq> JobLaneFast" using assms(2) by (simp add: JobLaneBackground_def JobLaneFast_def)
  have d: "DecomposeJob U job None = Inr ?d" "IsDecompositionWorthIt ?d 50"
    using DecomposeJob_heuristic[of U job ?d] assms(1) lane types by blast+
  have mem: "t1 \<in> set (matchedTypes (lowerText U (SpecJobID job)))" "t2 \<in> set (matchedTypes (lowerText U (SpecJobID job)))"
    using types by auto
  note tasks = twoTaskJob_tasks[OF types assms(4), of U]
  note fan = fan_two[OF nodes(2) answers(1,3)]
  note unverified = short_prompts_unverified[OF mem assms(5)]
  note fin = finish_two[of nodes job U t1 t2 a b C enc "suNet S", OF nodes(2) unverified answers(2,4) nodes(3)]
  have go: "\<not> (\<not> IsDecompositionWorthIt ?d 50 \<or> nodes = [])" using d(2) nodes(2) by simp
  show ?thesis unfolding RouteWithDecomposition_def Let_def if_not_P[OF lane] d(1) sum.case nodes(1)[symmetric] tasks
      if_not_P[OF go] fan option.map sum.case fin prod.case ..
qed

definition echoTransport :: transport where
  "echoTransport = \<lparr> pullWired = False, pullAnswer = (\<lambda>k n j m. Inl PullFailed),
     pushAnswer = (\<lambda>k c t p. HttpResponse 200 (Some (Some p))), elapsedNs = (\<lambda>k n. 1) \<rparr>"

definition echoSurroundings :: surroundings where
  "echoSurroundings = deafSurroundings\<lparr> suNet := echoTransport \<rparr>"

definition dialledEntry :: nodeEntry where
  "dialledEntry = attestedEntry\<lparr> manifest := (manifest attestedEntry)\<lparr> ReachabilityEndpoint := ''http://n'' \<rparr> \<rparr>"

definition dialledReg :: registry where
  "dialledReg = NewNodeRegistry(replicate 32 CHR ''0'' \<mapsto> dialledEntry)"

lemma trend_fields: "ModelID trendJob = ''m''" "QuantizationRequired trendJob = []"
  "Sensitivity trendJob = SensitivityHighRequiresAttestation" "SpecJobID trendJob = ''schema trend''"
  "AllowDecomposition trendJob" "Lane trendJob = JobLaneBackground" "MaxParallelNodes trendJob = 0"
  by (simp_all add: trendJob_def sampleJob_def emptyJob_def)

lemma trend_types: "matchedTypes (lowerText asciiText (SpecJobID trendJob)) = [SubTaskSchemaLookup, SubTaskTrendAnalysis]"
  by code_simp

lemma attested_pod: "podNodesFor trendJob 0 [replicate 32 CHR ''0''] attestedReg = [manifest attestedEntry]"
  by (simp only: podNodesFor_def trend_fields attested_candidates) (simp add: attestedNode_def)

lemma dialled_pod: "podNodesFor trendJob 0 [replicate 32 CHR ''0''] dialledReg = [manifest dialledEntry]"
proof -
  have e: "rangeEntries [nid] (NewNodeRegistry(nid \<mapsto> dialledEntry)) = [(nid, dialledEntry)]" for nid
    by (simp add: rangeEntries_def)
  have l: "isLive 0 dialledEntry" by (simp add: isLive_def dialledEntry_def attestedEntry_def freshEntry_def livenessTTL_def)
  have s: "clusterStandbyNodeIDs 0 [nid] (NewNodeRegistry(nid \<mapsto> dialledEntry)) = []" for nid
    by (simp add: clusterStandbyNodeIDs_def dialledEntry_def attestedEntry_def emptyManifest_def)
  have h: "hasModel (manifest dialledEntry) ''m'' []" "enclaveAttested dialledEntry"
    by (simp_all add: hasModel_def dialledEntry_def attestedEntry_def sampleModel_def)
  have "CandidatesWithLoad ''m'' [] 0 [replicate 32 CHR ''0''] dialledReg =
      [\<lparr> Manifest = manifest dialledEntry, InFlight = inFlight dialledEntry, EnclaveAttested = True, ObservedTPS = observedTPS dialledEntry \<rparr>]"
    unfolding CandidatesWithLoad_def dialledReg_def e s by (simp add: l h)
  then show ?thesis by (simp add: podNodesFor_def trend_fields)
qed

theorem decomposition_attested_only_witness:
  "\<exists>res r' sent payload. RouteWithDecomposition openCrypto (\<lambda>v. Some []) asciiText deafSurroundings trendJob [] None 1 attestedReg =
       Some (res, r', sent) \<and> (TargetFromManifest (manifest attestedEntry), payload) \<in> set sent \<and>
     (\<exists>nid e. attestedReg nid = Some e \<and> TargetFromManifest (manifest attestedEntry) = TargetFromManifest (manifest e) \<and>
        attestation_proof openCrypto nid (publicKey e) (enclavePublicKey e))"
proof -
  let ?R = "RouteWithDecomposition openCrypto (\<lambda>v. Some []) asciiText deafSurroundings trendJob [] None 1 attestedReg"
  let ?t = "[analyticalTask asciiText trendJob 0 SubTaskSchemaLookup, analyticalTask asciiText trendJob 1 SubTaskTrendAnalysis]"
  have su: "suOrder deafSurroundings k = [replicate 32 CHR ''0'']" "suNow deafSurroundings k = 0" "suDraw1 deafSurroundings = 0"
    "suDraw2 deafSurroundings = 0" "suNet deafSurroundings = deafTransport" for k by (simp_all add: deafSurroundings_def)
  have lane: "Lane trendJob \<noteq> JobLaneFast" by (simp add: trend_fields JobLaneBackground_def JobLaneFast_def)
  have tasks: "analytical (capSubTasks trendJob (SubTasks (twoTaskJob asciiText trendJob SubTaskSchemaLookup SubTaskTrendAnalysis))) = ?t"
    by (rule twoTaskJob_tasks[OF trend_types]) (simp add: trend_fields)
  have deaf: "dialNode deafTransport k j ms target = Inl DispatchFailed" for k j ms target
    by (simp add: dialNode_def deafTransport_def dispatchToNode_def)
  obtain errs where fan: "DispatchSubTasksInParallel deafTransport (suPolls deafSurroundings) 0 ?t [manifest attestedEntry] = Some (Inl errs)"
    using runSubTask_analytical[of deafTransport _ _ _ 0] runSubTask_analytical[of deafTransport _ _ _ 1]
    by (simp add: DispatchSubTasksInParallel_def askSub_def deaf map_filter_simps)
  obtain res r' sent where s: "singleNode deafSurroundings 2 trendJob [] 1 (subContacts ?t [manifest attestedEntry]) attestedReg = (res, r', sent)"
    by (metis prod_cases3)
  have R: "?R = Some (res, r', sent)"
    unfolding RouteWithDecomposition_def Let_def if_not_P[OF lane] trend_plan(1) sum.case su attested_pod tasks fan
    using trend_plan(2) s by (simp add: numeral_2_eq_2)
  have "\<exists>payload. (TargetFromManifest (manifest attestedEntry), payload) \<in> set sent"
    using s by (auto simp: singleNode_def subContacts_def split: prod.splits)
  then obtain payload where p: "(TargetFromManifest (manifest attestedEntry), payload) \<in> set sent" by blast
  have r: "reachable_registry openCrypto attestedReg" using attested_reachable by (simp add: attestedReg_def)
  have k: "range_order (suOrder deafSurroundings k) attestedReg" for k by (simp add: su attestedReg_def range_order_single)
  have o: "drawOk (length (filter (eligible trendJob) (CandidatesWithLoad (ModelID trendJob) (QuantizationRequired trendJob)
      (suNow deafSurroundings 1) (suOrder deafSurroundings 1) attestedReg))) (suDraw1 deafSurroundings) (suDraw2 deafSurroundings)"
    unfolding su trend_fields attested_candidates by (simp add: drawOk_def)
  from decomposition_attested_only[OF r k k trend_fields(3) o R p] R p show ?thesis by blast
qed

theorem decomposed_execution_witness:
  "\<exists>res r' sent. RouteWithDecomposition openCrypto (\<lambda>v. Some []) asciiText echoSurroundings trendJob
       [[''content'' \<mapsto> JStr ''the question'']] None 1 dialledReg = Some (Inr res, r', sent) \<and> length sent = 3"
proof -
  have su: "suOrder echoSurroundings k = [replicate 32 CHR ''0'']" "suNow echoSurroundings k = 0" "suNet echoSurroundings = echoTransport" for k
    by (simp_all add: echoSurroundings_def deafSurroundings_def)
  have echo: "dialNode echoTransport k j ms target = Inr (Some (dispatchPayload j ms))" for k j ms target
    by (simp add: dialNode_def echoTransport_def dispatchToNode_def)
  have ask: "askSub asciiText echoTransport j i t m = Inr (Some (subPayload asciiText j i t))" for j i t m
    by (simp add: askSub_def echo subPayload_def)
  have none: "subPayload asciiText j i t ''_node_id'' = None" for j i t
    by (simp add: subPayload_def dispatchPayload_def buildSubTaskJob_def emptyJob_def Let_def)
  have e: "ReachabilityEndpoint (hd [manifest dialledEntry]) \<noteq> []" by (simp add: dialledEntry_def)
  have len: "length (SpecJobID trendJob) \<le> 890" "\<not> 0 < MaxParallelNodes trendJob \<or> 2 \<le> MaxParallelNodes trendJob"
    by (simp_all add: trend_fields)
  have pod: "[manifest dialledEntry] = podNodesFor trendJob (suNow echoSurroundings 0) (suOrder echoSurroundings 0) dialledReg"
    by (simp add: su dialled_pod)
  show ?thesis
    using decomposed_execution[OF trend_fields(5,6) trend_types len(2,1) pod _ e ask[folded su(3)] none ask[folded su(3)] none,
        of openCrypto "\<lambda>v. Some []" "[[''content'' \<mapsto> JStr ''the question'']]" 1]
    by (simp add: su echo)
qed

end
