(* ===== verification/Background.thy ===== *)
theory Background
  imports Requests Parallel
begin

text \<open>
  The background handlers of \<open>cmd/coordinator/main.go\<close>: assigning a job, resolving a cycle
  and executing one, on a single node or by decomposition. The tables \<open>U\<close>, the encoder and
  the polls of the workers belong to the decomposition driver. A panic ends the request
  without an answer.
\<close>

definition handleAssign :: "world \<Rightarrow> JobSpec option \<Rightarrow> coordinator \<Rightarrow> reply \<times> coordinator" where
  "handleAssign w body c = (case body of
       None \<Rightarrow> (failWith 400 (ErrText ''parse job spec''), c)
     | Some job \<Rightarrow> (case Validate job of
         Some e \<Rightarrow> (failWith 400 (ErrSpec e), c)
       | None \<Rightarrow> (case AssignBackgroundJob job (wClock w 0) (wOrder w 0) (coReg c) of
           AssignPanics \<Rightarrow> ((0, Panicked), c)
         | AssignError needed got \<Rightarrow> (failWith 503 (ErrText ''not enough eligible nodes''), c)
         | Assigned a \<Rightarrow> ((200, AssignmentBody a), c\<lparr> coAssign := SaveAssignment a (coAssign c) \<rparr>))))"

definition handleCycle :: "world \<Rightarrow> job_id option \<Rightarrow> coordinator \<Rightarrow> reply" where
  "handleCycle w body c = (case body of
       None \<Rightarrow> failWith 400 (ErrText ''parse request'')
     | Some jobID \<Rightarrow> (case GetAssignment jobID (coAssign c) of
         None \<Rightarrow> failWith 404 (ErrText ''no assignment'')
       | Some a \<Rightarrow> (case ResolveForCycle a (wClock w 0) (coReg c) of
           None \<Rightarrow> failWith 503 (ErrText ''all assigned nodes are down'')
         | Some (nodeID, cont) \<Rightarrow> statusOk [''node_id'' \<mapsto> JStr nodeID, ''is_continuation'' \<mapsto> JBool cont])))"

record decomposition_env =
  deTables :: text_tables
  deEncoder :: json_encoder
  dePolls :: "nat \<Rightarrow> dep_polls"

definition surroundingsOf :: "decomposition_env \<Rightarrow> world \<Rightarrow> surroundings" where
  "surroundingsOf E w = \<lparr> suNet = wNet w, suDraw1 = wDraw1 w, suDraw2 = wDraw2 w, suNow = wClock w,
     suOrder = wOrder w, suPolls = dePolls E \<rparr>"

text \<open>The credit of one executed cycle; the caller is not charged.\<close>

definition creditCycle :: "world \<Rightarrow> node_id \<Rightarrow> job_id \<Rightarrow> JobSpec \<Rightarrow> jobj option \<Rightarrow> coordinator \<Rightarrow> coordinator" where
  "creditCycle w nodeID jobID job result c =
     (let observedTok = extractCompletionTokens result 2048
      in if observedTok > 0
         then let consumerCharge = ConsumerCost LaneBackground (Sensitivity job) observedTok;
                  b = creditNodeEarning (wSql w) (wClock w 1) (coWallet c) (coNodeUsers c) (coReg c) nodeID jobID
                        LaneBackground (Sensitivity job) observedTok consumerCharge (coBooks c)
              in c\<lparr> coBooks := b, coReg := MarkJobServed nodeID (wClock w 2) (coReg c) \<rparr>
         else c)"

definition executeSingle :: "world \<Rightarrow> job_id \<Rightarrow> jobj list \<Rightarrow> BackgroundAssignment \<Rightarrow> coordinator \<Rightarrow> reply \<times> coordinator" where
  "executeSingle w jobID messages a c = (case ResolveForCycle a (wClock w 0) (coReg c) of
       None \<Rightarrow> (failWith 503 (ErrText ''all assigned nodes are down''), c)
     | Some (nodeID, cont) \<Rightarrow> (case ManifestOf nodeID (coReg c) of
         None \<Rightarrow> (failWith 503 (ErrText ''resolved node is no longer registered''), c)
       | Some m \<Rightarrow> (case DispatchToResolvedNode (wNet w) (AssignSpec a) messages (TargetFromManifest m) (coReg c) of
           (Inl e, r) \<Rightarrow> (failWith 503 (ErrDispatch e), c\<lparr> coReg := r \<rparr>)
         | (Inr result, r) \<Rightarrow>
             ((200, ResultBody result), creditCycle w nodeID jobID (AssignSpec a) result (c\<lparr> coReg := r \<rparr>)))))"

text \<open>None when a worker of the fan-out never ends.\<close>

definition handleExecute :: "config \<Rightarrow> decomposition_env \<Rightarrow> world \<Rightarrow> (job_id \<times> jobj list) option \<Rightarrow> coordinator \<Rightarrow>
    (reply \<times> coordinator) option" where
  "handleExecute cf E w body c = (case body of
       None \<Rightarrow> Some (failWith 400 (ErrText ''parse request''), c)
     | Some (jobID, messages) \<Rightarrow> (case GetAssignment jobID (coAssign c) of
         None \<Rightarrow> Some (failWith 404 (ErrText ''no assignment''), c)
       | Some a \<Rightarrow>
           if AllowDecomposition (AssignSpec a)
           then map_option (\<lambda>(out, r, sent). case out of
                 Inl e \<Rightarrow> (failWith 503 (ErrText ''decomposed execution failed''), c\<lparr> coReg := r \<rparr>)
               | Inr result \<Rightarrow> ((200, ResultBody result), c\<lparr> coReg := r \<rparr>))
             (RouteWithDecomposition (cfCrypto cf) (deEncoder E) (deTables E) (surroundingsOf E w) (AssignSpec a) messages None
               (cfMaxAttempts cf) (coReg c))
           else Some (executeSingle w jobID messages a c)))"

section \<open>Properties\<close>

text \<open>
  Background work is paid from nothing. Executing a cycle of an assigned job credits its node
  and the treasury with the full background price of the tokens the node reports, debits no
  account, and leaves the assignment in place for the next request under the same id: every
  such request adds the whole price to the money in circulation.
\<close>

theorem background_execute_mints:
  assumes a: "GetAssignment jobID (coAssign c) = Some a" "\<not> AllowDecomposition (AssignSpec a)"
    and nid: "ResolveForCycle a (wClock w 0) (coReg c) = Some (nodeID, cont)" "ManifestOf nodeID (coReg c) = Some m"
    and served: "DispatchToResolvedNode (wNet w) (AssignSpec a) messages (TargetFromManifest m) (coReg c) = (Inr result, r)"
      "extractCompletionTokens result 2048 = t" "0 < t" "\<not> isSimulated nodeID r" "\<forall>k. wSql w k"
    and charge: "charge = ConsumerCost LaneBackground (Sensitivity (AssignSpec a)) t"
  shows "\<exists>c'. handleExecute cf E w (Some (jobID, messages)) c = Some ((200, ResultBody result), c') \<and>
    0 < charge \<and> netIssue c' = netIssue c + charge \<and> debits (fst (coBooks c')) = debits (fst (coBooks c)) \<and>
    earnedEntry (resolveEarningsAccount (coWallet c) (coNodeUsers c) nodeID)
      (ProviderReward LaneBackground (Sensitivity (AssignSpec a)) t) (wClock w 1) jobID \<in> set (entries (fst (coBooks c'))) \<and>
    coAssign c' = coAssign c"
proof -
  define now where "now = wClock w 1"
  let ?s = "Sensitivity (AssignSpec a)"
  let ?b = "creditNodeEarning (wSql w) now (coWallet c) (coNodeUsers c) r nodeID jobID LaneBackground ?s t charge (coBooks c)"
  define c' where "c' = c\<lparr> coBooks := ?b, coReg := MarkJobServed nodeID (wClock w 2) r \<rparr>"
  have cost: "is_f64 charge" "ProviderReward LaneBackground ?s t \<le> charge" "charge \<le> 2 * ProviderReward LaneBackground ?s t"
    unfolding charge by (auto intro: is_f64_ConsumerCost reward_le_cost cost_le_twice_reward)
  note en = creditNodeEarning_entries[OF served(5,4) cost, of now "coWallet c" "coNodeUsers c" jobID "coBooks c"]
  have h: "handleExecute cf E w (Some (jobID, messages)) c = Some ((200, ResultBody result), c')"
    using a nid served by (simp add: handleExecute_def executeSingle_def creditCycle_def charge Let_def c'_def now_def)
  have "netIssue c' = netIssue c + charge"
    using cost(2) by (auto simp: netIssue_def creditSum_def debitSum_def c'_def en earnedEntry_def)
  moreover have "0 < charge" unfolding charge by (rule ConsumerCost_pos[OF served(3)])
  moreover have "debits (fst (coBooks c')) = debits (fst (coBooks c))" by (simp add: c'_def en)
  moreover have "earnedEntry (resolveEarningsAccount (coWallet c) (coNodeUsers c) nodeID) (ProviderReward LaneBackground ?s t) now jobID
      \<in> set (entries (fst (coBooks c')))" by (simp add: c'_def en)
  moreover have "coAssign c' = coAssign c" by (simp add: c'_def)
  ultimately show ?thesis using h unfolding now_def by blast
qed

definition assignedCoordinator :: coordinator where
  "assignedCoordinator = emptyCoordinator\<lparr> coReg := [''n'' \<mapsto> freshEntry sampleRegistration 0],
     coAssign := [''nightly'' \<mapsto> \<lparr> AssignJobID = ''nightly'', Primary = ''n'', Backups = [],
       AssignSpec = emptyJob\<lparr> SpecJobID := ''nightly'', Lane := JobLaneBackground \<rparr> \<rparr>] \<rparr>"

theorem background_execute_mints_witness:
  "\<exists>c' res. handleExecute plainConfig \<lparr> deTables = asciiText, deEncoder = (\<lambda>v. Some []), dePolls = suPolls deafSurroundings \<rparr> obligingWorld
      (Some (''nightly'', [])) assignedCoordinator = Some ((200, ResultBody res), c') \<and> netIssue c' > netIssue assignedCoordinator"
proof -
  let ?a = "\<lparr> AssignJobID = ''nightly'', Primary = ''n'', Backups = [],
       AssignSpec = emptyJob\<lparr> SpecJobID := ''nightly'', Lane := JobLaneBackground \<rparr> \<rparr>"
  let ?m = "manifest (freshEntry sampleRegistration 0)"
  have g: "GetAssignment ''nightly'' (coAssign assignedCoordinator) = Some ?a"
    by (simp add: GetAssignment_def assignedCoordinator_def)
  have l: "ResolveForCycle ?a (wClock obligingWorld 0) (coReg assignedCoordinator) = Some (''n'', True)"
    by (simp add: ResolveForCycle_def IsLive_def isLive_def assignedCoordinator_def freshEntry_def obligingWorld_def livenessTTL_def)
  have m: "ManifestOf ''n'' (coReg assignedCoordinator) = Some ?m"
    by (simp add: ManifestOf_def assignedCoordinator_def)
  have tid: "TargetNodeID (TargetFromManifest ?m) \<noteq> ''n''"
    by (simp add: TargetFromManifest_def freshEntry_def sampleRegistration_def emptyManifest_def numeral_eq_Suc)
  have "IncrInFlight x (coReg assignedCoordinator) = coReg assignedCoordinator" "DecrInFlight x (coReg assignedCoordinator) = coReg assignedCoordinator"
    "observeResult x res k (coReg assignedCoordinator) = coReg assignedCoordinator" if "x \<noteq> ''n''" for x res k
    using that by (simp_all add: IncrInFlight_def DecrInFlight_def observeResult_def RecordObservedThroughput_def assignedCoordinator_def Let_def)
  note same = this[OF tid]
  have d: "DispatchToResolvedNode (wNet obligingWorld) (AssignSpec ?a) [] (TargetFromManifest ?m) (coReg assignedCoordinator) =
      (Inr (Some twentyTokens), coReg assignedCoordinator)"
    by (simp add: DispatchToResolvedNode_def deliverJob_def obligingWorld_def obligingNet_def dispatchToNode_def Let_def same)
  have t: "extractCompletionTokens (Some twentyTokens) 2048 = 20" by code_simp
  have s: "\<not> isSimulated ''n'' (coReg assignedCoordinator)" "\<forall>k. wSql obligingWorld k"
    by (simp_all add: isSimulated_def m freshEntry_def sampleRegistration_def emptyManifest_def obligingWorld_def)
  from background_execute_mints[OF g _ l m d t _ s(1) s(2) refl, of plainConfig "\<lparr> deTables = asciiText, deEncoder = (\<lambda>v. Some []), dePolls = suPolls deafSurroundings \<rparr>"]
  show ?thesis by (fastforce simp: emptyJob_def)
qed

end
