(* ===== verification/Monitor.thy ===== *)
theory Monitor
  imports UserHandlers
begin

text \<open>
  What the coordinator reports about itself: the metrics registry
  (\<open>internal/metrics/metrics.go\<close>) with its text exposition, and the read endpoints of
  \<open>cmd/coordinator/main.go\<close>: \<open>/metrics\<close>, \<open>/nodes\<close> and the frames of its stream, \<open>/health\<close>,
  \<open>/metrics/prometheus\<close>, the index, and the periodic reconciliation. The atomic counters are
  64-bit words. Orders of maps are arguments, as everywhere.
\<close>

section \<open>Metrics\<close>

record metrics =
  counters :: "string \<rightharpoonup> 64 word"
  gauges :: "string \<rightharpoonup> 64 word"

definition NewMetrics :: metrics where
  "NewMetrics = \<lparr> counters = Map.empty, gauges = Map.empty \<rparr>"

definition valueOf :: "('k \<rightharpoonup> 64 word) \<Rightarrow> 'k \<Rightarrow> 64 word" where
  "valueOf m name = (case m name of Some v \<Rightarrow> v | None \<Rightarrow> 0)"

definition AddCounter :: "string \<Rightarrow> 64 word \<Rightarrow> metrics \<Rightarrow> metrics" where
  "AddCounter name n mx = mx\<lparr> counters := (counters mx)(name \<mapsto> valueOf (counters mx) name + n) \<rparr>"

definition IncCounter :: "string \<Rightarrow> metrics \<Rightarrow> metrics" where
  "IncCounter name mx = AddCounter name 1 mx"

definition SetGauge :: "string \<Rightarrow> 64 word \<Rightarrow> metrics \<Rightarrow> metrics" where
  "SetGauge name n mx = mx\<lparr> gauges := (gauges mx)(name \<mapsto> n) \<rparr>"

definition AddGauge :: "string \<Rightarrow> 64 word \<Rightarrow> metrics \<Rightarrow> metrics" where
  "AddGauge name n mx = SetGauge name (valueOf (gauges mx) name + n) mx"

text \<open>
  The value printed for a name: both maps write into \<open>vals\<close>, the gauges last, so a gauge
  hides a counter of the same name; \<open>kc\<close> and \<open>kg\<close> are the orders of the two maps.
\<close>

definition exposedValue :: "metrics \<Rightarrow> string \<Rightarrow> 64 word" where
  "exposedValue mx name = (case gauges mx name of Some v \<Rightarrow> v | None \<Rightarrow> valueOf (counters mx) name)"

definition exposeLine :: "metrics \<Rightarrow> string \<Rightarrow> string" where
  "exposeLine mx name = name @ '' '' @ showInt (sint (exposedValue mx name)) @ [CHR 0x0A]"

definition Expose :: "string list \<Rightarrow> string list \<Rightarrow> metrics \<Rightarrow> string" where
  "Expose kc kg mx = concat (map (exposeLine mx) (sort (kc @ kg)))"

section \<open>Read endpoints\<close>

definition liveCount :: "NodeSnapshot list \<Rightarrow> int" where
  "liveCount snap = int (length (filter (\<lambda>n. SnapStatus n = StatusLive) snap))"

definition handleMetrics :: "world \<Rightarrow> coordinator \<Rightarrow> reply" where
  "handleMetrics w c =
     (let snap = Snapshot (wClock w 0) (wOrder w 0) (coReg c)
      in statusOk [''queue_depth'' \<mapsto> JNum (f_of_int (Depth (coQueue c))), ''queue_capacity'' \<mapsto> JNum (f_of_int (capacity (coQueue c))),
           ''backpressure_pct'' \<mapsto> JNum (BackpressurePct (coQueue c)),
           ''total_in_flight'' \<mapsto> JNum (f_of_int (TotalInFlight (wClock w 1) (wOrder w 1) (coReg c))),
           ''nodes_live'' \<mapsto> JNum (f_of_int (liveCount snap)), ''nodes_total'' \<mapsto> JNum (f_of_int (int (length snap)))])"

text \<open>
  The body of \<open>GET /nodes\<close> and of each frame of the stream; taking the snapshot of the
  participants evicts the expired ones. \<open>ds\<close> is the order of that map.
\<close>

definition nodesBody :: "world \<Rightarrow> string list \<Rightarrow> coordinator \<Rightarrow> content \<times> coordinator" where
  "nodesBody w ds c =
     (let (parts, cr) = SnapshotAt ds (wClock w 1) (coCoord c)
      in (NodesBody (Snapshot (wClock w 0) (wOrder w 0) (coReg c)) parts (Depth (coQueue c)) (capacity (coQueue c))
            (BackpressurePct (coQueue c)) (TotalInFlight (wClock w 2) (wOrder w 1) (coReg c)),
          c\<lparr> coCoord := cr \<rparr>))"

definition handleNodes :: "world \<Rightarrow> string list \<Rightarrow> coordinator \<Rightarrow> reply \<times> coordinator" where
  "handleNodes w ds c = (case nodesBody w ds c of (body, c) \<Rightarrow> ((200, body), c))"

text \<open>The stream: one frame per tick, with the surroundings of each.\<close>

fun handleNodesStream :: "(world \<times> string list) list \<Rightarrow> coordinator \<Rightarrow> content list \<times> coordinator" where
  "handleNodesStream [] c = ([], c)"
| "handleNodesStream ((w, ds) # ticks) c =
     (let (body, c) = nodesBody w ds c; (rest, c) = handleNodesStream ticks c in (body # rest, c))"

definition podDigest :: "config \<Rightarrow> world \<Rightarrow> coordinator \<Rightarrow> PodHealthDigest" where
  "podDigest cf w c = HealthDigest (cfPodID cf) (cfRegion cf) (cfPublicURL cf) (wClock w 0) (wOrder w 0) (coReg c)"

definition handleHealth :: "config \<Rightarrow> world \<Rightarrow> coordinator \<Rightarrow> reply" where
  "handleHealth cf w c = (200, DigestBody (podDigest cf w c))"

section \<open>Gauges\<close>

definition boolGauge :: "bool \<Rightarrow> 64 word" where "boolGauge b = (if b then 1 else 0)"

definition milli :: "f64 \<Rightarrow> 64 word" where "milli x = word_of_int (fint (fmul x 1000))"

definition ledgerGauges :: "ReconciliationReport \<Rightarrow> metrics \<Rightarrow> metrics" where
  "ledgerGauges rec mx = SetGauge ''oim_ledger_anomalies'' (of_nat (length (Anomalies rec)))
     (SetGauge ''oim_ledger_consistent'' (boolGauge (Consistent rec)) mx)"

text \<open>The scrape: sets the gauges, in the order of the code, and returns the text.\<close>

definition scrapeGauges :: "config \<Rightarrow> world \<Rightarrow> string list \<Rightarrow> user_id list \<Rightarrow> coordinator \<Rightarrow> metrics \<Rightarrow> metrics \<times> coordinator" where
  "scrapeGauges cf w ds us c mx =
     (let mx = SetGauge ''oim_nodes_registered'' (of_nat (length (Snapshot (wClock w 1) (wOrder w 1) (coReg c)))) mx;
          (n, cr) = Count ds (wClock w 2) (coCoord c);
          c = c\<lparr> coCoord := cr \<rparr>;
          mx = SetGauge ''oim_coordination_participants'' (of_nat n) mx;
          mx = SetGauge ''oim_queue_depth'' (word_of_int (Depth (coQueue c))) mx;
          digest = podDigest cf w c;
          mx = SetGauge ''oim_nodes_real'' (word_of_int (RealNodeCountApprox digest)) mx;
          mx = SetGauge ''oim_capacity_memory_gb_total_x1000'' (milli (TotalMemoryGB digest)) mx;
          mx = SetGauge ''oim_capacity_memory_gb_real_x1000'' (milli (RealTotalMemoryGB digest)) mx;
          mx = SetGauge ''oim_capacity_toks_per_sec_total_x1000'' (milli (AggregateToksPerSec digest)) mx;
          mx = SetGauge ''oim_capacity_toks_per_sec_real_x1000'' (milli (RealAggregateToksPerSec digest)) mx;
          rec = Reconcile us (fst (coBooks c));
          mx = ledgerGauges rec mx;
          mx = SetGauge ''oim_ledger_credits_total_x1000'' (milli (TotalCredits rec)) mx;
          mx = SetGauge ''oim_ledger_debits_total_x1000'' (milli (TotalDebits rec)) mx;
          mx = SetGauge ''oim_ledger_outstanding_x1000'' (milli (TotalOutstanding rec)) mx;
          mx = SetGauge ''oim_treasury_balance_x1000'' (milli (Total (GetBalance TreasuryAccount (fst (coBooks c))))) mx
      in (mx, c))"

definition handlePrometheus :: "config \<Rightarrow> world \<Rightarrow> string list \<Rightarrow> user_id list \<Rightarrow> (metrics \<Rightarrow> string list \<times> string list) \<Rightarrow>
    coordinator \<Rightarrow> metrics \<Rightarrow> string \<times> metrics \<times> coordinator" where
  "handlePrometheus cf w ds us orders c mx =
     (case scrapeGauges cf w ds us c mx of (mx, c) \<Rightarrow> (Expose (fst (orders mx)) (snd (orders mx)) mx, mx, c))"

text \<open>The check of \<open>runLedgerReconciliation\<close>: the gauges, and the anomalies it logs.\<close>

definition reconcileCheck :: "user_id list \<Rightarrow> Ledger \<Rightarrow> metrics \<Rightarrow> LedgerAnomaly list \<times> metrics" where
  "reconcileCheck us l mx =
     (let rec = Reconcile us l in (if Consistent rec then [] else Anomalies rec, ledgerGauges rec mx))"

section \<open>What a scrape shows\<close>

lemma SetGauge_same [simp]: "gauges (SetGauge n v mx) n = Some v"
  by (simp add: SetGauge_def)

lemma SetGauge_other [simp]: "n \<noteq> m \<Longrightarrow> gauges (SetGauge m v mx) n = gauges mx n"
  by (simp add: SetGauge_def)

lemma concat_sort_mem: "x \<in> set xs \<Longrightarrow> \<exists>a b. concat (map f (sort xs)) = a @ f x @ b"
proof -
  assume "x \<in> set xs"
  then obtain ys zs where "sort xs = ys @ x # zs" by (metis set_sort split_list)
  then show ?thesis by auto
qed

text \<open>
  The alarm of the ledger works: after every scrape the text has the line
  \<open>oim_ledger_consistent 1\<close> or \<open>0\<close> according to the audit of the books at that moment,
  whatever the metrics held before, and the scrape changes nothing of the coordinator but
  the expired participants it drops.
\<close>

lemma scrape_shows_ledger:
  assumes "handlePrometheus cf w ds us orders c mx = (text, mx', c')" and "''oim_ledger_consistent'' \<in> set (snd (orders mx'))"
  shows "containsStr text (''oim_ledger_consistent '' @ (if Consistent (Reconcile us (fst (coBooks c))) then ''1'' else ''0'') @ [CHR 0x0A])"
    and "c' = c\<lparr> coCoord := coCoord c' \<rparr>"
proof -
  obtain cr n where cnt: "Count ds (wClock w 2) (coCoord c) = (n, cr)" by fastforce
  have s: "scrapeGauges cf w ds us c mx = (mx', c')" and t: "text = Expose (fst (orders mx')) (snd (orders mx')) mx'"
    using assms(1) by (auto simp: handlePrometheus_def split: prod.splits)
  have c': "c' = c\<lparr> coCoord := cr \<rparr>" using s by (simp add: scrapeGauges_def cnt Let_def)
  then show "c' = c\<lparr> coCoord := coCoord c' \<rparr>" by simp
  have g: "gauges mx' ''oim_ledger_consistent'' = Some (boolGauge (Consistent (Reconcile us (fst (coBooks c)))))"
    using s by (auto simp: scrapeGauges_def cnt Let_def ledgerGauges_def)
  have "showInt (sint (1 :: 64 word)) = ''1''" "showInt (sint (0 :: 64 word)) = ''0''" by code_simp+
  then have line: "exposeLine mx' ''oim_ledger_consistent'' =
      ''oim_ledger_consistent '' @ (if Consistent (Reconcile us (fst (coBooks c))) then ''1'' else ''0'') @ [CHR 0x0A]"
    by (simp add: exposeLine_def exposedValue_def g boolGauge_def)
  have "''oim_ledger_consistent'' \<in> set (fst (orders mx') @ snd (orders mx'))" using assms(2) by simp
  from concat_sort_mem[OF this, of "exposeLine mx'"] show "containsStr text
      (''oim_ledger_consistent '' @ (if Consistent (Reconcile us (fst (coBooks c))) then ''1'' else ''0'') @ [CHR 0x0A])"
    unfolding t Expose_def line containsStr_iff by blast
qed

end
