(* ===== verification/Moves.thy ===== *)
theory Moves
  imports NodeHandlers UserHandlers Chat Background Monitor
begin

text \<open>
  The coordinator as a composition. What a handler may do to the four parts that carry
  invariants of their own is stated as runs of their machines: transitions of the registry,
  proper ledger operations whose notifications reach the credit callback, generated and
  revoked API keys, and a queue that stays within its bounds. Every handler of the program
  moves the coordinator in this way only.
\<close>

section \<open>Runs of the parts\<close>

definition reg_run :: "crypto \<Rightarrow> registry \<Rightarrow> registry \<Rightarrow> bool" where
  "reg_run C = (reg_step C)\<^sup>*\<^sup>*"

definition book_event :: "session_event \<Rightarrow> bool" where
  "book_event ev \<longleftrightarrow> ev \<noteq> Restart \<and> proper_event ev"

definition book_run :: "books \<Rightarrow> books \<Rightarrow> bool" where
  "book_run b b' \<longleftrightarrow>
     (\<exists>evs. list_all book_event evs \<and> fst b' = fold session_step evs (fst b)) \<and>
     onCredit (fst b') = onCredit (fst b) \<and>
     (\<exists>es. entries (fst b') = entries (fst b) @ es \<and> snd b' = snd b @ (if onCredit (fst b) then es else []))"

fun live_key_event :: "key_event \<Rightarrow> bool" where
  "live_key_event (KeyRestart rows) = False"
| "live_key_event ev = True"

definition key_moves :: "crypto \<Rightarrow> apiKeyStore \<Rightarrow> apiKeyStore \<Rightarrow> bool" where
  "key_moves C s s' \<longleftrightarrow> (\<exists>evs. list_all live_key_event evs \<and> s' = key_run C evs s)"

definition queue_bounded :: "JobQueue \<Rightarrow> bool" where
  "queue_bounded q \<longleftrightarrow> Depth q \<le> MaxQueueCapacity \<and> MinQueueCapacity \<le> capacity q \<and> capacity q \<le> MaxQueueCapacity"

definition moves :: "crypto \<Rightarrow> coordinator \<Rightarrow> coordinator \<Rightarrow> bool" where
  "moves C c c' \<longleftrightarrow> reg_run C (coReg c) (coReg c') \<and> book_run (coBooks c) (coBooks c') \<and>
     key_moves C (coKeys c) (coKeys c') \<and> (queue_bounded (coQueue c) \<longrightarrow> queue_bounded (coQueue c'))"

section \<open>Runs compose\<close>

lemma reg_run_refl [simp]: "reg_run C r r" by (simp add: reg_run_def)
lemma reg_run_step: "reg_step C r r' \<Longrightarrow> reg_run C r r'" by (simp add: reg_run_def)
lemma reg_run_trans: "reg_run C r r' \<Longrightarrow> reg_run C r' r'' \<Longrightarrow> reg_run C r r''" by (simp add: reg_run_def)

lemma book_run_refl [simp]: "book_run b b"
  unfolding book_run_def by (intro conjI exI[of _ "[]"]) auto

lemma book_run_trans:
  assumes "book_run a b" "book_run b c"
  shows "book_run a c"
proof -
  obtain e1 e2 where e: "list_all book_event e1" "fst b = fold session_step e1 (fst a)"
      "list_all book_event e2" "fst c = fold session_step e2 (fst b)"
    using assms by (auto simp: book_run_def)
  then have "list_all book_event (e1 @ e2) \<and> fst c = fold session_step (e1 @ e2) (fst a)" by simp
  moreover obtain n1 n2 where n: "entries (fst b) = entries (fst a) @ n1" "snd b = snd a @ (if onCredit (fst a) then n1 else [])"
      "entries (fst c) = entries (fst b) @ n2" "snd c = snd b @ (if onCredit (fst b) then n2 else [])"
    using assms by (auto simp: book_run_def)
  moreover have "onCredit (fst c) = onCredit (fst a)" "onCredit (fst b) = onCredit (fst a)"
    using assms by (auto simp: book_run_def)
  ultimately show ?thesis unfolding book_run_def by (intro conjI exI[of _ "e1 @ e2"] exI[of _ "n1 @ n2"]) auto
qed

lemma key_moves_refl [simp]: "key_moves C s s"
  unfolding key_moves_def by (intro exI[of _ "[]"]) (simp add: key_run_def)

lemma key_moves_trans: "key_moves C s s' \<Longrightarrow> key_moves C s' s'' \<Longrightarrow> key_moves C s s''"
  unfolding key_moves_def key_run_def by (metis fold_append comp_apply list_all_append)

lemma moves_refl [simp]: "moves C c c" by (simp add: moves_def)

lemma moves_trans: "moves C a b \<Longrightarrow> moves C b c \<Longrightarrow> moves C a c"
  unfolding moves_def using reg_run_trans book_run_trans key_moves_trans by blast

text \<open>A handler usually touches one of the parts, or none.\<close>

lemma moves_reg: "reg_run C (coReg c) (coReg c') \<Longrightarrow> coBooks c' = coBooks c \<Longrightarrow> coKeys c' = coKeys c \<Longrightarrow> coQueue c' = coQueue c \<Longrightarrow>
    moves C c c'"
  by (simp add: moves_def)

lemma moves_books: "book_run (coBooks c) (coBooks c') \<Longrightarrow> coReg c' = coReg c \<Longrightarrow> coKeys c' = coKeys c \<Longrightarrow> coQueue c' = coQueue c \<Longrightarrow>
    moves C c c'"
  by (simp add: moves_def)

lemma moves_keys: "key_moves C (coKeys c) (coKeys c') \<Longrightarrow> coReg c' = coReg c \<Longrightarrow> coBooks c' = coBooks c \<Longrightarrow> coQueue c' = coQueue c \<Longrightarrow>
    moves C c c'"
  by (simp add: moves_def)

lemma moves_none: "coReg c' = coReg c \<Longrightarrow> coBooks c' = coBooks c \<Longrightarrow> coKeys c' = coKeys c \<Longrightarrow> coQueue c' = coQueue c \<Longrightarrow>
    moves C c c'"
  by (simp add: moves_def)

section \<open>Registry\<close>

lemma reg_run_dispatched: "reg_run C r (DecrInFlight nid (IncrInFlight nid r))"
  by (rule reg_run_trans[OF reg_run_step[OF step_incr] reg_run_step[OF step_decr]])

lemma reg_run_lost: "reg_run C r (MarkUnreachable nid (DecrInFlight nid (IncrInFlight nid r)))"
  by (rule reg_run_trans[OF reg_run_dispatched reg_run_step[OF step_unreachable]])

lemma reg_run_observe: "reg_run C r (observeResult nid result d r)"
  by (simp add: observeResult_def Let_def reg_run_step[OF step_observed])

lemma reg_run_answered: "reg_run C r (observeResult nid result d (DecrInFlight nid (IncrInFlight nid r)))"
  by (rule reg_run_trans[OF reg_run_dispatched reg_run_observe])

lemma reg_run_resolved: "DispatchToResolvedNode T job messages target r = (out, r') \<Longrightarrow> reg_run C r r'"
  by (auto simp: DispatchToResolvedNode_def Let_def reg_run_lost reg_run_answered split: sum.splits)

lemma reg_run_warm: "WarmModel T nid model nano r = (out, r') \<Longrightarrow> reg_run C r r'"
  by (auto simp: WarmModel_def reg_run_resolved split: option.splits if_splits)

lemma reg_run_tryNodes: "tryNodes T job messages maxA k ns r = (res, r', tried) \<Longrightarrow> reg_run C r r'"
proof (induction T job messages maxA k ns r arbitrary: res r' tried rule: tryNodes.induct)
  case (2 T job messages maxA k n ns r)
  let ?id = "NodeID (Manifest n)"
  let ?r2 = "DecrInFlight ?id (IncrInFlight ?id r)"
  show ?case
  proof (cases "int k \<ge> maxA")
    case False
    let ?out = "deliverJob T k ?id (PullDelivery (Manifest n)) (TargetFromManifest (Manifest n)) job messages"
    show ?thesis
    proof (cases ?out)
      case (Inl err)
      obtain res3 r3 tr where rec: "tryNodes T job messages maxA (k + 1) ns (MarkUnreachable ?id ?r2) = (res3, r3, tr)"
        by (metis prod_cases3)
      have "reg_run C (MarkUnreachable ?id ?r2) r3" using "2.IH"[OF False refl refl refl refl refl Inl rec] .
      moreover have "r' = r3" using "2.prems" False Inl rec by (simp add: Let_def)
      ultimately show ?thesis using reg_run_trans[OF reg_run_lost] by blast
    next
      case (Inr result)
      then show ?thesis using "2.prems" False reg_run_dispatched reg_run_answered
        by (cases result) (auto simp: Let_def)
    qed
  qed (use "2.prems" in simp)
qed simp

lemma reg_run_fast: "DispatchFastLane T d1 d2 job messages maxA now ks r = (out, r', tried) \<Longrightarrow> reg_run C r r'"
  by (auto simp: DispatchFastLane_def Let_def dest: reg_run_tryNodes)

lemma reg_run_tryStreaming: "tryStreaming stream el job maxA k ns r = (res, r', tried) \<Longrightarrow> reg_run C r r'"
proof (induction stream el job maxA k ns r arbitrary: res r' tried rule: tryStreaming.induct)
  case (2 stream el job maxA k n ns r)
  let ?id = "NodeID (Manifest n)"
  let ?r2 = "DecrInFlight ?id (IncrInFlight ?id r)"
  have d: "reg_run C r ?r2" by (rule reg_run_dispatched)
  show ?case
  proof (cases "int k < maxA \<and> streamErr (stream k n) \<and> \<not> started (stream k n)")
    case True
    obtain res3 r3 tr where rec: "tryStreaming stream el job maxA (k + 1) ns (MarkUnreachable ?id ?r2) = (res3, r3, tr)"
      by (metis prod_cases3)
    have "reg_run C (MarkUnreachable ?id ?r2) r3"
      by (rule "2.IH"[OF _ refl refl refl refl _ _ rec]) (use True in auto)
    moreover have "r' = r3" using "2.prems" True rec by (simp add: Let_def)
    ultimately show ?thesis using reg_run_trans[OF reg_run_lost] by blast
  next
    case False
    then show ?thesis using "2.prems" d reg_run_trans[OF d reg_run_step[OF step_observed]]
      by (auto simp: Let_def split: if_splits)
  qed
qed simp

lemma reg_run_streaming:
  "DispatchFastLaneStreaming stream el d1 d2 job messages maxA now ks r = (out, r', tried) \<Longrightarrow> reg_run C r r'"
  by (auto simp: DispatchFastLaneStreaming_def Let_def dest: reg_run_tryStreaming)

lemma reg_run_processJob:
  assumes "processJob rounds maxA qj k r = Some y"
  shows "reg_run C r (snd y)"
proof (rule processJob.raw_induct[where P = "\<lambda>rounds maxA qj k r y. reg_run C r (snd y)", OF _ assms])
  fix pj rounds maxA qj k r y
  assume ih: "\<And>rounds maxA qj k r y. pj rounds maxA qj k r = Some y \<Longrightarrow> reg_run C r (snd y)"
    and step: "(if roundNow (rounds k) > qDeadline qj then Some (Inl (DeadlineExceeded (SpecJobID (qJob qj))), r)
      else if callerGone (rounds k) then Some (Inl CallerGone, r)
      else case DispatchFastLane (roundTransport (rounds k)) (draw1 (rounds k)) (draw2 (rounds k)) (qJob qj)
             (qMessages qj) maxA (roundNow (rounds k)) (roundOrder (rounds k)) r of
          (Inr result, r', _) \<Rightarrow> Some (Inr result, r')
        | (Inl err, r', _) \<Rightarrow>
            (case roundWake (rounds k) of
               WakeShutdown \<Rightarrow> Some (Inl ShuttingDown, r')
             | WakeCallerGone \<Rightarrow> Some (Inl CallerGone, r')
             | WakeRetry \<Rightarrow> pj rounds maxA qj (Suc k) r')) = Some y"
  show "reg_run C r (snd y)"
    using step by (auto split: if_splits prod.splits sum.splits wake.splits dest: reg_run_fast ih intro: reg_run_trans)
qed

lemma reg_run_single: "singleNode S n job messages maxA sent r = (out, r', sent') \<Longrightarrow> reg_run C r r'"
  by (auto simp: singleNode_def split: prod.splits dest: reg_run_fast)

lemma reg_run_decomposed:
  assumes "RouteWithDecomposition C' enc U S job messages model maxA r = Some (out, r', sent)"
  shows "reg_run C r r'"
proof -
  have "r' = r \<or> (\<exists>n sent0. singleNode S n job messages maxA sent0 r = (out, r', sent))"
    using assms unfolding RouteWithDecomposition_def Let_def
    by (auto split: if_splits) (auto split: sum.splits if_splits prod.splits, metis (no_types) sum.exhaust surj_pair)
  then show ?thesis using reg_run_single by auto
qed

section \<open>Books\<close>

lemma book_run_credit:
  assumes "CreditAccount ok e l = (err, l', ns)" "is_f64 (Amount e)" "0 \<le> Amount e" "Origin e \<noteq> CreditOriginStartupGrant"
  shows "book_run (l, notes) (l', notes @ ns)"
proof -
  have "mem.proper (OpCredit ok e)" using assms by (simp add: mem.proper.simps)
  moreover have "l' = session_step (Ev (OpCredit ok e)) l"
    using assms(1) by (simp add: session_step_def mem.run_op_def memCredit_def)
  moreover have "onCredit l' = onCredit l \<and> (\<exists>es. entries l' = entries l @ es \<and> ns = (if onCredit l then es else []))"
    using assms(1) by (auto simp: CreditAccount_def notifyCredit_def creditLocked_Inr split: sum.splits)
  ultimately show ?thesis unfolding book_run_def
    by (intro conjI exI[of _ "[Ev (OpCredit ok e)]"]) (auto simp: book_event_def)
qed

lemma book_run_claim:
  assumes "ClaimStartupGrantOnce ok e l = (res, l', ns)" "is_f64 (Amount e)" "0 \<le> Amount e" "Origin e = CreditOriginStartupGrant"
  shows "book_run (l, notes) (l', notes @ ns)"
proof -
  have "mem.proper (OpClaim ok e)" using assms by (simp add: mem.proper.simps)
  moreover have "l' = session_step (Ev (OpClaim ok e)) l"
    using assms(1) by (cases res) (simp add: session_step_def mem.run_op_def memClaim_def)
  moreover have "onCredit l' = onCredit l \<and> (\<exists>es. entries l' = entries l @ es \<and> ns = (if onCredit l then es else []))"
    using assms(1) by (auto simp: ClaimStartupGrantOnce_def notifyCredit_def creditLocked_Inr split: sum.splits if_splits)
  ultimately show ?thesis unfolding book_run_def
    by (intro conjI exI[of _ "[Ev (OpClaim ok e)]"]) (auto simp: book_event_def)
qed

lemma book_run_debit:
  assumes "DebitAccount ok u a j t l = (paid, l')" "is_f64 a" "0 \<le> a"
  shows "book_run (l, notes) (l', notes)"
proof -
  have "mem.proper (OpDebit ok u a j t)" using assms by (simp add: mem.proper.simps)
  moreover have "l' = session_step (Ev (OpDebit ok u a j t)) l"
    using assms(1) by (simp add: session_step_def mem.run_op_def)
  moreover have "onCredit l' = onCredit l \<and> entries l' = entries l"
    using assms(1) by (auto simp: DebitAccount_def Let_def split: prod.splits option.splits if_splits)
  ultimately show ?thesis unfolding book_run_def
    by (intro conjI exI[of _ "[Ev (OpDebit ok u a j t)]"]) (auto simp: book_event_def)
qed

lemma book_run_admin:
  assumes "RecordAdminAction ok action detail amount t l = (err, l')"
  shows "book_run (l, notes) (l', notes)"
proof -
  have "l' = session_step (EvAdmin ok action detail amount t) l" using assms by (simp add: session_step_def)
  moreover have "onCredit l' = onCredit l" using assms by (auto simp: RecordAdminAction_def Let_def split: option.splits if_splits)
  ultimately show ?thesis unfolding book_run_def using RecordAdminAction_fields(1)[OF assms]
    by (intro conjI exI[of _ "[EvAdmin ok action detail amount t]"]) (auto simp: book_event_def)
qed

lemma book_run_post:
  assumes "is_f64 a" "0 \<le> a"
  shows "book_run b (postCredit ok (earnedEntry u a now ref) b)"
proof (cases b)
  case (Pair l sent)
  obtain err l' ns where c: "CreditAccount ok (earnedEntry u a now ref) l = (err, l', ns)" by (metis prod_cases3)
  show ?thesis using book_run_credit[OF c] assms
    by (simp add: Pair postCredit_def c) (simp add: earnedEntry_def)
qed

lemma book_run_earning:
  assumes "is_f64 charge"
  shows "book_run b (creditNodeEarning sql now w us r nid job lane sens t charge b)"
proof -
  let ?reward = "ProviderReward lane sens t"
  let ?margin = "(if fsub charge ?reward < 0 then 0 else fsub charge ?reward)"
  have m: "is_f64 ?margin" "0 \<le> ?margin" by auto
  have "book_run b (postCredit ok (earnedEntry u ?reward now job) b)" for ok u by (intro book_run_post) auto
  then show ?thesis using book_run_trans[OF _ book_run_post[OF m]]
    by (auto simp: creditNodeEarning_def Let_def simp del: if_split_asm)
qed

section \<open>Keys and queue\<close>

lemma key_moves_generate: "generateKey C raw ok u s = (res, s') \<Longrightarrow> key_moves C s s'"
  unfolding key_moves_def by (intro exI[of _ "[KeyGenerate u raw ok]"]) (simp add: key_run_def)

lemma key_moves_revoke: "key_moves C s (revokeKey ok u s)"
  unfolding key_moves_def by (intro exI[of _ "[KeyRevoke u ok]"]) (simp add: key_run_def)

lemma queue_bounded_enqueue: "EnqueueJob job msgs d now q = (e, q') \<Longrightarrow> queue_bounded q \<Longrightarrow> queue_bounded q'"
  by (auto simp: EnqueueJob_def trySend_def queue_bounded_def Depth_def split: if_splits)

lemma queue_bounded_take: "queue_bounded q \<Longrightarrow> queue_bounded (takeJobs n q)"
proof (induction n q rule: takeJobs.induct)
  case (2 n q)
  then show ?case by (cases "ch q") (auto simp: takeJob_def queue_bounded_def Depth_def)
qed simp

section \<open>The handlers of nodes\<close>

lemma handleRegister_moves: "moves (cfCrypto cf) c (snd (handleRegister cf w body c))"
  by (rule moves_reg)
    (auto simp: handleRegister_def Let_def split: option.splits prod.splits sum.splits
      dest!: step_register intro: reg_run_step)

lemma handleRefresh_moves: "moves (cfCrypto cf) c (snd (handleRefresh cf w nid body c))"
  by (rule moves_reg)
    (auto simp: handleRefresh_def signedBy_def split: option.splits intro!: reg_run_step step_refresh)

lemma handleWarmModel_moves: "moves (cfCrypto cf) c (snd (handleWarmModel cf w nid body c))"
  by (rule moves_reg) (auto simp: handleWarmModel_def split: option.splits prod.splits sum.splits dest: reg_run_warm)

lemma handleClaim_moves: "moves (cfCrypto cf) c (snd (handleClaim cf w body c))"
  by (rule moves_reg)
    (auto simp: handleClaim_def Let_def split: option.splits prod.splits intro!: reg_run_step step_seen)

lemma handleResult_moves: "moves (cfCrypto cf) c (snd (handleResult cf w body c))"
  by (rule moves_none) (auto simp: handleResult_def Let_def split: option.splits prod.splits)

lemma handleAttest_moves: "moves (cfCrypto cf) c (snd (handleAttest cf w nid body c))"
proof (rule moves_reg)
  show "reg_run (cfCrypto cf) (coReg c) (coReg (snd (handleAttest cf w nid body c)))"
  proof (cases body)
    case (Some req)
    let ?req = "req\<lparr> AttNodeID := nid \<rparr>"
    show ?thesis
      using step_attest[of "cfCrypto cf" "coReg c" ?req "wClock w 0"]
      by (auto simp: handleAttest_def Some Let_def split: option.splits intro!: reg_run_step)
  qed (simp add: handleAttest_def)
qed (auto simp: handleAttest_def Let_def split: option.splits)

lemma handleDeregister_moves: "moves C c (snd (handleDeregister nid c))"
  by (rule moves_reg) (auto simp: handleDeregister_def intro!: reg_run_step step_unreachable)

lemma handleBenchmark_moves: "moves (cfCrypto cf) c (snd (handleBenchmark cf w nid body c))"
  by (rule moves_none) (auto simp: handleBenchmark_def split: option.splits)

lemma handleOutcome_moves: "moves (cfCrypto cf) c (snd (handleOutcome cf w nid body c))"
  by (rule moves_none) (auto simp: handleOutcome_def split: option.splits)

lemma handleSettlementRecord_moves: "moves C c (snd (handleSettlementRecord body c))"
  by (rule moves_none) (auto simp: handleSettlementRecord_def split: option.splits)

lemma handleAnnounce_moves: "moves C c (snd (handleAnnounce cf w body c))"
  by (rule moves_none) (auto simp: handleAnnounce_def Let_def split: option.splits)

lemma handleWithdraw_moves: "moves C c (snd (handleWithdraw body c))"
  by (rule moves_none) (auto simp: handleWithdraw_def split: option.splits)

section \<open>The handlers of users and administrators\<close>

lemma controls_fields:
  "coReg (snd (controls cf w r u c)) = coReg c \<and> coBooks (snd (controls cf w r u c)) = coBooks c \<and>
    coKeys (snd (controls cf w r u c)) = coKeys c \<and> coQueue (snd (controls cf w r u c)) = coQueue c"
  by (simp add: controls_def split: prod.split option.split)

lemma isAdmin_fields:
  "coReg (snd (isAdmin cf w r c)) = coReg c \<and> coBooks (snd (isAdmin cf w r c)) = coBooks c \<and>
    coKeys (snd (isAdmin cf w r c)) = coKeys c \<and> coQueue (snd (isAdmin cf w r c)) = coQueue c"
  by (simp add: isAdmin_def split: prod.split option.split)

lemma grant_amount_ok: "0 \<le> CurrentGrantMultiplier s DEFAULT_DECAY_STEPS"
  by (simp add: CurrentGrantMultiplier_def DEFAULT_DECAY_STEPS_def)

lemma book_run_grant:
  assumes "IssueStartupGrant ok u pod cap DEFAULT_DECAY_STEPS now l = (res, l', ns)"
  shows "book_run (l, notes) (l', notes @ ns)"
proof (cases "u = []")
  case False
  define e where "e = \<lparr> UserID = u, Origin = CreditOriginStartupGrant,
    Amount = fmul BASE_GRANT_AMOUNT (CurrentGrantMultiplier (cap pod) DEFAULT_DECAY_STEPS), GrantedOrEarnedAt = now,
    SourceReference = ''startup_grant:'' @ pod \<rparr>"
  obtain res' l2 ns2 where r: "ClaimStartupGrantOnce ok e l = (res', l2, ns2)" by (metis prod_cases3)
  then have "l' = l2 \<and> ns = ns2"
    using assms False by (auto simp: IssueStartupGrant_def Let_def e_def split: prod.splits option.splits if_splits)
  moreover have "is_f64 (Amount e)" "0 \<le> Amount e" "Origin e = CreditOriginStartupGrant"
    using grant_amount_ok[of "cap pod"] by (auto simp: e_def BASE_GRANT_AMOUNT_def intro!: fl_nonneg)
  ultimately show ?thesis using book_run_claim[OF r] by simp
qed (use assms in \<open>simp add: IssueStartupGrant_def\<close>)

lemma handleStartupGrant_moves: "moves C c (snd (handleStartupGrant cf w r u body c))"
  by (rule moves_books)
    (auto simp: handleStartupGrant_def Let_def split: prod.splits option.splits sum.splits grant_error.splits dest: book_run_grant)

lemma handleMintKey_moves: "moves (cfCrypto cf) c (snd (handleMintKey cf w r u c))"
proof -
  define d where "d = (if keyExists u (coKeys c) then controls cf w r u c else (True, c))"
  have f: "coReg (snd d) = coReg c" "coBooks (snd d) = coBooks c" "coKeys (snd d) = coKeys c" "coQueue (snd d) = coQueue c"
    using controls_fields by (simp_all add: d_def)
  show ?thesis using f unfolding handleMintKey_def d_def[symmetric]
    by (intro moves_keys) (auto split: prod.splits sum.splits dest: key_moves_generate)
qed

lemma handleRevokeKey_moves: "moves (cfCrypto cf) c (snd (handleRevokeKey cf w r u c))"
  using controls_fields[of cf w r u c] unfolding handleRevokeKey_def
  by (intro moves_keys) (auto split: prod.splits intro: key_moves_revoke)

lemma handleChallenge_moves: "moves C c (snd (handleChallenge w body c))"
  by (rule moves_none) (auto simp: handleChallenge_def split: prod.splits sum.splits)

lemma handleAccountAuth_moves: "moves (cfCrypto cf) c (snd (handleAccountAuth cf w body c))"
  by (rule moves_keys)
    (auto simp: handleAccountAuth_def Let_def split: option.splits prod.splits sum.splits dest: key_moves_generate)

lemma handleLinkDevice_moves: "moves C c (snd (handleLinkDevice cf a body c))"
  by (rule moves_none) (auto simp: handleLinkDevice_def split: option.splits prod.splits)

lemma handleUnlinkDevice_moves: "moves C c (snd (handleUnlinkDevice cf a body c))"
  by (rule moves_none) (auto simp: handleUnlinkDevice_def split: option.splits prod.splits)

lemma handleAdminReads_moves:
  "moves C c (snd (handleReconcile cf w r c))" "moves C c (snd (handleTreasury cf w r c))"
  "moves C c (snd (handleAuditLog cf w r limit c))"
  using isAdmin_fields[of cf w r c]
  by (auto simp: handleReconcile_def handleTreasury_def handleAuditLog_def split: prod.splits intro!: moves_none)

lemma handleAdminChallenge_moves: "moves C c (snd (handleAdminChallenge cf w c))"
  by (rule moves_none) (auto simp: handleAdminChallenge_def split: prod.splits sum.splits)

lemma handleAdminAuthenticate_moves: "moves C c (snd (handleAdminAuthenticate cf w body c))"
  by (rule moves_none) (auto simp: handleAdminAuthenticate_def split: option.splits prod.splits sum.splits)

lemma handleTreasuryCredit_moves:
  assumes "\<And>amount reason. body = Some (amount, reason) \<Longrightarrow> is_f64 amount"
  shows "moves C c (snd (handleTreasuryCredit w body c))"
proof (rule moves_books)
  show "book_run (coBooks c) (coBooks (snd (handleTreasuryCredit w body c)))"
  proof (cases body)
    case (Some b)
    obtain amount reason where b: "b = (amount, reason)" by (cases b)
    obtain l sent where cb: "coBooks c = (l, sent)" by (cases "coBooks c")
    obtain err l1 ns where cr: "CreditAccount (wSql w 0) (adjustment amount (wClock w 1)) l = (err, l1, ns)" by (metis prod_cases3)
    obtain e2 l2 where ra: "RecordAdminAction (wSql w 1) ''treasury_credit'' reason amount (wClock w 1) l1 = (e2, l2)"
      by (metis surj_pair)
    have "book_run (l, sent) (l2, sent @ ns)" if "0 < amount"
      using book_run_trans[OF book_run_credit[OF cr] book_run_admin[OF ra]] assms[of amount reason] that Some b
      by (simp add: adjustment_def)
    then show ?thesis
      by (auto simp: handleTreasuryCredit_def Some b cb Let_def cr ra simp del: One_nat_def split: prod.splits option.splits)
  qed (simp add: handleTreasuryCredit_def)
qed (auto simp: handleTreasuryCredit_def Let_def split: option.splits prod.splits)

section \<open>The handlers of work\<close>

lemma handleReserve_moves: "moves C c (snd (handleReserve cf w body c))"
  by (rule moves_none) (auto simp: handleReserve_def Let_def split: option.splits prod.splits)

lemma moves_pointer: "moves C c (creditPointerHost sql now host job c)"
proof (rule moves_books)
  have r: "is_f64 (CoordinationReward 1)" "0 \<le> CoordinationReward 1" by auto
  show "book_run (coBooks c) (coBooks (creditPointerHost sql now host job c))"
  proof (cases "host = [] \<or> \<not> fst (RecordPointerServed host (coCoord c)) \<or> AccountForDevice host (coWallet c) = None")
    case True
    then show ?thesis by (auto simp: creditPointerHost_def Let_def split: prod.splits)
  next
    case False
    then obtain acct where a: "AccountForDevice host (coWallet c) = Some acct" by auto
    obtain l sent where p: "postCredit (sql 0) (earnedEntry acct (CoordinationReward 1) now (job @ ''-coord'')) (coBooks c) = (l, sent)"
      by (metis surj_pair)
    obtain paid l2 where d: "DebitAccount (sql 1) TreasuryAccount (CoordinationReward 1) (job @ ''-coord'') now l = (paid, l2)"
      by (metis surj_pair)
    have b: "book_run (coBooks c) (l, sent)" using book_run_post[OF r, of "coBooks c"] p by metis
    then show ?thesis using False a p d book_run_trans[OF b book_run_debit[OF d r]]
      by (auto simp: creditPointerHost_def Let_def split: prod.splits)
  qed
qed (auto simp: creditPointerHost_def Let_def split: prod.splits option.splits)

lemma moves_served:
  assumes "is_f64 cost"
  shows "moves C c (creditServed sql now n job sens t cost c)"
  using assms by (auto simp: creditServed_def moves_def intro!: book_run_earning reg_run_step[OF step_served])

lemma moves_debit:
  assumes "is_f64 cost" "0 \<le> cost"
  shows "moves C c (snd (debitCaller ok now u cost job c))"
proof -
  obtain paid l where d: "DebitAccount ok u cost job now (fst (coBooks c)) = (paid, l)" by (metis surj_pair)
  show ?thesis using book_run_debit[OF d assms, of "snd (coBooks c)"] by (simp add: debitCaller_def d moves_def)
qed

lemma discounted_nonneg: "0 \<le> ConsumerCostWithActivityDiscount lane sens t bp"
  using order_trans[OF ProviderReward_nonneg discounted_ge_reward] .

lemma moves_settleBuffered: "moves C c (snd (settleBuffered sql now u job sens m result c))"
  using moves_trans[OF moves_served moves_debit]
  by (auto simp: settleBuffered_def Let_def discounted_nonneg intro: moves_served)

lemma moves_settleStreaming: "moves C c (snd (settleStreaming sql now u job sens n t c))"
  using moves_trans[OF moves_served moves_debit]
  by (auto simp: settleStreaming_def Let_def discounted_nonneg intro: moves_served)

lemma chatDispatch_moves:
  assumes "chatDispatch cf w job req c = (out, c')"
  shows "moves C c c'"
  using assms by (auto simp: chatDispatch_def moves_def split: if_splits option.splits prod.splits
      dest: reg_run_resolved reg_run_fast)

lemma chatEnqueue_moves:
  assumes "chatEnqueue cf w job req c = Some (out, c')"
  shows "moves C c c'"
proof -
  obtain e q where e: "EnqueueJob job (crMessages req) DefaultQueueTimeout (wClock w 3) (coQueue c) = (e, q)" by (metis surj_pair)
  have "reg_run C r (snd y)" if "awaitQueued cf w qj r = Some y" for qj r y
    using that reg_run_processJob by (auto simp: awaitQueued_def split: if_splits)
  then show ?thesis using assms queue_bounded_enqueue[OF e] queue_bounded_take
    by (auto simp: chatEnqueue_def e moves_def split: option.splits)
qed

lemma chatFinish_moves: "moves C c (snd (chatFinish w u job req result c))"
  by (simp add: chatFinish_def moves_settleBuffered)

lemma chatBuffered_moves:
  assumes "chatBuffered cf w r u job req c = Some (rep, c')"
  shows "moves C c c'"
proof -
  obtain out c1 where d: "chatDispatch cf w (chatJob u job req) req c = (out, c1)" by (metis surj_pair)
  have m: "moves C c c1" by (rule chatDispatch_moves[OF d])
  have f: "moves C x (snd (chatFinish w u job req result x))" for x result by (rule chatFinish_moves)
  show ?thesis
    using assms m moves_trans[OF m f] moves_trans[OF m chatEnqueue_moves] moves_trans[OF moves_trans[OF m chatEnqueue_moves] f]
    by (auto simp: chatBuffered_def d Let_def split: sum.splits if_splits option.splits) (metis snd_conv)+
qed

lemma chatStreamed_moves: "moves C c (snd (chatStreamed cf w u job req c))"
proof -
  obtain res rg tried where d: "DispatchFastLaneStreaming (wStream w) (elapsedNs (wNet w)) (wDraw1 w) (wDraw2 w) (chatJob u job req)
      (crMessages req) (cfMaxAttempts cf) (wClock w 2) (wOrder w 0) (coReg c) = (res, rg, tried)" by (metis prod_cases3)
  have m: "moves C c (c\<lparr> coReg := rg \<rparr>)" by (rule moves_reg) (simp_all add: reg_run_streaming[OF d])
  then show ?thesis using moves_trans[OF m moves_settleStreaming]
    by (auto simp: chatStreamed_def d Let_def split: option.splits)
qed

lemma handleChat_moves:
  assumes "handleChat cf w r body c = Some (rep, c')"
  shows "moves C c c'"
  using assms moves_trans[OF moves_pointer chatBuffered_moves] chatBuffered_moves chatStreamed_moves
    moves_trans[OF moves_pointer chatStreamed_moves]
  by (auto simp: handleChat_def Let_def split: option.splits if_splits) (metis snd_conv)+

lemma handleAssign_moves: "moves C c (snd (handleAssign w body c))"
  by (rule moves_none) (auto simp: handleAssign_def split: option.splits assign_result.splits)

lemma moves_cycle: "moves C c (creditCycle w nid job spec result c)"
  by (auto simp: creditCycle_def Let_def moves_def intro!: book_run_earning reg_run_step[OF step_served])

lemma executeSingle_moves: "moves C c (snd (executeSingle w job messages a c))"
proof -
  have "moves C c (c\<lparr> coReg := r \<rparr>)" if "DispatchToResolvedNode T spec messages t (coReg c) = (out, r)" for T spec t out r
    by (rule moves_reg) (simp_all add: reg_run_resolved[OF that])
  moreover from this have "moves C c (creditCycle w nid job spec' result (c\<lparr> coReg := r \<rparr>))"
    if "DispatchToResolvedNode T spec messages t (coReg c) = (out, r)" for T spec t out r nid spec' result
    using moves_trans[OF _ moves_cycle] that by blast
  ultimately show ?thesis unfolding executeSingle_def by (auto split: option.split prod.split sum.split)
qed

lemma handleExecute_moves:
  assumes "handleExecute cf E w body c = Some (rep, c')"
  shows "moves C c c'"
proof -
  have "moves C c (c\<lparr> coReg := r \<rparr>)"
    if "RouteWithDecomposition C' enc U S spec messages model n (coReg c) = Some (out, r, sent)" for C' enc U S spec messages model n out r sent
    by (rule moves_reg) (simp_all add: reg_run_decomposed[OF that])
  moreover have "moves C c d" if "executeSingle w job messages a c = (x, d)" for job messages a x d
    using executeSingle_moves[of C c w job messages a] that by simp
  ultimately show ?thesis using assms
    by (auto simp: handleExecute_def split: option.splits if_splits sum.splits) (metis (no_types) sum.exhaust surj_pair)+
qed

section \<open>Monitoring and probes\<close>

lemma handleNodes_moves: "moves C c (snd (handleNodes w ds c))"
  by (rule moves_none) (auto simp: handleNodes_def nodesBody_def Let_def split: prod.splits)

lemma nodesBody_moves: "moves C c (snd (nodesBody w ds c))"
  by (rule moves_none) (auto simp: nodesBody_def Let_def split: prod.splits)

lemma handleNodesStream_moves: "moves C c (snd (handleNodesStream ticks c))"
proof (induction ticks c rule: handleNodesStream.induct)
  case (2 w ds ticks c)
  obtain body c1 where b: "nodesBody w ds c = (body, c1)" by (metis surj_pair)
  then have "moves C c c1" using nodesBody_moves[of C c w ds] by simp
  then show ?case using 2[OF b[symmetric] refl] b moves_trans by (auto split: prod.splits)
qed simp

lemma scrapeGauges_moves: "moves C c (snd (scrapeGauges cf w ds us c mx))"
  by (rule moves_none) (simp_all add: scrapeGauges_def Let_def split: prod.split)

lemma moves_availability:
  assumes "creditAvailabilityReward ok now w us nid job t b = (credited, b')"
  shows "book_run b b'"
  using assms book_run_post[of "ProviderReward LaneBackground SensitivityLow t" b]
  by (auto simp: creditAvailabilityReward_def Let_def split: if_splits)

lemma probeOneNode_moves: "moves C c (probeOneNode E m model c)"
proof -
  obtain job messages where j: "BuildProbeJob (''availability-probe-'' @ NodeID m @ ''-'' @ decimal (prNano E)) (CapModelID model)
      (Quantization model) = (job, messages)" by (metis surj_pair)
  obtain out r where d: "DispatchToResolvedNode (prNet E) job messages (TargetFromManifest m) (coReg c) = (out, r)" by (metis surj_pair)
  have r: "reg_run C (coReg c) r" "reg_run C (coReg c) (MarkJobServed nid t r)" for nid t
    using reg_run_resolved[OF d] reg_run_trans[OF reg_run_resolved[OF d] reg_run_step[OF step_served]] by auto
  show ?thesis unfolding probeOneNode_def Let_def j prod.case d
    by (cases out) (auto simp: moves_def r moves_availability split: prod.split)
qed

lemma probeLoop_moves: "moves C c (probeLoop envs k ms c)"
  by (induction envs k ms c rule: probeLoop.induct)
    (auto intro: moves_trans[OF probeOneNode_moves] split: option.splits)

lemma probeIdleNodes_moves: "moves C c (probeIdleNodes envs d now ks c)"
  by (simp add: probeIdleNodes_def Let_def probeLoop_moves)

end
