(* ===== verification/Server.thy ===== *)
theory Server
  imports Moves
begin

text \<open>
  The coordinator's HTTP server: the routing table of \<open>cmd/coordinator/main.go\<close>, the chain
  of middleware in front of it, the handlers behind it, and the federation store that the
  credit callback writes to. A path is given as its segments, after unescaping; the path the
  middleware tests is the text they spell. Requests are handled one at a time.
\<close>

section \<open>Routes\<close>

datatype route = RRegister | RRefresh string | RWarmModel string | RClaim | RResult | RAttest string | RDeregister string
  | RReserve | RChat | RAssign | RCycle | RExecute | RBenchmark string | ROutcome string | RVerifyTier string
  | RSettlementRecord | RStartupGrant string | RBalance string | RMintKey string | RKeyExists string | RRevokeKey string
  | RMetrics | RNodes | RAnnounce | RWithdraw | RChallenge | RAuth | RLink string | RUnlink string | RStream | RHealth
  | RIdentity | RLedgerEvents | RAudit string | RPrometheus | RReconcile | RAdminChallenge | RAdminAuthenticate
  | RTreasury | RTreasuryCredit | RAuditLog | RDeployments | RIndex

text \<open>
  The patterns by method. A wildcard takes one segment that is not empty; \<open>GET /\<close> takes every
  path that no other pattern of its method takes.
\<close>

definition postRoute :: "string list \<Rightarrow> route option" where
  "postRoute segs = (case segs of
       [a, b] \<Rightarrow>
         if a = ''nodes'' \<and> b = ''register'' then Some RRegister
         else if a = ''jobs'' \<and> b = ''claim'' then Some RClaim
         else if a = ''jobs'' \<and> b = ''result'' then Some RResult
         else if a = ''v1'' \<and> b = ''reserve-node'' then Some RReserve
         else if a = ''settlement'' \<and> b = ''records'' then Some RSettlementRecord
         else if a = ''coordination'' \<and> b = ''announce'' then Some RAnnounce
         else if a = ''coordination'' \<and> b = ''withdraw'' then Some RWithdraw
         else if a = ''account'' \<and> b = ''challenge'' then Some RChallenge
         else if a = ''account'' \<and> b = ''auth'' then Some RAuth
         else if a = ''admin'' \<and> b = ''challenge'' then Some RAdminChallenge
         else if a = ''admin'' \<and> b = ''authenticate'' then Some RAdminAuthenticate
         else None
     | [a, x, b] \<Rightarrow>
         if a = ''v1'' \<and> x = ''chat'' \<and> b = ''completions'' then Some RChat
         else if a = ''jobs'' \<and> x = ''background'' \<and> b = ''assign'' then Some RAssign
         else if a = ''jobs'' \<and> x = ''background'' \<and> b = ''cycle'' then Some RCycle
         else if a = ''jobs'' \<and> x = ''background'' \<and> b = ''execute'' then Some RExecute
         else if a = ''admin'' \<and> x = ''treasury'' \<and> b = ''credit'' then Some RTreasuryCredit
         else if x = [] then None
         else if a = ''nodes'' \<and> b = ''refresh'' then Some (RRefresh x)
         else if a = ''nodes'' \<and> b = ''warm-model'' then Some (RWarmModel x)
         else if a = ''nodes'' \<and> b = ''attest-enclave'' then Some (RAttest x)
         else if a = ''nodes'' \<and> b = ''benchmark-result'' then Some (RBenchmark x)
         else if a = ''nodes'' \<and> b = ''job-outcome'' then Some (ROutcome x)
         else if a = ''users'' \<and> b = ''startup-grant'' then Some (RStartupGrant x)
         else if a = ''users'' \<and> b = ''api-key'' then Some (RMintKey x)
         else if a = ''account'' \<and> b = ''link-device'' then Some (RLink x)
         else if a = ''account'' \<and> b = ''unlink-device'' then Some (RUnlink x)
         else None
     | _ \<Rightarrow> None)"

definition deleteRoute :: "string list \<Rightarrow> route option" where
  "deleteRoute segs = (case segs of
       [a, x] \<Rightarrow> if a = ''nodes'' \<and> x \<noteq> [] then Some (RDeregister x) else None
     | [a, x, b] \<Rightarrow> if a = ''users'' \<and> x \<noteq> [] \<and> b = ''api-key'' then Some (RRevokeKey x) else None
     | _ \<Rightarrow> None)"

definition getRoute :: "string list \<Rightarrow> route" where
  "getRoute segs = (case segs of
       [a] \<Rightarrow> if a = ''metrics'' then RMetrics else if a = ''nodes'' then RNodes else if a = ''health'' then RHealth else RIndex
     | [a, b] \<Rightarrow>
         if a = ''nodes'' \<and> b = ''stream'' then RStream
         else if a = ''federation'' \<and> b = ''identity'' then RIdentity
         else if a = ''federation'' \<and> b = ''ledger-events'' then RLedgerEvents
         else if a = ''metrics'' \<and> b = ''prometheus'' then RPrometheus
         else if a = ''admin'' \<and> b = ''reconcile'' then RReconcile
         else if a = ''admin'' \<and> b = ''treasury'' then RTreasury
         else if a = ''admin'' \<and> b = ''audit-log'' then RAuditLog
         else if a = ''admin'' \<and> b = ''deployments'' then RDeployments
         else RIndex
     | [a, x, b] \<Rightarrow>
         if a = ''nodes'' \<and> x \<noteq> [] \<and> b = ''verify-tier'' then RVerifyTier x
         else if a = ''users'' \<and> x \<noteq> [] \<and> b = ''balance'' then RBalance x
         else if a = ''users'' \<and> x \<noteq> [] \<and> b = ''api-key'' then RKeyExists x
         else if a = ''federation'' \<and> x = ''audit'' \<and> b \<noteq> [] then RAudit b
         else RIndex
     | _ \<Rightarrow> RIndex)"

text \<open>The mux answers 405 for a path that is only registered for other methods (\<open>GET /\<close> takes any).\<close>

definition routeOf :: "string \<Rightarrow> string list \<Rightarrow> route option" where
  "routeOf httpMethod segs =
     (if httpMethod = ''GET'' \<or> httpMethod = ''HEAD'' then Some (getRoute segs)
      else if httpMethod = ''POST'' then postRoute segs
      else if httpMethod = ''DELETE'' then deleteRoute segs
      else None)"

definition pathText :: "string list \<Rightarrow> string" where
  "pathText segs = concat (map ((#) CHR ''/'') segs)"

text \<open>A path that \<open>cleanPath\<close> changes is answered with a redirect.\<close>

definition unclean :: "string list \<Rightarrow> bool" where
  "unclean segs \<longleftrightarrow> segs = [] \<or> list_ex (\<lambda>s. s = [] \<or> s = ''.'' \<or> s = ''..'') (butlast segs) \<or>
     last segs = ''.'' \<or> last segs = ''..''"

section \<open>The server\<close>

text \<open>What the body and the query of a request decode to, for the handler it is routed to.\<close>

record payload =
  bdRegister :: "NodeRegistration option"
  bdRefresh :: "RefreshRequest option"
  bdString :: "string option"
  bdClaim :: "ClaimRequest option"
  bdResult :: "JobResultRequest option"
  bdAttest :: "EnclaveAttestationRequest option"
  bdReserve :: "(string \<times> string) option"
  bdChat :: "chat_request option"
  bdJob :: "JobSpec option"
  bdExecute :: "(job_id \<times> jobj list) option"
  bdBenchmark :: "BenchmarkResultRequest option"
  bdOutcome :: "JobOutcomeRequest option"
  bdTolerance :: "f64 option option"
  bdRecord :: "jobj option"
  bdNonce :: "64 word optional_body"
  bdParticipant :: "CoordinationParticipant option"
  bdAuth :: "auth_body option"
  bdLink :: "link_body option"
  bdSince :: "64 word option option"
  bdPeer :: string
  bdAdminAuth :: "(string \<times> string) option"
  bdTreasury :: "(f64 \<times> string) option"
  bdLimit :: "int option"

text \<open>The surroundings of one request beyond those of its handler.\<close>

record surround =
  evWorld :: world
  evDoor :: time
  evDecomp :: decomposition_env
  evPeer :: peer_answers
  evFedSql :: "nat \<Rightarrow> nat \<Rightarrow> bool"
  evNoteSql :: "nat \<Rightarrow> bool"
  evParts :: "string list"
  evTicks :: "(world \<times> string list) list"
  evNames :: "metrics \<Rightarrow> string list \<times> string list"
  evHistory :: "(string \<Rightarrow> History option) \<times> file_read"

text \<open>The configuration of the whole process.\<close>

record server_config =
  scConfig :: config
  scPrivate :: bytes
  scPublic :: bytes
  scOrigins :: "string list"
  scHistoryPath :: string

record server =
  svCo :: coordinator
  svFed :: fed_store
  svMetrics :: metrics
  svIPLimiter :: RateLimiter
  svUserLimiter :: RateLimiter

definition handleDeployments :: "config \<Rightarrow> string \<Rightarrow> world \<Rightarrow> request \<Rightarrow> (string \<Rightarrow> History option) \<times> file_read \<Rightarrow> coordinator \<Rightarrow>
    reply \<times> coordinator" where
  "handleDeployments cf path w r file c = (case isAdmin cf w r c of (ok, c) \<Rightarrow>
     (if \<not> ok then failWith 401 (ErrText ''admin credential required'')
      else if path = [] then failWith 404 (ErrText ''deployment history not configured on this coordinator'')
      else case snd file of
          NoFile \<Rightarrow> (200, HistoryBody [])
        | ReadError \<Rightarrow> failWith 500 (ErrText ''read deployment history'')
        | Contents s \<Rightarrow> (case fst file s of
              None \<Rightarrow> failWith 500 (ErrText ''parse deployment history'')
            | Some h \<Rightarrow> (200, HistoryBody h)), c))"

definition handleIndex :: "config \<Rightarrow> world \<Rightarrow> coordinator \<Rightarrow> reply" where
  "handleIndex cf w c = (200, IndexBody (cfPodID cf) (cfRegion cf) (podDigest cf w c))"

text \<open>The handler of a route, on the coordinator; None when it never answers.\<close>

definition coHandle :: "server_config \<Rightarrow> surround \<Rightarrow> request \<Rightarrow> payload \<Rightarrow> route \<Rightarrow> coordinator \<Rightarrow> (reply \<times> coordinator) option" where
  "coHandle sc E r B route c = (let cf = scConfig sc; w = evWorld E in case route of
       RRegister \<Rightarrow> Some (handleRegister cf w (bdRegister B) c)
     | RRefresh x \<Rightarrow> Some (handleRefresh cf w x (bdRefresh B) c)
     | RWarmModel x \<Rightarrow> Some (handleWarmModel cf w x (bdString B) c)
     | RClaim \<Rightarrow> Some (handleClaim cf w (bdClaim B) c)
     | RResult \<Rightarrow> Some (handleResult cf w (bdResult B) c)
     | RAttest x \<Rightarrow> Some (handleAttest cf w x (bdAttest B) c)
     | RDeregister x \<Rightarrow> Some (handleDeregister x c)
     | RReserve \<Rightarrow> Some (handleReserve cf w (bdReserve B) c)
     | RChat \<Rightarrow> handleChat cf w r (bdChat B) c
     | RAssign \<Rightarrow> Some (handleAssign w (bdJob B) c)
     | RCycle \<Rightarrow> Some (handleCycle w (bdString B) c, c)
     | RExecute \<Rightarrow> handleExecute cf (evDecomp E) w (bdExecute B) c
     | RBenchmark x \<Rightarrow> Some (handleBenchmark cf w x (bdBenchmark B) c)
     | ROutcome x \<Rightarrow> Some (handleOutcome cf w x (bdOutcome B) c)
     | RVerifyTier x \<Rightarrow> Some (handleVerifyTier (bdTolerance B) x c, c)
     | RSettlementRecord \<Rightarrow> Some (handleSettlementRecord (bdRecord B) c)
     | RStartupGrant x \<Rightarrow> Some (handleStartupGrant cf w r x (bdNonce B) c)
     | RBalance x \<Rightarrow> Some (handleBalance cf r x c, c)
     | RMintKey x \<Rightarrow> Some (handleMintKey cf w r x c)
     | RKeyExists x \<Rightarrow> Some (handleKeyExists cf r x c, c)
     | RRevokeKey x \<Rightarrow> Some (handleRevokeKey cf w r x c)
     | RMetrics \<Rightarrow> Some (handleMetrics w c, c)
     | RNodes \<Rightarrow> Some (handleNodes w (evParts E) c)
     | RAnnounce \<Rightarrow> Some (handleAnnounce cf w (bdParticipant B) c)
     | RWithdraw \<Rightarrow> Some (handleWithdraw (bdString B) c)
     | RChallenge \<Rightarrow> Some (handleChallenge w (bdString B) c)
     | RAuth \<Rightarrow> Some (handleAccountAuth cf w (bdAuth B) c)
     | RLink x \<Rightarrow> Some (handleLinkDevice cf x (bdLink B) c)
     | RUnlink x \<Rightarrow> Some (handleUnlinkDevice cf x (bdLink B) c)
     | RStream \<Rightarrow> Some (case handleNodesStream (evTicks E) c of (bodies, c) \<Rightarrow> ((200, Frames bodies), c))
     | RHealth \<Rightarrow> Some (handleHealth cf w c, c)
     | RReconcile \<Rightarrow> Some (handleReconcile cf w r c)
     | RAdminChallenge \<Rightarrow> Some (handleAdminChallenge cf w c)
     | RAdminAuthenticate \<Rightarrow> Some (handleAdminAuthenticate cf w (bdAdminAuth B) c)
     | RTreasury \<Rightarrow> Some (handleTreasury cf w r c)
     | RTreasuryCredit \<Rightarrow> Some (handleTreasuryCredit w (bdTreasury B) c)
     | RAuditLog \<Rightarrow> Some (handleAuditLog cf w r (bdLimit B) c)
     | RDeployments \<Rightarrow> Some (handleDeployments cf (scHistoryPath sc) w r (evHistory E) c)
     | _ \<Rightarrow> Some (handleIndex cf w c, c))"

text \<open>
  The credit callback, for the credits a handler made, in order; \<open>sql k\<close> is the outcome of
  the \<open>k\<close>-th insert.
\<close>

fun witnessNotes :: "server_config \<Rightarrow> (nat \<Rightarrow> bool) \<Rightarrow> nat \<Rightarrow> CreditEntry list \<Rightarrow> fed_store \<Rightarrow> fed_store" where
  "witnessNotes sc sql k [] s = s"
| "witnessNotes sc sql k (e # es) s = witnessNotes sc sql (Suc k) es
     (onCreditCallback (cfCrypto (scConfig sc)) (cfEventCodec (scConfig sc)) (cfFormat (scConfig sc)) (scPrivate sc) (scPublic sc)
        (cfPodID (scConfig sc)) (sql k) e s)"

definition onCoordinator :: "server_config \<Rightarrow> surround \<Rightarrow> request \<Rightarrow> payload \<Rightarrow> route \<Rightarrow> server \<Rightarrow> (reply \<times> server) option" where
  "onCoordinator sc E r B route s = map_option (\<lambda>(rep, c). (rep,
     s\<lparr> svCo := c, svFed := witnessNotes sc (evNoteSql E) 0 (drop (length (snd (coBooks (svCo s)))) (snd (coBooks c))) (svFed s) \<rparr>))
     (coHandle sc E r B route (svCo s))"

text \<open>The remaining handlers read or write the federation store or the metrics.\<close>

definition handleRoute :: "server_config \<Rightarrow> surround \<Rightarrow> request \<Rightarrow> payload \<Rightarrow> route \<Rightarrow> server \<Rightarrow> (reply \<times> server) option" where
  "handleRoute sc E r B route s = (let cf = scConfig sc in case route of
       RIdentity \<Rightarrow> Some (handleIdentity cf (scPublic sc), s)
     | RLedgerEvents \<Rightarrow> Some (handleLedgerEvents cf r (bdSince B) (svFed s), s)
     | RAudit x \<Rightarrow> Some (case handleFederationAudit cf (evFedSql E) r x (bdPeer B) (evPeer E) (svFed s) of
           (rep, f) \<Rightarrow> (rep, s\<lparr> svFed := f \<rparr>))
     | RPrometheus \<Rightarrow> Some (case handlePrometheus cf (evWorld E) (evParts E) (wOrder (evWorld E) 2) (evNames E) (svCo s) (svMetrics s) of
           (page, mx, c) \<Rightarrow> ((200, TextBody page), s\<lparr> svCo := c, svMetrics := mx \<rparr>))
     | _ \<Rightarrow> onCoordinator sc E r B route s)"

definition serveMux :: "server_config \<Rightarrow> surround \<Rightarrow> request \<Rightarrow> string list \<Rightarrow> payload \<Rightarrow> server \<Rightarrow> (reply \<times> server) option" where
  "serveMux sc E r segs B s =
     (if unclean segs then Some ((301, NoContent), s)
      else case routeOf (Method r) segs of
          None \<Rightarrow> Some ((405, NoContent), s)
        | Some route \<Rightarrow> handleRoute sc E r B route s)"

text \<open>
  The chain: CORS answers preflights, then the metrics of every other request, the rate
  limit of the client address and the identity check, then the mux. The limits on body size
  and concurrency in between are \<open>HttpGuards\<close>.
\<close>

definition serve :: "server_config \<Rightarrow> surround \<Rightarrow> request \<Rightarrow> string list \<Rightarrow> payload \<Rightarrow> server \<Rightarrow> (reply \<times> server) option" where
  "serve sc E r segs B s =
     (let cf = scConfig sc; r = r\<lparr> URLPath := pathText segs \<rparr>
      in case snd (corsMiddleware (scOrigins sc) r) of
          Refuse code \<Rightarrow> Some ((code, NoContent), s)
        | Pass r \<Rightarrow>
            let s = s\<lparr> svMetrics := AddGauge ''oim_http_requests_in_flight'' 1 (IncCounter ''oim_http_requests_total'' (svMetrics s)) \<rparr>
            in (case frontDoor (cfNet cf) (cfProxyNets cf) (cfCrypto cf) (cfApiKey cf) (coKeys (svCo s)) (evDoor E) r
                     (svIPLimiter s, Some (coAdmin (svCo s)), Some (svUserLimiter s)) of
                 (gate, ipl, adm, usl) \<Rightarrow>
                   let s = s\<lparr> svIPLimiter := ipl,
                             svCo := (case adm of Some a \<Rightarrow> (svCo s)\<lparr> coAdmin := a \<rparr> | None \<Rightarrow> svCo s),
                             svUserLimiter := (case usl of Some l \<Rightarrow> l | None \<Rightarrow> svUserLimiter s) \<rparr>
                   in map_option (\<lambda>(rep, s). (rep, s\<lparr> svMetrics := AddGauge ''oim_http_requests_in_flight'' (- 1) (svMetrics s) \<rparr>))
                        (case gate of Refuse code \<Rightarrow> Some ((code, NoContent), s) | Pass r \<Rightarrow> serveMux sc E r segs B s)))"

section \<open>Starting\<close>

text \<open>
  \<open>runCoordinator\<close> up to the listener, without \<open>--ledger-db-url\<close>. What the files give is the
  outcome of the library calls: the database of \<open>--db-path\<close> with the tables of the ledger and
  of the keys, the identity file, the file of \<open>--federation-db-path\<close>.
\<close>

record start_env =
  stProxies :: "string list"
  stAdminKey :: string
  stDb :: bool
  stLedgerOk :: "bool \<times> bool \<times> bool \<times> bool \<times> bool"
  stLedgerFile :: "sqldb option"
  stKeyFault :: "key_error option"
  stKeyTable :: "user_id \<rightharpoonup> string"
  stKeyRows :: "user_id list"
  stIdentity :: "(bytes \<times> bytes) option"
  stFedFault :: "fed_error option"
  stFedTables :: "fed_tables option"
  stTreasuryPerMin :: f64
  stGrantsPerHour :: f64
  stRPS :: f64
  stBurst :: f64
  stQuotaPerHour :: f64

datatype start_error = BadProxy string | AdminKey admin_error | OpenLedger ledger_error | OpenKeys key_error | NoIdentity
  | OpenFederation fed_error

definition startCoordinator :: "start_env \<Rightarrow> Authenticator \<Rightarrow> Ledger \<Rightarrow> apiKeyStore \<Rightarrow> coordinator" where
  "startCoordinator V a l ks =
     \<lparr> coReg = NewNodeRegistry, coBooks = (SetOnCredit l, []), coKeys = ks, coWallet = NewManager,
       coNodeUsers = Map.empty, coCredited = {}, coQueue = NewJobQueue DefaultQueueCapacity,
       coReservations = NewReservationStore, coCoord = NewCoordinationRegistry, coAssign = Map.empty, coMeasured = Map.empty,
       coRecords = [], coAdmin = a, coGrantLimiter = NewRateLimiter (fdiv (stGrantsPerHour V) 3600) 2,
       coTreasuryLimiter = NewRateLimiter (fdiv (stTreasuryPerMin V) 60) 1, coPull = NewPullDispatcher \<rparr>"

text \<open>The configuration that the start completes is \<open>sc\<close>: its proxies and its key pair.\<close>

definition startServer :: "server_config \<Rightarrow> start_env \<Rightarrow> start_error + server_config \<times> server" where
  "startServer sc V = (case ParseTrustedProxies (cfNet (scConfig sc)) (stProxies V) of
       Inl e \<Rightarrow> Inl (BadProxy e)
     | Inr nets \<Rightarrow> (case NewAuthenticator (stAdminKey V) of
       Inl e \<Rightarrow> Inl (AdminKey e)
     | Inr a \<Rightarrow> (case (if stDb V then (case stLedgerOk V of (a, b, c, d, e) \<Rightarrow> NewPersistentLedger a b c d e (stLedgerFile V)) else Inr NewLedger) of
       Inl e \<Rightarrow> Inl (OpenLedger e)
     | Inr l \<Rightarrow> (case (if stDb V then newPersistentAPIKeyStore (stKeyFault V) (stKeyTable V) (stKeyRows V) else Inr newAPIKeyStore) of
       Inl e \<Rightarrow> Inl (OpenKeys e)
     | Inr ks \<Rightarrow> (case stIdentity V of
       None \<Rightarrow> Inl NoIdentity
     | Some (priv, pub) \<Rightarrow> (case NewStore (stFedFault V) (stFedTables V) of
       Inl e \<Rightarrow> Inl (OpenFederation e)
     | Inr f \<Rightarrow>
         let burst = fdiv (stQuotaPerHour V) 60; burst = (if burst < 5 then 5 else burst)
         in Inr (sc\<lparr> scConfig := (scConfig sc)\<lparr> cfProxyNets := nets \<rparr>, scPrivate := priv, scPublic := pub \<rparr>,
              \<lparr> svCo = startCoordinator V a l ks, svFed = f, svMetrics = NewMetrics,
                svIPLimiter = NewRateLimiter (stRPS V) (stBurst V),
                svUserLimiter = NewRateLimiter (fdiv (stQuotaPerHour V) 3600) burst \<rparr>)))))))"

section \<open>The life of the server\<close>

text \<open>
  Requests, and what the background goroutines do: the registry's eviction, the retargeting
  of the queue, a worker taking a job, the availability probes with their rewards, the poll
  of the peers, the eviction of idle buckets, the periodic audit.
\<close>

definition pod_identity_of :: "server_config \<Rightarrow> pod_identity" where
  "pod_identity_of sc = \<lparr> idCrypto = cfCrypto (scConfig sc), idCodec = cfEventCodec (scConfig sc), idFormat = cfFormat (scConfig sc),
     idPrivate = scPrivate sc, idPublic = scPublic sc, idPod = cfPodID (scConfig sc) \<rparr>"

definition withCredits :: "server_config \<Rightarrow> (nat \<Rightarrow> bool) \<Rightarrow> coordinator \<Rightarrow> server \<Rightarrow> server" where
  "withCredits sc sql c s =
     s\<lparr> svCo := c, svFed := witnessNotes sc sql 0 (drop (length (snd (coBooks (svCo s)))) (snd (coBooks c))) (svFed s) \<rparr>"

inductive server_step :: "server_config \<Rightarrow> server \<Rightarrow> server \<Rightarrow> bool" for sc where
  step_request: "serve sc E r segs B s = Some (rep, s') \<Longrightarrow> (\<forall>amount reason. bdTreasury B = Some (amount, reason) \<longrightarrow> is_f64 amount) \<Longrightarrow>
    server_step sc s s'"
| step_nodes_evicted: "server_step sc s (s\<lparr> svCo := (svCo s)\<lparr> coReg := runEviction now (coReg (svCo s)) \<rparr> \<rparr>)"
| step_retarget: "server_step sc s (s\<lparr> svCo := (svCo s)\<lparr> coQueue := retarget (Snapshot now ks (coReg (svCo s))) (coQueue (svCo s)) \<rparr> \<rparr>)"
| step_take: "takeJob (coQueue (svCo s)) = Some (qj, q) \<Longrightarrow> server_step sc s (s\<lparr> svCo := (svCo s)\<lparr> coQueue := q \<rparr> \<rparr>)"
| step_probe: "server_step sc s (withCredits sc sql (probeIdleNodes envs d now ks (svCo s)) s)"
| step_poll: "server_step sc s (s\<lparr> svFed := pollFederationPeers (cfCrypto (scConfig sc)) (cfEventCodec (scConfig sc)) sql tops answers
    (cfPodID (scConfig sc)) (svFed s) \<rparr>)"
| step_buckets: "server_step sc s (s\<lparr> svIPLimiter := evictIdle now (svIPLimiter s) \<rparr>)"
| step_audit: "server_step sc s (s\<lparr> svMetrics := snd (reconcileCheck us (fst (coBooks (svCo s))) (svMetrics s)) \<rparr>)"

definition server_run :: "server_config \<Rightarrow> server \<Rightarrow> server \<Rightarrow> bool" where
  "server_run sc = (server_step sc)\<^sup>*\<^sup>*"

end
