(* ===== verification/Composition.thy ===== *)
theory Composition
  imports Server
begin

text \<open>
  What the composed server keeps: every request and every background step is a run of the
  machines of its parts and of the federation store, so their invariants hold together in
  every state the process can be in; the pod's signed history repeats the ledger; and what a
  request without a credential can change.
\<close>

section \<open>What every handler keeps\<close>

lemma movesD: "moves C c (snd p) \<Longrightarrow> p = (rep, c') \<Longrightarrow> moves C c c'"
  by simp

lemma handleDeployments_moves: "moves C c (snd (handleDeployments cf path w r file c))"
  using isAdmin_fields[of cf w r c] by (auto simp: handleDeployments_def split: prod.splits intro!: moves_none)

lemmas handlers_move =
  handleRegister_moves[THEN movesD] handleRefresh_moves[THEN movesD] handleWarmModel_moves[THEN movesD]
  handleClaim_moves[THEN movesD] handleResult_moves[THEN movesD] handleAttest_moves[THEN movesD]
  handleDeregister_moves[THEN movesD] handleReserve_moves[THEN movesD] handleChat_moves handleAssign_moves[THEN movesD]
  handleExecute_moves handleBenchmark_moves[THEN movesD] handleOutcome_moves[THEN movesD]
  handleSettlementRecord_moves[THEN movesD] handleStartupGrant_moves[THEN movesD] handleMintKey_moves[THEN movesD]
  handleRevokeKey_moves[THEN movesD] handleNodes_moves[THEN movesD] handleAnnounce_moves[THEN movesD]
  handleWithdraw_moves[THEN movesD] handleChallenge_moves[THEN movesD] handleAccountAuth_moves[THEN movesD]
  handleLinkDevice_moves[THEN movesD] handleUnlinkDevice_moves[THEN movesD] handleAdminReads_moves[THEN movesD]
  handleAdminChallenge_moves[THEN movesD] handleAdminAuthenticate_moves[THEN movesD] handleDeployments_moves[THEN movesD]
  handleTreasuryCredit_moves[THEN movesD, rotated 1] handleNodesStream_moves[THEN movesD]

lemma coHandle_moves:
  assumes "coHandle sc E r B route c = Some (rep, c')"
    and "\<forall>amount reason. bdTreasury B = Some (amount, reason) \<longrightarrow> is_f64 amount"
  shows "moves (cfCrypto (scConfig sc)) c c'"
proof (cases "route = RTreasuryCredit")
  case True
  then show ?thesis using assms handleTreasuryCredit_moves[of "bdTreasury B" "cfCrypto (scConfig sc)" c "evWorld E"]
    by (simp add: coHandle_def)
next
  case False
  then show ?thesis using assms(1) unfolding coHandle_def Let_def
    by (cases route) (auto split: prod.splits dest: handlers_move)
qed

section \<open>The invariant\<close>

definition keys_ok :: "apiKeyStore \<Rightarrow> bool" where
  "keys_ok s \<longleftrightarrow> (\<forall>h u. byKey s h = Some u \<longrightarrow> byUser s u = Some h)"

lemma keys_ok_step: "keys_ok s \<Longrightarrow> live_key_event ev \<Longrightarrow> keys_ok (key_step C ev s)"
  by (cases ev) (auto simp: keys_ok_def generateKey_def revokeKey_def Let_def split: option.splits if_splits)

lemma keys_ok_moves: "key_moves C s s' \<Longrightarrow> keys_ok s \<Longrightarrow> keys_ok s'"
proof -
  have "list_all live_key_event evs \<Longrightarrow> keys_ok s \<Longrightarrow> keys_ok (key_run C evs s)" for evs s
    by (induction evs arbitrary: s) (simp_all add: key_run_def keys_ok_step)
  then show "key_moves C s s' \<Longrightarrow> keys_ok s \<Longrightarrow> keys_ok s'" by (auto simp: key_moves_def)
qed

text \<open>
  The coordinator's parts: identities and attestations of the registry, sound accounts with
  the credit callback in step with the log, keys that name one user, a bounded queue.
\<close>

definition books_ok :: "books \<Rightarrow> bool" where
  "books_ok b \<longleftrightarrow> mem.good (fst b) \<and> onCredit (fst b) \<and> (\<exists>old. entries (fst b) = old @ snd b)"

definition coordinator_ok :: "crypto \<Rightarrow> coordinator \<Rightarrow> bool" where
  "coordinator_ok C c \<longleftrightarrow> registry_ok C (coReg c) \<and> books_ok (coBooks c) \<and> keys_ok (coKeys c) \<and> queue_bounded (coQueue c)"

definition fed_ok :: "pod_identity \<Rightarrow> fed_store \<Rightarrow> bool" where
  "fed_ok I f \<longleftrightarrow> witness_ok (idCrypto I) (idCodec I) f \<and> self_ok I f"

definition server_ok :: "server_config \<Rightarrow> server \<Rightarrow> bool" where
  "server_ok sc s \<longleftrightarrow> coordinator_ok (cfCrypto (scConfig sc)) (svCo s) \<and> fed_ok (pod_identity_of sc) (svFed s)"

lemma registry_ok_run: "reg_run C r r' \<Longrightarrow> registry_ok C r \<Longrightarrow> registry_ok C r'"
  unfolding reg_run_def by (induction rule: rtranclp_induct) (auto intro: reg_step_ok)

lemma books_ok_run:
  assumes "book_run b b'" "books_ok b"
  shows "books_ok b'"
proof -
  obtain evs where e: "list_all book_event evs" "fst b' = fold session_step evs (fst b)" using assms(1) by (auto simp: book_run_def)
  then have "list_all proper_event evs" by (auto simp: book_event_def list_all_iff)
  then have "mem.good (fst b')" using e(2) assms(2) session_good by (simp add: books_ok_def)
  moreover obtain es where "entries (fst b') = entries (fst b) @ es" "snd b' = snd b @ (if onCredit (fst b) then es else [])"
      "onCredit (fst b') = onCredit (fst b)" using assms(1) by (auto simp: book_run_def)
  ultimately show ?thesis using assms(2) by (auto simp: books_ok_def)
qed

lemma coordinator_ok_moves: "moves C c c' \<Longrightarrow> coordinator_ok C c \<Longrightarrow> coordinator_ok C c'"
  unfolding moves_def coordinator_ok_def using registry_ok_run books_ok_run keys_ok_moves by blast

lemma coordinator_ok_admin [simp]: "coordinator_ok C (c\<lparr> coAdmin := a \<rparr>) = coordinator_ok C c"
  by (simp add: coordinator_ok_def)

section \<open>The federation store\<close>

definition fed_moves :: "pod_identity \<Rightarrow> fed_store \<Rightarrow> fed_store \<Rightarrow> bool" where
  "fed_moves I f f' \<longleftrightarrow> (\<exists>evs. RestartEv \<notin> set evs \<and> f' = fed_run I evs f)"

lemma fed_moves_refl [simp]: "fed_moves I f f"
  unfolding fed_moves_def by (intro exI[of _ "[]"]) (simp add: fed_run_def)

lemma fed_moves_step: "ev \<noteq> RestartEv \<Longrightarrow> fed_moves I (fed_step I ev f) f' \<Longrightarrow> fed_moves I f f'"
  unfolding fed_moves_def by (metis fed_run_def fold_simps(2) set_ConsD)

lemma fed_moves_trans: "fed_moves I f f' \<Longrightarrow> fed_moves I f' f'' \<Longrightarrow> fed_moves I f f''"
  unfolding fed_moves_def fed_run_def by (metis Un_iff fold_append comp_apply set_append)

lemma fed_ok_moves: "fed_moves I f f' \<Longrightarrow> fed_ok I f \<Longrightarrow> fed_ok I f'"
  using fed_run_ok fed_run_self by (fastforce simp: fed_moves_def fed_ok_def)

lemma pod_identity_simps [simp]:
  "idCrypto (pod_identity_of sc) = cfCrypto (scConfig sc)" "idCodec (pod_identity_of sc) = cfEventCodec (scConfig sc)"
  "idPod (pod_identity_of sc) = cfPodID (scConfig sc)"
  by (simp_all add: pod_identity_of_def)

lemma witnessNotes_moves: "fed_moves (pod_identity_of sc) f (witnessNotes sc sql k es f)"
proof (induction sc sql k es f rule: witnessNotes.induct)
  case (2 sc sql k e es f)
  have "fed_step (pod_identity_of sc) (OwnEv (sql k) (NextSequence f) e) f =
      onCreditCallback (cfCrypto (scConfig sc)) (cfEventCodec (scConfig sc)) (cfFormat (scConfig sc)) (scPrivate sc) (scPublic sc)
        (cfPodID (scConfig sc)) (sql k) e f"
    by (simp add: onCreditCallback_def pod_identity_of_def)
  then show ?case using 2 fed_moves_step[of "OwnEv (sql k) (NextSequence f) e"] by simp
qed simp

section \<open>Every step is a run of the parts\<close>

definition witnessing :: "fed_event \<Rightarrow> bool" where
  "witnessing ev \<longleftrightarrow> (case ev of WitnessEv sql evt \<Rightarrow> True | _ \<Rightarrow> False)"

lemma witnessing_simps [simp]: "witnessing (WitnessEv sql evt)" "\<not> witnessing RestartEv"
  by (simp_all add: witnessing_def)

definition witness_moves :: "pod_identity \<Rightarrow> fed_store \<Rightarrow> fed_store \<Rightarrow> bool" where
  "witness_moves I f f' \<longleftrightarrow> (\<exists>evs. list_all witnessing evs \<and> f' = fed_run I evs f)"

lemma witness_moves_refl [simp]: "witness_moves I f f"
  unfolding witness_moves_def by (intro exI[of _ "[]"]) (simp add: fed_run_def)

lemma witness_moves_trans: "witness_moves I f g \<Longrightarrow> witness_moves I g h \<Longrightarrow> witness_moves I f h"
  unfolding witness_moves_def fed_run_def by (metis fold_append comp_apply list_all_append)

lemma witness_moves_one: "witness_moves I f (snd (StoreWitnessedEvent (idCrypto I) (idCodec I) sql evt f))"
  unfolding witness_moves_def by (intro exI[of _ "[WitnessEv sql evt]"]) (simp add: fed_run_def)

lemma witness_moves_fed: "witness_moves I f f' \<Longrightarrow> fed_moves I f f'"
  unfolding witness_moves_def fed_moves_def by (metis list_all_iff witnessing_simps(2))

lemma witness_moves_batch: "witness_moves I f (snd (storeBatch (idCrypto I) (idCodec I) sql k evts f))"
proof (induction evts arbitrary: f k)
  case (Cons evt evts)
  show ?case using witness_moves_trans[OF witness_moves_one Cons]
    by (simp add: Let_def case_prod_beta split: option.split)
qed simp

lemma witness_moves_peers: "witness_moves I f (pullPeers (idCrypto I) (idCodec I) sql answers pod i pods f)"
proof (induction pods arbitrary: f i)
  case (Cons p pods)
  show ?case using Cons witness_moves_trans[OF witness_moves_batch Cons] by (auto split: sum.split)
qed simp

lemma witness_moves_poll: "witness_moves I f (pollFederationPeers (idCrypto I) (idCodec I) sql tops answers pod f)"
  by (simp add: pollFederationPeers_def witness_moves_peers split: option.split)

lemma witness_moves_audit:
  assumes "handleFederationAudit cf sql r u ep peer f = (rep, f')" "cfCrypto cf = idCrypto I" "cfEventCodec cf = idCodec I"
  shows "witness_moves I f f'"
proof -
  have "f' = f \<or> (\<exists>sql evts. f' = snd (storeBatch (idCrypto I) (idCodec I) sql 0 evts f))"
    using assms by (auto simp: handleFederationAudit_def Let_def split: if_splits sum.splits prod.splits) (metis snd_conv)+
  then show ?thesis using witness_moves_batch by auto
qed

text \<open>
  Events of peers may be stored first; then every new credit goes through the callback, in
  the order of the log.
\<close>

definition server_moves :: "server_config \<Rightarrow> server \<Rightarrow> server \<Rightarrow> bool" where
  "server_moves sc s s' \<longleftrightarrow> moves (cfCrypto (scConfig sc)) (svCo s) (svCo s') \<and>
     (\<exists>f sql. witness_moves (pod_identity_of sc) (svFed s) f \<and> svFed s' = witnessNotes sc sql 0
        (drop (length (snd (coBooks (svCo s)))) (snd (coBooks (svCo s')))) f)"

lemma server_moves_co:
  assumes "moves (cfCrypto (scConfig sc)) (svCo s) (svCo s')"
    and "svFed s' = witnessNotes sc sql 0 (drop (length (snd (coBooks (svCo s)))) (snd (coBooks (svCo s')))) (svFed s)"
  shows "server_moves sc s s'"
  unfolding server_moves_def using assms witness_moves_refl by blast

lemma server_moves_fed:
  assumes "witness_moves (pod_identity_of sc) (svFed s) (svFed s')"
    and "moves (cfCrypto (scConfig sc)) (svCo s) (svCo s')" "coBooks (svCo s') = coBooks (svCo s)"
  shows "server_moves sc s s'"
  unfolding server_moves_def using assms by (intro conjI exI[of _ "svFed s'"]) auto

lemma server_moves_quiet:
  "svCo s' = svCo s \<or> (\<exists>a. svCo s' = (svCo s)\<lparr> coAdmin := a \<rparr>) \<Longrightarrow> svFed s' = svFed s \<Longrightarrow> server_moves sc s s'"
  by (rule server_moves_fed) (auto simp: moves_def)

lemma server_moves_cong:
  assumes "server_moves sc t t'" "svCo t = svCo s \<or> (\<exists>a. svCo t = (svCo s)\<lparr> coAdmin := a \<rparr>)" "svFed t = svFed s"
    and "svCo s' = svCo t'" "svFed s' = svFed t'"
  shows "server_moves sc s s'"
proof -
  have "coBooks (svCo t) = coBooks (svCo s)" using assms(2) by auto
  moreover have "moves (cfCrypto (scConfig sc)) (svCo s) (svCo s')" using assms by (auto simp: server_moves_def moves_def)
  ultimately show ?thesis using assms(1,3-5) unfolding server_moves_def by metis
qed

lemma handleRoute_moves:
  assumes "handleRoute sc E r B route s = Some (rep, s')"
    and "\<forall>amount reason. bdTreasury B = Some (amount, reason) \<longrightarrow> is_f64 amount"
  shows "server_moves sc s s'"
proof -
  consider (audit) x where "route = RAudit x" | (scrape) "route = RPrometheus" | (read) "s' = s"
    | (handler) "onCoordinator sc E r B route s = Some (rep, s')"
    using assms(1) by (cases route) (auto simp: handleRoute_def Let_def)
  then show ?thesis
  proof cases
    case (audit x)
    then obtain f where f: "handleFederationAudit (scConfig sc) (evFedSql E) r x (bdPeer B) (evPeer E) (svFed s) = (rep, f)" "s' = s\<lparr> svFed := f \<rparr>"
      using assms(1) by (auto simp: handleRoute_def Let_def split: prod.splits)
    show ?thesis using witness_moves_audit[OF f(1), of "pod_identity_of sc"] f(2) by (intro server_moves_fed) auto
  next
    case scrape
    obtain page mx c where p: "handlePrometheus (scConfig sc) (evWorld E) (evParts E) (wOrder (evWorld E) 2) (evNames E) (svCo s) (svMetrics s) = (page, mx, c)"
      by (metis prod_cases3)
    have "moves (cfCrypto (scConfig sc)) (svCo s) c \<and> coBooks c = coBooks (svCo s)"
      using p scrapeGauges_moves[of "cfCrypto (scConfig sc)" "svCo s"]
      by (auto simp: handlePrometheus_def scrapeGauges_def Let_def split: prod.splits intro!: moves_none)
    then show ?thesis using assms(1) scrape p
      by (intro server_moves_fed) (auto simp: handleRoute_def)
  next
    case handler
    then obtain c where c: "coHandle sc E r B route (svCo s) = Some (rep, c)" "s' = withCredits sc (evNoteSql E) c s"
      by (auto simp: onCoordinator_def withCredits_def)
    show ?thesis using coHandle_moves[OF c(1) assms(2)] c(2)
      by (intro server_moves_co[where sql = "evNoteSql E"]) (simp_all add: withCredits_def)
  qed (simp add: server_moves_quiet)
qed

lemma serveMux_moves:
  assumes "serveMux sc E r segs B s = Some (rep, s')"
    and "\<forall>amount reason. bdTreasury B = Some (amount, reason) \<longrightarrow> is_f64 amount"
  shows "server_moves sc s s'"
  using assms(1) handleRoute_moves[OF _ assms(2)]
  by (auto simp: serveMux_def split: if_splits option.splits intro: server_moves_quiet)

text \<open>The request behind the chain, as the mux gets it.\<close>

lemma corsMiddleware_Pass: "snd (corsMiddleware origins r) = Pass r' \<Longrightarrow> r' = r"
  by (auto simp: corsMiddleware_def Let_def split: if_splits)

lemma serve_cases:
  assumes "serve sc E r segs B s = Some (rep, s')"
  obtains (refused) "svCo s' = svCo s \<or> (\<exists>a. svCo s' = (svCo s)\<lparr> coAdmin := a \<rparr>)" "svFed s' = svFed s"
  | (passed) r' t t' ipl adm usl where
      "frontDoor (cfNet (scConfig sc)) (cfProxyNets (scConfig sc)) (cfCrypto (scConfig sc)) (cfApiKey (scConfig sc)) (coKeys (svCo s))
        (evDoor E) (r\<lparr> URLPath := pathText segs \<rparr>) (svIPLimiter s, Some (coAdmin (svCo s)), Some (svUserLimiter s)) = (Pass r', ipl, adm, usl)"
      "svCo t = svCo s \<or> (\<exists>a. svCo t = (svCo s)\<lparr> coAdmin := a \<rparr>)" "svFed t = svFed s"
      "serveMux sc E r' segs B t = Some (rep, t')" "svCo s' = svCo t'" "svFed s' = svFed t'" "Method r \<noteq> ''OPTIONS''"
proof (cases "snd (corsMiddleware (scOrigins sc) (r\<lparr> URLPath := pathText segs \<rparr>))")
  case (Refuse code)
  then have "s' = s" using assms by (simp add: serve_def)
  then show ?thesis by (intro refused) simp_all
next
  case (Pass r1)
  have r1: "r1 = r\<lparr> URLPath := pathText segs \<rparr>" "Method r \<noteq> ''OPTIONS''"
    using corsMiddleware_Pass[OF Pass] Pass by (auto simp: corsMiddleware_def Let_def)
  obtain gate ipl adm usl where d: "frontDoor (cfNet (scConfig sc)) (cfProxyNets (scConfig sc)) (cfCrypto (scConfig sc)) (cfApiKey (scConfig sc))
      (coKeys (svCo s)) (evDoor E) r1 (svIPLimiter s, Some (coAdmin (svCo s)), Some (svUserLimiter s)) = (gate, ipl, adm, usl)"
    by (metis prod_cases4)
  define t where "t = s\<lparr> svMetrics := AddGauge ''oim_http_requests_in_flight'' 1 (IncCounter ''oim_http_requests_total'' (svMetrics s)),
    svIPLimiter := ipl, svCo := (case adm of Some a \<Rightarrow> (svCo s)\<lparr> coAdmin := a \<rparr> | None \<Rightarrow> svCo s),
    svUserLimiter := (case usl of Some l \<Rightarrow> l | None \<Rightarrow> svUserLimiter s) \<rparr>"
  have t: "svCo t = svCo s \<or> (\<exists>a. svCo t = (svCo s)\<lparr> coAdmin := a \<rparr>)" "svFed t = svFed s"
    by (auto simp: t_def split: option.split)
  have m: "map_option (\<lambda>(rep, s). (rep, s\<lparr> svMetrics := AddGauge ''oim_http_requests_in_flight'' (- 1) (svMetrics s) \<rparr>))
      (case gate of Refuse code \<Rightarrow> Some ((code, NoContent), t) | Pass r \<Rightarrow> serveMux sc E r segs B t) = Some (rep, s')"
    using assms unfolding serve_def Let_def Pass gate.case by (cases adm; cases usl; cases gate) (simp_all add: d t_def)
  show ?thesis
  proof (cases gate)
    case (Refuse code)
    then have "s' = t\<lparr> svMetrics := AddGauge ''oim_http_requests_in_flight'' (- 1) (svMetrics t) \<rparr>" using m by simp
    then show ?thesis using t by (intro refused) simp_all
  next
    case (Pass r2)
    then obtain t' where t': "serveMux sc E r2 segs B t = Some (rep, t')"
        "s' = t'\<lparr> svMetrics := AddGauge ''oim_http_requests_in_flight'' (- 1) (svMetrics t') \<rparr>" using m by auto
    show ?thesis by (rule passed[OF d[unfolded r1(1) Pass] t t'(1) _ _ r1(2)]) (simp_all add: t'(2))
  qed
qed

lemma serve_moves:
  assumes "serve sc E r segs B s = Some (rep, s')"
    and "\<forall>amount reason. bdTreasury B = Some (amount, reason) \<longrightarrow> is_f64 amount"
  shows "server_moves sc s s'"
proof (cases rule: serve_cases[OF assms(1)])
  case 1
  then show ?thesis by (rule server_moves_quiet)
next
  case (2 r' t t')
  have "server_moves sc t t'" by (rule serveMux_moves[OF 2(4) assms(2)])
  then show ?thesis by (rule server_moves_cong[OF _ 2(2,3,5,6)])
qed

lemma server_step_moves: "server_step sc s s' \<Longrightarrow> server_moves sc s s'"
proof (induction rule: server_step.induct)
  case (step_request E r segs B s rep s')
  then show ?case using serve_moves by blast
next
  case (step_nodes_evicted s now)
  show ?case by (rule server_moves_co[of _ _ _ "\<lambda>k. True"])
    (simp_all add: moves_reg reg_run_step[OF step_evict])
next
  case (step_retarget s now ks)
  show ?case using ComputeQueueCapacity_bounds by (intro server_moves_co[where sql = "\<lambda>k. True"])
    (simp_all add: moves_def queue_bounded_def retarget_def Depth_def)
next
  case (step_take s qj q)
  then show ?case by (intro server_moves_co[where sql = "\<lambda>k. True"])
    (auto simp: moves_def queue_bounded_def takeJob_def Depth_def split: list.splits)
next
  case (step_probe s sql envs d now ks)
  show ?case by (rule server_moves_co[where sql = sql]) (simp_all add: withCredits_def probeIdleNodes_moves)
next
  case (step_poll s sql tops answers)
  show ?case using witness_moves_poll[of "pod_identity_of sc"] by (intro server_moves_fed) auto
qed (simp_all add: server_moves_quiet)

section \<open>The invariant holds throughout\<close>

lemma server_ok_moves: "server_moves sc s s' \<Longrightarrow> server_ok sc s \<Longrightarrow> server_ok sc s'"
  unfolding server_moves_def server_ok_def
  using coordinator_ok_moves fed_ok_moves witnessNotes_moves witness_moves_fed by metis

lemma server_run_ok: "server_run sc s s' \<Longrightarrow> server_ok sc s \<Longrightarrow> server_ok sc s'"
  unfolding server_run_def by (induction rule: rtranclp_induct) (auto intro: server_ok_moves server_step_moves)

lemma start_ok:
  assumes "startServer sc0 V = Inr (sc, s)" "\<not> stDb V" "stFedTables V = None"
  shows "server_ok sc s" "entries (fst (coBooks (svCo s))) = []" "snd (coBooks (svCo s)) = []" "svFed s = emptyStore"
proof -
  obtain a where s: "svCo s = startCoordinator V a NewLedger newAPIKeyStore" "svFed s = emptyStore"
    using assms by (auto simp: startServer_def NewStore_def Let_def split: sum.splits option.splits prod.splits)
  have "mem.good (SetOnCredit NewLedger)"
    by (rule mem_good_cong[OF NewLedger_good]) (simp_all add: SetOnCredit_def NewLedger_def mirrored_def)
  moreover have "queue_bounded (NewJobQueue DefaultQueueCapacity)"
    using clampInt_bounds[of MinQueueCapacity MaxQueueCapacity DefaultQueueCapacity]
    by (simp add: queue_bounded_def NewJobQueue_def Depth_def MinQueueCapacity_def MaxQueueCapacity_def)
  moreover have "fed_ok I (freshStore False)" for I by (simp add: fed_ok_def witness_ok_fresh self_ok_fresh)
  moreover have "freshStore False = emptyStore" by (simp add: freshStore_def emptyStore_def)
  ultimately show "server_ok sc s"
    by (simp add: server_ok_def coordinator_ok_def s startCoordinator_def books_ok_def SetOnCredit_def NewLedger_def registry_ok_def
        NewNodeRegistry_def keys_ok_def newAPIKeyStore_def)
  show "entries (fst (coBooks (svCo s))) = []" "snd (coBooks (svCo s)) = []" "svFed s = emptyStore"
    by (simp_all add: s startCoordinator_def SetOnCredit_def NewLedger_def)
qed

section \<open>The log and the callback\<close>

definition in_step :: "server \<Rightarrow> bool" where
  "in_step s \<longleftrightarrow> onCredit (fst (coBooks (svCo s))) \<and> snd (coBooks (svCo s)) = entries (fst (coBooks (svCo s)))"

lemma in_step_moves: "server_moves sc s s' \<Longrightarrow> in_step s \<Longrightarrow> in_step s'"
  by (auto simp: server_moves_def moves_def book_run_def in_step_def)

lemma moves_notes: "moves C c c' \<Longrightarrow> \<exists>es. snd (coBooks c') = snd (coBooks c) @ es"
  by (auto simp: moves_def book_run_def)

text \<open>An event that repeats a ledger entry.\<close>

definition repeats :: "server_config \<Rightarrow> LedgerEvent \<Rightarrow> CreditEntry \<Rightarrow> bool" where
  "repeats sc e entry \<longleftrightarrow> EvPodID e = cfPodID (scConfig sc) \<and> EvUserID e = UserID entry \<and> EvAmount e = Amount entry \<and>
     EvType e = (if Origin entry = CreditOriginStartupGrant then EventStartupGrant else EventEarnedContrib) \<and>
     EvIssuedAt e = cfFormat (scConfig sc) (GrantedOrEarnedAt entry)"

definition mirrors :: "server_config \<Rightarrow> CreditEntry list \<Rightarrow> fed_store \<Rightarrow> bool" where
  "mirrors sc es f \<longleftrightarrow> fedDb f = None \<and> list_all2 (repeats sc) (selfEvents f) es"

text \<open>The key pair can sign, and events encode.\<close>

definition can_sign :: "server_config \<Rightarrow> bool" where
  "can_sign sc \<longleftrightarrow> length (scPrivate sc) = 64 \<and> (\<forall>e. cfEventCodec (scConfig sc) e \<noteq> None)"

text \<open>Ed25519 on a key pair: signatures verify under the public key.\<close>

definition signing_pair :: "crypto \<Rightarrow> bytes \<Rightarrow> bytes \<Rightarrow> bool" where
  "signing_pair C priv pub \<longleftrightarrow> length pub = 32 \<and> length priv = 64 \<and>
     (\<forall>m. ed25519Sign C priv m \<noteq> [] \<and> ed25519Verify C pub m (ed25519Sign C priv m))"

lemma signed_event_verifies:
  assumes "signing_pair (idCrypto I) (idPrivate I) (idPublic I)" "own_event I e"
  shows "VerifySelfConsistent (idCrypto I) (idCodec I) e = Some (idPublic I)"
proof -
  obtain payload where e: "EvPublicKey e = hexEncode (idPublic I)" "eventSignableBytes (idCodec I) e = Some payload"
    "EvSignature e = hexEncode (ed25519Sign (idCrypto I) (idPrivate I) payload)"
    using assms(2) by (auto simp: own_event_def)
  have "idPublic I \<noteq> []" using assms(1) by (auto simp: signing_pair_def)
  then show ?thesis using assms e by (simp add: VerifySelfConsistent_def signing_pair_def VerifySignature_def)
qed

lemma mirrors_credit:
  assumes "can_sign sc" "mirrors sc es f" "self_ok (pod_identity_of sc) f"
  shows "mirrors sc (es @ [e]) (onCreditCallback (cfCrypto (scConfig sc)) (cfEventCodec (scConfig sc)) (cfFormat (scConfig sc))
    (scPrivate sc) (scPublic sc) (cfPodID (scConfig sc)) ok e f)"
proof -
  let ?ev = "creditEventOf (cfFormat (scConfig sc)) (cfPodID (scConfig sc)) (NextSequence f) e"
  define x where "x = ?ev\<lparr> EvPublicKey := hexEncode (scPublic sc), EvSignature := [] \<rparr>"
  obtain payload where p: "cfEventCodec (scConfig sc) x = Some payload" using assms(1) unfolding can_sign_def by blast
  define evt where "evt = x\<lparr> EvSignature := hexEncode (ed25519Sign (cfCrypto (scConfig sc)) (scPrivate sc) payload) \<rparr>"
  have "x\<lparr> EvSignature := [] \<rparr> = x" by (simp add: x_def)
  then have e: "SignEvent (cfCrypto (scConfig sc)) (cfEventCodec (scConfig sc)) ?ev (scPrivate sc) (scPublic sc) = Inr evt"
    using assms(1) p by (simp add: SignEvent_def eventSignableBytes_def SignPayload_def can_sign_def Let_def x_def[symmetric] evt_def)
  have q: "EvSequence evt = nextSeq f" "repeats sc evt e"
    by (simp_all add: evt_def x_def repeats_def creditEventOf_def NextSequence_def)
  have "snd (AppendSelfEvent ok evt f) = f\<lparr> selfEvents := selfEvents f @ [evt], nextSeq := nextSeq f + 1 \<rparr>"
    using q(1) assms(2) by (simp add: AppendSelfEvent_def mirrors_def Let_def)
  then show ?thesis using assms(2) e q(2) by (simp add: onCreditCallback_def appendCredit_def mirrors_def list_all2_appendI)
qed

lemma onCredit_self:
  "self_ok (pod_identity_of sc) f \<Longrightarrow> self_ok (pod_identity_of sc) (onCreditCallback (cfCrypto (scConfig sc)) (cfEventCodec (scConfig sc))
    (cfFormat (scConfig sc)) (scPrivate sc) (scPublic sc) (cfPodID (scConfig sc)) ok e f)"
  using fed_step_self[of "pod_identity_of sc" f "OwnEv ok (NextSequence f) e"]
  by (simp add: onCreditCallback_def pod_identity_of_def)

lemma mirrors_notes:
  "can_sign sc \<Longrightarrow> mirrors sc es f \<Longrightarrow> self_ok (pod_identity_of sc) f \<Longrightarrow> mirrors sc (es @ ns) (witnessNotes sc sql k ns f)"
proof (induction ns arbitrary: es f k)
  case (Cons n ns)
  show ?case using Cons.IH[OF Cons.prems(1) mirrors_credit[OF Cons.prems] onCredit_self[OF Cons.prems(3)]] by simp
qed simp

lemma mirrors_witness: "witness_moves I f f' \<Longrightarrow> mirrors sc es f \<Longrightarrow> mirrors sc es f'"
proof -
  have "mirrors sc es (fed_step I ev f)" if "witnessing ev" "mirrors sc es f" for ev f
  proof (cases ev)
    case (WitnessEv sql evt)
    obtain err g where "StoreWitnessedEvent (idCrypto I) (idCodec I) sql evt f = (err, g)" by (metis surj_pair)
    then show ?thesis using StoreWitnessed_selfs[of "idCrypto I" "idCodec I" sql evt f err g] that(2) by (auto simp: WitnessEv mirrors_def)
  qed (use that(1) in \<open>simp_all add: witnessing_def\<close>)
  then have "list_all witnessing evs \<Longrightarrow> mirrors sc es f \<Longrightarrow> mirrors sc es (fed_run I evs f)" for evs f
    by (induction evs arbitrary: f) (simp_all add: fed_run_def)
  then show "witness_moves I f f' \<Longrightarrow> mirrors sc es f \<Longrightarrow> mirrors sc es f'" by (auto simp: witness_moves_def)
qed

lemma mirrors_moves:
  assumes "server_moves sc s s'" "can_sign sc" "server_ok sc s" "mirrors sc (snd (coBooks (svCo s))) (svFed s)"
  shows "mirrors sc (snd (coBooks (svCo s'))) (svFed s')"
proof -
  obtain f sql where f: "witness_moves (pod_identity_of sc) (svFed s) f" "svFed s' = witnessNotes sc sql 0
      (drop (length (snd (coBooks (svCo s)))) (snd (coBooks (svCo s')))) f" "moves (cfCrypto (scConfig sc)) (svCo s) (svCo s')"
    using assms(1) by (auto simp: server_moves_def)
  obtain es where "snd (coBooks (svCo s')) = snd (coBooks (svCo s)) @ es" using moves_notes[OF f(3)] by blast
  moreover have "self_ok (pod_identity_of sc) f"
    using fed_ok_moves[OF witness_moves_fed[OF f(1)]] assms(3) by (simp add: server_ok_def fed_ok_def)
  ultimately show ?thesis using mirrors_notes[OF assms(2) mirrors_witness[OF f(1) assms(4)]] f(2) by simp
qed

lemma mirrors_run:
  "server_run sc s s' \<Longrightarrow> can_sign sc \<Longrightarrow> server_ok sc s \<Longrightarrow> mirrors sc (snd (coBooks (svCo s))) (svFed s) \<Longrightarrow>
    mirrors sc (snd (coBooks (svCo s'))) (svFed s')"
  unfolding server_run_def
  by (induction rule: rtranclp_induct) (auto intro: mirrors_moves server_step_moves server_run_ok[unfolded server_run_def])

lemma in_step_run: "server_run sc s s' \<Longrightarrow> in_step s \<Longrightarrow> in_step s'"
  unfolding server_run_def by (induction rule: rtranclp_induct) (auto intro: in_step_moves server_step_moves)

section \<open>Requests without a credential\<close>

text \<open>The routes that authenticate in their own handler.\<close>

fun self_authenticating :: "route \<Rightarrow> bool" where
  "self_authenticating (RRefresh x) = True" | "self_authenticating (RAttest x) = True"
| "self_authenticating (RBenchmark x) = True" | "self_authenticating (ROutcome x) = True"
| "self_authenticating (RStartupGrant x) = True" | "self_authenticating (RMintKey x) = True"
| "self_authenticating (RLink x) = True" | "self_authenticating (RUnlink x) = True"
| "self_authenticating r = (r \<in> {RRegister, RClaim, RResult, RSettlementRecord, RAnnounce, RWithdraw, RChallenge, RAuth,
     RAdminChallenge, RAdminAuthenticate})"

lemma hasSuffix_append [simp]: "hasSuffix (a @ s) s" by (auto simp: hasSuffix_iff)

lemma hasPrefix_append [simp]: "hasPrefix (p @ a) p" by (auto simp: hasPrefix_iff)

text \<open>The middleware's test of the path exempts exactly the routes that authenticate themselves.\<close>

lemma gate_wild:
  "b \<in> {''/refresh'', ''/attest-enclave'', ''/benchmark-result'', ''/job-outcome''} \<Longrightarrow> isSelfAuthenticatingWrite ''POST'' (''/nodes/'' @ x @ b)"
  "b \<in> {''/startup-grant'', ''/api-key''} \<Longrightarrow> isSelfAuthenticatingWrite ''POST'' (''/users/'' @ x @ b)"
  "b \<in> {''/link-device'', ''/unlink-device''} \<Longrightarrow> isSelfAuthenticatingWrite ''POST'' (''/account/'' @ x @ b)"
  using hasPrefix_append[of "''/nodes/''" "x @ b"] hasSuffix_append[of "''/nodes/'' @ x" b] hasPrefix_append[of "''/users/''" "x @ b"]
    hasSuffix_append[of "''/users/'' @ x" b] hasPrefix_append[of "''/account/''" "x @ b"] hasSuffix_append[of "''/account/'' @ x" b]
  unfolding isSelfAuthenticatingWrite_def append_assoc by auto

lemma gate_last:
  assumes "isSelfAuthenticatingWrite ''POST'' path"
  shows "last path \<noteq> CHR ''l''"
proof
  assume l: "last path = CHR ''l''"
  have "\<not> hasSuffix path b" if "b \<noteq> []" "last b \<noteq> CHR ''l''" for b using that l by (auto simp: hasSuffix_iff)
  moreover have "path \<notin> {''/nodes/register'', ''/settlement/records'', ''/account/challenge'', ''/account/auth'',
          ''/admin/challenge'', ''/admin/authenticate'', ''/coordination/announce'', ''/coordination/withdraw'',
          ''/jobs/claim'', ''/jobs/result''}" using l by auto
  ultimately show False using assms unfolding isSelfAuthenticatingWrite_def by (simp split: if_splits)
qed

lemma pathText_two: "pathText [a, b] = ''/'' @ a @ ''/'' @ b" "pathText [a, x, b] = ''/'' @ a @ ''/'' @ x @ ''/'' @ b"
  by (simp_all add: pathText_def)

lemma gate_literal:
  "isSelfAuthenticatingWrite ''POST'' ''/nodes/register''" "isSelfAuthenticatingWrite ''POST'' ''/jobs/claim''"
  "isSelfAuthenticatingWrite ''POST'' ''/jobs/result''" "isSelfAuthenticatingWrite ''POST'' ''/settlement/records''"
  "isSelfAuthenticatingWrite ''POST'' ''/coordination/announce''" "isSelfAuthenticatingWrite ''POST'' ''/coordination/withdraw''"
  "isSelfAuthenticatingWrite ''POST'' ''/account/challenge''" "isSelfAuthenticatingWrite ''POST'' ''/account/auth''"
  "isSelfAuthenticatingWrite ''POST'' ''/admin/challenge''" "isSelfAuthenticatingWrite ''POST'' ''/admin/authenticate''"
  "\<not> isSelfAuthenticatingWrite ''POST'' ''/v1/reserve-node''" "\<not> isSelfAuthenticatingWrite ''POST'' ''/v1/chat/completions''"
  "\<not> isSelfAuthenticatingWrite ''POST'' ''/jobs/background/assign''" "\<not> isSelfAuthenticatingWrite ''POST'' ''/jobs/background/cycle''"
  "\<not> isSelfAuthenticatingWrite ''POST'' ''/jobs/background/execute''" "\<not> isSelfAuthenticatingWrite ''POST'' ''/admin/treasury/credit''"
  by code_simp+

text \<open>The middleware's test of the path exempts exactly the routes that authenticate themselves.\<close>

lemma gate_covers_two:
  assumes "postRoute [a, b] = Some route"
  shows "isSelfAuthenticatingWrite ''POST'' (pathText [a, b]) \<longleftrightarrow> self_authenticating route"
  using assms gate_literal unfolding postRoute_def pathText_two by (auto split: if_splits)

lemma gate_covers_three:
  assumes "postRoute [a, x, b] = Some route"
  shows "isSelfAuthenticatingWrite ''POST'' (pathText [a, x, b]) \<longleftrightarrow> self_authenticating route"
proof (cases "a = ''nodes'' \<and> b = ''warm-model''")
  case True
  then have "\<not> isSelfAuthenticatingWrite ''POST'' (pathText [a, x, b])" using gate_last[of "pathText [a, x, b]"] by (auto simp: pathText_two)
  then show ?thesis using assms True by (auto simp: postRoute_def split: if_splits)
next
  case False
  then show ?thesis using assms gate_literal gate_wild[of "''/'' @ b" x]
    unfolding postRoute_def pathText_two by (auto split: if_splits)
qed

lemma gate_covers_routes:
  assumes "postRoute segs = Some route"
  shows "isSelfAuthenticatingWrite ''POST'' (pathText segs) \<longleftrightarrow> self_authenticating route"
proof -
  have "(\<exists>a b. segs = [a, b]) \<or> (\<exists>a x b. segs = [a, x, b])" using assms by (auto simp: postRoute_def split: list.splits)
  then show ?thesis using assms gate_covers_two gate_covers_three by blast
qed

definition frame :: "bool \<Rightarrow> bool \<Rightarrow> bool \<Rightarrow> coordinator \<Rightarrow> coordinator \<Rightarrow> bool" where
  "frame books keys nodes c c' \<longleftrightarrow> (coBooks c' \<noteq> coBooks c \<longrightarrow> books) \<and> (coKeys c' \<noteq> coKeys c \<longrightarrow> keys) \<and>
     (coReg c' \<noteq> coReg c \<longrightarrow> nodes) \<and> coQueue c' = coQueue c \<and> coAssign c' = coAssign c \<and> coReservations c' = coReservations c"

lemma frame_refl [simp]: "frame b k n c c" by (simp add: frame_def)

lemma frame_admin: "frame b k n c (snd (isAdmin cf w r c))"
  by (simp add: isAdmin_def frame_def split: prod.split option.split)

lemma frame_controls: "frame b k n c (snd (controls cf w r u c))"
  by (simp add: controls_def frame_def split: prod.split option.split)

lemmas handler_defs = handleClaim_def handleResult_def handleAttest_def handleBenchmark_def handleOutcome_def
  handleSettlementRecord_def handleAnnounce_def handleWithdraw_def handleChallenge_def handleAccountAuth_def
  handleLinkDevice_def handleUnlinkDevice_def handleAdminChallenge_def handleAdminAuthenticate_def

lemma frame_nodes:
  "frame False False True c (snd (handleRegister cf w b c))" "frame False False True c (snd (handleRefresh cf w x b2 c))"
  "frame False False True c (snd (handleClaim cf w b3 c))" "frame False False True c (snd (handleAttest cf w x b4 c))"
  "frame False False False c (snd (handleResult cf w b5 c))" "frame False False False c (snd (handleBenchmark cf w x b6 c))"
  "frame False False False c (snd (handleOutcome cf w x b7 c))" "frame False False False c (snd (handleSettlementRecord b8 c))"
  "frame False False False c (snd (handleAnnounce cf w b9 c))" "frame False False False c (snd (handleWithdraw b10 c))"
  by (simp_all add: frame_def handleRegister_def handleRefresh_def handler_defs Let_def split: option.split prod.split sum.split)

lemma frame_users:
  "frame False False False c (snd (handleChallenge w b c))" "frame False True False c (snd (handleAccountAuth cf w b2 c))"
  "frame False False False c (snd (handleLinkDevice cf x b3 c))" "frame False False False c (snd (handleUnlinkDevice cf x b4 c))"
  "frame False False False c (snd (handleAdminChallenge cf w c))" "frame False False False c (snd (handleAdminAuthenticate cf w b5 c))"
  "frame True False False c (snd (handleStartupGrant cf w r x b6 c))"
  by (simp_all add: frame_def handler_defs handleStartupGrant_def Let_def split: option.split prod.split sum.split grant_error.split)

lemma frame_mint: "frame False True False c (snd (handleMintKey cf w r u c))"
proof -
  define d where "d = (if keyExists u (coKeys c) then controls cf w r u c else (True, c))"
  have "frame False False False c (snd d)" using frame_controls by (simp add: d_def)
  then show ?thesis unfolding handleMintKey_def d_def[symmetric]
    by (auto simp: frame_def split: prod.splits sum.splits)
qed

lemma frame_reads:
  "frame False False False c (snd (handleReconcile cf w r c))" "frame False False False c (snd (handleTreasury cf w r c))"
  "frame False False False c (snd (handleAuditLog cf w r limit c))" "frame False False False c (snd (handleDeployments cf path w r file c))"
  using frame_admin[of False False False c cf w r]
  by (auto simp: handleReconcile_def handleTreasury_def handleAuditLog_def handleDeployments_def split: prod.splits)

lemma frame_monitor:
  "frame False False False c (snd (nodesBody w ds c))" "frame False False False c (snd (handleNodes w ds c))"
  "frame False False False c (snd (scrapeGauges cf w ds us c mx))"
  by (simp_all add: frame_def nodesBody_def handleNodes_def scrapeGauges_def Let_def split: prod.split)

lemma frame_trans: "frame b k n a c \<Longrightarrow> frame b k n c d \<Longrightarrow> frame b k n a d"
  by (auto simp: frame_def)

lemma frame_stream: "frame False False False c (snd (handleNodesStream ticks c))"
proof (induction ticks c rule: handleNodesStream.induct)
  case (2 w ds ticks c)
  obtain body c1 where b: "nodesBody w ds c = (body, c1)" by (metis surj_pair)
  then have "frame False False False c c1" using frame_monitor(1)[of c w ds] by simp
  then show ?case using 2[OF b[symmetric] refl] b frame_trans by (auto split: prod.splits)
qed simp

lemma frameD: "frame b k n c (snd p) \<Longrightarrow> p = (rep, c') \<Longrightarrow> frame b k n c c'"
  by simp

lemmas frames = frame_nodes[THEN frameD] frame_users[THEN frameD] frame_mint[THEN frameD] frame_reads[THEN frameD]
  frame_monitor[THEN frameD] frame_stream[THEN frameD]

fun grants_money :: "route \<Rightarrow> bool" where
  "grants_money (RStartupGrant x) = True" | "grants_money r = False"

fun mints_key :: "route \<Rightarrow> bool" where
  "mints_key (RMintKey x) = True" | "mints_key r = (r = RAuth)"

fun speaks_for_node :: "route \<Rightarrow> bool" where
  "speaks_for_node (RRefresh x) = True" | "speaks_for_node (RAttest x) = True"
| "speaks_for_node r = (r = RRegister \<or> r = RClaim)"

fun reading :: "route \<Rightarrow> bool" where
  "reading (RVerifyTier x) = True" | "reading (RBalance x) = True" | "reading (RKeyExists x) = True" | "reading (RAudit x) = True"
| "reading r = (r \<in> {RMetrics, RNodes, RHealth, RIndex, RStream, RIdentity, RLedgerEvents, RPrometheus, RReconcile, RTreasury,
     RAuditLog, RDeployments})"

lemma getRoute_reading: "reading (getRoute segs)"
  by (auto simp: getRoute_def split: list.split)

lemma coHandle_frame:
  assumes "coHandle sc E r B route c = Some (rep, c')" "self_authenticating route \<or> reading route"
  shows "frame (grants_money route) (mints_key route) (speaks_for_node route) c c'"
  using assms by (cases route) (auto simp: coHandle_def Let_def split: prod.splits dest: frames)

lemma anonymous_frame:
  assumes "handleRoute sc E r B route s = Some (rep, s')" "self_authenticating route \<or> reading route"
  shows "frame (grants_money route) (mints_key route) (speaks_for_node route) (svCo s) (svCo s')"
proof -
  consider (audit) x where "route = RAudit x" | (scrape) "route = RPrometheus" | (read) "s' = s"
    | (handler) c where "coHandle sc E r B route (svCo s) = Some (rep, c)" "svCo s' = c"
    using assms(1) by (cases route) (auto simp: handleRoute_def Let_def onCoordinator_def)
  then show ?thesis
  proof cases
    case scrape
    then show ?thesis using assms(1) frame_monitor(3)[THEN frameD]
      by (auto simp: handleRoute_def handlePrometheus_def Let_def split: prod.splits)
  qed (use assms coHandle_frame in \<open>auto simp: handleRoute_def Let_def split: prod.splits\<close>)
qed

lemma frame_coAdmin: "c = d \<or> (\<exists>a. c = d\<lparr> coAdmin := a \<rparr>) \<Longrightarrow> frame b k n c c' \<Longrightarrow> frame b k n d c'"
  by (auto simp: frame_def)

text \<open>What the door lets through without a credential.\<close>

lemma frontDoor_anonymous:
  assumes "frontDoor L nets C adminKey keys now r (limiter, st) = (Pass r', limiter', st')"
    and "adminKey \<noteq> []" "bearer r = []"
  shows "r' = r \<and> (Method r = ''GET'' \<or> Method r = ''OPTIONS'' \<or> isSelfAuthenticatingWrite (Method r) (URLPath r))"
proof -
  obtain g l where g: "rateLimitMiddleware L nets now r limiter = (g, l)" by fastforce
  then have r: "g = Pass r \<or> (\<exists>code. g = Refuse code)" by (auto simp: rateLimitMiddleware_def Let_def split: if_splits prod.splits)
  then have "authMiddleware C adminKey keys now r st = (Pass r', st')"
    using assms(1,2) g by (auto simp: frontDoor_def split: prod.splits)
  then show ?thesis using assms(3) by (cases st) (auto simp: authMiddleware_def split: if_splits)
qed

lemma isSelf_POST: "isSelfAuthenticatingWrite m path \<Longrightarrow> m = ''POST''"
  by (simp add: isSelfAuthenticatingWrite_def split: if_splits)

lemma anonymous_serve:
  assumes "serve sc E r segs B s = Some (rep, s')" "cfApiKey (scConfig sc) \<noteq> []" "bearer r = []"
  shows "svCo s' = svCo s \<or> (\<exists>a. svCo s' = (svCo s)\<lparr> coAdmin := a \<rparr>) \<or>
    (\<exists>route. routeOf (Method r) segs = Some route \<and>
       frame (grants_money route) (mints_key route) (speaks_for_node route) (svCo s) (svCo s'))"
proof (cases rule: serve_cases[OF assms(1)])
  case (2 r' t t')
  have b: "bearer (r\<lparr> URLPath := pathText segs \<rparr>) = []" using assms(3) by (simp add: bearer_def)
  note d = frontDoor_anonymous[OF 2(1) assms(2) b]
  then have m: "Method r' = Method r" "Method r = ''GET'' \<or> Method r = ''POST'' \<and> isSelfAuthenticatingWrite ''POST'' (pathText segs)"
    using 2(7) isSelf_POST by auto
  show ?thesis
  proof (cases "t' = t")
    case True
    then show ?thesis using 2 by auto
  next
    case False
    then obtain route where r: "routeOf (Method r) segs = Some route" "handleRoute sc E r' B route t = Some (rep, t')"
      using 2(4) m(1) by (auto simp: serveMux_def split: if_splits option.splits)
    have "self_authenticating route \<or> reading route"
      using r(1) m(2) gate_covers_routes getRoute_reading by (auto simp: routeOf_def)
    then show ?thesis using anonymous_frame[OF r(2)] frame_coAdmin[OF 2(2)] 2(5) r(1) by auto
  qed
qed auto

text \<open>The paths of the routes that may change the state without a credential.\<close>

fun open_path :: "route \<Rightarrow> string list" where
  "open_path (RRefresh x) = [''nodes'', x, ''refresh'']" | "open_path (RAttest x) = [''nodes'', x, ''attest-enclave'']"
| "open_path (RStartupGrant x) = [''users'', x, ''startup-grant'']" | "open_path (RMintKey x) = [''users'', x, ''api-key'']"
| "open_path r = (if r = RRegister then [''nodes'', ''register''] else if r = RClaim then [''jobs'', ''claim'']
     else [''account'', ''auth''])"

definition open_route :: "route \<Rightarrow> bool" where
  "open_route route \<longleftrightarrow> grants_money route \<or> mints_key route \<or> speaks_for_node route"

lemma open_two: "postRoute [a, b] = Some route \<Longrightarrow> open_route route \<Longrightarrow> [a, b] = open_path route"
  unfolding postRoute_def open_route_def by (simp split: if_splits)

lemma open_three: "postRoute [a, x, b] = Some route \<Longrightarrow> open_route route \<Longrightarrow> [a, x, b] = open_path route"
  unfolding postRoute_def open_route_def by (simp split: if_splits) auto

lemma reading_not_open: "reading route \<Longrightarrow> \<not> open_route route"
  by (cases route) (simp_all add: open_route_def)

lemma delete_not_open: "deleteRoute segs = Some route \<Longrightarrow> \<not> open_route route"
  by (auto simp: deleteRoute_def open_route_def split: if_splits list.splits)

lemma open_routes:
  assumes "routeOf m segs = Some route" "open_route route"
  shows "m = ''POST'' \<and> segs = open_path route"
proof -
  have p: "m = ''POST'' \<and> postRoute segs = Some route"
    using assms getRoute_reading[of segs] reading_not_open delete_not_open by (auto simp: routeOf_def split: if_splits)
  then have "(\<exists>a b. segs = [a, b]) \<or> (\<exists>a x b. segs = [a, x, b])" by (auto simp: postRoute_def split: list.splits)
  then show ?thesis using p assms(2) open_two open_three by blast
qed

lemma open_paths:
  "grants_money route \<Longrightarrow> \<exists>u. open_path route = [''users'', u, ''startup-grant'']"
  "mints_key route \<Longrightarrow> open_path route = [''account'', ''auth''] \<or> (\<exists>u. open_path route = [''users'', u, ''api-key''])"
  "speaks_for_node route \<Longrightarrow> open_path route = [''nodes'', ''register''] \<or> open_path route = [''jobs'', ''claim''] \<or>
     (\<exists>x. open_path route = [''nodes'', x, ''refresh''] \<or> open_path route = [''nodes'', x, ''attest-enclave''])"
  by (cases route; simp)+

section \<open>A sample server\<close>

definition sampleConfig :: server_config where
  "sampleConfig = \<lparr> scConfig = plainConfig\<lparr> cfApiKey := ''operator'', cfCrypto := tagCrypto \<rparr>, scPrivate = [], scPublic = [],
     scOrigins = [], scHistoryPath = [] \<rparr>"

definition sampleStart :: start_env where
  "sampleStart = \<lparr> stProxies = [], stAdminKey = [], stDb = False, stLedgerOk = (True, True, True, True, True), stLedgerFile = None,
     stKeyFault = None, stKeyTable = Map.empty, stKeyRows = [], stIdentity = Some (replicate 64 8, replicate 32 9), stFedFault = None,
     stFedTables = None, stTreasuryPerMin = 5, stGrantsPerHour = 3, stRPS = 0, stBurst = 40, stQuotaPerHour = 600 \<rparr>"

definition sampleServer :: "server_config \<times> server" where
  "sampleServer = projr (startServer sampleConfig sampleStart)"

definition sampleSurround :: surround where
  "sampleSurround = \<lparr> evWorld = obligingWorld, evDoor = 0,
     evDecomp = \<lparr> deTables = asciiText, deEncoder = (\<lambda>j. None), dePolls = (\<lambda>k. \<lparr> pollNow = int, pollDone = (\<lambda>i. {}) \<rparr>) \<rparr>,
     evPeer = \<lparr> peerIdentity = GetFailed, peerEvents = (\<lambda>n. GetFailed), peerBalance = GetFailed \<rparr>, evFedSql = (\<lambda>i j. True),
     evNoteSql = (\<lambda>k. True), evParts = [], evTicks = [], evNames = (\<lambda>m. ([], [])), evHistory = ((\<lambda>s. None), NoFile) \<rparr>"

definition samplePayload :: payload where
  "samplePayload = \<lparr> bdRegister = None, bdRefresh = None, bdString = None, bdClaim = None, bdResult = None, bdAttest = None,
     bdReserve = None, bdChat = None, bdJob = None, bdExecute = None, bdBenchmark = None, bdOutcome = None, bdTolerance = None,
     bdRecord = None, bdNonce = EmptyBody, bdParticipant = None, bdAuth = None, bdLink = None, bdSince = None, bdPeer = [],
     bdAdminAuth = None, bdTreasury = None, bdLimit = None \<rparr>"

text \<open>A chat request without a credential, which the door refuses.\<close>

definition strayRequest :: request where
  "strayRequest = \<lparr> Method = ''POST'', URLPath = [], Header = (\<lambda>h. []), RemoteAddr = ''P'' \<rparr>"

definition chatPath :: "string list" where "chatPath = [''v1'', ''chat'', ''completions'']"

lemma sample_start: "startServer sampleConfig sampleStart = Inr sampleServer"
  by (simp add: sampleServer_def startServer_def sampleConfig_def sampleStart_def NewAuthenticator_def NewStore_def Let_def)

lemma sample_config: "cfApiKey (scConfig (fst sampleServer)) = ''operator''" "scOrigins (fst sampleServer) = []"
  "cfProxyNets (scConfig (fst sampleServer)) = []" "cfNet (scConfig (fst sampleServer)) = cfNet plainConfig"
  "cfCrypto (scConfig (fst sampleServer)) = tagCrypto" "scPublic (fst sampleServer) = replicate 32 9" "scPrivate (fst sampleServer) = replicate 64 8"
  "cfEventCodec (scConfig (fst sampleServer)) = cfEventCodec plainConfig" "svIPLimiter (snd sampleServer) = NewRateLimiter 0 40"
  by (simp_all add: sampleServer_def startServer_def sampleConfig_def sampleStart_def NewAuthenticator_def NewStore_def Let_def)

lemma sample_refused: "\<exists>s'. serve (fst sampleServer) sampleSurround strayRequest chatPath samplePayload (snd sampleServer) = Some ((401, NoContent), s')"
proof -
  let ?r = "strayRequest\<lparr> URLPath := pathText chatPath \<rparr>"
  have p: "pathText chatPath = ''/v1/chat/completions''" by (simp add: pathText_def chatPath_def)
  have l: "rateLimitMiddleware L nets 0 ?r (NewRateLimiter 0 40) = (Pass ?r, NewRateLimiter 0 40)" for L nets
    by (simp add: rateLimitMiddleware_def AllowKey_def NewRateLimiter_def Let_def)
  have "authMiddleware tagCrypto ''operator'' ks 0 ?r st = (Refuse 401, st)" for ks st
    using gate_literal(12) by (cases st) (simp add: authMiddleware_def strayRequest_def p bearer_def trimPrefix_def hasPrefix_def)
  then have "frontDoor (cfNet plainConfig) [] tagCrypto ''operator'' ks 0 ?r (NewRateLimiter 0 40, st) = (Refuse 401, NewRateLimiter 0 40, st)" for ks st
    by (simp add: frontDoor_def l)
  then show ?thesis
    by (simp add: serve_def Let_def sample_config corsMiddleware_def sampleSurround_def) (simp add: strayRequest_def)
qed

section \<open>Properties\<close>

text \<open>
  C1. The state of the server is well formed in every moment of its life. From a start
  without files, through any requests and any background work, with any failures of their
  database calls: every registered node's key hashes to its id and every attested node has a
  proof signed by both its keys; no account is overdrawn beyond rounding and no user has two
  startup grants; every API key names exactly one user and that user's key; and the queue
  never holds more than five hundred jobs.
\<close>

theorem server_well_formed:
  assumes "startServer sc0 V = Inr (sc, s0)" "\<not> stDb V" "stFedTables V = None" "server_run sc s0 s"
  shows "(\<forall>nid e. coReg (svCo s) nid = Some e \<longrightarrow> NodeIDFromPubKey (cfCrypto (scConfig sc)) (nodeEntry.publicKey e) = nid \<and>
      (enclaveAttested e \<longrightarrow> attestation_proof (cfCrypto (scConfig sc)) nid (nodeEntry.publicKey e) (enclavePublicKey e))) \<and>
    (\<forall>u g e d. accountTotals (fst (coBooks (svCo s))) u = (g, e, d) \<longrightarrow> 0 \<le> d \<and> d \<le> fadd g e * (1 + 1 / 2 ^ 51)) \<and>
    (\<forall>u. grantCount (entries (fst (coBooks (svCo s)))) u \<le> 1) \<and>
    (\<forall>h u. byKey (coKeys (svCo s)) h = Some u \<longrightarrow> byUser (coKeys (svCo s)) u = Some h) \<and>
    Depth (coQueue (svCo s)) \<le> 500"
proof -
  have ok: "coordinator_ok (cfCrypto (scConfig sc)) (svCo s)"
    using server_run_ok[OF assms(4) start_ok(1)[OF assms(1-3)]] by (simp add: server_ok_def)
  have "mem.good (fst (coBooks (svCo s)))" using ok by (simp add: coordinator_ok_def books_ok_def)
  then have "sound (accountTotals (fst (coBooks (svCo s))) u)" "grantCount (entries (fst (coBooks (svCo s)))) u \<le> 1" for u
    by (simp_all add: mem.good_def)
  moreover have "0 \<le> d \<and> d \<le> fadd g e * (1 + 1 / 2 ^ 51)" if "sound (g, e, d)" for g e d
    using that by (simp add: sound_def)
  moreover have "Depth (coQueue (svCo s)) \<le> 500" using ok by (simp add: coordinator_ok_def queue_bounded_def MaxQueueCapacity_def)
  moreover have "entry_ok (cfCrypto (scConfig sc)) nid e" if "coReg (svCo s) nid = Some e" for nid e
    using ok that registry_okD[of "cfCrypto (scConfig sc)" "coReg (svCo s)" nid e] by (simp add: coordinator_ok_def)
  ultimately show ?thesis using ok by (simp add: coordinator_ok_def keys_ok_def entry_ok_def) metis
qed

theorem server_well_formed_witness:
  "\<exists>s. server_run (fst sampleServer) (snd sampleServer) s \<and> Depth (coQueue (svCo s)) \<le> 500 \<and>
     (\<forall>u. grantCount (entries (fst (coBooks (svCo s)))) u \<le> 1)"
proof -
  obtain s where "serve (fst sampleServer) sampleSurround strayRequest chatPath samplePayload (snd sampleServer) = Some ((401, NoContent), s)"
    using sample_refused by blast
  then have "server_run (fst sampleServer) (snd sampleServer) s"
    unfolding server_run_def by (intro r_into_rtranclp step_request) (auto simp: samplePayload_def)
  moreover have "\<not> stDb sampleStart" "stFedTables sampleStart = None" by (simp_all add: sampleStart_def)
  ultimately show ?thesis
    using server_well_formed[of sampleConfig sampleStart "fst sampleServer" "snd sampleServer" s] by (simp add: sample_start) blast
qed



text \<open>
  C3. A request without a credential changes little. On a server with an operator key, a
  request that carries no Authorization header leaves the job queue, the background
  assignments and the reservations as they are; it adds to the ledger only by a startup grant,
  stores or replaces an API key only at the key and login endpoints, and touches the node
  registry only where a node registers, refreshes, claims a job or attests its enclave. The
  paths the middleware exempts are exactly those of handlers that authenticate themselves.
\<close>

theorem anonymous_requests_limited:
  assumes "serve sc E r segs B s = Some (rep, s')" "cfApiKey (scConfig sc) \<noteq> []" "bearer r = []"
  shows "(coBooks (svCo s') \<noteq> coBooks (svCo s) \<longrightarrow> Method r = ''POST'' \<and> (\<exists>u. segs = [''users'', u, ''startup-grant''])) \<and>
    (coKeys (svCo s') \<noteq> coKeys (svCo s) \<longrightarrow>
       Method r = ''POST'' \<and> (segs = [''account'', ''auth''] \<or> (\<exists>u. segs = [''users'', u, ''api-key'']))) \<and>
    (coReg (svCo s') \<noteq> coReg (svCo s) \<longrightarrow> Method r = ''POST'' \<and> (segs = [''nodes'', ''register''] \<or> segs = [''jobs'', ''claim''] \<or>
       (\<exists>x. segs = [''nodes'', x, ''refresh''] \<or> segs = [''nodes'', x, ''attest-enclave'']))) \<and>
    coQueue (svCo s') = coQueue (svCo s) \<and> coAssign (svCo s') = coAssign (svCo s) \<and>
    coReservations (svCo s') = coReservations (svCo s)"
  using anonymous_serve[OF assms]
proof (elim disjE exE conjE)
  fix route
  assume r: "routeOf (Method r) segs = Some route"
    and f: "frame (grants_money route) (mints_key route) (speaks_for_node route) (svCo s) (svCo s')"
  have "Method r = ''POST'' \<and> segs = open_path route" if "grants_money route \<or> mints_key route \<or> speaks_for_node route"
    using open_routes[OF r] that by (simp add: open_route_def)
  then show ?thesis using f open_paths[of route] by (simp add: frame_def)
qed auto

theorem anonymous_requests_limited_witness:
  "\<exists>s'. serve (fst sampleServer) sampleSurround strayRequest chatPath samplePayload (snd sampleServer) = Some ((401, NoContent), s') \<and>
     coBooks (svCo s') = coBooks (svCo (snd sampleServer)) \<and> coQueue (svCo s') = coQueue (svCo (snd sampleServer))"
proof -
  obtain s' where s': "serve (fst sampleServer) sampleSurround strayRequest chatPath samplePayload (snd sampleServer) = Some ((401, NoContent), s')"
    using sample_refused by blast
  have "bearer strayRequest = []" by (simp add: bearer_def strayRequest_def trimPrefix_def hasPrefix_def)
  from anonymous_requests_limited[OF s' _ this] s' show ?thesis by (auto simp: sample_config chatPath_def)
qed

end
