(* ===== verification/Directory.thy ===== *)
theory Directory
  imports Access Federation Registry
begin

text \<open>
  The directory, where pods announce themselves and clients find them: the pod store, the pins
  that bind a pod id to a key and the propagation to the peer directory of
  \<open>internal/directory\<close>, the handlers of \<open>cmd/directory/main.go\<close>, the client side
  \<open>CentralizedResolver\<close>, and the report that a coordinator sends. Requests are handled one at
  a time, on cleaned paths; a pins file that holds the JSON value null is left out.
\<close>

section \<open>The pod store\<close>

record podEntry =
  podDigestOf :: PodHealthDigest
  podLastSeen :: time

record PodStore =
  podEntries :: "pod_id \<rightharpoonup> podEntry"
  podTTL :: duration

definition NewPodStore :: "duration \<Rightarrow> PodStore" where
  "NewPodStore ttl = \<lparr> podEntries = Map.empty, podTTL = ttl \<rparr>"

definition Upsert :: "time \<Rightarrow> PodHealthDigest \<Rightarrow> PodStore \<Rightarrow> PodStore" where
  "Upsert now d s = s\<lparr> podEntries := (podEntries s)(PodID d \<mapsto> \<lparr> podDigestOf = d, podLastSeen = now \<rparr>) \<rparr>"

text \<open>The entries a loop over the store keeps; the clock readings of one loop are taken as one.\<close>

definition livePods :: "time \<Rightarrow> pod_id list \<Rightarrow> PodStore \<Rightarrow> PodHealthDigest list" where
  "livePods now ks s = concat (map (\<lambda>p. case podEntries s p of None \<Rightarrow> []
     | Some e \<Rightarrow> if timeSub now (podLastSeen e) > podTTL s then [] else [podDigestOf e]) ks)"

definition QueryForModel :: "time \<Rightarrow> pod_id list \<Rightarrow> string \<Rightarrow> PodStore \<Rightarrow> pod_id list" where
  "QueryForModel now ks modelID s = map PodID (filter (\<lambda>d. modelID \<in> set (ServableModelIDs d)) (livePods now ks s))"

definition AllPodIDs :: "time \<Rightarrow> pod_id list \<Rightarrow> PodStore \<Rightarrow> pod_id list" where
  "AllPodIDs now ks s = map PodID (livePods now ks s)"

definition AllPods :: "time \<Rightarrow> pod_id list \<Rightarrow> PodStore \<Rightarrow> PodHealthDigest list" where
  "AllPods now ks s = livePods now ks s"

definition LiveCount :: "time \<Rightarrow> pod_id list \<Rightarrow> PodStore \<Rightarrow> nat" where
  "LiveCount now ks s = length (livePods now ks s)"

section \<open>Pins\<close>

text \<open>
  The file of the pins: missing, the map it decodes to, or text that does not parse.
  \<open>os.WriteFile\<close> may fail before or after it has truncated the file.
\<close>

datatype pin_file = NoPinFile | PinsOnDisk "pod_id \<rightharpoonup> string" | SpoiledPins

datatype pin_write = Written | Unwritten | Torn

record PinStore =
  podPins :: "pod_id \<rightharpoonup> string"
  pinStrict :: bool
  pinPath :: string
  pinDisk :: pin_file

datatype dir_error = PinsUnreadable | PinsUnparsed | BadDigestSignature pod_id | PinMismatch pod_id | NotAllowlisted pod_id
  | DigestUnparsed | BadProxySpec string

definition NewPinStore :: "bool \<Rightarrow> string \<Rightarrow> pin_file \<Rightarrow> dir_error + PinStore" where
  "NewPinStore readable path file =
     (let s = \<lparr> podPins = Map.empty, pinStrict = False, pinPath = path, pinDisk = file \<rparr>
      in if path = [] then Inr s
         else case file of
             NoPinFile \<Rightarrow> Inr s
           | SpoiledPins \<Rightarrow> Inl (if readable then PinsUnparsed else PinsUnreadable)
           | PinsOnDisk m \<Rightarrow> if readable then Inr (s\<lparr> podPins := m \<rparr>) else Inl PinsUnreadable)"

definition NewAllowlistPinStore :: "bool \<Rightarrow> pin_file \<Rightarrow> dir_error + PinStore" where
  "NewAllowlistPinStore readable file = (case file of
       PinsOnDisk m \<Rightarrow> if readable then Inr \<lparr> podPins = m, pinStrict = True, pinPath = [], pinDisk = NoPinFile \<rparr> else Inl PinsUnreadable
     | SpoiledPins \<Rightarrow> Inl (if readable then PinsUnparsed else PinsUnreadable)
     | NoPinFile \<Rightarrow> Inl PinsUnreadable)"

definition savePins :: "pin_write \<Rightarrow> PinStore \<Rightarrow> PinStore" where
  "savePins w s =
     (if pinPath s = [] \<or> pinStrict s then s
      else case w of Written \<Rightarrow> s\<lparr> pinDisk := PinsOnDisk (podPins s) \<rparr> | Unwritten \<Rightarrow> s | Torn \<Rightarrow> s\<lparr> pinDisk := SpoiledPins \<rparr>)"

definition VerifyPod :: "crypto \<Rightarrow> pin_write \<Rightarrow> PodHealthDigest \<Rightarrow> PinStore \<Rightarrow> dir_error option \<times> PinStore" where
  "VerifyPod C w digest s = (case VerifyPodHealthDigestSignature C digest of
       None \<Rightarrow> (Some (BadDigestSignature (PodID digest)), s)
     | Some pub \<Rightarrow> (case podPins s (PodID digest) of
           Some pinned \<Rightarrow> if pinned \<noteq> hexEncode pub then (Some (PinMismatch (PodID digest)), s) else (None, s)
         | None \<Rightarrow>
             if pinStrict s then (Some (NotAllowlisted (PodID digest)), s)
             else (None, savePins w (s\<lparr> podPins := (podPins s)(PodID digest \<mapsto> hexEncode pub) \<rparr>))))"

section \<open>The process\<close>

record directory_config =
  dcPeer :: string
  dcOrigins :: "string list"
  dcProxies :: "IPNet list"
  dcNet :: netlib
  dcCrypto :: crypto

record directory =
  drStore :: PodStore
  drPins :: PinStore
  drLimiter :: RateLimiter

datatype dir_content = DirFailure dir_error | PodRegistered pod_id | DigestStored | PodList "pod_id list"
  | DirHealth nat string | Topology "PodHealthDigest list" nat | DirIndex nat | DirNothing

text \<open>The digest is stored and, when there is a peer, sent to it once.\<close>

definition ReceivePodDigest :: "string \<Rightarrow> time \<Rightarrow> PodHealthDigest \<Rightarrow> PodStore \<Rightarrow> PodStore \<times> PodHealthDigest list" where
  "ReceivePodDigest peerURL now d s = (Upsert now d s, if peerURL \<noteq> [] then [d] else [])"

definition handlePodRegister :: "directory_config \<Rightarrow> pin_write \<Rightarrow> time \<Rightarrow> PodHealthDigest option \<Rightarrow> directory \<Rightarrow>
    (nat \<times> dir_content) \<times> directory \<times> PodHealthDigest list" where
  "handlePodRegister dc w now body dr = (case body of
       None \<Rightarrow> ((400, DirFailure DigestUnparsed), dr, [])
     | Some digest \<Rightarrow> (case VerifyPod (dcCrypto dc) w digest (drPins dr) of
           (Some e, p) \<Rightarrow> ((401, DirFailure e), dr\<lparr> drPins := p \<rparr>, [])
         | (None, p) \<Rightarrow> (case ReceivePodDigest (dcPeer dc) now digest (drStore dr) of (s, sent) \<Rightarrow>
               ((200, PodRegistered (PodID digest)), dr\<lparr> drPins := p, drStore := s \<rparr>, sent))))"

definition handleGossipDigest :: "directory_config \<Rightarrow> pin_write \<Rightarrow> time \<Rightarrow> PodHealthDigest option \<Rightarrow> directory \<Rightarrow>
    (nat \<times> dir_content) \<times> directory" where
  "handleGossipDigest dc w now body dr = (case body of
       None \<Rightarrow> ((400, DirFailure DigestUnparsed), dr)
     | Some digest \<Rightarrow> (case VerifyPod (dcCrypto dc) w digest (drPins dr) of
           (Some e, p) \<Rightarrow> ((401, DirFailure e), dr\<lparr> drPins := p \<rparr>)
         | (None, p) \<Rightarrow> ((200, DigestStored), dr\<lparr> drPins := p, drStore := Upsert now digest (drStore dr) \<rparr>)))"

definition handlePods :: "time \<Rightarrow> pod_id list \<Rightarrow> string \<Rightarrow> directory \<Rightarrow> nat \<times> dir_content" where
  "handlePods now ks modelID dr =
     (200, PodList (if modelID \<noteq> [] then QueryForModel now ks modelID (drStore dr) else AllPodIDs now ks (drStore dr)))"

definition handleDirHealth :: "directory_config \<Rightarrow> time \<Rightarrow> pod_id list \<Rightarrow> directory \<Rightarrow> nat \<times> dir_content" where
  "handleDirHealth dc now ks dr = (200, DirHealth (LiveCount now ks (drStore dr)) (dcPeer dc))"

definition handleTopology :: "time \<Rightarrow> pod_id list \<Rightarrow> directory \<Rightarrow> nat \<times> dir_content" where
  "handleTopology now ks dr = (let pods = AllPods now ks (drStore dr) in (200, Topology pods (length pods)))"

definition handleDirIndex :: "time \<Rightarrow> pod_id list \<Rightarrow> directory \<Rightarrow> nat \<times> dir_content" where
  "handleDirIndex now ks dr = (200, DirIndex (LiveCount now ks (drStore dr)))"

text \<open>The chain in front of the handlers; here an origin must be listed literally.\<close>

definition dirCors :: "string list \<Rightarrow> request \<Rightarrow> (string \<times> string) list \<times> request gate" where
  "dirCors allowedOrigins r =
     (let origin = Header r ''Origin'';
          allow = (if allowedOrigins = [] then [(''Access-Control-Allow-Origin'', ''*'')]
                   else if origin \<noteq> [] \<and> origin \<in> set allowedOrigins
                   then [(''Access-Control-Allow-Origin'', origin), (''Vary'', ''Origin'')]
                   else [])
      in (allow @ [(''Access-Control-Allow-Methods'', ''GET, POST, DELETE, OPTIONS''), (''Access-Control-Allow-Headers'', ''Content-Type'')],
          if Method r = ''OPTIONS'' then Refuse 204 else Pass r))"

definition RateLimitByIP :: "netlib \<Rightarrow> IPNet list \<Rightarrow> time \<Rightarrow> request \<Rightarrow> RateLimiter \<Rightarrow> request gate \<times> RateLimiter" where
  "RateLimitByIP L trustedProxies now r limiter =
     (if Method r = ''OPTIONS'' then (Pass r, limiter)
      else let (ok, limiter) = AllowKey (ClientIP L (RemoteAddr r) (Header r ''X-Forwarded-For'') trustedProxies) now limiter
           in if ok then (Pass r, limiter) else (Refuse 429, limiter))"

definition directoryMux :: "directory_config \<Rightarrow> pin_write \<Rightarrow> time \<Rightarrow> pod_id list \<Rightarrow> request \<Rightarrow> PodHealthDigest option \<Rightarrow> string \<Rightarrow> directory \<Rightarrow>
    (nat \<times> dir_content) \<times> directory \<times> PodHealthDigest list" where
  "directoryMux dc w now ks r body modelID dr =
     (if Method r = ''POST'' then
        (if URLPath r = ''/pods/register'' then handlePodRegister dc w now body dr
         else if URLPath r = ''/gossip/digest'' then (case handleGossipDigest dc w now body dr of (rep, dr) \<Rightarrow> (rep, dr, []))
         else ((405, DirNothing), dr, []))
      else if Method r = ''GET'' \<or> Method r = ''HEAD'' then
        ((if URLPath r = ''/pods'' then handlePods now ks modelID dr
          else if URLPath r = ''/health'' then handleDirHealth dc now ks dr
          else if URLPath r = ''/topology'' then handleTopology now ks dr
          else handleDirIndex now ks dr), dr, [])
      else ((405, DirNothing), dr, []))"

definition serveDirectory :: "directory_config \<Rightarrow> pin_write \<Rightarrow> time \<Rightarrow> pod_id list \<Rightarrow> request \<Rightarrow> PodHealthDigest option \<Rightarrow> string \<Rightarrow>
    directory \<Rightarrow> (nat \<times> dir_content) \<times> directory \<times> PodHealthDigest list" where
  "serveDirectory dc w now ks r body modelID dr = (case snd (dirCors (dcOrigins dc) r) of
       Refuse code \<Rightarrow> ((code, DirNothing), dr, [])
     | Pass r \<Rightarrow> (case RateLimitByIP (dcNet dc) (dcProxies dc) now r (drLimiter dr) of
           (Refuse code, l) \<Rightarrow> ((code, DirNothing), dr\<lparr> drLimiter := l \<rparr>, [])
         | (Pass r, l) \<Rightarrow> directoryMux dc w now ks r body modelID (dr\<lparr> drLimiter := l \<rparr>)))"

definition startDirectory :: "directory_config \<Rightarrow> duration \<Rightarrow> string \<Rightarrow> string \<Rightarrow> bool \<Rightarrow> pin_file \<Rightarrow> pin_file \<Rightarrow> string list \<Rightarrow>
    f64 \<Rightarrow> f64 \<Rightarrow> dir_error + directory_config \<times> directory" where
  "startDirectory dc ttl podPinsPath authorizedPodsPath readable pinsFile allowFile proxies rps burst =
     (case (if authorizedPodsPath \<noteq> [] then NewAllowlistPinStore readable allowFile else NewPinStore readable podPinsPath pinsFile) of
       Inl e \<Rightarrow> Inl e
     | Inr p \<Rightarrow> (case ParseTrustedProxies (dcNet dc) proxies of
           Inl e \<Rightarrow> Inl (BadProxySpec e)
         | Inr nets \<Rightarrow> Inr (dc\<lparr> dcProxies := nets \<rparr>, \<lparr> drStore = NewPodStore ttl, drPins = p, drLimiter = NewRateLimiter rps burst \<rparr>)))"

section \<open>Clients\<close>

record cacheEntry =
  cachedPods :: "pod_id list"
  cachedAt :: time

record CentralizedResolver =
  Endpoints :: "string list"
  podCache :: "string \<rightharpoonup> cacheEntry"

definition NewCentralizedResolver :: "string list \<Rightarrow> CentralizedResolver" where
  "NewCentralizedResolver endpoints = \<lparr> Endpoints = endpoints, podCache = Map.empty \<rparr>"

definition cacheKey :: "string \<Rightarrow> string \<Rightarrow> string" where
  "cacheKey modelID quantization = modelID @ ''|'' @ quantization"

definition podsURL :: "string \<Rightarrow> string \<Rightarrow> string \<Rightarrow> string" where
  "podsURL endpoint modelID quantization =
     endpoint @ ''/pods?model_id='' @ modelID @ (if quantization \<noteq> [] then ''&quantization='' @ quantization else [])"

text \<open>\<open>get\<close> answers the GET of a URL.\<close>

definition fetchFromEndpoint :: "(string \<Rightarrow> pod_id list http_get) \<Rightarrow> string \<Rightarrow> string \<Rightarrow> string \<Rightarrow> pod_id list option" where
  "fetchFromEndpoint get endpoint modelID quantization = (case get (podsURL endpoint modelID quantization) of
       GetFailed \<Rightarrow> None
     | GetStatus code body \<Rightarrow> if code \<ge> 400 then None else body)"

fun firstAnswer :: "(string \<Rightarrow> pod_id list http_get) \<Rightarrow> string \<Rightarrow> string \<Rightarrow> string list \<Rightarrow> pod_id list option" where
  "firstAnswer get modelID quantization [] = None"
| "firstAnswer get modelID quantization (e # es) = (case fetchFromEndpoint get e modelID quantization of
       Some pods \<Rightarrow> Some pods | None \<Rightarrow> firstAnswer get modelID quantization es)"

definition ResolvePodsForModel :: "(string \<Rightarrow> pod_id list http_get) \<Rightarrow> time \<Rightarrow> string \<Rightarrow> string \<Rightarrow> CentralizedResolver \<Rightarrow>
    pod_id list option \<times> CentralizedResolver" where
  "ResolvePodsForModel get now modelID quantization r =
     (let key = cacheKey modelID quantization
      in case firstAnswer get modelID quantization (Endpoints r) of
           Some pods \<Rightarrow> (Some pods, r\<lparr> podCache := (podCache r)(key \<mapsto> \<lparr> cachedPods = pods, cachedAt = now \<rparr>) \<rparr>)
         | None \<Rightarrow> (map_option cachedPods (podCache r key), r))"

datatype http_post = PostNoRequest | PostFailed | PostStatus int

datatype announce_error = AnnounceMarshal | AnnounceRequest | AnnouncePost | AnnounceStatus int

text \<open>The loop over the endpoints, given what each POST ends with, and the error it carries.\<close>

fun announceLoop :: "http_post list \<Rightarrow> announce_error option \<Rightarrow> announce_error option" where
  "announceLoop [] lastErr = lastErr"
| "announceLoop (p # ps) lastErr = announceLoop ps (case p of
       PostNoRequest \<Rightarrow> Some AnnounceRequest
     | PostFailed \<Rightarrow> Some AnnouncePost
     | PostStatus code \<Rightarrow> if code \<ge> 400 then Some (AnnounceStatus code) else None)"

definition RegisterPod :: "crypto \<Rightarrow> (nat \<Rightarrow> string \<Rightarrow> http_post) \<Rightarrow> PodHealthDigest \<Rightarrow> CentralizedResolver \<Rightarrow> announce_error option" where
  "RegisterPod C post digest r = (case marshalDigest C digest of
       None \<Rightarrow> Some AnnounceMarshal
     | Some b \<Rightarrow> announceLoop (map (\<lambda>i. post i (Endpoints r ! i @ ''/pods/register'')) [0..<length (Endpoints r)]) None)"

definition propagateToPeer :: "crypto \<Rightarrow> (string \<Rightarrow> http_post) \<Rightarrow> string \<Rightarrow> PodHealthDigest \<Rightarrow> announce_error option" where
  "propagateToPeer C post peerURL digest = (case marshalDigest C digest of
       None \<Rightarrow> Some AnnounceMarshal
     | Some b \<Rightarrow> (case post (peerURL @ ''/gossip/digest'') of
           PostNoRequest \<Rightarrow> Some AnnounceRequest
         | PostFailed \<Rightarrow> Some AnnouncePost
         | PostStatus code \<Rightarrow> if code \<ge> 400 then Some (AnnounceStatus code) else None))"

text \<open>What a coordinator announces: its signed health digest; None when it cannot sign.\<close>

definition reportDigest :: "crypto \<Rightarrow> bytes \<Rightarrow> bytes \<Rightarrow> pod_id \<Rightarrow> string \<Rightarrow> string \<Rightarrow> time \<Rightarrow> node_id list \<Rightarrow> registry \<Rightarrow>
    PodHealthDigest option" where
  "reportDigest C priv pub podID regionHint publicURL now ks reg =
     (case SignPodHealthDigest C (HealthDigest podID regionHint publicURL now ks reg) priv pub of Inl e \<Rightarrow> None | Inr d \<Rightarrow> Some d)"

section \<open>Histories\<close>

text \<open>
  What happens to a directory: an announcement arrives, from a pod or from the peer, or the
  process is restarted on its files (None when it does not come up again).
\<close>

datatype dir_event = AnnounceEv pin_write time "PodHealthDigest option" | GossipEv pin_write time "PodHealthDigest option" | RestartDirEv

definition restartDirectory :: "directory \<Rightarrow> directory option" where
  "restartDirectory dr = (let p = drPins dr; s = NewPodStore (podTTL (drStore dr)) in
     if pinStrict p then Some (dr\<lparr> drStore := s \<rparr>)
     else case NewPinStore True (pinPath p) (pinDisk p) of Inl e \<Rightarrow> None | Inr p' \<Rightarrow> Some (dr\<lparr> drPins := p', drStore := s \<rparr>))"

fun dir_step :: "directory_config \<Rightarrow> dir_event \<Rightarrow> directory \<Rightarrow> directory option" where
  "dir_step dc (AnnounceEv w now body) dr = Some (fst (snd (handlePodRegister dc w now body dr)))"
| "dir_step dc (GossipEv w now body) dr = Some (snd (handleGossipDigest dc w now body dr))"
| "dir_step dc RestartDirEv dr = restartDirectory dr"

fun dir_run :: "directory_config \<Rightarrow> dir_event list \<Rightarrow> directory \<Rightarrow> directory option" where
  "dir_run dc [] dr = Some dr"
| "dir_run dc (ev # evs) dr = (case dir_step dc ev dr of None \<Rightarrow> None | Some dr \<Rightarrow> dir_run dc evs dr)"

text \<open>The writes of the pins all succeed.\<close>

fun saved :: "dir_event \<Rightarrow> bool" where
  "saved (AnnounceEv w now body) \<longleftrightarrow> w = Written"
| "saved (GossipEv w now body) \<longleftrightarrow> w = Written"
| "saved RestartDirEv \<longleftrightarrow> True"

definition accepts :: "directory_config \<Rightarrow> PodHealthDigest \<Rightarrow> directory \<Rightarrow> bytes \<Rightarrow> bool" where
  "accepts dc d dr pub \<longleftrightarrow> VerifyPodHealthDigestSignature (dcCrypto dc) d = Some pub \<and>
     (podPins (drPins dr) (PodID d) = Some (hexEncode pub) \<or> podPins (drPins dr) (PodID d) = None \<and> \<not> pinStrict (drPins dr))"

text \<open>What accepting a digest does.\<close>

definition accepted :: "directory_config \<Rightarrow> pin_write \<Rightarrow> time \<Rightarrow> PodHealthDigest \<Rightarrow> directory \<Rightarrow> directory" where
  "accepted dc w now d dr = dr\<lparr> drPins := snd (VerifyPod (dcCrypto dc) w d (drPins dr)), drStore := Upsert now d (drStore dr) \<rparr>"

lemma VerifyPod_cases:
  "fst (VerifyPod C w d p) = None \<longleftrightarrow> (\<exists>pub. VerifyPodHealthDigestSignature C d = Some pub \<and>
     (podPins p (PodID d) = Some (hexEncode pub) \<or> podPins p (PodID d) = None \<and> \<not> pinStrict p))"
  by (auto simp: VerifyPod_def split: option.splits if_splits)

lemma savePins_pins [simp]: "podPins (savePins w p) = podPins p" "pinStrict (savePins w p) = pinStrict p" "pinPath (savePins w p) = pinPath p"
  by (simp_all add: savePins_def split: pin_write.split)

lemma VerifyPod_pins:
  assumes "VerifyPodHealthDigestSignature C d = Some pub"
    "podPins p (PodID d) = Some (hexEncode pub) \<or> podPins p (PodID d) = None \<and> \<not> pinStrict p"
  shows "podPins (snd (VerifyPod C w d p)) = (podPins p)(PodID d \<mapsto> hexEncode pub)"
  using assms by (auto simp: VerifyPod_def)

lemma VerifyPod_refused: "fst (VerifyPod C w d p) \<noteq> None \<Longrightarrow> snd (VerifyPod C w d p) = p"
  by (auto simp: VerifyPod_def split: option.splits if_splits)

lemma VerifyPod_frame [simp]: "pinStrict (snd (VerifyPod C w d p)) = pinStrict p" "pinPath (snd (VerifyPod C w d p)) = pinPath p"
  by (auto simp: VerifyPod_def split: option.split)

lemma handlePodRegister_eq:
  "handlePodRegister dc w now (Some d) dr =
     (if \<exists>pub. accepts dc d dr pub then ((200, PodRegistered (PodID d)), accepted dc w now d dr, if dcPeer dc \<noteq> [] then [d] else [])
      else ((401, DirFailure (the (fst (VerifyPod (dcCrypto dc) w d (drPins dr))))), dr, []))"
proof (cases "VerifyPod (dcCrypto dc) w d (drPins dr)")
  case (Pair e p)
  show ?thesis
  proof (cases e)
    case None
    then show ?thesis using Pair VerifyPod_cases[of "dcCrypto dc" w d "drPins dr"]
      by (auto simp: handlePodRegister_def ReceivePodDigest_def accepts_def accepted_def)
  next
    case (Some x)
    then show ?thesis using Pair VerifyPod_cases[of "dcCrypto dc" w d "drPins dr"] VerifyPod_refused[of "dcCrypto dc" w d "drPins dr"]
      by (auto simp: handlePodRegister_def accepts_def)
  qed
qed

lemma handleGossipDigest_eq:
  "snd (handleGossipDigest dc w now (Some d) dr) = (if \<exists>pub. accepts dc d dr pub then accepted dc w now d dr else dr)"
proof (cases "VerifyPod (dcCrypto dc) w d (drPins dr)")
  case (Pair e p)
  show ?thesis
  proof (cases e)
    case None
    then show ?thesis using Pair VerifyPod_cases[of "dcCrypto dc" w d "drPins dr"]
      by (auto simp: handleGossipDigest_def accepts_def accepted_def)
  next
    case (Some x)
    then show ?thesis using Pair VerifyPod_cases[of "dcCrypto dc" w d "drPins dr"] VerifyPod_refused[of "dcCrypto dc" w d "drPins dr"]
      by (auto simp: handleGossipDigest_def accepts_def)
  qed
qed

text \<open>A step is a restart, does nothing, or accepts a digest.\<close>

lemma dir_step_cases:
  assumes "dir_step dc ev dr = Some dr'"
  obtains (restart) "ev = RestartDirEv" "restartDirectory dr = Some dr'" | (none) "dr' = dr"
    | (digest) w now d pub where "ev = AnnounceEv w now (Some d) \<or> ev = GossipEv w now (Some d)" "accepts dc d dr pub" "dr' = accepted dc w now d dr"
proof (cases ev)
  case (AnnounceEv w now body)
  show ?thesis
  proof (cases body)
    case None
    then show ?thesis using assms AnnounceEv by (intro none) (simp add: handlePodRegister_def)
  next
    case (Some d)
    show ?thesis
    proof (cases "\<exists>pub. accepts dc d dr pub")
      case True
      then obtain pub where "accepts dc d dr pub" by blast
      then show ?thesis using assms True by (intro digest[of w now d pub]) (simp_all add: AnnounceEv Some handlePodRegister_eq)
    next
      case False
      then show ?thesis using assms by (intro none) (simp add: AnnounceEv Some handlePodRegister_eq)
    qed
  qed
next
  case (GossipEv w now body)
  show ?thesis
  proof (cases body)
    case None
    then show ?thesis using assms GossipEv by (intro none) (simp add: handleGossipDigest_def)
  next
    case (Some d)
    show ?thesis
    proof (cases "\<exists>pub. accepts dc d dr pub")
      case True
      then obtain pub where "accepts dc d dr pub" by blast
      then show ?thesis using assms True by (intro digest[of w now d pub]) (simp_all add: GossipEv Some handleGossipDigest_eq)
    next
      case False
      then show ?thesis using assms by (intro none) (simp add: GossipEv Some handleGossipDigest_eq)
    qed
  qed
qed (use assms restart in simp)

section \<open>The invariant\<close>

definition signed_by :: "crypto \<Rightarrow> PodHealthDigest \<Rightarrow> string \<Rightarrow> bool" where
  "signed_by C d key \<longleftrightarrow> (\<exists>pub. VerifyPodHealthDigestSignature C d = Some pub \<and> hexEncode pub = key)"

definition dir_ok :: "directory_config \<Rightarrow> directory \<Rightarrow> bool" where
  "dir_ok dc dr \<longleftrightarrow> (\<forall>pod e. podEntries (drStore dr) pod = Some e \<longrightarrow> PodID (podDigestOf e) = pod \<and>
     (\<exists>key. podPins (drPins dr) pod = Some key \<and> signed_by (dcCrypto dc) (podDigestOf e) key))"

definition disk_ok :: "PinStore \<Rightarrow> bool" where
  "disk_ok p \<longleftrightarrow> pinStrict p \<or> pinPath p \<noteq> [] \<and> (pinDisk p = PinsOnDisk (podPins p) \<or> pinDisk p = NoPinFile \<and> podPins p = Map.empty)"

lemma accepted_pins:
  "accepts dc d dr pub \<Longrightarrow> podPins (drPins (accepted dc w now d dr)) = (podPins (drPins dr))(PodID d \<mapsto> hexEncode pub)"
  using VerifyPod_pins[of "dcCrypto dc" d pub "drPins dr" w] by (simp add: accepts_def accepted_def)

lemma accepted_store [simp]: "drStore (accepted dc w now d dr) = Upsert now d (drStore dr)"
  by (simp add: accepted_def)

lemma accepted_ok: "dir_ok dc dr \<Longrightarrow> accepts dc d dr pub \<Longrightarrow> dir_ok dc (accepted dc w now d dr)"
  using accepted_pins[of dc d dr pub w now] by (auto simp: dir_ok_def accepts_def Upsert_def signed_by_def)

lemma accepted_disk: "disk_ok (drPins dr) \<Longrightarrow> disk_ok (drPins (accepted dc Written now d dr))"
  by (auto simp: accepted_def disk_ok_def VerifyPod_def savePins_def split: option.split)

lemma restart_ok:
  assumes "disk_ok (drPins dr)"
  obtains dr' where "restartDirectory dr = Some dr'" "podPins (drPins dr') = podPins (drPins dr)" "disk_ok (drPins dr')" "dir_ok dc dr'"
    "pinStrict (drPins dr') = pinStrict (drPins dr)"
proof (cases "pinStrict (drPins dr)")
  case True
  then show ?thesis by (intro that[of "dr\<lparr> drStore := NewPodStore (podTTL (drStore dr)) \<rparr>"])
    (simp_all add: restartDirectory_def disk_ok_def dir_ok_def NewPodStore_def)
next
  case False
  then show ?thesis using assms by (auto simp: restartDirectory_def disk_ok_def dir_ok_def NewPodStore_def NewPinStore_def Let_def intro: that)
qed

lemma dir_run_ok:
  assumes "dir_ok dc dr" "disk_ok (drPins dr)" "list_all saved evs"
  shows "\<exists>dr'. dir_run dc evs dr = Some dr' \<and> dir_ok dc dr' \<and> disk_ok (drPins dr') \<and> podPins (drPins dr) \<subseteq>\<^sub>m podPins (drPins dr')"
  using assms
proof (induction evs arbitrary: dr)
  case (Cons ev evs)
  obtain dr2 where r: "restartDirectory dr = Some dr2" using restart_ok[OF Cons.prems(2)] by metis
  obtain dr1 where s: "dir_step dc ev dr = Some dr1"
    by (cases ev) (simp_all add: r)
  have m: "dir_ok dc dr1 \<and> disk_ok (drPins dr1) \<and> podPins (drPins dr) \<subseteq>\<^sub>m podPins (drPins dr1)"
  proof (cases rule: dir_step_cases[OF s])
    case 1
    obtain dr3 where "restartDirectory dr = Some dr3" "podPins (drPins dr3) = podPins (drPins dr)" "disk_ok (drPins dr3)" "dir_ok dc dr3"
      using restart_ok[OF Cons.prems(2), of dc] by metis
    then show ?thesis using 1 by simp
  next
    case (3 w now d pub)
    have w: "w = Written" using 3(1) Cons.prems(3) by auto
    have "podPins (drPins dr) \<subseteq>\<^sub>m podPins (drPins dr1)"
      unfolding 3(3) accepted_pins[OF 3(2)] using 3(2) by (auto simp: accepts_def map_le_def)
    then show ?thesis using accepted_ok[OF Cons.prems(1) 3(2)] accepted_disk[OF Cons.prems(2)] by (simp add: 3(3) w)
  qed (use Cons.prems in simp)
  have "list_all saved evs" using Cons.prems(3) by simp
  with m Cons.IH[of dr1] obtain dr' where "dir_run dc evs dr1 = Some dr'" "dir_ok dc dr'" "disk_ok (drPins dr')"
    "podPins (drPins dr1) \<subseteq>\<^sub>m podPins (drPins dr')" by blast
  then show ?case using s m map_le_trans by simp blast
qed simp

lemma start_directory_ok:
  assumes "startDirectory dc0 ttl podPinsPath authorizedPodsPath readable pinsFile allowFile proxies rps burst = Inr (dc, dr)"
    "podPinsPath \<noteq> [] \<or> authorizedPodsPath \<noteq> []"
  shows "dir_ok dc dr" "disk_ok (drPins dr)"
  using assms by (auto simp: startDirectory_def dir_ok_def disk_ok_def NewPodStore_def NewPinStore_def NewAllowlistPinStore_def Let_def
      split: sum.splits if_splits pin_file.splits)

text \<open>What a query shows.\<close>

lemma livePods_iff:
  "d \<in> set (livePods now ks s) \<longleftrightarrow>
     (\<exists>p e. p \<in> set ks \<and> podEntries s p = Some e \<and> timeSub now (podLastSeen e) \<le> podTTL s \<and> podDigestOf e = d)"
  by (force simp: livePods_def split: option.splits if_splits)

lemma QueryForModel_iff:
  assumes "dir_ok dc dr"
  shows "pod \<in> set (QueryForModel now ks m (drStore dr)) \<longleftrightarrow> pod \<in> set ks \<and>
    (\<exists>e. podEntries (drStore dr) pod = Some e \<and> timeSub now (podLastSeen e) \<le> podTTL (drStore dr) \<and> m \<in> set (ServableModelIDs (podDigestOf e)))"
  using assms by (auto simp: QueryForModel_def image_iff Bex_def livePods_iff dir_ok_def)

text \<open>Events that do not concern a pod.\<close>

fun concerns :: "pod_id \<Rightarrow> dir_event \<Rightarrow> bool" where
  "concerns pod (AnnounceEv w now body) \<longleftrightarrow> (\<exists>d. body = Some d \<and> PodID d = pod)"
| "concerns pod (GossipEv w now body) \<longleftrightarrow> (\<exists>d. body = Some d \<and> PodID d = pod)"
| "concerns pod RestartDirEv \<longleftrightarrow> True"

lemma dir_run_others:
  "dir_run dc evs dr = Some dr' \<Longrightarrow> list_all (\<lambda>ev. \<not> concerns pod ev) evs \<Longrightarrow>
    podEntries (drStore dr') pod = podEntries (drStore dr) pod \<and> podTTL (drStore dr') = podTTL (drStore dr)"
proof (induction evs arbitrary: dr)
  case (Cons ev evs)
  obtain dr1 where s: "dir_step dc ev dr = Some dr1" "dir_run dc evs dr1 = Some dr'" using Cons.prems(1) by (auto split: option.splits)
  have "podEntries (drStore dr1) pod = podEntries (drStore dr) pod \<and> podTTL (drStore dr1) = podTTL (drStore dr)"
    using Cons.prems(2) by (cases rule: dir_step_cases[OF s(1)]) (auto simp: Upsert_def)
  then show ?case using Cons.IH[OF s(2)] Cons.prems(2) by simp
qed simp

lemma dir_run_ok_always:
  "dir_run dc evs dr = Some dr' \<Longrightarrow> RestartDirEv \<notin> set evs \<Longrightarrow> dir_ok dc dr \<Longrightarrow> dir_ok dc dr'"
proof (induction evs arbitrary: dr)
  case (Cons ev evs)
  obtain dr1 where s: "dir_step dc ev dr = Some dr1" "dir_run dc evs dr1 = Some dr'" using Cons.prems(1) by (auto split: option.splits)
  have "dir_ok dc dr1" using Cons.prems(2,3) by (cases rule: dir_step_cases[OF s(1)]) (auto intro: accepted_ok)
  then show ?case using Cons.IH[OF s(2)] Cons.prems(2) by simp
qed simp

lemma register_ok:
  assumes "handlePodRegister dc w t (Some d) dr = ((200, rep), dr1, sent)"
  obtains pub where "accepts dc d dr pub" "dr1 = accepted dc w t d dr"
  using assms by (auto simp: handlePodRegister_eq split: if_splits)

section \<open>The resolver over time\<close>

type_synonym resolve_call = "(string \<Rightarrow> pod_id list http_get) \<times> time \<times> string \<times> string"

definition resolve_run :: "resolve_call list \<Rightarrow> CentralizedResolver \<Rightarrow> CentralizedResolver" where
  "resolve_run calls r = fold (\<lambda>(get, now, m, q) r. snd (ResolvePodsForModel get now m q r)) calls r"

text \<open>What the latest of the calls that were answered, for the same key, was answered.\<close>

fun lastAnswer :: "string list \<Rightarrow> string \<Rightarrow> resolve_call list \<Rightarrow> pod_id list option" where
  "lastAnswer es key [] = None"
| "lastAnswer es key ((get, now, m, q) # earlier) =
     (if cacheKey m q = key \<and> firstAnswer get m q es \<noteq> None then firstAnswer get m q es else lastAnswer es key earlier)"

lemma resolve_run_cache:
  "Endpoints (resolve_run calls (NewCentralizedResolver es)) = es \<and>
   map_option cachedPods (podCache (resolve_run calls (NewCentralizedResolver es)) key) = lastAnswer es key (rev calls)"
proof (induction calls rule: rev_induct)
  case (snoc c calls)
  obtain get now m q where c: "c = (get, now, m, q)" by (cases c)
  show ?case using snoc by (cases "firstAnswer get m q es") (auto simp: c resolve_run_def ResolvePodsForModel_def Let_def)
qed (simp add: resolve_run_def NewCentralizedResolver_def)

lemma announceLoop_last: "announceLoop ps e = (if ps = [] then e else announceLoop [last ps] None)"
  by (induction ps arbitrary: e) auto

section \<open>A sample directory\<close>

definition sampleDirConfig :: directory_config where
  "sampleDirConfig = \<lparr> dcPeer = ''http://peer'', dcOrigins = [], dcProxies = [], dcNet = \<lparr> splitHostPort = (\<lambda>s. None), parseIP = (\<lambda>s. None),
     parseCIDR = (\<lambda>s. None) \<rparr>, dcCrypto = tagCrypto \<rparr>"

definition sampleDirectory :: directory where
  "sampleDirectory = \<lparr> drStore = NewPodStore (120 * second), drPins = \<lparr> podPins = Map.empty, pinStrict = False, pinPath = ''pins'', pinDisk = NoPinFile \<rparr>,
     drLimiter = NewRateLimiter 20 40 \<rparr>"

definition sampleDigest :: "8 word \<Rightarrow> PodHealthDigest" where
  "sampleDigest k = \<lparr> PodID = ''pod-a'', RegionHint = [], CoordinatorEndpoint = [], ServableModelIDs = [''llama''], AggregateHealthScore = 0,
     NodeCountApprox = 1, TotalMemoryGB = 0, AggregateToksPerSec = 0, RealNodeCountApprox = 0, RealTotalMemoryGB = 0,
     RealAggregateToksPerSec = 0, DigestPublicKey = hexEncode (replicate 32 k), DigestSignature = hexEncode [7] \<rparr>"

lemma sample_directory_start:
  "startDirectory sampleDirConfig (120 * second) ''pins'' [] True NoPinFile NoPinFile [] 20 40 = Inr (sampleDirConfig, sampleDirectory)"
  by (simp add: startDirectory_def NewPinStore_def sampleDirConfig_def sampleDirectory_def)

lemma sample_digest_verifies: "VerifyPodHealthDigestSignature tagCrypto (sampleDigest k) = Some (replicate 32 k)"
  by (simp add: VerifyPodHealthDigestSignature_def sampleDigest_def digestSignableBytes_def tagCrypto_def VerifySignature_def)

lemma sample_accepts: "accepts sampleDirConfig (sampleDigest 9) sampleDirectory (replicate 32 9)"
  using sample_digest_verifies[of 9] by (simp add: accepts_def sampleDirConfig_def sampleDirectory_def)

lemma sample_announce:
  "handlePodRegister sampleDirConfig Written 0 (Some (sampleDigest 9)) sampleDirectory =
     ((200, PodRegistered ''pod-a''), accepted sampleDirConfig Written 0 (sampleDigest 9) sampleDirectory, [sampleDigest 9])"
  using sample_accepts by (auto simp: handlePodRegister_eq sampleDigest_def sampleDirConfig_def)

section \<open>Properties\<close>

text \<open>
  C37. Nobody can speak for another pod. As long as its writes of the pins succeed, a directory
  that keeps its pins in a file or an allowlist comes up after every restart; once a pod id is
  bound to a key, every announcement, from anybody or from the peer, and every restart leaves
  it bound to that key, and every digest the directory ever shows for that pod is signed by it.
\<close>

theorem directory_trust:
  assumes "startDirectory dc0 ttl podPinsPath authorizedPodsPath readable pinsFile allowFile proxies rps burst = Inr (dc, dr0)"
    and "podPinsPath \<noteq> [] \<or> authorizedPodsPath \<noteq> []" "list_all saved evs" "dir_run dc evs dr0 = Some dr"
    and "podPins (drPins dr) pod = Some key" "list_all saved evs'"
  shows "\<exists>dr'. dir_run dc evs' dr = Some dr' \<and> podPins (drPins dr') pod = Some key \<and>
    (\<forall>now ks. \<forall>d \<in> set (AllPods now ks (drStore dr')). PodID d = pod \<longrightarrow> signed_by (dcCrypto dc) d key)"
proof -
  have ok: "dir_ok dc dr" "disk_ok (drPins dr)"
    using dir_run_ok[OF start_directory_ok[OF assms(1,2)] assms(3)] assms(4) by auto
  obtain dr' where r: "dir_run dc evs' dr = Some dr'" "dir_ok dc dr'" "podPins (drPins dr) \<subseteq>\<^sub>m podPins (drPins dr')"
    using dir_run_ok[OF ok assms(6)] by blast
  have k: "podPins (drPins dr') pod = Some key" using r(3) assms(5) by (metis domI map_le_def)
  have "signed_by (dcCrypto dc) d key" if a: "d \<in> set (AllPods now ks (drStore dr'))" "PodID d = pod" for now ks d
  proof -
    obtain p e where e: "podEntries (drStore dr') p = Some e" "podDigestOf e = d" using a(1) unfolding AllPods_def livePods_iff by blast
    then have "\<exists>k. podPins (drPins dr') p = Some k \<and> signed_by (dcCrypto dc) d k" "p = pod"
      using r(2) a(2) by (auto simp: dir_ok_def)
    then show ?thesis using k by simp
  qed
  then show ?thesis using r(1) k by blast
qed

theorem directory_trust_witness:
  "\<exists>dr'. dir_run sampleDirConfig [GossipEv Written 1 (Some (sampleDigest 5)), RestartDirEv, AnnounceEv Written 2 (Some (sampleDigest 5))]
       (accepted sampleDirConfig Written 0 (sampleDigest 9) sampleDirectory) = Some dr' \<and>
     podPins (drPins dr') ''pod-a'' = Some (hexEncode (replicate 32 9))"
proof -
  have r: "dir_run sampleDirConfig [AnnounceEv Written 0 (Some (sampleDigest 9))] sampleDirectory =
      Some (accepted sampleDirConfig Written 0 (sampleDigest 9) sampleDirectory)"
    by (simp add: sample_announce)
  have "podPins (drPins (accepted sampleDirConfig Written 0 (sampleDigest 9) sampleDirectory)) ''pod-a'' = Some (hexEncode (replicate 32 9))"
    by (simp add: accepted_pins[OF sample_accepts]) (simp add: sampleDigest_def)
  from directory_trust[OF sample_directory_start _ _ r this,
      of "[GossipEv Written 1 (Some (sampleDigest 5)), RestartDirEv, AnnounceEv Written 2 (Some (sampleDigest 5))]"]
  show ?thesis by auto
qed

text \<open>
  C38. An announced pod is found exactly while it is fresh. After a pod's announcement is accepted,
  and until the next one for that pod or a restart, a query for a model it announced returns
  the pod exactly up to the time to live after the announcement, whatever other pods announce.
\<close>

theorem discovery_exact:
  assumes "startDirectory dc0 ttl podPinsPath authorizedPodsPath readable pinsFile allowFile proxies rps burst = Inr (dc, dr0)"
    and "RestartDirEv \<notin> set evs" "dir_run dc evs dr0 = Some dr"
    and "handlePodRegister dc w t (Some d) dr = ((200, rep), dr1, sent)"
    and "dir_run dc evs' dr1 = Some dr2" "list_all (\<lambda>ev. \<not> concerns (PodID d) ev) evs'"
    and "range_order ks (podEntries (drStore dr2))" "m \<in> set (ServableModelIDs d)"
  shows "PodID d \<in> set (QueryForModel now ks m (drStore dr2)) \<longleftrightarrow> timeSub now t \<le> ttl"
proof -
  obtain pub where a: "accepts dc d dr pub" "dr1 = accepted dc w t d dr" using register_ok[OF assms(4)] by blast
  have ttl0: "podTTL (drStore dr0) = ttl" and ok0: "dir_ok dc dr0"
    using assms(1) by (auto simp: startDirectory_def NewPodStore_def dir_ok_def split: sum.splits)
  have ttl: "podTTL (drStore dr) = ttl"
    using assms(2,3) ttl0
  proof (induction evs arbitrary: dr0)
    case (Cons ev evs)
    obtain dr3 where s: "dir_step dc ev dr0 = Some dr3" "dir_run dc evs dr3 = Some dr" using Cons.prems(2) by (auto split: option.splits)
    have "podTTL (drStore dr3) = ttl" using Cons.prems(1,3) by (cases rule: dir_step_cases[OF s(1)]) (auto simp: Upsert_def)
    then show ?case using Cons.IH[OF _ s(2)] Cons.prems(1) by simp
  qed simp
  note o = dir_run_others[OF assms(5,6)]
  have e: "podEntries (drStore dr2) (PodID d) = Some \<lparr> podDigestOf = d, podLastSeen = t \<rparr>" "podTTL (drStore dr2) = ttl"
    using o ttl by (simp_all add: a(2) Upsert_def)
  have "RestartDirEv \<notin> set evs'" using assms(6) by (auto simp: list_all_iff)
  then have ok: "dir_ok dc dr2"
    using dir_run_ok_always[OF assms(5)] accepted_ok[OF dir_run_ok_always[OF assms(3,2) ok0] a(1)] a(2) by simp
  show ?thesis using QueryForModel_iff[OF ok] e assms(7,8) by (auto simp: range_order_def)
qed

theorem discovery_exact_witness:
  "''pod-a'' \<in> set (QueryForModel (120 * second) [''pod-a''] ''llama'' (drStore (accepted sampleDirConfig Written 0 (sampleDigest 9) sampleDirectory))) \<and>
   ''pod-a'' \<notin> set (QueryForModel (121 * second) [''pod-a''] ''llama'' (drStore (accepted sampleDirConfig Written 0 (sampleDigest 9) sampleDirectory)))"
proof -
  have d: "PodID (sampleDigest 9) = ''pod-a''" "''llama'' \<in> set (ServableModelIDs (sampleDigest 9))" by (simp_all add: sampleDigest_def)
  have "range_order [''pod-a''] (podEntries (drStore (accepted sampleDirConfig Written 0 (sampleDigest 9) sampleDirectory)))"
    by (simp add: range_order_def Upsert_def d) (simp add: sampleDirectory_def NewPodStore_def)
  from discovery_exact[OF sample_directory_start, of "[]", OF _ _ sample_announce, of "[]", OF _ _ _ _ this d(2)]
  show ?thesis by (simp add: d timeSub_def)
qed

text \<open>
  A digest is valid for ever. Digests carry no time, and the directory shows them signed to
  everybody: whoever has seen a pod's digest can announce it again at any later time, and the
  directory replaces what the pod itself has announced since and shows the old digest as fresh.
\<close>

theorem replayed_digest_accepted:
  assumes "startDirectory dc0 ttl podPinsPath authorizedPodsPath readable pinsFile allowFile proxies rps burst = Inr (dc, dr0)"
    and "podPinsPath \<noteq> [] \<or> authorizedPodsPath \<noteq> []" "list_all saved evs" "dir_run dc evs dr0 = Some dr"
    and "d \<in> set (AllPods now ks (drStore dr))" "list_all saved evs'"
  shows "\<exists>dr' dr'' sent. dir_run dc evs' dr = Some dr' \<and>
    handlePodRegister dc w later (Some d) dr' = ((200, PodRegistered (PodID d)), dr'', sent) \<and>
    podEntries (drStore dr'') (PodID d) = Some \<lparr> podDigestOf = d, podLastSeen = later \<rparr>"
proof -
  have ok: "dir_ok dc dr" "disk_ok (drPins dr)"
    using dir_run_ok[OF start_directory_ok[OF assms(1,2)] assms(3)] assms(4) by auto
  obtain e where e: "podEntries (drStore dr) (PodID d) = Some e" "podDigestOf e = d"
    using assms(5) ok(1) by (auto simp: AllPods_def livePods_iff dir_ok_def)
  then obtain pub where p: "podPins (drPins dr) (PodID d) = Some (hexEncode pub)" "VerifyPodHealthDigestSignature (dcCrypto dc) d = Some pub"
    using ok(1) by (auto simp: dir_ok_def signed_by_def)
  obtain dr' where r: "dir_run dc evs' dr = Some dr'" "podPins (drPins dr) \<subseteq>\<^sub>m podPins (drPins dr')"
    using dir_run_ok[OF ok assms(6)] by blast
  have "podPins (drPins dr') (PodID d) = Some (hexEncode pub)" using r(2) p(1) by (metis domI map_le_def)
  then have "accepts dc d dr' pub" using p(2) by (simp add: accepts_def)
  then have "handlePodRegister dc w later (Some d) dr' = ((200, PodRegistered (PodID d)), accepted dc w later d dr', if dcPeer dc \<noteq> [] then [d] else [])"
    by (auto simp: handlePodRegister_eq)
  moreover have "podEntries (drStore (accepted dc w later d dr')) (PodID d) = Some \<lparr> podDigestOf = d, podLastSeen = later \<rparr>"
    by (simp add: Upsert_def)
  ultimately show ?thesis using r(1) by blast
qed

theorem replayed_digest_accepted_witness:
  "\<exists>dr' dr'' sent. dir_run sampleDirConfig [RestartDirEv] (accepted sampleDirConfig Written 0 (sampleDigest 9) sampleDirectory) = Some dr' \<and>
     handlePodRegister sampleDirConfig Written (9 * hour) (Some (sampleDigest 9)) dr' = ((200, PodRegistered ''pod-a''), dr'', sent)"
proof -
  have r: "dir_run sampleDirConfig [AnnounceEv Written 0 (Some (sampleDigest 9))] sampleDirectory =
      Some (accepted sampleDirConfig Written 0 (sampleDigest 9) sampleDirectory)"
    by (simp add: sample_announce)
  have d: "PodID (sampleDigest 9) = ''pod-a''" by (simp add: sampleDigest_def)
  have "sampleDigest 9 \<in> set (AllPods 0 [''pod-a''] (drStore (accepted sampleDirConfig Written 0 (sampleDigest 9) sampleDirectory)))"
    by (simp add: AllPods_def livePods_iff Upsert_def d timeSub_def) (simp add: sampleDirectory_def NewPodStore_def)
  from replayed_digest_accepted[OF sample_directory_start _ _ r this, of "[RestartDirEv]" Written "9 * hour"] show ?thesis by (auto simp: d)
qed

text \<open>
  Discovery degrades to what was last known. When every directory fails, a resolver that has
  made any calls before answers with what the latest answered call for the same model and
  quantization got, however old, and fails only when there was none.
\<close>

theorem resolver_degrades:
  assumes "firstAnswer get modelID quantization endpoints = None"
  shows "fst (ResolvePodsForModel get now modelID quantization (resolve_run calls (NewCentralizedResolver endpoints))) =
    lastAnswer endpoints (cacheKey modelID quantization) (rev calls)"
  using assms resolve_run_cache[of calls endpoints] by (simp add: ResolvePodsForModel_def)

theorem resolver_degrades_witness:
  "fst (ResolvePodsForModel (\<lambda>u. GetFailed) 9 ''llama'' [] (resolve_run [(\<lambda>u. GetStatus 200 (Some [''pod-a'']), 0, ''llama'', [])]
     (NewCentralizedResolver [''http://d'']))) = Some [''pod-a'']"
  by (subst resolver_degrades) (simp_all add: fetchFromEndpoint_def)

text \<open>
  Announcing reports the last directory only. When the digest encodes and there is at least
  one directory, the report fails exactly when the POST to the last one of the list fails,
  whatever the others answered; the comments promise an error only if all of them rejected it.
\<close>

theorem announce_reports_last:
  assumes "marshalDigest C d \<noteq> None" "Endpoints r \<noteq> []"
  shows "RegisterPod C post d r = None \<longleftrightarrow>
    (\<exists>code. post (length (Endpoints r) - 1) (last (Endpoints r) @ ''/pods/register'') = PostStatus code \<and> code < 400)"
proof -
  let ?n = "length (Endpoints r)"
  have "last (map (\<lambda>i. post i (Endpoints r ! i @ ''/pods/register'')) [0..<?n]) = post (?n - 1) (last (Endpoints r) @ ''/pods/register'')"
    using assms(2) by (simp add: last_map last_conv_nth)
  then have "RegisterPod C post d r = announceLoop [post (?n - 1) (last (Endpoints r) @ ''/pods/register'')] None"
    using assms announceLoop_last[of "map (\<lambda>i. post i (Endpoints r ! i @ ''/pods/register'')) [0..<?n]" None]
    by (auto simp: RegisterPod_def)
  then show ?thesis by (simp split: http_post.split)
qed

theorem announce_reports_last_witness:
  "RegisterPod tagCrypto (\<lambda>i u. if i = 0 then PostStatus 200 else PostFailed) (sampleDigest 9) (NewCentralizedResolver [''http://a'', ''http://b'']) \<noteq> None"
  using announce_reports_last[of tagCrypto "sampleDigest 9" "NewCentralizedResolver [''http://a'', ''http://b'']"
      "\<lambda>i u. if i = 0 then PostStatus 200 else PostFailed"]
  by (simp add: tagCrypto_def NewCentralizedResolver_def)

text \<open>
  What a coordinator announces is found. With a key pair whose signatures verify, the digest
  a coordinator makes of its registry is accepted by every directory that has not bound the
  pod to another key or to nobody, and from then on, for the time to live, a query for any
  model that the registry serves returns the pod.
\<close>

theorem announced_pod_found:
  assumes "reportDigest (dcCrypto dc) priv pub pod region url t0 ks0 reg = Some d"
    and "length pub = 32" "\<And>m. ed25519Verify (dcCrypto dc) pub m (ed25519Sign (dcCrypto dc) priv m)" "\<And>m. ed25519Sign (dcCrypto dc) priv m \<noteq> []"
    and "podPins (drPins dr) pod = Some (hexEncode pub) \<or> podPins (drPins dr) pod = None \<and> \<not> pinStrict (drPins dr)"
  shows "\<exists>dr' sent. handlePodRegister dc w t (Some d) dr = ((200, PodRegistered pod), dr', sent) \<and>
    (\<forall>m \<in> set (ServableModelIDs (HealthDigest pod region url t0 ks0 reg)). \<forall>now ks.
       pod \<in> set ks \<and> timeSub now t \<le> podTTL (drStore dr) \<longrightarrow> pod \<in> set (QueryForModel now ks m (drStore dr')))"
proof -
  let ?h = "HealthDigest pod region url t0 ks0 reg"
  have s: "SignPodHealthDigest (dcCrypto dc) ?h priv pub = Inr d" using assms(1) by (auto simp: reportDigest_def split: sum.splits)
  have d: "PodID d = pod" "ServableModelIDs d = ServableModelIDs ?h"
    using s by (auto simp: SignPodHealthDigest_def HealthDigest_def Let_def split: option.splits)
  have "accepts dc d dr pub" using sign_verify_digest[OF s assms(2-4)] assms(5) d(1) by (simp add: accepts_def)
  then have r: "handlePodRegister dc w t (Some d) dr = ((200, PodRegistered pod), accepted dc w t d dr, if dcPeer dc \<noteq> [] then [d] else [])"
    by (auto simp: handlePodRegister_eq d(1))
  have "pod \<in> set (QueryForModel now ks m (drStore (accepted dc w t d dr)))"
    if "m \<in> set (ServableModelIDs ?h)" "pod \<in> set ks" "timeSub now t \<le> podTTL (drStore dr)" for m now ks
  proof -
    have "d \<in> set (livePods now ks (drStore (accepted dc w t d dr)))" using that(2,3) d(1) by (auto simp: livePods_iff Upsert_def)
    then show ?thesis using that(1) d by (force simp: QueryForModel_def)
  qed
  then show ?thesis using r by blast
qed

theorem announced_pod_found_witness:
  "\<exists>d dr' sent. reportDigest tagCrypto (replicate 64 8) (replicate 32 9) ''pod-a'' [] [] 0 [] Map.empty = Some d \<and>
     handlePodRegister sampleDirConfig Written 0 (Some d) sampleDirectory = ((200, PodRegistered ''pod-a''), dr', sent)"
proof -
  obtain d where d: "reportDigest tagCrypto (replicate 64 8) (replicate 32 9) ''pod-a'' [] [] 0 [] Map.empty = Some d"
    by (simp add: reportDigest_def SignPodHealthDigest_def digestSignableBytes_def SignPayload_def tagCrypto_def Let_def)
  have "dcCrypto sampleDirConfig = tagCrypto" by (simp add: sampleDirConfig_def)
  with announced_pod_found[of sampleDirConfig "replicate 64 8" "replicate 32 9" "''pod-a''" "[]" "[]" 0 "[]" Map.empty d sampleDirectory Written 0] d
  show ?thesis by (auto simp: tagCrypto_def sampleDirectory_def)
qed

end
