(* ===== verification/Exo.thy ===== *)
theory Exo
  imports Router Splitter
begin

text \<open>
  The node's view of its local Exo instance: the HTTP client of \<open>internal/exoadapter\<close>, the
  relay of event streams (\<open>internal/sse\<close>) and the reference benchmark (\<open>internal/bench\<close>).
  What Exo answers is an argument; a body is None where it is not JSON.
\<close>

section \<open>The client\<close>

datatype http_answer = NoAnswer | Answer int "json option"

datatype exo_error = ExoCall string | ExoStatus string int | ExoDecode string | ExoNoArray string | ExoState exo_error
  | ExoNoID | ExoMarshal | AwaitTimedOut string | AwaitStream | AwaitClosed

text \<open>
  \<open>exGet\<close> answers a GET of a path, \<open>exPost\<close> a POST with its body; \<open>exOrder\<close> is the order in
  which the loop over the fields of the answer of a path runs. \<open>exAwait\<close> is the stream of the
  await endpoint: its status, its lines and whether reading them failed.
\<close>

record exo =
  exGet :: "string \<Rightarrow> http_answer"
  exPost :: "string \<Rightarrow> jobj \<Rightarrow> http_answer"
  exOrder :: "string \<Rightarrow> string list"
  exAwait :: "string \<Rightarrow> (int \<times> string list \<times> bool) option"
  exEscape :: "string \<Rightarrow> string"
  exEvent :: "string \<Rightarrow> (string \<times> string) option"

definition trimRightSlash :: "string \<Rightarrow> string" where
  "trimRightSlash s = rev (dropWhile (\<lambda>c. c = CHR ''/'') (rev s))"

definition exoBaseURL :: "string \<Rightarrow> string" where
  "exoBaseURL baseURL = trimRightSlash (if baseURL = [] then ''http://localhost:52415'' else baseURL)"

text \<open>Decoding into a list of objects; null is the empty list, and an empty object inside one.\<close>

definition objectOf :: "json \<Rightarrow> jobj option" where
  "objectOf v = (case v of JObj m \<Rightarrow> Some m | JNull \<Rightarrow> Some Map.empty | _ \<Rightarrow> None)"

definition objectList :: "json \<Rightarrow> jobj list option" where
  "objectList v = (case v of
       JNull \<Rightarrow> Some []
     | JArr xs \<Rightarrow> if list_all (\<lambda>x. objectOf x \<noteq> None) xs then Some (map (the \<circ> objectOf) xs) else None
     | _ \<Rightarrow> None)"

fun firstArray :: "string list \<Rightarrow> jobj \<Rightarrow> json list option" where
  "firstArray [] m = None"
| "firstArray (k # ks) m = (case asArr (m k) of Some xs \<Rightarrow> Some xs | None \<Rightarrow> firstArray ks m)"

definition getJSON :: "exo \<Rightarrow> string \<Rightarrow> exo_error + jobj list" where
  "getJSON X path = (case exGet X path of
       NoAnswer \<Rightarrow> Inl (ExoCall path)
     | Answer code body \<Rightarrow>
         if code \<ge> 400 then Inl (ExoStatus path code)
         else (case body of
             None \<Rightarrow> Inl (ExoDecode path)
           | Some v \<Rightarrow> (case objectList v of
               Some ms \<Rightarrow> Inr ms
             | None \<Rightarrow> (case objectOf v of
                 None \<Rightarrow> Inl (ExoDecode path)
               | Some wrapped \<Rightarrow> (case firstArray (exOrder X path) wrapped of
                   None \<Rightarrow> Inl (ExoNoArray path)
                 | Some xs \<Rightarrow> Inr (concat (map (\<lambda>x. case x of JObj m \<Rightarrow> [m] | _ \<Rightarrow> []) xs)))))))"

definition decodeObject :: "string \<Rightarrow> http_answer \<Rightarrow> exo_error + jobj" where
  "decodeObject path ans = (case ans of
       NoAnswer \<Rightarrow> Inl (ExoCall path)
     | Answer code body \<Rightarrow>
         if code \<ge> 400 then Inl (ExoStatus path code)
         else (case body of None \<Rightarrow> Inl (ExoDecode path)
           | Some v \<Rightarrow> (case objectOf v of None \<Rightarrow> Inl (ExoDecode path) | Some m \<Rightarrow> Inr m)))"

definition getJSONObject :: "exo \<Rightarrow> string \<Rightarrow> exo_error + jobj" where
  "getJSONObject X path = decodeObject path (exGet X path)"

definition exoPostJSON :: "exo \<Rightarrow> string \<Rightarrow> jobj \<Rightarrow> exo_error + jobj" where
  "exoPostJSON X path body = decodeObject path (exPost X path body)"

definition GetState :: "exo \<Rightarrow> exo_error + jobj" where
  "GetState X = getJSONObject X ''/state''"

definition IsHealthy :: "exo \<Rightarrow> bool" where
  "IsHealthy X = (case GetState X of Inl e \<Rightarrow> False | Inr s \<Rightarrow> True)"

text \<open>A chain of type assertions on nested objects, nil maps giving the zero value.\<close>

definition subObj :: "jobj \<Rightarrow> string \<Rightarrow> jobj" where
  "subObj m k = (case asObj (m k) of Some x \<Rightarrow> x | None \<Rightarrow> Map.empty)"

definition extractModelID :: "jobj \<Rightarrow> string" where
  "extractModelID inner = asString (subObj (subObj (subObj inner ''shardMetadata'') ''PipelineShardMetadata'') ''modelCard'' ''modelId'')"

text \<open>The models with a completed download; \<open>ks\<close> is the order of the loop over the nodes.\<close>

definition completedEntry :: "json \<Rightarrow> string list" where
  "completedEntry entry = (case asObj (Some entry) of
       None \<Rightarrow> []
     | Some m \<Rightarrow> (case m ''DownloadCompleted'' of
         None \<Rightarrow> []
       | Some inner \<Rightarrow>
           let modelID = extractModelID (case asObj (Some inner) of Some i \<Rightarrow> i | None \<Rightarrow> Map.empty)
           in if modelID \<noteq> [] then [modelID] else []))"

definition completedModelIDs :: "string list \<Rightarrow> jobj \<Rightarrow> string list" where
  "completedModelIDs ks state = concat (map (\<lambda>k. case subObj state ''downloads'' k of
       Some (JArr entries) \<Rightarrow> concat (map completedEntry entries) | _ \<Rightarrow> []) ks)"

definition GetDownloadedModels :: "exo \<Rightarrow> exo_error + jobj list" where
  "GetDownloadedModels X = (case getJSON X ''/models?downloaded=true'' of
       Inl e \<Rightarrow> Inl e
     | Inr catalog \<Rightarrow> (case GetState X of
         Inl e \<Rightarrow> Inl (ExoState e)
       | Inr state \<Rightarrow> Inr (filter (\<lambda>m. asString (m ''id'') \<noteq> [] \<and>
           asString (m ''id'') \<in> set (completedModelIDs (exOrder X ''/state'') state)) catalog)))"

fun firstStringField :: "jobj \<Rightarrow> string list \<Rightarrow> string" where
  "firstStringField m [] = []"
| "firstStringField m (k # ks) = (if asString (m k) \<noteq> [] then asString (m k) else firstStringField m ks)"

definition GetActiveModels :: "exo \<Rightarrow> exo_error + string list" where
  "GetActiveModels X = (case getJSON X ''/ollama/api/ps'' of
       Inl e \<Rightarrow> Inl e
     | Inr raw \<Rightarrow> Inr (filter (\<lambda>i. i \<noteq> []) (map (\<lambda>m. firstStringField m [''model_id'', ''model'', ''name'', ''id'']) raw)))"

definition PreviewInstancePlacements :: "exo \<Rightarrow> string \<Rightarrow> exo_error + jobj list" where
  "PreviewInstancePlacements X modelID = getJSON X (''/instance/previews?model_id='' @ exEscape X modelID)"

definition CreateInstance :: "exo \<Rightarrow> jobj \<Rightarrow> exo_error + string" where
  "CreateInstance X placement = (case exoPostJSON X ''/instance'' [''instance'' \<mapsto> JObj placement] of
       Inl e \<Rightarrow> Inl e
     | Inr resp \<Rightarrow>
         if asString (resp ''command_id'') \<noteq> [] then Inr (asString (resp ''command_id''))
         else (case resp ''id'' of Some (JStr i) \<Rightarrow> Inr i | _ \<Rightarrow> Inl ExoNoID))"

text \<open>The events of the await stream; \<open>failed\<close> is the error of the scanner at its end.\<close>

fun awaitEvents :: "(string \<Rightarrow> (string \<times> string) option) \<Rightarrow> bool \<Rightarrow> string list \<Rightarrow> exo_error option" where
  "awaitEvents event failed [] = Some (if failed then AwaitStream else AwaitClosed)"
| "awaitEvents event failed (line # lines) =
     (if \<not> hasPrefix line ''data: '' then awaitEvents event failed lines
      else case event (drop 6 line) of
          None \<Rightarrow> awaitEvents event failed lines
        | Some (ty, msg) \<Rightarrow>
            if ty = ''ready'' then None
            else if ty = ''timeout'' then Some (AwaitTimedOut (if msg = [] then ''no instance became ready before timeout'' else msg))
            else awaitEvents event failed lines)"

definition AwaitInstance :: "exo \<Rightarrow> string \<Rightarrow> exo_error option" where
  "AwaitInstance X modelID = (case exAwait X (''/instance/await?model_id='' @ exEscape X modelID) of
       None \<Rightarrow> Some (ExoCall ''/instance/await'')
     | Some (code, lines, failed) \<Rightarrow>
         if code \<ge> 400 then Some (ExoStatus ''/instance/await'' code) else awaitEvents (exEvent X) failed lines)"

definition chatPayload :: "string \<Rightarrow> jobj list \<Rightarrow> bool \<Rightarrow> jobj \<Rightarrow> jobj" where
  "chatPayload modelID messages stream extra =
     [''model'' \<mapsto> JStr modelID, ''messages'' \<mapsto> JArr (map JObj messages), ''stream'' \<mapsto> JBool stream] ++ extra"

definition RunChatCompletion :: "exo \<Rightarrow> string \<Rightarrow> jobj list \<Rightarrow> bool \<Rightarrow> jobj \<Rightarrow> exo_error + jobj" where
  "RunChatCompletion X modelID messages stream extra = exoPostJSON X ''/v1/chat/completions'' (chatPayload modelID messages stream extra)"

definition streamPayload :: "string \<Rightarrow> jobj list \<Rightarrow> jobj \<Rightarrow> jobj" where
  "streamPayload modelID messages extra =
     [''model'' \<mapsto> JStr modelID, ''messages'' \<mapsto> JArr (map JObj messages), ''stream'' \<mapsto> JBool True,
      ''stream_options'' \<mapsto> JObj [''include_usage'' \<mapsto> JBool True]] ++ extra"

text \<open>The operator's calls: the whole catalog, a search in it, and the removal of an instance.\<close>

definition GetAllModels :: "exo \<Rightarrow> exo_error + jobj list" where
  "GetAllModels X = getJSON X ''/models''"

definition SearchModels :: "exo \<Rightarrow> string \<Rightarrow> exo_error + jobj list" where
  "SearchModels X query = getJSON X (''/models/search?query='' @ exEscape X query)"

text \<open>\<open>answer\<close> replies to the DELETE of a path; its body is not read.\<close>

definition DeleteInstance :: "(string \<Rightarrow> http_answer) \<Rightarrow> string \<Rightarrow> exo_error option" where
  "DeleteInstance answer instanceID =
     (let path = ''/instance/'' @ instanceID
      in case answer path of
          NoAnswer \<Rightarrow> Some (ExoCall path)
        | Answer status body \<Rightarrow> if status \<ge> 400 then Some (ExoStatus path status) else None)"

section \<open>Event streams\<close>

text \<open>\<open>usage\<close> decodes a frame to its completion tokens, 0 where there are none.\<close>

definition ExtractUsageTokens :: "(string \<Rightarrow> int option) \<Rightarrow> string \<Rightarrow> int" where
  "ExtractUsageTokens usage line =
     (if \<not> hasPrefix line ''data: '' then 0
      else let payload = drop 6 line
           in if payload = ''[DONE]'' then 0 else case usage payload of None \<Rightarrow> 0 | Some n \<Rightarrow> n)"

text \<open>The relay of a stream: what is written, and the outcome. \<open>failed\<close> is the error of the scanner.\<close>

definition Relay :: "(string \<Rightarrow> int option) \<Rightarrow> string list \<Rightarrow> bool \<Rightarrow> string \<times> stream_outcome" where
  "Relay usage lines failed =
     (concat (map (\<lambda>l. l @ [CHR 0x0A]) lines),
      \<lparr> started = lines \<noteq> [], streamTokens = fold (\<lambda>l t. let n = ExtractUsageTokens usage l in if n > 0 then n else t) lines 0,
        streamErr = failed \<rparr>)"

section \<open>Benchmark\<close>

record Prompt =
  PromptMessages :: "jobj list"
  MaxTokens :: int

definition userMessage :: "string \<Rightarrow> jobj" where
  "userMessage s = [''role'' \<mapsto> JStr ''user'', ''content'' \<mapsto> JStr s]"

definition ReferencePrompts :: "string \<rightharpoonup> Prompt" where
  "ReferencePrompts =
     [''short'' \<mapsto> \<lparr> PromptMessages = [userMessage ''What is 2+2?''], MaxTokens = 20 \<rparr>,
      ''medium'' \<mapsto> \<lparr> PromptMessages = [userMessage (''Explain the difference between pipeline-parallel and expert-parallel '' @
         ''inference sharding in transformer models, including latency implications '' @ ''over a high-latency WAN connection.'')],
         MaxTokens = 250 \<rparr>,
      ''long'' \<mapsto> \<lparr> PromptMessages = [userMessage (''You are analyzing a PostgreSQL query plan. The following EXPLAIN ANALYZE '' @
         ''output shows a sequential scan on a 10M row table with no indexes used. '' @
         ''The query filters on created_at and user_id. Provide: '' @ ''1) Diagnosis of why this plan is slow, '' @
         ''2) Recommended indexes with exact CREATE INDEX statements, '' @ ''3) Estimated improvement after indexing, '' @
         ''4) Downsides of adding these indexes. '' @ ''Query: SELECT * FROM events WHERE created_at > '' @ [CHR 0x27] @ ''2024-01-01'' @
         [CHR 0x27] @ '' '' @ ''AND user_id = 42 ORDER BY created_at DESC LIMIT 100;'')], MaxTokens = 600 \<rparr>]"

definition floatVal :: "jobj \<Rightarrow> string \<Rightarrow> f64" where
  "floatVal m k = (case asNum (m k) of Some v \<Rightarrow> v | None \<Rightarrow> 0)"

definition extractTokenCounts :: "jobj \<Rightarrow> Prompt \<Rightarrow> int \<times> int" where
  "extractTokenCounts result prompt =
     (let (p, c) = (case asObj (result ''usage'') of
            Some usage \<Rightarrow> (fint (floatVal usage ''prompt_tokens''), fint (floatVal usage ''completion_tokens''))
          | None \<Rightarrow> (0, 0));
          p = (if p = 0 then sum_list (map (\<lambda>m. int (length (asString (m ''content'')) div 4)) (PromptMessages prompt)) else p);
          c = (if c = 0 then MaxTokens prompt div 2 else c)
      in (p, c))"

text \<open>The rates of one run that took \<open>elapsed\<close> nanoseconds: decode and prefill.\<close>

definition runRates :: "f64 \<Rightarrow> int \<Rightarrow> int \<Rightarrow> (f64 \<times> f64) option" where
  "runRates elapsed promptTokens completionTokens =
     (let total = f_of_int (wrap64 (promptTokens + completionTokens))
      in if total = 0 \<or> elapsed = 0 then None
         else let prefillFrac = fdiv (f_of_int promptTokens) total;
                  prefillTime = fmul elapsed prefillFrac;
                  decodeTime = fsub elapsed prefillTime
              in Some (if decodeTime > 0 then fdiv (f_of_int completionTokens) decodeTime else 0,
                       if prefillTime > 0 then fdiv (f_of_int promptTokens) prefillTime else 0))"

definition runOnce :: "exo \<Rightarrow> duration \<Rightarrow> string \<Rightarrow> Prompt \<Rightarrow> (f64 \<times> f64) option" where
  "runOnce X elapsed modelID prompt =
     (case RunChatCompletion X modelID (PromptMessages prompt) False [''max_tokens'' \<mapsto> JNum (of_int (MaxTokens prompt))] of
       Inl e \<Rightarrow> None
     | Inr result \<Rightarrow> (case extractTokenCounts result prompt of (p, c) \<Rightarrow> runRates (seconds elapsed) p c))"

definition round2 :: "f64 \<Rightarrow> f64" where
  "round2 f = fdiv (f_of_int (fint (fmul f 100))) 100"

text \<open>The successful runs, in order; run \<open>i\<close> has Exo as \<open>X i\<close> and takes \<open>elapsed i\<close>.\<close>

fun benchRuns :: "(nat \<Rightarrow> exo) \<Rightarrow> (nat \<Rightarrow> duration) \<Rightarrow> string \<Rightarrow> Prompt \<Rightarrow> nat \<Rightarrow> nat \<Rightarrow> (f64 \<times> f64) list" where
  "benchRuns X elapsed modelID prompt i 0 = []"
| "benchRuns X elapsed modelID prompt i (Suc n) =
     (case runOnce (X i) (elapsed i) modelID prompt of None \<Rightarrow> [] | Some r \<Rightarrow> [r]) @ benchRuns X elapsed modelID prompt (Suc i) n"

datatype bench_error = UnknownPrompt string | AllRunsFailed int

definition RunBench :: "(nat \<Rightarrow> exo) \<Rightarrow> (nat \<Rightarrow> duration) \<Rightarrow> string \<Rightarrow> string \<Rightarrow> string \<Rightarrow> int \<Rightarrow> bench_error + MeasuredSignature" where
  "RunBench X elapsed now modelID promptID sampleCount = (case ReferencePrompts promptID of
       None \<Rightarrow> Inl (UnknownPrompt promptID)
     | Some prompt \<Rightarrow>
         let sampleCount = (if sampleCount < 1 then 1 else sampleCount);
             runs = benchRuns X elapsed modelID prompt 0 (nat sampleCount);
             successful = int (length runs)
         in if runs = [] then Inl (AllRunsFailed sampleCount)
            else Inr \<lparr> TokensPerSecDecode = round2 (fdiv (fold (\<lambda>r t. fadd t (fst r)) runs 0) (f_of_int successful)),
                      TokensPerSecPrefill = round2 (fdiv (fold (\<lambda>r t. fadd t (snd r)) runs 0) (f_of_int successful)),
                      MeasuredAt = now, BenchmarkPromptID = promptID, SampleCount = successful \<rparr>)"

section \<open>What a node may advertise\<close>

text \<open>The state reports a finished download of the model on some device.\<close>

definition reported_complete :: "jobj \<Rightarrow> string \<Rightarrow> bool" where
  "reported_complete state modelID \<longleftrightarrow> (\<exists>k entries m inner. subObj state ''downloads'' k = Some (JArr entries) \<and> JObj m \<in> set entries \<and>
     m ''DownloadCompleted'' = Some inner \<and> modelID = extractModelID (case inner of JObj i \<Rightarrow> i | _ \<Rightarrow> Map.empty))"

lemma asObj_default: "(case asObj (Some inner) of Some i \<Rightarrow> i | None \<Rightarrow> Map.empty) = (case inner of JObj i \<Rightarrow> i | _ \<Rightarrow> Map.empty)"
  by (simp add: asObj_def split: json.split)

lemma completedEntry_iff:
  "modelID \<in> set (completedEntry entry) \<longleftrightarrow> modelID \<noteq> [] \<and> (\<exists>m inner. entry = JObj m \<and> m ''DownloadCompleted'' = Some inner \<and>
     modelID = extractModelID (case inner of JObj i \<Rightarrow> i | _ \<Rightarrow> Map.empty))"
proof (cases entry)
  case (JObj m)
  show ?thesis unfolding completedEntry_def asObj_default Let_def by (cases "m ''DownloadCompleted''") (auto simp: JObj asObj_def)
qed (simp_all add: completedEntry_def asObj_def)

lemma completedModelIDs_iff:
  assumes "range_order ks (subObj state ''downloads'')"
  shows "modelID \<in> set (completedModelIDs ks state) \<longleftrightarrow> modelID \<noteq> [] \<and> reported_complete state modelID"
proof -
  have "modelID \<in> set (completedModelIDs ks state) \<longleftrightarrow>
      (\<exists>k \<in> set ks. \<exists>entries. subObj state ''downloads'' k = Some (JArr entries) \<and> (\<exists>e \<in> set entries. modelID \<in> set (completedEntry e)))"
    by (simp add: completedModelIDs_def split: option.split json.split) (metis option.inject json.inject(4))
  also have "\<dots> \<longleftrightarrow> modelID \<noteq> [] \<and> reported_complete state modelID"
    using range_order_mem[OF assms] unfolding completedEntry_iff reported_complete_def by blast
  finally show ?thesis .
qed

text \<open>
  Exactly the models of the catalogue with a finished download are taken: an answer that lists
  everything Exo knows adds none that was not downloaded.
\<close>

lemma GetDownloadedModels_exact:
  assumes "GetDownloadedModels X = Inr ms" "GetState X = Inr state" "range_order (exOrder X ''/state'') (subObj state ''downloads'')"
  obtains catalog where "getJSON X ''/models?downloaded=true'' = Inr catalog"
    "ms = filter (\<lambda>m. asString (m ''id'') \<noteq> [] \<and> reported_complete state (asString (m ''id''))) catalog"
proof -
  obtain catalog where c: "getJSON X ''/models?downloaded=true'' = Inr catalog"
      "ms = filter (\<lambda>m. asString (m ''id'') \<noteq> [] \<and> asString (m ''id'') \<in> set (completedModelIDs (exOrder X ''/state'') state)) catalog"
    using assms(1,2) by (auto simp: GetDownloadedModels_def split: sum.splits)
  then show ?thesis using that[OF c(1)] completedModelIDs_iff[OF assms(3)] by simp
qed

section \<open>What the benchmark measures\<close>

text \<open>
  The time of a run is split in proportion to the token counts, so that prefill and decode get
  one rate, the tokens of both over the whole time: 60 and 200 tokens in ten seconds give 26
  tokens a second twice.
\<close>

lemma rates_coincide:
  "case runRates 10 60 200 of Some (d, p) \<Rightarrow> \<bar>d - 26\<bar> < 1 / 10 ^ 12 \<and> \<bar>p - 26\<bar> < 1 / 10 ^ 12 | None \<Rightarrow> False"
  "case runRates 4 16 512 of Some (d, p) \<Rightarrow> \<bar>d - 132\<bar> < 1 / 10 ^ 12 \<and> \<bar>p - 132\<bar> < 1 / 10 ^ 12 | None \<Rightarrow> False"
  by code_simp+

end
