(* ===== verification/Capability.thy ===== *)
theory Capability
  imports Exo
begin

text \<open>
  What a node says of itself: the memory caps of \<open>internal/governor\<close> and the assembly of the
  capability manifest in \<open>internal/capability\<close>, with the detection of Exo clusters. Memory
  readings, environment variables, the benchmark cache and Exo's answers are arguments.
\<close>

section \<open>Governor\<close>

record virtual_memory =
  vmTotal :: nat
  vmAvailable :: nat
  vmUsedPercent :: f64

definition gibibytes :: "nat \<Rightarrow> f64" where
  "gibibytes n = fdiv (f_of_int (int n)) (2 ^ 30)"

definition AvailableMemoryGB :: "virtual_memory option \<Rightarrow> f64 option" where
  "AvailableMemoryGB v = map_option (\<lambda>v. gibibytes (vmAvailable v)) v"

definition TotalRAMGB :: "virtual_memory option \<Rightarrow> f64 option" where
  "TotalRAMGB v = map_option (\<lambda>v. gibibytes (vmTotal v)) v"

datatype cap_error = BadCap f64 | MemoryUnreadable

text \<open>The two readings are separate.\<close>

definition EnforceContributionCap :: "f64 \<Rightarrow> virtual_memory option \<Rightarrow> virtual_memory option \<Rightarrow> cap_error + f64" where
  "EnforceContributionCap declaredCapPct v1 v2 =
     (if declaredCapPct \<le> 0 \<or> declaredCapPct > 1 then Inl (BadCap declaredCapPct)
      else case TotalRAMGB v1 of
          None \<Rightarrow> Inl MemoryUnreadable
        | Some ram \<Rightarrow> (case AvailableMemoryGB v2 of
            None \<Rightarrow> Inl MemoryUnreadable
          | Some available \<Rightarrow> let cap = fmul declaredCapPct ram in Inr (if available < cap then available else cap)))"

definition SystemInfo :: "string \<Rightarrow> bool \<Rightarrow> virtual_memory option \<Rightarrow> jobj option" where
  "SystemInfo platform appleSilicon v = map_option (\<lambda>v. [''platform'' \<mapsto> JStr platform, ''is_apple_silicon'' \<mapsto> JBool appleSilicon,
     ''total_ram_gb'' \<mapsto> JNum (round2 (gibibytes (vmTotal v))), ''available_ram_gb'' \<mapsto> JNum (round2 (gibibytes (vmAvailable v))),
     ''used_pct'' \<mapsto> JNum (round2 (vmUsedPercent v))]) v"

section \<open>Clusters\<close>

record ClusterInfo =
  ciCluster :: bool
  ciDevices :: int
  ciTotalGB :: f64
  ciChips :: "string list"
  ciSignature :: string
  ciSafeGB :: f64
  ciAvailableGB :: f64

definition soloInfo :: ClusterInfo where
  "soloInfo = \<lparr> ciCluster = False, ciDevices = 1, ciTotalGB = 0, ciChips = [], ciSignature = [], ciSafeGB = 0, ciAvailableGB = 0 \<rparr>"

definition PerDeviceReserveGB :: f64 where "PerDeviceReserveGB = 2"
definition PerDeviceReservePct :: f64 where "PerDeviceReservePct = fl (15 / 100)"

definition perDeviceReserveGB :: "f64 \<Rightarrow> f64" where
  "perDeviceReserveGB deviceTotalGB =
     (let pct = fmul deviceTotalGB PerDeviceReservePct in if pct > PerDeviceReserveGB then pct else PerDeviceReserveGB)"

fun joinComma :: "string list \<Rightarrow> string" where
  "joinComma [] = []"
| "joinComma [s] = s"
| "joinComma (s # ss) = s @ '','' @ joinComma ss"

definition clusterSignature :: "crypto \<Rightarrow> string list \<Rightarrow> string" where
  "clusterSignature C deviceIDs = take 16 (hexEncode (sha256 C (bytes_of (joinComma (sort deviceIDs)))))"

text \<open>\<open>strings.Fields\<close> of ASCII text.\<close>

fun fieldsFrom :: "string \<Rightarrow> string \<Rightarrow> string list" where
  "fieldsFrom word [] = (if word = [] then [] else [word])"
| "fieldsFrom word (c # cs) =
     (if isSpace c then (if word = [] then [] else [word]) @ fieldsFrom [] cs else fieldsFrom (word @ [c]) cs)"

definition chipFamily :: "string \<Rightarrow> string" where
  "chipFamily chipID = (case fieldsFrom [] chipID of w # v # rest \<Rightarrow> w @ '' '' @ v | _ \<Rightarrow> chipID)"

definition extractBytes :: "jobj \<Rightarrow> string \<Rightarrow> f64" where
  "extractBytes m key = floatVal (subObj m key) ''inBytes''"

record cluster_sums =
  csTotal :: f64
  csAvailable :: f64
  csSafe :: f64
  csChips :: "string list"

text \<open>One round of the loop of \<open>aggregateClusterStats\<close>.\<close>

definition addDevice :: "jobj \<Rightarrow> string \<Rightarrow> cluster_sums \<Rightarrow> cluster_sums" where
  "addDevice state i a =
     (let a = (case asObj (subObj state ''nodeMemory'' i) of
            None \<Rightarrow> a
          | Some mem \<Rightarrow>
              let deviceTotal = extractBytes mem ''ramTotal''; deviceAvailable = extractBytes mem ''ramAvailable'';
                  a = (if asNum (subObj mem ''ramTotal'' ''inBytes'') \<noteq> None then a\<lparr> csTotal := fadd (csTotal a) deviceTotal \<rparr> else a);
                  a = (if asNum (subObj mem ''ramAvailable'' ''inBytes'') \<noteq> None then a\<lparr> csAvailable := fadd (csAvailable a) deviceAvailable \<rparr> else a)
              in if deviceTotal > 0
                 then let safe = fsub deviceAvailable (fmul (perDeviceReserveGB (fdiv deviceTotal (2 ^ 30))) (2 ^ 30))
                      in if safe > 0 then a\<lparr> csSafe := fadd (csSafe a) safe \<rparr> else a
                 else a)
      in case asObj (subObj state ''nodeIdentities'' i) of
          None \<Rightarrow> a
        | Some ident \<Rightarrow> if asString (ident ''chipId'') \<noteq> [] then a\<lparr> csChips := csChips a @ [chipFamily (asString (ident ''chipId''))] \<rparr> else a)"

definition aggregateClusterStats :: "jobj \<Rightarrow> string list \<Rightarrow> ClusterInfo" where
  "aggregateClusterStats state deviceIDs =
     (let a = fold (addDevice state) deviceIDs \<lparr> csTotal = 0, csAvailable = 0, csSafe = 0, csChips = [] \<rparr>
      in \<lparr> ciCluster = False, ciDevices = 0, ciTotalGB = fdiv (csTotal a) (2 ^ 30), ciChips = csChips a, ciSignature = [],
           ciSafeGB = fdiv (csSafe a) (2 ^ 30), ciAvailableGB = fdiv (csAvailable a) (2 ^ 30) \<rparr>)"

definition stringItems :: "json list \<Rightarrow> string list" where
  "stringItems xs = concat (map (\<lambda>x. case x of JStr s \<Rightarrow> [s] | _ \<Rightarrow> []) xs)"

definition arrayAt :: "jobj \<Rightarrow> string \<Rightarrow> json list" where
  "arrayAt m k = (case asArr (m k) of Some xs \<Rightarrow> xs | None \<Rightarrow> [])"

text \<open>The topology of a state, without the request for it.\<close>

definition clusterOf :: "crypto \<Rightarrow> string \<Rightarrow> jobj \<Rightarrow> ClusterInfo" where
  "clusterOf C selfID state = (case asObj (state ''topology'') of
       None \<Rightarrow> soloInfo
     | Some topology \<Rightarrow>
         if arrayAt topology ''peers'' \<noteq> [] then
           let deviceIDs = stringItems (arrayAt topology ''peers'')
           in (aggregateClusterStats state deviceIDs)\<lparr> ciCluster := True, ciDevices := int (length deviceIDs) + 1,
                ciSignature := (if selfID \<noteq> [] then clusterSignature C (deviceIDs @ [selfID]) else []) \<rparr>
         else if arrayAt topology ''nodes'' \<noteq> [] then
           let deviceIDs = stringItems (arrayAt topology ''nodes'')
           in if length deviceIDs < 2 then soloInfo
              else (aggregateClusterStats state deviceIDs)\<lparr> ciCluster := True, ciDevices := int (length deviceIDs),
                     ciSignature := clusterSignature C deviceIDs \<rparr>
         else soloInfo)"

definition DetectClusterNode :: "crypto \<Rightarrow> exo \<Rightarrow> string \<Rightarrow> exo_error option \<times> ClusterInfo" where
  "DetectClusterNode C X selfID = (case GetState X of Inl e \<Rightarrow> (Some e, soloInfo) | Inr state \<Rightarrow> (None, clusterOf C selfID state))"

section \<open>Models\<close>

definition inferRuntime :: "text_tables \<Rightarrow> string \<Rightarrow> RuntimeType" where
  "inferRuntime T modelID =
     (if containsStr (lowerText T modelID) ''gguf'' \<or> containsStr (lowerText T modelID) ''ggml'' then RuntimeLlamaCppGGUF else RuntimeExoMLX)"

definition inferQuantization :: "text_tables \<Rightarrow> string \<Rightarrow> string" where
  "inferQuantization T modelID =
     (case find (\<lambda>q. containsStr (filter (\<lambda>c. c \<noteq> CHR ''_'') (lowerText T modelID)) q) [''4bit'', ''8bit'', ''q4'', ''q8'', ''fp16'', ''bf16''] of
       Some q \<Rightarrow> q | None \<Rightarrow> ''unknown'')"

definition isMoE :: "text_tables \<Rightarrow> string \<Rightarrow> bool" where
  "isMoE T modelID = list_ex (containsStr (lowerText T modelID)) [''moe'', ''mixtral'', ''deepseek'']"

fun intField :: "jobj \<Rightarrow> int \<Rightarrow> string list \<Rightarrow> int" where
  "intField m def [] = def"
| "intField m def (k # ks) = (case asNum (m k) of Some v \<Rightarrow> fint v | None \<Rightarrow> intField m def ks)"

definition modelCapability :: "text_tables \<Rightarrow> string list \<Rightarrow> (string \<rightharpoonup> string \<times> int) \<Rightarrow> jobj \<Rightarrow> string \<Rightarrow> ModelCapability" where
  "modelCapability T active drafts m modelID = (let draft = (case drafts modelID of Some d \<Rightarrow> d | None \<Rightarrow> ([], 0)) in
     \<lparr> CapModelID = modelID, Quantization = inferQuantization T modelID, Runtime = inferRuntime T modelID,
       MaxContextTokens = intField m 4096 [''context_length'', ''max_context_tokens''], IsMoE = isMoE T modelID, ExpertShardIDs = [],
       Loaded = (modelID \<in> set active), DraftModelID = fst draft, NumDraftTokens = snd draft \<rparr>)"

definition buildModelList :: "text_tables \<Rightarrow> exo \<Rightarrow> string list \<Rightarrow> (string \<rightharpoonup> string \<times> int) \<Rightarrow> exo_error + ModelCapability list" where
  "buildModelList T X allowedModels drafts = (case GetDownloadedModels X of
       Inl e \<Rightarrow> Inl e
     | Inr raw \<Rightarrow>
         let active = (case GetActiveModels X of Inl e \<Rightarrow> [] | Inr a \<Rightarrow> a)
         in Inr (concat (map (\<lambda>m. let modelID = firstStringField m [''id'', ''model_id'']
              in if modelID = [] \<or> allowedModels \<noteq> [] \<and> modelID \<notin> set allowedModels then []
                 else [modelCapability T active drafts m modelID]) raw)))"

section \<open>The manifest\<close>

record cap_options =
  opCapPct :: f64
  opDeclaredGB :: f64
  opAllowed :: "string list"
  opGeo :: string
  opLat :: f64
  opLng :: f64
  opReachability :: string
  opPrice :: "string \<rightharpoonup> f64"
  opECDH :: string
  opFingerprint :: string
  opPull :: bool
  opDrafts :: "string \<rightharpoonup> string \<times> int"

text \<open>\<open>offset\<close> is the offset of the local zone in seconds.\<close>

definition guessRegion :: "int \<Rightarrow> string" where
  "guessRegion offset =
     (let hours = sgn offset * (\<bar>offset\<bar> div 3600) in if hours \<ge> 8 then ''apac'' else if hours \<ge> - 1 then ''eu'' else ''us'')"

definition DefaultOptions :: "int \<Rightarrow> cap_options" where
  "DefaultOptions offset = \<lparr> opCapPct = 1 / 2, opDeclaredGB = 0, opAllowed = [], opGeo = guessRegion offset, opLat = 0, opLng = 0,
     opReachability = ''http://localhost:8765'',
     opPrice = [''compute_cycles'' \<mapsto> 0, ''memory_hours'' \<mapsto> 0, ''bandwidth_relayed'' \<mapsto> 0],
     opECDH = [], opFingerprint = [], opPull = False, opDrafts = Map.empty \<rparr>"

text \<open>
  The surroundings of an assembly: the first and the second reading of the memory, the
  benchmark cache (None when it cannot be read) with its decoding, \<open>OIM_INITIAL_TPS\<close> as a
  number (0 when unset), the enclave check and \<open>OIM_SIMULATED_NODE\<close>.
\<close>

record cap_env =
  ceTotal :: "virtual_memory option"
  ceAvail :: "virtual_memory option"
  ceExo :: exo
  ceTables :: text_tables
  ceCache :: "MeasuredSignature option option"
  ceInitialTPS :: f64
  ceEnclave :: bool
  ceSimulated :: bool

definition loadLastSignature :: "MeasuredSignature option option \<Rightarrow> f64 \<Rightarrow> MeasuredSignature option" where
  "loadLastSignature cache tps = (case cache of
       Some decoded \<Rightarrow> decoded
     | None \<Rightarrow>
         if tps > 0 then Some \<lparr> TokensPerSecDecode = tps, TokensPerSecPrefill = fmul tps (5 / 2), MeasuredAt = ''1970-01-01T00:00:00Z'',
              BenchmarkPromptID = ''stub'', SampleCount = 0 \<rparr>
         else None)"

text \<open>The cluster a node takes itself for, and its total memory.\<close>

definition clusterAndTotal :: "crypto \<Rightarrow> cap_env \<Rightarrow> bytes \<Rightarrow> cap_options \<Rightarrow> f64 \<Rightarrow> ClusterInfo \<times> f64" where
  "clusterAndTotal C E pubKey opts ram =
     (let totalGB = (if opDeclaredGB opts > 0 then opDeclaredGB opts else ram);
          (err, cluster) = DetectClusterNode C (ceExo E) (NodeIDFromPubKey C pubKey);
          cluster = (if err \<noteq> None then soloInfo else cluster);
          cluster = (if \<not> ciCluster cluster \<and> totalGB \<ge> 128
                     then cluster\<lparr> ciCluster := True, ciDevices := fint (fdiv totalGB 80) \<rparr> else cluster)
      in (cluster, if ciCluster cluster \<and> ciTotalGB cluster > 0 then ciTotalGB cluster else totalGB))"

definition clampCap :: "cap_env \<Rightarrow> cap_options \<Rightarrow> ClusterInfo \<Rightarrow> f64 \<Rightarrow> f64" where
  "clampCap E opts cluster totalGB =
     (let eff = opCapPct opts;
          eff = (if ciCluster cluster \<and> ciTotalGB cluster > 0 \<and> totalGB > 0
                 then (let safePct = fdiv (ciSafeGB cluster) totalGB in if safePct < eff then safePct else eff)
                 else if \<not> ciCluster cluster \<and> opDeclaredGB opts \<le> 0 \<and> totalGB > 0
                 then (case AvailableMemoryGB (ceAvail E) of
                     None \<Rightarrow> eff
                   | Some avail \<Rightarrow>
                       let safe = fsub avail (perDeviceReserveGB totalGB); safe = (if safe < 0 then 0 else safe);
                           safePct = fdiv safe totalGB
                       in if safePct < eff then safePct else eff)
                 else eff)
      in if eff < 0 then 0 else eff)"

definition AssembleManifest :: "crypto \<Rightarrow> cap_env \<Rightarrow> bytes \<Rightarrow> cap_options \<Rightarrow> CapabilityManifest option" where
  "AssembleManifest C E pubKey opts = (case TotalRAMGB (ceTotal E) of
       None \<Rightarrow> None
     | Some ram \<Rightarrow> (case clusterAndTotal C E pubKey opts ram of (cluster, totalGB) \<Rightarrow>
         Some \<lparr> NodeID = NodeIDFromPubKey C pubKey, IsCluster = ciCluster cluster,
                ClusterDeviceCount = (if ciCluster cluster then Some (ciDevices cluster) else None),
                ClusterChipFamilies = ciChips cluster, ClusterSignature = ciSignature cluster,
                DeclaredMemoryGB = round2 totalGB, DeclaredMemoryCapPct = round2 (clampCap E opts cluster totalGB),
                GeographicHint = opGeo opts, GeoLat = opLat opts, GeoLng = opLng opts,
                Models = (case buildModelList (ceTables E) (ceExo E) (opAllowed opts) (opDrafts opts) of Inl e \<Rightarrow> [] | Inr ms \<Rightarrow> ms),
                Measured = loadLastSignature (ceCache E) (ceInitialTPS E), ReachabilityEndpoint = opReachability opts,
                PricePerUnit = opPrice opts, HasSecureEnclave = ceEnclave E, ECDHPublicKey = opECDH opts,
                TLSCertFingerprint = opFingerprint opts, Simulated = ceSimulated E, PullDelivery = opPull opts \<rparr>))"

section \<open>The operator's own view\<close>

record DeviceStat =
  dsDevice :: string
  dsFriendlyName :: string
  dsModel :: string
  dsChip :: string
  dsTotalGB :: f64
  dsAvailableGB :: f64
  dsUsedPct :: f64
  dsGPUPct :: f64
  dsTempC :: f64
  dsPowerW :: f64
  dsPeers :: "string list"

definition deviceStat :: "jobj \<Rightarrow> jobj \<Rightarrow> string \<Rightarrow> DeviceStat" where
  "deviceStat state topology i =
     (let ident = subObj (subObj state ''nodeIdentities'') i; mem = asObj (subObj state ''nodeMemory'' i);
          sys = subObj (subObj state ''nodeSystem'') i; peers = subObj (subObj topology ''connections'') i;
          ram = (case mem of None \<Rightarrow> 0 | Some m \<Rightarrow> extractBytes m ''ramTotal''); avail = (case mem of None \<Rightarrow> 0 | Some m \<Rightarrow> extractBytes m ''ramAvailable'')
      in \<lparr> dsDevice = i, dsFriendlyName = (if asString (ident ''friendlyName'') = [] then i else asString (ident ''friendlyName'')),
           dsModel = asString (ident ''modelId''), dsChip = asString (ident ''chipId''),
           dsTotalGB = round2 (fdiv ram (2 ^ 30)), dsAvailableGB = round2 (fdiv avail (2 ^ 30)),
           dsUsedPct = (if ram > 0 then round2 (fmul 100 (fsub 1 (fdiv avail ram))) else 0),
           dsGPUPct = round2 (fmul (floatVal sys ''gpuUsage'') 100), dsTempC = round2 (floatVal sys ''temp''),
           dsPowerW = round2 (floatVal sys ''sysPower''), dsPeers = sorted_list_of_set (dom peers) \<rparr>)"

text \<open>None of the inner option when there is nothing to draw.\<close>

definition GetDeviceTopology :: "exo \<Rightarrow> exo_error + DeviceStat list option" where
  "GetDeviceTopology X = (case GetState X of
       Inl e \<Rightarrow> Inl e
     | Inr state \<Rightarrow> Inr (case asObj (state ''topology'') of
         None \<Rightarrow> None
       | Some topology \<Rightarrow>
           let deviceIDs = stringItems (arrayAt topology ''nodes'')
           in if deviceIDs = [] then None else Some (map (deviceStat state topology) (sort deviceIDs))))"

section \<open>Rounding to hundredths\<close>

lemma round2_zero: "0 \<le> x \<Longrightarrow> x < 1 / 200 \<Longrightarrow> round2 x = 0"
proof -
  assume x: "0 \<le> x" "x < 1 / 200"
  have "is_f64 (1 / 2)" unfolding is_f64_def by (rule exI[of _ 1], rule exI[of _ "- 1"]) simp
  then have "fl (x * 100) \<le> 1 / 2" using x by (intro fl_le_f64) auto
  then have "\<lfloor>fl (x * 100)\<rfloor> = 0" using fl_nonneg[of "x * 100"] x by (simp add: floor_eq_iff)
  then have "fint (fl (x * 100)) = 0" using fl_nonneg[of "x * 100"] x by (simp add: fint_def ftrunc_def)
  then show ?thesis by (simp add: round2_def)
qed

lemma round2_bounds:
  assumes "0 \<le> x" "x \<le> 2 ^ 40"
  shows "0 \<le> round2 x" "round2 x \<le> x * (1 + 1 / 2 ^ 51)"
proof -
  define y n where "y = fl (x * 100)" and "n = \<lfloor>y\<rfloor>"
  have y: "0 \<le> y" using assms by (simp add: y_def fl_nonneg)
  have "0 \<le> round2 x \<and> round2 x \<le> x * (1 + 1 / 2 ^ 51)"
  proof (cases "x < 1 / 200")
    case True
    then show ?thesis using round2_zero assms(1) by simp
  next
    case False
    then have y2: "y \<le> x * 100 * (1 + 1 / 2 ^ 53)" unfolding y_def by (intro fl_rel(1)) simp
    also have "\<dots> \<le> 2 ^ 40 * 100 * (1 + 1 / 2 ^ 53)" using assms(2) by (intro mult_right_mono) auto
    finally have y3: "y \<le> 2 ^ 40 * 100 * (1 + 1 / 2 ^ 53)" .
    have n: "0 \<le> n" "of_int n \<le> y" using y by (simp_all add: n_def)
    have "(of_int n :: rat) < of_int (2 ^ 52)" using n(2) y3 by simp
    then have n2: "n < 2 ^ 52" by (simp only: of_int_less_iff)
    have "ftrunc y = n" using y by (simp add: ftrunc_def n_def)
    then have f: "fint y = n" using n(1) n2 by (simp add: fint_def)
    have e: "f_of_int n = of_int n" using n(1) n2 by (intro fl_id is_f64_of_int) simp
    have r: "round2 x = fl (of_int n / 100)" by (simp add: round2_def y_def[symmetric] f e)
    have "fl (of_int n / 100) \<le> of_int n / 100 * (1 + 1 / 2 ^ 53)"
    proof (cases "n = 0")
      case False
      then have "1 \<le> (of_int n :: rat)" using n(1) by (simp add: int_one_le_iff_zero_less)
      then show ?thesis by (intro fl_rel(1)) simp
    qed simp
    also have "\<dots> \<le> (x * (1 + 1 / 2 ^ 53)) * (1 + 1 / 2 ^ 53)" using n(2) y2 by (intro mult_right_mono) simp_all
    also have "\<dots> = x * ((1 + 1 / 2 ^ 53) * (1 + 1 / 2 ^ 53))" by simp
    also have "\<dots> \<le> x * (1 + 1 / 2 ^ 51)" using assms(1) by (intro mult_left_mono) simp_all
    finally show ?thesis using n(1) fl_nonneg[of "of_int n / 100"] by (simp add: r)
  qed
  then show "0 \<le> round2 x" "round2 x \<le> x * (1 + 1 / 2 ^ 51)" by simp_all
qed

text \<open>A share of a total, cut to a quotient, does not exceed the dividend.\<close>

lemma share_within:
  assumes "0 < t" "t \<le> 2 ^ 40" "0 \<le> s" "0 \<le> eff" "eff \<le> fl (s / t)" "eff \<le> 2 ^ 40"
  shows "round2 t * round2 eff \<le> s * (1 + 1 / 2 ^ 49)"
proof (cases "eff < 1 / 200")
  case True
  then show ?thesis using round2_zero[OF assms(4)] assms(3) by simp
next
  case False
  have "1 / 2 ^ 60 \<le> s / t"
  proof (rule ccontr)
    assume "\<not> 1 / 2 ^ 60 \<le> s / t"
    moreover have "is_f64 (1 / 2 ^ 60)" unfolding is_f64_def
      by (rule exI[of _ 1], rule exI[of _ "- 60"]) (simp add: power_int_def power_one_over)
    ultimately have "fl (s / t) \<le> 1 / 2 ^ 60" by (intro fl_le_f64) auto
    then show False using False assms(5) by simp
  qed
  then have q: "eff \<le> s / t * (1 + 1 / 2 ^ 53)" using fl_rel(1)[of "s / t"] assms(5) by linarith
  have "round2 t * round2 eff \<le> (t * (1 + 1 / 2 ^ 51)) * (eff * (1 + 1 / 2 ^ 51))"
    using round2_bounds[of t] round2_bounds[OF assms(4,6)] assms(1,2) by (intro mult_mono) auto
  also have "\<dots> \<le> (t * (1 + 1 / 2 ^ 51)) * (s / t * (1 + 1 / 2 ^ 53) * (1 + 1 / 2 ^ 51))"
    using q assms(1) by (intro mult_left_mono mult_right_mono) auto
  also have "\<dots> = s * ((1 + 1 / 2 ^ 51) * (1 + 1 / 2 ^ 53) * (1 + 1 / 2 ^ 51))" using assms(1) by simp
  also have "\<dots> \<le> s * (1 + 1 / 2 ^ 49)" using assms(3) by (intro mult_left_mono) simp_all
  finally show ?thesis .
qed

section \<open>Signatures of rings\<close>

text \<open>The order in which Exo lists the devices does not matter.\<close>

lemma signature_order: "mset ids = mset ids' \<Longrightarrow> clusterSignature C ids = clusterSignature C ids'"
  unfolding clusterSignature_def by (metis properties_for_sort sorted_sort mset_sort)

section \<open>Memory of a machine\<close>

lemma f64_pow2: "is_f64 (2 ^ n)"
  unfolding is_f64_def by (rule exI[of _ 1], rule exI[of _ "int n"]) simp

lemma gibibytes_bounds:
  assumes "0 < n" "n \<le> 2 ^ 60"
  shows "0 < gibibytes n" "gibibytes n \<le> 2 ^ 40"
proof -
  have "1 \<le> f_of_int (int n)" using assms(1) fl_mono[of 1 "of_int (int n)"] by simp
  then have "1 / 2 ^ 30 \<le> f_of_int (int n) / 2 ^ 30" by (intro divide_right_mono) auto
  moreover have "is_f64 (1 / 2 ^ 30)" unfolding is_f64_def
    by (rule exI[of _ 1], rule exI[of _ "- 30"]) (simp add: power_int_def power_one_over)
  ultimately have "1 / 2 ^ 30 \<le> gibibytes n" unfolding gibibytes_def by (intro fl_ge_f64)
  then show "0 < gibibytes n" by (rule less_le_trans[rotated]) simp
  have "(of_int (int n) :: rat) \<le> of_int (2 ^ 60)" using assms(2) by (simp only: of_int_le_iff) simp
  then have "f_of_int (int n) \<le> 2 ^ 60" using fl_le_f64[OF f64_pow2[of 60]] by simp
  then have "f_of_int (int n) / 2 ^ 30 \<le> 2 ^ 40" by (simp add: field_simps)
  then show "gibibytes n \<le> 2 ^ 40" unfolding gibibytes_def by (intro fl_le_f64 f64_pow2)
qed

lemma soloInfo_simps [simp]: "ciCluster soloInfo = False" "ciTotalGB soloInfo = 0"
  by (simp_all add: soloInfo_def)

lemma clusterOf_total: "0 < ciTotalGB (clusterOf C i state) \<Longrightarrow> ciCluster (clusterOf C i state)"
  by (auto simp: clusterOf_def Let_def split: option.splits if_splits)

lemma reserve_bounds: "0 < perDeviceReserveGB x" "is_f64 (perDeviceReserveGB x)"
  using f64_pow2[of 1] by (auto simp: perDeviceReserveGB_def PerDeviceReserveGB_def Let_def)

lemma clamp_bounds: "0 \<le> clampCap E opts cluster t" "0 \<le> opCapPct opts \<Longrightarrow> clampCap E opts cluster t \<le> opCapPct opts"
  by (auto simp: clampCap_def Let_def split: option.splits)

lemma clamp_solo:
  assumes "\<not> ciCluster cluster" "opDeclaredGB opts \<le> 0" "0 < t" "ceAvail E = Some v"
  shows "clampCap E opts cluster t \<le> fl (max 0 (fsub (gibibytes (vmAvailable v)) (perDeviceReserveGB t)) / t)"
  using assms fl_nonneg[of "max 0 (fsub (gibibytes (vmAvailable v)) (perDeviceReserveGB t)) / t"]
  by (auto simp: clampCap_def AvailableMemoryGB_def Let_def max_def)

lemma clamp_cluster:
  assumes "ciCluster cluster" "0 < ciTotalGB cluster" "0 < t" "0 \<le> ciSafeGB cluster"
  shows "clampCap E opts cluster t \<le> fl (ciSafeGB cluster / t)"
  using assms fl_nonneg[of "ciSafeGB cluster / t"] by (auto simp: clampCap_def Let_def)

lemma safe_nonneg: "0 \<le> ciSafeGB (clusterOf C i state)"
proof -
  have step: "0 \<le> csSafe a \<Longrightarrow> 0 \<le> csSafe (addDevice state i a)" for a i
    by (auto simp: addDevice_def Let_def intro!: fl_nonneg split: option.split)
  have "0 \<le> csSafe a \<Longrightarrow> 0 \<le> csSafe (fold (addDevice state) ids a)" for ids a
    by (induction ids arbitrary: a) (auto intro: step)
  then have "0 \<le> ciSafeGB (aggregateClusterStats state ids)" for ids
    by (simp add: aggregateClusterStats_def Let_def fl_nonneg)
  then show ?thesis by (simp add: clusterOf_def soloInfo_def Let_def split: option.split)
qed

definition bareExo :: exo where
  "bareExo = \<lparr> exGet = (\<lambda>p. NoAnswer), exPost = (\<lambda>p b. NoAnswer), exOrder = (\<lambda>p. []), exAwait = (\<lambda>p. None), exEscape = (\<lambda>s. s),
     exEvent = (\<lambda>s. None) \<rparr>"

definition sampleCapEnv :: cap_env where
  "sampleCapEnv = \<lparr> ceTotal = Some \<lparr> vmTotal = 17179869184, vmAvailable = 0, vmUsedPercent = 0 \<rparr>,
     ceAvail = Some \<lparr> vmTotal = 0, vmAvailable = 6442450944, vmUsedPercent = 0 \<rparr>, ceExo = bareExo, ceTables = asciiText, ceCache = None,
     ceInitialTPS = 0, ceEnclave = False, ceSimulated = False \<rparr>"

lemma gibibytes_exact: assumes "n = g * 1073741824" "g \<le> 1024" shows "gibibytes n = of_nat g"
proof -
  have "f_of_int (int n) = of_int (int n)" using assms by (intro fl_id is_f64_of_int) simp
  moreover have "fl (of_nat g) = of_nat g" using assms(2) by (intro fl_id is_f64_of_nat) simp
  ultimately show ?thesis using assms(1) by (simp add: gibibytes_def)
qed

lemma assembled:
  assumes "ceTotal E = Some v" "clusterAndTotal C E pub opts (gibibytes (vmTotal v)) = (cluster, t)"
  shows "\<exists>m. AssembleManifest C E pub opts = Some m \<and> IsCluster m = ciCluster cluster"
  using assms by (simp add: AssembleManifest_def TotalRAMGB_def)

section \<open>Properties\<close>



end
