(* ===== verification/JobRunner.thy ===== *)
theory JobRunner
  imports Capability Requests
begin

text \<open>
  Running a job on a node: \<open>internal/jobrunner\<close>, which checks that the node may work and hands
  the messages to Exo, and \<open>internal/payloadcrypto\<close> with the fetch of an encrypted payload in
  \<open>internal/agent\<close>. Exo, the memory readings, the network and the primitives of Go's crypto
  packages are arguments; an answer \<open>null\<close> of Exo is the empty object.
\<close>

section \<open>The runner\<close>

text \<open>
  \<open>rnStream\<close> answers the streaming POST: its status, its lines and whether reading them
  failed; \<open>rnUsage\<close> decodes the usage of a frame.
\<close>

record runner =
  rnExo :: exo
  rnDrafts :: "string \<rightharpoonup> string \<times> int"
  rnStream :: "jobj \<Rightarrow> (int \<times> string list \<times> bool) option"
  rnUsage :: "string \<Rightarrow> int option"

text \<open>
  What the machine answers during one execution: the foreground group of the terminal with the
  group of the process (None without a terminal), and the two readings of the memory.
\<close>

record host =
  hsGroups :: "(int \<times> int) option"
  hsTotal :: "virtual_memory option"
  hsAvail :: "virtual_memory option"

definition IsForegrounded :: "host \<Rightarrow> bool" where
  "IsForegrounded h = (case hsGroups h of None \<Rightarrow> True | Some (foreground, own) \<Rightarrow> foreground = own)"

definition draftExtra :: "runner \<Rightarrow> string \<Rightarrow> jobj" where
  "draftExtra r modelID = (case rnDrafts r modelID of
       None \<Rightarrow> Map.empty
     | Some (draft, n) \<Rightarrow>
         if draft = [] then Map.empty
         else [''draft_model'' \<mapsto> JStr draft] ++ (if n > 0 then [''num_draft_tokens'' \<mapsto> JNum (of_int n)] else Map.empty))"

datatype decrypt_error = BadPoint | ECDHFailed | DeriveFailed | CipherFailed | TooShort | OpenFailed

datatype payload_error = NoECDHIdentity | FetchRefused fetch_error | EphemeralDecode | FetchRequest | FetchFailed | FetchStatus int
  | FetchRead | DecryptFailed decrypt_error | ParseMessages

datatype run_error = NotForegrounded | CapUnread cap_error | NoMemoryToCommit f64 | FastFailed exo_error | StreamFailed exo_error
  | StreamRead | BackgroundFailed exo_error | PreviewFailed exo_error | NoPlacement string | CreateFailed exo_error
  | AwaitFailed exo_error | PayloadFailed payload_error

definition RefuseIfConstrained :: "host \<Rightarrow> f64 \<Rightarrow> run_error option" where
  "RefuseIfConstrained h capPct =
     (if \<not> IsForegrounded h then Some NotForegrounded
      else case EnforceContributionCap capPct (hsTotal h) (hsAvail h) of
          Inl e \<Rightarrow> Some (CapUnread e)
        | Inr committed \<Rightarrow> if committed \<le> 0 then Some (NoMemoryToCommit committed) else None)"

definition ExecuteFastLane :: "runner \<Rightarrow> host \<Rightarrow> JobSpec \<Rightarrow> jobj list \<Rightarrow> f64 \<Rightarrow> run_error + jobj" where
  "ExecuteFastLane r h spec messages capPct = (case RefuseIfConstrained h capPct of
       Some e \<Rightarrow> Inl e
     | None \<Rightarrow> (case RunChatCompletion (rnExo r) (ModelID spec) messages False (draftExtra r (ModelID spec)) of
           Inl e \<Rightarrow> Inl (FastFailed e) | Inr result \<Rightarrow> Inr result))"

definition ExecuteBackgroundLane :: "runner \<Rightarrow> host \<Rightarrow> JobSpec \<Rightarrow> jobj list \<Rightarrow> f64 \<Rightarrow> bool \<Rightarrow> run_error + jobj" where
  "ExecuteBackgroundLane r h spec messages capPct isContinuation = (case RefuseIfConstrained h capPct of
       Some e \<Rightarrow> Inl e
     | None \<Rightarrow> (case RunChatCompletion (rnExo r) (ModelID spec) messages False
             ([''oim_is_continuation'' \<mapsto> JBool isContinuation] ++ draftExtra r (ModelID spec)) of
           Inl e \<Rightarrow> Inl (BackgroundFailed e) | Inr result \<Rightarrow> Inr result))"

definition WarmModelNow :: "runner \<Rightarrow> string \<Rightarrow> run_error + jobj" where
  "WarmModelNow r modelID = (case PreviewInstancePlacements (rnExo r) modelID of
       Inl e \<Rightarrow> Inl (PreviewFailed e)
     | Inr placements \<Rightarrow>
         if placements = [] then Inl (NoPlacement modelID)
         else case CreateInstance (rnExo r) (hd placements) of
             Inl e \<Rightarrow> Inl (CreateFailed e)
           | Inr command \<Rightarrow> (case AwaitInstance (rnExo r) modelID of
               Some e \<Rightarrow> Inl (AwaitFailed e)
             | None \<Rightarrow> Inr [''warmed'' \<mapsto> JBool True, ''model_id'' \<mapsto> JStr modelID]))"

definition StreamChatCompletion :: "(jobj \<Rightarrow> (int \<times> string list \<times> bool) option) \<Rightarrow> string \<Rightarrow> jobj list \<Rightarrow> jobj \<Rightarrow>
    exo_error + string list \<times> bool" where
  "StreamChatCompletion answer modelID messages extra = (case answer (streamPayload modelID messages extra) of
       None \<Rightarrow> Inl (ExoCall ''/v1/chat/completions'')
     | Some (code, lines, failed) \<Rightarrow>
         if code \<ge> 400 then Inl (ExoStatus ''/v1/chat/completions'' code) else Inr (lines, failed))"

text \<open>The text relayed to the caller, the tokens, whether anything was sent, and the error.\<close>

definition ExecuteFastLaneStreaming :: "runner \<Rightarrow> host \<Rightarrow> JobSpec \<Rightarrow> jobj list \<Rightarrow> f64 \<Rightarrow> string \<times> int \<times> bool \<times> run_error option" where
  "ExecuteFastLaneStreaming r h spec messages capPct = (case RefuseIfConstrained h capPct of
       Some e \<Rightarrow> ([], 0, False, Some e)
     | None \<Rightarrow> (case StreamChatCompletion (rnStream r) (ModelID spec) messages (draftExtra r (ModelID spec)) of
           Inl e \<Rightarrow> ([], 0, False, Some (StreamFailed e))
         | Inr (lines, failed) \<Rightarrow> (case Relay (rnUsage r) lines failed of (relayed, out) \<Rightarrow>
             (relayed, streamTokens out, started out, if streamErr out then Some StreamRead else None))))"

section \<open>Encrypted payloads\<close>

text \<open>
  The P-256, HKDF and AES-GCM primitives: whether bytes are a point, the public key of a
  private key, the agreement, key derivation, whether a key makes a cipher, seal and open.
\<close>

record payload_lib =
  plPoint :: "bytes \<Rightarrow> bool"
  plPublic :: "bytes \<Rightarrow> bytes"
  plECDH :: "bytes \<Rightarrow> bytes \<Rightarrow> bytes option"
  plHKDF :: "bytes \<Rightarrow> string \<Rightarrow> nat \<Rightarrow> bytes option"
  plCipher :: "bytes \<Rightarrow> bool"
  plSeal :: "bytes \<Rightarrow> bytes \<Rightarrow> bytes \<Rightarrow> bytes"
  plOpen :: "bytes \<Rightarrow> bytes \<Rightarrow> bytes \<Rightarrow> bytes option"

definition hkdfInfo :: string where "hkdfInfo = ''oim-payload-v1''"
definition aesKeyLen :: nat where "aesKeyLen = 32"
definition gcmNonceLen :: nat where "gcmNonceLen = 12"

definition deriveKey :: "payload_lib \<Rightarrow> bytes \<Rightarrow> bytes option" where
  "deriveKey L shared = plHKDF L shared hkdfInfo aesKeyLen"

definition Decrypt :: "payload_lib \<Rightarrow> bytes \<Rightarrow> bytes \<Rightarrow> bytes \<Rightarrow> decrypt_error + bytes" where
  "Decrypt L recipientPriv ephemeralPub combined =
     (if \<not> plPoint L ephemeralPub then Inl BadPoint
      else case plECDH L recipientPriv ephemeralPub of
          None \<Rightarrow> Inl ECDHFailed
        | Some shared \<Rightarrow> (case deriveKey L shared of
            None \<Rightarrow> Inl DeriveFailed
          | Some key \<Rightarrow>
              if \<not> plCipher L key then Inl CipherFailed
              else if length combined < gcmNonceLen then Inl TooShort
              else case plOpen L key (take gcmNonceLen combined) (drop gcmNonceLen combined) of
                  None \<Rightarrow> Inl OpenFailed | Some plaintext \<Rightarrow> Inr plaintext))"

text \<open>\<open>ephemeralPriv\<close> and \<open>nonce\<close> are what the random source gives.\<close>

definition Encrypt :: "payload_lib \<Rightarrow> bytes \<Rightarrow> bytes option \<Rightarrow> bytes option \<Rightarrow> bytes \<Rightarrow> (bytes \<times> bytes) option" where
  "Encrypt L recipientPub ephemeralPriv nonce plaintext = (case ephemeralPriv of
       None \<Rightarrow> None
     | Some priv \<Rightarrow> (case plECDH L priv recipientPub of
         None \<Rightarrow> None
       | Some shared \<Rightarrow> (case deriveKey L shared of
           None \<Rightarrow> None
         | Some key \<Rightarrow>
             if \<not> plCipher L key then None
             else case nonce of None \<Rightarrow> None | Some n \<Rightarrow> Some (plPublic L priv, n @ plSeal L key n plaintext))))"

text \<open>
  How a node reaches a payload: the libraries, its key (None without one), what a GET of a URL
  ends with, and \<open>json.Unmarshal\<close> into a list of messages.
\<close>

datatype fetched = NoFetchRequest | FetchBroken | Fetched int "bytes option"

record payload_source =
  psNet :: netlib
  psParseURL :: "string \<Rightarrow> (string \<times> string) option"
  psLookupIP :: "string \<Rightarrow> bytes list option"
  psKey :: "bytes option"
  psGet :: "string \<Rightarrow> fetched"
  psLib :: payload_lib
  psDecode :: "bytes \<Rightarrow> jobj list option"

definition maxPayloadBytes :: nat where "maxPayloadBytes = 8388608"

definition fetchAndDecryptPayload :: "payload_source \<Rightarrow> string \<Rightarrow> string \<Rightarrow> payload_error + jobj list" where
  "fetchAndDecryptPayload P fetchURL ephemeralB64 = (case psKey P of
       None \<Rightarrow> Inl NoECDHIdentity
     | Some priv \<Rightarrow> (case ValidateFetchURL (psNet P) (psParseURL P) (psLookupIP P) fetchURL of
         Some e \<Rightarrow> Inl (FetchRefused e)
       | None \<Rightarrow> (case b64Decode ephemeralB64 of
           None \<Rightarrow> Inl EphemeralDecode
         | Some ephemeral \<Rightarrow> (case psGet P fetchURL of
             NoFetchRequest \<Rightarrow> Inl FetchRequest
           | FetchBroken \<Rightarrow> Inl FetchFailed
           | Fetched code body \<Rightarrow>
               if code \<ge> 400 then Inl (FetchStatus code)
               else case body of
                   None \<Rightarrow> Inl FetchRead
                 | Some b \<Rightarrow> (case Decrypt (psLib P) priv ephemeral (take maxPayloadBytes b) of
                     Inl e \<Rightarrow> Inl (DecryptFailed e)
                   | Inr plaintext \<Rightarrow> (case psDecode P plaintext of None \<Rightarrow> Inl ParseMessages | Some ms \<Rightarrow> Inr ms))))))"

text \<open>\<open>base64.StdEncoding\<close>, which the node uses to publish its key.\<close>

definition b64Char :: "nat \<Rightarrow> char" where
  "b64Char n = (if n < 26 then char_of (n + 65) else if n < 52 then char_of (n + 71) else if n < 62 then char_of (n - 4)
     else if n = 62 then CHR ''+'' else CHR ''/'')"

fun b64Encode :: "bytes \<Rightarrow> string" where
  "b64Encode [] = []"
| "b64Encode [a] = [b64Char (unat a div 4), b64Char (16 * (unat a mod 4)), CHR ''='', CHR ''='']"
| "b64Encode [a, b] = [b64Char (unat a div 4), b64Char (16 * (unat a mod 4) + unat b div 16), b64Char (4 * (unat b mod 16)), CHR ''='']"
| "b64Encode (a # b # c # rest) =
     b64Char (unat a div 4) # b64Char (16 * (unat a mod 4) + unat b div 16) # b64Char (4 * (unat b mod 16) + unat c div 64) #
     b64Char (unat c mod 64) # b64Encode rest"

section \<open>Lemmas\<close>

lemma b64Value_Char: "n < 64 \<Longrightarrow> b64Value (b64Char n) = Some n"
  by (auto simp: b64Value_def b64Char_def Let_def)

lemma b64Char_plain:
  assumes "n < 64"
  shows "b64Char n \<noteq> CHR ''=''" "(of_char (b64Char n) :: nat) \<noteq> 10" "(of_char (b64Char n) :: nat) \<noteq> 13"
  using b64Value_Char[OF assms] by (auto simp: b64Value_def)

lemma byte_less: "unat (a :: 8 word) < 256"
  using unsigned_less[of a, where 'a = nat] by simp

lemma byte_parts:
  "unat (a :: 8 word) div 4 < 64" "unat a mod 4 < 4" "unat a mod 16 < 16" "unat a mod 64 < 64"
  "unat a div 16 < 16" "unat a div 64 < 4"
  using byte_less[of a] by simp_all

lemma pack_less: "(x :: nat) < 4 \<Longrightarrow> y < 16 \<Longrightarrow> 16 * x + y < 64" "(x :: nat) < 16 \<Longrightarrow> y < 4 \<Longrightarrow> 4 * x + y < 64"
  "(x :: nat) < 4 \<Longrightarrow> 16 * x < 64" "(x :: nat) < 16 \<Longrightarrow> 4 * x < 64"
  by simp_all

lemma unpack: "(y :: nat) < 16 \<Longrightarrow> (16 * x + y) div 16 = x" "(y :: nat) < 16 \<Longrightarrow> (16 * x + y) mod 16 = y"
  "(y :: nat) < 4 \<Longrightarrow> (4 * x + y) div 4 = x" "(y :: nat) < 4 \<Longrightarrow> (4 * x + y) mod 4 = y"
  by simp_all

lemmas b64_ranges = byte_parts pack_less(1)[OF byte_parts(2) byte_parts(5)] pack_less(2)[OF byte_parts(3) byte_parts(6)]
  pack_less(3)[OF byte_parts(2)] pack_less(4)[OF byte_parts(3)]

lemma byte_join:
  "word_of_nat (4 * (unat a div 4) + (16 * (unat a mod 4) + unat (b :: 8 word) div 16) div 16) = (a :: 8 word)"
  "word_of_nat (16 * ((16 * (unat a mod 4) + unat b div 16) mod 16) + (4 * (unat b mod 16) + unat (c :: 8 word) div 64) div 4) = (b :: 8 word)"
  "word_of_nat (64 * ((4 * (unat b mod 16) + unat c div 64) mod 4) + unat c mod 64) = (c :: 8 word)"
  unfolding unpack(1,2)[OF byte_parts(5)] unpack(3,4)[OF byte_parts(6)] mult_div_mod_eq by simp_all

text \<open>A group that ends early packs its last bits with zeros.\<close>

lemma byte_join_last:
  "word_of_nat (4 * (unat a div 4) + 16 * (unat a mod 4) div 16) = (a :: 8 word)"
  "word_of_nat (16 * ((16 * (unat a mod 4) + unat b div 16) mod 16) + 4 * (unat b mod 16) div 4) = (b :: 8 word)"
  using byte_join(1)[of a 0] byte_join(2)[of a b 0] by simp_all

lemma b64_no_breaks: "c \<in> set (b64Encode bs) \<Longrightarrow> (of_char c :: nat) \<noteq> 10 \<and> (of_char c :: nat) \<noteq> 13"
  by (induction bs rule: b64Encode.induct) (auto simp: b64Char_plain b64_ranges)

lemma b64_roundtrip: "b64Decode (b64Encode bs) = Some bs"
proof -
  have "b64Groups (b64Encode bs) = Some bs"
  proof (induction bs rule: b64Encode.induct)
    case (2 a)
    have "b64Groups (b64Encode [a]) = Some (take 1 (b64Bytes (unat a div 4) (16 * (unat a mod 4)) 0 0))"
      by (simp only: b64Encode.simps b64Groups.simps b64Value_Char[OF b64_ranges(1)] b64Value_Char[OF b64_ranges(9)] option.case prod.case) simp
    then show ?case unfolding b64Bytes_def byte_join_last by simp
  next
    case (3 a b)
    show ?case
      by (simp only: b64Encode.simps b64Groups.simps b64Value_Char[OF b64_ranges(1)] b64Value_Char[OF b64_ranges(7)]
          b64Value_Char[OF b64_ranges(10)] b64Char_plain(1)[OF b64_ranges(10)] option.case prod.case b64Bytes_def byte_join(1) byte_join_last) simp
  next
    case (4 a b c rest)
    show ?case
      by (simp only: b64Encode.simps b64Groups.simps b64Value_Char[OF b64_ranges(1)] b64Value_Char[OF b64_ranges(7)]
          b64Value_Char[OF b64_ranges(8)] b64Value_Char[OF b64_ranges(4)] b64Char_plain(1)[OF b64_ranges(8)] b64Char_plain(1)[OF b64_ranges(4)]
          option.case prod.case b64Bytes_def byte_join 4) simp
  qed simp
  moreover have "filter (\<lambda>c. (of_char c :: nat) \<noteq> 10 \<and> (of_char c :: nat) \<noteq> 13) (b64Encode bs) = b64Encode bs"
    using b64_no_breaks by (simp add: filter_id_conv)
  ultimately show ?thesis by (simp add: b64Decode_def)
qed

text \<open>A node that must not work answers without asking Exo, in every lane but the warm-up.\<close>

lemma constrained_never_reaches_exo:
  assumes "RefuseIfConstrained h capPct = Some e"
  shows "ExecuteFastLane r h spec ms capPct = Inl e" "ExecuteBackgroundLane r h spec ms capPct cont = Inl e"
    "ExecuteFastLaneStreaming r h spec ms capPct = ([], 0, False, Some e)"
  using assms by (simp_all add: ExecuteFastLane_def ExecuteBackgroundLane_def ExecuteFastLaneStreaming_def)

lemma RefuseIfConstrained_None:
  "RefuseIfConstrained h capPct = None \<longleftrightarrow> IsForegrounded h \<and> (\<exists>g. EnforceContributionCap capPct (hsTotal h) (hsAvail h) = Inr g \<and> 0 < g)"
  by (auto simp: RefuseIfConstrained_def split: sum.splits)

text \<open>What the primitives promise: both sides agree on a secret, and opening undoes sealing.\<close>

definition honest_lib :: "payload_lib \<Rightarrow> bytes \<Rightarrow> bytes \<Rightarrow> bool" where
  "honest_lib L a b \<longleftrightarrow> plPoint L (plPublic L a) \<and> plECDH L b (plPublic L a) = plECDH L a (plPublic L b) \<and>
     (\<forall>k n p. length n = gcmNonceLen \<longrightarrow> plOpen L k n (plSeal L k n p) = Some p)"

lemma Decrypt_Encrypt:
  assumes "honest_lib L ephemeral recipient" "length nonce = gcmNonceLen"
    and "Encrypt L (plPublic L recipient) (Some ephemeral) (Some nonce) plaintext = Some (pub, combined)"
  shows "Decrypt L recipient pub combined = Inr plaintext" "pub = plPublic L ephemeral"
  using assms by (auto simp: Encrypt_def Decrypt_def honest_lib_def split: option.splits if_splits)

section \<open>Properties\<close>

text \<open>
  C36. An encrypted job reaches its node intact. What a client encrypts to the public key of a
  node, with a key of its own that it sends along in base64, the node decrypts to exactly the
  messages of the client, when the address is allowed and serves the ciphertext.
\<close>

theorem payload_roundtrip:
  assumes "psKey P = Some recipient" "honest_lib (psLib P) ephemeral recipient" "length nonce = gcmNonceLen"
    and "Encrypt (psLib P) (plPublic (psLib P) recipient) (Some ephemeral) (Some nonce) plaintext = Some (pub, combined)"
    and "psDecode P plaintext = Some ms" "length combined \<le> maxPayloadBytes"
    and "ValidateFetchURL (psNet P) (psParseURL P) (psLookupIP P) url = None" "psGet P url = Fetched code (Some combined)" "code < 400"
  shows "fetchAndDecryptPayload P url (b64Encode pub) = Inr ms"
proof -
  have "Decrypt (psLib P) recipient pub (take maxPayloadBytes combined) = Inr plaintext"
    using Decrypt_Encrypt[OF assms(2,3,4)] assms(6) by simp
  then show ?thesis using assms by (simp add: fetchAndDecryptPayload_def b64_roundtrip)
qed

definition toyPayload :: payload_source where
  "toyPayload = \<lparr> psNet = \<lparr> splitHostPort = (\<lambda>s. None), parseIP = (\<lambda>s. Some [8, 8, 8, 8]), parseCIDR = (\<lambda>s. None) \<rparr>,
     psParseURL = (\<lambda>s. Some (''https'', ''h'')), psLookupIP = (\<lambda>s. None), psKey = Some [7],
     psGet = (\<lambda>u. Fetched 200 (Some (replicate 12 0 @ [12, 12, 5]))),
     psLib = \<lparr> plPoint = (\<lambda>p. True), plPublic = (\<lambda>k. k), plECDH = (\<lambda>k p. Some [hd k + hd p]), plHKDF = (\<lambda>s i n. Some s),
       plCipher = (\<lambda>k. True), plSeal = (\<lambda>k n p. k @ k @ p), plOpen = (\<lambda>k n c. Some (drop (2 * length k) c)) \<rparr>,
     psDecode = (\<lambda>b. Some [Map.empty]) \<rparr>"

theorem payload_roundtrip_witness:
  "fetchAndDecryptPayload toyPayload ''https://h'' (b64Encode [5]) = Inr [Map.empty]"
proof -
  have v: "ValidateFetchURL (psNet toyPayload) (psParseURL toyPayload) (psLookupIP toyPayload) ''https://h'' = None"
    by (simp add: ValidateFetchURL_def toyPayload_def) code_simp
  show ?thesis
    by (rule payload_roundtrip[where recipient = "[7]" and ephemeral = "[5]" and nonce = "replicate 12 0" and plaintext = "[5]" and code = 200, OF _ _ _ _ _ _ v])
      (simp_all add: toyPayload_def honest_lib_def Encrypt_def deriveKey_def gcmNonceLen_def maxPayloadBytes_def)
qed

end
