(* ===== verification/NodeConfig.thy ===== *)
theory NodeConfig
  imports Splitter Hints
begin

text \<open>
  The settings of a node, \<open>internal/nodeconfig\<close>: the stored configuration with its validation,
  and the contribution schedule. Unicode tables, URL parsing and JSON are arguments. A local
  time is a weekday, Sunday being 0, with hour and minute.
\<close>

section \<open>Schedule\<close>

definition ScheduleModeAlways :: string where "ScheduleModeAlways = ''always''"
definition ScheduleModeWindow :: string where "ScheduleModeWindow = ''window''"

record Schedule =
  ScheduleMode :: string
  DailyStart :: string
  DailyEnd :: string
  Days :: "string list"

record local_time =
  ltWeekday :: int
  ltHour :: int
  ltMinute :: int

text \<open>\<open>strconv.Atoi\<close>: None for the error.\<close>

definition goAtoi :: "string \<Rightarrow> int option" where
  "goAtoi s =
     (let ds = (if hasPrefix s ''-'' \<or> hasPrefix s ''+'' then drop 1 s else s);
          n = fold (\<lambda>c n. 10 * n + int (digitValue c)) ds 0;
          v = (if hasPrefix s ''-'' then - n else n)
      in if ds = [] \<or> \<not> list_all isDigit ds \<or> v < - (2 ^ 63) \<or> v \<ge> 2 ^ 63 then None else Some v)"

definition parseHHMM :: "string \<Rightarrow> int option" where
  "parseHHMM s = (case indexOf s '':'' of
       None \<Rightarrow> None
     | Some i \<Rightarrow> (case goAtoi (take i s) of
           None \<Rightarrow> None
         | Some h \<Rightarrow>
             if h < 0 \<or> h > 23 then None
             else (case goAtoi (drop (i + 1) s) of
                 None \<Rightarrow> None
               | Some m \<Rightarrow> if m < 0 \<or> m > 59 then None else Some (h * 60 + m))))"

definition weekdayName :: "int \<Rightarrow> string" where
  "weekdayName wd = [''sun'', ''mon'', ''tue'', ''wed'', ''thu'', ''fri'', ''sat''] ! nat (wd mod 7)"

definition dayAllowed :: "text_tables \<Rightarrow> string list \<Rightarrow> int \<Rightarrow> bool" where
  "dayAllowed T days wd =
     (if days = [] then True else list_ex (\<lambda>d. lowerText T (trimText T d) = weekdayName wd) days)"

definition IsActiveNow :: "text_tables \<Rightarrow> local_time \<Rightarrow> Schedule \<Rightarrow> bool" where
  "IsActiveNow T t s =
     (if ScheduleMode s \<noteq> ScheduleModeWindow then True
      else case (parseHHMM (DailyStart s), parseHHMM (DailyEnd s)) of
          (Some start, Some stop) \<Rightarrow>
            let nowMin = ltHour t * 60 + ltMinute t
            in if start \<le> stop then dayAllowed T (Days s) (ltWeekday t) \<and> nowMin \<ge> start \<and> nowMin < stop
               else if nowMin \<ge> start then dayAllowed T (Days s) (ltWeekday t)
               else if nowMin < stop then dayAllowed T (Days s) (ltWeekday t - 1)
               else False
        | _ \<Rightarrow> True)"

section \<open>Configuration\<close>

record node_draft =
  ndModel :: string
  ndTokens :: int

record node_config =
  ncExoURL :: string
  ncMemoryCapPct :: f64
  ncGeographicHint :: string
  ncReachability :: string
  ncPodEndpoint :: string
  ncAllowedModels :: "string list"
  ncSensitivityCap :: string
  ncSchedule :: Schedule
  ncDraftModels :: "string \<rightharpoonup> node_draft"

definition DefaultNodeConfig :: node_config where
  "DefaultNodeConfig = \<lparr> ncExoURL = ''http://localhost:52415'', ncMemoryCapPct = 1 / 2, ncGeographicHint = ''us'', ncReachability = [],
     ncPodEndpoint = [], ncAllowedModels = [], ncSensitivityCap = ''moderate'',
     ncSchedule = \<lparr> ScheduleMode = [], DailyStart = [], DailyEnd = [], Days = [] \<rparr>, ncDraftModels = Map.empty \<rparr>"

datatype config_error = CapOutOfRange f64 | UnknownCap string | InvalidURL string string | BadStart string | BadEnd string
  | UnknownMode string | UnknownDay string | EmptyDraftKey | MissingDraft string | NegativeDraft string int
  | ConfigRead | ConfigParse | ConfigDir | ConfigWrite

definition validSensitivityCaps :: "string list" where
  "validSensitivityCaps = [''low'', ''moderate'', ''high_requires_attestation'']"

definition validWeekdays :: "string list" where
  "validWeekdays = [''mon'', ''tue'', ''wed'', ''thu'', ''fri'', ''sat'', ''sun'']"

text \<open>\<open>parseURL\<close> gives scheme and host, None for the error of \<open>url.Parse\<close>.\<close>

definition validHTTPURL :: "(string \<Rightarrow> (string \<times> string) option) \<Rightarrow> string \<Rightarrow> bool" where
  "validHTTPURL parseURL raw = (case parseURL raw of
       None \<Rightarrow> False
     | Some (scheme, host) \<Rightarrow> (scheme = ''http'' \<or> scheme = ''https'') \<and> host \<noteq> [])"

definition validateSchedule :: "text_tables \<Rightarrow> Schedule \<Rightarrow> config_error list" where
  "validateSchedule T s =
     (if ScheduleMode s = [] \<or> ScheduleMode s = ScheduleModeAlways then []
      else if ScheduleMode s = ScheduleModeWindow then
        (if parseHHMM (DailyStart s) = None then [BadStart (DailyStart s)] else []) @
        (if parseHHMM (DailyEnd s) = None then [BadEnd (DailyEnd s)] else [])
      else [UnknownMode (ScheduleMode s)]) @
     map UnknownDay (filter (\<lambda>d. lowerText T (trimText T d) \<notin> set validWeekdays) (Days s))"

definition validateDraft :: "string \<Rightarrow> node_draft \<Rightarrow> config_error list" where
  "validateDraft modelID d =
     (if modelID = [] then [EmptyDraftKey] else []) @ (if ndModel d = [] then [MissingDraft modelID] else []) @
     (if ndTokens d < 0 then [NegativeDraft modelID (ndTokens d)] else [])"

text \<open>Every problem at once; \<open>ks\<close> is the order of the loop over the draft models.\<close>

definition ValidateConfig :: "text_tables \<Rightarrow> (string \<Rightarrow> (string \<times> string) option) \<Rightarrow> string list \<Rightarrow> node_config \<Rightarrow> config_error list" where
  "ValidateConfig T parseURL ks cfg =
     (if ncMemoryCapPct cfg \<le> 0 \<or> ncMemoryCapPct cfg > 1 then [CapOutOfRange (ncMemoryCapPct cfg)] else []) @
     (if ncSensitivityCap cfg \<noteq> [] \<and> ncSensitivityCap cfg \<notin> set validSensitivityCaps then [UnknownCap (ncSensitivityCap cfg)] else []) @
     concat (map (\<lambda>(name, val). if val = [] \<or> validHTTPURL parseURL val then [] else [InvalidURL name val])
       [(''exo_url'', ncExoURL cfg), (''pod_endpoint'', ncPodEndpoint cfg), (''reachability_endpoint'', ncReachability cfg)]) @
     validateSchedule T (ncSchedule cfg) @
     concat (map (\<lambda>k. case ncDraftModels cfg k of None \<Rightarrow> [] | Some d \<Rightarrow> validateDraft k d) ks)"

text \<open>
  The stored file: \<open>decode\<close> is \<open>json.Unmarshal\<close> into a configuration that is already filled,
  with its error. Saving gives the errors and the new contents; the outcomes are those of
  creating the directory and of writing.
\<close>

datatype conf_file = NoConf | ConfUnreadable | Conf bytes

definition LoadConfig :: "(bytes \<Rightarrow> node_config \<Rightarrow> node_config \<times> bool) \<Rightarrow> conf_file \<Rightarrow> node_config \<times> config_error option" where
  "LoadConfig decode file = (case file of
       NoConf \<Rightarrow> (DefaultNodeConfig, None)
     | ConfUnreadable \<Rightarrow> (DefaultNodeConfig, Some ConfigRead)
     | Conf b \<Rightarrow> (case decode b DefaultNodeConfig of (cfg, ok) \<Rightarrow> (cfg, if ok then None else Some ConfigParse)))"

definition SaveConfig :: "text_tables \<Rightarrow> (string \<Rightarrow> (string \<times> string) option) \<Rightarrow> string list \<Rightarrow> (node_config \<Rightarrow> bytes) \<Rightarrow> bool \<Rightarrow> bool \<Rightarrow>
    node_config \<Rightarrow> conf_file \<Rightarrow> config_error list \<times> conf_file" where
  "SaveConfig T parseURL ks encode dirOk writeOk cfg file =
     (let errs = ValidateConfig T parseURL ks cfg
      in if errs \<noteq> [] then (errs, file)
         else if \<not> dirOk then ([ConfigDir], file)
         else if \<not> writeOk then ([ConfigWrite], file)
         else ([], Conf (encode cfg)))"

section \<open>Lemmas\<close>

lemma parseHHMM_range: "parseHHMM s = Some n \<Longrightarrow> 0 \<le> n \<and> n < 1440"
  by (auto simp: parseHHMM_def split: option.splits if_splits)

lemma dayAllowed_mod [simp]: "dayAllowed T days (wd mod 7) = dayAllowed T days wd"
  by (simp add: dayAllowed_def weekdayName_def)

lemma mod7:
  assumes "- 7 < x" "x < (7 :: int)"
  shows "x mod 7 = (if x < 0 then x + 7 else x)"
proof (cases "x < 0")
  case True
  then have "(x + 7) mod 7 = x + 7" using assms by (intro mod_pos_pos_trivial) auto
  then show ?thesis using True by simp
qed (use assms in simp)

text \<open>A minute of the week, seen from a window that starts \<open>k\<close> days earlier.\<close>

lemma week_window:
  assumes "- 1440 < r" "r < 1440" "0 \<le> len" "len \<le> 1440" "- 7 < k" "k < (7 :: int)"
  shows "(1440 * k + r) mod 10080 < len \<longleftrightarrow> k mod 7 = 0 \<and> 0 \<le> r \<and> r < len \<or> k mod 7 = 1 \<and> r < 0 \<and> r + 1440 < len"
proof -
  have "1440 * k + r = 1440 * (k mod 7) + r + 10080 * (k div 7)" using div_mult_mod_eq[of k 7] by linarith
  then have e: "(1440 * k + r) mod 10080 = (1440 * (k mod 7) + r) mod 10080"
    by (metis mod_mult_self2)
  have m7: "k mod 7 = 0 \<or> k mod 7 = 1 \<or> 2 \<le> k mod 7" by presburger
  show ?thesis unfolding e
  proof (cases "k mod 7 = 0 \<and> r < 0")
    case True
    then have "(1440 * (k mod 7) + r) mod 10080 = (r + 10080) mod 10080" by simp
    also have "\<dots> = r + 10080" using True assms(1) by (intro mod_pos_pos_trivial) auto
    finally show "(1440 * (k mod 7) + r) mod 10080 < len \<longleftrightarrow> k mod 7 = 0 \<and> 0 \<le> r \<and> r < len \<or> k mod 7 = 1 \<and> r < 0 \<and> r + 1440 < len"
      using True assms by simp
  next
    case False
    have "0 \<le> k mod 7" "k mod 7 \<le> 6" by simp_all
    then have "(1440 * (k mod 7) + r) mod 10080 = 1440 * (k mod 7) + r"
      using False assms(1,2) by (intro mod_pos_pos_trivial) linarith+
    then show "(1440 * (k mod 7) + r) mod 10080 < len \<longleftrightarrow> k mod 7 = 0 \<and> 0 \<le> r \<and> r < len \<or> k mod 7 = 1 \<and> r < 0 \<and> r + 1440 < len"
      using assms m7 False by auto
  qed
qed

section \<open>Properties\<close>

text \<open>
  C39. A schedule means its weekly windows. With a well-formed window, the node serves exactly
  in the minutes of the week that lie in a window opened on an allowed day: the window opens at
  the start time of that day and lasts until the next occurrence of the end time, across
  midnight and across the end of the week. A window that ends when it starts is empty.
\<close>

theorem schedule_weekly_windows:
  assumes "ScheduleMode s = ScheduleModeWindow" "parseHHMM (DailyStart s) = Some start" "parseHHMM (DailyEnd s) = Some stop"
    and "0 \<le> ltWeekday t" "ltWeekday t < 7" "0 \<le> ltHour t" "ltHour t < 24" "0 \<le> ltMinute t" "ltMinute t < 60"
  shows "IsActiveNow T t s \<longleftrightarrow> (\<exists>d \<in> {0..6}. dayAllowed T (Days s) d \<and>
    (ltWeekday t * 1440 + ltHour t * 60 + ltMinute t - (d * 1440 + start)) mod 10080 < (stop - start) mod 1440)"
proof -
  define now len where "now = ltHour t * 60 + ltMinute t" and "len = (stop - start) mod 1440"
  have b: "0 \<le> now" "now < 1440" "0 \<le> start" "start < 1440" "0 \<le> stop" "stop < 1440" "0 \<le> len" "len < 1440"
    using assms parseHHMM_range by (auto simp: now_def len_def)
  have len: "len = (if start \<le> stop then stop - start else stop - start + 1440)"
    using b mod_add_self2[of "stop - start" 1440] unfolding len_def
    by (auto simp: mod_pos_pos_trivial simp del: mod_add_self2)
  have w: "(ltWeekday t * 1440 + ltHour t * 60 + ltMinute t - (d * 1440 + start)) mod 10080 < len \<longleftrightarrow>
      (ltWeekday t - d) mod 7 = 0 \<and> 0 \<le> now - start \<and> now - start < len \<or>
      (ltWeekday t - d) mod 7 = 1 \<and> now < start \<and> now - start + 1440 < len" if "d \<in> {0..6}" for d
    using week_window[of "now - start" len "ltWeekday t - d"] b assms(4,5) that by (simp add: now_def algebra_simps)
  have d0: "(ltWeekday t - d) mod 7 = 0 \<longleftrightarrow> d = ltWeekday t" if "d \<in> {0..6}" for d
    using assms(4,5) that mod7[of "ltWeekday t - d"] by auto
  have d1: "(ltWeekday t - d) mod 7 = 1 \<longleftrightarrow> d = (ltWeekday t - 1) mod 7" if "d \<in> {0..6}" for d
    using assms(4,5) that mod7[of "ltWeekday t - d"] mod7[of "ltWeekday t - 1"] by auto
  have m: "ltWeekday t \<in> {0..6}" "(ltWeekday t - 1) mod 7 \<in> {0..6}" using assms(4,5) by auto
  have "(\<exists>d \<in> {0..6}. dayAllowed T (Days s) d \<and>
      (ltWeekday t * 1440 + ltHour t * 60 + ltMinute t - (d * 1440 + start)) mod 10080 < len) \<longleftrightarrow>
      dayAllowed T (Days s) (ltWeekday t) \<and> 0 \<le> now - start \<and> now - start < len \<or>
      dayAllowed T (Days s) (ltWeekday t - 1) \<and> now < start \<and> now - start + 1440 < len"
    (is "?l \<longleftrightarrow> ?r")
  proof
    assume ?l
    then obtain d where d: "d \<in> {0..6}" "dayAllowed T (Days s) d"
      "(ltWeekday t * 1440 + ltHour t * 60 + ltMinute t - (d * 1440 + start)) mod 10080 < len" by blast
    from w[OF d(1)] d(3) have "d = ltWeekday t \<and> 0 \<le> now - start \<and> now - start < len \<or>
        d = (ltWeekday t - 1) mod 7 \<and> now < start \<and> now - start + 1440 < len"
      unfolding d0[OF d(1)] d1[OF d(1)] by blast
    then show ?r using d(2) dayAllowed_mod[of T "Days s" "ltWeekday t - 1"] by blast
  next
    assume ?r
    then show ?l
    proof
      assume "dayAllowed T (Days s) (ltWeekday t) \<and> 0 \<le> now - start \<and> now - start < len"
      then show ?l using w[OF m(1)] d0[OF m(1)] m(1) by blast
    next
      assume "dayAllowed T (Days s) (ltWeekday t - 1) \<and> now < start \<and> now - start + 1440 < len"
      then show ?l using w[OF m(2)] d1[OF m(2)] m(2) dayAllowed_mod[of T "Days s" "ltWeekday t - 1"] by blast
    qed
  qed
  also have "\<dots> \<longleftrightarrow> IsActiveNow T t s"
    using assms(1-3) b by (auto simp: IsActiveNow_def now_def[symmetric] len)
  finally show ?thesis by (simp add: len_def)
qed

theorem schedule_weekly_windows_witness:
  "let s = \<lparr> ScheduleMode = ''window'', DailyStart = ''22:00'', DailyEnd = ''07:00'', Days = [''fri''] \<rparr>
   in IsActiveNow asciiText \<lparr> ltWeekday = 6, ltHour = 6, ltMinute = 59 \<rparr> s \<and>
      (\<exists>d \<in> {0..6}. dayAllowed asciiText (Days s) d \<and> (6 * 1440 + 6 * 60 + 59 - (d * 1440 + 1320)) mod 10080 < (420 - 1320) mod (1440 :: int))"
proof -
  define s where "s = \<lparr> ScheduleMode = ''window'', DailyStart = ''22:00'', DailyEnd = ''07:00'', Days = [''fri''] \<rparr>"
  have p: "parseHHMM (DailyStart s) = Some 1320" "parseHHMM (DailyEnd s) = Some 420" "ScheduleMode s = ScheduleModeWindow"
    unfolding s_def by code_simp+
  have a: "IsActiveNow asciiText \<lparr> ltWeekday = 6, ltHour = 6, ltMinute = 59 \<rparr> s" unfolding s_def by code_simp
  show ?thesis unfolding Let_def s_def[symmetric]
    using schedule_weekly_windows[OF p(3,1,2), of "\<lparr> ltWeekday = 6, ltHour = 6, ltMinute = 59 \<rparr>" asciiText] a by simp
qed

end
