(* ===== verification/Agent.thy ===== *)
theory Agent
  imports JobRunner NodeConfig NodeHandlers
begin

text \<open>
  The node agent (\<open>internal/agent\<close>): the signed messages it sends to its coordinator and their
  retries, the pull loop, the local job server, the heartbeat and the benchmark sweep. Every
  loop iteration and every request is one definition; network answers, the clock, random draws
  and the readings of the machine are arguments. A message is what is handed to the retrying
  POST. Logs and the atomic counters' memory model are left out: the two gates are read and
  relayed as plain booleans.
\<close>

section \<open>Messages\<close>

datatype agent_error = BuildBytes | SignFailed | EnclaveNoKey | EnclaveNoSign | NoMemoryReading | NoFingerprint | RegistrationFailed

definition signWith :: "crypto \<Rightarrow> bytes \<Rightarrow> bytes option \<Rightarrow> agent_error + bytes" where
  "signWith C priv signingBytes = (case signingBytes of
       None \<Rightarrow> Inl BuildBytes
     | Some bs \<Rightarrow> (case SignPayload C priv bs of None \<Rightarrow> Inl SignFailed | Some sig \<Rightarrow> Inr sig))"

definition registerMessage :: "crypto \<Rightarrow> user_id \<Rightarrow> bytes \<Rightarrow> bytes \<Rightarrow> CapabilityManifest \<Rightarrow> agent_error + NodeRegistration" where
  "registerMessage C userID priv pub m = (case signWith C priv (marshalManifest C m) of
       Inl e \<Rightarrow> Inl e
     | Inr sig \<Rightarrow> Inr \<lparr> RegManifest = m, RegPublicKey = pub, RegSignature = sig, RegUserID = userID \<rparr>)"

definition refreshMessage :: "crypto \<Rightarrow> bytes \<Rightarrow> CapabilityManifest \<Rightarrow> int \<Rightarrow> agent_error + RefreshRequest" where
  "refreshMessage C priv m timestamp =
     (let req = \<lparr> RefManifest = m, RefTimestamp = timestamp, RefSignature = [] \<rparr>
      in case signWith C priv (RefreshSigningBytes C req) of Inl e \<Rightarrow> Inl e | Inr sig \<Rightarrow> Inr (req\<lparr> RefSignature := sig \<rparr>))"

definition claimMessage :: "crypto \<Rightarrow> bytes \<Rightarrow> node_id \<Rightarrow> int \<Rightarrow> agent_error + ClaimRequest" where
  "claimMessage C priv nodeID timestamp =
     (let req = \<lparr> ClaimNodeID = nodeID, ClaimTimestamp = timestamp, ClaimSignature = [] \<rparr>
      in case signWith C priv (ClaimSigningBytes C req) of Inl e \<Rightarrow> Inl e | Inr sig \<Rightarrow> Inr (req\<lparr> ClaimSignature := sig \<rparr>))"

text \<open>\<open>errText\<close> is the text of an execution error.\<close>

definition resultMessage :: "crypto \<Rightarrow> request_codec \<Rightarrow> (run_error \<Rightarrow> string) \<Rightarrow> bytes \<Rightarrow> node_id \<Rightarrow> job_id \<Rightarrow> run_error + jobj \<Rightarrow> int \<Rightarrow>
    agent_error + JobResultRequest" where
  "resultMessage C K errText priv nodeID jobID res timestamp =
     (let req = \<lparr> ResNodeID = nodeID, ResJobID = jobID, ResResult = (case res of Inl e \<Rightarrow> None | Inr r \<Rightarrow> Some r),
            ResError = (case res of Inl e \<Rightarrow> errText e | Inr r \<Rightarrow> []), ResTimestamp = timestamp, ResSignature = [] \<rparr>
      in case signWith C priv (ResultSigningBytes K req) of Inl e \<Rightarrow> Inl e | Inr sig \<Rightarrow> Inr (req\<lparr> ResSignature := sig \<rparr>))"

definition outcomeMessage :: "crypto \<Rightarrow> request_codec \<Rightarrow> bytes \<Rightarrow> job_id \<Rightarrow> bool \<Rightarrow> f64 \<Rightarrow> int \<Rightarrow> int \<Rightarrow> agent_error + JobOutcomeRequest" where
  "outcomeMessage C K priv jobID success latencyMs tokensDelivered timestamp =
     (let req = \<lparr> OutJobID = jobID, Success = success, LatencyMs = latencyMs, TokensDelivered = tokensDelivered,
            OutTimestamp = timestamp, OutSignature = [] \<rparr>
      in case signWith C priv (OutcomeSigningBytes K req) of Inl e \<Rightarrow> Inl e | Inr sig \<Rightarrow> Inr (req\<lparr> OutSignature := sig \<rparr>))"

definition benchmarkMessage :: "crypto \<Rightarrow> request_codec \<Rightarrow> bytes \<Rightarrow> MeasuredSignature \<Rightarrow> int \<Rightarrow> agent_error + BenchmarkResultRequest" where
  "benchmarkMessage C K priv measured timestamp =
     (let req = \<lparr> BenchMeasured = measured, BenchTimestamp = timestamp, BenchSignature = [] \<rparr>
      in case signWith C priv (BenchmarkSigningBytes K req) of Inl e \<Rightarrow> Inl e | Inr sig \<Rightarrow> Inr (req\<lparr> BenchSignature := sig \<rparr>))"

text \<open>The enclave gives its public key and signs, or fails.\<close>

definition attestMessage :: "crypto \<Rightarrow> bytes option \<Rightarrow> (bytes \<Rightarrow> bytes option) \<Rightarrow> bytes \<Rightarrow> node_id \<Rightarrow> int \<Rightarrow> agent_error + EnclaveAttestationRequest" where
  "attestMessage C enclavePub enclaveSign priv nodeID timestamp = (case enclavePub of
       None \<Rightarrow> Inl EnclaveNoKey
     | Some key \<Rightarrow>
         let req = \<lparr> AttNodeID = nodeID, EnclavePublicKey = key, AttTimestamp = timestamp, EnclaveSignature = [], AttSignature = [] \<rparr>
         in case AttestationSigningBytes C req of
             None \<Rightarrow> Inl BuildBytes
           | Some bs \<Rightarrow> (case enclaveSign bs of
               None \<Rightarrow> Inl EnclaveNoSign
             | Some esig \<Rightarrow> (case SignPayload C priv bs of
                 None \<Rightarrow> Inl SignFailed
               | Some sig \<Rightarrow> Inr (req\<lparr> EnclaveSignature := esig, AttSignature := sig \<rparr>))))"

datatype agent_post = PostRegister NodeRegistration | PostRefresh node_id RefreshRequest | PostResult JobResultRequest
  | PostOutcome node_id JobOutcomeRequest | PostBenchmark node_id BenchmarkResultRequest

text \<open>One attempt of a POST: the limiter's wait is cancelled, no request, no answer, a status.\<close>

datatype post_try = ThrottleCanceled | NoPostRequest | NoPostAnswer | PostAnswer int

datatype post_error = PostMarshal | PostCanceled | PostBuild | PostNetwork | PostHTTP int

definition tryPost :: "post_try \<Rightarrow> post_error call_outcome" where
  "tryPost t = (case t of
       ThrottleCanceled \<Rightarrow> CallPermanent PostCanceled
     | NoPostRequest \<Rightarrow> CallPermanent PostBuild
     | NoPostAnswer \<Rightarrow> CallTransient PostNetwork
     | PostAnswer code \<Rightarrow>
         if code \<ge> 400 then (if code = 429 \<or> code \<ge> 500 then CallTransient (PostHTTP code) else CallPermanent (PostHTTP code))
         else CallOk)"

definition agentPostJSON :: "bytes option \<Rightarrow> (nat \<Rightarrow> post_try) \<Rightarrow> (nat \<Rightarrow> bool) \<Rightarrow> post_error retry_error option \<times> nat" where
  "agentPostJSON body tries canceled = (case body of
       None \<Rightarrow> (Some (CallFailed PostMarshal), 0)
     | Some b \<Rightarrow> retryDo DefaultRetry (\<lambda>k. tryPost (tries k)) canceled)"

section \<open>The agent\<close>

record gates =
  chaosActive :: bool
  scheduleActive :: bool

definition paused :: "gates \<Rightarrow> bool" where
  "paused g \<longleftrightarrow> chaosActive g \<or> \<not> scheduleActive g"

record agent =
  agCrypto :: crypto
  agCodec :: request_codec
  agPriv :: bytes
  agPub :: bytes
  agNode :: node_id
  agUser :: user_id
  agCapPct :: f64
  agRunner :: runner
  agPayload :: payload_source
  agErrText :: "run_error \<Rightarrow> string"

section \<open>Pulling work\<close>

definition pullClaimClientTimeout :: duration where "pullClaimClientTimeout = 35 * second"

text \<open>What a claim ends with: no answer in time, or a status and the decoded job.\<close>

datatype claim_answer = ClaimUnanswered | ClaimStatus int "PendingJob option"

definition claimJob :: "agent \<Rightarrow> int \<Rightarrow> (ClaimRequest \<Rightarrow> claim_answer) \<Rightarrow> ClaimRequest option \<times> PendingJob option" where
  "claimJob A timestamp answer = (case claimMessage (agCrypto A) (agPriv A) (agNode A) timestamp of
       Inl e \<Rightarrow> (None, None)
     | Inr req \<Rightarrow> (Some req, (case answer req of
           ClaimUnanswered \<Rightarrow> None
         | ClaimStatus code body \<Rightarrow> if code = 204 then None else if code \<noteq> 200 then None else body)))"

definition executePulledJob :: "runner \<Rightarrow> host \<Rightarrow> payload_source \<Rightarrow> f64 \<Rightarrow> PendingJob \<Rightarrow> run_error + jobj" where
  "executePulledJob r h P capPct pj =
     (case (if PayloadFetchURL (PendingSpec pj) \<noteq> []
            then fetchAndDecryptPayload P (PayloadFetchURL (PendingSpec pj)) (PayloadEphemeralPubKey (PendingSpec pj))
            else Inr (Messages pj)) of
        Inl e \<Rightarrow> Inl (PayloadFailed e)
      | Inr messages \<Rightarrow>
          let spec = PendingSpec pj;
              spec = (if SpecJobID spec = [] then spec\<lparr> SpecJobID := PendingJobID pj \<rparr> else spec)
          in if Lane spec = JobLaneWarm then WarmModelNow r (ModelID spec)
             else if Lane spec = JobLaneBackground then ExecuteBackgroundLane r h spec messages capPct False
             else ExecuteFastLane r h spec messages capPct)"

datatype pull_effect = Slept duration | Claimed ClaimRequest | Submitted JobResultRequest

text \<open>One round of the loop; the clock is read for the claim and again for the result.\<close>

definition pullRound :: "agent \<Rightarrow> gates \<Rightarrow> int \<Rightarrow> (ClaimRequest \<Rightarrow> claim_answer) \<Rightarrow> host \<Rightarrow> int \<Rightarrow> pull_effect list" where
  "pullRound A g claimTime answer h resultTime =
     (if paused g then [Slept (2 * second)]
      else case claimJob A claimTime answer of
          (req, None) \<Rightarrow> (case req of None \<Rightarrow> [] | Some q \<Rightarrow> [Claimed q]) @ [Slept (500 * 1000000)]
        | (req, Some job) \<Rightarrow>
            (case req of None \<Rightarrow> [] | Some q \<Rightarrow> [Claimed q]) @
            (case resultMessage (agCrypto A) (agCodec A) (agErrText A) (agPriv A) (agNode A) (PendingJobID job)
                (executePulledJob (agRunner A) h (agPayload A) (agCapPct A) job) resultTime of
               Inl e \<Rightarrow> [] | Inr res \<Rightarrow> [Submitted res]))"

section \<open>The job server\<close>

datatype node_failure = NodeUnreachable | BadNodeRequest | NodeRunError run_error | NodeConfigErrors "config_error list"

record detect_body =
  dtNode :: node_id
  dtReachability :: string
  dtPortMapping :: string
  dtPlatform :: "json option"
  dtAppleSilicon :: "json option"
  dtTotalGB :: "json option"
  dtAvailableGB :: "json option"
  dtUsedPct :: "json option"
  dtCluster :: bool
  dtDevices :: int
  dtChips :: "string list"
  dtSafeGB :: f64
  dtTopology :: "DeviceStat list option"
  dtEnclave :: bool
  dtForegrounded :: bool
  dtExoHealthy :: bool
  dtExoURL :: string
  dtModels :: "jobj list"
  dtConfig :: node_config
  dtScheduleActive :: bool

datatype node_content = NodeStatus string | NodeFailure node_failure | NodeResult jobj | NodeStream string "run_error option"
  | Detected detect_body | ConfigStored | NodeNothing

definition handleNodeHealth :: "gates \<Rightarrow> nat \<times> node_content" where
  "handleNodeHealth g = (if paused g then (503, NodeStatus ''down'') else (200, NodeStatus ''ok''))"

text \<open>
  What the node is told about itself: the answers of the system, its endpoint and mode, the
  enclave check, the saved configuration.
\<close>

record detect_env =
  deSystem :: "jobj option"
  deReachability :: string
  dePortMapping :: string
  deEnclave :: bool
  deExoURL :: string
  deConfig :: node_config

definition handleDetect :: "agent \<Rightarrow> host \<Rightarrow> detect_env \<Rightarrow> gates \<Rightarrow> detect_body" where
  "handleDetect A h E g =
     (let sys = (case deSystem E of None \<Rightarrow> Map.empty | Some s \<Rightarrow> s);
          X = rnExo (agRunner A);
          healthy = IsHealthy X;
          models = (if healthy then (case GetDownloadedModels X of Inl e \<Rightarrow> [] | Inr ms \<Rightarrow> ms) else []);
          (err, ci) = DetectClusterNode (agCrypto A) X (agNode A);
          seen = (err = None \<and> ciCluster ci \<and> ciTotalGB ci > 0);
          topology = (if healthy then (case GetDeviceTopology X of Inl e \<Rightarrow> None | Inr t \<Rightarrow> t) else None)
      in \<lparr> dtNode = agNode A, dtReachability = deReachability E, dtPortMapping = dePortMapping E,
           dtPlatform = sys ''platform'', dtAppleSilicon = sys ''is_apple_silicon'',
           dtTotalGB = (if seen then Some (JNum (round2 (ciTotalGB ci))) else sys ''total_ram_gb''),
           dtAvailableGB = (if seen then Some (JNum (round2 (ciAvailableGB ci))) else sys ''available_ram_gb''),
           dtUsedPct = (if seen then Some (JNum (round2 (fmul 100 (fsub 1 (fdiv (ciAvailableGB ci) (ciTotalGB ci)))))) else sys ''used_pct''),
           dtCluster = seen, dtDevices = (if seen then ciDevices ci else 0), dtChips = (if seen then ciChips ci else []),
           dtSafeGB = (if seen then round2 (ciSafeGB ci) else 0), dtTopology = topology, dtEnclave = deEnclave E,
           dtForegrounded = IsForegrounded h, dtExoHealthy = healthy, dtExoURL = deExoURL E, dtModels = models,
           dtConfig = deConfig E, dtScheduleActive = scheduleActive g \<rparr>)"

text \<open>The file system of the node: the outcomes of creating the directory and of writing.\<close>

record config_env =
  ceText :: text_tables
  ceParseURL :: "string \<Rightarrow> (string \<times> string) option"
  ceDraftOrder :: "string list"
  ceEncode :: "node_config \<Rightarrow> bytes"
  ceDirOk :: bool
  ceWriteOk :: bool

definition handleConfigSave :: "config_env \<Rightarrow> node_config option \<Rightarrow> conf_file \<Rightarrow> (nat \<times> node_content) \<times> conf_file" where
  "handleConfigSave E body file = (case body of
       None \<Rightarrow> ((400, NodeFailure BadNodeRequest), file)
     | Some cfg \<Rightarrow>
         let errs = ValidateConfig (ceText E) (ceParseURL E) (ceDraftOrder E) cfg
         in if errs \<noteq> [] then ((400, NodeFailure (NodeConfigErrors errs)), file)
            else case SaveConfig (ceText E) (ceParseURL E) (ceDraftOrder E) (ceEncode E) (ceDirOk E) (ceWriteOk E) cfg file of
                (errs, file) \<Rightarrow> if errs \<noteq> [] then ((500, NodeFailure (NodeConfigErrors errs)), file)
                                else ((200, ConfigStored), file))"

record completion_request =
  cqModel :: string
  cqMessages :: "jobj list"
  cqStream :: bool
  cqJobID :: job_id
  cqModelID :: string
  cqLane :: string
  cqFetchURL :: string
  cqEphemeralKey :: string

definition extractTokenCount :: "jobj option \<Rightarrow> int" where
  "extractTokenCount result = (case result of
       None \<Rightarrow> 0
     | Some r \<Rightarrow> (case asObj (r ''usage'') of
         None \<Rightarrow> 0
       | Some usage \<Rightarrow> (case asNum (usage ''completion_tokens'') of
           None \<Rightarrow> 0 | Some n \<Rightarrow> if n > 0 then fint n else 0)))"

text \<open>The report of an outcome, which runs beside the answer; none when it cannot be signed.\<close>

definition reportOutcome :: "agent \<Rightarrow> job_id \<Rightarrow> bool \<Rightarrow> f64 \<Rightarrow> int \<Rightarrow> int \<Rightarrow> agent_post list" where
  "reportOutcome A jobID success latencyMs tokensDelivered timestamp =
     (case outcomeMessage (agCrypto A) (agCodec A) (agPriv A) jobID success latencyMs tokensDelivered timestamp of
        Inl e \<Rightarrow> [] | Inr req \<Rightarrow> [PostOutcome (agNode A) req])"

text \<open>
  The inference handler: the header with the job id, whether the header marks a continuation,
  the decoded body, the time it takes and the time of the report.
\<close>

definition handleCompletions :: "agent \<Rightarrow> gates \<Rightarrow> host \<Rightarrow> string \<Rightarrow> bool \<Rightarrow> completion_request option \<Rightarrow> f64 \<Rightarrow> int \<Rightarrow>
    (nat \<times> node_content) \<times> agent_post list" where
  "handleCompletions A g h jobHeader isContinuation body latencyMs timestamp =
     (if paused g then ((503, NodeFailure NodeUnreachable), [])
      else case body of
          None \<Rightarrow> ((400, NodeFailure BadNodeRequest), [])
        | Some req \<Rightarrow>
            let model = (if cqModel req = [] \<and> cqModelID req \<noteq> [] then cqModelID req else cqModel req);
                jobID = (if jobHeader \<noteq> [] then jobHeader else cqJobID req)
            in (case (if cqFetchURL req \<noteq> [] then fetchAndDecryptPayload (agPayload A) (cqFetchURL req) (cqEphemeralKey req)
                      else Inr (cqMessages req)) of
                  Inl e \<Rightarrow> ((502, NodeFailure (NodeRunError (PayloadFailed e))), [])
                | Inr messages \<Rightarrow>
                    let spec = emptyJob\<lparr> SpecJobID := jobID, ModelID := model, Lane := JobLaneFast \<rparr>
                    in if cqStream req \<and> cqLane req \<noteq> JobLaneBackground
                       then (case ExecuteFastLaneStreaming (agRunner A) h spec messages (agCapPct A) of
                           (relayed, tokens, anySent, err) \<Rightarrow>
                             (if err \<noteq> None \<and> \<not> anySent then (503, NodeFailure (NodeRunError (the err))) else (200, NodeStream relayed err),
                              reportOutcome A jobID (err = None) latencyMs tokens timestamp))
                       else
                         let result = (if cqLane req = JobLaneWarm then WarmModelNow (agRunner A) model
                                       else if cqLane req = JobLaneBackground
                                       then ExecuteBackgroundLane (agRunner A) h spec messages (agCapPct A) isContinuation
                                       else ExecuteFastLane (agRunner A) h spec messages (agCapPct A))
                         in (case result of
                             Inl e \<Rightarrow> ((503, NodeFailure (NodeRunError e)), reportOutcome A jobID False latencyMs (extractTokenCount None) timestamp)
                           | Inr r \<Rightarrow> ((200, NodeResult r), reportOutcome A jobID True latencyMs (extractTokenCount (Some r)) timestamp))))"

definition agentCORS :: "request \<Rightarrow> (string \<times> string) list \<times> request gate" where
  "agentCORS r =
     (let origin = Header r ''Origin''
      in (if origin \<noteq> []
          then [(''Access-Control-Allow-Origin'', origin), (''Access-Control-Allow-Methods'', ''GET, POST, OPTIONS''),
                (''Access-Control-Allow-Headers'', ''Content-Type'')]
          else [],
          if Method r = ''OPTIONS'' then Refuse 204 else Pass r))"

text \<open>The decoded bodies are arguments; the answer, the configuration file, the reports.\<close>

definition serveNode :: "agent \<Rightarrow> gates \<Rightarrow> host \<Rightarrow> detect_env \<Rightarrow> config_env \<Rightarrow> request \<Rightarrow> completion_request option \<Rightarrow> node_config option \<Rightarrow>
    f64 \<Rightarrow> int \<Rightarrow> conf_file \<Rightarrow> (string \<times> string) list \<times> (nat \<times> node_content) \<times> conf_file \<times> agent_post list" where
  "serveNode A g h DE CE r chat cfg latencyMs timestamp file = (case agentCORS r of
       (headers, Refuse code) \<Rightarrow> (headers, (code, NodeNothing), file, [])
     | (headers, Pass r) \<Rightarrow>
         let get = (Method r = ''GET'' \<or> Method r = ''HEAD'')
         in if URLPath r = ''/health'' then (headers, if get then handleNodeHealth g else (405, NodeNothing), file, [])
            else if URLPath r = ''/detect'' then (headers, if get then (200, Detected (handleDetect A h DE g)) else (405, NodeNothing), file, [])
            else if URLPath r = ''/config'' then
              (if Method r = ''POST'' then (case handleConfigSave CE cfg file of (rep, file) \<Rightarrow> (headers, rep, file, []))
               else (headers, (405, NodeNothing), file, []))
            else if URLPath r = ''/v1/chat/completions'' then
              (if Method r = ''POST''
               then (case handleCompletions A g h (Header r ''X-OIM-Job-ID'') (Header r ''X-OIM-Continuation'' = ''true'') chat latencyMs timestamp of
                   (rep, posts) \<Rightarrow> (headers, rep, file, posts))
               else (headers, (405, NodeNothing), file, []))
            else (headers, (404, NodeNothing), file, []))"

section \<open>Start\<close>

record agent_config =
  acCoordinatorURL :: string
  acExoURL :: string
  acListenAddr :: string
  acReachability :: string
  acRefreshInterval :: duration
  acBenchInterval :: duration
  acCapacityPct :: f64
  acDeclaredGB :: f64
  acAllowed :: "string list"
  acDrafts :: "string \<rightharpoonup> string \<times> int"
  acUser :: user_id
  acGeo :: string
  acLat :: f64
  acLng :: f64
  acChaosPct :: f64
  acTLSCert :: string
  acTLSKey :: string

definition DefaultAgentConfig :: agent_config where
  "DefaultAgentConfig = \<lparr> acCoordinatorURL = ''http://localhost:9000'', acExoURL = ''http://localhost:52415'', acListenAddr = '':8765'',
     acReachability = [], acRefreshInterval = 30 * second, acBenchInterval = 0, acCapacityPct = 1 / 2, acDeclaredGB = 0, acAllowed = [],
     acDrafts = Map.empty, acUser = [], acGeo = [], acLat = 0, acLng = 0, acChaosPct = 0, acTLSCert = [], acTLSKey = [] \<rparr>"

definition pullMode :: "agent_config \<Rightarrow> bool" where "pullMode cfg \<longleftrightarrow> acReachability cfg = []"

definition nodeTLSEnabled :: "agent_config \<Rightarrow> bool" where
  "nodeTLSEnabled cfg \<longleftrightarrow> acTLSCert cfg \<noteq> [] \<and> acTLSKey cfg \<noteq> []"

text \<open>The public key-agreement key of the node, if it has one, and the fingerprint of its certificate.\<close>

definition nodeOptions :: "int \<Rightarrow> agent_config \<Rightarrow> bytes option \<Rightarrow> string \<Rightarrow> cap_options" where
  "nodeOptions offset cfg ecdhPub fingerprint = (DefaultOptions offset)\<lparr> opCapPct := acCapacityPct cfg, opDeclaredGB := acDeclaredGB cfg,
     opAllowed := acAllowed cfg, opDrafts := acDrafts cfg, opReachability := acReachability cfg,
     opGeo := (if acGeo cfg \<noteq> [] then acGeo cfg else guessRegion offset), opLat := acLat cfg, opLng := acLng cfg, opPull := pullMode cfg,
     opECDH := (case ecdhPub of None \<Rightarrow> [] | Some k \<Rightarrow> b64Encode k),
     opFingerprint := (if nodeTLSEnabled cfg then fingerprint else []) \<rparr>"

text \<open>
  The start up to the loops: the options, the first manifest and its registration, with the gates
  open. \<open>registered\<close> is the outcome of the registration.
\<close>

definition startNode :: "crypto \<Rightarrow> cap_env \<Rightarrow> int \<Rightarrow> agent_config \<Rightarrow> bytes \<Rightarrow> bytes \<Rightarrow> bytes option \<Rightarrow> string option \<Rightarrow> bool \<Rightarrow>
    agent_error + cap_options \<times> CapabilityManifest \<times> NodeRegistration \<times> gates" where
  "startNode C E offset cfg priv pub ecdhPub fingerprint registered =
     (if nodeTLSEnabled cfg \<and> fingerprint = None then Inl NoFingerprint
      else let opts = nodeOptions offset cfg ecdhPub (case fingerprint of None \<Rightarrow> [] | Some f \<Rightarrow> f)
           in case AssembleManifest C E pub opts of
               None \<Rightarrow> Inl NoMemoryReading
             | Some m \<Rightarrow> (case registerMessage C (acUser cfg) priv pub m of
                 Inl e \<Rightarrow> Inl e
               | Inr reg \<Rightarrow> if \<not> registered then Inl RegistrationFailed
                   else Inr (opts, m, reg, \<lparr> chaosActive = False, scheduleActive = True \<rparr>)))"

text \<open>Where the job server listens: on the loopback address only in pull mode.\<close>

definition serverAddr :: "(string \<Rightarrow> (string \<times> string) option) \<Rightarrow> agent_config \<Rightarrow> string" where
  "serverAddr splitHP cfg =
     (let listenAddr = (if acListenAddr cfg = [] then '':8765'' else acListenAddr cfg)
      in if pullMode cfg then (case splitHP listenAddr of None \<Rightarrow> listenAddr | Some (host, port) \<Rightarrow> ''127.0.0.1:'' @ port)
         else listenAddr)"

text \<open>\<open>parseURL\<close> gives the host with its port, \<open>equalFold\<close> is \<open>strings.EqualFold\<close>.\<close>

definition IsLoopbackReachability :: "(string \<Rightarrow> string option) \<Rightarrow> netlib \<Rightarrow> (string \<Rightarrow> string \<Rightarrow> bool) \<Rightarrow> string \<Rightarrow> bool" where
  "IsLoopbackReachability parseHost L equalFold endpoint =
     (let host = (case parseHost endpoint of None \<Rightarrow> endpoint | Some h \<Rightarrow> if h \<noteq> [] then h else endpoint);
          host = (case splitHostPort L host of None \<Rightarrow> host | Some h \<Rightarrow> h);
          host = (if hasPrefix host ''['' then drop 1 host else host);
          host = (if host \<noteq> [] \<and> last host = CHR '']'' then butlast host else host)
      in equalFold host ''localhost'' \<or> (case parseIP L host of None \<Rightarrow> False | Some ip \<Rightarrow> isLoopback ip \<or> isUnspecified ip))"

definition resolveReachabilityEndpoint :: "(string \<Rightarrow> (string \<times> string) option) \<Rightarrow> string \<Rightarrow> bool \<Rightarrow> string option" where
  "resolveReachabilityEndpoint splitHP listenAddr tlsEnabled = (case splitHP listenAddr of
       None \<Rightarrow> None
     | Some (host, port) \<Rightarrow> Some ((if tlsEnabled then ''https://'' else ''http://'') @ (if host = [] then ''localhost'' else host) @ '':'' @ port))"

section \<open>The heartbeat\<close>

text \<open>
  One tick: the configuration read from disk, the local time, the two random draws, what a
  manifest is assembled from, the time of the refresh and whether it went through.
\<close>

record tick =
  tkConfig :: node_config
  tkLocal :: local_time
  tkRoll :: f64
  tkDowntime :: nat
  tkEnv :: cap_env
  tkTime :: int
  tkRefreshed :: bool

definition heartbeat :: "text_tables \<Rightarrow> agent \<Rightarrow> cap_options \<Rightarrow> f64 \<Rightarrow> tick \<Rightarrow> gates \<times> CapabilityManifest \<Rightarrow>
    (gates \<times> CapabilityManifest) \<times> agent_post list \<times> duration option" where
  "heartbeat T A opts chaosPct k s = (case s of (g, m) \<Rightarrow>
     let g = g\<lparr> scheduleActive := IsActiveNow T (tkLocal k) (ncSchedule (tkConfig k)) \<rparr>
     in if \<not> scheduleActive g then ((g, m), [], None)
        else if chaosActive g then ((g, m), [], None)
        else if chaosPct > 0 \<and> fmul (tkRoll k) 100 < chaosPct
        then ((g\<lparr> chaosActive := True \<rparr>, m), [], Some ((20 + int (tkDowntime k)) * second))
        else case AssembleManifest (agCrypto A) (tkEnv k) (agPub A) opts of
            None \<Rightarrow> ((g, m), [], None)
          | Some fresh \<Rightarrow>
              let again = (case registerMessage (agCrypto A) (agUser A) (agPriv A) (agPub A) fresh of Inl e \<Rightarrow> [] | Inr reg \<Rightarrow> [PostRegister reg])
              in ((g, fresh), (case refreshMessage (agCrypto A) (agPriv A) fresh (tkTime k) of
                    Inl e \<Rightarrow> again
                  | Inr req \<Rightarrow> PostRefresh (agNode A) req # (if tkRefreshed k then [] else again)), None))"

text \<open>
  The sweep over the models of the last manifest; \<open>bench i\<close> is Exo during the \<open>i\<close>-th
  benchmark, how long its runs take, the formatted time and the time of the submission.
\<close>

definition benchSweep :: "agent \<Rightarrow> (nat \<Rightarrow> (nat \<Rightarrow> exo) \<times> (nat \<Rightarrow> duration) \<times> string \<times> int) \<Rightarrow> CapabilityManifest \<Rightarrow> agent_post list" where
  "benchSweep A bench m = concat (map (\<lambda>(i, mc). case bench i of (X, elapsed, now, timestamp) \<Rightarrow>
       (case RunBench X elapsed now (CapModelID mc) ''medium'' 1 of
          Inl e \<Rightarrow> []
        | Inr sig \<Rightarrow> (case benchmarkMessage (agCrypto A) (agCodec A) (agPriv A) sig timestamp of
            Inl e \<Rightarrow> [] | Inr req \<Rightarrow> [PostBenchmark (agNode A) req])))
     (enumerate 0 (Models m)))"

text \<open>The events that move the gates: ticks, and the end of a simulated downtime.\<close>

datatype agent_event = TickEv tick | ChaosOverEv

fun agent_step :: "text_tables \<Rightarrow> agent \<Rightarrow> cap_options \<Rightarrow> f64 \<Rightarrow> agent_event \<Rightarrow> gates \<times> CapabilityManifest \<Rightarrow> gates \<times> CapabilityManifest" where
  "agent_step T A opts chaosPct (TickEv k) s = fst (heartbeat T A opts chaosPct k s)"
| "agent_step T A opts chaosPct ChaosOverEv (g, m) = (g\<lparr> chaosActive := False \<rparr>, m)"

definition agent_run :: "text_tables \<Rightarrow> agent \<Rightarrow> cap_options \<Rightarrow> f64 \<Rightarrow> agent_event list \<Rightarrow> gates \<times> CapabilityManifest \<Rightarrow> gates \<times> CapabilityManifest" where
  "agent_run T A opts chaosPct evs s = fold (agent_step T A opts chaosPct) evs s"

fun lastTick :: "agent_event list \<Rightarrow> tick option \<Rightarrow> tick option" where
  "lastTick [] k = k"
| "lastTick (TickEv k' # evs) k = lastTick evs (Some k')"
| "lastTick (ChaosOverEv # evs) k = lastTick evs k"

section \<open>Lemmas\<close>

text \<open>A key pair: Go's lengths, and what the private key signs verifies under the public one.\<close>

definition key_pair :: "crypto \<Rightarrow> bytes \<Rightarrow> bytes \<Rightarrow> bool" where
  "key_pair C priv pub \<longleftrightarrow> length priv = 64 \<and> length pub = 32 \<and> (\<forall>m. ed25519Verify C pub m (ed25519Sign C priv m))"

lemmas message_defs = registerMessage_def refreshMessage_def claimMessage_def resultMessage_def outcomeMessage_def benchmarkMessage_def

lemma signWith_verifies:
  assumes "key_pair C priv pub" "signWith C priv bs = Inr sig"
  obtains b where "bs = Some b" "VerifySignature C pub b sig"
  using assms by (auto simp: signWith_def SignPayload_def VerifySignature_def key_pair_def split: option.splits if_splits)

text \<open>What the coordinator's gate needs of a request, and its body filled in by the agent.\<close>

definition fresh_at :: "world \<Rightarrow> int \<Rightarrow> bool" where
  "fresh_at w timestamp \<longleftrightarrow> - maxClockSkewAhead \<le> wClock w 0 - timestamp * second \<and> wClock w 0 - timestamp * second \<le> MaxRequestAge"

lemma signedBy_accepts:
  assumes "key_pair (cfCrypto cf) priv pub" "PublicKey nodeID (coReg c) = Some pub" "fresh_at w timestamp"
    and "signWith (cfCrypto cf) priv bs = Inr sig"
  shows "signedBy cf w nodeID timestamp bs sig c = None"
proof -
  obtain b where "bs = Some b" "VerifySignature (cfCrypto cf) pub b sig" using signWith_verifies[OF assms(1,4)] .
  moreover have "VerifyFreshness timestamp (wClock w 0) = None" using assms(3) unfolding fresh_at_def VerifyFreshness_iff .
  ultimately show ?thesis using assms(2) by (simp add: signedBy_def VerifyNodeSignature_def)
qed

text \<open>Filling in the signature does not change the bytes that are signed.\<close>

lemma claimMessage_signed:
  "claimMessage C priv nodeID ts = Inr req \<Longrightarrow>
     ClaimNodeID req = nodeID \<and> ClaimTimestamp req = ts \<and> signWith C priv (ClaimSigningBytes C req) = Inr (ClaimSignature req)"
  by (auto simp: claimMessage_def Let_def ClaimSigningBytes_def split: sum.splits)

lemma refreshMessage_signed:
  "refreshMessage C priv m ts = Inr req \<Longrightarrow>
     RefManifest req = m \<and> RefTimestamp req = ts \<and> signWith C priv (RefreshSigningBytes C req) = Inr (RefSignature req)"
  by (auto simp: refreshMessage_def Let_def RefreshSigningBytes_def split: sum.splits)

lemma resultMessage_signed:
  "resultMessage C K et priv nodeID jobID res ts = Inr req \<Longrightarrow>
     ResNodeID req = nodeID \<and> ResJobID req = jobID \<and> ResTimestamp req = ts \<and>
     ResResult req = (case res of Inl e \<Rightarrow> None | Inr r \<Rightarrow> Some r) \<and> ResError req = (case res of Inl e \<Rightarrow> et e | Inr r \<Rightarrow> []) \<and>
     signWith C priv (ResultSigningBytes K req) = Inr (ResSignature req)"
  by (auto simp: resultMessage_def Let_def ResultSigningBytes_def split: sum.splits)

lemma outcomeMessage_signed:
  "outcomeMessage C K priv jobID ok l n ts = Inr req \<Longrightarrow>
     OutTimestamp req = ts \<and> signWith C priv (OutcomeSigningBytes K req) = Inr (OutSignature req)"
  by (auto simp: outcomeMessage_def Let_def OutcomeSigningBytes_def split: sum.splits)

lemma benchmarkMessage_signed:
  "benchmarkMessage C K priv sig ts = Inr req \<Longrightarrow>
     BenchMeasured req = sig \<and> BenchTimestamp req = ts \<and> signWith C priv (BenchmarkSigningBytes K req) = Inr (BenchSignature req)"
  by (auto simp: benchmarkMessage_def Let_def BenchmarkSigningBytes_def split: sum.splits)

lemmas messages_signed = claimMessage_signed refreshMessage_signed resultMessage_signed outcomeMessage_signed benchmarkMessage_signed

lemma registerMessage_accepted:
  assumes "key_pair (cfCrypto cf) priv pub" "NodeID m = NodeIDFromPubKey (cfCrypto cf) pub" "registerMessage (cfCrypto cf) user priv pub m = Inr reg"
  shows "fst (fst (handleRegister cf w (Some reg) c)) = 200" "PublicKey (NodeID m) (coReg (snd (handleRegister cf w (Some reg) c))) = Some pub"
proof -
  obtain sig where sig: "signWith (cfCrypto cf) priv (marshalManifest (cfCrypto cf) m) = Inr sig"
    "reg = \<lparr> RegManifest = m, RegPublicKey = pub, RegSignature = sig, RegUserID = user \<rparr>"
    using assms(3) by (auto simp: registerMessage_def split: sum.splits)
  obtain b where "marshalManifest (cfCrypto cf) m = Some b" "VerifySignature (cfCrypto cf) pub b sig"
    using signWith_verifies[OF assms(1) sig(1)] .
  then have "Register (cfCrypto cf) reg (wClock w 0) (coReg c) = (Inr True, (coReg c)(NodeID m \<mapsto> freshEntry reg (wClock w 0)))"
    using assms(2) by (simp add: Register_def sig(2))
  then show "fst (fst (handleRegister cf w (Some reg) c)) = 200"
    "PublicKey (NodeID m) (coReg (snd (handleRegister cf w (Some reg) c))) = Some pub"
    by (simp_all add: handleRegister_def reply_defs PublicKey_def freshEntry_def sig(2) Let_def)
qed

text \<open>The handlers answer an accepted message with 200, or 204 when there is no work.\<close>

lemma accepted_statuses:
  assumes "signedBy cf w nodeID ts bs sig c = None"
  shows "\<lbrakk>ClaimNodeID q = nodeID; ClaimTimestamp q = ts; ClaimSigningBytes (cfCrypto cf) q = bs; ClaimSignature q = sig\<rbrakk> \<Longrightarrow>
      fst (fst (handleClaim cf w (Some q) c)) \<in> {200, 204}"
    and "\<lbrakk>RefTimestamp f = ts; RefreshSigningBytes (cfCrypto cf) f = bs; RefSignature f = sig; PublicKey nodeID (coReg c) \<noteq> None\<rbrakk> \<Longrightarrow>
      fst (fst (handleRefresh cf w nodeID (Some f) c)) = 200"
    and "\<lbrakk>ResNodeID s = nodeID; ResTimestamp s = ts; ResultSigningBytes (cfCodec cf) s = bs; ResSignature s = sig\<rbrakk> \<Longrightarrow>
      fst (fst (handleResult cf w (Some s) c)) = 200"
    and "\<lbrakk>OutTimestamp t = ts; OutcomeSigningBytes (cfCodec cf) t = bs; OutSignature t = sig\<rbrakk> \<Longrightarrow>
      fst (fst (handleOutcome cf w nodeID (Some t) c)) = 200"
    and "\<lbrakk>BenchTimestamp u = ts; BenchmarkSigningBytes (cfCodec cf) u = bs; BenchSignature u = sig\<rbrakk> \<Longrightarrow>
      fst (fst (handleBenchmark cf w nodeID (Some u) c)) = 200"
  using assms
  by (auto simp: handleClaim_def handleRefresh_def handleResult_def handleOutcome_def handleBenchmark_def Let_def statusOk_def
      Refresh_def PublicKey_def split: option.splits prod.splits)

lemma agent_messages_accepted:
  assumes "key_pair (cfCrypto cf) priv pub" "PublicKey nodeID (coReg c) = Some pub" "fresh_at w ts"
  shows "claimMessage (cfCrypto cf) priv nodeID ts = Inr q \<Longrightarrow> fst (fst (handleClaim cf w (Some q) c)) \<in> {200, 204}"
    and "refreshMessage (cfCrypto cf) priv m ts = Inr f \<Longrightarrow> fst (fst (handleRefresh cf w nodeID (Some f) c)) = 200"
    and "resultMessage (cfCrypto cf) (cfCodec cf) et priv nodeID job res ts = Inr s \<Longrightarrow> fst (fst (handleResult cf w (Some s) c)) = 200"
    and "outcomeMessage (cfCrypto cf) (cfCodec cf) priv job ok l n ts = Inr t \<Longrightarrow> fst (fst (handleOutcome cf w nodeID (Some t) c)) = 200"
    and "benchmarkMessage (cfCrypto cf) (cfCodec cf) priv sig ts = Inr u \<Longrightarrow> fst (fst (handleBenchmark cf w nodeID (Some u) c)) = 200"
proof -
  note accepts = accepted_statuses[OF signedBy_accepts[OF assms]]
  show "fst (fst (handleClaim cf w (Some q) c)) \<in> {200, 204}" if "claimMessage (cfCrypto cf) priv nodeID ts = Inr q"
    using claimMessage_signed[OF that] by (intro accepts(1)) auto
  show "fst (fst (handleRefresh cf w nodeID (Some f) c)) = 200" if "refreshMessage (cfCrypto cf) priv m ts = Inr f"
    using refreshMessage_signed[OF that] assms(2) by (intro accepts(2)) auto
  show "fst (fst (handleResult cf w (Some s) c)) = 200" if "resultMessage (cfCrypto cf) (cfCodec cf) et priv nodeID job res ts = Inr s"
    using resultMessage_signed[OF that] by (intro accepts(3)) auto
  show "fst (fst (handleOutcome cf w nodeID (Some t) c)) = 200" if "outcomeMessage (cfCrypto cf) (cfCodec cf) priv job ok l n ts = Inr t"
    using outcomeMessage_signed[OF that] by (intro accepts(4)) auto
  show "fst (fst (handleBenchmark cf w nodeID (Some u) c)) = 200" if "benchmarkMessage (cfCrypto cf) (cfCodec cf) priv sig ts = Inr u"
    using benchmarkMessage_signed[OF that] by (intro accepts(5)) auto
qed

text \<open>The gates after a run: the schedule of the last tick, and no downtime without chaos.\<close>

lemma heartbeat_gates:
  "scheduleActive (fst (fst (heartbeat T A opts pct k s))) = IsActiveNow T (tkLocal k) (ncSchedule (tkConfig k))"
  "pct \<le> 0 \<Longrightarrow> chaosActive (fst (fst (heartbeat T A opts pct k s))) = chaosActive (fst s)"
  by (auto simp: heartbeat_def Let_def split: prod.splits option.splits)

lemma agent_run_gates:
  "scheduleActive (fst (agent_run T A opts pct evs s)) =
     (case lastTick evs None of None \<Rightarrow> scheduleActive (fst s) | Some k \<Rightarrow> IsActiveNow T (tkLocal k) (ncSchedule (tkConfig k)))"
  "pct \<le> 0 \<Longrightarrow> \<not> chaosActive (fst s) \<Longrightarrow> \<not> chaosActive (fst (agent_run T A opts pct evs s))"
proof -
  have last: "lastTick evs k = (case lastTick evs None of None \<Rightarrow> k | Some k' \<Rightarrow> Some k')" for evs k
  proof (induction evs arbitrary: k)
    case (Cons ev evs)
    show ?case
    proof (cases ev)
      case (TickEv k')
      then show ?thesis using Cons.IH[of "Some k'"] by (auto split: option.splits)
    next
      case ChaosOverEv
      then show ?thesis using Cons.IH[of k] by simp
    qed
  qed simp
  show "scheduleActive (fst (agent_run T A opts pct evs s)) =
     (case lastTick evs None of None \<Rightarrow> scheduleActive (fst s) | Some k \<Rightarrow> IsActiveNow T (tkLocal k) (ncSchedule (tkConfig k)))"
  proof (induction evs arbitrary: s)
    case (Cons ev evs)
    show ?case
    proof (cases ev)
      case (TickEv k)
      then show ?thesis using Cons.IH[of "agent_step T A opts pct ev s"] last[of evs "Some k"]
        by (auto simp: agent_run_def heartbeat_gates split: option.splits)
    next
      case ChaosOverEv
      then show ?thesis using Cons.IH[of "agent_step T A opts pct ev s"] by (cases s) (auto simp: agent_run_def ChaosOverEv split: option.splits)
    qed
  qed (simp add: agent_run_def)
  show "\<not> chaosActive (fst (agent_run T A opts pct evs s))" if "pct \<le> 0" "\<not> chaosActive (fst s)"
    using that(2)
  proof (induction evs arbitrary: s)
    case (Cons ev evs)
    have "\<not> chaosActive (fst (agent_step T A opts pct ev s))"
      using Cons.prems that(1) by (cases ev; cases s) (simp_all add: heartbeat_gates)
    from Cons.IH[OF this] show ?case by (simp add: agent_run_def)
  qed (simp add: agent_run_def)
qed

text \<open>How the answer of the coordinator reaches the agent.\<close>

fun claimReply :: "reply \<Rightarrow> claim_answer" where
  "claimReply (code, JobBody job) = ClaimStatus (int code) (Some job)"
| "claimReply (code, body) = ClaimStatus (int code) None"

lemma handleClaim_job:
  assumes "signedBy cf w (ClaimNodeID q) (ClaimTimestamp q) (ClaimSigningBytes (cfCrypto cf) q) (ClaimSignature q) c = None"
    and "queues (coPull c) (ClaimNodeID q) = Some (job # rest)"
  shows "handleClaim cf w (Some q) c = ((200, JobBody job), c\<lparr> coReg := MarkSeen (ClaimNodeID q) (wClock w 1) (coReg c),
    coPull := (coPull c)\<lparr> queues := (queues (coPull c))(ClaimNodeID q \<mapsto> rest) \<rparr> \<rparr>)"
  using assms by (simp add: handleClaim_def Claim_def queueFor_def Let_def)

lemma handleResult_delivers:
  assumes "signedBy cf w (ResNodeID s) (ResTimestamp s) (ResultSigningBytes (cfCodec cf) s) (ResSignature s) c = None"
    and "waiters (coPull c) (ResJobID s) = Some k" "slots (coPull c) k = None"
  shows "handleResult cf w (Some s) c = (statusOk [''delivered'' \<mapsto> JBool True], c\<lparr> coPull := (coPull c)\<lparr> slots := (slots (coPull c))
    (k \<mapsto> \<lparr> Result = ResResult s, Err = if ResError s \<noteq> [] then Some (''node execution error: '' @ ResError s) else None \<rparr>) \<rparr> \<rparr>)"
  using assms by (simp add: handleResult_def SubmitResult_def Let_def)

section \<open>Properties\<close>


definition samplePriv :: bytes where "samplePriv = replicate 64 0"
definition samplePub :: bytes where "samplePub = replicate 32 0"

lemma sample_pair: "key_pair plainCrypto samplePriv samplePub"
  by (simp add: key_pair_def plainCrypto_def samplePriv_def samplePub_def)

lemma sample_crypto: "cfCrypto plainConfig = plainCrypto" by (simp add: plainConfig_def)

lemma sample_assembles: "\<exists>m. AssembleManifest C sampleCapEnv pub opts = Some m"
  by (auto simp: AssembleManifest_def TotalRAMGB_def sampleCapEnv_def split: prod.splits)

lemma sample_registers: "\<exists>reg. registerMessage plainCrypto user samplePriv samplePub m = Inr reg"
  by (simp add: registerMessage_def signWith_def SignPayload_def plainCrypto_def samplePriv_def)



definition sampleRunner :: runner where
  "sampleRunner = \<lparr> rnExo = bareExo\<lparr> exPost := (\<lambda>p b. Answer 200 (Some (JObj twentyTokens))) \<rparr>, rnDrafts = Map.empty,
     rnStream = (\<lambda>b. None), rnUsage = (\<lambda>s. None) \<rparr>"

definition sampleAgent :: agent where
  "sampleAgent = \<lparr> agCrypto = plainCrypto, agCodec = cfCodec plainConfig, agPriv = samplePriv, agPub = samplePub, agNode = ''n'', agUser = [],
     agCapPct = 1 / 2, agRunner = sampleRunner, agPayload = toyPayload, agErrText = (\<lambda>e. ''failed'') \<rparr>"

definition sampleHost :: host where
  "sampleHost = \<lparr> hsGroups = Some (1, 2), hsTotal = None, hsAvail = None \<rparr>"

definition knownCoordinator :: coordinator where
  "knownCoordinator = emptyCoordinator\<lparr> coReg := [''n'' \<mapsto> freshEntry (sampleRegistration\<lparr> RegPublicKey := samplePub \<rparr>) 0],
     coPull := NewPullDispatcher\<lparr> queues := [''n'' \<mapsto> [\<lparr> PendingJobID = ''j'', PendingSpec = emptyJob, Messages = [] \<rparr>]],
       waiters := [''j'' \<mapsto> 0] \<rparr> \<rparr>"

lemma sample_window: "fresh_at obligingWorld 0"
  by (simp add: fresh_at_def obligingWorld_def maxClockSkewAhead_def MaxRequestAge_def)



definition nightTick :: tick where
  "nightTick = \<lparr> tkConfig = DefaultNodeConfig\<lparr> ncSchedule := \<lparr> ScheduleMode = ''window'', DailyStart = ''22:00'', DailyEnd = ''06:00'', Days = [] \<rparr> \<rparr>,
     tkLocal = \<lparr> ltWeekday = 1, ltHour = 12, ltMinute = 0 \<rparr>, tkRoll = 0, tkDowntime = 0, tkEnv = sampleCapEnv, tkTime = 0, tkRefreshed = True \<rparr>"


text \<open>
  Any web page can reconfigure a node. The job server lets every origin through, so that
  the preflight and the request of a page of any site succeed, and its valid configuration
  replaces the one of the owner; the comment promises localhost origins only.
\<close>

theorem any_origin_reconfigures:
  assumes "Header r ''Origin'' = origin" "origin \<noteq> []" "Method r = ''POST''" "URLPath r = ''/config''"
    and "ValidateConfig (ceText CE) (ceParseURL CE) (ceDraftOrder CE) cfg = []" "ceDirOk CE" "ceWriteOk CE"
  shows "snd (agentCORS (r\<lparr> Method := ''OPTIONS'' \<rparr>)) = Refuse 204 \<and>
    (''Access-Control-Allow-Origin'', origin) \<in> set (fst (agentCORS (r\<lparr> Method := ''OPTIONS'' \<rparr>))) \<and>
    (\<exists>headers. (''Access-Control-Allow-Origin'', origin) \<in> set headers \<and>
       serveNode A g h DE CE r chat (Some cfg) latency ts file = (headers, (200, ConfigStored), Conf (ceEncode CE cfg), []))"
  using assms by (auto simp: agentCORS_def serveNode_def handleConfigSave_def SaveConfig_def Let_def)

theorem any_origin_reconfigures_witness:
  "\<exists>headers. (''Access-Control-Allow-Origin'', ''https://evil'') \<in> set headers \<and>
     serveNode sampleAgent \<lparr> chaosActive = False, scheduleActive = True \<rparr> sampleHost
       \<lparr> deSystem = None, deReachability = [], dePortMapping = [], deEnclave = False, deExoURL = [], deConfig = DefaultNodeConfig \<rparr>
       \<lparr> ceText = asciiText, ceParseURL = (\<lambda>s. Some (''http'', ''h'')), ceDraftOrder = [], ceEncode = (\<lambda>c. []), ceDirOk = True, ceWriteOk = True \<rparr>
       \<lparr> Method = ''POST'', URLPath = ''/config'', Header = (\<lambda>n. if n = ''Origin'' then ''https://evil'' else []), RemoteAddr = [] \<rparr>
       None (Some DefaultNodeConfig) 0 0 NoConf = (headers, (200, ConfigStored), Conf [], [])"
proof -
  let ?CE = "\<lparr> ceText = asciiText, ceParseURL = (\<lambda>s. Some (''http'', ''h'')), ceDraftOrder = [], ceEncode = (\<lambda>c. []), ceDirOk = True, ceWriteOk = True \<rparr>"
  let ?r = "\<lparr> Method = ''POST'', URLPath = ''/config'', Header = (\<lambda>n. if n = ''Origin'' then ''https://evil'' else []), RemoteAddr = [] \<rparr>"
  have "ValidateConfig asciiText (\<lambda>s. Some (''http'', ''h'')) [] DefaultNodeConfig = []"
    by (simp add: ValidateConfig_def DefaultNodeConfig_def validHTTPURL_def validateSchedule_def validSensitivityCaps_def)
  then have "ValidateConfig (ceText ?CE) (ceParseURL ?CE) (ceDraftOrder ?CE) DefaultNodeConfig = []" by simp
  from any_origin_reconfigures[OF _ _ _ _ this, of ?r "''https://evil''"] show ?thesis by simp
qed

end
