(* ===== verification/Experts.thy ===== *)
theory Experts
  imports Registry Json
begin

text \<open>
  The expert planner of \<open>internal/coordinator/moe_planner.go\<close>: how the experts of a
  mixture-of-experts model are dealt to nodes by memory with the largest-remainder method, how
  a token's routing decision finds its node, and the detection of overloaded nodes. Shares are
  computed in binary64; counters are not wrapped. Loops over maps take their order as an
  argument, and a routing decision is decoded JSON.
\<close>

section \<open>Planning\<close>

datatype expert_error = NoExpertCandidates | BadExpertTotal int

definition expertCap :: "CapabilityManifest \<Rightarrow> f64" where
  "expertCap c = (let cap = fmul (DeclaredMemoryGB c) (DeclaredMemoryCapPct c) in if cap \<le> 0 then 1 else cap)"

definition capTotal :: "f64 list \<Rightarrow> f64" where
  "capTotal caps = fold (\<lambda>c t. fadd t c) caps 0"

definition exactShare :: "f64 list \<Rightarrow> int \<Rightarrow> f64 \<Rightarrow> f64" where
  "exactShare caps totalExperts c = fmul (fdiv c (capTotal caps)) (f_of_int totalExperts)"

definition expertFloors :: "f64 list \<Rightarrow> int \<Rightarrow> int list" where
  "expertFloors caps totalExperts = map (\<lambda>c. fint (exactShare caps totalExperts c)) caps"

definition expertRems :: "f64 list \<Rightarrow> int \<Rightarrow> (nat \<times> f64) list" where
  "expertRems caps totalExperts = map (\<lambda>(i, c). let exact = exactShare caps totalExperts c in (i, fsub exact (f_of_int (fint exact))))
     (enumerate 0 caps)"

text \<open>One more expert for the first \<open>k\<close> of the sorted remainders; None is the index panic.\<close>

fun handOut :: "(nat \<times> f64) list \<Rightarrow> nat \<Rightarrow> int list \<Rightarrow> int list option" where
  "handOut rems 0 counts = Some counts"
| "handOut [] (Suc k) counts = None"
| "handOut ((i, r) # rems) (Suc k) counts = handOut rems k (counts[i := counts ! i + 1])"

definition expertCounts :: "f64 list \<Rightarrow> int \<Rightarrow> int list option" where
  "expertCounts caps totalExperts =
     handOut (sort_slice (\<lambda>a b. snd a > snd b) (expertRems caps totalExperts))
       (nat (totalExperts - sum_list (expertFloors caps totalExperts))) (expertFloors caps totalExperts)"

text \<open>Consecutive blocks of experts; None is the panic of \<open>make\<close> with a negative length.\<close>

fun layOut :: "(node_id \<times> int) list \<Rightarrow> int \<Rightarrow> (node_id \<rightharpoonup> int list) \<Rightarrow> (node_id \<rightharpoonup> int list) option" where
  "layOut [] expertID assignment = Some assignment"
| "layOut ((nodeID, k) # rest) expertID assignment =
     (if k = 0 then layOut rest expertID assignment
      else if k < 0 then None
      else layOut rest (expertID + k) (assignment(nodeID \<mapsto> [expertID..expertID + k - 1])))"

text \<open>None of the outer option is a panic.\<close>

definition PlanMoEExpertAssignment :: "int \<Rightarrow> CapabilityManifest list \<Rightarrow> (expert_error + (node_id \<rightharpoonup> int list)) option" where
  "PlanMoEExpertAssignment totalExperts candidates =
     (if candidates = [] then Some (Inl NoExpertCandidates)
      else if totalExperts \<le> 0 then Some (Inl (BadExpertTotal totalExperts))
      else case expertCounts (map expertCap candidates) totalExperts of
          None \<Rightarrow> None
        | Some counts \<Rightarrow> map_option Inr (layOut (sort_slice (\<lambda>a b. fst a < fst b) (zip (map NodeID candidates) counts)) 0 Map.empty))"

section \<open>Routing and imbalance\<close>

datatype expert_route_error = NoActivatedExperts | ExpertNotAssigned int

definition routingExperts :: "jobj \<Rightarrow> int list" where
  "routingExperts d = (case d ''activated_experts'' of
       Some (JArr xs) \<Rightarrow> concat (map (\<lambda>x. case x of JNum f \<Rightarrow> [fint f] | _ \<Rightarrow> []) xs)
     | Some _ \<Rightarrow> []
     | None \<Rightarrow> (case d ''expert_id'' of Some (JNum f) \<Rightarrow> [fint f] | _ \<Rightarrow> []))"

definition RouteTokenToExpertNode :: "node_id list \<Rightarrow> jobj \<Rightarrow> (node_id \<rightharpoonup> int list) \<Rightarrow> expert_route_error + node_id" where
  "RouteTokenToExpertNode ks d assignment = (case routingExperts d of
       [] \<Rightarrow> Inl NoActivatedExperts
     | target # others \<Rightarrow>
         (case find (\<lambda>n. case assignment n of None \<Rightarrow> False | Some experts \<Rightarrow> target \<in> set experts) ks of
            None \<Rightarrow> Inl (ExpertNotAssigned target) | Some n \<Rightarrow> Inr n))"

definition imbalanceThreshold :: f64 where "imbalanceThreshold = 2"

definition activationsOf :: "(int \<rightharpoonup> int) \<Rightarrow> int list \<Rightarrow> int" where
  "activationsOf stats experts = sum_list (map (\<lambda>e. case stats e of None \<Rightarrow> 0 | Some n \<Rightarrow> n) experts)"

definition expertsAt :: "(node_id \<rightharpoonup> int list) \<Rightarrow> node_id \<Rightarrow> int list" where
  "expertsAt assignment n = (case assignment n of None \<Rightarrow> [] | Some experts \<Rightarrow> experts)"

text \<open>\<open>ks\<close> and \<open>es\<close> are the orders of the loops over the assignment and the statistics.\<close>

definition DetectExpertLoadImbalance :: "node_id list \<Rightarrow> int list \<Rightarrow> (node_id \<rightharpoonup> int list) \<Rightarrow> (int \<rightharpoonup> int) \<Rightarrow> node_id list" where
  "DetectExpertLoadImbalance ks es assignment stats =
     (let totalExperts = sum_list (map (\<lambda>n. int (length (expertsAt assignment n))) ks);
          totalActivations = activationsOf stats es
      in if ks = [] \<or> es = [] \<or> totalExperts = 0 \<or> totalActivations = 0 then []
         else sort (filter (\<lambda>n. let experts = expertsAt assignment n;
                 expected = fdiv (fmul (f_of_int totalActivations) (f_of_int (int (length experts)))) (f_of_int totalExperts)
               in experts \<noteq> [] \<and> f_of_int (activationsOf stats experts) > fmul imbalanceThreshold expected) ks))"

section \<open>Rounding of the shares\<close>

lemma power_up: "rat_of_nat k * u \<le> 1 / 2 \<Longrightarrow> 0 \<le> u \<Longrightarrow> (1 + u) ^ k \<le> 1 + 2 * of_nat k * u"
proof (induction k)
  case (Suc k)
  have k: "of_nat k * u \<le> 1 / 2" using Suc.prems by (simp add: distrib_right)
  have "(1 + u) ^ Suc k \<le> (1 + 2 * of_nat k * u) * (1 + u)"
    using Suc.IH[OF k Suc.prems(2)] Suc.prems(2) by (simp add: mult.commute mult_left_mono)
  moreover have "2 * (of_nat k * u) * u \<le> 1 * u" using k Suc.prems(2) by (intro mult_right_mono) linarith+
  ultimately show ?case by (simp add: algebra_simps)
qed simp

lemma power_down: "0 \<le> u \<Longrightarrow> u \<le> 1 \<Longrightarrow> 1 - rat_of_nat k * u \<le> (1 - u) ^ k"
proof (induction k)
  case (Suc k)
  have "(1 - of_nat k * u) * (1 - u) \<le> (1 - u) ^ k * (1 - u)" using Suc by (intro mult_right_mono) auto
  moreover have "0 \<le> of_nat k * u * u" using Suc.prems by simp
  ultimately show ?case by (simp add: algebra_simps)
qed simp

lemma is_f64_expertCap: "is_f64 (expertCap c)"
  by (simp add: expertCap_def Let_def)

lemma capTotal_powers:
  assumes "\<forall>c \<in> set caps. is_f64 c \<and> 0 \<le> c"
  shows "is_f64 (capTotal caps)" "sum_list caps * (1 - 1 / 2 ^ 53) ^ length caps \<le> capTotal caps"
    "capTotal caps \<le> sum_list caps * (1 + 1 / 2 ^ 53) ^ length caps" "0 \<le> capTotal caps"
proof -
  have "is_f64 (capTotal caps) \<and> sum_list caps * (1 - 1 / 2 ^ 53) ^ length caps \<le> capTotal caps \<and>
    capTotal caps \<le> sum_list caps * (1 + 1 / 2 ^ 53) ^ length caps \<and> 0 \<le> capTotal caps" (is "?P caps")
    using assms
  proof (induction caps rule: rev_induct)
    case (snoc c caps)
    let ?u = "1 / 2 ^ 53 :: rat" and ?n = "length caps"
    have i: "is_f64 (capTotal caps)" "sum_list caps * (1 - ?u) ^ ?n \<le> capTotal caps" "capTotal caps \<le> sum_list caps * (1 + ?u) ^ ?n"
      "0 \<le> capTotal caps" and c: "is_f64 c" "0 \<le> c" using snoc by auto
    have t: "capTotal (caps @ [c]) = fl (capTotal caps + c)" by (simp add: capTotal_def)
    have e: "\<bar>fl (capTotal caps + c) - (capTotal caps + c)\<bar> \<le> (capTotal caps + c) * ?u"
      using f64_add_rel[OF i(1) c(1)] i(4) c(2) by simp
    have p: "1 \<le> (1 + ?u) ^ ?n" "(1 - ?u) ^ ?n \<le> 1" by (intro one_le_power power_le_one; simp)+
    have bounds: "fl (capTotal caps + c) \<le> (capTotal caps + c) * (1 + ?u)" "(capTotal caps + c) * (1 - ?u) \<le> fl (capTotal caps + c)"
      using abs_le_D1[OF e] abs_le_D2[OF e] unfolding distrib_left right_diff_distrib mult_1_right by linarith+
    have "fl (capTotal caps + c) \<le> (capTotal caps + c) * (1 + ?u)" by (rule bounds(1))
    also have "\<dots> \<le> (sum_list caps * (1 + ?u) ^ ?n + c * (1 + ?u) ^ ?n) * (1 + ?u)"
      using i(3) mult_left_mono[OF p(1) c(2)] by (intro mult_right_mono add_mono) simp_all
    also have "\<dots> = (sum_list (caps @ [c])) * (1 + ?u) ^ length (caps @ [c])" by (simp add: algebra_simps)
    finally have up: "fl (capTotal caps + c) \<le> (sum_list (caps @ [c])) * (1 + ?u) ^ length (caps @ [c])" .
    have "(sum_list (caps @ [c])) * (1 - ?u) ^ length (caps @ [c]) = (sum_list caps * (1 - ?u) ^ ?n + c * (1 - ?u) ^ ?n) * (1 - ?u)"
      by (simp add: algebra_simps)
    also have "\<dots> \<le> (capTotal caps + c) * (1 - ?u)"
      using i(2) mult_left_mono[OF p(2) c(2)] by (intro mult_right_mono add_mono) simp_all
    also have "\<dots> \<le> fl (capTotal caps + c)" by (rule bounds(2))
    finally show ?case using up i(4) c(2) by (simp add: t fl_nonneg)
  qed (simp add: capTotal_def)
  then show "is_f64 (capTotal caps)" "sum_list caps * (1 - 1 / 2 ^ 53) ^ length caps \<le> capTotal caps"
    "capTotal caps \<le> sum_list caps * (1 + 1 / 2 ^ 53) ^ length caps" "0 \<le> capTotal caps" by auto
qed

text \<open>Up to \<open>2 ^ 16\<close> nodes the total is exact up to \<open>2 ^ -36\<close>.\<close>

lemma capTotal_close:
  assumes "\<forall>c \<in> set caps. is_f64 c \<and> 0 \<le> c" "length caps \<le> 65536"
  shows "sum_list caps * (1 - 1 / 2 ^ 36) \<le> capTotal caps" "capTotal caps \<le> sum_list caps * (1 + 1 / 2 ^ 36)"
proof -
  let ?u = "1 / 2 ^ 53 :: rat"
  have s: "0 \<le> sum_list caps" using assms(1) by (intro sum_list_nonneg) auto
  have "of_nat (length caps) \<le> (65536 :: rat)" using assms(2) of_nat_mono[of "length caps" 65536, where 'a = rat] by simp
  then have n: "of_nat (length caps) * ?u \<le> 1 / 2 ^ 37" by simp
  have "(1 + ?u) ^ length caps \<le> 1 + 2 * of_nat (length caps) * ?u" by (rule power_up) (use n in simp_all)
  then have "(1 + ?u) ^ length caps \<le> 1 + 1 / 2 ^ 36" using n by simp
  from order_trans[OF capTotal_powers(3)[OF assms(1)] mult_left_mono[OF this s]]
  show "capTotal caps \<le> sum_list caps * (1 + 1 / 2 ^ 36)" .
  have "1 - of_nat (length caps) * ?u \<le> (1 - ?u) ^ length caps" by (rule power_down) simp_all
  then have "1 - 1 / 2 ^ 36 \<le> (1 - ?u) ^ length caps" using n by simp
  from order_trans[OF mult_left_mono[OF this s] capTotal_powers(2)[OF assms(1)]]
  show "sum_list caps * (1 - 1 / 2 ^ 36) \<le> capTotal caps" .
qed

lemma quotient_bounds:
  assumes "0 < s" "0 < t" "0 \<le> (c :: rat)"
  shows "s \<le> t * a \<Longrightarrow> c / t \<le> c / s * a" "t * b \<le> s \<Longrightarrow> c / s * b \<le> c / t"
  using assms mult_left_mono[of s "t * a" c] mult_left_mono[of "t * b" s c] by (simp_all add: field_simps)

definition modest_caps :: "f64 list \<Rightarrow> bool" where
  "modest_caps caps \<longleftrightarrow> caps \<noteq> [] \<and> length caps \<le> 65536 \<and> (\<forall>c \<in> set caps. is_f64 c \<and> 1 / 2 ^ 20 \<le> c \<and> c \<le> 2 ^ 20)"

lemma modest_bounds:
  assumes "modest_caps caps" "c \<in> set caps"
  shows "0 < c" "c \<le> sum_list caps" "0 < sum_list caps" "sum_list caps \<le> 2 ^ 36" "0 < capTotal caps"
    "c / capTotal caps \<le> c / sum_list caps * (1 + 1 / 2 ^ 35)" "c / sum_list caps * (1 - 1 / 2 ^ 36) \<le> c / capTotal caps"
proof -
  have all: "\<forall>c \<in> set caps. is_f64 c \<and> 0 \<le> c" "length caps \<le> 65536" using assms(1) by (auto simp: modest_caps_def intro: order_trans[rotated])
  have "1 / 2 ^ 20 \<le> c" using assms by (auto simp: modest_caps_def)
  then show c: "0 < c" by (rule less_le_trans[rotated]) simp
  have "sum_list caps \<le> of_nat (length caps) * 2 ^ 20"
    using sum_list_mono[of caps "\<lambda>c. c" "\<lambda>c. 2 ^ 20"] assms(1) by (auto simp: modest_caps_def sum_list_triv)
  also have "\<dots> \<le> 65536 * 2 ^ 20" using all(2) of_nat_mono[of "length caps" 65536, where 'a = rat] by (intro mult_right_mono) simp_all
  finally show "sum_list caps \<le> 2 ^ 36" by simp
  show "c \<le> sum_list caps" using member_le_sum_list[of c caps] assms(2) all(1) sum_list_map_remove1[of c caps "\<lambda>c. c"]
    by (metis (no_types, lifting) add_increasing2 list.map_ident notin_set_remove1 order_refl sum_list_nonneg)
  with c show s: "0 < sum_list caps" by simp
  note t = capTotal_close[OF all]
  have "0 < sum_list caps * (1 - 1 / 2 ^ 36)" using s by simp
  with t(1) show p: "0 < capTotal caps" by simp
  have "sum_list caps * 1 \<le> sum_list caps * ((1 - 1 / 2 ^ 36) * (1 + 1 / 2 ^ 35))" using s by (intro mult_left_mono) simp_all
  also have "\<dots> \<le> capTotal caps * (1 + 1 / 2 ^ 35)" unfolding mult.assoc[symmetric] using t(1) by (intro mult_right_mono) simp_all
  finally have "sum_list caps \<le> capTotal caps * (1 + 1 / 2 ^ 35)" by simp
  then show "c / capTotal caps \<le> c / sum_list caps * (1 + 1 / 2 ^ 35)" using c by (intro quotient_bounds(1) s p) simp_all
  have "capTotal caps * (1 - 1 / 2 ^ 36) \<le> sum_list caps * ((1 + 1 / 2 ^ 36) * (1 - 1 / 2 ^ 36))" unfolding mult.assoc[symmetric] using t(2) by (intro mult_right_mono) simp_all
  also have "\<dots> \<le> sum_list caps * 1" using s by (intro mult_left_mono) simp_all
  finally have "capTotal caps * (1 - 1 / 2 ^ 36) \<le> sum_list caps" by simp
  then show "c / sum_list caps * (1 - 1 / 2 ^ 36) \<le> c / capTotal caps" using c by (intro quotient_bounds(2) s p) simp_all
qed

text \<open>The exact share in binary64, against the real one.\<close>

lemma exactShare_close:
  assumes "modest_caps caps" "c \<in> set caps" "0 < K" "K \<le> 65536"
  shows "c * of_int K / sum_list caps * (1 - 1 / 2 ^ 34) \<le> exactShare caps K c"
    "exactShare caps K c \<le> c * of_int K / sum_list caps * (1 + 1 / 2 ^ 34)"
proof -
  let ?q = "c / capTotal caps" and ?S = "sum_list caps" and ?u = "1 / 2 ^ 53 :: rat"
  note m = modest_bounds[OF assms(1,2)]
  have c: "1 / 2 ^ 20 \<le> c" using assms by (auto simp: modest_caps_def)
  have N: "f_of_int K = of_int K" "1 \<le> (of_int K :: rat)" using assms(3,4) by (auto intro!: fl_id is_f64_of_int)
  have "1 / 2 ^ 20 / 2 ^ 36 \<le> c / ?S" using c m by (intro frac_le) simp_all
  then have "1 / 2 ^ 56 * (1 - 1 / 2 ^ 36) \<le> c / ?S * (1 - 1 / 2 ^ 36)" by (intro mult_right_mono) simp_all
  then have q: "1 / 2 ^ 57 \<le> ?q" using m(7) by simp
  then have q0: "0 \<le> ?q" by (rule order_trans[rotated]) simp
  have "1 / 2 ^ 60 \<le> ?q" by (rule order_trans[OF _ q]) simp
  note f = fl_rel(2)[OF this] fl_rel(1)[OF this]
  have "1 / 2 ^ 57 * (1 - ?u) \<le> ?q * (1 - ?u)" using q by (intro mult_right_mono) simp_all
  then have fq: "1 / 2 ^ 58 \<le> fl ?q" using f(1) by simp
  have p: "1 / 2 ^ 58 * 1 \<le> fl ?q * of_int K" using fq N(2) by (intro mult_mono) simp_all
  have g: "fl ?q * of_int K * (1 - ?u) \<le> exactShare caps K c" "exactShare caps K c \<le> fl ?q * of_int K * (1 + ?u)"
    using fl_rel[OF order_trans[OF _ p]] unfolding exactShare_def N(1) by simp_all
  have pos: "0 \<le> c / ?S * of_int K" using m N(2) by simp
  have "exactShare caps K c \<le> ?q * (1 + ?u) * of_int K * (1 + ?u)"
    using g(2) mult_right_mono[OF f(2), of "of_int K * (1 + ?u)"] N(2) by simp
  also have "\<dots> \<le> c / ?S * (1 + 1 / 2 ^ 35) * (1 + ?u) * of_int K * (1 + ?u)"
    using m(6) N(2) by (intro mult_right_mono) simp_all
  also have "\<dots> = c / ?S * of_int K * ((1 + 1 / 2 ^ 35) * (1 + ?u) * (1 + ?u))" by simp
  also have "\<dots> \<le> c / ?S * of_int K * (1 + 1 / 2 ^ 34)" by (rule mult_left_mono[OF _ pos]) simp
  finally show "exactShare caps K c \<le> c * of_int K / ?S * (1 + 1 / 2 ^ 34)" by simp
  have "c / ?S * of_int K * (1 - 1 / 2 ^ 34) \<le> c / ?S * of_int K * ((1 - 1 / 2 ^ 36) * (1 - ?u) * (1 - ?u))"
    by (rule mult_left_mono[OF _ pos]) simp
  also have "\<dots> = c / ?S * (1 - 1 / 2 ^ 36) * (1 - ?u) * of_int K * (1 - ?u)" by simp
  also have "\<dots> \<le> ?q * (1 - ?u) * of_int K * (1 - ?u)" using m(7) N(2) by (intro mult_right_mono) simp_all
  also have "\<dots> \<le> exactShare caps K c"
    using g(1) mult_right_mono[OF f(1), of "of_int K * (1 - ?u)"] N(2) by simp
  finally show "c * of_int K / ?S * (1 - 1 / 2 ^ 34) \<le> exactShare caps K c" by simp
qed

section \<open>Dealing out\<close>

lemma sum_list_close:
  assumes "\<forall>c \<in> set cs. g c * l \<le> f c \<and> f c \<le> g c * h"
  shows "sum_list (map g cs) * l \<le> sum_list (map f cs)" "sum_list (map f cs) \<le> sum_list (map g cs) * (h :: rat)"
  using assms by (induction cs) (auto simp: distrib_right intro: add_mono)

lemma sum_scaled: "sum_list (map (\<lambda>c. c * a / s) cs) = sum_list cs * a / (s :: rat)"
  by (induction cs) (simp_all add: distrib_right add_divide_distrib)

lemma sum_of_int: "of_int (sum_list (map f cs)) = (sum_list (map (\<lambda>c. of_int (f c)) cs) :: rat)"
  by (induction cs) simp_all

lemma sum_bump: "i < length xs \<Longrightarrow> sum_list (xs[i := xs ! i + 1]) = sum_list xs + (1 :: int)"
  by (induction xs arbitrary: i) (auto split: nat.split)

text \<open>The floors leave between none and one expert for each node.\<close>

lemma floors_near:
  assumes "modest_caps caps" "0 < K" "K \<le> 65536"
  shows "sum_list (expertFloors caps K) \<le> K" "K \<le> sum_list (expertFloors caps K) + int (length caps)"
    "\<forall>c \<in> set caps. fint (exactShare caps K c) = \<lfloor>exactShare caps K c\<rfloor> \<and> 0 \<le> fint (exactShare caps K c)"
proof -
  let ?e = "exactShare caps K" and ?S = "sum_list caps"
  have ne: "caps \<noteq> []" using assms(1) by (simp add: modest_caps_def)
  have S: "0 < ?S" using modest_bounds(3)[OF assms(1) hd_in_set[OF ne]] .
  have K: "0 < (of_int K :: rat)" "(of_int K :: rat) \<le> 65536" using assms(2,3) of_int_le_iff[of K 65536, where 'a = rat] by simp_all
  have close: "\<forall>c \<in> set caps. c * of_int K / ?S * (1 - 1 / 2 ^ 34) \<le> ?e c \<and> ?e c \<le> c * of_int K / ?S * (1 + 1 / 2 ^ 34)"
    using exactShare_close[OF assms(1) _ assms(2,3)] by blast
  have "sum_list (map (\<lambda>c. c * of_int K / ?S) caps) = of_int K"
    using S by (simp add: sum_scaled)
  with sum_list_close[OF close] have sums: "of_int K * (1 - 1 / 2 ^ 34) \<le> sum_list (map ?e caps)" "sum_list (map ?e caps) \<le> of_int K * (1 + 1 / 2 ^ 34)"
    by simp_all
  have e: "0 \<le> ?e c \<and> ?e c \<le> 2 ^ 17" if c: "c \<in> set caps" for c
  proof -
    note m = modest_bounds[OF assms(1) c]
    have "c * of_int K / ?S \<le> of_int K" using m K by (simp add: divide_le_eq)
    then have "c * of_int K / ?S * (1 + 1 / 2 ^ 34) \<le> 65536 * (1 + 1 / 2 ^ 34)" using K by (intro mult_right_mono) simp_all
    moreover have "0 \<le> c * of_int K / ?S * (1 - 1 / 2 ^ 34)" using m K by simp
    ultimately show ?thesis using close c by fastforce
  qed
  show fl: "\<forall>c \<in> set caps. fint (?e c) = \<lfloor>?e c\<rfloor> \<and> 0 \<le> fint (?e c)"
  proof
    fix c assume c: "c \<in> set caps"
    have "\<lfloor>?e c\<rfloor> \<le> 2 ^ 17" using floor_mono[OF conjunct2[OF e[OF c]]] by simp
    then show "fint (?e c) = \<lfloor>?e c\<rfloor> \<and> 0 \<le> fint (?e c)" using e[OF c] by (simp add: fint_def ftrunc_def Let_def)
  qed
  have "sum_list (map (\<lambda>c. of_int (fint (?e c))) caps) \<le> sum_list (map ?e caps)"
    "sum_list (map ?e caps) \<le> sum_list (map (\<lambda>c. of_int (fint (?e c)) + 1) caps)"
    using fl by (auto intro!: sum_list_mono) linarith
  then have r: "of_int (sum_list (expertFloors caps K)) \<le> sum_list (map ?e caps)"
    "sum_list (map ?e caps) \<le> of_int (sum_list (expertFloors caps K)) + of_nat (length caps)"
    by (simp_all add: expertFloors_def sum_list_addf sum_list_triv sum_of_int)
  have "of_int (sum_list (expertFloors caps K)) < (of_int (K + 1) :: rat)" using r(1) sums(2) K by simp
  then show "sum_list (expertFloors caps K) \<le> K" by linarith
  have "(of_int (K - 1) :: rat) < of_int (sum_list (expertFloors caps K) + int (length caps))" using r(2) sums(1) K by simp
  then show "K \<le> sum_list (expertFloors caps K) + int (length caps)" by linarith
qed

lemma handOut_spec:
  assumes "k \<le> length rems" "distinct (map fst rems)" "\<forall>i \<in> fst ` set rems. i < length counts"
  shows "\<exists>counts'. handOut rems k counts = Some counts' \<and> length counts' = length counts \<and> sum_list counts' = sum_list counts + int k \<and>
    (\<forall>i < length counts. counts' ! i = counts ! i + (if i \<in> fst ` set (take k rems) then 1 else 0))"
  using assms
proof (induction rems k counts rule: handOut.induct)
  case (3 i r rems k counts)
  let ?c = "counts[i := counts ! i + 1]"
  obtain c' where c': "handOut rems k ?c = Some c'" "length c' = length counts" "sum_list c' = sum_list ?c + int k"
    "\<forall>j < length counts. c' ! j = ?c ! j + (if j \<in> fst ` set (take k rems) then 1 else 0)"
    using 3 by auto
  have i: "i < length counts" using 3(4) by simp
  have "i \<notin> fst ` set (take k rems)" using 3(3) set_take_subset[of k rems] by auto
  moreover have "sum_list ?c = sum_list counts + 1" using i by (rule sum_bump)
  ultimately show ?case using c' i by (auto simp: nth_list_update)
qed auto

lemma expertCounts_spec:
  assumes "modest_caps caps" "0 < K" "K \<le> 65536"
  obtains counts where "expertCounts caps K = Some counts" "length counts = length caps" "sum_list counts = K"
    "\<forall>i < length caps. counts ! i = \<lfloor>exactShare caps K (caps ! i)\<rfloor> \<or> counts ! i = \<lfloor>exactShare caps K (caps ! i)\<rfloor> + 1"
    "\<forall>k \<in> set counts. 0 \<le> k"
proof -
  note n = floors_near[OF assms]
  let ?rems = "sort_slice (\<lambda>a b. snd a > snd b) (expertRems caps K)"
  have ids: "map fst (expertRems caps K) = [0..<length caps]"
    by (simp add: expertRems_def split_def Let_def comp_def)
  have "mset (map fst ?rems) = mset [0..<length caps]" using ids by (metis mset_map mset_sort_slice)
  then have d: "distinct (map fst ?rems)" "fst ` set ?rems = {0..<length caps}"
    by (metis distinct_upt mset_eq_imp_distinct_iff) (metis ids set_map set_sort_slice set_upt)
  have l: "length ?rems = length caps" by (simp add: expertRems_def)
  let ?f = "expertFloors caps K"
  have k: "nat (K - sum_list ?f) \<le> length ?rems" using n(2) l by simp
  have i: "\<forall>i \<in> fst ` set ?rems. i < length ?f" unfolding d(2) by (simp add: expertFloors_def)
  obtain c where c: "handOut ?rems (nat (K - sum_list ?f)) ?f = Some c" "length c = length ?f" "sum_list c = sum_list ?f + int (nat (K - sum_list ?f))"
    "\<forall>i < length ?f. c ! i = ?f ! i + (if i \<in> fst ` set (take (nat (K - sum_list ?f)) ?rems) then 1 else 0)"
    using handOut_spec[OF k d(1) i] by blast
  have len: "length ?f = length caps" by (simp add: expertFloors_def)
  have f: "?f ! i = \<lfloor>exactShare caps K (caps ! i)\<rfloor> \<and> 0 \<le> ?f ! i" if "i < length caps" for i
    using bspec[OF n(3) nth_mem[OF that]] that unfolding expertFloors_def by (simp del: zero_le_floor)
  have g: "c ! i = \<lfloor>exactShare caps K (caps ! i)\<rfloor> \<or> c ! i = \<lfloor>exactShare caps K (caps ! i)\<rfloor> + 1" "0 \<le> c ! i" if "i < length caps" for i
    using c(4) f[OF that] that len by auto
  show ?thesis
  proof (rule that)
    show "expertCounts caps K = Some c" using c(1) by (simp add: expertCounts_def)
    show "sum_list c = K" using c(3) n(1) by simp
    show "\<forall>k \<in> set c. 0 \<le> k" using g(2) c(2) len by (auto simp: in_set_conv_nth)
  qed (use g(1) c(2) len in auto)
qed

text \<open>What the blocks cover: the experts from \<open>e\<close> on, each under one of the names.\<close>

definition blocks_from :: "int \<Rightarrow> (node_id \<times> int) list \<Rightarrow> (node_id \<rightharpoonup> int list) \<Rightarrow> bool" where
  "blocks_from e ps m \<longleftrightarrow>
     (\<forall>(n, k) \<in> set ps. if k = 0 then m n = None else \<exists>s. e \<le> s \<and> s + k \<le> e + sum_list (map snd ps) \<and> m n = Some [s..s + k - 1]) \<and>
     (\<forall>x. e \<le> x \<and> x < e + sum_list (map snd ps) \<longrightarrow> (\<exists>!n. n \<in> fst ` set ps \<and> x \<in> set (expertsAt m n)))"

lemma layOut_blocks:
  assumes "distinct (map fst ps)" "\<forall>(n, k) \<in> set ps. 0 \<le> k" "\<forall>n \<in> fst ` set ps. m n = None"
  shows "\<exists>m'. layOut ps e m = Some m' \<and> (\<forall>n. n \<notin> fst ` set ps \<longrightarrow> m' n = m n) \<and> blocks_from e ps m'"
  using assms
proof (induction ps arbitrary: e m)
  case (Cons p ps)
  obtain n k where p: "p = (n, k)" by fastforce
  let ?S = "sum_list (map snd ps)" and ?m = "if k = 0 then m else m(n \<mapsto> [e..e + k - 1])"
  have pre: "distinct (map fst ps)" "\<forall>(n, k) \<in> set ps. 0 \<le> k" "\<forall>n \<in> fst ` set ps. ?m n = None" and k: "0 \<le> k" and new: "n \<notin> fst ` set ps"
    using Cons.prems p by auto
  obtain m' where m': "layOut ps (e + k) ?m = Some m'" "\<forall>i. i \<notin> fst ` set ps \<longrightarrow> m' i = ?m i" "blocks_from (e + k) ps m'"
    using Cons.IH[OF pre] by blast
  have S: "0 \<le> ?S" using pre(2) by (intro sum_list_nonneg) auto
  have at_n: "expertsAt m' n = (if k = 0 then [] else [e..e + k - 1])"
    using m'(2) new Cons.prems(3) p by (auto simp: expertsAt_def)
  have range: "e + k \<le> x \<and> x < e + k + ?S" if r: "i \<in> fst ` set ps" "x \<in> set (expertsAt m' i)" for i x
  proof -
    obtain j where "(i, j) \<in> set ps" using r(1) by auto
    then show ?thesis using r(2) m'(3) by (auto simp: blocks_from_def expertsAt_def split: if_splits)
  qed
  have unique: "\<exists>!i. i \<in> fst ` set (p # ps) \<and> x \<in> set (expertsAt m' i)" if x: "e \<le> x" "x < e + (k + ?S)" for x
  proof (cases "x < e + k")
    case True
    then have "x \<in> set (expertsAt m' n)" "\<And>i. i \<in> fst ` set ps \<Longrightarrow> x \<notin> set (expertsAt m' i)"
      using x(1) at_n range by force+
    then show ?thesis using p by (intro ex1I[of _ n]) auto
  next
    case False
    then have "e + k \<le> x \<and> x < e + k + ?S" using x(2) by simp
    from mp[OF spec[OF conjunct2[OF m'(3)[unfolded blocks_from_def]]] this]
    obtain i where i: "i \<in> fst ` set ps" "x \<in> set (expertsAt m' i)" "\<And>j. j \<in> fst ` set ps \<Longrightarrow> x \<in> set (expertsAt m' j) \<Longrightarrow> j = i"
      by (elim ex1E) blast
    have x: "x \<notin> set (expertsAt m' n)" using False at_n by simp
    show ?thesis
    proof (rule ex1I[of _ i])
      show "i \<in> fst ` set (p # ps) \<and> x \<in> set (expertsAt m' i)" using i(1,2) by simp
      fix j assume j: "j \<in> fst ` set (p # ps) \<and> x \<in> set (expertsAt m' j)"
      then have "j \<noteq> n" using x by blast
      with j have "j \<in> fst ` set ps" by (simp add: p)
      with j show "j = i" using i(3) by blast
    qed
  qed
  have "blocks_from e (p # ps) m'"
    unfolding blocks_from_def
  proof (intro conjI allI impI)
    show "\<forall>(i, j) \<in> set (p # ps). if j = 0 then m' i = None
        else \<exists>s. e \<le> s \<and> s + j \<le> e + sum_list (map snd (p # ps)) \<and> m' i = Some [s..s + j - 1]"
    proof (rule ballI, clarify)
      fix i j assume "(i, j) \<in> set (p # ps)"
      then consider (new) "i = n" "j = k" | (old) "(i, j) \<in> set ps" using p by auto
      then show "if j = 0 then m' i = None else \<exists>s. e \<le> s \<and> s + j \<le> e + sum_list (map snd (p # ps)) \<and> m' i = Some [s..s + j - 1]"
      proof cases
        case new
        then show ?thesis using m'(2) \<open>n \<notin> fst ` set ps\<close> Cons.prems(3) p S by (auto intro: exI[of _ e])
      next
        case old
        have b: "if j = 0 then m' i = None else \<exists>s. e + k \<le> s \<and> s + j \<le> e + k + ?S \<and> m' i = Some [s..s + j - 1]"
          using bspec[OF conjunct1[OF m'(3)[unfolded blocks_from_def]] old] by simp
        show ?thesis
        proof (cases "j = 0")
          case False
          then obtain s where "e + k \<le> s" "s + j \<le> e + k + ?S" "m' i = Some [s..s + j - 1]" using b by auto
          then have "e \<le> s \<and> s + j \<le> e + sum_list (map snd (p # ps)) \<and> m' i = Some [s..s + j - 1]" using k p by simp
          then show ?thesis using False by auto
        qed (use b in simp)
      qed
    qed
  qed (use unique p in simp)
  moreover have "layOut (p # ps) e m = Some m'" using m'(1) k by (auto simp: p split: if_splits)
  moreover have "\<forall>i. i \<notin> fst ` set (p # ps) \<longrightarrow> m' i = m i" using m'(2) by (auto simp: p split: if_splits)
  ultimately show ?case by blast
qed (auto simp: blocks_from_def)

text \<open>What a plan promises: every expert on exactly one node, each node's number of experts
  one off its share of the memory at most, and a route for every expert.\<close>

definition fair_plan :: "CapabilityManifest list \<Rightarrow> int \<Rightarrow> (node_id \<rightharpoonup> int list) \<Rightarrow> bool" where
  "fair_plan cs K asg \<longleftrightarrow> dom asg \<subseteq> NodeID ` set cs \<and>
     (\<forall>n. set (expertsAt asg n) \<subseteq> {0..<K}) \<and>
     (\<forall>x \<in> {0..<K}. \<exists>!n. x \<in> set (expertsAt asg n)) \<and>
     (\<forall>c \<in> set cs. \<bar>of_nat (length (expertsAt asg (NodeID c))) - expertCap c * of_int K / sum_list (map expertCap cs)\<bar> \<le> 1 + 1 / 2 ^ 18)"

lemma share_off_by_one:
  assumes "modest_caps caps" "c \<in> set caps" "0 < K" "K \<le> 65536"
    and "k = \<lfloor>exactShare caps K c\<rfloor> \<or> k = \<lfloor>exactShare caps K c\<rfloor> + 1"
  shows "\<bar>of_int k - c * of_int K / sum_list caps\<bar> \<le> 1 + 1 / 2 ^ 18"
proof -
  let ?s = "c * of_int K / sum_list caps" and ?e = "exactShare caps K c"
  note m = modest_bounds[OF assms(1,2)] and e = exactShare_close[OF assms(1-4)]
  have K: "0 \<le> (of_int K :: rat)" "(of_int K :: rat) \<le> 65536" using assms(3,4) of_int_le_iff[of K 65536, where 'a = rat] by simp_all
  have "c / sum_list caps \<le> 1" using m by simp
  then have "c / sum_list caps * of_int K \<le> 1 * 65536" using K m by (intro mult_mono) simp_all
  then have s: "?s \<le> 65536" by simp
  have "?s * (1 / 2 ^ 34) \<le> 1 / 2 ^ 18" using s by simp
  then have "?e - ?s \<le> 1 / 2 ^ 18" "?s - ?e \<le> 1 / 2 ^ 18" using e by (simp_all only: distrib_left right_diff_distrib mult_1_right)
  moreover have "of_int k = (of_int \<lfloor>?e\<rfloor> :: rat) \<or> of_int k = (of_int \<lfloor>?e\<rfloor> + 1 :: rat)" using assms(5) by auto
  moreover have "of_int \<lfloor>?e\<rfloor> \<le> ?e" "?e \<le> of_int \<lfloor>?e\<rfloor> + 1" using floor_correct[of ?e] by simp_all
  ultimately show ?thesis unfolding abs_le_iff by linarith
qed

lemma plan_is_fair:
  assumes "modest_caps (map expertCap cs)" "distinct (map NodeID cs)" "0 < K" "K \<le> 65536"
  obtains asg where "PlanMoEExpertAssignment K cs = Some (Inr asg)" "fair_plan cs K asg"
proof -
  let ?caps = "map expertCap cs"
  obtain counts where c: "expertCounts ?caps K = Some counts" "length counts = length cs" "sum_list counts = K"
    "\<forall>i < length ?caps. counts ! i = \<lfloor>exactShare ?caps K (?caps ! i)\<rfloor> \<or> counts ! i = \<lfloor>exactShare ?caps K (?caps ! i)\<rfloor> + 1"
    "\<forall>k \<in> set counts. 0 \<le> k"
    using expertCounts_spec[OF assms(1,3,4)] by auto
  let ?zip = "zip (map NodeID cs) counts"
  let ?ps = "sort_slice (\<lambda>a b. fst a < fst b) ?zip"
  have names: "map fst ?zip = map NodeID cs" and sizes: "map snd ?zip = counts" using c(2) by simp_all
  have d: "distinct (map fst ?ps)"
    using assms(2) names by (metis mset_eq_imp_distinct_iff mset_map mset_sort_slice)
  have sums: "sum_list (map snd ?ps) = K"
    using c(3) sizes by (metis mset_map mset_sort_slice sum_mset_sum_list)
  have pos: "\<forall>(n, k) \<in> set ?ps. 0 \<le> k" using c(5) by (auto dest: set_zip_rightD)
  obtain asg where asg: "layOut ?ps 0 Map.empty = Some asg" "\<forall>n. n \<notin> fst ` set ?ps \<longrightarrow> asg n = None" "blocks_from 0 ?ps asg"
    using layOut_blocks[OF d pos, of Map.empty 0] by auto
  have n: "fst ` set ?ps = NodeID ` set cs" using names by (metis set_map set_sort_slice)
  have dom: "dom asg \<subseteq> NodeID ` set cs" using asg(2) unfolding n by (auto simp: dom_def)
  have inside: "n \<in> NodeID ` set cs \<and> 0 \<le> x \<and> x < K" if m: "x \<in> set (expertsAt asg n)" for n x
  proof -
    obtain es where es: "asg n = Some es" "x \<in> set es" using m by (cases "asg n") (auto simp: expertsAt_def)
    then have "n \<in> fst ` set ?ps" using asg(2) by force
    then obtain k where "(n, k) \<in> set ?ps" by auto
    from bspec[OF conjunct1[OF asg(3)[unfolded blocks_from_def]] this]
    have k: "if k = 0 then asg n = None else \<exists>s. 0 \<le> s \<and> s + k \<le> K \<and> asg n = Some [s..s + k - 1]" unfolding sums add_0_left prod.case .
    have "n \<in> NodeID ` set cs" using es(1) dom by blast
    then show ?thesis using k es by (cases "k = 0") auto
  qed
  have "fair_plan cs K asg"
    unfolding fair_plan_def
  proof (intro conjI allI ballI dom)
    show "set (expertsAt asg n) \<subseteq> {0..<K}" for n using inside by auto
    show "\<exists>!n. x \<in> set (expertsAt asg n)" if x: "x \<in> {0..<K}" for x
    proof -
      have "\<exists>!n. n \<in> fst ` set ?ps \<and> x \<in> set (expertsAt asg n)"
        using conjunct2[OF asg(3)[unfolded blocks_from_def]] x sums by simp
      then obtain i where i: "i \<in> fst ` set ?ps" "x \<in> set (expertsAt asg i)" "\<And>j. j \<in> fst ` set ?ps \<Longrightarrow> x \<in> set (expertsAt asg j) \<Longrightarrow> j = i"
        by (elim ex1E) blast
      show ?thesis
      proof (rule ex1I[of _ i])
        show "j = i" if "x \<in> set (expertsAt asg j)" for j using i(3)[OF _ that] inside[OF that] unfolding n by blast
      qed (rule i(2))
    qed
    show "\<bar>of_nat (length (expertsAt asg (NodeID c))) - expertCap c * of_int K / sum_list ?caps\<bar> \<le> 1 + 1 / 2 ^ 18" if m: "c \<in> set cs" for c
    proof -
      obtain i where i: "i < length cs" "cs ! i = c" using m by (auto simp: in_set_conv_nth)
      then have "(NodeID c, counts ! i) \<in> set ?ps" using nth_mem[of i ?zip] c(2) by simp
      from bspec[OF conjunct1[OF asg(3)[unfolded blocks_from_def]] this] bspec[OF pos this]
      have "int (length (expertsAt asg (NodeID c))) = counts ! i" by (auto simp: expertsAt_def split: if_splits)
      then have l: "of_nat (length (expertsAt asg (NodeID c))) = (of_int (counts ! i) :: rat)" by (metis of_int_of_nat_eq)
      have "counts ! i = \<lfloor>exactShare ?caps K (expertCap c)\<rfloor> \<or> counts ! i = \<lfloor>exactShare ?caps K (expertCap c)\<rfloor> + 1"
        using c(4) i by auto
      from share_off_by_one[OF assms(1) _ assms(3,4) this] show ?thesis using m by (simp add: l)
    qed
  qed
  moreover have "PlanMoEExpertAssignment K cs = Some (Inr asg)"
    using assms(1,3) c(1) asg(1) by (auto simp: PlanMoEExpertAssignment_def modest_caps_def)
  ultimately show ?thesis using that by blast
qed

text \<open>
  C21. For up to \<open>2^16\<close> candidates with distinct ids and a usable memory between \<open>2^-20\<close> and \<open>2^20\<close> GB
  each, the planner neither panics nor fails: every expert is on exactly one node, the node's
  number of experts differs from its exact share of the memory by at most one (and the
  rounding of the shares), and whatever the order of the loop, a routing decision
  finds the node of its first expert, or reports that the expert is not in the plan.
\<close>

theorem experts_partitioned:
  assumes "modest_caps (map expertCap cs)" "distinct (map NodeID cs)" "0 < K" "K \<le> 65536"
  shows "\<exists>asg. PlanMoEExpertAssignment K cs = Some (Inr asg) \<and> fair_plan cs K asg \<and>
    (\<forall>ks d x xs. range_order ks asg \<and> routingExperts d = x # xs \<longrightarrow>
      (case RouteTokenToExpertNode ks d asg of
         Inr n \<Rightarrow> x \<in> {0..<K} \<and> x \<in> set (expertsAt asg n)
       | Inl e \<Rightarrow> x \<notin> {0..<K} \<and> e = ExpertNotAssigned x))"
proof -
  obtain asg where asg: "PlanMoEExpertAssignment K cs = Some (Inr asg)" and f: "fair_plan cs K asg"
    using plan_is_fair[OF assms] .
  have "case RouteTokenToExpertNode ks d asg of
         Inr n \<Rightarrow> x \<in> {0..<K} \<and> x \<in> set (expertsAt asg n)
       | Inl e \<Rightarrow> x \<notin> {0..<K} \<and> e = ExpertNotAssigned x"
    if r: "range_order ks asg" "routingExperts d = x # xs" for ks d x xs
  proof -
    let ?P = "\<lambda>n. case asg n of None \<Rightarrow> False | Some experts \<Rightarrow> x \<in> set experts"
    have P: "?P n \<longleftrightarrow> x \<in> set (expertsAt asg n)" for n by (simp add: expertsAt_def split: option.splits)
    show ?thesis
    proof (cases "find ?P ks")
      case None
      have "\<not> ?P n" for n using None r(1) by (force simp: find_None_iff range_order_def dom_def split: option.splits)
      then have "x \<notin> {0..<K}" using f P unfolding fair_plan_def by blast
      then show ?thesis using None r(2) by (simp add: RouteTokenToExpertNode_def)
    next
      case (Some n)
      then have "x \<in> set (expertsAt asg n)" using P by (auto simp: find_Some_iff)
      moreover from this have "x \<in> {0..<K}" using f unfolding fair_plan_def by blast
      ultimately show ?thesis using Some r(2) by (simp add: RouteTokenToExpertNode_def)
    qed
  qed
  then show ?thesis using asg f by blast
qed

definition sampleExperts :: "CapabilityManifest list" where
  "sampleExperts = [emptyManifest\<lparr> NodeID := ''b'', DeclaredMemoryGB := 6, DeclaredMemoryCapPct := 1 \<rparr>,
     emptyManifest\<lparr> NodeID := ''a'', DeclaredMemoryGB := 2, DeclaredMemoryCapPct := 1 \<rparr>]"

theorem experts_partitioned_witness:
  "\<exists>asg. PlanMoEExpertAssignment 5 sampleExperts = Some (Inr asg) \<and> fair_plan sampleExperts 5 asg"
proof -
  have f: "fl 6 = 6" "fl 2 = 2" using fl_id[OF is_f64_of_int[of 6]] fl_id[OF is_f64_of_int[of 2]] by simp_all
  have "is_f64 6" "is_f64 2" using is_f64_fl[of 6] is_f64_fl[of 2] by (simp_all add: f)
  then have "modest_caps (map expertCap sampleExperts)"
    by (simp add: modest_caps_def sampleExperts_def expertCap_def emptyManifest_def f)
  moreover have "distinct (map NodeID sampleExperts)" by (simp add: sampleExperts_def)
  ultimately show ?thesis using experts_partitioned[of sampleExperts 5] by auto
qed

end
