(* ===== verification/Identity.thy ===== *)
theory Identity
  imports Agent
begin

text \<open>
  A node's keys and its start from the command line: the identity file of
  \<open>internal/identity/store.go\<close>, which holds the signing key and, added later, the key for
  encrypted payloads; the certificate pins of \<open>internal/httptls\<close>; how \<open>oim node start\<close>
  (\<open>cmd/oim/main.go\<close>) combines flags and saved settings; and the command \<open>oim bench run\<close>. Key generation, files, flags and the
  detected position are arguments.
\<close>

section \<open>The identity file\<close>

record storedIdentity =
  siPrivateKey :: string
  siPublicKey :: string
  siECDHPrivateKey :: string

text \<open>Contents that are not the encoding of an identity are \<open>IdGarbled\<close>.\<close>

datatype id_file = NoIdentity | IdUnreadable | IdGarbled | IdStored storedIdentity

text \<open>How writing a file ends: complete, not begun, or cut short after the truncation.\<close>

datatype id_write = WroteAll | WroteNothing | WroteSome

datatype id_error = IdGenerate | IdDir | IdWrite | IdRead | IdParse | IdPrivate | IdPublic | ECDHDecode | ECDHParse | ECDHGenerate | ECDHPersist | IdChmod

definition writeIdentity :: "id_write \<Rightarrow> storedIdentity \<Rightarrow> id_file \<Rightarrow> id_file" where
  "writeIdentity w stored file = (case w of WroteAll \<Rightarrow> IdStored stored | WroteNothing \<Rightarrow> file | WroteSome \<Rightarrow> IdGarbled)"

text \<open>\<open>keys\<close> is the private and public key that are generated, \<open>dirOk\<close> the outcome of \<open>MkdirAll\<close>.\<close>

definition generateIdentity :: "(bytes \<times> bytes) option \<Rightarrow> bool \<Rightarrow> id_write \<Rightarrow> id_file \<Rightarrow> (id_error + bytes \<times> bytes) \<times> id_file" where
  "generateIdentity keys dirOk w file = (case keys of
       None \<Rightarrow> (Inl IdGenerate, file)
     | Some (priv, pub) \<Rightarrow>
         if \<not> dirOk then (Inl IdDir, file)
         else let stored = \<lparr> siPrivateKey = hexEncode priv, siPublicKey = hexEncode pub, siECDHPrivateKey = [] \<rparr>
              in (if w = WroteAll then Inr (priv, pub) else Inl IdWrite, writeIdentity w stored file))"

definition loadIdentity :: "id_file \<Rightarrow> id_error + bytes \<times> bytes" where
  "loadIdentity file = (case file of
       NoIdentity \<Rightarrow> Inl IdRead
     | IdUnreadable \<Rightarrow> Inl IdRead
     | IdGarbled \<Rightarrow> Inl IdParse
     | IdStored stored \<Rightarrow> (case hexDecode (siPrivateKey stored) of
         None \<Rightarrow> Inl IdPrivate
       | Some priv \<Rightarrow> (case hexDecode (siPublicKey stored) of None \<Rightarrow> Inl IdPublic | Some pub \<Rightarrow> Inr (priv, pub))))"

definition LoadOrCreateAt :: "(bytes \<times> bytes) option \<Rightarrow> bool \<Rightarrow> id_write \<Rightarrow> id_file \<Rightarrow> (id_error + bytes \<times> bytes) \<times> id_file" where
  "LoadOrCreateAt keys dirOk w file =
     (if file = NoIdentity then generateIdentity keys dirOk w file else (loadIdentity file, file))"

text \<open>
  \<open>valid\<close> is \<open>P256().NewPrivateKey\<close>; \<open>ekey\<close> the key that is generated; \<open>w\<close> and \<open>w'\<close> are
  the writes of a new identity and of the backfill, \<open>chmodOk\<close> that of the mode.
\<close>

definition LoadOrCreateECDH :: "(bytes \<Rightarrow> bool) \<Rightarrow> (bytes \<times> bytes) option \<Rightarrow> bool \<Rightarrow> id_write \<Rightarrow> bytes option \<Rightarrow> id_write \<Rightarrow> bool \<Rightarrow> id_file \<Rightarrow>
    (id_error + bytes) \<times> id_file" where
  "LoadOrCreateECDH valid keys dirOk w ekey w' chmodOk file =
     (case (if file = NoIdentity then LoadOrCreateAt keys dirOk w file else (Inr ([], []), file)) of
        (Inl e, file) \<Rightarrow> (Inl e, file)
      | (Inr ks, file) \<Rightarrow> (case file of
          NoIdentity \<Rightarrow> (Inl IdRead, file)
        | IdUnreadable \<Rightarrow> (Inl IdRead, file)
        | IdGarbled \<Rightarrow> (Inl IdParse, file)
        | IdStored stored \<Rightarrow>
            if siECDHPrivateKey stored \<noteq> [] then
              (case hexDecode (siECDHPrivateKey stored) of
                 None \<Rightarrow> (Inl ECDHDecode, file)
               | Some raw \<Rightarrow> if valid raw then (Inr raw, file) else (Inl ECDHParse, file))
            else (case ekey of
                None \<Rightarrow> (Inl ECDHGenerate, file)
              | Some priv \<Rightarrow>
                  let file = writeIdentity w' (stored\<lparr> siECDHPrivateKey := hexEncode priv \<rparr>) file
                  in if w' \<noteq> WroteAll then (Inl ECDHPersist, file)
                     else if \<not> chmodOk then (Inl IdChmod, file)
                     else (Inr priv, file))))"

section \<open>Certificate pins\<close>

text \<open>\<open>pemDecode\<close> gives the bytes of the first block.\<close>

definition CertFingerprint :: "crypto \<Rightarrow> (bytes \<Rightarrow> bytes option) \<Rightarrow> bytes option \<Rightarrow> string option" where
  "CertFingerprint C pemDecode certFile = (case certFile of
       None \<Rightarrow> None
     | Some raw \<Rightarrow> map_option (\<lambda>b. hexEncode (sha256 C b)) (pemDecode raw))"

text \<open>The verification of a connection, given the certificates the peer shows, its own first.\<close>

definition pinAccepts :: "crypto \<Rightarrow> string \<Rightarrow> bytes list \<Rightarrow> bool" where
  "pinAccepts C expectedFingerprint peerCertificates =
     (if expectedFingerprint = [] \<or> peerCertificates = [] then False
      else hexEncode (sha256 C (hd peerCertificates)) = expectedFingerprint)"

section \<open>Starting a node\<close>

text \<open>The flags, with their defaults filled in, and which of them the command line sets.\<close>

record start_flags =
  sfCoordinator :: string
  sfListen :: string
  sfExo :: string
  sfReachability :: string
  sfCap :: f64
  sfRefresh :: int
  sfBench :: int
  sfRegion :: string
  sfLat :: f64
  sfLng :: f64
  sfDeclaredGB :: f64
  sfUser :: user_id
  sfTLSCert :: string
  sfTLSKey :: string
  sfMode :: string
  sfStart :: string
  sfEnd :: string
  sfDays :: "string list"
  sfChanged :: "string \<Rightarrow> bool"

definition mergedReachability :: "(string \<Rightarrow> bool) \<Rightarrow> start_flags \<Rightarrow> node_config \<Rightarrow> string" where
  "mergedReachability loopback f saved =
     (if \<not> sfChanged f ''reachability-endpoint'' \<and> ncReachability saved \<noteq> [] \<and> \<not> loopback (ncReachability saved)
      then ncReachability saved else sfReachability f)"

definition mergedSchedule :: "start_flags \<Rightarrow> Schedule \<Rightarrow> Schedule" where
  "mergedSchedule f s = \<lparr> ScheduleMode = (if sfChanged f ''schedule-mode'' then sfMode f else ScheduleMode s),
     DailyStart = (if sfChanged f ''schedule-start'' then sfStart f else DailyStart s),
     DailyEnd = (if sfChanged f ''schedule-end'' then sfEnd f else DailyEnd s),
     Days = (if sfChanged f ''schedule-days'' then sfDays f else Days s) \<rparr>"

definition scheduleChanged :: "start_flags \<Rightarrow> bool" where
  "scheduleChanged f \<longleftrightarrow> sfChanged f ''schedule-mode'' \<or> sfChanged f ''schedule-start'' \<or> sfChanged f ''schedule-end'' \<or> sfChanged f ''schedule-days''"

text \<open>\<open>position\<close> is the detected position, \<open>chaos\<close> the number in \<open>OIM_CHAOS_DOWNTIME_PCT\<close>, 0 without one.\<close>

definition mergedConfig :: "(string \<Rightarrow> bool) \<Rightarrow> (f64 \<times> f64) option \<Rightarrow> f64 \<Rightarrow> start_flags \<Rightarrow> node_config \<Rightarrow> agent_config" where
  "mergedConfig loopback position chaos f saved =
     (let (lat, lng) = (if sfLat f = 0 \<and> sfLng f = 0 then (case position of None \<Rightarrow> (sfLat f, sfLng f) | Some p \<Rightarrow> p) else (sfLat f, sfLng f))
      in \<lparr> acCoordinatorURL = (if \<not> sfChanged f ''coordinator'' \<and> ncPodEndpoint saved \<noteq> [] then ncPodEndpoint saved else sfCoordinator f),
           acExoURL = (if \<not> sfChanged f ''exo-url'' \<and> ncExoURL saved \<noteq> [] then ncExoURL saved else sfExo f),
           acListenAddr = sfListen f, acReachability = mergedReachability loopback f saved,
           acRefreshInterval = wrap64 (sfRefresh f * second), acBenchInterval = wrap64 (sfBench f * second),
           acCapacityPct = (if \<not> sfChanged f ''cap'' \<and> ncMemoryCapPct saved > 0 then ncMemoryCapPct saved else sfCap f),
           acDeclaredGB = sfDeclaredGB f, acAllowed = ncAllowedModels saved,
           acDrafts = (\<lambda>m. map_option (\<lambda>d. (ndModel d, ndTokens d)) (ncDraftModels saved m)), acUser = sfUser f,
           acGeo = (if \<not> sfChanged f ''region'' \<and> ncGeographicHint saved \<noteq> [] then ncGeographicHint saved else sfRegion f),
           acLat = lat, acLng = lng, acChaosPct = chaos, acTLSCert = sfTLSCert f, acTLSKey = sfTLSKey f \<rparr>)"

text \<open>The configuration the agent runs with, or the errors of saving the schedule; the file afterwards.\<close>

definition nodeStartCmd :: "(bytes \<Rightarrow> node_config \<Rightarrow> node_config \<times> bool) \<Rightarrow> config_env \<Rightarrow> (string \<Rightarrow> bool) \<Rightarrow> (f64 \<times> f64) option \<Rightarrow> f64 \<Rightarrow>
    start_flags \<Rightarrow> conf_file \<Rightarrow> (config_error list + agent_config) \<times> conf_file" where
  "nodeStartCmd decode E loopback position chaos f file =
     (let saved = fst (LoadConfig decode file)
      in if scheduleChanged f then
           (let saved = saved\<lparr> ncSchedule := mergedSchedule f (ncSchedule saved) \<rparr>
            in case SaveConfig (ceText E) (ceParseURL E) (ceDraftOrder E) (ceEncode E) (ceDirOk E) (ceWriteOk E) saved file of
                 (errs, file) \<Rightarrow> if errs \<noteq> [] then (Inl errs, file) else (Inr (mergedConfig loopback position chaos f saved), file))
         else (Inr (mergedConfig loopback position chaos f saved), file))"

text \<open>The answer of the position service: its two numbers, None when the call or the decoding fails.\<close>

definition detectGeoLocation :: "(f64 \<times> f64) option \<Rightarrow> (f64 \<times> f64) option" where
  "detectGeoLocation answer = (case answer of
       None \<Rightarrow> None
     | Some (lat, lng) \<Rightarrow> if lat = 0 \<and> lng = 0 then None else Some (lat, lng))"

section \<open>The benchmark command\<close>

text \<open>The cache of the last benchmark, as \<open>loadLastSignature\<close> reads it: no file, unreadable, or a result.\<close>

definition SaveBenchmarkResult :: "bool \<Rightarrow> id_write \<Rightarrow> MeasuredSignature \<Rightarrow> MeasuredSignature option option \<Rightarrow> MeasuredSignature option option \<times> bool" where
  "SaveBenchmarkResult dirOk w sig cache =
     (if \<not> dirOk then (cache, False)
      else (case w of WroteAll \<Rightarrow> Some (Some sig) | WroteNothing \<Rightarrow> cache | WroteSome \<Rightarrow> Some None, w = WroteAll))"

datatype bench_cmd_error = ExoUnreachable | NoModels | BenchFailed bench_error

text \<open>\<open>X0\<close> and \<open>X1\<close> are Exo at the health check and at the listing, \<open>X\<close> during the runs.\<close>

definition benchRunCmd :: "exo \<Rightarrow> exo \<Rightarrow> (nat \<Rightarrow> exo) \<Rightarrow> (nat \<Rightarrow> duration) \<Rightarrow> string \<Rightarrow> bool \<Rightarrow> id_write \<Rightarrow>
    string \<Rightarrow> string \<Rightarrow> int \<Rightarrow> MeasuredSignature option option \<Rightarrow> (bench_cmd_error + MeasuredSignature) \<times> MeasuredSignature option option" where
  "benchRunCmd X0 X1 X elapsed now dirOk w modelID promptID samples cache =
     (if \<not> IsHealthy X0 then (Inl ExoUnreachable, cache)
      else case (if modelID \<noteq> [] then Inr modelID
                 else case GetDownloadedModels X1 of
                     Inl e \<Rightarrow> Inl NoModels
                   | Inr [] \<Rightarrow> Inl NoModels
                   | Inr (m # ms) \<Rightarrow> Inr (firstStringField m [''id'', ''model_id''])) of
          Inl e \<Rightarrow> (Inl e, cache)
        | Inr model \<Rightarrow> (case RunBench X elapsed now model promptID samples of
            Inl e \<Rightarrow> (Inl (BenchFailed e), cache)
          | Inr sig \<Rightarrow> (Inr sig, fst (SaveBenchmarkResult dirOk w sig cache))))"

section \<open>Lemmas\<close>

text \<open>One call of a process, with what it draws and how its writes end.\<close>

datatype id_call = SigningCall "(bytes \<times> bytes) option" bool id_write
  | ECDHCall "(bytes \<times> bytes) option" bool id_write "bytes option" id_write bool

fun id_step :: "(bytes \<Rightarrow> bool) \<Rightarrow> id_call \<Rightarrow> id_file \<Rightarrow> id_file" where
  "id_step valid (SigningCall keys dirOk w) file = snd (LoadOrCreateAt keys dirOk w file)"
| "id_step valid (ECDHCall keys dirOk w ekey w' chmodOk) file = snd (LoadOrCreateECDH valid keys dirOk w ekey w' chmodOk file)"

fun id_untorn :: "id_call \<Rightarrow> bool" where
  "id_untorn (SigningCall keys dirOk w) \<longleftrightarrow> w \<noteq> WroteSome"
| "id_untorn (ECDHCall keys dirOk w ekey w' chmodOk) \<longleftrightarrow> w \<noteq> WroteSome \<and> w' \<noteq> WroteSome"

definition holds_keys :: "bytes \<Rightarrow> bytes \<Rightarrow> bytes option \<Rightarrow> id_file \<Rightarrow> bool" where
  "holds_keys priv pub ek file \<longleftrightarrow> (\<exists>stored. file = IdStored stored \<and> siPrivateKey stored = hexEncode priv \<and> siPublicKey stored = hexEncode pub \<and>
     (\<forall>k. ek = Some k \<longrightarrow> k \<noteq> [] \<and> siECDHPrivateKey stored = hexEncode k))"

lemma no_text_no_bytes: "[] = hexEncode k \<longleftrightarrow> k = []"
  by (metis hexEncode_Nil)

lemma id_step_holds: "holds_keys priv pub ek file \<Longrightarrow> id_untorn call \<Longrightarrow> holds_keys priv pub ek (id_step valid call file)"
  by (cases call) (auto simp: holds_keys_def LoadOrCreateAt_def LoadOrCreateECDH_def writeIdentity_def Let_def no_text_no_bytes
      split: option.splits id_write.splits)

lemma id_run_holds:
  "holds_keys priv pub ek s \<Longrightarrow> list_all id_untorn calls \<Longrightarrow> holds_keys priv pub ek (fold (id_step valid) calls s)"
  by (induction calls arbitrary: s) (auto intro: id_step_holds)

lemma holds_keys_answers:
  assumes "holds_keys priv pub (Some k) s" "valid k"
  shows "loadIdentity s = Inr (priv, pub)" "fst (LoadOrCreateECDH valid keys d w ekey w' c s) = Inr k"
  using assms by (auto simp: holds_keys_def loadIdentity_def LoadOrCreateECDH_def)

lemma created_holds:
  assumes "LoadOrCreateAt (Some (priv, pub)) dirOk w NoIdentity = (Inr ks, file)"
  shows "ks = (priv, pub)" "holds_keys priv pub None file"
  using assms by (auto simp: LoadOrCreateAt_def generateIdentity_def holds_keys_def writeIdentity_def Let_def split: if_splits)

lemma ecdh_holds:
  assumes "holds_keys priv pub None file" "LoadOrCreateECDH valid keys dirOk w ekey w' chmodOk file = (Inr k, file')"
    "\<forall>k. valid k \<longrightarrow> k \<noteq> []" "\<forall>k. ekey = Some k \<longrightarrow> valid k"
    and "\<forall>stored. file = IdStored stored \<longrightarrow> siECDHPrivateKey stored = []"
  shows "holds_keys priv pub (Some k) file'" "valid k"
  using assms by (auto simp: holds_keys_def LoadOrCreateECDH_def writeIdentity_def Let_def split: option.splits if_splits)

section \<open>Properties\<close>

text \<open>
  A node keeps its identity. After the keys are generated and the key for payloads is added,
  every later start, whatever it draws and however its writes end short of tearing the file,
  loads the same signing pair, hence the same node id, and the same payload key.
\<close>

theorem node_identity_stable:
  assumes "LoadOrCreateAt (Some (priv, pub)) dirOk w NoIdentity = (Inr ks, file)" "list_all id_untorn calls"
    and "LoadOrCreateECDH valid keys d1 w1 (Some k) w2 c1 file = (Inr ek, file')" "valid k" "\<forall>k. valid k \<longrightarrow> k \<noteq> []"
  shows "loadIdentity (fold (id_step valid) calls file') = Inr (priv, pub) \<and>
    (\<forall>keys d w ekey w' c. fst (LoadOrCreateECDH valid keys d w ekey w' c (fold (id_step valid) calls file')) = Inr k)"
proof -
  have f: "file = IdStored \<lparr> siPrivateKey = hexEncode priv, siPublicKey = hexEncode pub, siECDHPrivateKey = [] \<rparr>"
    using assms(1) by (auto simp: LoadOrCreateAt_def generateIdentity_def writeIdentity_def Let_def split: if_splits)
  have "holds_keys priv pub (Some k) file'"
    using assms(3,4,5) by (auto simp: f holds_keys_def LoadOrCreateECDH_def writeIdentity_def Let_def split: if_splits)
  from holds_keys_answers[where valid = valid, OF id_run_holds[where valid = valid, OF this assms(2)] assms(4)] show ?thesis by blast
qed

theorem node_identity_stable_witness:
  "loadIdentity (fold (id_step (\<lambda>k. k \<noteq> [])) [SigningCall (Some ([3], [4])) True WroteAll, ECDHCall None True WroteAll (Some [9]) WroteNothing True]
     (IdStored \<lparr> siPrivateKey = hexEncode [1], siPublicKey = hexEncode [2], siECDHPrivateKey = hexEncode [5] \<rparr>)) = Inr ([1], [2])"
proof -
  have a: "LoadOrCreateAt (Some ([1], [2])) True WroteAll NoIdentity =
      (Inr ([1], [2]), IdStored \<lparr> siPrivateKey = hexEncode [1], siPublicKey = hexEncode [2], siECDHPrivateKey = [] \<rparr>)"
    by (simp add: LoadOrCreateAt_def generateIdentity_def writeIdentity_def)
  have b: "LoadOrCreateECDH (\<lambda>k. k \<noteq> []) None True WroteAll (Some [5]) WroteAll True
      (IdStored \<lparr> siPrivateKey = hexEncode [1], siPublicKey = hexEncode [2], siECDHPrivateKey = [] \<rparr>) =
      (Inr [5], IdStored \<lparr> siPrivateKey = hexEncode [1], siPublicKey = hexEncode [2], siECDHPrivateKey = hexEncode [5] \<rparr>)"
    by (simp add: LoadOrCreateECDH_def writeIdentity_def)
  show ?thesis by (rule conjunct1[OF node_identity_stable[OF a _ b]]) simp_all
qed

text \<open>
  The coordinator accepts, for a node it pinned, exactly the connections whose first certificate
  has the hash of the node's own one: only that certificate when the hash is injective.
\<close>

lemma pinned_certificate_only:
  assumes "CertFingerprint C pemDecode (Some raw) = Some fp" "pemDecode raw = Some cert" "inj (sha256 C)" "sha256 C cert \<noteq> []"
  shows "pinAccepts C fp certs \<longleftrightarrow> certs \<noteq> [] \<and> hd certs = cert"
  using assms(1,2,4) by (auto simp: CertFingerprint_def pinAccepts_def hexEncode_inj inj_eq[OF assms(3)])

text \<open>
  A benchmark without a chosen model runs a model that is downloaded, and once its result is
  saved it is what every later manifest declares; a failed one changes nothing.
\<close>

lemma downloaded_have_ids: "GetDownloadedModels X = Inr ms \<Longrightarrow> m \<in> set ms \<Longrightarrow>
    firstStringField m [''id'', ''model_id''] \<noteq> [] \<and> firstStringField m [''id'', ''model_id''] = asString (m ''id'')"
  by (auto simp: GetDownloadedModels_def split: sum.splits)

lemma benchmark_declared:
  assumes "benchRunCmd X0 X1 X elapsed now dirOk w modelID promptID samples cache = (r, cache')"
  shows "case r of
      Inl e \<Rightarrow> cache' = cache
    | Inr sig \<Rightarrow> (dirOk \<and> w = WroteAll \<longrightarrow> loadLastSignature cache' tps = Some sig) \<and>
        (\<exists>model. RunBench X elapsed now model promptID samples = Inr sig \<and> model \<noteq> [] \<and>
          (modelID = [] \<longrightarrow> (\<exists>ms m. GetDownloadedModels X1 = Inr ms \<and> m \<in> set ms \<and> model = asString (m ''id''))))"
proof -
  have "firstStringField m [''id'', ''model_id''] = asString (m ''id'')" "asString (m ''id'') \<noteq> []"
    if m: "GetDownloadedModels X1 = Inr (m # ms)" for m ms
    using downloaded_have_ids[OF m, of m] by auto
  then show ?thesis using assms
    by (fastforce simp: benchRunCmd_def SaveBenchmarkResult_def loadLastSignature_def
        split: if_splits sum.splits list.splits id_write.splits prod.splits)
qed

text \<open>
  Flags win over saved settings, and a saved endpoint that is loopback never switches a node out
  of pull mode.
\<close>

lemma flags_win:
  "sfChanged f ''cap'' \<Longrightarrow> acCapacityPct (mergedConfig loopback p chaos f saved) = sfCap f"
  "sfChanged f ''region'' \<Longrightarrow> acGeo (mergedConfig loopback p chaos f saved) = sfRegion f"
  "sfChanged f ''coordinator'' \<Longrightarrow> acCoordinatorURL (mergedConfig loopback p chaos f saved) = sfCoordinator f"
  "sfChanged f ''reachability-endpoint'' \<Longrightarrow> acReachability (mergedConfig loopback p chaos f saved) = sfReachability f"
  by (simp_all add: mergedConfig_def mergedReachability_def split: prod.splits)

lemma stale_endpoint_pulls:
  "\<not> sfChanged f ''reachability-endpoint'' \<Longrightarrow> sfReachability f = [] \<Longrightarrow> loopback (ncReachability saved) \<Longrightarrow>
     pullMode (mergedConfig loopback p chaos f saved)"
  by (simp add: mergedConfig_def mergedReachability_def pullMode_def split: prod.splits)

text \<open>
  A region is never detected. Without a settings file and without the flag, the region of a
  node is the default of the settings, wherever it is; the flag's help and the agent's options
  promise its detection from the time zone.
\<close>

theorem region_never_detected:
  assumes "\<not> sfChanged f ''region''" "\<not> scheduleChanged f" "nodeStartCmd decode E loopback position chaos f NoConf = (Inr cfg, file)"
  shows "opGeo (nodeOptions offset cfg ecdhPub fingerprint) = ''us''"
  using assms by (auto simp: nodeStartCmd_def LoadConfig_def mergedConfig_def DefaultNodeConfig_def nodeOptions_def Let_def split: prod.splits)

theorem region_never_detected_witness:
  "\<exists>cfg file. nodeStartCmd (\<lambda>b c. (c, True))
      \<lparr> ceText = asciiText, ceParseURL = (\<lambda>s. None), ceDraftOrder = [], ceEncode = (\<lambda>c. []), ceDirOk = True, ceWriteOk = True \<rparr> (\<lambda>s. True) None 0
      \<lparr> sfCoordinator = ''http://c'', sfListen = '':8765'', sfExo = ''http://e'', sfReachability = [], sfCap = 1 / 2, sfRefresh = 30, sfBench = 0,
        sfRegion = [], sfLat = 0, sfLng = 0, sfDeclaredGB = 0, sfUser = [], sfTLSCert = [], sfTLSKey = [], sfMode = [], sfStart = [], sfEnd = [],
        sfDays = [], sfChanged = (\<lambda>s. False) \<rparr> NoConf = (Inr cfg, file) \<and>
     opGeo (nodeOptions 36000 cfg None []) = ''us'' \<and> guessRegion 36000 = ''apac''"
proof -
  let ?E = "\<lparr> ceText = asciiText, ceParseURL = (\<lambda>s. None), ceDraftOrder = [], ceEncode = (\<lambda>c. []), ceDirOk = True, ceWriteOk = True \<rparr>"
  let ?f = "\<lparr> sfCoordinator = ''http://c'', sfListen = '':8765'', sfExo = ''http://e'', sfReachability = [], sfCap = 1 / 2, sfRefresh = 30, sfBench = 0,
        sfRegion = [], sfLat = 0, sfLng = 0, sfDeclaredGB = 0, sfUser = [], sfTLSCert = [], sfTLSKey = [], sfMode = [], sfStart = [], sfEnd = [],
        sfDays = [], sfChanged = (\<lambda>s. False) \<rparr>"
  have n: "\<not> scheduleChanged ?f" by (simp add: scheduleChanged_def)
  obtain cfg where c: "nodeStartCmd (\<lambda>b c. (c, True)) ?E (\<lambda>s. True) None 0 ?f NoConf = (Inr cfg, NoConf)"
    using n by (simp add: nodeStartCmd_def)
  have "opGeo (nodeOptions 36000 cfg None []) = ''us''" by (rule region_never_detected[OF _ n c]) simp
  then show ?thesis using c by (auto simp: guessRegion_def)
qed

end
