(* ===== verification/SafeFetch.thy ===== *)
theory SafeFetch
  imports HttpGuards
begin

text \<open>
  The HTTP client that fetches payloads from addresses clients choose (\<open>SafeFetchClient\<close> of
  \<open>internal/httpmw/ssrf.go\<close>): every connection passes the dialer's hook and every redirect the
  check of its URL. Parsing and resolving, the addresses a dial tries, the answers and the time
  each hop takes are arguments; the client's deadline covers the whole fetch.
\<close>

section \<open>The client\<close>

text \<open>An answer that redirects carries the URL of the next request.\<close>

datatype fetch_answer = FetchBroken | FetchDone int bytes | FetchMoved string

datatype safe_error = DialFailed | FetchCut | FetchTimedOut | RedirectBlocked fetch_error

text \<open>
  \<open>fwLookup i\<close> resolves names for the check of the request of hop \<open>i\<close>, \<open>fwDial i\<close> gives the
  addresses its dial tries and which accept, after its own resolution.
\<close>

record fetch_world =
  fwParse :: "string \<Rightarrow> (string \<times> string) option"
  fwLookup :: "nat \<Rightarrow> string \<Rightarrow> bytes list option"
  fwDial :: "nat \<Rightarrow> string \<Rightarrow> (string \<times> bool) list"
  fwAnswer :: "nat \<Rightarrow> string \<Rightarrow> fetch_answer"
  fwTook :: "nat \<Rightarrow> string \<Rightarrow> duration"

definition dialSafely :: "netlib \<Rightarrow> (bytes \<Rightarrow> fetch_error option) \<Rightarrow> (string \<times> bool) list \<Rightarrow> string option" where
  "dialSafely L ipCheck tries =
     map_option fst (find (\<lambda>(address, accepts). dialControl L ipCheck address = None \<and> accepts) tries)"

definition checkRedirect :: "netlib \<Rightarrow> fetch_world \<Rightarrow> nat \<Rightarrow> string \<Rightarrow> fetch_error option" where
  "checkRedirect L W i url = ValidateFetchURL L (fwParse W) (fwLookup W i) url"

text \<open>
  One hop after the other. \<open>sent\<close> holds the requests sent and the addresses they went to; None is
  a fetch that never ends.
\<close>

partial_function (option) followSafely :: "netlib \<Rightarrow> (bytes \<Rightarrow> fetch_error option) \<Rightarrow> fetch_world \<Rightarrow> duration \<Rightarrow> nat \<Rightarrow> string \<Rightarrow>
    (string \<times> string) list \<Rightarrow> ((safe_error + int \<times> bytes) \<times> (string \<times> string) list) option" where
  "followSafely L ipCheck W remaining i url sent =
     (case dialSafely L ipCheck (fwDial W i url) of
        None \<Rightarrow> Some (Inl DialFailed, sent)
      | Some address \<Rightarrow>
          if fwTook W i url \<ge> remaining then Some (Inl FetchTimedOut, sent @ [(url, address)])
          else case fwAnswer W i url of
              FetchBroken \<Rightarrow> Some (Inl FetchCut, sent @ [(url, address)])
            | FetchDone status body \<Rightarrow> Some (Inr (status, body), sent @ [(url, address)])
            | FetchMoved url' \<Rightarrow>
                (case checkRedirect L W (Suc i) url' of
                   Some e \<Rightarrow> Some (Inl (RedirectBlocked e), sent @ [(url, address)])
                 | None \<Rightarrow> followSafely L ipCheck W (remaining - fwTook W i url) (Suc i) url' (sent @ [(url, address)])))"

definition SafeFetch :: "netlib \<Rightarrow> fetch_world \<Rightarrow> duration \<Rightarrow> string \<Rightarrow> ((safe_error + int \<times> bytes) \<times> (string \<times> string) list) option" where
  "SafeFetch L W timeout url = followSafely L checkIP W timeout 0 url []"

section \<open>What it connects to\<close>

definition safe_hop :: "netlib \<Rightarrow> string \<Rightarrow> bool" where
  "safe_hop L address \<longleftrightarrow> (\<exists>host ip. splitHostPort L address = Some host \<and> parseIP L host = Some ip \<and> checkIP ip = None)"

definition guarded_log :: "netlib \<Rightarrow> fetch_world \<Rightarrow> (string \<times> string) list \<Rightarrow> bool" where
  "guarded_log L W sent \<longleftrightarrow> (\<forall>(url, address) \<in> set sent. safe_hop L address) \<and>
     (\<forall>k < length sent. 0 < k \<longrightarrow> checkRedirect L W k (fst (sent ! k)) = None)"

lemma dialSafely_safe: "dialSafely L checkIP tries = Some address \<Longrightarrow> safe_hop L address"
  by (force simp: dialSafely_def find_Some_iff dialControl_def safe_hop_def split: option.splits)

lemma guarded_snoc:
  assumes "guarded_log L W sent" "safe_hop L address" "sent \<noteq> [] \<Longrightarrow> checkRedirect L W (length sent) url = None"
  shows "guarded_log L W (sent @ [(url, address)])"
  using assms unfolding guarded_log_def by (auto simp: nth_append less_Suc_eq)

text \<open>With hops that take time the deadline ends every chain of redirects.\<close>

lemma followSafely_returns:
  assumes "\<forall>i u. 1 \<le> fwTook W i u" "guarded_log L W sent" "i = length sent" "sent \<noteq> [] \<Longrightarrow> checkRedirect L W i url = None"
  shows "\<exists>r sent'. followSafely L checkIP W remaining i url sent = Some (r, sent') \<and> guarded_log L W sent'"
  using assms(2-4)
proof (induction "nat remaining" arbitrary: remaining i url sent rule: less_induct)
  case less
  show ?case
  proof (cases "dialSafely L checkIP (fwDial W i url)")
    case None
    then show ?thesis using less.prems by (simp add: followSafely.simps)
  next
    case (Some address)
    let ?sent = "sent @ [(url, address)]"
    have g: "guarded_log L W ?sent" using guarded_snoc[OF less.prems(1) dialSafely_safe[OF Some]] less.prems(2,3) by auto
    show ?thesis
    proof (cases "fwTook W i url \<ge> remaining")
      case True
      then show ?thesis using Some g by (simp add: followSafely.simps)
    next
      case False
      show ?thesis
      proof (cases "fwAnswer W i url")
        case (FetchMoved u)
        show ?thesis
        proof (cases "checkRedirect L W (Suc i) u")
          case None
          have "nat (remaining - fwTook W i url) < nat remaining"
            using False spec[OF spec[OF assms(1), of i], of url] by simp
          from less.hyps[OF this g, of "Suc i" u] None less.prems(2)
          show ?thesis using Some False FetchMoved by (subst followSafely.simps) simp
        qed (use Some False FetchMoved g in \<open>subst followSafely.simps, simp\<close>)
      qed (use Some False g in \<open>subst followSafely.simps, simp\<close>)+
    qed
  qed
qed


text \<open>A chain of \<open>n\<close> redirects, each hop taking a nanosecond, between allowed addresses.\<close>

definition chainWorld :: "nat \<Rightarrow> fetch_world" where
  "chainWorld n = \<lparr> fwParse = (\<lambda>u. Some (''http'', ''C'')), fwLookup = (\<lambda>i h. None), fwDial = (\<lambda>i u. [(''C'', True)]),
     fwAnswer = (\<lambda>i u. if i < n then FetchMoved ''http://C/next'' else FetchDone 200 []), fwTook = (\<lambda>i u. 1) \<rparr>"

lemma chainWorld_follows:
  assumes "parseIP L ''C'' = Some [9, 9, 9, 9]" "splitHostPort L ''C'' = Some ''C''" "i \<le> n" "int (n - i) + 1 < remaining"
  shows "\<exists>sent'. followSafely L checkIP (chainWorld n) remaining i url sent = Some (Inr (200, []), sent') \<and> length sent' = length sent + (n - i) + 1"
  using assms(3,4)
proof (induction "n - i" arbitrary: i url sent remaining)
  case 0
  have c: "checkIP [9, 9, 9, 9] = None" by code_simp
  show ?case using 0 c by (subst followSafely.simps) (simp add: chainWorld_def dialSafely_def dialControl_def assms(1,2))
next
  case (Suc k)
  have c: "checkIP [9, 9, 9, 9] = None" by code_simp
  have r: "checkRedirect L (chainWorld n) j u = None" for j u
    by (simp add: checkRedirect_def ValidateFetchURL_def chainWorld_def assms(1) c)
  have k: "k = n - Suc i" "Suc i \<le> n" "int (n - Suc i) + 1 < remaining - 1" using Suc.hyps(2) Suc.prems by auto
  obtain sent' where s: "followSafely L checkIP (chainWorld n) (remaining - 1) (Suc i) ''http://C/next'' (sent @ [(url, ''C'')]) = Some (Inr (200, []), sent')"
      "length sent' = length (sent @ [(url, ''C'')]) + (n - Suc i) + 1"
    using Suc.hyps(1)[OF k] by blast
  have d: "dialSafely L checkIP (fwDial (chainWorld n) i url) = Some ''C''"
    by (simp add: chainWorld_def dialSafely_def dialControl_def assms(1,2) c)
  have "followSafely L checkIP (chainWorld n) remaining i url sent =
      followSafely L checkIP (chainWorld n) (remaining - 1) (Suc i) ''http://C/next'' (sent @ [(url, ''C'')])"
    using d r k Suc.prems by (subst followSafely.simps) (simp add: chainWorld_def)
  then show ?case using s k by (intro exI[of _ sent']) simp
qed

text \<open>
  Redirects are not bounded by ten: with the client's own check in place the default limit of
  net/http is gone, and a server is followed through as many redirects as it answers within the
  deadline.
\<close>

theorem redirects_unbounded:
  assumes "int n + 1 < timeout"
  shows "\<exists>sent. SafeFetch toyNet (chainWorld n) timeout url = Some (Inr (200, []), sent) \<and> length sent = n + 1"
proof -
  have n: "parseIP toyNet ''C'' = Some [9, 9, 9, 9]" "splitHostPort toyNet ''C'' = Some ''C''" by (simp_all add: toyNet_def)
  show ?thesis using chainWorld_follows[OF n, of 0 n timeout url "[]"] assms by (simp add: SafeFetch_def)
qed

theorem redirects_unbounded_witness: "\<exists>sent. SafeFetch toyNet (chainWorld 1000000) (30 * second) ''http://C/'' = Some (Inr (200, []), sent) \<and> length sent = 1000001"
  using redirects_unbounded[of 1000000 "30 * second" "''http://C/''"] by simp


end
