(* ===== verification/Streaming.thy ===== *)
theory Streaming
  imports Exo
begin

text \<open>
  The coordinator's end of a streamed request (\<open>dispatchToNodeStreaming\<close> in
  \<open>internal/coordinator/router.go\<close>): the request a node receives, the headers and lines that
  reach the client, and what the retries of \<open>DispatchFastLaneStreaming\<close> let through. What a node
  answers, with the lines of its stream, is an argument.
\<close>

section \<open>One node\<close>

datatype stream_response = StreamUnanswered | StreamAnswer int "string list" bool

type_synonym header = "string \<rightharpoonup> string"

definition streamingPayload :: "JobSpec \<Rightarrow> jobj list \<Rightarrow> jobj" where
  "streamingPayload job messages =
     (let payload = [''model'' \<mapsto> JStr (ModelID job), ''messages'' \<mapsto> JArr (map JObj messages), ''stream'' \<mapsto> JBool True]
      in if PayloadRef job \<noteq> []
         then payload(''oim_payload_hash'' \<mapsto> JStr (PayloadRef job),
                      ''oim_payload_fetch_url'' \<mapsto> JStr (PayloadFetchURL job),
                      ''oim_ephemeral_public_key'' \<mapsto> JStr (PayloadEphemeralPubKey job))
         else payload)"

definition setSSEHeaders :: "header \<Rightarrow> header" where
  "setSSEHeaders h = h(''Content-Type'' \<mapsto> ''text/event-stream'', ''Cache-Control'' \<mapsto> ''no-cache'',
     ''Connection'' \<mapsto> ''keep-alive'', ''X-Accel-Buffering'' \<mapsto> ''no'')"

text \<open>The client's response is its headers and what was written; the headers no longer count after the first byte.\<close>

record client_response =
  crHeader :: header
  crWritten :: string

definition dispatchToNodeStreaming :: "(string \<Rightarrow> int option) \<Rightarrow> JobSpec \<Rightarrow> NodeTarget \<Rightarrow> stream_response \<Rightarrow> client_response \<Rightarrow>
    stream_outcome \<times> client_response" where
  "dispatchToNodeStreaming usage job target resp w = (case resp of
       StreamUnanswered \<Rightarrow> (\<lparr> started = False, streamTokens = 0, streamErr = True \<rparr>, w)
     | StreamAnswer status lines failed \<Rightarrow>
         if status \<ge> 400 then (\<lparr> started = False, streamTokens = 0, streamErr = True \<rparr>, w)
         else let h = setSSEHeaders ((crHeader w)(''X-OIM-Served-By-Node-Id'' \<mapsto> TargetNodeID target, ''X-OIM-Lane'' \<mapsto> Lane job));
                  (relayed, out) = Relay usage lines failed
              in (out, \<lparr> crHeader = h, crWritten = crWritten w @ relayed \<rparr>))"

section \<open>The client's view of the retries\<close>

text \<open>The nodes tried, each answering \<open>resp\<close> for its attempt, write to one response after the other.\<close>

fun relayTried :: "(string \<Rightarrow> int option) \<Rightarrow> (nat \<Rightarrow> NodeWithLoad \<Rightarrow> stream_response) \<Rightarrow> JobSpec \<Rightarrow> nat \<Rightarrow> NodeWithLoad list \<Rightarrow>
    client_response \<Rightarrow> client_response" where
  "relayTried usage resp job k [] w = w"
| "relayTried usage resp job k (n # ns) w =
     relayTried usage resp job (Suc k) ns (snd (dispatchToNodeStreaming usage job (TargetFromManifest (Manifest n)) (resp k n) w))"

definition streamOutcome :: "(string \<Rightarrow> int option) \<Rightarrow> (nat \<Rightarrow> NodeWithLoad \<Rightarrow> stream_response) \<Rightarrow> JobSpec \<Rightarrow> nat \<Rightarrow> NodeWithLoad \<Rightarrow> stream_outcome" where
  "streamOutcome usage resp job k n =
     fst (dispatchToNodeStreaming usage job (TargetFromManifest (Manifest n)) (resp k n) \<lparr> crHeader = Map.empty, crWritten = [] \<rparr>)"

text \<open>The lines of a node that was not refused.\<close>

definition streamLines :: "stream_response \<Rightarrow> string list" where
  "streamLines resp = (case resp of StreamUnanswered \<Rightarrow> [] | StreamAnswer status lines failed \<Rightarrow> if status \<ge> 400 then [] else lines)"

definition onLines :: "string list \<Rightarrow> string" where
  "onLines lines = concat (map (\<lambda>l. l @ [CHR 0x0A]) lines)"

lemma outcome_independent: "fst (dispatchToNodeStreaming usage job t resp w) = fst (dispatchToNodeStreaming usage job t resp w')"
  by (auto simp: dispatchToNodeStreaming_def Relay_def Let_def split: stream_response.splits)

lemma dispatch_writes: "crWritten (snd (dispatchToNodeStreaming usage job t resp w)) = crWritten w @ onLines (streamLines resp)"
  by (auto simp: dispatchToNodeStreaming_def Relay_def streamLines_def onLines_def Let_def split: stream_response.splits)

lemma outcome_started: "started (streamOutcome usage resp job k n) \<longleftrightarrow> streamLines (resp k n) \<noteq> []"
  by (auto simp: streamOutcome_def dispatchToNodeStreaming_def Relay_def streamLines_def Let_def split: stream_response.splits)

lemma outcome_good: "\<not> streamErr (streamOutcome usage resp job k n) \<Longrightarrow>
    crHeader (snd (dispatchToNodeStreaming usage job (TargetFromManifest (Manifest n)) (resp k n) w)) ''X-OIM-Served-By-Node-Id'' = Some (NodeID (Manifest n))"
  by (auto simp: streamOutcome_def dispatchToNodeStreaming_def Relay_def Let_def setSSEHeaders_def TargetFromManifest_def split: stream_response.splits if_splits)

lemma onLines_Nil [simp]: "onLines [] = []" by (simp add: onLines_def)

text \<open>What a client may rely on when a streamed dispatch ended with \<open>res\<close> after the attempts \<open>tried\<close>.\<close>

definition stream_sound :: "(nat \<Rightarrow> NodeWithLoad \<Rightarrow> stream_response) \<Rightarrow> nat \<Rightarrow> NodeWithLoad list \<Rightarrow> stream_result \<Rightarrow> string \<Rightarrow> client_response \<Rightarrow> bool" where
  "stream_sound resp k tried res before w \<longleftrightarrow>
     crWritten w = before @ (if headersSent res then onLines (streamLines (resp (k + length tried - 1) (last tried))) else []) \<and>
     (headersSent res \<longrightarrow> tried \<noteq> []) \<and>
     (case dispatchErr res of
        Some e \<Rightarrow> servedBy res = []
      | None \<Rightarrow> headersSent res \<and> servedBy res = NodeID (Manifest (last tried)) \<and> crHeader w ''X-OIM-Served-By-Node-Id'' = Some (servedBy res))"

lemma tryStreaming_sound:
  assumes "tryStreaming (streamOutcome usage resp job) elapsedOf job maxAttempts k ns r = (res, r', tried)"
  shows "stream_sound resp k tried res (crWritten w) (relayTried usage resp job k tried w)"
  using assms
proof (induction ns arbitrary: k r res r' tried w)
  case (Cons n ns)
  let ?out = "streamOutcome usage resp job k n" and ?t = "TargetFromManifest (Manifest n)"
  let ?w = "snd (dispatchToNodeStreaming usage job ?t (resp k n) w)"
  show ?case
  proof (cases "int k \<ge> maxAttempts")
    case True
    then show ?thesis using Cons.prems by (auto simp: stream_sound_def)
  next
    case attempt: False
    show ?thesis
    proof (cases "streamErr ?out \<and> \<not> started ?out")
      case True
      then obtain res' r3 tried' where r: "tryStreaming (streamOutcome usage resp job) elapsedOf job maxAttempts (k + 1) ns
          (MarkUnreachable (NodeID (Manifest n)) (DecrInFlight (NodeID (Manifest n)) (IncrInFlight (NodeID (Manifest n)) r))) = (res', r3, tried')"
        and e: "res = res'" "tried = n # tried'"
        using Cons.prems attempt by (auto simp: Let_def split: prod.splits)
      have "streamLines (resp k n) = []" using True by (simp add: outcome_started)
      then have "crWritten ?w = crWritten w" by (simp add: dispatch_writes)
      with Cons.IH[OF r, of ?w] show ?thesis unfolding e by (cases tried') (auto simp: stream_sound_def split: option.splits)
    next
      case False
      then have t: "tried = [n]" and res: "res = (if streamErr ?out
          then \<lparr> servedBy = [], servedTokens = streamTokens ?out, headersSent = True, dispatchErr = Some StreamFailed \<rparr>
          else \<lparr> servedBy = NodeID (Manifest n), servedTokens = streamTokens ?out, headersSent = True, dispatchErr = None \<rparr>)"
        using Cons.prems attempt by (auto simp: Let_def split: if_splits)
      show ?thesis unfolding t res stream_sound_def using outcome_good[of usage resp job k n w] by (simp add: dispatch_writes)
    qed
  qed
qed (auto simp: stream_sound_def)

text \<open>
  Whatever nodes fail on the way, a client of a streamed request gets the lines of one node
  only: of the node that is reported, credited and named in the header when the dispatch
  succeeds, of the last node tried when its stream broke, and nothing at all when no stream
  began.
\<close>

theorem stream_from_one_node:
  assumes "DispatchFastLaneStreaming (streamOutcome usage resp job) elapsedOf d1 d2 job messages maxAttempts now ks r = (res, r', tried)"
    and "crWritten w = []"
  shows "crWritten (relayTried usage resp job 0 tried w) =
      (if headersSent res then onLines (streamLines (resp (length tried - 1) (last tried))) else []) \<and>
    (headersSent res \<longrightarrow> tried \<noteq> []) \<and>
    (case dispatchErr res of
       Some e \<Rightarrow> servedBy res = []
     | None \<Rightarrow> headersSent res \<and> servedBy res = NodeID (Manifest (last tried)) \<and>
         crHeader (relayTried usage resp job 0 tried w) ''X-OIM-Served-By-Node-Id'' = Some (servedBy res))"
  using tryStreaming_sound[OF assms(1)[unfolded DispatchFastLaneStreaming_def Let_def], of w] assms(2)
  by (simp add: stream_sound_def)

text \<open>After a failed dispatch the answer still names a node whose stream broke before its first line.\<close>

lemma failed_stream_names_node:
  assumes "resp 0 n = StreamAnswer 200 [] True" "0 < maxAttempts"
  shows "case tryStreaming (streamOutcome usage resp job) elapsedOf job maxAttempts 0 [n] r of (res, r', tried) \<Rightarrow>
      \<not> headersSent res \<and> dispatchErr res \<noteq> None \<and>
      crHeader (relayTried usage resp job 0 tried w) ''X-OIM-Served-By-Node-Id'' = Some (NodeID (Manifest n))"
  using assms by (simp add: streamOutcome_def dispatchToNodeStreaming_def Relay_def setSSEHeaders_def TargetFromManifest_def Let_def)

theorem stream_from_one_node_witness:
  "\<exists>res r' (w :: client_response). DispatchFastLaneStreaming (streamOutcome (\<lambda>f. None) (\<lambda>k n. StreamAnswer 200 [''data: a'', []] False) secretJob) (\<lambda>k n. 1) 0 0
      secretJob [] 1 0 [replicate 32 CHR ''0''] attestedReg = (res, r', [attestedNode]) \<and>
    crWritten w = ''data: a'' @ [CHR 0x0A, CHR 0x0A] \<and> servedBy res = replicate 32 CHR ''0'' \<and>
    crHeader w ''X-OIM-Served-By-Node-Id'' = Some (replicate 32 CHR ''0'')"
proof -
  let ?resp = "\<lambda>(k :: nat) (n :: NodeWithLoad). StreamAnswer 200 [''data: a'', []] False" and ?w = "\<lparr> crHeader = Map.empty, crWritten = [] \<rparr>"
  have j: "ModelID secretJob = ''m''" "QuantizationRequired secretJob = []" by (simp_all add: secretJob_def sampleJob_def emptyJob_def)
  have p: "filterPushOnly [attestedNode] = [attestedNode]"
    by (simp add: filterPushOnly_def attestedNode_def attestedEntry_def emptyManifest_def)
  have n: "NodeID (Manifest attestedNode) = replicate 32 CHR ''0''" by (simp add: attestedNode_def attestedEntry_def)
  obtain res r' where d: "DispatchFastLaneStreaming (streamOutcome (\<lambda>f. None) ?resp secretJob) (\<lambda>k n. 1) 0 0
      secretJob [] 1 0 [replicate 32 CHR ''0''] attestedReg = (res, r', [attestedNode])"
    and e: "dispatchErr res = None" "headersSent res"
    unfolding DispatchFastLaneStreaming_def j Let_def attested_candidates rank_single[OF secret_eligible] p
    by (simp add: streamOutcome_def dispatchToNodeStreaming_def Relay_def Let_def)
  have "onLines (streamLines (?resp 0 attestedNode)) = ''data: a'' @ [CHR 0x0A, CHR 0x0A]" by (simp add: onLines_def streamLines_def)
  with stream_from_one_node[OF d, of ?w] e n d show ?thesis
    by (intro exI[of _ res] exI[of _ r'] exI[of _ "relayTried (\<lambda>f. None) ?resp secretJob 0 [attestedNode] ?w"]) simp
qed

end
